(* ===== verification/Quicr_Prelude.thy ===== *)
theory Quicr_Prelude
  imports Main "HOL-Library.Word"
begin

section \<open>Prelude: machine integers, byte strings, exceptions\<close>

text \<open>
  What every component of the model shares: the fixed-width unsigned integers of the code as
  words, byte strings as lists of octets, the C++ exceptions as values of one sum type, and the
  generic lemmas on lists and words that carry the component proofs.
\<close>

unbundle bit_operations_syntax

type_synonym u8 = "8 word"
type_synonym u16 = "16 word"
type_synonym u32 = "32 word"
type_synonym u64 = "64 word"
type_synonym bytes = "8 word list"

text \<open>
  The exceptions the modelled code throws, and the two ways C++ code can go wrong without an
  exception: a failed \<^verbatim>\<open>assert\<close> and undefined behaviour (an access outside a buffer).
\<close>

datatype exn =
    Invalid_Argument string
  | Out_Of_Range string
  | Protocol_Violation string
  | Runtime_Error string
  | Bad_Optional_Access
  | Bad_Any_Cast
  | Assert_Failed
  | Undefined_Behaviour

type_synonym 'a result = "exn + 'a"

definition bind_result :: "'a result \<Rightarrow> ('a \<Rightarrow> 'b result) \<Rightarrow> 'b result" where
  "bind_result r f = (case r of Inl e \<Rightarrow> Inl e | Inr x \<Rightarrow> f x)"

named_theorems codec_simps \<open>encode/decode equations of the wire formats\<close>
named_theorems codec_defs \<open>definitions of the operators of the wire formats\<close>

lemma bind_result_simps [simp]:
  "bind_result (Inr x) f = f x"
  "bind_result (Inl e) f = Inl e"
  by (simp_all add: bind_result_def)

lemma bind_result_Inr_iff:
  "bind_result r f = Inr y \<longleftrightarrow> (\<exists>x. r = Inr x \<and> f x = Inr y)"
  by (cases r) auto

lemma bind_result_assoc:
  "bind_result (bind_result r f) g = bind_result r (\<lambda>x. bind_result (f x) g)"
  by (cases r) auto

subsection \<open>Lists\<close>

lemma hd_take_pos [simp]: "0 < n \<Longrightarrow> hd (take n xs) = hd xs"
  by (cases n) (cases xs, auto)

subsection \<open>Words\<close>

text \<open>Truncating a size to a wider or equal width loses nothing while the size fits.\<close>

lemma unat_of_nat_small: "n < 2 ^ LENGTH('a::len) \<Longrightarrow> unat (of_nat n :: 'a word) = n"
  by (simp add: unat_of_nat take_bit_nat_eq_self)

lemma unat_less_pow: "unat (w :: 'a::len word) < 2 ^ LENGTH('a)"
  by (rule unsigned_less)

lemma word_less_numeral_unat:
  "(w :: 'a::len word) < numeral k \<longleftrightarrow> unat w < unat (numeral k :: 'a word)"
  by (simp add: word_less_nat_alt)


subsection \<open>Interface: reading a field off a byte stream\<close>

text \<open>
  The contract the incremental parsers rely on: a field reader that succeeded on the octets
  received so far returns the same field when more octets follow, leaves what follows untouched,
  and consumes at least one octet.
\<close>

locale stream_field =
  fixes parse :: "bytes \<Rightarrow> ('a \<times> bytes) option"
  assumes parse_more: "parse b = Some (x, r) \<Longrightarrow> parse (b @ c) = Some (x, r @ c)"
    and parse_consumes: "parse b = Some (x, r) \<Longrightarrow> length r < length b"
begin

lemma parse_waits: "parse (b @ c) = None \<Longrightarrow> parse b = None"
  using parse_more by (cases "parse b") fastforce+

lemma parse_empty: "parse [] = None"
  using parse_consumes [of "[]"] by (cases "parse []") auto

text \<open>On a prefix of an input that parses, the reader either returns the same field or waits, and
  it only waits while octets are outstanding.\<close>

lemma parse_prefix:
  assumes "parse (b @ c) = Some (x, f)"
  obtains r where "parse b = Some (x, r)" "r @ c = f" | "parse b = None" "c \<noteq> []"
proof (cases "parse b")
  case None
  then have "c \<noteq> []" using assms by auto
  with None that(2) show ?thesis by blast
next
  case (Some p)
  then obtain y s where "parse b = Some (y, s)" by (cases p) auto
  with parse_more [of b y s c] assms that(1) show ?thesis by auto
qed

end

subsection \<open>Interface: a wire format\<close>

text \<open>
  What a pair of operators \<^verbatim>\<open><<\<close> and \<^verbatim>\<open>>>\<close> promises: on a valid value the writer
  appends one fixed octet string to the buffer, and the reader turns that string back into the
  value, leaving what follows.
\<close>

primrec put_all :: "(bytes \<Rightarrow> 'a \<Rightarrow> bytes result) \<Rightarrow> bytes \<Rightarrow> 'a list \<Rightarrow> bytes result" where
  "put_all put buf [] = Inr buf"
| "put_all put buf (x # xs) = bind_result (put buf x) (\<lambda>buf'. put_all put buf' xs)"

primrec get_n :: "(bytes \<Rightarrow> ('a \<times> bytes) result) \<Rightarrow> nat \<Rightarrow> bytes \<Rightarrow> ('a list \<times> bytes) result" where
  "get_n get 0 bs = Inr ([], bs)"
| "get_n get (Suc n) bs =
     bind_result (get bs) (\<lambda>(x, bs'). bind_result (get_n get n bs') (\<lambda>(xs, r). Inr (x # xs, r)))"

locale wire_codec =
  fixes valid :: "'a \<Rightarrow> bool"
    and enc :: "'a \<Rightarrow> bytes"
    and put :: "bytes \<Rightarrow> 'a \<Rightarrow> bytes result"
    and get :: "bytes \<Rightarrow> ('a \<times> bytes) result"
  assumes put_enc: "valid x \<Longrightarrow> put buf x = Inr (buf @ enc x)"
    and get_enc: "valid x \<Longrightarrow> get (enc x @ rest) = Inr (x, rest)"
begin

lemma roundtrip: "valid x \<Longrightarrow> \<exists>w. put [] x = Inr w \<and> get (w @ rest) = Inr (x, rest)"
  by (simp add: put_enc get_enc)

lemma prefix_free:
  assumes "valid x" "valid y" "enc x @ r = enc y @ s" shows "x = y \<and> r = s"
  by (metis assms get_enc sum.inject(2) prod.inject)

text \<open>Writing a list of values one after the other and reading as many back.\<close>

lemma put_all_enc: "list_all valid xs \<Longrightarrow> put_all put buf xs = Inr (buf @ concat (map enc xs))"
  by (induction xs arbitrary: buf) (simp_all add: put_enc)

lemma get_n_enc:
  "list_all valid xs \<Longrightarrow> get_n get (length xs) (concat (map enc xs) @ rest) = Inr (xs, rest)"
  by (induction xs) (simp_all add: get_enc)

end

end
