(* ===== verification/Std_Map.thy ===== *)
theory Std_Map
  imports Quicr_Prelude
begin

section \<open>Ordered maps\<close>

text \<open>
  \<^verbatim>\<open>std::map\<close> as the code uses it: association lists in strictly increasing key order, so that
  iterating the map is iterating the list. \<^verbatim>\<open>find\<close> is \<open>map_find\<close>, \<^verbatim>\<open>m[k] = v\<close> is
  \<open>map_put\<close>, \<^verbatim>\<open>erase\<close> is \<open>map_erase\<close>, and \<^verbatim>\<open>m[k]\<close> read with a default-constructed
  entry is \<open>map_at\<close>.
\<close>

type_synonym ('k, 'v) std_map = "('k \<times> 'v) list"

abbreviation map_find :: "('k, 'v) std_map \<Rightarrow> 'k \<Rightarrow> 'v option" where
  "map_find m k \<equiv> map_of m k"

fun map_put :: "'k::linorder \<Rightarrow> 'v \<Rightarrow> ('k, 'v) std_map \<Rightarrow> ('k, 'v) std_map" where
  "map_put k v [] = [(k, v)]"
| "map_put k v ((k', v') # m) =
     (if k < k' then (k, v) # (k', v') # m
      else if k = k' then (k, v) # m
      else (k', v') # map_put k v m)"

definition map_erase :: "'k \<Rightarrow> ('k, 'v) std_map \<Rightarrow> ('k, 'v) std_map" where
  "map_erase k m = filter (\<lambda>(k', _). k' \<noteq> k) m"

definition map_at :: "'v \<Rightarrow> ('k, 'v) std_map \<Rightarrow> 'k \<Rightarrow> 'v" where
  "map_at d m k = (case map_find m k of None \<Rightarrow> d | Some v \<Rightarrow> v)"

definition map_contains :: "('k, 'v) std_map \<Rightarrow> 'k \<Rightarrow> bool" where
  "map_contains m k \<longleftrightarrow> map_find m k \<noteq> None"

definition map_wf :: "('k::linorder, 'v) std_map \<Rightarrow> bool" where
  "map_wf m \<longleftrightarrow> sorted_wrt (<) (map fst m)"

lemma map_wf_small [simp]: "map_wf []" "map_wf [p]"
  by (simp_all add: map_wf_def)

lemma map_contains_iff: "map_contains m k \<longleftrightarrow> k \<in> fst ` set m"
  by (auto simp: map_contains_def map_of_eq_None_iff)

text \<open>The contract of a finite map, and its interpretation on the ordered map.\<close>

locale finite_map_impl =
  fixes empty :: "'m"
    and lookup :: "'m \<Rightarrow> 'k \<Rightarrow> 'v option"
    and update :: "'k \<Rightarrow> 'v \<Rightarrow> 'm \<Rightarrow> 'm"
    and erase :: "'k \<Rightarrow> 'm \<Rightarrow> 'm"
    and invar :: "'m \<Rightarrow> bool"
  assumes lookup_empty: "lookup empty k = None"
    and lookup_update: "invar m \<Longrightarrow> lookup (update k v m) k' = (if k' = k then Some v else lookup m k')"
    and lookup_erase: "invar m \<Longrightarrow> lookup (erase k m) k' = (if k' = k then None else lookup m k')"
    and invar_empty: "invar empty"
    and invar_update: "invar m \<Longrightarrow> invar (update k v m)"
    and invar_erase: "invar m \<Longrightarrow> invar (erase k m)"
begin

lemma update_update: "invar m \<Longrightarrow> lookup (update k v (update k w m)) = lookup (update k v m)"
  by (rule ext) (simp add: lookup_update invar_update)

lemma erase_update: "invar m \<Longrightarrow> lookup m k = None \<Longrightarrow> lookup (erase k (update k v m)) = lookup m"
  by (rule ext) (simp add: lookup_update lookup_erase invar_update)

lemma lookup_fold_update:
  "invar m \<Longrightarrow> distinct (map fst kvs) \<Longrightarrow>
     lookup (fold (\<lambda>(k, v). update k v) kvs m) k' = (case map_of kvs k' of Some v \<Rightarrow> Some v | None \<Rightarrow> lookup m k')"
  by (induction kvs arbitrary: m)
    (auto simp: lookup_update invar_update split: option.splits dest: map_of_SomeD intro: rev_image_eqI)

end

lemma map_put_keys: "fst ` set (map_put k v m) = insert k (fst ` set m)"
  by (induction k v m rule: map_put.induct) auto

lemma map_find_put: "map_find (map_put k v m) k' = (if k' = k then Some v else map_find m k')"
  by (induction k v m rule: map_put.induct) auto

lemma map_put_find: "map_wf m \<Longrightarrow> map_find (map_put k v m) k' = (if k' = k then Some v else map_find m k')"
  by (induction k v m rule: map_put.induct) (auto simp: map_wf_def)

lemma map_erase_find: "map_find (map_erase k m) k' = (if k' = k then None else map_find m k')"
  by (induction m) (auto simp: map_erase_def)

lemma map_put_wf: "map_wf m \<Longrightarrow> map_wf (map_put k v m)"
proof (induction k v m rule: map_put.induct)
  case (2 k v k' v' m)
  then show ?case
    using map_put_keys [of k v m] by (auto simp: map_wf_def)
qed (simp add: map_wf_def)

lemma map_erase_wf: "map_wf m \<Longrightarrow> map_wf (map_erase k m)"
  by (induction m) (auto simp: map_wf_def map_erase_def)

interpretation std_map: finite_map_impl "[]" map_of map_put map_erase map_wf
  by unfold_locales (simp_all add: map_put_find map_erase_find map_put_wf map_erase_wf map_wf_def [of "[]"])

lemma map_wf_distinct: "map_wf m \<Longrightarrow> distinct (map fst m)"
  by (simp add: map_wf_def strict_sorted_iff)

lemma map_of_keys:
  assumes "distinct (map fst m)" shows "m = map (\<lambda>k. (k, the (map_of m k))) (map fst m)"
proof -
  have "the (map_of m (fst x)) = snd x" if "x \<in> set m" for x
    using map_of_is_SomeI [OF assms, of "fst x" "snd x"] that by simp
  then show ?thesis by (simp add: map_idI)
qed

lemma map_wf_eqI:
  assumes "map_wf m" "map_wf m'" "map_of m = map_of m'" shows "m = m'"
proof -
  have "set (map fst m) = set (map fst m')"
    using assms(3) by (metis dom_map_of_conv_image_fst set_map)
  then have "map fst m = map fst m'"
    using assms(1,2) by (intro sorted_distinct_set_unique) (simp_all add: map_wf_def strict_sorted_iff)
  then show ?thesis
    using map_of_keys [OF map_wf_distinct [OF assms(1)]] map_of_keys [OF map_wf_distinct [OF assms(2)]] assms(3)
    by metis
qed

lemma map_put_append: "map_wf (m @ [(k, v)]) \<Longrightarrow> map_put k v m = m @ [(k, v)]"
  by (induction m) (auto simp: map_wf_def sorted_wrt_append)

lemma map_put_put [simp]: "map_put k v (map_put k w m) = map_put k v m"
  by (induction k w m rule: map_put.induct) auto

end
