(* ===== verification/Wire_Enums.thy ===== *)
theory Wire_Enums
  imports Quicr_Prelude
begin

section \<open>Enumerations of the wire format\<close>

text \<open>
  The scoped enumerations of \<^verbatim>\<open>detail/ctrl_message_types.h\<close> and \<^verbatim>\<open>object.h\<close>. A C++
  enumeration with a fixed underlying type can hold every value of that type, and the decoders
  produce such values with \<^verbatim>\<open>static_cast\<close>; each datatype therefore has the source's
  enumerators and one more constructor for the unnamed values. \<open>E_of\<close> is the cast from the
  underlying integer and \<open>E_value\<close> the cast back.
\<close>

datatype GroupOrder =
    GroupOrder_kOriginalPublisherOrder
  | GroupOrder_kAscending
  | GroupOrder_kDescending
  | GroupOrder_other "u8"

primrec GroupOrder_value :: "GroupOrder \<Rightarrow> u8" where
  "GroupOrder_value GroupOrder_kOriginalPublisherOrder = 0"
| "GroupOrder_value GroupOrder_kAscending = 1"
| "GroupOrder_value GroupOrder_kDescending = 2"
| "GroupOrder_value (GroupOrder_other w) = w"

definition GroupOrder_of :: "u8 \<Rightarrow> GroupOrder" where
  "GroupOrder_of w =
     (if w = 0 then GroupOrder_kOriginalPublisherOrder
      else if w = 1 then GroupOrder_kAscending
      else if w = 2 then GroupOrder_kDescending
      else GroupOrder_other w)"

lemma GroupOrder_value_of [simp]: "GroupOrder_value (GroupOrder_of w) = w"
  by (simp add: GroupOrder_of_def)

datatype FilterType =
    FilterType_kLargestObject
  | FilterType_kNextGroupStart
  | FilterType_kAbsoluteStart
  | FilterType_kAbsoluteRange
  | FilterType_other "u64"

primrec FilterType_value :: "FilterType \<Rightarrow> u64" where
  "FilterType_value FilterType_kLargestObject = 2"
| "FilterType_value FilterType_kNextGroupStart = 1"
| "FilterType_value FilterType_kAbsoluteStart = 3"
| "FilterType_value FilterType_kAbsoluteRange = 4"
| "FilterType_value (FilterType_other w) = w"

definition FilterType_of :: "u64 \<Rightarrow> FilterType" where
  "FilterType_of w =
     (if w = 2 then FilterType_kLargestObject
      else if w = 1 then FilterType_kNextGroupStart
      else if w = 3 then FilterType_kAbsoluteStart
      else if w = 4 then FilterType_kAbsoluteRange
      else FilterType_other w)"

lemma FilterType_value_of [simp]: "FilterType_value (FilterType_of w) = w"
  by (simp add: FilterType_of_def)

datatype PublishDoneStatusCode =
    PublishDoneStatusCode_kInternalError
  | PublishDoneStatusCode_kUnauthorized
  | PublishDoneStatusCode_kTrackEnded
  | PublishDoneStatusCode_kSubscribtionEnded
  | PublishDoneStatusCode_kGoingAway
  | PublishDoneStatusCode_kExpired
  | PublishDoneStatusCode_kTooFarBehind
  | PublishDoneStatusCode_other "u64"

primrec PublishDoneStatusCode_value :: "PublishDoneStatusCode \<Rightarrow> u64" where
  "PublishDoneStatusCode_value PublishDoneStatusCode_kInternalError = 0"
| "PublishDoneStatusCode_value PublishDoneStatusCode_kUnauthorized = 1"
| "PublishDoneStatusCode_value PublishDoneStatusCode_kTrackEnded = 2"
| "PublishDoneStatusCode_value PublishDoneStatusCode_kSubscribtionEnded = 3"
| "PublishDoneStatusCode_value PublishDoneStatusCode_kGoingAway = 4"
| "PublishDoneStatusCode_value PublishDoneStatusCode_kExpired = 5"
| "PublishDoneStatusCode_value PublishDoneStatusCode_kTooFarBehind = 6"
| "PublishDoneStatusCode_value (PublishDoneStatusCode_other w) = w"

definition PublishDoneStatusCode_of :: "u64 \<Rightarrow> PublishDoneStatusCode" where
  "PublishDoneStatusCode_of w =
     (if w = 0 then PublishDoneStatusCode_kInternalError
      else if w = 1 then PublishDoneStatusCode_kUnauthorized
      else if w = 2 then PublishDoneStatusCode_kTrackEnded
      else if w = 3 then PublishDoneStatusCode_kSubscribtionEnded
      else if w = 4 then PublishDoneStatusCode_kGoingAway
      else if w = 5 then PublishDoneStatusCode_kExpired
      else if w = 6 then PublishDoneStatusCode_kTooFarBehind
      else PublishDoneStatusCode_other w)"

lemma PublishDoneStatusCode_value_of [simp]: "PublishDoneStatusCode_value (PublishDoneStatusCode_of w) = w"
  by (simp add: PublishDoneStatusCode_of_def)

datatype FetchType =
    FetchType_kStandalone
  | FetchType_kRelativeJoiningFetch
  | FetchType_kAbsoluteJoiningFetch
  | FetchType_other "u8"

primrec FetchType_value :: "FetchType \<Rightarrow> u8" where
  "FetchType_value FetchType_kStandalone = 1"
| "FetchType_value FetchType_kRelativeJoiningFetch = 2"
| "FetchType_value FetchType_kAbsoluteJoiningFetch = 3"
| "FetchType_value (FetchType_other w) = w"

definition FetchType_of :: "u8 \<Rightarrow> FetchType" where
  "FetchType_of w =
     (if w = 1 then FetchType_kStandalone
      else if w = 2 then FetchType_kRelativeJoiningFetch
      else if w = 3 then FetchType_kAbsoluteJoiningFetch
      else FetchType_other w)"

lemma FetchType_value_of [simp]: "FetchType_value (FetchType_of w) = w"
  by (simp add: FetchType_of_def)

datatype TerminationReason =
    TerminationReason_kNoError
  | TerminationReason_kInternalError
  | TerminationReason_kUnauthorized
  | TerminationReason_kProtocolViolation
  | TerminationReason_kDupTrackAlias
  | TerminationReason_kParamLengthMismatch
  | TerminationReason_kGoAwayTimeout
  | TerminationReason_other "u64"

primrec TerminationReason_value :: "TerminationReason \<Rightarrow> u64" where
  "TerminationReason_value TerminationReason_kNoError = 0"
| "TerminationReason_value TerminationReason_kInternalError = 1"
| "TerminationReason_value TerminationReason_kUnauthorized = 2"
| "TerminationReason_value TerminationReason_kProtocolViolation = 3"
| "TerminationReason_value TerminationReason_kDupTrackAlias = 4"
| "TerminationReason_value TerminationReason_kParamLengthMismatch = 5"
| "TerminationReason_value TerminationReason_kGoAwayTimeout = 16"
| "TerminationReason_value (TerminationReason_other w) = w"

definition TerminationReason_of :: "u64 \<Rightarrow> TerminationReason" where
  "TerminationReason_of w =
     (if w = 0 then TerminationReason_kNoError
      else if w = 1 then TerminationReason_kInternalError
      else if w = 2 then TerminationReason_kUnauthorized
      else if w = 3 then TerminationReason_kProtocolViolation
      else if w = 4 then TerminationReason_kDupTrackAlias
      else if w = 5 then TerminationReason_kParamLengthMismatch
      else if w = 16 then TerminationReason_kGoAwayTimeout
      else TerminationReason_other w)"

lemma TerminationReason_value_of [simp]: "TerminationReason_value (TerminationReason_of w) = w"
  by (simp add: TerminationReason_of_def)

datatype FetchErrorCode =
    FetchErrorCode_kInternalError
  | FetchErrorCode_kUnauthorized
  | FetchErrorCode_kTimeout
  | FetchErrorCode_kNotSupported
  | FetchErrorCode_kTrackDoesNotExist
  | FetchErrorCode_kInvalidRange
  | FetchErrorCode_kNoObjects
  | FetchErrorCode_kInvalidJoiningRequestId
  | FetchErrorCode_kUnknownStatusInRange
  | FetchErrorCode_kMalformedTrack
  | FetchErrorCode_kMalformedAuthToken
  | FetchErrorCode_kExpiredAuthToken
  | FetchErrorCode_other "u8"

primrec FetchErrorCode_value :: "FetchErrorCode \<Rightarrow> u8" where
  "FetchErrorCode_value FetchErrorCode_kInternalError = 0"
| "FetchErrorCode_value FetchErrorCode_kUnauthorized = 1"
| "FetchErrorCode_value FetchErrorCode_kTimeout = 2"
| "FetchErrorCode_value FetchErrorCode_kNotSupported = 3"
| "FetchErrorCode_value FetchErrorCode_kTrackDoesNotExist = 4"
| "FetchErrorCode_value FetchErrorCode_kInvalidRange = 5"
| "FetchErrorCode_value FetchErrorCode_kNoObjects = 6"
| "FetchErrorCode_value FetchErrorCode_kInvalidJoiningRequestId = 7"
| "FetchErrorCode_value FetchErrorCode_kUnknownStatusInRange = 8"
| "FetchErrorCode_value FetchErrorCode_kMalformedTrack = 9"
| "FetchErrorCode_value FetchErrorCode_kMalformedAuthToken = 16"
| "FetchErrorCode_value FetchErrorCode_kExpiredAuthToken = 18"
| "FetchErrorCode_value (FetchErrorCode_other w) = w"

definition FetchErrorCode_of :: "u8 \<Rightarrow> FetchErrorCode" where
  "FetchErrorCode_of w =
     (if w = 0 then FetchErrorCode_kInternalError
      else if w = 1 then FetchErrorCode_kUnauthorized
      else if w = 2 then FetchErrorCode_kTimeout
      else if w = 3 then FetchErrorCode_kNotSupported
      else if w = 4 then FetchErrorCode_kTrackDoesNotExist
      else if w = 5 then FetchErrorCode_kInvalidRange
      else if w = 6 then FetchErrorCode_kNoObjects
      else if w = 7 then FetchErrorCode_kInvalidJoiningRequestId
      else if w = 8 then FetchErrorCode_kUnknownStatusInRange
      else if w = 9 then FetchErrorCode_kMalformedTrack
      else if w = 16 then FetchErrorCode_kMalformedAuthToken
      else if w = 18 then FetchErrorCode_kExpiredAuthToken
      else FetchErrorCode_other w)"

lemma FetchErrorCode_value_of [simp]: "FetchErrorCode_value (FetchErrorCode_of w) = w"
  by (simp add: FetchErrorCode_of_def)

datatype SubscribeErrorCode =
    SubscribeErrorCode_kInternalError
  | SubscribeErrorCode_kUnauthorized
  | SubscribeErrorCode_kTimeout
  | SubscribeErrorCode_kNotSupported
  | SubscribeErrorCode_kTrackDoesNotExist
  | SubscribeErrorCode_kInvalidRange
  | SubscribeErrorCode_kRetryTrackAlias
  | SubscribeErrorCode_kTrackNotExist
  | SubscribeErrorCode_other "u64"

primrec SubscribeErrorCode_value :: "SubscribeErrorCode \<Rightarrow> u64" where
  "SubscribeErrorCode_value SubscribeErrorCode_kInternalError = 0"
| "SubscribeErrorCode_value SubscribeErrorCode_kUnauthorized = 1"
| "SubscribeErrorCode_value SubscribeErrorCode_kTimeout = 2"
| "SubscribeErrorCode_value SubscribeErrorCode_kNotSupported = 3"
| "SubscribeErrorCode_value SubscribeErrorCode_kTrackDoesNotExist = 4"
| "SubscribeErrorCode_value SubscribeErrorCode_kInvalidRange = 5"
| "SubscribeErrorCode_value SubscribeErrorCode_kRetryTrackAlias = 6"
| "SubscribeErrorCode_value SubscribeErrorCode_kTrackNotExist = 240"
| "SubscribeErrorCode_value (SubscribeErrorCode_other w) = w"

definition SubscribeErrorCode_of :: "u64 \<Rightarrow> SubscribeErrorCode" where
  "SubscribeErrorCode_of w =
     (if w = 0 then SubscribeErrorCode_kInternalError
      else if w = 1 then SubscribeErrorCode_kUnauthorized
      else if w = 2 then SubscribeErrorCode_kTimeout
      else if w = 3 then SubscribeErrorCode_kNotSupported
      else if w = 4 then SubscribeErrorCode_kTrackDoesNotExist
      else if w = 5 then SubscribeErrorCode_kInvalidRange
      else if w = 6 then SubscribeErrorCode_kRetryTrackAlias
      else if w = 240 then SubscribeErrorCode_kTrackNotExist
      else SubscribeErrorCode_other w)"

lemma SubscribeErrorCode_value_of [simp]: "SubscribeErrorCode_value (SubscribeErrorCode_of w) = w"
  by (simp add: SubscribeErrorCode_of_def)

datatype SubscribeNamespaceErrorCode =
    SubscribeNamespaceErrorCode_kInternalError
  | SubscribeNamespaceErrorCode_kUnauthorized
  | SubscribeNamespaceErrorCode_kTimeout
  | SubscribeNamespaceErrorCode_kNotSupported
  | SubscribeNamespaceErrorCode_kNamespacePrefixUnknown
  | SubscribeNamespaceErrorCode_kNamespacePrefixOverlap
  | SubscribeNamespaceErrorCode_kMalformedAuthToken
  | SubscribeNamespaceErrorCode_kExpiredAuthToken
  | SubscribeNamespaceErrorCode_other "u64"

primrec SubscribeNamespaceErrorCode_value :: "SubscribeNamespaceErrorCode \<Rightarrow> u64" where
  "SubscribeNamespaceErrorCode_value SubscribeNamespaceErrorCode_kInternalError = 0"
| "SubscribeNamespaceErrorCode_value SubscribeNamespaceErrorCode_kUnauthorized = 1"
| "SubscribeNamespaceErrorCode_value SubscribeNamespaceErrorCode_kTimeout = 2"
| "SubscribeNamespaceErrorCode_value SubscribeNamespaceErrorCode_kNotSupported = 3"
| "SubscribeNamespaceErrorCode_value SubscribeNamespaceErrorCode_kNamespacePrefixUnknown = 4"
| "SubscribeNamespaceErrorCode_value SubscribeNamespaceErrorCode_kNamespacePrefixOverlap = 5"
| "SubscribeNamespaceErrorCode_value SubscribeNamespaceErrorCode_kMalformedAuthToken = 16"
| "SubscribeNamespaceErrorCode_value SubscribeNamespaceErrorCode_kExpiredAuthToken = 18"
| "SubscribeNamespaceErrorCode_value (SubscribeNamespaceErrorCode_other w) = w"

definition SubscribeNamespaceErrorCode_of :: "u64 \<Rightarrow> SubscribeNamespaceErrorCode" where
  "SubscribeNamespaceErrorCode_of w =
     (if w = 0 then SubscribeNamespaceErrorCode_kInternalError
      else if w = 1 then SubscribeNamespaceErrorCode_kUnauthorized
      else if w = 2 then SubscribeNamespaceErrorCode_kTimeout
      else if w = 3 then SubscribeNamespaceErrorCode_kNotSupported
      else if w = 4 then SubscribeNamespaceErrorCode_kNamespacePrefixUnknown
      else if w = 5 then SubscribeNamespaceErrorCode_kNamespacePrefixOverlap
      else if w = 16 then SubscribeNamespaceErrorCode_kMalformedAuthToken
      else if w = 18 then SubscribeNamespaceErrorCode_kExpiredAuthToken
      else SubscribeNamespaceErrorCode_other w)"

lemma SubscribeNamespaceErrorCode_value_of [simp]: "SubscribeNamespaceErrorCode_value (SubscribeNamespaceErrorCode_of w) = w"
  by (simp add: SubscribeNamespaceErrorCode_of_def)

datatype SetupParameterType =
    SetupParameterType_kPath
  | SetupParameterType_kMaxRequestId
  | SetupParameterType_kAuthorizationToken
  | SetupParameterType_kEndpointId
  | SetupParameterType_kInvalid
  | SetupParameterType_other "u64"

primrec SetupParameterType_value :: "SetupParameterType \<Rightarrow> u64" where
  "SetupParameterType_value SetupParameterType_kPath = 1"
| "SetupParameterType_value SetupParameterType_kMaxRequestId = 2"
| "SetupParameterType_value SetupParameterType_kAuthorizationToken = 3"
| "SetupParameterType_value SetupParameterType_kEndpointId = 241"
| "SetupParameterType_value SetupParameterType_kInvalid = 255"
| "SetupParameterType_value (SetupParameterType_other w) = w"

definition SetupParameterType_of :: "u64 \<Rightarrow> SetupParameterType" where
  "SetupParameterType_of w =
     (if w = 1 then SetupParameterType_kPath
      else if w = 2 then SetupParameterType_kMaxRequestId
      else if w = 3 then SetupParameterType_kAuthorizationToken
      else if w = 241 then SetupParameterType_kEndpointId
      else if w = 255 then SetupParameterType_kInvalid
      else SetupParameterType_other w)"

lemma SetupParameterType_value_of [simp]: "SetupParameterType_value (SetupParameterType_of w) = w"
  by (simp add: SetupParameterType_of_def)

datatype ParameterType =
    ParameterType_kDeliveryTimeout
  | ParameterType_kAuthorizationToken
  | ParameterType_kMaxCacheDuration
  | ParameterType_kDynamicGroups
  | ParameterType_kNewGroupRequest
  | ParameterType_kInvalid
  | ParameterType_other "u64"

primrec ParameterType_value :: "ParameterType \<Rightarrow> u64" where
  "ParameterType_value ParameterType_kDeliveryTimeout = 2"
| "ParameterType_value ParameterType_kAuthorizationToken = 3"
| "ParameterType_value ParameterType_kMaxCacheDuration = 4"
| "ParameterType_value ParameterType_kDynamicGroups = 32"
| "ParameterType_value ParameterType_kNewGroupRequest = 34"
| "ParameterType_value ParameterType_kInvalid = 255"
| "ParameterType_value (ParameterType_other w) = w"

definition ParameterType_of :: "u64 \<Rightarrow> ParameterType" where
  "ParameterType_of w =
     (if w = 2 then ParameterType_kDeliveryTimeout
      else if w = 3 then ParameterType_kAuthorizationToken
      else if w = 4 then ParameterType_kMaxCacheDuration
      else if w = 32 then ParameterType_kDynamicGroups
      else if w = 34 then ParameterType_kNewGroupRequest
      else if w = 255 then ParameterType_kInvalid
      else ParameterType_other w)"

lemma ParameterType_value_of [simp]: "ParameterType_value (ParameterType_of w) = w"
  by (simp add: ParameterType_of_def)

datatype ObjectStatus =
    ObjectStatus_kAvailable
  | ObjectStatus_kDoesNotExist
  | ObjectStatus_kEndOfGroup
  | ObjectStatus_kEndOfTrack
  | ObjectStatus_kEndOfSubGroup
  | ObjectStatus_other "u8"

primrec ObjectStatus_value :: "ObjectStatus \<Rightarrow> u8" where
  "ObjectStatus_value ObjectStatus_kAvailable = 0"
| "ObjectStatus_value ObjectStatus_kDoesNotExist = 1"
| "ObjectStatus_value ObjectStatus_kEndOfGroup = 3"
| "ObjectStatus_value ObjectStatus_kEndOfTrack = 4"
| "ObjectStatus_value ObjectStatus_kEndOfSubGroup = 5"
| "ObjectStatus_value (ObjectStatus_other w) = w"

definition ObjectStatus_of :: "u8 \<Rightarrow> ObjectStatus" where
  "ObjectStatus_of w =
     (if w = 0 then ObjectStatus_kAvailable
      else if w = 1 then ObjectStatus_kDoesNotExist
      else if w = 3 then ObjectStatus_kEndOfGroup
      else if w = 4 then ObjectStatus_kEndOfTrack
      else if w = 5 then ObjectStatus_kEndOfSubGroup
      else ObjectStatus_other w)"

lemma ObjectStatus_value_of [simp]: "ObjectStatus_value (ObjectStatus_of w) = w"
  by (simp add: ObjectStatus_of_def)

end
