(* ===== verification/Data_Headers.thy ===== *)
theory Data_Headers
  imports Wire_Enums
begin

section \<open>Headers of data streams and datagrams\<close>

text \<open>
  The header types of \<^verbatim>\<open>detail/messages.h\<close>: which octet introduces a subgroup stream, a fetch
  stream, a datagram object or a datagram status, and the properties (subgroup id encoding, end of
  group, extensions) each type stands for. A \<^verbatim>\<open>switch\<close> over an enumeration that throws after
  its last case returns a result.
\<close>

subsection \<open>Header type enumerations\<close>

datatype ExtensionHeaderType =
    ExtensionHeaderType_kImmutable
  | ExtensionHeaderType_kPriorGroupIdGap
  | ExtensionHeaderType_kPriorObjectIdGap
  | ExtensionHeaderType_other "u64"

primrec ExtensionHeaderType_value :: "ExtensionHeaderType \<Rightarrow> u64" where
  "ExtensionHeaderType_value ExtensionHeaderType_kImmutable = 11"
| "ExtensionHeaderType_value ExtensionHeaderType_kPriorGroupIdGap = 60"
| "ExtensionHeaderType_value ExtensionHeaderType_kPriorObjectIdGap = 62"
| "ExtensionHeaderType_value (ExtensionHeaderType_other w) = w"

definition ExtensionHeaderType_of :: "u64 \<Rightarrow> ExtensionHeaderType" where
  "ExtensionHeaderType_of w =
     (if w = 11 then ExtensionHeaderType_kImmutable
      else if w = 60 then ExtensionHeaderType_kPriorGroupIdGap
      else if w = 62 then ExtensionHeaderType_kPriorObjectIdGap
      else ExtensionHeaderType_other w)"

lemma ExtensionHeaderType_value_of [simp]: "ExtensionHeaderType_value (ExtensionHeaderType_of w) = w"
  by (simp add: ExtensionHeaderType_of_def)

datatype DatagramHeaderType =
    DatagramHeaderType_kNotEndOfGroupNoExtensions
  | DatagramHeaderType_kNotEndOfGroupWithExtensions
  | DatagramHeaderType_kEndOfGroupNoExtensions
  | DatagramHeaderType_kEndOfGroupWithExtensions
  | DatagramHeaderType_other "u8"

primrec DatagramHeaderType_value :: "DatagramHeaderType \<Rightarrow> u8" where
  "DatagramHeaderType_value DatagramHeaderType_kNotEndOfGroupNoExtensions = 0"
| "DatagramHeaderType_value DatagramHeaderType_kNotEndOfGroupWithExtensions = 1"
| "DatagramHeaderType_value DatagramHeaderType_kEndOfGroupNoExtensions = 2"
| "DatagramHeaderType_value DatagramHeaderType_kEndOfGroupWithExtensions = 3"
| "DatagramHeaderType_value (DatagramHeaderType_other w) = w"

definition DatagramHeaderType_of :: "u8 \<Rightarrow> DatagramHeaderType" where
  "DatagramHeaderType_of w =
     (if w = 0 then DatagramHeaderType_kNotEndOfGroupNoExtensions
      else if w = 1 then DatagramHeaderType_kNotEndOfGroupWithExtensions
      else if w = 2 then DatagramHeaderType_kEndOfGroupNoExtensions
      else if w = 3 then DatagramHeaderType_kEndOfGroupWithExtensions
      else DatagramHeaderType_other w)"

lemma DatagramHeaderType_value_of [simp]: "DatagramHeaderType_value (DatagramHeaderType_of w) = w"
  by (simp add: DatagramHeaderType_of_def)

datatype DatagramStatusType =
    DatagramStatusType_kNoExtensions
  | DatagramStatusType_kWithExtensions
  | DatagramStatusType_other "u8"

primrec DatagramStatusType_value :: "DatagramStatusType \<Rightarrow> u8" where
  "DatagramStatusType_value DatagramStatusType_kNoExtensions = 4"
| "DatagramStatusType_value DatagramStatusType_kWithExtensions = 5"
| "DatagramStatusType_value (DatagramStatusType_other w) = w"

definition DatagramStatusType_of :: "u8 \<Rightarrow> DatagramStatusType" where
  "DatagramStatusType_of w =
     (if w = 4 then DatagramStatusType_kNoExtensions
      else if w = 5 then DatagramStatusType_kWithExtensions
      else DatagramStatusType_other w)"

lemma DatagramStatusType_value_of [simp]: "DatagramStatusType_value (DatagramStatusType_of w) = w"
  by (simp add: DatagramStatusType_of_def)

datatype FetchHeaderType =
    FetchHeaderType_kFetchHeader
  | FetchHeaderType_other "u8"

primrec FetchHeaderType_value :: "FetchHeaderType \<Rightarrow> u8" where
  "FetchHeaderType_value FetchHeaderType_kFetchHeader = 5"
| "FetchHeaderType_value (FetchHeaderType_other w) = w"

definition FetchHeaderType_of :: "u8 \<Rightarrow> FetchHeaderType" where
  "FetchHeaderType_of w =
     (if w = 5 then FetchHeaderType_kFetchHeader
      else FetchHeaderType_other w)"

lemma FetchHeaderType_value_of [simp]: "FetchHeaderType_value (FetchHeaderType_of w) = w"
  by (simp add: FetchHeaderType_of_def)

datatype StreamHeaderType =
    StreamHeaderType_kSubgroup0NotEndOfGroupNoExtensions
  | StreamHeaderType_kSubgroup0NotEndOfGroupWithExtensions
  | StreamHeaderType_kSubgroupFirstObjectNotEndOfGroupNoExtensions
  | StreamHeaderType_kSubgroupFirstObjectNotEndOfGroupWithExtensions
  | StreamHeaderType_kSubgroupExplicitNotEndOfGroupNoExtensions
  | StreamHeaderType_kSubgroupExplicitNotEndOfGroupWithExtensions
  | StreamHeaderType_kSubgroup0EndOfGroupNoExtensions
  | StreamHeaderType_kSubgroup0EndOfGroupWithExtensions
  | StreamHeaderType_kSubgroupFirstObjectEndOfGroupNoExtensions
  | StreamHeaderType_kSubgroupFirstObjectEndOfGroupWithExtensions
  | StreamHeaderType_kSubgroupExplicitEndOfGroupNoExtensions
  | StreamHeaderType_kSubgroupExplicitEndOfGroupWithExtensions
  | StreamHeaderType_other "u8"

primrec StreamHeaderType_value :: "StreamHeaderType \<Rightarrow> u8" where
  "StreamHeaderType_value StreamHeaderType_kSubgroup0NotEndOfGroupNoExtensions = 16"
| "StreamHeaderType_value StreamHeaderType_kSubgroup0NotEndOfGroupWithExtensions = 17"
| "StreamHeaderType_value StreamHeaderType_kSubgroupFirstObjectNotEndOfGroupNoExtensions = 18"
| "StreamHeaderType_value StreamHeaderType_kSubgroupFirstObjectNotEndOfGroupWithExtensions = 19"
| "StreamHeaderType_value StreamHeaderType_kSubgroupExplicitNotEndOfGroupNoExtensions = 20"
| "StreamHeaderType_value StreamHeaderType_kSubgroupExplicitNotEndOfGroupWithExtensions = 21"
| "StreamHeaderType_value StreamHeaderType_kSubgroup0EndOfGroupNoExtensions = 24"
| "StreamHeaderType_value StreamHeaderType_kSubgroup0EndOfGroupWithExtensions = 25"
| "StreamHeaderType_value StreamHeaderType_kSubgroupFirstObjectEndOfGroupNoExtensions = 26"
| "StreamHeaderType_value StreamHeaderType_kSubgroupFirstObjectEndOfGroupWithExtensions = 27"
| "StreamHeaderType_value StreamHeaderType_kSubgroupExplicitEndOfGroupNoExtensions = 28"
| "StreamHeaderType_value StreamHeaderType_kSubgroupExplicitEndOfGroupWithExtensions = 29"
| "StreamHeaderType_value (StreamHeaderType_other w) = w"

definition StreamHeaderType_of :: "u8 \<Rightarrow> StreamHeaderType" where
  "StreamHeaderType_of w =
     (if w = 16 then StreamHeaderType_kSubgroup0NotEndOfGroupNoExtensions
      else if w = 17 then StreamHeaderType_kSubgroup0NotEndOfGroupWithExtensions
      else if w = 18 then StreamHeaderType_kSubgroupFirstObjectNotEndOfGroupNoExtensions
      else if w = 19 then StreamHeaderType_kSubgroupFirstObjectNotEndOfGroupWithExtensions
      else if w = 20 then StreamHeaderType_kSubgroupExplicitNotEndOfGroupNoExtensions
      else if w = 21 then StreamHeaderType_kSubgroupExplicitNotEndOfGroupWithExtensions
      else if w = 24 then StreamHeaderType_kSubgroup0EndOfGroupNoExtensions
      else if w = 25 then StreamHeaderType_kSubgroup0EndOfGroupWithExtensions
      else if w = 26 then StreamHeaderType_kSubgroupFirstObjectEndOfGroupNoExtensions
      else if w = 27 then StreamHeaderType_kSubgroupFirstObjectEndOfGroupWithExtensions
      else if w = 28 then StreamHeaderType_kSubgroupExplicitEndOfGroupNoExtensions
      else if w = 29 then StreamHeaderType_kSubgroupExplicitEndOfGroupWithExtensions
      else StreamHeaderType_other w)"

lemma StreamHeaderType_value_of [simp]: "StreamHeaderType_value (StreamHeaderType_of w) = w"
  by (simp add: StreamHeaderType_of_def)

datatype DatagramMessageType =
    DatagramMessageType_kDatagramNotEndOfGroupNoExtensions
  | DatagramMessageType_kDatagramNotEndOfGroupWithExtensions
  | DatagramMessageType_kDatagramEndOfGroupNoExtensions
  | DatagramMessageType_kDatagramEndOfGroupWithExtensions
  | DatagramMessageType_kDatagramStatusNoExtensions
  | DatagramMessageType_kDatagramStatusWithExtensions
  | DatagramMessageType_other "u8"

primrec DatagramMessageType_value :: "DatagramMessageType \<Rightarrow> u8" where
  "DatagramMessageType_value DatagramMessageType_kDatagramNotEndOfGroupNoExtensions = 0"
| "DatagramMessageType_value DatagramMessageType_kDatagramNotEndOfGroupWithExtensions = 1"
| "DatagramMessageType_value DatagramMessageType_kDatagramEndOfGroupNoExtensions = 2"
| "DatagramMessageType_value DatagramMessageType_kDatagramEndOfGroupWithExtensions = 3"
| "DatagramMessageType_value DatagramMessageType_kDatagramStatusNoExtensions = 4"
| "DatagramMessageType_value DatagramMessageType_kDatagramStatusWithExtensions = 5"
| "DatagramMessageType_value (DatagramMessageType_other w) = w"

definition DatagramMessageType_of :: "u8 \<Rightarrow> DatagramMessageType" where
  "DatagramMessageType_of w =
     (if w = 0 then DatagramMessageType_kDatagramNotEndOfGroupNoExtensions
      else if w = 1 then DatagramMessageType_kDatagramNotEndOfGroupWithExtensions
      else if w = 2 then DatagramMessageType_kDatagramEndOfGroupNoExtensions
      else if w = 3 then DatagramMessageType_kDatagramEndOfGroupWithExtensions
      else if w = 4 then DatagramMessageType_kDatagramStatusNoExtensions
      else if w = 5 then DatagramMessageType_kDatagramStatusWithExtensions
      else DatagramMessageType_other w)"

lemma DatagramMessageType_value_of [simp]: "DatagramMessageType_value (DatagramMessageType_of w) = w"
  by (simp add: DatagramMessageType_of_def)

datatype StreamMessageType =
    StreamMessageType_kFetchHeader
  | StreamMessageType_kSubgroup0NotEndOfGroupNoExtensions
  | StreamMessageType_kSubgroup0NotEndOfGroupWithExtensions
  | StreamMessageType_kSubgroupFirstObjectNotEndOfGroupNoExtensions
  | StreamMessageType_kSubgroupFirstObjectNotEndOfGroupWithExtensions
  | StreamMessageType_kSubgroupExplicitNotEndOfGroupNoExtensions
  | StreamMessageType_kSubgroupExplicitNotEndOfGroupWithExtensions
  | StreamMessageType_kSubgroup0EndOfGroupNoExtensions
  | StreamMessageType_kSubgroup0EndOfGroupWithExtensions
  | StreamMessageType_kSubgroupFirstObjectEndOfGroupNoExtensions
  | StreamMessageType_kSubgroupFirstObjectEndOfGroupWithExtensions
  | StreamMessageType_kSubgroupExplicitEndOfGroupNoExtensions
  | StreamMessageType_kSubgroupExplicitEndOfGroupWithExtensions
  | StreamMessageType_other "u8"

primrec StreamMessageType_value :: "StreamMessageType \<Rightarrow> u8" where
  "StreamMessageType_value StreamMessageType_kFetchHeader = 5"
| "StreamMessageType_value StreamMessageType_kSubgroup0NotEndOfGroupNoExtensions = 16"
| "StreamMessageType_value StreamMessageType_kSubgroup0NotEndOfGroupWithExtensions = 17"
| "StreamMessageType_value StreamMessageType_kSubgroupFirstObjectNotEndOfGroupNoExtensions = 18"
| "StreamMessageType_value StreamMessageType_kSubgroupFirstObjectNotEndOfGroupWithExtensions = 19"
| "StreamMessageType_value StreamMessageType_kSubgroupExplicitNotEndOfGroupNoExtensions = 20"
| "StreamMessageType_value StreamMessageType_kSubgroupExplicitNotEndOfGroupWithExtensions = 21"
| "StreamMessageType_value StreamMessageType_kSubgroup0EndOfGroupNoExtensions = 24"
| "StreamMessageType_value StreamMessageType_kSubgroup0EndOfGroupWithExtensions = 25"
| "StreamMessageType_value StreamMessageType_kSubgroupFirstObjectEndOfGroupNoExtensions = 26"
| "StreamMessageType_value StreamMessageType_kSubgroupFirstObjectEndOfGroupWithExtensions = 27"
| "StreamMessageType_value StreamMessageType_kSubgroupExplicitEndOfGroupNoExtensions = 28"
| "StreamMessageType_value StreamMessageType_kSubgroupExplicitEndOfGroupWithExtensions = 29"
| "StreamMessageType_value (StreamMessageType_other w) = w"

definition StreamMessageType_of :: "u8 \<Rightarrow> StreamMessageType" where
  "StreamMessageType_of w =
     (if w = 5 then StreamMessageType_kFetchHeader
      else if w = 16 then StreamMessageType_kSubgroup0NotEndOfGroupNoExtensions
      else if w = 17 then StreamMessageType_kSubgroup0NotEndOfGroupWithExtensions
      else if w = 18 then StreamMessageType_kSubgroupFirstObjectNotEndOfGroupNoExtensions
      else if w = 19 then StreamMessageType_kSubgroupFirstObjectNotEndOfGroupWithExtensions
      else if w = 20 then StreamMessageType_kSubgroupExplicitNotEndOfGroupNoExtensions
      else if w = 21 then StreamMessageType_kSubgroupExplicitNotEndOfGroupWithExtensions
      else if w = 24 then StreamMessageType_kSubgroup0EndOfGroupNoExtensions
      else if w = 25 then StreamMessageType_kSubgroup0EndOfGroupWithExtensions
      else if w = 26 then StreamMessageType_kSubgroupFirstObjectEndOfGroupNoExtensions
      else if w = 27 then StreamMessageType_kSubgroupFirstObjectEndOfGroupWithExtensions
      else if w = 28 then StreamMessageType_kSubgroupExplicitEndOfGroupNoExtensions
      else if w = 29 then StreamMessageType_kSubgroupExplicitEndOfGroupWithExtensions
      else StreamMessageType_other w)"

lemma StreamMessageType_value_of [simp]: "StreamMessageType_value (StreamMessageType_of w) = w"
  by (simp add: StreamMessageType_of_def)

datatype SubgroupIdType = kIsZero | kSetFromFirstObject | kExplicit

subsection \<open>Stream header properties\<close>

fun MayContainExtensions :: "StreamHeaderType \<Rightarrow> bool result" where
  "MayContainExtensions StreamHeaderType_kSubgroup0NotEndOfGroupNoExtensions = Inr False"
| "MayContainExtensions StreamHeaderType_kSubgroup0NotEndOfGroupWithExtensions = Inr True"
| "MayContainExtensions StreamHeaderType_kSubgroupFirstObjectNotEndOfGroupNoExtensions = Inr False"
| "MayContainExtensions StreamHeaderType_kSubgroupFirstObjectNotEndOfGroupWithExtensions = Inr True"
| "MayContainExtensions StreamHeaderType_kSubgroupExplicitNotEndOfGroupNoExtensions = Inr False"
| "MayContainExtensions StreamHeaderType_kSubgroupExplicitNotEndOfGroupWithExtensions = Inr True"
| "MayContainExtensions StreamHeaderType_kSubgroup0EndOfGroupNoExtensions = Inr False"
| "MayContainExtensions StreamHeaderType_kSubgroup0EndOfGroupWithExtensions = Inr True"
| "MayContainExtensions StreamHeaderType_kSubgroupFirstObjectEndOfGroupNoExtensions = Inr False"
| "MayContainExtensions StreamHeaderType_kSubgroupFirstObjectEndOfGroupWithExtensions = Inr True"
| "MayContainExtensions StreamHeaderType_kSubgroupExplicitEndOfGroupNoExtensions = Inr False"
| "MayContainExtensions StreamHeaderType_kSubgroupExplicitEndOfGroupWithExtensions = Inr True"
| "MayContainExtensions (StreamHeaderType_other _) = Inl (Protocol_Violation ''Unknown subgroup header type'')"

fun EndOfGroup :: "StreamHeaderType \<Rightarrow> bool result" where
  "EndOfGroup StreamHeaderType_kSubgroup0NotEndOfGroupNoExtensions = Inr False"
| "EndOfGroup StreamHeaderType_kSubgroup0NotEndOfGroupWithExtensions = Inr False"
| "EndOfGroup StreamHeaderType_kSubgroupFirstObjectNotEndOfGroupNoExtensions = Inr False"
| "EndOfGroup StreamHeaderType_kSubgroupFirstObjectNotEndOfGroupWithExtensions = Inr False"
| "EndOfGroup StreamHeaderType_kSubgroupExplicitNotEndOfGroupNoExtensions = Inr False"
| "EndOfGroup StreamHeaderType_kSubgroupExplicitNotEndOfGroupWithExtensions = Inr False"
| "EndOfGroup StreamHeaderType_kSubgroup0EndOfGroupNoExtensions = Inr True"
| "EndOfGroup StreamHeaderType_kSubgroup0EndOfGroupWithExtensions = Inr True"
| "EndOfGroup StreamHeaderType_kSubgroupFirstObjectEndOfGroupNoExtensions = Inr True"
| "EndOfGroup StreamHeaderType_kSubgroupFirstObjectEndOfGroupWithExtensions = Inr True"
| "EndOfGroup StreamHeaderType_kSubgroupExplicitEndOfGroupNoExtensions = Inr True"
| "EndOfGroup StreamHeaderType_kSubgroupExplicitEndOfGroupWithExtensions = Inr True"
| "EndOfGroup (StreamHeaderType_other _) = Inl (Protocol_Violation ''Unknown subgroup header type'')"

fun GetSubgroupIdType :: "StreamHeaderType \<Rightarrow> SubgroupIdType result" where
  "GetSubgroupIdType StreamHeaderType_kSubgroup0NotEndOfGroupNoExtensions = Inr kIsZero"
| "GetSubgroupIdType StreamHeaderType_kSubgroup0NotEndOfGroupWithExtensions = Inr kIsZero"
| "GetSubgroupIdType StreamHeaderType_kSubgroupFirstObjectNotEndOfGroupNoExtensions = Inr kSetFromFirstObject"
| "GetSubgroupIdType StreamHeaderType_kSubgroupFirstObjectNotEndOfGroupWithExtensions = Inr kSetFromFirstObject"
| "GetSubgroupIdType StreamHeaderType_kSubgroupExplicitNotEndOfGroupNoExtensions = Inr kExplicit"
| "GetSubgroupIdType StreamHeaderType_kSubgroupExplicitNotEndOfGroupWithExtensions = Inr kExplicit"
| "GetSubgroupIdType StreamHeaderType_kSubgroup0EndOfGroupNoExtensions = Inr kIsZero"
| "GetSubgroupIdType StreamHeaderType_kSubgroup0EndOfGroupWithExtensions = Inr kIsZero"
| "GetSubgroupIdType StreamHeaderType_kSubgroupFirstObjectEndOfGroupNoExtensions = Inr kSetFromFirstObject"
| "GetSubgroupIdType StreamHeaderType_kSubgroupFirstObjectEndOfGroupWithExtensions = Inr kSetFromFirstObject"
| "GetSubgroupIdType StreamHeaderType_kSubgroupExplicitEndOfGroupNoExtensions = Inr kExplicit"
| "GetSubgroupIdType StreamHeaderType_kSubgroupExplicitEndOfGroupWithExtensions = Inr kExplicit"
| "GetSubgroupIdType (StreamHeaderType_other _) = Inl (Protocol_Violation ''Unknown subgroup header type'')"

record StreamHeaderProperties =
  subgroup_id_type :: SubgroupIdType
  end_of_group :: bool
  may_contain_extensions :: bool

definition StreamHeaderProperties_of :: "StreamHeaderType \<Rightarrow> StreamHeaderProperties result" where
  "StreamHeaderProperties_of type =
     bind_result (GetSubgroupIdType type) (\<lambda>s. bind_result (EndOfGroup type) (\<lambda>e.
     bind_result (MayContainExtensions type) (\<lambda>x.
       Inr \<lparr>subgroup_id_type = s, end_of_group = e, may_contain_extensions = x\<rparr>)))"

definition StreamHeader_GetType :: "StreamHeaderProperties \<Rightarrow> StreamHeaderType" where
  "StreamHeader_GetType p =
     (case subgroup_id_type p of
        kIsZero \<Rightarrow>
          if end_of_group p then
            (if may_contain_extensions p then StreamHeaderType_kSubgroup0EndOfGroupWithExtensions
             else StreamHeaderType_kSubgroup0EndOfGroupNoExtensions)
          else if may_contain_extensions p then StreamHeaderType_kSubgroup0NotEndOfGroupWithExtensions
          else StreamHeaderType_kSubgroup0NotEndOfGroupNoExtensions
      | kSetFromFirstObject \<Rightarrow>
          if end_of_group p then
            (if may_contain_extensions p then StreamHeaderType_kSubgroupFirstObjectEndOfGroupWithExtensions
             else StreamHeaderType_kSubgroupFirstObjectEndOfGroupNoExtensions)
          else if may_contain_extensions p then StreamHeaderType_kSubgroupFirstObjectNotEndOfGroupWithExtensions
          else StreamHeaderType_kSubgroupFirstObjectNotEndOfGroupNoExtensions
      | kExplicit \<Rightarrow>
          if end_of_group p then
            (if may_contain_extensions p then StreamHeaderType_kSubgroupExplicitEndOfGroupWithExtensions
             else StreamHeaderType_kSubgroupExplicitEndOfGroupNoExtensions)
          else if may_contain_extensions p then StreamHeaderType_kSubgroupExplicitNotEndOfGroupWithExtensions
          else StreamHeaderType_kSubgroupExplicitNotEndOfGroupNoExtensions)"

subsection \<open>Datagram header properties\<close>

fun Datagram_EndOfGroup :: "DatagramHeaderType \<Rightarrow> bool result" where
  "Datagram_EndOfGroup DatagramHeaderType_kNotEndOfGroupNoExtensions = Inr False"
| "Datagram_EndOfGroup DatagramHeaderType_kNotEndOfGroupWithExtensions = Inr False"
| "Datagram_EndOfGroup DatagramHeaderType_kEndOfGroupNoExtensions = Inr True"
| "Datagram_EndOfGroup DatagramHeaderType_kEndOfGroupWithExtensions = Inr True"
| "Datagram_EndOfGroup (DatagramHeaderType_other _) = Inl (Protocol_Violation ''Unknown datagram header type'')"

fun Datagram_HasExtensions :: "DatagramHeaderType \<Rightarrow> bool result" where
  "Datagram_HasExtensions DatagramHeaderType_kNotEndOfGroupNoExtensions = Inr False"
| "Datagram_HasExtensions DatagramHeaderType_kNotEndOfGroupWithExtensions = Inr True"
| "Datagram_HasExtensions DatagramHeaderType_kEndOfGroupNoExtensions = Inr False"
| "Datagram_HasExtensions DatagramHeaderType_kEndOfGroupWithExtensions = Inr True"
| "Datagram_HasExtensions (DatagramHeaderType_other _) = Inl (Protocol_Violation ''Unknown datagram header type'')"

record DatagramHeaderProperties =
  dh_end_of_group :: bool
  dh_has_extensions :: bool

definition DatagramHeaderProperties_of :: "DatagramHeaderType \<Rightarrow> DatagramHeaderProperties result" where
  "DatagramHeaderProperties_of type =
     bind_result (Datagram_EndOfGroup type) (\<lambda>e. bind_result (Datagram_HasExtensions type) (\<lambda>x.
       Inr \<lparr>dh_end_of_group = e, dh_has_extensions = x\<rparr>))"

definition DatagramHeader_GetType :: "DatagramHeaderProperties \<Rightarrow> DatagramHeaderType" where
  "DatagramHeader_GetType p =
     (if dh_end_of_group p then
        (if dh_has_extensions p then DatagramHeaderType_kEndOfGroupWithExtensions
         else DatagramHeaderType_kEndOfGroupNoExtensions)
      else if dh_has_extensions p then DatagramHeaderType_kNotEndOfGroupWithExtensions
      else DatagramHeaderType_kNotEndOfGroupNoExtensions)"

fun DatagramStatus_HasExtensions :: "DatagramStatusType \<Rightarrow> bool result" where
  "DatagramStatus_HasExtensions DatagramStatusType_kNoExtensions = Inr False"
| "DatagramStatus_HasExtensions DatagramStatusType_kWithExtensions = Inr True"
| "DatagramStatus_HasExtensions (DatagramStatusType_other _) = Inl (Protocol_Violation ''Unknown datagram status type'')"

record DatagramStatusProperties =
  ds_has_extensions :: bool

definition DatagramStatusProperties_of :: "DatagramStatusType \<Rightarrow> DatagramStatusProperties result" where
  "DatagramStatusProperties_of type =
     bind_result (DatagramStatus_HasExtensions type) (\<lambda>x. Inr \<lparr>ds_has_extensions = x\<rparr>)"

definition DatagramStatus_GetType :: "DatagramStatusProperties \<Rightarrow> DatagramStatusType" where
  "DatagramStatus_GetType p =
     (if ds_has_extensions p then DatagramStatusType_kWithExtensions else DatagramStatusType_kNoExtensions)"

subsection \<open>Classification of the first octet\<close>

fun TypeIsDatagram :: "DatagramMessageType \<Rightarrow> bool result" where
  "TypeIsDatagram DatagramMessageType_kDatagramNotEndOfGroupNoExtensions = Inr True"
| "TypeIsDatagram DatagramMessageType_kDatagramNotEndOfGroupWithExtensions = Inr True"
| "TypeIsDatagram DatagramMessageType_kDatagramEndOfGroupNoExtensions = Inr True"
| "TypeIsDatagram DatagramMessageType_kDatagramEndOfGroupWithExtensions = Inr True"
| "TypeIsDatagram DatagramMessageType_kDatagramStatusNoExtensions = Inr True"
| "TypeIsDatagram DatagramMessageType_kDatagramStatusWithExtensions = Inr True"
| "TypeIsDatagram (DatagramMessageType_other _) = Inl (Protocol_Violation ''Unknown datagram message type'')"

fun TypeIsDatagramHeaderType :: "DatagramMessageType \<Rightarrow> bool result" where
  "TypeIsDatagramHeaderType DatagramMessageType_kDatagramNotEndOfGroupNoExtensions = Inr True"
| "TypeIsDatagramHeaderType DatagramMessageType_kDatagramNotEndOfGroupWithExtensions = Inr True"
| "TypeIsDatagramHeaderType DatagramMessageType_kDatagramEndOfGroupNoExtensions = Inr True"
| "TypeIsDatagramHeaderType DatagramMessageType_kDatagramEndOfGroupWithExtensions = Inr True"
| "TypeIsDatagramHeaderType DatagramMessageType_kDatagramStatusNoExtensions = Inr False"
| "TypeIsDatagramHeaderType DatagramMessageType_kDatagramStatusWithExtensions = Inr False"
| "TypeIsDatagramHeaderType (DatagramMessageType_other _) = Inl (Protocol_Violation ''Unknown datagram message type'')"

fun TypeIsDatagramStatusType :: "DatagramMessageType \<Rightarrow> bool result" where
  "TypeIsDatagramStatusType DatagramMessageType_kDatagramNotEndOfGroupNoExtensions = Inr False"
| "TypeIsDatagramStatusType DatagramMessageType_kDatagramNotEndOfGroupWithExtensions = Inr False"
| "TypeIsDatagramStatusType DatagramMessageType_kDatagramEndOfGroupNoExtensions = Inr False"
| "TypeIsDatagramStatusType DatagramMessageType_kDatagramEndOfGroupWithExtensions = Inr False"
| "TypeIsDatagramStatusType DatagramMessageType_kDatagramStatusNoExtensions = Inr True"
| "TypeIsDatagramStatusType DatagramMessageType_kDatagramStatusWithExtensions = Inr True"
| "TypeIsDatagramStatusType (DatagramMessageType_other _) = Inl (Protocol_Violation ''Unknown datagram message type'')"

fun TypeIsStreamHeaderType :: "StreamMessageType \<Rightarrow> bool result" where
  "TypeIsStreamHeaderType StreamMessageType_kFetchHeader = Inr False"
| "TypeIsStreamHeaderType StreamMessageType_kSubgroup0NotEndOfGroupNoExtensions = Inr True"
| "TypeIsStreamHeaderType StreamMessageType_kSubgroup0NotEndOfGroupWithExtensions = Inr True"
| "TypeIsStreamHeaderType StreamMessageType_kSubgroupFirstObjectNotEndOfGroupNoExtensions = Inr True"
| "TypeIsStreamHeaderType StreamMessageType_kSubgroupFirstObjectNotEndOfGroupWithExtensions = Inr True"
| "TypeIsStreamHeaderType StreamMessageType_kSubgroupExplicitNotEndOfGroupNoExtensions = Inr True"
| "TypeIsStreamHeaderType StreamMessageType_kSubgroupExplicitNotEndOfGroupWithExtensions = Inr True"
| "TypeIsStreamHeaderType StreamMessageType_kSubgroup0EndOfGroupNoExtensions = Inr True"
| "TypeIsStreamHeaderType StreamMessageType_kSubgroup0EndOfGroupWithExtensions = Inr True"
| "TypeIsStreamHeaderType StreamMessageType_kSubgroupFirstObjectEndOfGroupNoExtensions = Inr True"
| "TypeIsStreamHeaderType StreamMessageType_kSubgroupFirstObjectEndOfGroupWithExtensions = Inr True"
| "TypeIsStreamHeaderType StreamMessageType_kSubgroupExplicitEndOfGroupNoExtensions = Inr True"
| "TypeIsStreamHeaderType StreamMessageType_kSubgroupExplicitEndOfGroupWithExtensions = Inr True"
| "TypeIsStreamHeaderType (StreamMessageType_other _) = Inl (Protocol_Violation ''Unknown stream header type'')"

subsection \<open>Properties\<close>

text \<open>A stream header type and its properties determine each other: the type computed from any
  properties has exactly those properties, a type that has properties is the one computed from them,
  and the octet of the type carries the properties in its bits (extensions in bit 0, the subgroup id
  encoding in bits 1 and 2, end of group in bit 3). Octets of no named type throw.\<close>

theorem stream_header_properties_bijective:
  "StreamHeaderProperties_of (StreamHeader_GetType p) = Inr p \<and>
   (\<forall>p'. StreamHeaderProperties_of t = Inr p' \<longrightarrow> StreamHeader_GetType p' = t) \<and>
   StreamHeaderType_value (StreamHeader_GetType p) =
     0x10 + (case subgroup_id_type p of kIsZero \<Rightarrow> 0 | kSetFromFirstObject \<Rightarrow> 2 | kExplicit \<Rightarrow> 4) +
     (if end_of_group p then 8 else 0) + (if may_contain_extensions p then 1 else 0) \<and>
   (\<forall>w. t = StreamHeaderType_other w \<longrightarrow>
     StreamHeaderProperties_of t = Inl (Protocol_Violation ''Unknown subgroup header type''))"
proof -
  have "StreamHeaderProperties_of (StreamHeader_GetType p) = Inr p"
    by (cases "subgroup_id_type p") (auto simp: StreamHeader_GetType_def StreamHeaderProperties_of_def)
  moreover have "StreamHeaderProperties_of t = Inr p' \<Longrightarrow> StreamHeader_GetType p' = t" for p'
    by (cases t) (auto simp: StreamHeader_GetType_def StreamHeaderProperties_of_def)
  moreover have "StreamHeaderType_value (StreamHeader_GetType p) =
     0x10 + (case subgroup_id_type p of kIsZero \<Rightarrow> 0 | kSetFromFirstObject \<Rightarrow> 2 | kExplicit \<Rightarrow> 4) +
     (if end_of_group p then 8 else 0) + (if may_contain_extensions p then 1 else 0)"
    by (cases "subgroup_id_type p") (auto simp: StreamHeader_GetType_def)
  ultimately show ?thesis by (auto simp: StreamHeaderProperties_of_def)
qed

theorem stream_header_properties_bijective_witness:
  "StreamHeader_GetType \<lparr>subgroup_id_type = kExplicit, end_of_group = True, may_contain_extensions = False\<rparr> =
     StreamHeaderType_kSubgroupExplicitEndOfGroupNoExtensions"
proof -
  have "StreamHeaderProperties_of StreamHeaderType_kSubgroupExplicitEndOfGroupNoExtensions =
      Inr \<lparr>subgroup_id_type = kExplicit, end_of_group = True, may_contain_extensions = False\<rparr>" by code_simp
  then show ?thesis using stream_header_properties_bijective
      [of "\<lparr>subgroup_id_type = kIsZero, end_of_group = True, may_contain_extensions = True\<rparr>"
        StreamHeaderType_kSubgroupExplicitEndOfGroupNoExtensions] by blast
qed

text \<open>The first octet of a datagram is classified without overlap: a named type is an object
  or a status, never both, and in agreement with the ranges of the two header enumerations.\<close>

theorem datagram_types_partition:
  "(\<forall>w. t \<noteq> DatagramMessageType_other w) \<Longrightarrow>
   TypeIsDatagram t = Inr True \<and>
   TypeIsDatagramHeaderType t = Inr (DatagramMessageType_value t < 4) \<and>
   TypeIsDatagramStatusType t = Inr (\<not> DatagramMessageType_value t < 4)"
  by (cases t) auto

theorem datagram_types_partition_witness:
  "TypeIsDatagramStatusType DatagramMessageType_kDatagramStatusNoExtensions = Inr True"
  using datagram_types_partition [of DatagramMessageType_kDatagramStatusNoExtensions] by simp

end
