(* ===== verification/Uint_Var.thy ===== *)
theory Uint_Var
  imports Quicr_Prelude
begin

section \<open>Variable-length integers\<close>

text \<open>
  The byte-order helpers of \<^verbatim>\<open>detail/utilities.h\<close> and the class \<^verbatim>\<open>UintVar\<close> of
  \<^verbatim>\<open>detail/uintvar.h\<close>: the QUIC variable-length integer every message is built from. The
  code works on the object representation of a 64-bit integer (\<^verbatim>\<open>std::bit_cast\<close> to and from
  eight octets); the model fixes a little-endian host, where \<^verbatim>\<open>SwapBytes\<close> really swaps.
\<close>

subsection \<open>Byte order\<close>

definition SwapBytes16 :: "u16 \<Rightarrow> u16" where
  "SwapBytes16 value = (drop_bit 8 value AND 0x00FF) OR (push_bit 8 value AND 0xFF00)"

definition SwapBytes32 :: "u32 \<Rightarrow> u32" where
  "SwapBytes32 value =
     (drop_bit 24 value AND 0x000000FF) OR (drop_bit 8 value AND 0x0000FF00) OR
     (push_bit 8 value AND 0x00FF0000) OR (push_bit 24 value AND 0xFF000000)"

definition SwapBytes64 :: "u64 \<Rightarrow> u64" where
  "SwapBytes64 value =
     (drop_bit 56 value AND 0x00000000000000FF) OR (drop_bit 40 value AND 0x000000000000FF00) OR
     (drop_bit 24 value AND 0x0000000000FF0000) OR (drop_bit 8 value AND 0x00000000FF000000) OR
     (push_bit 8 value AND 0x000000FF00000000) OR (push_bit 24 value AND 0x0000FF0000000000) OR
     (push_bit 40 value AND 0x00FF000000000000) OR (push_bit 56 value AND 0xFF00000000000000)"

text \<open>The object representation of a 64-bit integer on a little-endian host.\<close>

definition le_bytes :: "nat \<Rightarrow> 'a::len word \<Rightarrow> bytes" where
  "le_bytes n w = map (\<lambda>i. ucast (drop_bit (8 * i) w)) [0..<n]"

fun of_le_bytes :: "bytes \<Rightarrow> 'a::len word" where
  "of_le_bytes [] = 0"
| "of_le_bytes (b # bs) = ucast b OR push_bit 8 (of_le_bytes bs)"

lemma length_le_bytes [simp]: "length (le_bytes n w) = n"
  by (simp add: le_bytes_def)

lemma nth_le_bytes: "i < n \<Longrightarrow> le_bytes n w ! i = ucast (drop_bit (8 * i) w)"
  by (simp add: le_bytes_def)

lemma bit_of_le_bytes:
  "bit (of_le_bytes bs :: 'a::len word) n \<longleftrightarrow>
     n < LENGTH('a) \<and> n div 8 < length bs \<and> bit (bs ! (n div 8)) (n mod 8)"
proof (induction bs arbitrary: n)
  case Nil
  then show ?case by simp
next
  case (Cons b bs)
  show ?case
  proof (cases "n < 8")
    case True
    then show ?thesis by (auto simp: bit_simps)
  next
    case False
    then have d: "n div 8 = Suc ((n - 8) div 8)" and m: "(n - 8) mod 8 = n mod 8"
      by (auto simp: le_div_geq le_mod_geq)
    have "\<not> bit b n" using False by (simp add: bit_word.rep_eq)
    with False show ?thesis
      by (auto simp: bit_simps Cons.IH d m)
  qed
qed


lemma of_le_bytes_le_bytes: "of_le_bytes (le_bytes 8 w) = (w :: u64)"
proof (rule bit_word_eqI)
  fix n assume "n < LENGTH(64)"
  then have "n < 64" and "n div 8 < 8" and "8 * (n div 8) + n mod 8 = n" by auto
  then show "bit (of_le_bytes (le_bytes 8 w) :: u64) n = bit w n"
    by (simp add: bit_of_le_bytes nth_le_bytes bit_simps div_less_iff_less_mult)
qed

lemma bit_SwapBytes64:
  "bit (SwapBytes64 v) n \<longleftrightarrow> n < 64 \<and> bit v (8 * (7 - n div 8) + n mod 8)"
proof (cases "n < 64")
  case True
  have "\<forall>n\<in>set [0..<64]. bit (SwapBytes64 v) n \<longleftrightarrow> bit v (8 * (7 - n div 8) + n mod 8)"
    by (simp add: upt_conv_Cons SwapBytes64_def bit_simps) (simp add: eval_nat_numeral)
  with True show ?thesis by simp
next
  case False
  then show ?thesis by (auto dest: bit_imp_le_length)
qed

lemma SwapBytes64_involution [simp]: "SwapBytes64 (SwapBytes64 v) = v"
proof (rule bit_word_eqI)
  fix n assume "n < LENGTH(64)"
  then have n: "n < 64" by simp
  then have "(8 * (7 - n div 8) + n mod 8) div 8 = 7 - n div 8"
    and "(8 * (7 - n div 8) + n mod 8) mod 8 = n mod 8"
    and "8 * (7 - n div 8) + n mod 8 < 64"
    and "7 - (7 - n div 8) = n div 8" by auto
  then show "bit (SwapBytes64 (SwapBytes64 v)) n = bit v n"
    using n by (simp add: bit_SwapBytes64)
qed

subsection \<open>The class\<close>

record UintVar =
  be_value :: bytes

definition k14bitLength :: u64 where "k14bitLength = drop_bit (64 - 6) (push_bit (64 - 6) (- 1))"
definition k30bitLength :: u64 where "k30bitLength = drop_bit (64 - 14) (push_bit (64 - 14) (- 1))"
definition k62bitLength :: u64 where "k62bitLength = drop_bit (64 - 30) (push_bit (64 - 30) (- 1))"

definition UintVar_of_value :: "u64 \<Rightarrow> UintVar result" where
  "UintVar_of_value value =
     (let be = le_bytes 8 (SwapBytes64 value) in
      if hd be AND 0xC0 \<noteq> 0 then Inl (Invalid_Argument ''Value greater than uintvar maximum'')
      else
        let be_v = of_le_bytes be :: u64;
            be_v' = (if k62bitLength < value then be_v OR 0xC0
                     else if k30bitLength < value then drop_bit 32 be_v OR 0x80
                     else if k14bitLength < value then drop_bit 48 be_v OR 0x40
                     else drop_bit 56 be_v)
        in Inr \<lparr>be_value = le_bytes 8 be_v'\<rparr>)"

definition UintVar_Size_msb :: "u8 \<Rightarrow> nat" where
  "UintVar_Size_msb msb =
     (if msb AND 0xC0 = 0xC0 then 8
      else if msb AND 0x80 = 0x80 then 4
      else if msb AND 0x40 = 0x40 then 2
      else 1)"

definition UintVar_Size :: "UintVar \<Rightarrow> nat" where
  "UintVar_Size v = UintVar_Size_msb (hd (be_value v))"

definition UintVar_of_bytes :: "bytes \<Rightarrow> UintVar result" where
  "UintVar_of_bytes bs =
     (if bs = [] \<or> length bs < UintVar_Size_msb (hd bs)
      then Inl (Invalid_Argument ''Invalid bytes for uintvar'')
      else let size = UintVar_Size_msb (hd bs)
           in Inr \<lparr>be_value = take size bs @ replicate (8 - size) 0\<rparr>)"

definition UintVar_Get :: "UintVar \<Rightarrow> u64" where
  "UintVar_Get v =
     SwapBytes64 (push_bit ((8 - UintVar_Size v) * 8)
       (of_le_bytes (be_value v) AND SwapBytes64 (NOT (push_bit 56 (NOT 0x3F)))))"

definition UintVar_wire :: "UintVar \<Rightarrow> bytes" where
  "UintVar_wire v = take (UintVar_Size v) (be_value v)"

lemma limits [simp]:
  "k14bitLength = 63" "k30bitLength = 16383" "k62bitLength = 1073741823"
  by code_simp+


subsection \<open>The encoding, octet by octet\<close>

lemma le_bytes_8:
  "le_bytes 8 w =
     [ucast w, ucast (drop_bit 8 w), ucast (drop_bit 16 w), ucast (drop_bit 24 w),
      ucast (drop_bit 32 w), ucast (drop_bit 40 w), ucast (drop_bit 48 w), ucast (drop_bit 56 w)]"
  by (simp add: le_bytes_def eval_nat_numeral)

lemma take_bit_u64_iff:
  assumes "k < 64"
  shows "take_bit k (v :: u64) = v \<longleftrightarrow> v < 2 ^ k"
proof -
  have "unat (2 ^ k :: u64) = 2 ^ k"
    using assms unat_of_nat_small [of "2 ^ k", where ?'a = 64]
      power_strict_increasing [of k 64 "2 :: nat"] by simp
  then have "v < 2 ^ k \<longleftrightarrow> unat v < 2 ^ k" by (simp add: word_less_nat_alt)
  moreover have "take_bit k v = v \<longleftrightarrow> take_bit k (unat v) = unat v"
    by (simp only: word_unat_eq_iff unsigned_take_bit_eq)
  ultimately show ?thesis by (simp add: take_bit_nat_eq_self_iff)
qed

lemma bit_above_bound: "(v :: u64) < 2 ^ k \<Longrightarrow> k < 64 \<Longrightarrow> k \<le> n \<Longrightarrow> \<not> bit v n"
  by (metis bit_take_bit_iff leD take_bit_u64_iff)

lemma all_less_8:
  "(\<forall>n<8. P n) \<longleftrightarrow> P (0::nat) \<and> P 1 \<and> P 2 \<and> P 3 \<and> P 4 \<and> P 5 \<and> P 6 \<and> P 7"
  by (simp add: eval_nat_numeral All_less_Suc) auto

lemma u8_eq_iff:
  "a = (b :: u8) \<longleftrightarrow> bit a 0 = bit b 0 \<and> bit a 1 = bit b 1 \<and> bit a 2 = bit b 2 \<and> bit a 3 = bit b 3 \<and>
     bit a 4 = bit b 4 \<and> bit a 5 = bit b 5 \<and> bit a 6 = bit b 6 \<and> bit a 7 = bit b 7"
  (is "_ \<longleftrightarrow> ?r")
proof
  assume ?r
  then have "\<forall>n<8. bit a n = bit b n" by (subst all_less_8) simp
  then show "a = b" by (intro bit_word_eqI) simp
qed simp

lemma top_bits_iff:
  "hd (le_bytes 8 (SwapBytes64 v)) AND 0xC0 = 0 \<longleftrightarrow> v < 2 ^ 62"
proof -
  have "hd (le_bytes 8 (SwapBytes64 v)) AND 0xC0 = 0 \<longleftrightarrow> \<not> bit v 62 \<and> \<not> bit v 63"
    unfolding le_bytes_8 list.sel u8_eq_iff by (simp add: bit_simps bit_SwapBytes64)
  also have "\<dots> \<longleftrightarrow> take_bit 62 v = v"
  proof
    assume *: "\<not> bit v 62 \<and> \<not> bit v 63"
    show "take_bit 62 v = v"
    proof (rule bit_word_eqI)
      fix n assume "n < LENGTH(64)"
      then have "n < 62 \<or> n = 62 \<or> n = 63" by auto
      with * show "bit (take_bit 62 v) n = bit v n" by (auto simp: bit_take_bit_iff)
    qed
  next
    assume *: "take_bit 62 v = v"
    have "\<not> bit v n" if "62 \<le> n" for n using that by (subst * [symmetric]) (simp add: bit_take_bit_iff)
    then show "\<not> bit v 62 \<and> \<not> bit v 63" by simp
  qed
  also have "\<dots> \<longleftrightarrow> v < 2 ^ 62" by (simp add: take_bit_u64_iff)
  finally show ?thesis .
qed

definition varint_bytes :: "u64 \<Rightarrow> bytes" where
  "varint_bytes v =
     (if v \<le> 63 then [ucast v]
      else if v \<le> 16383 then [ucast (drop_bit 8 v) OR 0x40, ucast v]
      else if v \<le> 1073741823 then
        [ucast (drop_bit 24 v) OR 0x80, ucast (drop_bit 16 v), ucast (drop_bit 8 v), ucast v]
      else
        [ucast (drop_bit 56 v) OR 0xC0, ucast (drop_bit 48 v), ucast (drop_bit 40 v),
         ucast (drop_bit 32 v), ucast (drop_bit 24 v), ucast (drop_bit 16 v),
         ucast (drop_bit 8 v), ucast v])"

lemma le_bytes_tagged:
  "le_bytes 8 (drop_bit 56 (SwapBytes64 v)) = [ucast v, 0, 0, 0, 0, 0, 0, 0]"
  "le_bytes 8 (drop_bit 48 (SwapBytes64 v) OR 0x40) =
     [ucast (drop_bit 8 v) OR 0x40, ucast v, 0, 0, 0, 0, 0, 0]"
  "le_bytes 8 (drop_bit 32 (SwapBytes64 v) OR 0x80) =
     [ucast (drop_bit 24 v) OR 0x80, ucast (drop_bit 16 v), ucast (drop_bit 8 v), ucast v, 0, 0, 0, 0]"
  "le_bytes 8 (SwapBytes64 v OR 0xC0) =
     [ucast (drop_bit 56 v) OR 0xC0, ucast (drop_bit 48 v), ucast (drop_bit 40 v),
      ucast (drop_bit 32 v), ucast (drop_bit 24 v), ucast (drop_bit 16 v),
      ucast (drop_bit 8 v), ucast v]"
  unfolding le_bytes_8 list.inject u8_eq_iff
  by (simp_all add: bit_simps bit_SwapBytes64) (simp_all add: numeral_2_eq_2)

lemma replicate_pads:
  "replicate 7 x = [x, x, x, x, x, x, x]" "replicate 6 x = [x, x, x, x, x, x]"
  "replicate 4 x = [x, x, x, x]"
  by (simp_all add: eval_nat_numeral)

lemma UintVar_of_value_bytes:
  assumes "v < 2 ^ 62"
  shows "UintVar_of_value v =
    Inr \<lparr>be_value = varint_bytes v @ replicate (8 - length (varint_bytes v)) 0\<rparr>"
proof -
  have "UintVar_of_value v = Inr \<lparr>be_value = le_bytes 8
      (if k62bitLength < v then SwapBytes64 v OR 0xC0
       else if k30bitLength < v then drop_bit 32 (SwapBytes64 v) OR 0x80
       else if k14bitLength < v then drop_bit 48 (SwapBytes64 v) OR 0x40
       else drop_bit 56 (SwapBytes64 v))\<rparr>"
    using assms top_bits_iff [of v] unfolding UintVar_of_value_def Let_def of_le_bytes_le_bytes
    by simp
  also have "\<dots> = Inr \<lparr>be_value = varint_bytes v @ replicate (8 - length (varint_bytes v)) 0\<rparr>"
  proof -
    have "16383 < v \<Longrightarrow> 63 < v" and "1073741823 < v \<Longrightarrow> 16383 < v"
      by (erule order.strict_trans [rotated], simp)+
    then show ?thesis
      by (cases "63 < v"; cases "16383 < v"; cases "1073741823 < v")
        (simp_all add: varint_bytes_def le_bytes_tagged replicate_pads flip: not_less)
  qed
  finally show ?thesis .
qed


subsection \<open>Sizes\<close>

lemma Size_msb_bits:
  "UintVar_Size_msb b = (if bit b 7 then (if bit b 6 then 8 else 4) else if bit b 6 then 2 else 1)"
proof -
  have "b AND 0xC0 = 0xC0 \<longleftrightarrow> bit b 7 \<and> bit b 6" "b AND 0x80 = 0x80 \<longleftrightarrow> bit b 7"
    "b AND 0x40 = 0x40 \<longleftrightarrow> bit b 6"
    unfolding u8_eq_iff by (auto simp: bit_simps)
  then show ?thesis by (simp add: UintVar_Size_msb_def)
qed

lemma Size_msb_range: "UintVar_Size_msb b \<in> {1, 2, 4, 8}"
  by (simp add: UintVar_Size_msb_def)

lemma Size_msb_bounds [simp]: "0 < UintVar_Size_msb b" "UintVar_Size_msb b \<le> 8"
  by (simp_all add: UintVar_Size_msb_def)

lemma varint_bytes_ne [simp]: "varint_bytes v \<noteq> []"
  by (simp add: varint_bytes_def)

lemma le_mask_bits:
  assumes "(v :: u64) \<le> 2 ^ k - 1" "k < 64" "k \<le> n" shows "\<not> bit v n"
proof -
  have "(2 :: u64) ^ k \<noteq> 0" using assms(2) by simp
  with assms(1) have "v < 2 ^ k" by unat_arith
  then show ?thesis using assms(2,3) by (rule bit_above_bound)
qed

lemma Size_varint_bytes:
  "v < 2 ^ 62 \<Longrightarrow> UintVar_Size_msb (hd (varint_bytes v)) = length (varint_bytes v)"
  using le_mask_bits [of v 6 6] le_mask_bits [of v 6 7] le_mask_bits [of v 14 14]
    le_mask_bits [of v 14 15] le_mask_bits [of v 30 30] le_mask_bits [of v 30 31]
  by (auto simp: varint_bytes_def Size_msb_bits bit_simps)

subsection \<open>Decoding\<close>

definition varint_value :: "bytes \<Rightarrow> u64" where
  "varint_value bs = of_le_bytes (rev ((hd bs AND 0x3F) # tl bs))"

lemma bit_63 [simp]: "bit (63 :: int) n \<longleftrightarrow> n < 6"
proof -
  have "bit (63 :: int) n = bit (mask 6 :: int) n" by (simp add: mask_eq_exp_minus_1)
  also have "\<dots> \<longleftrightarrow> n < 6" by (simp only: bit_mask_iff possible_bit_int) simp
  finally show ?thesis .
qed

lemma bit_tags [simp]:
  "bit (64 :: int) n \<longleftrightarrow> n = 6" "bit (128 :: int) n \<longleftrightarrow> n = 7" "bit (192 :: int) n \<longleftrightarrow> n = 6 \<or> n = 7"
proof -
  have "bit (64 :: int) n = bit (2 ^ 6 :: int) n" "bit (128 :: int) n = bit (2 ^ 7 :: int) n"
    "bit (192 :: int) n = bit ((2 :: int) ^ 6 OR 2 ^ 7) n" by simp_all
  then show "bit (64 :: int) n \<longleftrightarrow> n = 6" "bit (128 :: int) n \<longleftrightarrow> n = 7"
    "bit (192 :: int) n \<longleftrightarrow> n = 6 \<or> n = 7"
    by (simp_all only: bit_exp_iff bit_or_iff possible_bit_int) auto
qed

lemma bit_Get_mask:
  "bit (SwapBytes64 (NOT (push_bit 56 (NOT 0x3F)))) n \<longleftrightarrow> n < 64 \<and> n \<noteq> 6 \<and> n \<noteq> 7"
proof (cases "n < 64")
  case True
  have "\<forall>n\<in>set [0..<64]. bit (SwapBytes64 (NOT (push_bit 56 (NOT 0x3F)))) n \<longleftrightarrow> n \<noteq> 6 \<and> n \<noteq> 7"
    by (simp add: upt_conv_Cons bit_SwapBytes64 bit_simps)
  with True show ?thesis by simp
next
  case False
  then show ?thesis by (auto dest: bit_imp_le_length)
qed

lemma UintVar_Get_bytes:
  assumes "length bs = UintVar_Size_msb (hd bs)"
  shows "UintVar_Get \<lparr>be_value = bs @ replicate (8 - length bs) 0\<rparr> = varint_value bs"
proof (rule bit_word_eqI)
  define s where "s = length bs"
  have s: "0 < s" "s \<le> 8" using assms by (simp_all add: s_def)
  then have bs: "bs \<noteq> []" by (auto simp: s_def)
  have sz: "UintVar_Size \<lparr>be_value = bs @ replicate (8 - length bs) 0\<rparr> = s"
    using assms bs by (simp add: UintVar_Size_def s_def)
  fix n assume "n < LENGTH(64)"
  then have n: "n < 64" by simp
  define q r where "q = n div 8" and "r = n mod 8"
  have qr: "n = 8 * q + r" "q < 8" "r < 8" using n by (auto simp: q_def r_def)
  let ?m = "8 * (7 - q) + r"
  define M :: u64 where "M = SwapBytes64 (NOT (push_bit 56 (NOT 0x3F)))"
  have M: "bit M n \<longleftrightarrow> n < 64 \<and> n \<noteq> 6 \<and> n \<noteq> 7" for n
    unfolding M_def by (rule bit_Get_mask)
  have "bit (UintVar_Get \<lparr>be_value = bs @ replicate (8 - length bs) 0\<rparr>) n \<longleftrightarrow>
      q < s \<and> bit (bs ! (s - 1 - q)) r \<and> (q = s - 1 \<longrightarrow> r < 6)"
  proof (cases "q < s")
    case True
    then have "(8 - s) * 8 \<le> ?m" and d: "?m - (8 - s) * 8 = 8 * (s - 1 - q) + r"
      using s qr by auto
    have "(8 * (s - 1 - q) + r) div 8 = s - 1 - q" "(8 * (s - 1 - q) + r) mod 8 = r"
      "8 * (s - 1 - q) + r < 64" "?m < 64"
      using qr s True by auto
    with True \<open>(8 - s) * 8 \<le> ?m\<close> d n s show ?thesis
      unfolding UintVar_Get_def sz M_def [symmetric]
      by (auto simp: bit_SwapBytes64 bit_push_bit_iff bit_and_iff bit_of_le_bytes M
          nth_append s_def [symmetric] simp flip: q_def r_def)
  next
    case False
    then have "\<not> (8 - s) * 8 \<le> ?m" using s qr by auto
    with False n show ?thesis
      unfolding UintVar_Get_def sz M_def [symmetric]
      by (auto simp: bit_SwapBytes64 bit_push_bit_iff bit_and_iff simp flip: q_def r_def)
  qed
  also have "\<dots> \<longleftrightarrow> bit (varint_value bs) n"
    using n bs qr
    by (cases bs)
      (auto simp: varint_value_def bit_of_le_bytes s_def rev_nth nth_append nth_Cons' bit_and_iff simp flip: q_def r_def)
  finally show "bit (UintVar_Get \<lparr>be_value = bs @ replicate (8 - length bs) 0\<rparr>) n = bit (varint_value bs) n" .
qed


lemma varint_value_bytes:
  assumes "v < 2 ^ 62"
  shows "varint_value (varint_bytes v) = v"
proof (rule bit_word_eqI)
  fix n assume "n < LENGTH(64)"
  then have n: "n \<in> set [0..<64]" by simp
  consider "v \<le> 63" | "\<not> v \<le> 63" "v \<le> 16383" | "\<not> v \<le> 63" "\<not> v \<le> 16383" "v \<le> 1073741823"
    | "\<not> v \<le> 63" "\<not> v \<le> 16383" "\<not> v \<le> 1073741823" by blast
  then show "bit (varint_value (varint_bytes v)) n = bit v n"
  proof cases
    case 1
    then have "bit v k \<Longrightarrow> k < 6" for k using le_mask_bits [of v 6 k] by force
    from this [of n] 1 n show ?thesis by (auto simp: varint_bytes_def varint_value_def bit_simps)
  next
    case 2
    then have "bit v k \<Longrightarrow> k < 14" for k using le_mask_bits [of v 14 k] by force
    from this [of n] 2 n show ?thesis by (auto simp: varint_bytes_def varint_value_def bit_simps)
  next
    case 3
    then have "bit v k \<Longrightarrow> k < 30" for k using le_mask_bits [of v 30 k] by force
    from this [of n] 3 n show ?thesis by (auto simp: varint_bytes_def varint_value_def bit_simps)
  next
    case 4
    define q r where "q = n div 8" and "r = n mod 8"
    have qr: "n = 8 * q + r" "r < 8" and "q < 8" using n by (auto simp: q_def r_def)
    then have q: "q = 0 \<or> q = 1 \<or> q = 2 \<or> q = 3 \<or> q = 4 \<or> q = 5 \<or> q = 6 \<or> q = 7" by auto
    have "bit v n \<Longrightarrow> n < 62" using assms bit_above_bound [of v 62 n] by force
    with 4 q qr show ?thesis
      unfolding varint_bytes_def varint_value_def
      by (elim disjE) (auto simp: bit_of_le_bytes bit_simps)
  qed
qed


lemma UintVar_of_value_wire:
  assumes "UintVar_of_value v = Inr u"
  shows "v < 2 ^ 62" "UintVar_wire u = varint_bytes v" "UintVar_Get u = v"
    "UintVar_Size u = length (varint_bytes v)" "length (be_value u) = 8"
proof -
  show v: "v < 2 ^ 62"
    using assms top_bits_iff [of v] by (auto simp: UintVar_of_value_def split: if_splits)
  have u: "u = \<lparr>be_value = varint_bytes v @ replicate (8 - length (varint_bytes v)) 0\<rparr>"
    using assms UintVar_of_value_bytes [OF v] by simp
  note sz = Size_varint_bytes [OF v]
  show "UintVar_Size u = length (varint_bytes v)" "UintVar_wire u = varint_bytes v"
    by (simp_all add: UintVar_wire_def UintVar_Size_def u sz)
  show "UintVar_Get u = v"
    using UintVar_Get_bytes [of "varint_bytes v"] varint_value_bytes [OF v] by (simp add: u sz)
  show "length (be_value u) = 8" using Size_msb_bounds(2) [of "hd (varint_bytes v)"] by (simp add: u sz)
qed

lemma UintVar_of_value_rejects:
  "UintVar_of_value v = Inl e \<longleftrightarrow> \<not> v < 2 ^ 62 \<and> e = Invalid_Argument ''Value greater than uintvar maximum''"
  using top_bits_iff [of v] by (auto simp: UintVar_of_value_def Let_def)

lemma UintVar_of_bytes_cases:
  assumes "UintVar_of_bytes bs = Inr u"
  shows "bs \<noteq> []" "UintVar_Size u = UintVar_Size_msb (hd bs)" "UintVar_Size u \<le> length bs"
    "UintVar_wire u = take (UintVar_Size u) bs" "UintVar_Get u = varint_value (UintVar_wire u)"
proof -
  let ?s = "UintVar_Size_msb (hd bs)"
  from assms show bs: "bs \<noteq> []" by (simp add: UintVar_of_bytes_def split: if_splits)
  from assms have le: "?s \<le> length bs" and u: "u = \<lparr>be_value = take ?s bs @ replicate (8 - ?s) 0\<rparr>"
    by (simp_all add: UintVar_of_bytes_def Let_def split: if_splits)
  show sz: "UintVar_Size u = ?s" using bs by (simp add: UintVar_Size_def u)
  then show "UintVar_Size u \<le> length bs" using le by simp
  show "UintVar_wire u = take (UintVar_Size u) bs" using le by (simp add: UintVar_wire_def sz) (simp add: u)
  then show "UintVar_Get u = varint_value (UintVar_wire u)"
    using UintVar_Get_bytes [of "take ?s bs"] le by (simp add: u [symmetric] sz min_absorb2)
qed

lemma UintVar_of_bytes_append:
  "UintVar_of_bytes bs = Inr u \<Longrightarrow> UintVar_of_bytes (bs @ rest) = Inr u"
  by (auto simp: UintVar_of_bytes_def Let_def split: if_splits)

lemma UintVar_of_bytes_varint:
  assumes "UintVar_of_value v = Inr u"
  shows "UintVar_of_bytes (varint_bytes v @ rest) = Inr u"
proof -
  note w = UintVar_of_value_wire [OF assms]
  have "u = \<lparr>be_value = varint_bytes v @ replicate (8 - length (varint_bytes v)) 0\<rparr>"
    using assms UintVar_of_value_bytes [OF w(1)] by simp
  then show ?thesis using Size_varint_bytes [OF w(1)] by (simp add: UintVar_of_bytes_def)
qed

subsection \<open>The value as a big-endian number, minimality and order\<close>

fun be_nat :: "bytes \<Rightarrow> nat" where
  "be_nat [] = 0"
| "be_nat (b # bs) = unat b * 256 ^ length bs + be_nat bs"

lemma be_nat_append: "be_nat (xs @ ys) = be_nat xs * 256 ^ length ys + be_nat ys"
  by (induction xs) (simp_all add: power_add algebra_simps)

lemma be_nat_bound: "be_nat bs < 256 ^ length bs"
proof (induction bs)
  case (Cons b bs)
  have "unat b \<le> 255" using unat_less_pow [of b] by simp
  then have "unat b * 256 ^ length bs \<le> 255 * 256 ^ length bs" by (rule mult_right_mono) simp
  from this Cons.IH have "unat b * 256 ^ length bs + be_nat bs < 255 * 256 ^ length bs + 256 ^ length bs"
    by (rule add_le_less_mono)
  then show ?case by simp
qed simp

lemma of_le_bytes_nat: "(of_le_bytes bs :: 'a::len word) = of_nat (be_nat (rev bs))"
proof (induction bs)
  case (Cons b bs)
  have "ucast b AND push_bit 8 (of_le_bytes bs :: 'a word) = 0"
    by (rule bit_word_eqI) (auto simp: bit_simps dest: bit_imp_le_length)
  then have "(of_le_bytes (b # bs) :: 'a word) = ucast b + push_bit 8 (of_le_bytes bs)"
    by (simp add: disjunctive_add_eq_or)
  also have "\<dots> = of_nat (unat b) + 256 * of_nat (be_nat (rev bs))"
    by (simp add: Cons.IH push_bit_eq_mult)
  finally show ?case by (simp add: be_nat_append)
qed simp

lemma unat_varint_value:
  assumes "bs \<noteq> []" "length bs \<le> 8"
  shows "unat (varint_value bs) = be_nat ((hd bs AND 0x3F) # tl bs)"
proof -
  have "be_nat ((hd bs AND 0x3F) # tl bs) < 256 ^ length bs"
    using be_nat_bound [of "(hd bs AND 0x3F) # tl bs"] assms(1) by simp
  also have "\<dots> \<le> 256 ^ 8" by (rule power_increasing) (use assms in auto)
  finally show ?thesis
    by (simp add: varint_value_def of_le_bytes_nat unat_of_nat take_bit_nat_eq_self del: be_nat.simps)
qed


text \<open>
  \<^verbatim>\<open>operator<=>\<close> is defaulted, so it compares the two arrays octet by octet; on encoded
  values that is the order of the encoded integers, because the length tag sits in the top bits.
\<close>

fun array_less :: "bytes \<Rightarrow> bytes \<Rightarrow> bool" where
  "array_less (x # xs) (y # ys) \<longleftrightarrow> x < y \<or> x = y \<and> array_less xs ys"
| "array_less [] (y # ys) \<longleftrightarrow> True"
| "array_less xs [] \<longleftrightarrow> False"

definition UintVar_less :: "UintVar \<Rightarrow> UintVar \<Rightarrow> bool" where
  "UintVar_less u w = array_less (be_value u) (be_value w)"

lemma array_less_be_nat:
  "length xs = length ys \<Longrightarrow> array_less xs ys \<longleftrightarrow> be_nat xs < be_nat ys"
proof (induction xs ys rule: array_less.induct)
  case (1 x xs y ys)
  let ?K = "256 ^ length ys :: nat"
  have bx: "be_nat xs < ?K" and by': "be_nat ys < ?K"
    using be_nat_bound [of xs] be_nat_bound [of ys] "1.prems" by simp_all
  have lt: "a * ?K + c < b * ?K + d" if "a < b" "c < ?K" for a b c d :: nat
  proof -
    from that(1) have "(a + 1) * ?K \<le> b * ?K" by (intro mult_right_mono) auto
    with that(2) show ?thesis by (simp add: algebra_simps)
  qed
  show ?case
  proof (cases "x = y")
    case True
    with 1 show ?thesis by simp
  next
    case False
    then consider "unat x < unat y" | "unat y < unat x" by (meson linorder_neqE word_unat_eq_iff)
    then show ?thesis
      using lt [of "unat x" "unat y" "be_nat xs" "be_nat ys"] lt [of "unat y" "unat x" "be_nat ys" "be_nat xs"]
        bx by' False "1.prems" by cases (auto simp: word_less_nat_alt)
  qed
qed auto

definition varint_tag :: "u64 \<Rightarrow> nat" where
  "varint_tag v = (if v \<le> 63 then 0 else if v \<le> 16383 then 1 else if v \<le> 1073741823 then 2 else 3)"

lemma varint_hd_split:
  assumes "v < 2 ^ 62"
  shows "unat (hd (varint_bytes v)) = unat (hd (varint_bytes v) AND 0x3F) + 64 * varint_tag v"
proof -
  have split: "unat b = unat (b AND 0x3F) + 64 * ((if bit b 6 then 1 else 0) + (if bit b 7 then 2 else 0))"
    for b :: u8
  proof -
    have "b AND 0x3F = take_bit 6 b" unfolding u8_eq_iff by (simp add: bit_simps)
    then have lo: "unat (b AND 0x3F) = unat b mod 64"
      by (simp add: take_bit_eq_mod unat_mod)
    have "bit b 6 \<longleftrightarrow> odd (unat b div 64)" "bit b 7 \<longleftrightarrow> odd (unat b div 128)"
      using bit_iff_odd [of "unat b" 6] bit_iff_odd [of "unat b" 7] by (simp_all add: bit_unsigned_iff)
    moreover have "n = n mod 64 + 64 * ((if odd (n div 64) then 1 else 0) + (if odd (n div 128) then 2 else 0))"
      if "n < 256" for n :: nat
    proof -
      define m where "m = n div 64"
      have "m < 4" using that by (simp add: m_def div_less_iff_less_mult)
      then have "m = 0 \<or> m = 1 \<or> m = 2 \<or> m = 3" by auto
      then have "m = (if odd m then 1 else 0) + (if odd (m div 2) then 2 else 0)" by auto
      moreover have "n div 128 = m div 2" using div_mult2_eq [of n 64 2] by (simp add: m_def)
      moreover have "n = n mod 64 + 64 * m" by (simp add: m_def)
      ultimately show ?thesis by (metis m_def)
    qed
    ultimately show ?thesis using lo unat_less_pow [of b] by simp
  qed
  have "varint_tag v = (if bit (hd (varint_bytes v)) 6 then 1 else 0) + (if bit (hd (varint_bytes v)) 7 then 2 else 0)"
    using assms le_mask_bits [of v 6 6] le_mask_bits [of v 6 7] le_mask_bits [of v 14 14]
      le_mask_bits [of v 14 15] le_mask_bits [of v 30 30] le_mask_bits [of v 30 31]
    by (auto simp: varint_bytes_def varint_tag_def bit_simps)
  then show ?thesis using split [of "hd (varint_bytes v)"] by simp
qed


lemma length_varint_bytes:
  "length (varint_bytes v) = 2 ^ varint_tag v"
  by (simp add: varint_bytes_def varint_tag_def)

lemma be_nat_replicate [simp]: "be_nat (replicate k 0) = 0"
  by (induction k) auto

lemma be_nat_be_value:
  assumes "UintVar_of_value v = Inr u"
  shows "be_nat (be_value u) =
    varint_tag v * 2 ^ 62 + unat v * 256 ^ (8 - length (varint_bytes v))"
proof -
  note v = UintVar_of_value_wire(1) [OF assms]
  obtain h t where ht: "varint_bytes v = h # t" by (cases "varint_bytes v") auto
  have len: "length (varint_bytes v) \<le> 8" and t: "length t \<le> 7"
    using Size_varint_bytes [OF v] Size_msb_bounds(2) [of h] by (simp_all add: ht)
  have "unat v = be_nat ((h AND 0x3F) # t)"
    using unat_varint_value [of "varint_bytes v"] varint_value_bytes [OF v] len by (simp add: ht)
  then have "be_nat (varint_bytes v) = unat v + varint_tag v * 64 * 256 ^ length t"
    using varint_hd_split [OF v] by (simp add: ht algebra_simps)
  moreover have "be_value u = varint_bytes v @ replicate (8 - length (varint_bytes v)) 0"
    using assms UintVar_of_value_bytes [OF v] by auto
  moreover have "64 * 256 ^ length t * 256 ^ (8 - length (varint_bytes v)) = (2 ^ 62 :: nat)"
    using t by (simp add: ht mult.assoc flip: power_add)
  ultimately show ?thesis by (simp add: be_nat_append algebra_simps)
qed

lemma varint_scaled_bound:
  assumes "v < 2 ^ 62"
  shows "unat v * 256 ^ (8 - length (varint_bytes v)) < 2 ^ 62"
proof -
  have "unat v < 2 ^ 62" using assms by (simp add: word_less_nat_alt)
  then show ?thesis
    by (auto simp: varint_bytes_def word_le_nat_alt)
qed

text \<open>C35. The defaulted three-way comparison of \<^verbatim>\<open>UintVar\<close> orders encoded values as the
  integers they encode.\<close>

theorem UintVar_less_iff:
  assumes "UintVar_of_value v = Inr u" "UintVar_of_value w = Inr x"
  shows "UintVar_less u x \<longleftrightarrow> v < w"
proof -
  note v = UintVar_of_value_wire [OF assms(1)] and w = UintVar_of_value_wire [OF assms(2)]
  have less: "UintVar_less u x \<longleftrightarrow> be_nat (be_value u) < be_nat (be_value x)"
    using v(5) w(5) by (simp add: UintVar_less_def array_less_be_nat)
  note num = be_nat_be_value [OF assms(1)] be_nat_be_value [OF assms(2)]
  note bnd = varint_scaled_bound [OF v(1)] varint_scaled_bound [OF w(1)]
  consider "varint_tag v = varint_tag w" | "varint_tag v < varint_tag w" | "varint_tag w < varint_tag v"
    by arith
  then show ?thesis
  proof cases
    case 1
    then show ?thesis unfolding less num by (simp add: length_varint_bytes word_less_nat_alt)
  next
    case 2
    then have "v < w" by (auto simp: varint_tag_def split: if_splits)
    moreover have "varint_tag v * 2 ^ 62 + 2 ^ 62 \<le> varint_tag w * 2 ^ 62" using 2 by simp
    ultimately show ?thesis unfolding less num using bnd by linarith
  next
    case 3
    then have "w < v" by (auto simp: varint_tag_def split: if_splits)
    moreover have "varint_tag w * 2 ^ 62 + 2 ^ 62 \<le> varint_tag v * 2 ^ 62" using 3 by simp
    ultimately show ?thesis unfolding less num using bnd by (auto simp: not_less)
  qed
qed


theorem UintVar_less_iff_witness:
  "UintVar_of_value 300 = Inr \<lparr>be_value = [65, 44, 0, 0, 0, 0, 0, 0]\<rparr> \<and>
   UintVar_of_value 20 = Inr \<lparr>be_value = [20, 0, 0, 0, 0, 0, 0, 0]\<rparr> \<and>
   UintVar_less \<lparr>be_value = [20, 0, 0, 0, 0, 0, 0, 0]\<rparr> \<lparr>be_value = [65, 44, 0, 0, 0, 0, 0, 0]\<rparr>"
proof -
  have a: "UintVar_of_value 300 = Inr \<lparr>be_value = [65, 44, 0, 0, 0, 0, 0, 0]\<rparr>" by code_simp
  have b: "UintVar_of_value 20 = Inr \<lparr>be_value = [20, 0, 0, 0, 0, 0, 0, 0]\<rparr>" by code_simp
  show ?thesis using a b UintVar_less_iff [OF b a] by simp
qed

lemma unat_Get_bound:
  assumes "UintVar_of_bytes bs = Inr x"
  shows "unat (UintVar_Get x) < 64 * 256 ^ (UintVar_Size x - 1)"
proof -
  note x = UintVar_of_bytes_cases [OF assms]
  define w where "w = UintVar_wire x"
  have w: "w \<noteq> []" "length w = UintVar_Size x" "length w \<le> 8" using x by (simp_all add: w_def)
  have "hd w AND 0x3F \<le> 0x3F" by (rule word_and_le1)
  then have "unat (hd w AND 0x3F) \<le> 63" by (simp add: word_le_nat_alt)
  then have "unat (hd w AND 0x3F) * 256 ^ length (tl w) \<le> 63 * 256 ^ length (tl w)"
    by (rule mult_right_mono) simp
  from add_le_less_mono [OF this be_nat_bound [of "tl w"]]
  show ?thesis using unat_varint_value [OF w(1,3)] w x(5) by (simp add: w_def)
qed

lemma Get_bound: "UintVar_of_bytes bs = Inr x \<Longrightarrow> UintVar_Get x < 2 ^ 62"
proof -
  assume x: "UintVar_of_bytes bs = Inr x"
  have "UintVar_Size x - 1 \<le> 7" using UintVar_of_bytes_cases(2) [OF x] Size_msb_bounds(2) [of "hd bs"] by linarith
  then have "(256 :: nat) ^ (UintVar_Size x - 1) \<le> 256 ^ 7" by (intro power_increasing) auto
  with unat_Get_bound [OF x] show ?thesis by (simp add: word_less_nat_alt)
qed

text \<open>Every value a \<^verbatim>\<open>UintVar\<close> decodes to can be encoded again, and the encoder picks the
  shortest form: never longer than the octets the value was decoded from.\<close>

theorem UintVar_minimal:
  assumes "UintVar_of_bytes bs = Inr x"
  shows "\<exists>u. UintVar_of_value (UintVar_Get x) = Inr u \<and> UintVar_Get u = UintVar_Get x \<and>
    UintVar_Size u \<le> UintVar_Size x"
proof -
  obtain u where u: "UintVar_of_value (UintVar_Get x) = Inr u"
    using UintVar_of_value_bytes [OF Get_bound [OF assms]] by blast
  have sz: "UintVar_Size x \<in> {1, 2, 4, 8}"
    using UintVar_of_bytes_cases(2) [OF assms] Size_msb_range by simp
  have "UintVar_Size u \<le> UintVar_Size x"
    using sz unat_Get_bound [OF assms] UintVar_of_value_wire(4) [OF u]
    by (auto simp: length_varint_bytes varint_tag_def word_le_nat_alt)
  with u UintVar_of_value_wire(3) [OF u] show ?thesis by blast
qed

theorem UintVar_minimal_witness:
  "\<exists>x u. UintVar_of_bytes [64, 5] = Inr x \<and> UintVar_of_value (UintVar_Get x) = Inr u \<and>
     UintVar_Size u \<le> UintVar_Size x"
proof -
  have "UintVar_of_bytes [64, 5] = Inr \<lparr>be_value = [64, 5, 0, 0, 0, 0, 0, 0]\<rparr>" by code_simp
  from this UintVar_minimal [OF this] show ?thesis by blast
qed

text \<open>C34. Encoding then decoding a variable-length integer: every value below \<^verbatim>\<open>2^62\<close> is
  accepted, its octets decode to the same object whatever follows them in the buffer, and the
  object holds the value.\<close>

theorem UintVar_roundtrip:
  assumes "v < 2 ^ 62"
  shows "\<exists>u. UintVar_of_value v = Inr u \<and> UintVar_Get u = v \<and>
    length (UintVar_wire u) = UintVar_Size u \<and> UintVar_of_bytes (UintVar_wire u @ rest) = Inr u"
proof -
  obtain u where u: "UintVar_of_value v = Inr u" using UintVar_of_value_bytes [OF assms] by blast
  show ?thesis using u UintVar_of_value_wire [OF u] UintVar_of_bytes_varint [OF u] by simp
qed

theorem UintVar_roundtrip_witness:
  "\<exists>u. UintVar_of_value 70000 = Inr u \<and> UintVar_Get u = 70000 \<and>
     UintVar_of_bytes (UintVar_wire u @ [1, 2]) = Inr u"
proof -
  have "(70000 :: u64) < 2 ^ 62" by simp
  from UintVar_roundtrip [OF this, of "[1, 2]"] show ?thesis by blast
qed

end
