(* ===== verification/Stream_Buffer.thy ===== *)
theory Stream_Buffer
  imports Uint_Var
begin

section \<open>The stream buffer\<close>

text \<open>
  The class template \<^verbatim>\<open>StreamBuffer\<close> of \<^verbatim>\<open>detail/stream_buffer.h\<close> at octets: the queue
  the incremental parsers read from, with its variable-length-integer and length-prefixed reads.
  The two \<^verbatim>\<open>std::any\<close> slots hold a value of the client's union type \<open>'d\<close>; a cast selects
  a variant. Lengths are the 32-bit values the code passes, so the truncation of a 64-bit length
  is visible. Reads that may hit the throwing \<^verbatim>\<open>UintVar\<close> constructor return a result, and
  the lemmas below show that they never throw.
\<close>

record 'd StreamBuffer =
  buffer :: bytes
  parsed_data :: "'d option"
  parsed_dataB :: "'d option"
  parsed_data_type :: "u64 option"

definition StreamBuffer_new :: "'d StreamBuffer" where
  "StreamBuffer_new = \<lparr>buffer = [], parsed_data = None, parsed_dataB = None, parsed_data_type = None\<rparr>"

subsection \<open>The parsed-data slots\<close>

definition InitAny :: "'d \<Rightarrow> 'd StreamBuffer \<Rightarrow> 'd StreamBuffer" where
  "InitAny d sb = sb\<lparr>parsed_data := Some d\<rparr>"

definition InitAnyB :: "'d \<Rightarrow> 'd StreamBuffer \<Rightarrow> 'd StreamBuffer" where
  "InitAnyB d sb = sb\<lparr>parsed_dataB := Some d\<rparr>"

definition InitAny_type :: "'d \<Rightarrow> u64 \<Rightarrow> 'd StreamBuffer \<Rightarrow> 'd StreamBuffer" where
  "InitAny_type d type sb = sb\<lparr>parsed_data := Some d, parsed_data_type := Some type\<rparr>"

definition any_cast :: "('d \<Rightarrow> 'e option) \<Rightarrow> 'd option \<Rightarrow> 'e result" where
  "any_cast sel a = (case Option.bind a sel of None \<Rightarrow> Inl Bad_Any_Cast | Some x \<Rightarrow> Inr x)"

definition GetAny :: "('d \<Rightarrow> 'e option) \<Rightarrow> 'd StreamBuffer \<Rightarrow> 'e result" where
  "GetAny sel sb = any_cast sel (parsed_data sb)"

definition GetAnyB :: "('d \<Rightarrow> 'e option) \<Rightarrow> 'd StreamBuffer \<Rightarrow> 'e result" where
  "GetAnyB sel sb = any_cast sel (parsed_dataB sb)"

definition GetAnyType :: "'d StreamBuffer \<Rightarrow> u64 option" where
  "GetAnyType sb = parsed_data_type sb"

definition SetAnyType :: "u64 \<Rightarrow> 'd StreamBuffer \<Rightarrow> 'd StreamBuffer" where
  "SetAnyType type sb = sb\<lparr>parsed_data_type := Some type\<rparr>"

definition ResetAny :: "'d StreamBuffer \<Rightarrow> 'd StreamBuffer" where
  "ResetAny sb = sb\<lparr>parsed_data := None, parsed_dataB := None, parsed_data_type := None\<rparr>"

definition Clear_sb :: "'d StreamBuffer \<Rightarrow> 'd StreamBuffer" where
  "Clear_sb sb = (ResetAny sb)\<lparr>buffer := []\<rparr>"

definition ResetAnyB :: "'d StreamBuffer \<Rightarrow> 'd StreamBuffer" where
  "ResetAnyB sb = sb\<lparr>parsed_dataB := None\<rparr>"

definition ResetAnyB_init :: "'d \<Rightarrow> 'd StreamBuffer \<Rightarrow> 'd StreamBuffer" where
  "ResetAnyB_init d sb = InitAnyB d (ResetAnyB sb)"

definition AnyHasValue :: "'d StreamBuffer \<Rightarrow> bool" where
  "AnyHasValue sb \<longleftrightarrow> parsed_data sb \<noteq> None"

definition AnyHasValueB :: "'d StreamBuffer \<Rightarrow> bool" where
  "AnyHasValueB sb \<longleftrightarrow> parsed_dataB sb \<noteq> None"

subsection \<open>Octets in and out\<close>

definition FrontInternal :: "u32 \<Rightarrow> 'd StreamBuffer \<Rightarrow> bytes" where
  "FrontInternal len sb = (if length (buffer sb) < unat len then [] else take (unat len) (buffer sb))"

definition PopInternal :: "u32 \<Rightarrow> 'd StreamBuffer \<Rightarrow> 'd StreamBuffer" where
  "PopInternal len sb =
     (if unat len \<ge> length (buffer sb) then sb\<lparr>buffer := []\<rparr>
      else sb\<lparr>buffer := drop (unat len) (buffer sb)\<rparr>)"

definition PushInternal :: "bytes \<Rightarrow> 'd StreamBuffer \<Rightarrow> 'd StreamBuffer" where
  "PushInternal value sb = sb\<lparr>buffer := buffer sb @ value\<rparr>"

definition Empty_sb :: "'d StreamBuffer \<Rightarrow> bool" where
  "Empty_sb sb \<longleftrightarrow> buffer sb = []"

definition Size_sb :: "'d StreamBuffer \<Rightarrow> nat" where
  "Size_sb sb = length (buffer sb)"

definition Front :: "'d StreamBuffer \<Rightarrow> u8 option" where
  "Front sb = (case buffer sb of [] \<Rightarrow> None | b # _ \<Rightarrow> Some b)"

definition Front_n :: "u32 \<Rightarrow> 'd StreamBuffer \<Rightarrow> bytes" where
  "Front_n len sb = (if buffer sb = [] then [] else FrontInternal len sb)"

definition Pop :: "'d StreamBuffer \<Rightarrow> 'd StreamBuffer" where
  "Pop sb = (case buffer sb of [] \<Rightarrow> sb | _ # bs \<Rightarrow> sb\<lparr>buffer := bs\<rparr>)"

definition Pop_n :: "u32 \<Rightarrow> 'd StreamBuffer \<Rightarrow> 'd StreamBuffer" where
  "Pop_n len sb = (if len = 0 \<or> buffer sb = [] then sb else PopInternal len sb)"

definition Available :: "u32 \<Rightarrow> 'd StreamBuffer \<Rightarrow> bool" where
  "Available len sb \<longleftrightarrow> length (buffer sb) \<ge> unat len"

definition Push_byte :: "u8 \<Rightarrow> 'd StreamBuffer \<Rightarrow> 'd StreamBuffer" where
  "Push_byte value sb = sb\<lparr>buffer := buffer sb @ [value]\<rparr>"

definition Push :: "bytes \<Rightarrow> 'd StreamBuffer \<Rightarrow> 'd StreamBuffer" where
  "Push value sb = PushInternal value sb"

definition PushLengthBytes :: "bytes \<Rightarrow> 'd StreamBuffer \<Rightarrow> 'd StreamBuffer result" where
  "PushLengthBytes value sb =
     bind_result (UintVar_of_value (of_nat (length value)))
       (\<lambda>uv. Inr (PushInternal value (PushInternal (UintVar_wire uv) sb)))"

subsection \<open>Variable-length reads\<close>

definition ReadUintV :: "bool \<Rightarrow> 'd StreamBuffer \<Rightarrow> (UintVar option \<times> 'd StreamBuffer) result" where
  "ReadUintV pop sb =
     (if buffer sb = [] then Inr (None, sb)
      else
        let uv_len = UintVar_Size_msb (hd (buffer sb)) in
        if Available (of_nat uv_len) sb then
          bind_result (UintVar_of_bytes (FrontInternal (of_nat uv_len) sb))
            (\<lambda>val. Inr (Some val, if pop then PopInternal (of_nat uv_len) sb else sb))
        else Inr (None, sb))"

definition DecodeUintV :: "bool \<Rightarrow> 'd StreamBuffer \<Rightarrow> (u64 option \<times> 'd StreamBuffer) result" where
  "DecodeUintV pop sb =
     bind_result (ReadUintV pop sb)
       (\<lambda>(uintv, sb'). case uintv of Some uv \<Rightarrow> Inr (Some (UintVar_Get uv), sb') | None \<Rightarrow> Inr (None, sb'))"

definition DecodeBytes :: "'d StreamBuffer \<Rightarrow> (bytes option \<times> 'd StreamBuffer) result" where
  "DecodeBytes sb =
     (if buffer sb = [] then Inr (None, sb)
      else
        let uv_len = UintVar_Size_msb (hd (buffer sb)) in
        if Available (of_nat uv_len) sb then
          bind_result (UintVar_of_bytes (FrontInternal (of_nat uv_len) sb))
            (\<lambda>len.
              if length (buffer sb) \<ge> unat (of_nat uv_len + UintVar_Get len) then
                let sb1 = PopInternal (of_nat uv_len) sb;
                    v = FrontInternal (ucast (UintVar_Get len)) sb1;
                    sb2 = PopInternal (ucast (UintVar_Get len)) sb1
                in Inr (Some v, sb2)
              else Inr (None, sb))
        else Inr (None, sb))"


subsection \<open>What the reads do to the octets\<close>

text \<open>
  The specification of the two reads as functions on the octets received so far: \<open>None\<close> means
  that more octets are needed. The second keeps the code's truncation of the length to 32 bits.
\<close>

definition uintv_field :: "bytes \<Rightarrow> (UintVar \<times> bytes) option" where
  "uintv_field bs =
     (case UintVar_of_bytes bs of Inl _ \<Rightarrow> None | Inr u \<Rightarrow> Some (u, drop (UintVar_Size u) bs))"

definition bytes_field :: "bytes \<Rightarrow> (bytes \<times> bytes) option" where
  "bytes_field bs =
     (case uintv_field bs of
        None \<Rightarrow> None
      | Some (u, r) \<Rightarrow>
          if unat (UintVar_Get u) \<le> length r
          then let n = unat (UintVar_Get u) mod 2 ^ 32 in Some (take n r, drop n r)
          else None)"

definition octet_field :: "bytes \<Rightarrow> (u8 \<times> bytes) option" where
  "octet_field bs = (case bs of [] \<Rightarrow> None | b # r \<Rightarrow> Some (b, r))"

interpretation uintv: stream_field uintv_field
proof
  show "uintv_field b = Some (x, r) \<Longrightarrow> uintv_field (b @ c) = Some (x, r @ c)" for b x r c
    using UintVar_of_bytes_cases(3) [of b x]
    by (auto simp: uintv_field_def UintVar_of_bytes_append split: sum.splits)
  show "uintv_field b = Some (x, r) \<Longrightarrow> length r < length b" for b x r
    using UintVar_of_bytes_cases [of b x] by (auto simp: uintv_field_def split: sum.splits)
qed

interpretation bytes_f: stream_field bytes_field
proof
  show "bytes_field b = Some (x, r) \<Longrightarrow> bytes_field (b @ c) = Some (x, r @ c)" for b x r c
    by (auto simp: bytes_field_def Let_def uintv.parse_more split: option.splits if_splits
        intro: order.trans [OF mod_less_eq_dividend])
  show "bytes_field b = Some (x, r) \<Longrightarrow> length r < length b" for b x r
    by (auto simp: bytes_field_def Let_def split: option.splits if_splits dest!: uintv.parse_consumes)
qed

interpretation octet: stream_field octet_field
  by unfold_locales (auto simp: octet_field_def split: list.splits)

lemma unat_uv_len [simp]: "unat (of_nat (UintVar_Size_msb b) :: u32) = UintVar_Size_msb b"
  by (intro unat_of_nat_small le_less_trans [OF Size_msb_bounds(2)]) simp

lemma UintVar_of_bytes_take:
  "bs \<noteq> [] \<Longrightarrow> UintVar_of_bytes (take (UintVar_Size_msb (hd bs)) bs) = UintVar_of_bytes bs"
  by (auto simp: UintVar_of_bytes_def Let_def)

lemma PopInternal_eq: "PopInternal n sb = sb\<lparr>buffer := drop (unat n) (buffer sb)\<rparr>"
  by (simp add: PopInternal_def)

lemma ReadUintV_eq:
  "ReadUintV pop sb = Inr (case uintv_field (buffer sb) of
      None \<Rightarrow> (None, sb)
    | Some (u, r) \<Rightarrow> (Some u, if pop then sb\<lparr>buffer := r\<rparr> else sb))"
proof (cases "buffer sb = []")
  case True
  then show ?thesis by (simp add: ReadUintV_def uintv.parse_empty)
next
  case False
  show ?thesis
  proof (cases "UintVar_of_bytes (buffer sb)")
    case (Inl e)
    with False have "length (buffer sb) < UintVar_Size_msb (hd (buffer sb))"
      by (simp add: UintVar_of_bytes_def Let_def split: if_splits)
    with False Inl show ?thesis by (simp add: ReadUintV_def uintv_field_def Available_def)
  next
    case (Inr u)
    note u = UintVar_of_bytes_cases [OF Inr]
    show ?thesis using False Inr u UintVar_of_bytes_take [OF False]
      by (simp add: ReadUintV_def uintv_field_def Available_def FrontInternal_def PopInternal_eq)
  qed
qed

lemma DecodeUintV_eq:
  "DecodeUintV pop sb = Inr (case uintv_field (buffer sb) of
      None \<Rightarrow> (None, sb)
    | Some (u, r) \<Rightarrow> (Some (UintVar_Get u), if pop then sb\<lparr>buffer := r\<rparr> else sb))"
  by (simp add: DecodeUintV_def ReadUintV_eq split: option.splits prod.splits)

lemma unat_ucast_u32: "unat (ucast (w :: u64) :: u32) = unat w mod 2 ^ 32"
  by (simp add: unsigned_ucast_eq take_bit_eq_mod)

lemma DecodeBytes_eq:
  "DecodeBytes sb = Inr (case bytes_field (buffer sb) of
      None \<Rightarrow> (None, sb) | Some (v, r) \<Rightarrow> (Some v, sb\<lparr>buffer := r\<rparr>))"
proof (cases "buffer sb = []")
  case True
  then show ?thesis by (simp add: DecodeBytes_def bytes_f.parse_empty)
next
  case False
  show ?thesis
  proof (cases "UintVar_of_bytes (buffer sb)")
    case (Inl e)
    with False have "length (buffer sb) < UintVar_Size_msb (hd (buffer sb))"
      by (simp add: UintVar_of_bytes_def Let_def split: if_splits)
    with False Inl show ?thesis by (simp add: DecodeBytes_def bytes_field_def uintv_field_def Available_def)
  next
    case (Inr u)
    note u = UintVar_of_bytes_cases [OF Inr]
    have g: "unat (UintVar_Get u) < 2 ^ 62" using Get_bound [OF Inr] by (simp add: word_less_nat_alt)
    have "UintVar_Size u \<le> 8" by (simp add: u(2))
    then have "unat (of_nat (UintVar_Size u) + UintVar_Get u) = UintVar_Size u + unat (UintVar_Get u)"
      using g by (simp add: unat_word_ariths unat_of_nat)
    then show ?thesis using False Inr u UintVar_of_bytes_take [OF False]
        order.trans [OF mod_less_eq_dividend, of "unat (UintVar_Get u)" "length (buffer sb) - UintVar_Size u" "2 ^ 32"]
      by (auto simp: DecodeBytes_def bytes_field_def uintv_field_def Available_def FrontInternal_def
          PopInternal_eq Let_def unat_ucast_u32 simp del: unsigned_of_nat)
  qed
qed


text \<open>The equations by which the reads are evaluated.\<close>

lemma bytes_field_code [code]:
  "bytes_field bs =
     (case uintv_field bs of
        None \<Rightarrow> None
      | Some (u, r) \<Rightarrow>
          if unat (UintVar_Get u) \<le> length r
          then let n = unat (take_bit 32 (UintVar_Get u)) in Some (take n r, drop n r)
          else None)"
proof -
  have "unat w mod 2 ^ 32 = unat (take_bit 32 w)" for w :: u64
    by (simp only: unsigned_take_bit_eq) (simp add: take_bit_eq_mod)
  then show ?thesis by (simp only: bytes_field_def)
qed

declare DecodeBytes_eq [code]

text \<open>The reads on encoded values.\<close>

lemma uintv_field_varint:
  assumes "v < 2 ^ 62"
  obtains u where "UintVar_of_value v = Inr u" "UintVar_Get u = v" "UintVar_Size u = length (varint_bytes v)"
    "uintv_field (varint_bytes v @ f) = Some (u, f)"
proof -
  obtain u where u: "UintVar_of_value v = Inr u" using UintVar_of_value_bytes [OF assms] by blast
  show ?thesis
    using that u UintVar_of_value_wire [OF u] UintVar_of_bytes_varint [OF u, of f] by (simp add: uintv_field_def)
qed

lemma bytes_field_enc:
  assumes "length v < 2 ^ 32"
  shows "bytes_field (varint_bytes (of_nat (length v)) @ v @ f) = Some (v, f)"
proof -
  let ?n = "of_nat (length v) :: u64"
  have n: "unat ?n = length v" using assms by (intro unat_of_nat_small) simp
  then have "?n < 2 ^ 62" using assms by (simp add: word_less_nat_alt)
  then obtain u where "UintVar_Get u = ?n" "uintv_field (varint_bytes ?n @ v @ f) = Some (u, v @ f)"
    using uintv_field_varint by metis
  then show ?thesis using assms n by (simp add: bytes_field_def del: unsigned_of_nat)
qed

text \<open>The length-prefixed write and read of the stream buffer: what \<^verbatim>\<open>PushLengthBytes\<close>
  appends to an empty buffer, \<^verbatim>\<open>DecodeBytes\<close> returns, leaving exactly what was pushed after
  it, for octet strings below 4 GiB.\<close>

theorem PushLengthBytes_DecodeBytes:
  assumes "buffer sb = []" "length v < 2 ^ 32"
  shows "\<exists>sb'. PushLengthBytes v sb = Inr sb' \<and> DecodeBytes (Push rest sb') = Inr (Some v, sb\<lparr>buffer := rest\<rparr>)"
proof -
  let ?n = "of_nat (length v) :: u64"
  have n: "unat ?n = length v" using assms(2) by (intro unat_of_nat_small) simp
  then have "?n < 2 ^ 62" using assms(2) by (simp add: word_less_nat_alt)
  then obtain u where u: "UintVar_of_value ?n = Inr u" using UintVar_of_value_bytes by blast
  note w = UintVar_of_value_wire [OF u]
  have "bytes_field (varint_bytes ?n @ v @ rest) = Some (v, rest)" by (rule bytes_field_enc [OF assms(2)])
  then show ?thesis using u w(2) assms(1)
    by (simp add: PushLengthBytes_def Push_def PushInternal_def DecodeBytes_eq)
qed

theorem PushLengthBytes_DecodeBytes_witness:
  "\<exists>sb'. PushLengthBytes [1, 2] (StreamBuffer_new :: unit StreamBuffer) = Inr sb' \<and>
     DecodeBytes (Push [9] sb') = Inr (Some [1, 2], StreamBuffer_new\<lparr>buffer := [9]\<rparr>)"
proof -
  have "buffer (StreamBuffer_new :: unit StreamBuffer) = []" "length [1, 2 :: u8] < 2 ^ 32"
    by (simp_all add: StreamBuffer_new_def)
  from PushLengthBytes_DecodeBytes [OF this] show ?thesis .
qed

text \<open>The reads of the stream buffer never throw, and are atomic and resumable: one that finds
  too few octets changes nothing, and one that succeeds returns the same value, and leaves the same
  rest, however many octets were already behind it.\<close>

theorem stream_reads_resumable:
  "(\<exists>r sb'. DecodeUintV True sb = Inr (r, sb') \<and>
     (r = None \<longrightarrow> sb' = sb) \<and>
     (\<forall>v. r = Some v \<longrightarrow> DecodeUintV True (Push next sb) = Inr (Some v, Push next sb'))) \<and>
   (\<exists>r sb'. DecodeBytes sb = Inr (r, sb') \<and>
     (r = None \<longrightarrow> sb' = sb) \<and>
     (\<forall>v. r = Some v \<longrightarrow> DecodeBytes (Push next sb) = Inr (Some v, Push next sb')))"
  by (auto simp: DecodeUintV_eq DecodeBytes_eq Push_def PushInternal_def uintv.parse_more
      bytes_f.parse_more split: option.splits)

theorem stream_reads_resumable_witness:
  "DecodeUintV True (StreamBuffer_new\<lparr>buffer := [64]\<rparr> :: unit StreamBuffer) =
     Inr (None, StreamBuffer_new\<lparr>buffer := [64]\<rparr>)"
proof -
  have "uintv_field [64] = None" by code_simp
  then have n: "DecodeUintV True (StreamBuffer_new\<lparr>buffer := [64]\<rparr> :: unit StreamBuffer) =
      Inr (None, StreamBuffer_new\<lparr>buffer := [64]\<rparr>)" by (simp add: DecodeUintV_eq)
  from stream_reads_resumable [of "StreamBuffer_new\<lparr>buffer := [64]\<rparr> :: unit StreamBuffer"]
  show ?thesis using n by auto
qed

text \<open>\<^verbatim>\<open>DecodeBytes\<close> truncates the announced length to 32 bits: with all announced octets
  present it returns only the first \<open>length mod 2^32\<close> of them and leaves the rest in the stream.\<close>

theorem DecodeBytes_truncates:
  assumes "UintVar_of_bytes (buffer sb) = Inr u" "UintVar_Size u + unat (UintVar_Get u) \<le> length (buffer sb)"
  shows "\<exists>v sb'. DecodeBytes sb = Inr (Some v, sb') \<and> length v = unat (UintVar_Get u) mod 2 ^ 32 \<and>
    buffer sb = UintVar_wire u @ v @ buffer sb'"
proof -
  note u = UintVar_of_bytes_cases [OF assms(1)]
  let ?k = "unat (UintVar_Get u) mod 2 ^ 32"
  have "?k \<le> unat (UintVar_Get u)" by (rule mod_less_eq_dividend)
  then have k: "?k \<le> length (drop (UintVar_Size u) (buffer sb))" using assms(2) by simp
  have "bytes_field (buffer sb) =
      Some (take ?k (drop (UintVar_Size u) (buffer sb)), drop ?k (drop (UintVar_Size u) (buffer sb)))"
    using assms u(3) by (simp add: bytes_field_def uintv_field_def Let_def)
  moreover have "buffer sb = UintVar_wire u @ drop (UintVar_Size u) (buffer sb)" by (simp add: u(4))
  ultimately show ?thesis using k by (simp add: DecodeBytes_eq del: drop_drop)
qed

theorem DecodeBytes_truncates_witness:
  "\<exists>v sb'. DecodeBytes (StreamBuffer_new\<lparr>buffer := [2, 7, 8, 9]\<rparr> :: unit StreamBuffer) = Inr (Some v, sb') \<and>
     length v = 2 \<and> [2, 7, 8, 9] = [2] @ v @ buffer sb'"
proof -
  let ?sb = "StreamBuffer_new\<lparr>buffer := [2, 7, 8, 9]\<rparr> :: unit StreamBuffer"
  let ?u = "\<lparr>be_value = [2, 0, 0, 0, 0, 0, 0, 0]\<rparr>"
  have "UintVar_of_bytes (buffer ?sb) = Inr ?u" by code_simp
  moreover have "UintVar_Get ?u = 2" "UintVar_Size ?u = 1" "UintVar_wire ?u = [2]" by code_simp+
  ultimately show ?thesis using DecodeBytes_truncates [of ?sb ?u] by auto
qed

end
