(* ===== verification/Incremental.thy ===== *)
theory Incremental
  imports Stream_Buffer
begin

section \<open>Incremental parsers\<close>

text \<open>
  The shape shared by the parsers of \<^verbatim>\<open>src/messages.cpp\<close>. A parser works on the octets that
  have arrived and on a partly filled message, which remembers how far the parsing has come; it
  returns whether the message is complete and is called again after the next octets have been
  pushed. The operators on messages are a \<^verbatim>\<open>switch\<close> on the position, with one case for each
  field, each falling through to the next.
\<close>

type_synonym ('d, 'm) parser = "'d StreamBuffer \<Rightarrow> 'm \<Rightarrow> (bool \<times> 'd StreamBuffer \<times> 'm) result"

text \<open>The receiver: push a piece, parse, until the message is complete.\<close>

fun feed :: "('d, 'm) parser \<Rightarrow> bytes list \<Rightarrow> 'd StreamBuffer \<Rightarrow> 'm \<Rightarrow> (bool \<times> 'd StreamBuffer \<times> 'm) result" where
  "feed parse [] sb m = Inr (False, sb, m)"
| "feed parse (c # cs) sb m =
     bind_result (parse (Push c sb) m) (\<lambda>(ok, sb', m').
       if ok then Inr (True, fold Push cs sb', m') else feed parse cs sb' m')"

lemma Push_eq: "Push c sb = sb\<lparr>buffer := buffer sb @ c\<rparr>"
  by (simp add: Push_def PushInternal_def)

lemma fold_Push: "fold Push cs sb = sb\<lparr>buffer := buffer sb @ concat cs\<rparr>"
  by (induction cs arbitrary: sb) (simp_all add: Push_eq)

subsection \<open>Interface: a parser that may be interrupted anywhere\<close>

text \<open>
  \<open>Inv m fut v rest\<close>: in state \<open>m\<close>, when the octets not yet consumed, arrived or not, are \<open>fut\<close>,
  they are what is left of the encoding of \<open>v\<close>, and then \<open>rest\<close>. The contract: on the arrived part
  of such octets the parser completes with a message for \<open>v\<close> and consumes exactly its octets, or
  keeps the invariant and reports that it waits, which it only does while octets are missing.
\<close>

definition progress ::
  "('m \<Rightarrow> bytes \<Rightarrow> 'v \<Rightarrow> bytes \<Rightarrow> bool) \<Rightarrow> ('m \<Rightarrow> 'v \<Rightarrow> bool) \<Rightarrow> 'd StreamBuffer \<Rightarrow> bytes \<Rightarrow> 'v \<Rightarrow> bytes \<Rightarrow>
     (bool \<times> 'd StreamBuffer \<times> 'm) result \<Rightarrow> bool" where
  "progress Inv Complete sb c v rest r \<longleftrightarrow>
     (\<exists>b m. r = Inr (True, sb\<lparr>buffer := b\<rparr>, m) \<and> b @ c = rest \<and> Complete m v) \<or>
     (\<exists>b m. r = Inr (False, sb\<lparr>buffer := b\<rparr>, m) \<and> c \<noteq> [] \<and> Inv m (b @ c) v rest)"

locale incremental_parser =
  fixes parse :: "('d, 'm) parser"
    and Inv :: "'m \<Rightarrow> bytes \<Rightarrow> 'v \<Rightarrow> bytes \<Rightarrow> bool"
    and Complete :: "'m \<Rightarrow> 'v \<Rightarrow> bool"
  assumes parse_progress: "Inv m (buffer sb @ c) v rest \<Longrightarrow> progress Inv Complete sb c v rest (parse sb m)"
begin

text \<open>Whatever the pieces, the message is complete when its last octet has arrived.\<close>

lemma feed_complete:
  assumes "Inv m (buffer sb @ concat cs) v rest" "cs \<noteq> []"
  shows "\<exists>m'. feed parse cs sb m = Inr (True, sb\<lparr>buffer := rest\<rparr>, m') \<and> Complete m' v"
  using assms
proof (induction cs arbitrary: sb m)
  case (Cons c cs)
  from Cons.prems(1) have "Inv m (buffer (Push c sb) @ concat cs) v rest" by (simp add: Push_eq)
  from parse_progress [OF this] show ?case unfolding progress_def
  proof (elim disjE exE conjE)
    fix b m' assume "parse (Push c sb) m = Inr (True, (Push c sb)\<lparr>buffer := b\<rparr>, m')"
      "b @ concat cs = rest" "Complete m' v"
    then show ?thesis by (simp add: fold_Push Push_eq)
  next
    fix b m' assume r: "parse (Push c sb) m = Inr (False, (Push c sb)\<lparr>buffer := b\<rparr>, m')"
      "concat cs \<noteq> []" "Inv m' (b @ concat cs) v rest"
    from r(2) have "cs \<noteq> []" by auto
    with r Cons.IH [of m' "(Push c sb)\<lparr>buffer := b\<rparr>"] show ?thesis by (simp add: Push_eq)
  qed
qed simp

text \<open>Before that it never claims to be complete: the octets of a strict prefix leave it waiting.\<close>

lemma parse_whole:
  assumes "Inv m (buffer sb) v rest"
  shows "\<exists>m'. parse sb m = Inr (True, sb\<lparr>buffer := rest\<rparr>, m') \<and> Complete m' v"
  using parse_progress [of m sb "[]" v rest] assms by (auto simp: progress_def)

end

subsection \<open>The switch on the position\<close>

text \<open>Every message of the data plane ends with these two members.\<close>

record parse_pos =
  current_pos :: u64
  parse_completed :: bool

text \<open>A case falls through to the next one or returns from the operator.\<close>

datatype outcome = Fall | Ret bool

type_synonym ('d, 'm) switch_case = "'d StreamBuffer \<Rightarrow> 'm \<Rightarrow> (outcome \<times> 'd StreamBuffer \<times> 'm) result"

fun run_cases :: "('d, 'm) switch_case list \<Rightarrow> ('d, 'm) switch_case" where
  "run_cases [] sb m = Inr (Fall, sb, m)"
| "run_cases (f # fs) sb m =
     bind_result (f sb m) (\<lambda>(r, sb', m').
       case r of Fall \<Rightarrow> run_cases fs sb' m' | Ret b \<Rightarrow> Inr (Ret b, sb', m'))"

text \<open>Positions past the last case go to \<^verbatim>\<open>default\<close>; after the switch the operator returns
  \<^verbatim>\<open>parse_completed\<close>.\<close>

definition switch_parse :: "('d, 'a parse_pos_scheme) switch_case list \<Rightarrow> ('d, 'a parse_pos_scheme) parser" where
  "switch_parse cs sb m =
     bind_result (run_cases (drop (unat (current_pos m)) cs) sb m) (\<lambda>(r, sb', m').
       Inr (case r of Fall \<Rightarrow> parse_completed m' | Ret b \<Rightarrow> b, sb', m'))"

text \<open>
  The contract of a switch: \<open>I k\<close> is the invariant at the position \<open>k\<close>. A case that starts in its
  invariant establishes the next one, or waits in its own, or completes the message.
\<close>

definition case_result ::
  "('m \<Rightarrow> bytes \<Rightarrow> bool) \<Rightarrow> ('m \<Rightarrow> bytes \<Rightarrow> bool) \<Rightarrow> ('m \<Rightarrow> bool) \<Rightarrow> 'd StreamBuffer \<Rightarrow> bytes \<Rightarrow> bytes \<Rightarrow>
     (outcome \<times> 'd StreamBuffer \<times> 'm) result \<Rightarrow> bool" where
  "case_result J J' K sb c rest r \<longleftrightarrow>
     (\<exists>b m. r = Inr (Fall, sb\<lparr>buffer := b\<rparr>, m) \<and> J' m (b @ c)) \<or>
     (\<exists>b m. r = Inr (Ret False, sb\<lparr>buffer := b\<rparr>, m) \<and> c \<noteq> [] \<and> J m (b @ c)) \<or>
     (\<exists>b m. r = Inr (Ret True, sb\<lparr>buffer := b\<rparr>, m) \<and> b @ c = rest \<and> K m)"

locale switch_parser =
  fixes cs :: "('d, 'a parse_pos_scheme) switch_case list"
    and I :: "nat \<Rightarrow> 'a parse_pos_scheme \<Rightarrow> bytes \<Rightarrow> 'v \<Rightarrow> bytes \<Rightarrow> bool"
    and Complete :: "'a parse_pos_scheme \<Rightarrow> 'v \<Rightarrow> bool"
  assumes case_step: "k < length cs \<Longrightarrow> I k m (buffer sb @ c) v rest \<Longrightarrow>
      case_result (\<lambda>m fut. I k m fut v rest) (\<lambda>m fut. I (Suc k) m fut v rest) (\<lambda>m. Complete m v)
        sb c rest ((cs ! k) sb m)"
    and position: "I k m fut v rest \<Longrightarrow> k < length cs \<Longrightarrow> unat (current_pos m) = k"
    and final: "I (length cs) m fut v rest \<Longrightarrow> fut = rest \<and> parse_completed m \<and> Complete m v"
begin

lemma run_cases_progress:
  assumes "k \<le> length cs" "I k m (buffer sb @ c) v rest"
  shows "case_result (\<lambda>m fut. \<exists>k < length cs. I k m fut v rest)
     (\<lambda>m fut. fut = rest \<and> parse_completed m \<and> Complete m v) (\<lambda>m. Complete m v) sb c rest
     (run_cases (drop k cs) sb m)"
  using assms
proof (induction "length cs - k" arbitrary: k m sb)
  case 0
  then have "k = length cs" by simp
  moreover from this 0 have "buffer sb @ c = rest" "parse_completed m" "Complete m v" using final by auto
  moreover have "sb = sb\<lparr>buffer := buffer sb\<rparr>" by simp
  ultimately show ?case unfolding case_result_def by fastforce
next
  case (Suc n)
  then have k: "k < length cs" by simp
  then have drop: "drop k cs = cs ! k # drop (Suc k) cs" by (simp add: Cons_nth_drop_Suc)
  from case_step [OF k Suc.prems(2)] show ?case unfolding case_result_def [of "\<lambda>m fut. I k m fut v rest"]
  proof (elim disjE exE conjE)
    fix b m' assume r: "(cs ! k) sb m = Inr (Fall, sb\<lparr>buffer := b\<rparr>, m')" "I (Suc k) m' (b @ c) v rest"
    have "n = length cs - Suc k" "Suc k \<le> length cs" using Suc.hyps(2) k by simp_all
    from Suc.hyps(1) [OF this, of m' "sb\<lparr>buffer := b\<rparr>"] r show ?thesis
      by (simp add: drop case_result_def)
  next
    fix b m' assume "(cs ! k) sb m = Inr (Ret False, sb\<lparr>buffer := b\<rparr>, m')" "c \<noteq> []" "I k m' (b @ c) v rest"
    then show ?thesis using k by (auto simp: drop case_result_def)
  next
    fix b m' assume "(cs ! k) sb m = Inr (Ret True, sb\<lparr>buffer := b\<rparr>, m')" "b @ c = rest" "Complete m' v"
    then show ?thesis by (auto simp: drop case_result_def)
  qed
qed

end

sublocale switch_parser \<subseteq> sw: incremental_parser "switch_parse cs" "\<lambda>m fut v rest. \<exists>k < length cs. I k m fut v rest" Complete
proof
  fix m c v rest and sb :: "'d StreamBuffer"
  assume "\<exists>k < length cs. I k m (buffer sb @ c) v rest"
  then obtain k where k: "k < length cs" "I k m (buffer sb @ c) v rest" by blast
  have "unat (current_pos m) = k" by (rule position [OF k(2,1)])
  then show "progress (\<lambda>m fut v rest. \<exists>k < length cs. I k m fut v rest) Complete sb c v rest (switch_parse cs sb m)"
    using run_cases_progress [OF less_imp_le [OF k(1)] k(2)]
    by (auto simp: switch_parse_def progress_def case_result_def)
qed

end
