(* ===== verification/City_Hash.thy ===== *)
theory City_Hash
  imports Uint_Var
begin

section \<open>Hashing\<close>

text \<open>
  The 64-bit hash of \<^verbatim>\<open>hash.h\<close>: the class \<^verbatim>\<open>CityHash64\<close> (with this repository's
  byte order in \<^verbatim>\<open>Fetch\<close>), the function \<^verbatim>\<open>hash\<close> and \<^verbatim>\<open>hash_combine\<close>. Reading a
  word or a sub-span outside the octets is undefined behaviour, so the model returns a result and
  the main lemma shows that no length of input reaches it. The final loop is a
  \<^theory_text>\<open>function\<close> whose measure is the octets left.
\<close>

definition city_k0 :: u64 where "city_k0 = 0xc3a5c85c97cb3127"
definition city_k1 :: u64 where "city_k1 = 0xb492b66fbe98f273"
definition city_k2 :: u64 where "city_k2 = 0x9ae16a3b2f90404f"

definition subspan :: "nat \<Rightarrow> bytes \<Rightarrow> bytes result" where
  "subspan n bs = (if n \<le> length bs then Inr (drop n bs) else Inl Undefined_Behaviour)"

text \<open>\<^verbatim>\<open>UnalignedLoad\<close> has two bodies: a \<^verbatim>\<open>memcpy\<close> at run time, and a loop when it is
  evaluated at compile time.\<close>

definition UnalignedLoad64 :: "bytes \<Rightarrow> u64 result" where
  "UnalignedLoad64 bs =
     (if length bs < 8 then Inl Undefined_Behaviour else Inr (of_le_bytes (take 8 bs)))"

definition UnalignedLoad32 :: "bytes \<Rightarrow> u32 result" where
  "UnalignedLoad32 bs =
     (if length bs < 4 then Inl Undefined_Behaviour else Inr (of_le_bytes (take 4 bs)))"

definition UnalignedLoad64_constexpr :: "bytes \<Rightarrow> u64 result" where
  "UnalignedLoad64_constexpr bs =
     (if length bs < 8 then Inl Undefined_Behaviour
      else Inr (fold (\<lambda>b result. push_bit 8 (result + ucast b)) (take 8 bs) 0))"

definition Fetch64 :: "nat \<Rightarrow> bytes \<Rightarrow> u64 result" where
  "Fetch64 n bs =
     bind_result (subspan n bs) (\<lambda>s. bind_result (UnalignedLoad64 s) (\<lambda>w. Inr (SwapBytes64 w)))"

definition Fetch32 :: "nat \<Rightarrow> bytes \<Rightarrow> u32 result" where
  "Fetch32 n bs =
     bind_result (subspan n bs) (\<lambda>s. bind_result (UnalignedLoad32 s) (\<lambda>w. Inr (SwapBytes32 w)))"

definition Rotate :: "u64 \<Rightarrow> nat \<Rightarrow> u64" where
  "Rotate val shift = (if shift = 0 then val else drop_bit shift val OR push_bit (64 - shift) val)"

definition ShiftMix :: "u64 \<Rightarrow> u64" where
  "ShiftMix val = val XOR drop_bit 47 val"

definition HashLen16_mul :: "u64 \<Rightarrow> u64 \<Rightarrow> u64 \<Rightarrow> u64" where
  "HashLen16_mul u v mul =
     (let a = (u XOR v) * mul;
          a = a XOR drop_bit 47 a;
          b = (v XOR a) * mul;
          b = b XOR drop_bit 47 b
      in b * mul)"

definition Hash128to64 :: "u64 \<times> u64 \<Rightarrow> u64" where
  "Hash128to64 x =
     (let kMul = 0x9ddfea08eb382d69;
          a = (fst x XOR snd x) * kMul;
          a = a XOR drop_bit 47 a;
          b = (snd x XOR a) * kMul;
          b = b XOR drop_bit 47 b
      in b * kMul)"

definition HashLen16 :: "u64 \<Rightarrow> u64 \<Rightarrow> u64" where
  "HashLen16 u v = Hash128to64 (u, v)"

definition HashLen0to16 :: "bytes \<Rightarrow> u64 result" where
  "HashLen0to16 bs =
     (let len = length bs; mul = city_k2 + of_nat len * 2 in
      if len \<ge> 8 then
        bind_result (Fetch64 0 bs) (\<lambda>fa. bind_result (Fetch64 (len - 8) bs) (\<lambda>b.
          let a = fa + city_k2;
              c = Rotate b 37 * mul + a;
              d = (Rotate a 25 + b) * mul
          in Inr (HashLen16_mul c d mul)))
      else if len \<ge> 4 then
        bind_result (Fetch32 0 bs) (\<lambda>a. bind_result (Fetch32 (len - 4) bs) (\<lambda>b.
          Inr (HashLen16_mul (of_nat len + push_bit 3 (ucast a)) (ucast b) mul)))
      else if len > 0 then
        let a = bs ! 0; b = bs ! (len div 2); c = bs ! (len - 1);
            y = ucast a + push_bit 8 (ucast b) :: u32;
            z = of_nat len + push_bit 2 (ucast c) :: u32
        in Inr (ShiftMix (ucast y * city_k2 XOR ucast z * city_k0) * city_k2)
      else Inr city_k2)"

definition HashLen17to32 :: "bytes \<Rightarrow> u64 result" where
  "HashLen17to32 bs =
     (let len = length bs; mul = city_k2 + of_nat len * 2 in
      bind_result (Fetch64 0 bs) (\<lambda>fa. bind_result (Fetch64 8 bs) (\<lambda>b.
      bind_result (Fetch64 (len - 8) bs) (\<lambda>fc. bind_result (Fetch64 (len - 16) bs) (\<lambda>fd.
        let a = fa * city_k1; c = fc * mul; d = fd * city_k2
        in Inr (HashLen16_mul (Rotate (a + b) 43 + Rotate c 30 + d) (a + Rotate (b + city_k2) 18 + c) mul))))))"

definition WeakHashLen32WithSeeds6 :: "u64 \<Rightarrow> u64 \<Rightarrow> u64 \<Rightarrow> u64 \<Rightarrow> u64 \<Rightarrow> u64 \<Rightarrow> u64 \<times> u64" where
  "WeakHashLen32WithSeeds6 w x y z a b =
     (let a = a + w;
          b = Rotate (b + a + z) 21;
          c = a;
          a = a + x;
          a = a + y;
          b = b + Rotate a 44
      in (a + z, b + c))"

definition WeakHashLen32WithSeeds :: "bytes \<Rightarrow> u64 \<Rightarrow> u64 \<Rightarrow> (u64 \<times> u64) result" where
  "WeakHashLen32WithSeeds bs a b =
     bind_result (Fetch64 0 bs) (\<lambda>w. bind_result (Fetch64 8 bs) (\<lambda>x.
     bind_result (Fetch64 16 bs) (\<lambda>y. bind_result (Fetch64 24 bs) (\<lambda>z.
       Inr (WeakHashLen32WithSeeds6 w x y z a b)))))"

definition HashLen33to64 :: "bytes \<Rightarrow> u64 result" where
  "HashLen33to64 bs =
     (let len = length bs; mul = city_k2 + of_nat len * 2 in
      bind_result (Fetch64 0 bs) (\<lambda>fa. bind_result (Fetch64 8 bs) (\<lambda>b.
      bind_result (Fetch64 (len - 24) bs) (\<lambda>c. bind_result (Fetch64 (len - 32) bs) (\<lambda>d.
      bind_result (Fetch64 16 bs) (\<lambda>fe. bind_result (Fetch64 24 bs) (\<lambda>ff.
      bind_result (Fetch64 (len - 8) bs) (\<lambda>g. bind_result (Fetch64 (len - 16) bs) (\<lambda>fh.
        let a = fa * city_k2; e = fe * city_k2; f = ff * 9; h = fh * mul;
            u = Rotate (a + g) 43 + (Rotate b 30 + c) * 9;
            v = ((a + g) XOR d) + f + 1;
            w = SwapBytes64 ((u + v) * mul) + h;
            x = Rotate (e + f) 42 + c;
            y = (SwapBytes64 ((v + w) * mul) + g) * mul;
            z = e + f + c;
            a = SwapBytes64 ((x + z) * mul + y) + b;
            b = ShiftMix ((z + a) * mul + d + h) * mul
        in Inr (b + x))))))))))"

text \<open>The loop over 64-octet chunks: its state is \<open>(x, y, z, v, w)\<close>.\<close>

type_synonym city_state = "u64 \<times> u64 \<times> u64 \<times> (u64 \<times> u64) \<times> (u64 \<times> u64)"

definition city_chunk :: "bytes \<Rightarrow> city_state \<Rightarrow> city_state result" where
  "city_chunk bs s =
     (case s of (x, y, z, v, w) \<Rightarrow>
      bind_result (Fetch64 8 bs) (\<lambda>f8. bind_result (Fetch64 48 bs) (\<lambda>f48. bind_result (Fetch64 40 bs) (\<lambda>f40.
        let x = Rotate (x + y + fst v + f8) 37 * city_k1;
            y = Rotate (y + snd v + f48) 42 * city_k1;
            x = x XOR snd w;
            y = y + (fst v + f40);
            z = Rotate (z + fst w) 33 * city_k1
        in bind_result (WeakHashLen32WithSeeds bs (snd v * city_k1) (x + fst w)) (\<lambda>v'.
           bind_result (subspan 32 bs) (\<lambda>b32. bind_result (Fetch64 16 bs) (\<lambda>f16.
           bind_result (WeakHashLen32WithSeeds b32 (z + snd w) (y + f16)) (\<lambda>w'.
             Inr (z, y, x, v', w')))))))))"

function city_loop :: "bytes \<Rightarrow> u64 \<Rightarrow> city_state \<Rightarrow> city_state result" where
  "city_loop bs len s =
     (case city_chunk bs s of
        Inl e \<Rightarrow> Inl e
      | Inr s' \<Rightarrow>
          if length bs < 64 then Inl Undefined_Behaviour
          else if len - 64 \<noteq> 0 then city_loop (drop 64 bs) (len - 64) s' else Inr s')"
  by pat_completeness auto
termination
  by (relation "measure (\<lambda>(bs, _). length bs)") auto

declare city_loop.simps [simp del]

definition CityHash64 :: "bytes \<Rightarrow> u64 result" where
  "CityHash64 bs =
     (let len = length bs in
      if len \<le> 16 then HashLen0to16 bs
      else if len \<le> 32 then HashLen17to32 bs
      else if len \<le> 64 then HashLen33to64 bs
      else
        bind_result (Fetch64 (len - 40) bs) (\<lambda>x. bind_result (Fetch64 (len - 16) bs) (\<lambda>f16.
        bind_result (Fetch64 (len - 56) bs) (\<lambda>f56. bind_result (Fetch64 (len - 48) bs) (\<lambda>f48.
        bind_result (Fetch64 (len - 24) bs) (\<lambda>f24.
          let y = f16 + f56; z = HashLen16 (f48 + of_nat len) f24 in
          bind_result (subspan (len - 64) bs) (\<lambda>b64. bind_result (WeakHashLen32WithSeeds b64 (of_nat len) z) (\<lambda>v.
          bind_result (subspan (len - 32) bs) (\<lambda>b32. bind_result (WeakHashLen32WithSeeds b32 (y + city_k1) x) (\<lambda>w.
          bind_result (Fetch64 0 bs) (\<lambda>f0.
          let x = x * city_k1 + f0;
              len' = (of_nat len - 1) AND NOT 63
          in bind_result (city_loop bs len' (x, y, z, v, w)) (\<lambda>(x, y, z, v, w).
               Inr (HashLen16 (HashLen16 (fst v) (fst w) + ShiftMix y * city_k1 + z)
                      (HashLen16 (snd v) (snd w) + x))))))))))))))"

definition hash :: "bytes \<Rightarrow> u64 result" where
  "hash bs = CityHash64 bs"

definition hash_combine :: "u64 \<Rightarrow> u64 \<Rightarrow> u64" where
  "hash_combine seed value = seed XOR (value + 0x9e3779b9 + push_bit 6 seed + drop_bit 2 value)"


subsection \<open>Every read is in range\<close>

lemma subspan_ok [simp]: "n \<le> length bs \<Longrightarrow> subspan n bs = Inr (drop n bs)"
  by (simp add: subspan_def)

lemma Fetch64_ok: "n + 8 \<le> length bs \<Longrightarrow> \<exists>w. Fetch64 n bs = Inr w"
  by (simp add: Fetch64_def UnalignedLoad64_def)

lemma Fetch32_ok: "n + 4 \<le> length bs \<Longrightarrow> \<exists>w. Fetch32 n bs = Inr w"
  by (simp add: Fetch32_def UnalignedLoad32_def)

lemma bind_result_ex:
  "\<exists>x. r = Inr x \<Longrightarrow> (\<And>x. r = Inr x \<Longrightarrow> \<exists>y. f x = Inr y) \<Longrightarrow> \<exists>y. bind_result r f = Inr y"
  by auto

lemmas fetch_intros = bind_result_ex Fetch64_ok Fetch32_ok

lemma WeakHash_ok: "32 \<le> length bs \<Longrightarrow> \<exists>p. WeakHashLen32WithSeeds bs a b = Inr p"
  unfolding WeakHashLen32WithSeeds_def by (intro fetch_intros) simp_all

lemma HashLen0to16_ok: "\<exists>h. HashLen0to16 bs = Inr h"
  unfolding HashLen0to16_def Let_def
  by (simp, intro conjI impI fetch_intros) simp_all

lemma HashLen17to32_ok: "16 \<le> length bs \<Longrightarrow> \<exists>h. HashLen17to32 bs = Inr h"
  unfolding HashLen17to32_def Let_def by (intro fetch_intros) simp_all

lemma HashLen33to64_ok: "32 \<le> length bs \<Longrightarrow> \<exists>h. HashLen33to64 bs = Inr h"
  unfolding HashLen33to64_def Let_def by (intro fetch_intros) simp_all

lemma city_chunk_ok: "64 \<le> length bs \<Longrightarrow> \<exists>s'. city_chunk bs s = Inr s'"
proof -
  assume len: "64 \<le> length bs"
  obtain x y z v w where s: "s = (x, y, z, v, w)" by (cases s)
  show ?thesis unfolding s city_chunk_def Let_def prod.case
    by (intro fetch_intros WeakHash_ok) (use len in auto)
qed

lemma city_loop_ok:
  assumes "unat len \<le> length bs" "64 dvd unat len" "len \<noteq> 0"
  shows "\<exists>s'. city_loop bs len s = Inr s'"
  using assms
proof (induction bs len s rule: city_loop.induct)
  case (1 bs len s)
  have "unat len \<noteq> 0" using "1.prems"(3) by (simp add: unat_eq_zero)
  then have ge: "64 \<le> unat len" using "1.prems"(2) by (auto dest: dvd_imp_le)
  then have sub: "unat (len - 64) = unat len - 64"
    by (subst unat_sub) (simp_all add: word_le_nat_alt)
  obtain s' where s': "city_chunk bs s = Inr s'" using city_chunk_ok [of bs s] ge "1.prems"(1) by auto
  show ?case
  proof (cases "len - 64 = 0")
    case True
    then show ?thesis using s' ge "1.prems"(1) by (subst city_loop.simps) (simp del: split_paired_Ex)
  next
    case False
    have "\<exists>s''. city_loop (drop 64 bs) (len - 64) s' = Inr s''"
      using "1.IH" [OF s'] False ge sub "1.prems"(1,2) by (simp add: dvd_diff_nat del: split_paired_Ex)
    then show ?thesis using s' ge False "1.prems"(1) by (subst city_loop.simps) (simp del: split_paired_Ex)
  qed
qed

lemma and_not_63: "unat ((w :: u64) AND - 64) = unat w div 64 * 64"
proof -
  have "w AND NOT 63 = push_bit 6 (drop_bit 6 w)"
  proof (rule bit_word_eqI)
    fix n assume "n < LENGTH(64)"
    then show "bit (w AND NOT 63) n = bit (push_bit 6 (drop_bit 6 w)) n"
      by (auto simp: bit_simps)
  qed
  also have "unat \<dots> = unat w div 64 * 64 mod 2 ^ 64"
    by (simp add: push_bit_eq_mult drop_bit_eq_div unat_word_ariths unat_div mod_mult_left_eq)
  finally show ?thesis using unat_less_pow [of w] by simp
qed

lemma hash_defined:
  assumes "length bs < 2 ^ 64"
  shows "\<exists>h. hash bs = Inr h"
proof -
  consider "length bs \<le> 16" | "16 < length bs" "length bs \<le> 32" | "32 < length bs" "length bs \<le> 64"
    | "64 < length bs" by linarith
  then show ?thesis
  proof cases
    case 1 then show ?thesis using HashLen0to16_ok by (simp add: hash_def CityHash64_def)
  next
    case 2 then show ?thesis using HashLen17to32_ok by (simp add: hash_def CityHash64_def)
  next
    case 3 then show ?thesis using HashLen33to64_ok by (simp add: hash_def CityHash64_def)
  next
    case 4
    let ?len = "(of_nat (length bs) - 1) AND - 64 :: u64"
    have len1: "unat (of_nat (length bs) - 1 :: u64) = length bs - 1"
      using 4 assms by (subst unat_sub) (simp_all add: word_le_nat_alt unat_of_nat_small)
    have len: "unat ?len = (length bs - 1) div 64 * 64" unfolding and_not_63 len1 ..
    have "64 \<le> unat ?len" using 4 unfolding len by (simp add: le_div_geq)
    then have "?len \<noteq> 0" by auto
    moreover have "unat ?len \<le> length bs" "64 dvd unat ?len" unfolding len
      using div_times_less_eq_dividend [of "length bs - 1" 64] by linarith simp
    ultimately have loop: "\<exists>s'. city_loop bs ?len s = Inr s'" for s by (intro city_loop_ok)
    have "\<exists>h. CityHash64 bs = Inr h"
      unfolding CityHash64_def Let_def using 4
      by (simp split del: if_split) (intro fetch_intros WeakHash_ok loop, auto simp del: split_paired_Ex)
    then show ?thesis by (simp add: hash_def)
  qed
qed

text \<open>The hash of any octet string that fits the address space is defined: none of its reads,
  in any of the four length classes or in the chunk loop, leaves the span, and the loop ends.\<close>

theorem hash_total: "length bs < 2 ^ 64 \<Longrightarrow> \<exists>h. hash bs = Inr h"
  by (rule hash_defined)

theorem hash_total_witness: "length [1, 2, 3 :: u8] < 2 ^ 64 \<and> (\<exists>h. hash [1, 2, 3] = Inr h)"
proof -
  have "length [1, 2, 3 :: u8] < 2 ^ 64" by simp
  from this hash_total [OF this] show ?thesis by blast
qed

text \<open>The compile-time body of \<^verbatim>\<open>UnalignedLoad\<close> shifts after the last octet as well, so it
  loses the first octet and disagrees with the \<^verbatim>\<open>memcpy\<close> used at run time.\<close>

theorem UnalignedLoad_constexpr_differs:
  "UnalignedLoad64_constexpr [1, 0, 0, 0, 0, 0, 0, 0] = Inr 0 \<and>
   UnalignedLoad64 [1, 0, 0, 0, 0, 0, 0, 0] = Inr 1 \<and>
   SwapBytes64 0 \<noteq> SwapBytes64 1"
  by code_simp

end
