(* ===== verification/Track_Name.thy ===== *)
theory Track_Name
  imports City_Hash "HOL-Library.Sublist"
begin

section \<open>Track names\<close>

text \<open>
  The class \<^verbatim>\<open>TrackNamespace\<close> and the structs \<^verbatim>\<open>FullTrackName\<close> and \<^verbatim>\<open>TrackHash\<close> of
  \<^verbatim>\<open>track_name.h\<close>. A namespace keeps its entries concatenated in one octet vector, a span
  (offset and size) into that vector per entry, and a hash per entry. Copying and moving take over
  the spans and then rebase them, which the model does too.
\<close>

record TrackNamespace =
  ns_bytes :: bytes
  ns_entries :: "(nat \<times> nat) list"
  ns_hashes :: "u64 list"

definition TrackNamespace_default :: TrackNamespace where
  "TrackNamespace_default = \<lparr>ns_bytes = [], ns_entries = [], ns_hashes = []\<rparr>"

fun hash_all :: "bytes list \<Rightarrow> u64 list result" where
  "hash_all [] = Inr []"
| "hash_all (e # es) = bind_result (hash e) (\<lambda>h. bind_result (hash_all es) (\<lambda>hs. Inr (h # hs)))"

text \<open>The spans of entries laid end to end, given their sizes.\<close>

fun spans :: "nat \<Rightarrow> nat list \<Rightarrow> (nat \<times> nat) list" where
  "spans offset [] = []"
| "spans offset (n # ns) = (offset, n) # spans (offset + n) ns"

definition TrackNamespace_build :: "bytes list \<Rightarrow> TrackNamespace result" where
  "TrackNamespace_build es =
     bind_result (hash_all es)
       (\<lambda>hs. Inr \<lparr>ns_bytes = concat es, ns_entries = spans 0 (map length es), ns_hashes = hs\<rparr>)"

definition TrackNamespace_of_entries :: "bytes list \<Rightarrow> TrackNamespace result" where
  "TrackNamespace_of_entries es =
     (if length es > 32 \<or> length es = 0
      then Inl (Invalid_Argument ''TrackNamespace requires a number of entries in the range of [1, 32]'')
      else TrackNamespace_build es)"

definition rebase :: "TrackNamespace \<Rightarrow> TrackNamespace" where
  "rebase ns = ns\<lparr>ns_entries := spans 0 (map snd (ns_entries ns))\<rparr>"

definition TrackNamespace_copy :: "TrackNamespace \<Rightarrow> TrackNamespace" where
  "TrackNamespace_copy other =
     rebase \<lparr>ns_bytes = ns_bytes other, ns_entries = ns_entries other, ns_hashes = ns_hashes other\<rparr>"

text \<open>Moving returns the new object and what is left of the old one.\<close>

definition TrackNamespace_move :: "TrackNamespace \<Rightarrow> TrackNamespace \<times> TrackNamespace" where
  "TrackNamespace_move other =
     (rebase \<lparr>ns_bytes = ns_bytes other, ns_entries = ns_entries other, ns_hashes = ns_hashes other\<rparr>,
      \<lparr>ns_bytes = [], ns_entries = [], ns_hashes = []\<rparr>)"

definition GetEntries :: "TrackNamespace \<Rightarrow> bytes list" where
  "GetEntries ns = map (\<lambda>(offset, n). take n (drop offset (ns_bytes ns))) (ns_entries ns)"

definition GetHashes :: "TrackNamespace \<Rightarrow> u64 list" where
  "GetHashes ns = ns_hashes ns"

definition TrackNamespace_eq :: "TrackNamespace \<Rightarrow> TrackNamespace \<Rightarrow> bool" where
  "TrackNamespace_eq a b \<longleftrightarrow> ns_bytes a = ns_bytes b"

definition TrackNamespace_less :: "TrackNamespace \<Rightarrow> TrackNamespace \<Rightarrow> bool" where
  "TrackNamespace_less a b \<longleftrightarrow> array_less (ns_bytes a) (ns_bytes b)"

definition IsPrefixOf :: "TrackNamespace \<Rightarrow> TrackNamespace \<Rightarrow> bool" where
  "IsPrefixOf this other \<longleftrightarrow>
     (if length (ns_hashes this) > length (ns_hashes other) then False
      else list_all (\<lambda>i. ns_hashes this ! i = ns_hashes other ! i) [0..<length (ns_hashes this)])"

definition HasSamePrefix :: "TrackNamespace \<Rightarrow> TrackNamespace \<Rightarrow> bool" where
  "HasSamePrefix this other \<longleftrightarrow>
     (let prefix_size = min (length (ns_hashes this)) (length (ns_hashes other))
      in list_all (\<lambda>i. ns_hashes this ! i = ns_hashes other ! i) [0..<prefix_size])"

definition hash_TrackNamespace :: "TrackNamespace \<Rightarrow> u64 result" where
  "hash_TrackNamespace ns = hash (ns_bytes ns)"

record FullTrackName =
  name_space :: TrackNamespace
  name :: bytes

definition hash_FullTrackName :: "FullTrackName \<Rightarrow> u64 result" where
  "hash_FullTrackName ftn =
     bind_result (hash_TrackNamespace (name_space ftn)) (\<lambda>hns. bind_result (hash (name ftn)) (\<lambda>hn.
       let h = hash_combine (hash_combine 0 hns) hn in Inr (drop_bit 2 (push_bit 2 h))))"

record TrackHash =
  track_namespace_hash :: u64
  track_name_hash :: u64
  track_fullname_hash :: u64

definition TrackHash_of_hashes :: "u64 \<Rightarrow> u64 \<Rightarrow> TrackHash" where
  "TrackHash_of_hashes ns nm =
     (let h = hash_combine (hash_combine 0 ns) nm
      in \<lparr>track_namespace_hash = ns, track_name_hash = nm, track_fullname_hash = drop_bit 2 (push_bit 2 h)\<rparr>)"

definition TrackHash_of_name :: "FullTrackName \<Rightarrow> TrackHash result" where
  "TrackHash_of_name ftn =
     bind_result (hash (ns_bytes (name_space ftn))) (\<lambda>hns. bind_result (hash (name ftn)) (\<lambda>hn.
     bind_result (hash_FullTrackName ftn) (\<lambda>hf.
       Inr \<lparr>track_namespace_hash = hns, track_name_hash = hn, track_fullname_hash = hf\<rparr>)))"

subsection \<open>The representation invariant\<close>

definition ns_wf :: "TrackNamespace \<Rightarrow> bool" where
  "ns_wf ns \<longleftrightarrow> ns_entries ns = spans 0 (map length (GetEntries ns)) \<and>
     ns_bytes ns = concat (GetEntries ns) \<and> hash_all (GetEntries ns) = Inr (ns_hashes ns)"

lemma length_spans [simp]: "length (spans n ns) = length ns"
  by (induction ns arbitrary: n) auto

lemma map_snd_spans [simp]: "map snd (spans n ns) = ns"
  by (induction ns arbitrary: n) auto

lemma spans_concat:
  "map (\<lambda>(offset, n). take n (drop offset (pre @ concat es))) (spans (length pre) (map length es)) = es"
proof (induction es arbitrary: pre)
  case (Cons e es)
  have "map (\<lambda>(offset, n). take n (drop offset ((pre @ e) @ concat es)))
      (spans (length (pre @ e)) (map length es)) = es"
    by (rule Cons.IH)
  then show ?case by simp
qed simp

lemma hash_all_map: "hash_all es = Inr hs \<Longrightarrow> map hash es = map Inr hs"
  by (induction es arbitrary: hs) (auto simp: bind_result_Inr_iff)

lemma hash_all_length: "hash_all es = Inr hs \<Longrightarrow> length hs = length es"
  by (drule hash_all_map) (metis length_map)

lemma hash_all_total: "\<forall>e\<in>set es. length e < 2 ^ 64 \<Longrightarrow> \<exists>hs. hash_all es = Inr hs"
  by (induction es) (use hash_defined in fastforce)+

lemma build_wf:
  assumes "TrackNamespace_build es = Inr ns"
  shows "GetEntries ns = es" "ns_wf ns"
proof -
  from assms obtain hs where hs: "hash_all es = Inr hs"
    and ns: "ns = \<lparr>ns_bytes = concat es, ns_entries = spans 0 (map length es), ns_hashes = hs\<rparr>"
    by (auto simp: TrackNamespace_build_def bind_result_Inr_iff)
  show es: "GetEntries ns = es" using spans_concat [of "[]" es] by (simp add: GetEntries_def ns)
  show "ns_wf ns" unfolding ns_wf_def es by (simp add: ns hs)
qed

lemma copy_wf: "ns_wf ns \<Longrightarrow> TrackNamespace_copy ns = ns"
  by (simp add: TrackNamespace_copy_def rebase_def ns_wf_def)

lemma prefix_nth_iff:
  "prefix xs ys \<longleftrightarrow> length xs \<le> length ys \<and> (\<forall>i<length xs. xs ! i = ys ! i)"
proof (induction xs arbitrary: ys)
  case (Cons x xs)
  then show ?case by (cases ys) (auto simp: All_less_Suc2 less_Suc_eq_0_disj)
qed simp

lemma IsPrefixOf_prefix: "IsPrefixOf a b \<longleftrightarrow> prefix (ns_hashes a) (ns_hashes b)"
  by (auto simp: IsPrefixOf_def list_all_iff prefix_nth_iff)

lemma HasSamePrefix_iff:
  "HasSamePrefix a b \<longleftrightarrow> IsPrefixOf a b \<or> IsPrefixOf b a"
  by (auto simp: HasSamePrefix_def IsPrefixOf_def list_all_iff Let_def min_def)

lemma ns_hashes_map: "ns_wf ns \<Longrightarrow> map hash (GetEntries ns) = map Inr (ns_hashes ns)"
  by (simp add: ns_wf_def hash_all_map)

lemma prefix_map_inj:
  "inj_on f (set xs \<union> set ys) \<Longrightarrow> prefix (map f xs) (map f ys) \<longleftrightarrow> prefix xs ys"
  by (auto simp: prefix_nth_iff inj_on_def)

lemma prefix_hashes_iff:
  assumes "ns_wf a" "ns_wf b"
  shows "prefix (ns_hashes a) (ns_hashes b) \<longleftrightarrow> prefix (map hash (GetEntries a)) (map hash (GetEntries b))"
  by (simp add: ns_hashes_map [OF assms(1)] ns_hashes_map [OF assms(2)] prefix_map_inj)

lemma bit_fullname: "drop_bit 2 (push_bit 2 (h :: u64)) < 2 ^ 62"
proof -
  have "take_bit 62 (drop_bit 2 (push_bit 2 h)) = drop_bit 2 (push_bit 2 h)"
    by (rule bit_word_eqI) (auto simp: bit_simps)
  then show ?thesis by (subst take_bit_u64_iff [symmetric]) simp_all
qed

text \<open>A namespace built from between 1 and 32 entries gives those entries back, satisfies the
  representation invariant (spans laid end to end, octets their concatenation, a hash per entry),
  and copying or moving it yields the same namespace; any other number of entries throws.\<close>

theorem TrackNamespace_construct:
  assumes "\<forall>e\<in>set es. length e < 2 ^ 64"
  shows "if 1 \<le> length es \<and> length es \<le> 32
    then \<exists>ns. TrackNamespace_of_entries es = Inr ns \<and> GetEntries ns = es \<and> ns_wf ns \<and>
      TrackNamespace_copy ns = ns \<and> fst (TrackNamespace_move ns) = ns
    else \<exists>e. TrackNamespace_of_entries es = Inl (Invalid_Argument e)"
proof (cases "1 \<le> length es \<and> length es \<le> 32")
  case True
  obtain hs where "hash_all es = Inr hs" using hash_all_total [OF assms] by blast
  then obtain ns where ns: "TrackNamespace_build es = Inr ns" by (simp add: TrackNamespace_build_def)
  have "TrackNamespace_of_entries es = Inr ns" using True ns by (auto simp: TrackNamespace_of_entries_def)
  moreover have "fst (TrackNamespace_move ns) = TrackNamespace_copy ns"
    by (simp add: TrackNamespace_move_def TrackNamespace_copy_def)
  ultimately show ?thesis using True build_wf [OF ns] copy_wf by simp
qed (auto simp: TrackNamespace_of_entries_def not_le Suc_le_eq)

theorem TrackNamespace_construct_witness:
  "\<exists>ns. TrackNamespace_of_entries [[1, 2], [], [3]] = Inr ns \<and> GetEntries ns = [[1, 2], [], [3]] \<and>
     ns_wf ns \<and> TrackNamespace_copy ns = ns"
proof -
  have "\<forall>e\<in>set [[1, 2], [], [3 :: u8]]. length e < 2 ^ 64" by simp
  from TrackNamespace_construct [OF this] show ?thesis by auto
qed

text \<open>C38. \<^verbatim>\<open>IsPrefixOf\<close> decides the tuple-prefix relation, as long as the hash does not collide on
  the entries of the two namespaces; a real prefix is always recognised.\<close>

theorem IsPrefixOf_correct:
  assumes "ns_wf a" "ns_wf b"
  shows "(prefix (GetEntries a) (GetEntries b) \<longrightarrow> IsPrefixOf a b) \<and>
    (inj_on hash (set (GetEntries a) \<union> set (GetEntries b)) \<longrightarrow>
      IsPrefixOf a b = prefix (GetEntries a) (GetEntries b))"
  using prefix_hashes_iff [OF assms] prefix_map_inj [of hash "GetEntries a" "GetEntries b"]
    map_mono_prefix [of "GetEntries a" "GetEntries b" hash]
  by (simp add: IsPrefixOf_prefix)

theorem IsPrefixOf_correct_witness:
  "\<exists>a b. ns_wf a \<and> ns_wf b \<and> GetEntries a = [[1], [2]] \<and> GetEntries b = [[1], [2], [3]] \<and> IsPrefixOf a b"
proof -
  have "TrackNamespace_build [[1], [2]] = Inr (projr (TrackNamespace_build [[1], [2]]))"
    "TrackNamespace_build [[1], [2], [3]] = Inr (projr (TrackNamespace_build [[1], [2], [3]]))"
    by code_simp+
  note a = build_wf [OF this(1)] and b = build_wf [OF this(2)]
  show ?thesis using IsPrefixOf_correct [OF a(2) b(2)] a b by (auto simp: prefix_def)
qed

text \<open>The two constructors of \<^verbatim>\<open>TrackHash\<close> agree, and the full-name hash, which serves as the
  track alias, always fits a variable-length integer.\<close>

theorem TrackHash_consistent:
  assumes "TrackHash_of_name ftn = Inr th"
  shows "th = TrackHash_of_hashes (track_namespace_hash th) (track_name_hash th) \<and>
    (\<exists>u. UintVar_of_value (track_fullname_hash th) = Inr u \<and> UintVar_Get u = track_fullname_hash th)"
proof -
  from assms obtain hns hn where
    "th = \<lparr>track_namespace_hash = hns, track_name_hash = hn,
      track_fullname_hash = drop_bit 2 (push_bit 2 (hash_combine (hash_combine 0 hns) hn))\<rparr>"
    by (auto simp: TrackHash_of_name_def hash_FullTrackName_def hash_TrackNamespace_def
        bind_result_Inr_iff Let_def)
  moreover obtain u where u: "UintVar_of_value (drop_bit 2 (push_bit 2 (hash_combine (hash_combine 0 hns) hn))) = Inr u"
    using UintVar_of_value_bytes [OF bit_fullname] by blast
  ultimately show ?thesis using UintVar_of_value_wire(3) [OF u] by (simp add: TrackHash_of_hashes_def)
qed

theorem TrackHash_consistent_witness:
  "\<exists>th. TrackHash_of_name \<lparr>name_space = TrackNamespace_default, name = [7]\<rparr> = Inr th \<and>
     th = TrackHash_of_hashes (track_namespace_hash th) (track_name_hash th)"
proof -
  let ?f = "\<lparr>name_space = TrackNamespace_default, name = [7]\<rparr>"
  have "TrackHash_of_name ?f = Inr (projr (TrackHash_of_name ?f))" by code_simp
  from this TrackHash_consistent [OF this] show ?thesis by blast
qed

text \<open>Equality of namespaces compares the concatenated octets, so two different tuples with the
  same concatenation are equal, although neither is a prefix of the other.\<close>

theorem TrackNamespace_eq_not_tuple:
  "\<exists>a b. TrackNamespace_of_entries [[97, 98], [99]] = Inr a \<and>
     TrackNamespace_of_entries [[97], [98, 99]] = Inr b \<and>
     TrackNamespace_eq a b \<and> GetEntries a \<noteq> GetEntries b \<and> \<not> IsPrefixOf a b \<and> \<not> IsPrefixOf b a"
proof -
  define a where "a = projr (TrackNamespace_of_entries [[97, 98], [99]])"
  define b where "b = projr (TrackNamespace_of_entries [[97], [98, 99]])"
  have "TrackNamespace_of_entries [[97, 98], [99]] = Inr (projr (TrackNamespace_of_entries [[97, 98], [99]]))"
    "TrackNamespace_of_entries [[97], [98, 99]] = Inr (projr (TrackNamespace_of_entries [[97], [98, 99]]))"
    by code_simp+
  moreover have "TrackNamespace_eq a b" "GetEntries a \<noteq> GetEntries b" "\<not> IsPrefixOf a b" "\<not> IsPrefixOf b a"
    unfolding a_def b_def by code_simp+
  ultimately show ?thesis unfolding a_def b_def by blast
qed

end
