(* ===== verification/Ctrl_Message_Types.thy ===== *)
theory Ctrl_Message_Types
  imports Track_Name Wire_Enums
begin

section \<open>Control message fields\<close>

text \<open>
  The stream operators of \<^verbatim>\<open>src/ctrl_message_types.cpp\<close> and the templates of
  \<^verbatim>\<open>detail/ctrl_message_types.h\<close>: \<^verbatim>\<open>buffer << x\<close> appends the encoding of \<open>x\<close> to an
  octet vector (\<open>put_\<dots>\<close>), \<^verbatim>\<open>buffer >> x\<close> reads a field from a span and returns the rest
  (\<open>get_\<dots>\<close>). Throwing and reading outside the span are results. Every pair of operators is an
  interpretation of the wire-format interface, with \<open>enc_\<dots>\<close> its octets.
\<close>

subsection \<open>Integers and octet strings\<close>

definition put_uintvar :: "bytes \<Rightarrow> UintVar \<Rightarrow> bytes" where
  "put_uintvar buf varint = buf @ UintVar_wire varint"

definition put_u64 :: "bytes \<Rightarrow> u64 \<Rightarrow> bytes result" where
  "put_u64 buf value = bind_result (UintVar_of_value value) (\<lambda>varint. Inr (put_uintvar buf varint))"

definition get_u64 :: "bytes \<Rightarrow> (u64 \<times> bytes) result" where
  "get_u64 buf =
     bind_result (UintVar_of_bytes buf) (\<lambda>value_uv.
       bind_result (subspan (UintVar_Size value_uv) buf) (\<lambda>r. Inr (UintVar_Get value_uv, r)))"

definition put_u8 :: "bytes \<Rightarrow> u8 \<Rightarrow> bytes result" where
  "put_u8 buf value = Inr (buf @ [value])"

definition get_u8 :: "bytes \<Rightarrow> (u8 \<times> bytes) result" where
  "get_u8 buf =
     (case buf of [] \<Rightarrow> Inl (Invalid_Argument ''Provided buffer too small'') | b # r \<Rightarrow> Inr (b, r))"

definition put_u16 :: "bytes \<Rightarrow> u16 \<Rightarrow> bytes result" where
  "put_u16 buf value = Inr (buf @ [ucast (drop_bit 8 value AND 0xFF)] @ [ucast (value AND 0xFF)])"

definition get_u16 :: "bytes \<Rightarrow> (u16 \<times> bytes) result" where
  "get_u16 buf =
     (if length buf < 2 then Inl (Invalid_Argument ''Provided buffer too small'')
      else Inr (SwapBytes16 (of_le_bytes (take 2 buf)), drop 2 buf))"

definition put_bytes :: "bytes \<Rightarrow> bytes \<Rightarrow> bytes result" where
  "put_bytes buf bs = bind_result (put_u64 buf (of_nat (length bs))) (\<lambda>b. Inr (b @ bs))"

text \<open>The octets are copied from a span of the given size without a bounds check.\<close>

definition get_bytes :: "bytes \<Rightarrow> (bytes \<times> bytes) result" where
  "get_bytes buf =
     bind_result (get_u64 buf) (\<lambda>(size, b).
       if unat size \<le> length b then Inr (take (unat size) b, drop (unat size) b)
       else Inl Undefined_Behaviour)"

definition enc_u16 :: "u16 \<Rightarrow> bytes" where
  "enc_u16 v = [ucast (drop_bit 8 v), ucast v]"

definition enc_bytes :: "bytes \<Rightarrow> bytes" where
  "enc_bytes bs = varint_bytes (of_nat (length bs)) @ bs"

lemma put_u64_ok [codec_simps]: "v < 2 ^ 62 \<Longrightarrow> put_u64 buf v = Inr (buf @ varint_bytes v)"
  using UintVar_of_value_bytes [of v] UintVar_of_value_wire(2) [of v]
  by (auto simp: put_u64_def put_uintvar_def)

lemma get_u64_ok [codec_simps]: "v < 2 ^ 62 \<Longrightarrow> get_u64 (varint_bytes v @ rest) = Inr (v, rest)"
proof -
  assume v: "v < 2 ^ 62"
  obtain u where u: "UintVar_of_value v = Inr u" using UintVar_of_value_bytes [OF v] by blast
  show ?thesis
    using UintVar_of_bytes_varint [OF u] UintVar_of_value_wire [OF u] by (simp add: get_u64_def)
qed

interpretation u64_wire: wire_codec "\<lambda>v. v < 2 ^ 62" varint_bytes put_u64 get_u64
  by unfold_locales (simp_all only: codec_simps)

interpretation u8_wire: wire_codec "\<lambda>_. True" "\<lambda>v. [v]" put_u8 get_u8
  by unfold_locales (simp_all add: put_u8_def get_u8_def)

lemma enc_u16_put [codec_simps]: "put_u16 buf v = Inr (buf @ enc_u16 v)"
proof -
  have "ucast (drop_bit 8 v AND 0xFF) = (ucast (drop_bit 8 v) :: u8)" "ucast (v AND 0xFF) = (ucast v :: u8)"
    unfolding u8_eq_iff by (simp_all add: bit_simps)
  then show ?thesis by (simp add: put_u16_def enc_u16_def)
qed

lemma enc_u16_get [codec_simps]: "get_u16 (enc_u16 v @ rest) = Inr (v, rest)"
proof -
  have "SwapBytes16 (of_le_bytes [ucast (drop_bit 8 v), ucast v]) = v"
  proof (rule bit_word_eqI)
    fix n assume "n < LENGTH(16)"
    then have "n \<in> set [0..<16]" by simp
    moreover have "\<forall>n\<in>set [0..<16]. bit (SwapBytes16 (of_le_bytes [ucast (drop_bit 8 v), ucast v])) n = bit v n"
      by (simp add: upt_conv_Cons SwapBytes16_def bit_simps) (simp add: eval_nat_numeral)
    ultimately show "bit (SwapBytes16 (of_le_bytes [ucast (drop_bit 8 v), ucast v])) n = bit v n" by blast
  qed
  then show ?thesis by (simp add: get_u16_def enc_u16_def eval_nat_numeral)
qed

interpretation u16_wire: wire_codec "\<lambda>_. True" enc_u16 put_u16 get_u16
  by unfold_locales (simp_all only: codec_simps)

lemma size_as_u64: "n < 2 ^ 62 \<Longrightarrow> (of_nat n :: u64) < 2 ^ 62 \<and> unat (of_nat n :: u64) = n"
  by (simp add: word_less_nat_alt unat_of_nat take_bit_nat_eq_self)

lemma bytes_put_ok [codec_simps]: "length bs < 2 ^ 62 \<Longrightarrow> put_bytes buf bs = Inr (buf @ enc_bytes bs)"
  using size_as_u64 [of "length bs"] by (simp add: put_bytes_def enc_bytes_def put_u64_ok)

lemma bytes_get_ok [codec_simps]:
  "length bs < 2 ^ 62 \<Longrightarrow> get_bytes (enc_bytes bs @ rest) = Inr (bs, rest)"
  using size_as_u64 [of "length bs"] get_u64_ok [of "of_nat (length bs)" "bs @ rest"]
  by (simp add: get_bytes_def enc_bytes_def)

interpretation bytes_wire: wire_codec "\<lambda>bs. length bs < 2 ^ 62" enc_bytes put_bytes get_bytes
  by unfold_locales (simp_all only: codec_simps)


subsection \<open>Enumerations\<close>

definition put_GroupOrder :: "bytes \<Rightarrow> GroupOrder \<Rightarrow> bytes result" where
  "put_GroupOrder buf value = put_u64 buf (ucast (GroupOrder_value value))"

definition get_GroupOrder :: "bytes \<Rightarrow> (GroupOrder \<times> bytes) result" where
  "get_GroupOrder buf = bind_result (get_u64 buf) (\<lambda>(uvalue, r). Inr (GroupOrder_of (ucast uvalue), r))"

text \<open>A fetch type is written as a variable-length integer and read as one octet.\<close>

definition put_FetchType :: "bytes \<Rightarrow> FetchType \<Rightarrow> bytes result" where
  "put_FetchType buf value = put_u64 buf (ucast (FetchType_value value))"

definition get_FetchType :: "bytes \<Rightarrow> (FetchType \<times> bytes) result" where
  "get_FetchType buf = bind_result (get_u8 buf) (\<lambda>(uvalue, r). Inr (FetchType_of uvalue, r))"

definition put_FetchErrorCode :: "bytes \<Rightarrow> FetchErrorCode \<Rightarrow> bytes result" where
  "put_FetchErrorCode buf value = put_u64 buf (ucast (FetchErrorCode_value value))"

definition get_FetchErrorCode :: "bytes \<Rightarrow> (FetchErrorCode \<times> bytes) result" where
  "get_FetchErrorCode buf = bind_result (get_u64 buf) (\<lambda>(uvalue, r). Inr (FetchErrorCode_of (ucast uvalue), r))"

definition put_PublishDoneStatusCode :: "bytes \<Rightarrow> PublishDoneStatusCode \<Rightarrow> bytes result" where
  "put_PublishDoneStatusCode buf value = put_u64 buf (PublishDoneStatusCode_value value)"

definition get_PublishDoneStatusCode :: "bytes \<Rightarrow> (PublishDoneStatusCode \<times> bytes) result" where
  "get_PublishDoneStatusCode buf =
     bind_result (get_u64 buf) (\<lambda>(uvalue, r). Inr (PublishDoneStatusCode_of uvalue, r))"

definition put_SubscribeErrorCode :: "bytes \<Rightarrow> SubscribeErrorCode \<Rightarrow> bytes result" where
  "put_SubscribeErrorCode buf value = put_u64 buf (SubscribeErrorCode_value value)"

definition get_SubscribeErrorCode :: "bytes \<Rightarrow> (SubscribeErrorCode \<times> bytes) result" where
  "get_SubscribeErrorCode buf =
     bind_result (get_u64 buf) (\<lambda>(uvalue, r). Inr (SubscribeErrorCode_of uvalue, r))"

definition put_SubscribeNamespaceErrorCode :: "bytes \<Rightarrow> SubscribeNamespaceErrorCode \<Rightarrow> bytes result" where
  "put_SubscribeNamespaceErrorCode buf value = put_u64 buf (SubscribeNamespaceErrorCode_value value)"

definition get_SubscribeNamespaceErrorCode :: "bytes \<Rightarrow> (SubscribeNamespaceErrorCode \<times> bytes) result" where
  "get_SubscribeNamespaceErrorCode buf =
     bind_result (get_u64 buf) (\<lambda>(uvalue, r). Inr (SubscribeNamespaceErrorCode_of uvalue, r))"

lemma ucast_u8_small: "(ucast (w :: u8) :: u64) < 2 ^ 62"
proof -
  have "unat (ucast w :: u64) = unat w" by (simp add: unsigned_ucast_eq take_bit_nat_eq_self unat_less_pow [THEN less_trans])
  then show ?thesis using unat_less_pow [of w] by (simp add: word_less_nat_alt)
qed

lemmas ucast_u8_limit [simp] = ucast_u8_small [simplified]

lemma ucast_u8_u64 [simp]: "(ucast (ucast (w :: u8) :: u64) :: u8) = w"
  by (rule bit_word_eqI) (auto simp: bit_simps)

interpretation GroupOrder_wire: wire_codec "\<lambda>e. GroupOrder_of (GroupOrder_value e) = e"
  "\<lambda>e. varint_bytes (ucast (GroupOrder_value e))" put_GroupOrder get_GroupOrder
  by unfold_locales
    (simp_all add: put_GroupOrder_def get_GroupOrder_def codec_simps)

interpretation FetchErrorCode_wire: wire_codec "\<lambda>e. FetchErrorCode_of (FetchErrorCode_value e) = e"
  "\<lambda>e. varint_bytes (ucast (FetchErrorCode_value e))" put_FetchErrorCode get_FetchErrorCode
  by unfold_locales
    (simp_all add: put_FetchErrorCode_def get_FetchErrorCode_def codec_simps)

interpretation FetchType_wire: wire_codec
  "\<lambda>e. FetchType_of (FetchType_value e) = e \<and> FetchType_value e < 64"
  "\<lambda>e. [FetchType_value e]" put_FetchType get_FetchType
proof
  fix buf x assume x: "FetchType_of (FetchType_value x) = x \<and> FetchType_value x < 64"
  have "unat (ucast (FetchType_value x) :: u64) = unat (FetchType_value x)"
    by (simp add: unsigned_ucast_eq take_bit_nat_eq_self unat_less_pow [THEN less_trans])
  with x have "(ucast (FetchType_value x) :: u64) \<le> 63"
    by (simp add: word_le_nat_alt word_less_nat_alt)
  then show "put_FetchType buf x = Inr (buf @ [FetchType_value x])"
    by (simp add: put_FetchType_def codec_simps varint_bytes_def)
qed (simp add: get_FetchType_def get_u8_def)

interpretation PublishDone_wire: wire_codec
  "\<lambda>e. PublishDoneStatusCode_of (PublishDoneStatusCode_value e) = e \<and> PublishDoneStatusCode_value e < 2 ^ 62"
  "\<lambda>e. varint_bytes (PublishDoneStatusCode_value e)" put_PublishDoneStatusCode get_PublishDoneStatusCode
  by unfold_locales (simp_all add: put_PublishDoneStatusCode_def get_PublishDoneStatusCode_def codec_simps)

interpretation SubscribeError_wire: wire_codec
  "\<lambda>e. SubscribeErrorCode_of (SubscribeErrorCode_value e) = e \<and> SubscribeErrorCode_value e < 2 ^ 62"
  "\<lambda>e. varint_bytes (SubscribeErrorCode_value e)" put_SubscribeErrorCode get_SubscribeErrorCode
  by unfold_locales (simp_all add: put_SubscribeErrorCode_def get_SubscribeErrorCode_def codec_simps)

interpretation SubscribeNsError_wire: wire_codec
  "\<lambda>e. SubscribeNamespaceErrorCode_of (SubscribeNamespaceErrorCode_value e) = e \<and>
       SubscribeNamespaceErrorCode_value e < 2 ^ 62"
  "\<lambda>e. varint_bytes (SubscribeNamespaceErrorCode_value e)"
  put_SubscribeNamespaceErrorCode get_SubscribeNamespaceErrorCode
  by unfold_locales
    (simp_all add: put_SubscribeNamespaceErrorCode_def get_SubscribeNamespaceErrorCode_def codec_simps)


subsection \<open>Locations\<close>

datatype Location = Location (group: u64) (object: u64)

text \<open>\<^verbatim>\<open>operator<=>\<close> compares the groups first.\<close>

definition Location_before :: "Location \<Rightarrow> Location \<Rightarrow> bool" where
  "Location_before a b \<longleftrightarrow> (if group a \<noteq> group b then group a < group b else object a < object b)"

instantiation Location :: linorder
begin

definition less_Location :: "Location \<Rightarrow> Location \<Rightarrow> bool" where
  "less_Location a b \<longleftrightarrow> Location_before a b"

definition less_eq_Location :: "Location \<Rightarrow> Location \<Rightarrow> bool" where
  "less_eq_Location a b \<longleftrightarrow> \<not> Location_before b a"

instance
  by standard (auto simp: less_Location_def less_eq_Location_def Location_before_def Location.expand split: if_splits)

end

definition put_Location :: "bytes \<Rightarrow> Location \<Rightarrow> bytes result" where
  "put_Location buf loc = bind_result (put_u64 buf (group loc)) (\<lambda>b. put_u64 b (object loc))"

definition get_Location :: "bytes \<Rightarrow> (Location \<times> bytes) result" where
  "get_Location buf =
     bind_result (get_u64 buf) (\<lambda>(g, b). bind_result (get_u64 b) (\<lambda>(obj, b'). Inr (Location g obj, b')))"

definition Location_ok :: "Location \<Rightarrow> bool" where
  "Location_ok loc \<longleftrightarrow> group loc < 2 ^ 62 \<and> object loc < 2 ^ 62"

definition enc_Location :: "Location \<Rightarrow> bytes" where
  "enc_Location loc = varint_bytes (group loc) @ varint_bytes (object loc)"

interpretation Location_wire: wire_codec Location_ok enc_Location put_Location get_Location
  by unfold_locales
    (simp_all add: Location_ok_def enc_Location_def put_Location_def get_Location_def codec_simps)

subsection \<open>Track namespaces on the wire\<close>

definition put_TrackNamespace :: "bytes \<Rightarrow> TrackNamespace \<Rightarrow> bytes result" where
  "put_TrackNamespace buf ns =
     (let entries = GetEntries ns in
      bind_result (put_u64 buf (of_nat (length entries))) (\<lambda>b. put_all put_bytes b entries))"

definition get_TrackNamespace :: "bytes \<Rightarrow> (TrackNamespace \<times> bytes) result" where
  "get_TrackNamespace buf =
     bind_result (get_u64 buf) (\<lambda>(size, b).
     bind_result (get_n get_bytes (unat size) b) (\<lambda>(entries, r).
     bind_result (TrackNamespace_of_entries entries) (\<lambda>ns. Inr (ns, r))))"

definition TrackNamespace_ok :: "TrackNamespace \<Rightarrow> bool" where
  "TrackNamespace_ok ns \<longleftrightarrow> TrackNamespace_of_entries (GetEntries ns) = Inr ns \<and>
     list_all (\<lambda>e. length e < 2 ^ 62) (GetEntries ns)"

definition enc_TrackNamespace :: "TrackNamespace \<Rightarrow> bytes" where
  "enc_TrackNamespace ns =
     varint_bytes (of_nat (length (GetEntries ns))) @ concat (map enc_bytes (GetEntries ns))"

interpretation TrackNamespace_wire: wire_codec TrackNamespace_ok enc_TrackNamespace
  put_TrackNamespace get_TrackNamespace
proof
  fix ns buf rest assume ok: "TrackNamespace_ok ns"
  then have "length (GetEntries ns) \<le> 32"
    by (auto simp: TrackNamespace_ok_def TrackNamespace_of_entries_def split: if_splits)
  then have n: "(of_nat (length (GetEntries ns)) :: u64) < 2 ^ 62"
    "unat (of_nat (length (GetEntries ns)) :: u64) = length (GetEntries ns)"
    using size_as_u64 [of "length (GetEntries ns)"] by simp_all
  show "put_TrackNamespace buf ns = Inr (buf @ enc_TrackNamespace ns)"
    using ok bytes_wire.put_all_enc [of "GetEntries ns"]
    by (simp add: put_TrackNamespace_def enc_TrackNamespace_def TrackNamespace_ok_def put_u64_ok [OF n(1)] Let_def)
  show "get_TrackNamespace (enc_TrackNamespace ns @ rest) = Inr (ns, rest)"
    using ok bytes_wire.get_n_enc [of "GetEntries ns" rest]
      get_u64_ok [OF n(1), of "concat (map enc_bytes (GetEntries ns)) @ rest"]
    by (simp add: get_TrackNamespace_def enc_TrackNamespace_def TrackNamespace_ok_def n(2))
qed

subsection \<open>Fetch requests\<close>

record StandaloneFetch =
  sf_track_namespace :: TrackNamespace
  sf_track_name :: bytes
  sf_start :: Location
  sf_end :: Location

definition put_StandaloneFetch :: "bytes \<Rightarrow> StandaloneFetch \<Rightarrow> bytes result" where
  "put_StandaloneFetch buf value =
     bind_result (put_TrackNamespace buf (sf_track_namespace value)) (\<lambda>b.
     bind_result (put_bytes b (sf_track_name value)) (\<lambda>b.
     bind_result (put_Location b (sf_start value)) (\<lambda>b. put_Location b (sf_end value))))"

definition get_StandaloneFetch :: "bytes \<Rightarrow> (StandaloneFetch \<times> bytes) result" where
  "get_StandaloneFetch buf =
     bind_result (get_TrackNamespace buf) (\<lambda>(ns, b).
     bind_result (get_bytes b) (\<lambda>(nm, b).
     bind_result (get_Location b) (\<lambda>(s, b).
     bind_result (get_Location b) (\<lambda>(e, b).
       Inr (\<lparr>sf_track_namespace = ns, sf_track_name = nm, sf_start = s, sf_end = e\<rparr>, b)))))"

definition StandaloneFetch_ok :: "StandaloneFetch \<Rightarrow> bool" where
  "StandaloneFetch_ok f \<longleftrightarrow> TrackNamespace_ok (sf_track_namespace f) \<and> length (sf_track_name f) < 2 ^ 62 \<and>
     Location_ok (sf_start f) \<and> Location_ok (sf_end f)"

definition enc_StandaloneFetch :: "StandaloneFetch \<Rightarrow> bytes" where
  "enc_StandaloneFetch f =
     enc_TrackNamespace (sf_track_namespace f) @ enc_bytes (sf_track_name f) @
     enc_Location (sf_start f) @ enc_Location (sf_end f)"

interpretation StandaloneFetch_wire: wire_codec StandaloneFetch_ok enc_StandaloneFetch
  put_StandaloneFetch get_StandaloneFetch
  by unfold_locales
    (simp_all add: StandaloneFetch_ok_def enc_StandaloneFetch_def put_StandaloneFetch_def
      get_StandaloneFetch_def codec_simps TrackNamespace_wire.put_enc TrackNamespace_wire.get_enc
      Location_wire.put_enc Location_wire.get_enc)

record JoiningFetch =
  jf_request_id :: u64
  jf_joining_start :: u64

definition put_JoiningFetch :: "bytes \<Rightarrow> JoiningFetch \<Rightarrow> bytes result" where
  "put_JoiningFetch buf value =
     bind_result (put_u64 buf (jf_request_id value)) (\<lambda>b. put_u64 b (jf_joining_start value))"

definition get_JoiningFetch :: "bytes \<Rightarrow> (JoiningFetch \<times> bytes) result" where
  "get_JoiningFetch buf =
     bind_result (get_u64 buf) (\<lambda>(i, b). bind_result (get_u64 b) (\<lambda>(s, b).
       Inr (\<lparr>jf_request_id = i, jf_joining_start = s\<rparr>, b)))"

interpretation JoiningFetch_wire: wire_codec "\<lambda>f. jf_request_id f < 2 ^ 62 \<and> jf_joining_start f < 2 ^ 62"
  "\<lambda>f. varint_bytes (jf_request_id f) @ varint_bytes (jf_joining_start f)" put_JoiningFetch get_JoiningFetch
  by unfold_locales (simp_all add: put_JoiningFetch_def get_JoiningFetch_def codec_simps)


subsection \<open>Control messages\<close>

record ControlMessage =
  cm_type :: u64
  cm_payload :: bytes

definition put_ControlMessage :: "bytes \<Rightarrow> ControlMessage \<Rightarrow> bytes result" where
  "put_ControlMessage buf msg =
     bind_result (put_u64 buf (cm_type msg)) (\<lambda>b.
     bind_result (put_u16 b (of_nat (length (cm_payload msg)))) (\<lambda>b. Inr (b @ cm_payload msg)))"

definition get_ControlMessage :: "bytes \<Rightarrow> (ControlMessage \<times> bytes) result" where
  "get_ControlMessage buf =
     bind_result (get_u64 buf) (\<lambda>(t, b).
       if length b < 2 then Inl (Invalid_Argument ''Buffer too small'')
       else bind_result (get_u16 b) (\<lambda>(n, b).
         if length b < unat n then Inl (Invalid_Argument ''Buffer too small'')
         else Inr (\<lparr>cm_type = t, cm_payload = take (unat n) b\<rparr>, drop (unat n) b)))"

definition enc_ControlMessage :: "ControlMessage \<Rightarrow> bytes" where
  "enc_ControlMessage msg =
     varint_bytes (cm_type msg) @ enc_u16 (of_nat (length (cm_payload msg))) @ cm_payload msg"

lemma ControlMessage_put: 
  "cm_type msg < 2 ^ 62 \<Longrightarrow> put_ControlMessage buf msg = Inr (buf @ enc_ControlMessage msg)"
  by (simp add: put_ControlMessage_def enc_ControlMessage_def codec_simps)

lemma ControlMessage_get:
  assumes "cm_type msg < 2 ^ 62"
  shows "get_ControlMessage (enc_ControlMessage msg @ rest) =
    (let n = length (cm_payload msg) mod 65536
     in Inr (\<lparr>cm_type = cm_type msg, cm_payload = take n (cm_payload msg)\<rparr>, drop n (cm_payload msg) @ rest))"
proof -
  have n: "unat (of_nat (length (cm_payload msg)) :: u16) = length (cm_payload msg) mod 65536"
    by (simp add: unat_of_nat take_bit_eq_mod)
  have "get_u64 (enc_ControlMessage msg @ rest) =
      Inr (cm_type msg, enc_u16 (of_nat (length (cm_payload msg))) @ cm_payload msg @ rest)"
    using assms by (simp add: enc_ControlMessage_def codec_simps)
  moreover have "2 \<le> length (enc_u16 (of_nat (length (cm_payload msg))) @ cm_payload msg @ rest)"
    by (simp add: enc_u16_def)
  moreover have "\<not> length (cm_payload msg @ rest) < length (cm_payload msg) mod 65536"
    using mod_less_eq_dividend [of "length (cm_payload msg)" 65536] unfolding length_append by linarith
  ultimately show ?thesis
    by (simp add: get_ControlMessage_def codec_simps n Let_def del: length_append unsigned_of_nat)
qed

interpretation ControlMessage_wire: wire_codec
  "\<lambda>msg. cm_type msg < 2 ^ 62 \<and> length (cm_payload msg) < 65536"
  enc_ControlMessage put_ControlMessage get_ControlMessage
  by unfold_locales (simp_all add: ControlMessage_put ControlMessage_get)

subsection \<open>Key-value pairs\<close>

text \<open>Even types carry an integer in up to eight little-endian octets, odd types carry octets.\<close>

record KeyValuePair =
  kvp_type :: u64
  kvp_value :: bytes

definition kvp_Size :: "KeyValuePair \<Rightarrow> nat result" where
  "kvp_Size p =
     bind_result (UintVar_of_value (kvp_type p)) (\<lambda>t.
       if kvp_type p mod 2 = 0 then
         if length (kvp_value p) > 8 then Inl (Invalid_Argument ''Value too large to encode as uint64_t.'')
         else bind_result (UintVar_of_value (of_le_bytes (kvp_value p)))
                (\<lambda>v. Inr (UintVar_Size t + UintVar_Size v))
       else bind_result (UintVar_of_value (of_nat (length (kvp_value p))))
              (\<lambda>n. Inr (UintVar_Size t + UintVar_Size n + length (kvp_value p))))"

definition kvp_eq :: "KeyValuePair \<Rightarrow> KeyValuePair \<Rightarrow> bool result" where
  "kvp_eq this other =
     (if kvp_type this \<noteq> kvp_type other then Inr False
      else if kvp_type this mod 2 \<noteq> 0 then Inr (kvp_value this = kvp_value other)
      else if length (kvp_value this) > 8 \<or> length (kvp_value other) > 8
        then Inl (Invalid_Argument ''Even KVPs must be <= 8 bytes'')
      else
        let smaller = min (length (kvp_value this)) (length (kvp_value other)) in
        if take smaller (kvp_value this) \<noteq> take smaller (kvp_value other) then Inr False
        else
          let larger = max (length (kvp_value this)) (length (kvp_value other)) in
          if larger = smaller then Inr True
          else
            let longer = (if length (kvp_value this) > length (kvp_value other)
                          then kvp_value this else kvp_value other);
                remaining = larger - smaller
            in Inr (take remaining (drop smaller longer) = replicate remaining 0))"

definition put_kvp :: "bytes \<Rightarrow> KeyValuePair \<Rightarrow> bytes result" where
  "put_kvp buf p =
     bind_result (put_u64 buf (kvp_type p)) (\<lambda>b.
       if kvp_type p mod 2 \<noteq> 0 then put_bytes b (kvp_value p)
       else if length (kvp_value p) > 8 then Inl (Invalid_Argument ''Value too large to encode as uint64_t.'')
       else put_u64 b (of_le_bytes (kvp_value p)))"

definition get_kvp :: "bytes \<Rightarrow> (KeyValuePair \<times> bytes) result" where
  "get_kvp buf =
     bind_result (get_u64 buf) (\<lambda>(t, b).
       if t mod 2 \<noteq> 0 then
         bind_result (get_bytes b) (\<lambda>(v, r). Inr (\<lparr>kvp_type = t, kvp_value = v\<rparr>, r))
       else
         bind_result (UintVar_of_bytes b) (\<lambda>uvar.
         bind_result (subspan (UintVar_Size uvar) b) (\<lambda>r.
           Inr (\<lparr>kvp_type = t, kvp_value = le_bytes (UintVar_Size uvar) (UintVar_Get uvar)\<rparr>, r))))"

text \<open>The pairs the writer accepts, and what the reader gives back: the same pair for an odd type,
  and for an even type the integer in as many octets as its variable-length form has.\<close>

definition kvp_ok :: "KeyValuePair \<Rightarrow> bool" where
  "kvp_ok p \<longleftrightarrow> kvp_type p < 2 ^ 62 \<and>
     (if kvp_type p mod 2 = 0 then length (kvp_value p) \<le> 8 \<and> (of_le_bytes (kvp_value p) :: u64) < 2 ^ 62
      else length (kvp_value p) < 2 ^ 62)"

definition kvp_norm :: "KeyValuePair \<Rightarrow> KeyValuePair" where
  "kvp_norm p =
     (if kvp_type p mod 2 = 0
      then p\<lparr>kvp_value := le_bytes (length (varint_bytes (of_le_bytes (kvp_value p)))) (of_le_bytes (kvp_value p) :: u64)\<rparr>
      else p)"

definition enc_kvp :: "KeyValuePair \<Rightarrow> bytes" where
  "enc_kvp p =
     varint_bytes (kvp_type p) @
     (if kvp_type p mod 2 = 0 then varint_bytes (of_le_bytes (kvp_value p)) else enc_bytes (kvp_value p))"

lemma kvp_put: "kvp_ok p \<Longrightarrow> put_kvp buf p = Inr (buf @ enc_kvp p)"
  by (auto simp: kvp_ok_def put_kvp_def enc_kvp_def codec_simps split: if_splits)

lemma kvp_get:
  assumes "kvp_ok p"
  shows "get_kvp (enc_kvp p @ rest) = Inr (kvp_norm p, rest)"
proof (cases "kvp_type p mod 2 = 0")
  case True
  let ?v = "of_le_bytes (kvp_value p) :: u64"
  have v: "?v < 2 ^ 62" and t: "kvp_type p < 2 ^ 62" using assms True by (simp_all add: kvp_ok_def)
  obtain u where u: "UintVar_of_value ?v = Inr u" using UintVar_of_value_bytes [OF v] by blast
  show ?thesis
    using True t UintVar_of_bytes_varint [OF u] UintVar_of_value_wire [OF u]
    by (simp add: get_kvp_def enc_kvp_def kvp_norm_def codec_simps)
next
  case False
  then show ?thesis using assms
    by (simp add: kvp_ok_def get_kvp_def enc_kvp_def kvp_norm_def codec_simps)
qed


lemma le_bytes_of_le_bytes: "length bs \<le> 8 \<Longrightarrow> le_bytes (length bs) (of_le_bytes bs :: u64) = bs"
proof (rule nth_equalityI)
  fix i assume "length bs \<le> 8" "i < length (le_bytes (length bs) (of_le_bytes bs :: u64))"
  then have i: "i < length bs" "8 * i + 8 \<le> 64" by auto
  show "le_bytes (length bs) (of_le_bytes bs :: u64) ! i = bs ! i"
  proof (rule bit_word_eqI)
    fix n assume "n < LENGTH(8)"
    then have "n < 8" by simp
    then have "(n + 8 * i) div 8 = i" "(n + 8 * i) mod 8 = n" "n + 8 * i < 64" using i by auto
    then show "bit (le_bytes (length bs) (of_le_bytes bs :: u64) ! i) n = bit (bs ! i) n"
      using i \<open>n < 8\<close> by (simp add: nth_le_bytes bit_simps bit_of_le_bytes ac_simps)
  qed
qed simp

lemma of_le_bytes_pad: "of_le_bytes (bs @ replicate k 0) = of_le_bytes bs"
proof -
  have "(of_le_bytes (replicate k 0) :: 'a::len word) = 0" by (induction k) auto
  then show ?thesis by (induction bs) auto
qed

lemma of_le_bytes_inj:
  assumes "length xs = length ys" "length xs \<le> 8"
  shows "(of_le_bytes xs :: u64) = of_le_bytes ys \<longleftrightarrow> xs = ys"
  using le_bytes_of_le_bytes [of xs] le_bytes_of_le_bytes [of ys] assms by metis

lemma of_le_bytes_eq_longer:
  assumes "length xs \<le> length ys" "length ys \<le> 8"
  shows "(of_le_bytes xs :: u64) = of_le_bytes ys \<longleftrightarrow>
    take (length xs) ys = xs \<and> drop (length xs) ys = replicate (length ys - length xs) 0"
proof -
  have "(of_le_bytes xs :: u64) = of_le_bytes ys \<longleftrightarrow>
      (of_le_bytes (xs @ replicate (length ys - length xs) 0) :: u64) = of_le_bytes ys"
    by (simp add: of_le_bytes_pad)
  also have "\<dots> \<longleftrightarrow> xs @ replicate (length ys - length xs) 0 = ys"
    using assms by (intro of_le_bytes_inj) auto
  also have "\<dots> \<longleftrightarrow> take (length xs) ys = xs \<and> drop (length xs) ys = replicate (length ys - length xs) 0"
    using append_eq_conv_conj [of xs "replicate (length ys - length xs) 0" ys] by auto
  finally show ?thesis .
qed

lemma kvp_eq_even:
  assumes "kvp_type p = kvp_type q" "kvp_type p mod 2 = 0" "length (kvp_value p) \<le> 8" "length (kvp_value q) \<le> 8"
  shows "kvp_eq p q = Inr ((of_le_bytes (kvp_value p) :: u64) = of_le_bytes (kvp_value q))"
proof (cases "length (kvp_value p) \<le> length (kvp_value q)")
  case True
  let ?P = "kvp_value p" and ?Q = "kvp_value q"
  have eq: "kvp_eq p q = (if ?P \<noteq> take (length ?P) ?Q then Inr False
      else if length ?Q = length ?P then Inr True
      else Inr (drop (length ?P) ?Q = replicate (length ?Q - length ?P) 0))"
    using True assms unfolding kvp_eq_def Let_def max_absorb2 [OF True] min_absorb1 [OF True]
    by (simp split del: if_split cong del: if_weak_cong)
  note E = of_le_bytes_eq_longer [OF True assms(4)]
  show ?thesis
  proof (cases "take (length ?P) ?Q = ?P")
    case True
    then show ?thesis unfolding eq E by simp
  next
    case False
    then show ?thesis unfolding eq E using not_sym [OF False] by simp
  qed
next
  case False
  then have "(of_le_bytes (kvp_value p) :: u64) = of_le_bytes (kvp_value q) \<longleftrightarrow>
      take (length (kvp_value q)) (kvp_value p) = kvp_value q \<and>
      drop (length (kvp_value q)) (kvp_value p) = replicate (length (kvp_value p) - length (kvp_value q)) 0"
    using assms of_le_bytes_eq_longer [of "kvp_value q" "kvp_value p"] by (metis nat_le_linear)
  with False assms show ?thesis by (auto simp: kvp_eq_def Let_def)
qed

lemma of_le_bytes_take: "of_le_bytes (le_bytes k (v :: u64)) = take_bit (8 * k) v"
proof (rule bit_word_eqI)
  fix n assume "n < LENGTH(64)"
  have "n div 8 < k \<longleftrightarrow> n < 8 * k" by (simp add: div_less_iff_less_mult mult.commute)
  moreover have "8 * (n div 8) + n mod 8 = n" by simp
  ultimately show "bit (of_le_bytes (le_bytes k v) :: u64) n = bit (take_bit (8 * k) v) n"
    using \<open>n < LENGTH(64)\<close> by (auto simp: bit_of_le_bytes nth_le_bytes bit_simps add.commute)
qed

lemma varint_fits_its_octets:
  assumes "v < 2 ^ 62" shows "take_bit (8 * length (varint_bytes v)) v = v"
proof (rule bit_word_eqI)
  fix n assume "n < LENGTH(64)"
  moreover have "\<not> bit v n" if "8 * length (varint_bytes v) \<le> n"
    using that assms le_mask_bits [of v 6 n] le_mask_bits [of v 14 n] le_mask_bits [of v 30 n]
      \<open>n < LENGTH(64)\<close> by (auto simp: varint_bytes_def split: if_splits)
  ultimately show "bit (take_bit (8 * length (varint_bytes v)) v) n = bit v n"
    by (metis bit_take_bit_iff not_less)
qed

lemma length_varint_le [simp]: "length (varint_bytes v) \<le> 8"
  by (simp add: varint_bytes_def)

lemma kvp_norm_value:
  assumes "kvp_ok p" "kvp_type p mod 2 = 0"
  shows "(of_le_bytes (kvp_value (kvp_norm p)) :: u64) = of_le_bytes (kvp_value p)"
    "length (kvp_value (kvp_norm p)) \<le> 8"
  using assms varint_fits_its_octets [of "of_le_bytes (kvp_value p)"]
  by (simp_all add: kvp_norm_def kvp_ok_def of_le_bytes_take)

lemma kvp_Size_put: "kvp_Size p = map_sum id length (put_kvp [] p)"
proof -
  have put: "put_u64 b v = (case UintVar_of_value v of Inl e \<Rightarrow> Inl e | Inr u \<Rightarrow> Inr (b @ UintVar_wire u))"
    and len: "UintVar_of_value v = Inr u \<Longrightarrow> length (UintVar_wire u) = UintVar_Size u" for b v u
    by (simp_all add: put_u64_def put_uintvar_def bind_result_def UintVar_of_value_wire split: sum.splits)
  show ?thesis
    by (auto simp: kvp_Size_def put_kvp_def put_bytes_def put len bind_result_def split: sum.splits)
qed


subsection \<open>Properties\<close>

text \<open>Key-value pairs: a pair the writer accepts is read back as a pair that
  \<^verbatim>\<open>operator==\<close> finds equal, with the following octets untouched, and \<^verbatim>\<open>Size\<close> is the
  number of octets written.\<close>

theorem kvp_roundtrip:
  assumes "kvp_ok p"
  shows "\<exists>w q. put_kvp [] p = Inr w \<and> get_kvp (w @ rest) = Inr (q, rest) \<and> kvp_eq p q = Inr True \<and>
    kvp_Size p = Inr (length w)"
proof -
  have eq: "kvp_eq p (kvp_norm p) = Inr True"
  proof (cases "kvp_type p mod 2 = 0")
    case True
    have "kvp_type (kvp_norm p) = kvp_type p" by (simp add: kvp_norm_def)
    moreover have "length (kvp_value p) \<le> 8" using assms True by (simp add: kvp_ok_def)
    ultimately show ?thesis
      using kvp_eq_even [of p "kvp_norm p"] kvp_norm_value [OF assms True] True by simp
  next
    case False
    then show ?thesis by (simp add: kvp_norm_def kvp_eq_def)
  qed
  show ?thesis using kvp_put [OF assms, of "[]"] kvp_get [OF assms] eq kvp_Size_put [of p] by simp
qed

theorem kvp_roundtrip_witness:
  "\<exists>w q. put_kvp [] \<lparr>kvp_type = 4, kvp_value = [16, 39]\<rparr> = Inr w \<and> get_kvp (w @ [9]) = Inr (q, [9]) \<and>
     kvp_eq \<lparr>kvp_type = 4, kvp_value = [16, 39]\<rparr> q = Inr True"
proof -
  have "kvp_ok \<lparr>kvp_type = 4, kvp_value = [16, 39]\<rparr>" by code_simp
  from kvp_roundtrip [OF this, of "[9]"] show ?thesis by blast
qed

text \<open>\<^verbatim>\<open>operator==\<close> on pairs of an even type is equality of the integers the octets stand for,
  whatever the two lengths.\<close>

theorem kvp_eq_numeric:
  assumes "kvp_type p = kvp_type q" "kvp_type p mod 2 = 0"
    "length (kvp_value p) \<le> 8" "length (kvp_value q) \<le> 8"
  shows "kvp_eq p q = Inr (be_nat (rev (kvp_value p)) = be_nat (rev (kvp_value q)))"
proof -
  have num: "unat (of_le_bytes bs :: u64) = be_nat (rev bs)" if "length bs \<le> 8" for bs
  proof -
    have "be_nat (rev bs) < 256 ^ length bs" using be_nat_bound [of "rev bs"] by simp
    also have "\<dots> \<le> 256 ^ 8" using that by (intro power_increasing) auto
    finally show ?thesis by (simp add: of_le_bytes_nat unat_of_nat take_bit_nat_eq_self)
  qed
  show ?thesis
    using kvp_eq_even [OF assms] num [OF assms(3)] num [OF assms(4)] by (simp add: word_unat_eq_iff)
qed

theorem kvp_eq_numeric_witness:
  "kvp_eq \<lparr>kvp_type = 2, kvp_value = [5]\<rparr> \<lparr>kvp_type = 2, kvp_value = [5, 0, 0, 0]\<rparr> = Inr True"
  using kvp_eq_numeric [of "\<lparr>kvp_type = 2, kvp_value = [5]\<rparr>" "\<lparr>kvp_type = 2, kvp_value = [5, 0, 0, 0]\<rparr>"]
  by simp

text \<open>A standalone fetch (namespace tuple, track name, start and end location) survives
  encoding and decoding.\<close>

theorem StandaloneFetch_roundtrip:
  assumes "StandaloneFetch_ok f"
  shows "\<exists>w. put_StandaloneFetch [] f = Inr w \<and> get_StandaloneFetch (w @ rest) = Inr (f, rest)"
  using assms by (rule StandaloneFetch_wire.roundtrip)

theorem StandaloneFetch_roundtrip_witness:
  "\<exists>f w. StandaloneFetch_ok f \<and> put_StandaloneFetch [] f = Inr w \<and> get_StandaloneFetch (w @ [1]) = Inr (f, [1])"
proof -
  have b: "TrackNamespace_build [[1], [2, 3]] = Inr (projr (TrackNamespace_build [[1], [2, 3]]))"
    by code_simp
  define ns where "ns = projr (TrackNamespace_build [[1], [2, 3]])"
  have "GetEntries ns = [[1], [2, 3]]" using build_wf(1) [OF b] by (simp add: ns_def)
  then have "TrackNamespace_ok ns" using b by (simp add: TrackNamespace_ok_def TrackNamespace_of_entries_def ns_def)
  then have "StandaloneFetch_ok
      \<lparr>sf_track_namespace = ns, sf_track_name = [4], sf_start = Location 0 0, sf_end = Location 7 300\<rparr>"
    by (simp add: StandaloneFetch_ok_def Location_ok_def)
  from this StandaloneFetch_roundtrip [OF this, of "[1]"] show ?thesis by blast
qed

text \<open>C10. Control messages: a message of a legal type survives encoding and decoding exactly when
  its payload has fewer than 65536 octets; a longer payload is cut to its length modulo 65536 and
  the rest of it is left in front of what follows.\<close>

theorem ControlMessage_roundtrip:
  assumes "cm_type msg < 2 ^ 62"
  shows "\<exists>w. put_ControlMessage [] msg = Inr w \<and>
    (length (cm_payload msg) < 65536 \<longleftrightarrow> get_ControlMessage (w @ rest) = Inr (msg, rest)) \<and>
    get_ControlMessage (w @ rest) =
      Inr (msg\<lparr>cm_payload := take (length (cm_payload msg) mod 65536) (cm_payload msg)\<rparr>,
           drop (length (cm_payload msg) mod 65536) (cm_payload msg) @ rest)"
proof -
  let ?n = "length (cm_payload msg) mod 65536"
  have g: "get_ControlMessage (enc_ControlMessage msg @ rest) =
      Inr (msg\<lparr>cm_payload := take ?n (cm_payload msg)\<rparr>, drop ?n (cm_payload msg) @ rest)"
    using ControlMessage_get [OF assms, of rest] by (simp add: Let_def)
  have "?n < 65536" by simp
  then have "length (cm_payload msg) < 65536 \<longleftrightarrow>
      msg\<lparr>cm_payload := take ?n (cm_payload msg)\<rparr> = msg \<and> drop ?n (cm_payload msg) @ rest = rest"
    by (cases "length (cm_payload msg) < 65536") auto
  then have iff: "length (cm_payload msg) < 65536 \<longleftrightarrow>
      get_ControlMessage (enc_ControlMessage msg @ rest) = Inr (msg, rest)"
    unfolding g by (simp only: sum.inject prod.inject)
  have "put_ControlMessage [] msg = Inr (enc_ControlMessage msg)"
    using ControlMessage_put [OF assms, of "[]"] by simp
  with iff g show ?thesis by blast
qed

theorem ControlMessage_roundtrip_witness:
  "\<exists>w. put_ControlMessage [] \<lparr>cm_type = 3, cm_payload = [1, 2, 3]\<rparr> = Inr w \<and>
     get_ControlMessage (w @ [7]) = Inr (\<lparr>cm_type = 3, cm_payload = [1, 2, 3]\<rparr>, [7])"
proof -
  have "cm_type \<lparr>cm_type = 3, cm_payload = [1, 2, 3]\<rparr> < 2 ^ 62" by simp
  from ControlMessage_roundtrip [OF this, of "[7]"] show ?thesis by auto
qed

text \<open>The reader of a length-prefixed octet string has no bounds check: a length that exceeds
  the octets left makes it read past the end of the span, on every such input.\<close>

theorem get_bytes_out_of_bounds:
  assumes "UintVar_of_bytes buf = Inr u" "length buf - UintVar_Size u < unat (UintVar_Get u)"
  shows "get_bytes buf = Inl Undefined_Behaviour"
  using assms UintVar_of_bytes_cases(3) [OF assms(1)] by (simp add: get_bytes_def get_u64_def)

theorem get_bytes_out_of_bounds_witness: "get_bytes [5, 1, 2] = Inl Undefined_Behaviour"
proof -
  have "UintVar_of_bytes [5, 1, 2] = Inr \<lparr>be_value = [5, 0, 0, 0, 0, 0, 0, 0]\<rparr>" by code_simp
  moreover have "length [5, 1, 2 :: u8] - UintVar_Size \<lparr>be_value = [5, 0, 0, 0, 0, 0, 0, 0]\<rparr>
      < unat (UintVar_Get \<lparr>be_value = [5, 0, 0, 0, 0, 0, 0, 0]\<rparr>)" by code_simp
  ultimately show ?thesis by (rule get_bytes_out_of_bounds)
qed

end
