(* ===== verification/Extensions.thy ===== *)
theory Extensions
  imports Std_Map Data_Headers Incremental Ctrl_Message_Types
begin

section \<open>Object extension headers\<close>

text \<open>
  Extension headers of \<^verbatim>\<open>src/messages.cpp\<close>: writing the mutable and the immutable extensions as
  one length-prefixed block of key-value pairs (\<^verbatim>\<open>SerializeExtensions\<close>), and the incremental
  parser (\<^verbatim>\<open>ParseExtensions\<close>), which keeps in the message the length, the octets still to parse
  and the key whose value is awaited, and can be called again when more octets have arrived. The
  count of octets is a 64-bit \<^verbatim>\<open>size_t\<close> that wraps.
\<close>

type_synonym Extensions = "(u64, bytes list) std_map"

text \<open>The state of the parser, which the code passes by reference.\<close>

record ext_state =
  extension_headers_length :: "u64 option"
  extensions :: "Extensions option"
  extension_bytes_remaining :: u64
  current_header :: "u64 option"

definition push_value :: "u64 \<Rightarrow> bytes \<Rightarrow> Extensions \<Rightarrow> Extensions" where
  "push_value tag value m = map_put tag (map_at [] m tag @ [value]) m"

subsection \<open>Reading fields\<close>

definition ParseUintVField :: "'d StreamBuffer \<Rightarrow> (u64 option \<times> 'd StreamBuffer) result" where
  "ParseUintVField sb = DecodeUintV True sb"

definition ReadUintVField :: "'d StreamBuffer \<Rightarrow> (UintVar option \<times> 'd StreamBuffer) result" where
  "ReadUintVField sb = ReadUintV True sb"

definition ParseBytesField :: "'d StreamBuffer \<Rightarrow> (bytes option \<times> 'd StreamBuffer) result" where
  "ParseBytesField sb = DecodeBytes sb"

subsection \<open>The incremental parser\<close>

text \<open>One iteration of the loop over the pairs: first the key, unless it is already known, then the
  value. \<open>False\<close> means that octets are missing.\<close>

definition ext_tag :: "'d StreamBuffer \<Rightarrow> ext_state \<Rightarrow> (u64 option \<times> 'd StreamBuffer \<times> ext_state) result" where
  "ext_tag sb st =
     (case current_header st of
        Some tag \<Rightarrow> Inr (Some tag, sb, st)
      | None \<Rightarrow>
          bind_result (ReadUintVField sb) (\<lambda>(r, sb').
            case r of
              None \<Rightarrow> Inr (None, sb', st)
            | Some tag_field \<Rightarrow>
                Inr (Some (UintVar_Get tag_field), sb',
                     st\<lparr>extension_bytes_remaining := extension_bytes_remaining st - of_nat (UintVar_Size tag_field),
                        current_header := Some (UintVar_Get tag_field)\<rparr>)))"

definition ext_value :: "u64 \<Rightarrow> 'd StreamBuffer \<Rightarrow> ext_state \<Rightarrow> (bool \<times> 'd StreamBuffer \<times> ext_state) result" where
  "ext_value tag sb st =
     (if tag mod 2 = 0 then
        bind_result (ReadUintV True sb) (\<lambda>(r, sb').
          case r of
            None \<Rightarrow> Inr (False, sb', st)
          | Some value \<Rightarrow>
              Inr (True, sb',
                   st\<lparr>extension_bytes_remaining := extension_bytes_remaining st - of_nat (UintVar_Size value),
                      extensions := map_option (push_value tag (le_bytes 8 (UintVar_Get value))) (extensions st),
                      current_header := None\<rparr>))
      else
        bind_result (ParseBytesField sb) (\<lambda>(r, sb').
          case r of
            None \<Rightarrow> Inr (False, sb', st)
          | Some bs \<Rightarrow>
              bind_result (UintVar_of_value (of_nat (length bs))) (\<lambda>n.
                Inr (True, sb',
                     st\<lparr>extension_bytes_remaining :=
                          extension_bytes_remaining st - (of_nat (length bs) + of_nat (UintVar_Size n)),
                        extensions := map_option (push_value tag bs) (extensions st),
                        current_header := None\<rparr>))))"

definition ext_kvp :: "'d StreamBuffer \<Rightarrow> ext_state \<Rightarrow> (bool \<times> 'd StreamBuffer \<times> ext_state) result" where
  "ext_kvp sb st =
     bind_result (ext_tag sb st) (\<lambda>(r, sb', st').
       case r of None \<Rightarrow> Inr (False, sb', st') | Some tag \<Rightarrow> ext_value tag sb' st')"

lemma ext_tag_shorter:
  "ext_tag sb st = Inr (r, sb', st') \<Longrightarrow> length (buffer sb') \<le> length (buffer sb)"
  by (auto simp: ext_tag_def ReadUintVField_def ReadUintV_eq bind_result_Inr_iff
      split: option.splits prod.splits dest!: uintv.parse_consumes)

lemma ext_value_shorter:
  "ext_value tag sb st = Inr (True, sb', st') \<Longrightarrow> length (buffer sb') < length (buffer sb)"
  by (auto simp: ext_value_def ParseBytesField_def ReadUintV_eq DecodeBytes_eq bind_result_Inr_iff
      split: option.splits prod.splits if_splits dest!: uintv.parse_consumes bytes_f.parse_consumes)

lemma ext_kvp_shorter:
  "ext_kvp sb st = Inr (True, sb', st') \<Longrightarrow> length (buffer sb') < length (buffer sb)"
  by (fastforce simp: ext_kvp_def bind_result_Inr_iff split: option.splits
      dest: ext_tag_shorter ext_value_shorter)

function ext_loop :: "'d StreamBuffer \<Rightarrow> ext_state \<Rightarrow> (bool \<times> 'd StreamBuffer \<times> ext_state) result" where
  "ext_loop sb st =
     (if extension_bytes_remaining st > 0 then
        (case ext_kvp sb st of
           Inl e \<Rightarrow> Inl e
         | Inr (ok, sb', st') \<Rightarrow> if ok then ext_loop sb' st' else Inr (False, sb', st'))
      else Inr (True, sb, st))"
  by pat_completeness auto
termination
  by (relation "measure (\<lambda>(sb, _). length (buffer sb))") (auto dest: ext_kvp_shorter)

declare ext_loop.simps [simp del]

definition ParseExtensions_map :: "'d StreamBuffer \<Rightarrow> ext_state \<Rightarrow> (bool \<times> 'd StreamBuffer \<times> ext_state) result" where
  "ParseExtensions_map sb st =
     bind_result
       (if extension_headers_length st = None then
          bind_result (ReadUintVField sb) (\<lambda>(r, sb').
            case r of
              None \<Rightarrow> Inr (False, sb', st)
            | Some len \<Rightarrow>
                Inr (True, sb', st\<lparr>extension_headers_length := Some (UintVar_Get len),
                                   extension_bytes_remaining := UintVar_Get len\<rparr>))
        else Inr (True, sb, st))
       (\<lambda>(ok, sb1, st1).
         if \<not> ok then Inr (False, sb1, st1)
         else if extension_headers_length st1 = Some 0 then Inr (True, sb1, st1)
         else
           let st2 = (if extensions st1 = None then st1\<lparr>extensions := Some []\<rparr> else st1)
           in ext_loop sb1 st2)"

definition immutable_key :: u64 where
  "immutable_key = ExtensionHeaderType_value ExtensionHeaderType_kImmutable"

text \<open>The full parser also decodes the immutable block into its own map.\<close>

definition ParseExtensions ::
  "'d StreamBuffer \<Rightarrow> ext_state \<Rightarrow> Extensions option \<Rightarrow>
     (bool \<times> 'd StreamBuffer \<times> ext_state \<times> Extensions option) result" where
  "ParseExtensions sb st imm =
     bind_result (ParseExtensions_map sb st) (\<lambda>(ok, sb', st').
       if \<not> ok then Inr (False, sb', st', imm)
       else
         case Option.bind (extensions st') (\<lambda>m. map_find m immutable_key) of
           Some (blob # _) \<Rightarrow>
             bind_result
               (ParseExtensions_map (Push blob (StreamBuffer_new :: unit StreamBuffer))
                  \<lparr>extension_headers_length = Some (of_nat (length blob)), extensions = imm,
                   extension_bytes_remaining = of_nat (length blob), current_header = None\<rparr>)
               (\<lambda>(iok, _, ist).
                 if \<not> iok then Inr (False, sb', st', extensions ist)
                 else if (case extensions ist of None \<Rightarrow> False | Some m \<Rightarrow> map_contains m immutable_key)
                 then Inl (Protocol_Violation ''Immutable Extensions header contains another Immutable Extensions key'')
                 else Inr (True, sb', st', extensions ist))
         | _ \<Rightarrow> Inr (True, sb', st', imm))"

subsection \<open>Writing\<close>

definition kvps_of :: "Extensions \<Rightarrow> KeyValuePair list" where
  "kvps_of exts = concat (map (\<lambda>(key, values). map (\<lambda>v. \<lparr>kvp_type = key, kvp_value = v\<rparr>) values) exts)"

fun sum_sizes :: "KeyValuePair list \<Rightarrow> nat result" where
  "sum_sizes [] = Inr 0"
| "sum_sizes (p # ps) = bind_result (kvp_Size p) (\<lambda>n. bind_result (sum_sizes ps) (\<lambda>m. Inr (n + m)))"

definition put_Extensions :: "bytes \<Rightarrow> Extensions \<Rightarrow> bytes result" where
  "put_Extensions buf exts =
     bind_result (sum_sizes (kvps_of exts)) (\<lambda>total_length.
     bind_result (put_u64 buf (of_nat total_length)) (\<lambda>b. put_all put_kvp b (kvps_of exts)))"

definition put_Extensions_opt :: "bytes \<Rightarrow> Extensions option \<Rightarrow> bytes result" where
  "put_Extensions_opt buf exts = (case exts of None \<Rightarrow> Inr (buf @ [0]) | Some e \<Rightarrow> put_Extensions buf e)"

definition SerializeExtensions :: "bytes \<Rightarrow> Extensions option \<Rightarrow> Extensions option \<Rightarrow> bytes result" where
  "SerializeExtensions buf exts imm =
     (let combined = (case exts of None \<Rightarrow> [] | Some m \<Rightarrow> fold (\<lambda>(k, vs). map_put k vs) m [])
      in case imm of
           Some (e # im) \<Rightarrow>
             if map_contains (e # im) immutable_key
             then Inl (Protocol_Violation ''An immutable extension header must not contain another immutable extension header'')
             else
               bind_result (put_all put_kvp [] (kvps_of (e # im))) (\<lambda>immutable_bytes.
                 put_Extensions buf (push_value immutable_key immutable_bytes combined))
         | _ \<Rightarrow> put_Extensions buf combined)"


subsection \<open>The parser on the octets of a written block\<close>

definition enc_value :: "KeyValuePair \<Rightarrow> bytes" where
  "enc_value p = (if kvp_type p mod 2 = 0 then varint_bytes (of_le_bytes (kvp_value p)) else enc_bytes (kvp_value p))"

definition ext_norm :: "KeyValuePair \<Rightarrow> bytes" where
  "ext_norm p = (if kvp_type p mod 2 = 0 then le_bytes 8 (of_le_bytes (kvp_value p) :: u64) else kvp_value p)"

definition ext_ok :: "KeyValuePair \<Rightarrow> bool" where
  "ext_ok p \<longleftrightarrow> kvp_ok p \<and> (kvp_type p mod 2 \<noteq> 0 \<longrightarrow> length (kvp_value p) < 2 ^ 32)"

definition ext_add :: "KeyValuePair \<Rightarrow> Extensions \<Rightarrow> Extensions" where
  "ext_add p = push_value (kvp_type p) (ext_norm p)"

definition enc_kvps :: "KeyValuePair list \<Rightarrow> bytes" where
  "enc_kvps ps = concat (map enc_kvp ps)"

lemma enc_kvp_split: "enc_kvp p = varint_bytes (kvp_type p) @ enc_value p"
  by (simp add: enc_kvp_def enc_value_def)

lemma enc_kvps_simps [simp]: "enc_kvps [] = []" "enc_kvps (p # ps) = enc_kvp p @ enc_kvps ps"
  by (simp_all add: enc_kvps_def)

lemma enc_value_ne [simp]: "enc_value p \<noteq> []"
  by (simp add: enc_value_def enc_bytes_def)

text \<open>
  The invariant that ties the state of the parser to the octets that are still to be read, whether
  they have arrived or not: they are the encoding of the pairs that are left, followed by the rest
  of the stream, and the counter is the number of octets of those pairs.
\<close>

fun ext_inv :: "ext_state \<Rightarrow> bytes \<Rightarrow> KeyValuePair list \<Rightarrow> bytes \<Rightarrow> bool" where
  "ext_inv st fut ps rest =
     (case current_header st of
        None \<Rightarrow> fut = enc_kvps ps @ rest \<and> extension_bytes_remaining st = of_nat (length (enc_kvps ps))
      | Some t \<Rightarrow> (case ps of [] \<Rightarrow> False | p # ps' \<Rightarrow>
          t = kvp_type p \<and> fut = enc_value p @ enc_kvps ps' @ rest \<and>
          extension_bytes_remaining st = of_nat (length (enc_value p @ enc_kvps ps'))))"

declare ext_inv.simps [simp del]

lemma ext_tag_step:
  assumes "ext_inv st (buffer sb @ c) (p # ps) rest" "ext_ok p" "length (enc_kvps (p # ps)) < 2 ^ 62"
  obtains sb' st' where "ext_tag sb st = Inr (Some (kvp_type p), sb', st')"
      "current_header st' = Some (kvp_type p)" "ext_inv st' (buffer sb' @ c) (p # ps) rest"
      "extensions st' = extensions st" "extension_headers_length st' = extension_headers_length st"
    | "ext_tag sb st = Inr (None, sb, st)" "c \<noteq> []"
proof (cases "current_header st")
  case (Some t)
  then show ?thesis using that(1) [of sb st] assms(1) by (auto simp: ext_tag_def ext_inv.simps)
next
  case None
  have t: "kvp_type p < 2 ^ 62" using assms(2) by (simp add: ext_ok_def kvp_ok_def)
  have fut: "buffer sb @ c = varint_bytes (kvp_type p) @ enc_value p @ enc_kvps ps @ rest"
    and rem: "extension_bytes_remaining st = of_nat (length (enc_kvps (p # ps)))"
    using assms(1) None by (simp_all add: ext_inv.simps enc_kvp_split)
  obtain u where u: "UintVar_Get u = kvp_type p" "UintVar_Size u = length (varint_bytes (kvp_type p))"
    "uintv_field (buffer sb @ c) = Some (u, enc_value p @ enc_kvps ps @ rest)"
    using uintv_field_varint [OF t, of "enc_value p @ enc_kvps ps @ rest"] fut by metis
  from u(3) show ?thesis
  proof (cases rule: uintv.parse_prefix)
    case (1 r)
    then show ?thesis
      using that(1) [of "sb\<lparr>buffer := r\<rparr>" "st\<lparr>extension_bytes_remaining :=
          extension_bytes_remaining st - of_nat (UintVar_Size u), current_header := Some (kvp_type p)\<rparr>"] None u rem
      by (auto simp: ext_tag_def ReadUintVField_def ReadUintV_eq ext_inv.simps enc_kvp_split)
  next
    case 2
    then show ?thesis using that(2) None by (simp add: ext_tag_def ReadUintVField_def ReadUintV_eq)
  qed
qed

lemma ext_value_step:
  assumes "ext_inv st (buffer sb @ c) (p # ps) rest" "ext_ok p" "length (enc_kvps (p # ps)) < 2 ^ 62"
    "current_header st = Some (kvp_type p)"
  obtains sb' st' where "ext_value (kvp_type p) sb st = Inr (True, sb', st')"
      "ext_inv st' (buffer sb' @ c) ps rest" "current_header st' = None"
      "extensions st' = map_option (ext_add p) (extensions st)"
      "extension_headers_length st' = extension_headers_length st"
    | "ext_value (kvp_type p) sb st = Inr (False, sb, st)" "c \<noteq> []"
proof -
  have fut: "buffer sb @ c = enc_value p @ enc_kvps ps @ rest"
    and rem: "extension_bytes_remaining st = of_nat (length (enc_value p @ enc_kvps ps))"
    using assms(1,4) by (simp_all add: ext_inv.simps)
  show ?thesis
  proof (cases "kvp_type p mod 2 = 0")
    case True
    let ?v = "of_le_bytes (kvp_value p) :: u64"
    have v: "?v < 2 ^ 62" using assms(2) True by (simp add: ext_ok_def kvp_ok_def)
    obtain u where u: "UintVar_Get u = ?v" "UintVar_Size u = length (varint_bytes ?v)"
      "uintv_field (buffer sb @ c) = Some (u, enc_kvps ps @ rest)"
      using uintv_field_varint [OF v, of "enc_kvps ps @ rest"] fut True by (auto simp: enc_value_def)
    from u(3) show ?thesis
    proof (cases rule: uintv.parse_prefix)
      case (1 r)
      then show ?thesis
        using that(1) [of "sb\<lparr>buffer := r\<rparr>" "st\<lparr>extension_bytes_remaining :=
            extension_bytes_remaining st - of_nat (UintVar_Size u),
            extensions := map_option (ext_add p) (extensions st), current_header := None\<rparr>"] True u rem
        by (auto simp: ext_value_def ReadUintV_eq ext_inv.simps enc_value_def ext_add_def ext_norm_def)
    next
      case 2
      then show ?thesis using that(2) True by (simp add: ext_value_def ReadUintV_eq)
    qed
  next
    case False
    have len: "length (kvp_value p) < 2 ^ 32" using assms(2) False by (simp add: ext_ok_def)
    have "bytes_field (buffer sb @ c) = Some (kvp_value p, enc_kvps ps @ rest)"
      using bytes_field_enc [OF len, of "enc_kvps ps @ rest"] fut False by (simp add: enc_value_def enc_bytes_def)
    then show ?thesis
    proof (cases rule: bytes_f.parse_prefix)
      case (1 r)
      have "(of_nat (length (kvp_value p)) :: u64) < 2 ^ 62" using size_as_u64 len by simp
      then obtain n where n: "UintVar_of_value (of_nat (length (kvp_value p))) = Inr n"
        "UintVar_Size n = length (varint_bytes (of_nat (length (kvp_value p))))"
        using uintv_field_varint by metis
      show ?thesis
        using that(1) [of "sb\<lparr>buffer := r\<rparr>" "st\<lparr>extension_bytes_remaining :=
            extension_bytes_remaining st - (of_nat (length (kvp_value p)) + of_nat (UintVar_Size n)),
            extensions := map_option (ext_add p) (extensions st), current_header := None\<rparr>"] False 1 n rem
        by (auto simp: ext_value_def ParseBytesField_def DecodeBytes_eq ext_inv.simps enc_value_def enc_bytes_def
            ext_add_def ext_norm_def)
    next
      case 2
      then show ?thesis using that(2) False by (simp add: ext_value_def ParseBytesField_def DecodeBytes_eq)
    qed
  qed
qed


text \<open>The loop on a prefix of the octets: done with every pair stored and the rest left, or waiting
  with the invariant re-established, which only happens while octets are outstanding.\<close>

definition ext_progress ::
  "'d StreamBuffer \<Rightarrow> ext_state \<Rightarrow> bytes \<Rightarrow> KeyValuePair list \<Rightarrow> bytes \<Rightarrow>
     (bool \<times> 'd StreamBuffer \<times> ext_state) result \<Rightarrow> bool" where
  "ext_progress sb st c ps rest r \<longleftrightarrow>
     (\<exists>ok sb' st'. r = Inr (ok, sb', st') \<and>
        parsed_data sb' = parsed_data sb \<and> parsed_dataB sb' = parsed_dataB sb \<and>
        parsed_data_type sb' = parsed_data_type sb \<and>
        extension_headers_length st' = extension_headers_length st \<and>
        (if ok then buffer sb' @ c = rest \<and> extensions st' = map_option (fold ext_add ps) (extensions st) \<and>
              extension_bytes_remaining st' = 0 \<and> current_header st' = None
         else c \<noteq> [] \<and> (\<exists>pre post. ps = pre @ post \<and> ext_inv st' (buffer sb' @ c) post rest \<and>
              extensions st' = map_option (fold ext_add pre) (extensions st) \<and>
              extension_bytes_remaining st' > 0)))"

lemma ext_progress_doneI:
  assumes "r = Inr (True, sb', st')" "parsed_data sb' = parsed_data sb" "parsed_dataB sb' = parsed_dataB sb"
    "parsed_data_type sb' = parsed_data_type sb" "extension_headers_length st' = extension_headers_length st"
    "buffer sb' @ c = rest" "extensions st' = map_option (fold ext_add ps) (extensions st)"
    "extension_bytes_remaining st' = 0" "current_header st' = None"
  shows "ext_progress sb st c ps rest r"
  unfolding ext_progress_def using assms by (intro exI [of _ True] exI [of _ sb'] exI [of _ st']) simp

lemma ext_progress_waitI:
  assumes "r = Inr (False, sb', st')" "parsed_data sb' = parsed_data sb" "parsed_dataB sb' = parsed_dataB sb"
    "parsed_data_type sb' = parsed_data_type sb" "extension_headers_length st' = extension_headers_length st"
    "c \<noteq> []" "ps = pre @ post" "ext_inv st' (buffer sb' @ c) post rest"
    "extensions st' = map_option (fold ext_add pre) (extensions st)" "extension_bytes_remaining st' > 0"
  shows "ext_progress sb st c ps rest r"
  unfolding ext_progress_def using assms by (intro exI [of _ False] exI [of _ sb'] exI [of _ st']) auto

lemma ext_progress_cases:
  assumes "ext_progress sb st c ps rest r"
  obtains sb' st' where "r = Inr (True, sb', st')" "parsed_data sb' = parsed_data sb"
      "parsed_dataB sb' = parsed_dataB sb" "parsed_data_type sb' = parsed_data_type sb"
      "extension_headers_length st' = extension_headers_length st" "buffer sb' @ c = rest"
      "extensions st' = map_option (fold ext_add ps) (extensions st)"
      "extension_bytes_remaining st' = 0" "current_header st' = None"
    | sb' st' pre post where "r = Inr (False, sb', st')" "parsed_data sb' = parsed_data sb"
      "parsed_dataB sb' = parsed_dataB sb" "parsed_data_type sb' = parsed_data_type sb"
      "extension_headers_length st' = extension_headers_length st" "c \<noteq> []" "ps = pre @ post"
      "ext_inv st' (buffer sb' @ c) post rest"
      "extensions st' = map_option (fold ext_add pre) (extensions st)" "extension_bytes_remaining st' > 0"
  using assms unfolding ext_progress_def by (auto split: if_splits)

lemma ext_progress_Cons:
  assumes "ext_progress sb2 st2 c ps rest r" "extensions st2 = map_option (ext_add p) (extensions st)"
    "parsed_data sb2 = parsed_data sb" "parsed_dataB sb2 = parsed_dataB sb"
    "parsed_data_type sb2 = parsed_data_type sb" "extension_headers_length st2 = extension_headers_length st"
  shows "ext_progress sb st c (p # ps) rest r"
  using assms(1)
proof (cases rule: ext_progress_cases)
  case (1 sb' st')
  show ?thesis by (rule ext_progress_doneI) (use 1 assms(2-) in \<open>simp_all add: option.map_comp comp_def\<close>)
next
  case (2 sb' st' pre post)
  show ?thesis
    by (rule ext_progress_waitI [where pre = "p # pre"])
      (use 2 assms(2-) in \<open>simp_all add: option.map_comp comp_def\<close>)
qed

lemma rem_positive:
  assumes "ext_inv st fut (p # ps) rest" "length (enc_kvps (p # ps)) < 2 ^ 62"
  shows "extension_bytes_remaining st > 0"
proof -
  have "0 < (of_nat n :: u64)" if "0 < n" "n < 2 ^ 62" for n
    using size_as_u64 [OF that(2)] that(1) by (simp add: word_less_nat_alt)
  then show ?thesis
    using assms by (cases "current_header st") (auto simp: ext_inv.simps enc_kvp_split simp flip: of_nat_add)
qed

lemma ext_loop_progress:
  assumes "ext_inv st (buffer sb @ c) ps rest" "list_all ext_ok ps" "length (enc_kvps ps) < 2 ^ 62"
  shows "ext_progress sb st c ps rest (ext_loop sb st)"
  using assms
proof (induction ps arbitrary: sb st)
  case Nil
  then have "current_header st = None" "extension_bytes_remaining st = 0" "buffer sb @ c = rest"
    by (auto simp: ext_inv.simps split: option.splits)
  then show ?case
    by (intro ext_progress_doneI [of _ sb st]) (simp_all add: ext_loop.simps [of sb st] option.map_id)
next
  case (Cons p ps)
  have ok: "ext_ok p" "list_all ext_ok ps" and len: "length (enc_kvps ps) < 2 ^ 62"
    using Cons.prems(2,3) by simp_all
  note pos = rem_positive [OF Cons.prems(1,3)]
  from ext_tag_step [OF Cons.prems(1) ok(1) Cons.prems(3)] show ?case
  proof cases
    case (1 sb1 st1)
    have same: "parsed_data sb1 = parsed_data sb" "parsed_dataB sb1 = parsed_dataB sb"
      "parsed_data_type sb1 = parsed_data_type sb"
      using 1(1) by (auto simp: ext_tag_def ReadUintVField_def ReadUintV_eq split: option.splits)
    note pos1 = rem_positive [OF 1(3) Cons.prems(3)]
    from ext_value_step [OF 1(3) ok(1) Cons.prems(3) 1(2)] show ?thesis
    proof cases
      case (1 sb2 st2)
      have same2: "parsed_data sb2 = parsed_data sb1" "parsed_dataB sb2 = parsed_dataB sb1"
        "parsed_data_type sb2 = parsed_data_type sb1"
        using 1(1) by (auto simp: ext_value_def ParseBytesField_def ReadUintV_eq DecodeBytes_eq bind_result_Inr_iff
            split: option.splits if_splits)
      have kvp: "ext_kvp sb st = Inr (True, sb2, st2)"
        using \<open>ext_tag sb st = _\<close> 1(1) by (simp add: ext_kvp_def)
      have "ext_progress sb2 st2 c ps rest (ext_loop sb2 st2)"
        using Cons.IH [OF 1(2) ok(2) len] .
      then have "ext_progress sb st c (p # ps) rest (ext_loop sb2 st2)"
        by (rule ext_progress_Cons)
          (use 1 \<open>extensions st1 = _\<close> \<open>extension_headers_length st1 = _\<close> same same2 in simp_all)
      then show ?thesis using pos kvp by (subst ext_loop.simps) simp
    next
      case 2
      have kvp: "ext_kvp sb st = Inr (False, sb1, st1)"
        using \<open>ext_tag sb st = _\<close> 2(1) by (simp add: ext_kvp_def)
      then have "ext_loop sb st = Inr (False, sb1, st1)" using pos by (subst ext_loop.simps) simp
      then show ?thesis
        by (rule ext_progress_waitI [where pre = "[]"]) (use 1 2 same pos1 in \<open>simp_all add: option.map_id\<close>)
    qed
  next
    case 2
    have "ext_loop sb st = Inr (False, sb, st)"
      using pos 2 by (subst ext_loop.simps) (simp add: ext_kvp_def)
    then show ?thesis
      by (rule ext_progress_waitI [where pre = "[]"]) (use 2 Cons.prems(1) pos in \<open>simp_all add: option.map_id\<close>)
  qed
qed

subsection \<open>What a map becomes on the wire\<close>

text \<open>The map a receiver builds from the pairs of \<open>m\<close>: keys without values vanish, and the values
  of even keys come back as the eight octets of the number they hold.\<close>

definition norm_value :: "u64 \<Rightarrow> bytes \<Rightarrow> bytes" where
  "norm_value k v = (if k mod 2 = 0 then le_bytes 8 (of_le_bytes v :: u64) else v)"

definition ext_normal :: "Extensions \<Rightarrow> Extensions" where
  "ext_normal m = map (\<lambda>(k, vs). (k, map (norm_value k) vs)) (filter (\<lambda>(k, vs). vs \<noteq> []) m)"

lemma ext_norm_kvp: "ext_norm \<lparr>kvp_type = k, kvp_value = v\<rparr> = norm_value k v"
  by (simp add: ext_norm_def norm_value_def)

lemma kvps_of_simps [simp]:
  "kvps_of [] = []"
  "kvps_of ((k, vs) # m) = map (\<lambda>v. \<lparr>kvp_type = k, kvp_value = v\<rparr>) vs @ kvps_of m"
  by (simp_all add: kvps_of_def)

lemma ext_normal_simps [simp]:
  "ext_normal [] = []"
  "ext_normal ((k, vs) # m) = (if vs = [] then ext_normal m else (k, map (norm_value k) vs) # ext_normal m)"
  by (simp_all add: ext_normal_def)

lemma kvps_of_empty_iff: "kvps_of m = [] \<longleftrightarrow> ext_normal m = []"
  by (induction m) (auto split: if_splits)

lemma map_at_last: "map_wf (m @ [(k, vs)]) \<Longrightarrow> map_at [] (m @ [(k, vs)]) k = vs"
  by (induction m) (auto simp: map_at_def map_wf_def)

lemma map_put_last: "map_wf (m @ [(k, vs)]) \<Longrightarrow> map_put k ws (m @ [(k, vs)]) = m @ [(k, ws)]"
  by (induction m) (auto simp: map_wf_def)

lemma fold_ext_add_key:
  "map_wf (m @ [(k, vs)]) \<Longrightarrow>
     fold ext_add (map (\<lambda>v. \<lparr>kvp_type = k, kvp_value = v\<rparr>) ws) (m @ [(k, vs)]) =
       m @ [(k, vs @ map (norm_value k) ws)]"
proof (induction ws arbitrary: vs)
  case (Cons w ws)
  have "map_wf (m @ [(k, vs @ [norm_value k w])])" using Cons.prems by (simp add: map_wf_def)
  from Cons.IH [OF this] show ?case
    using map_at_last [OF Cons.prems] map_put_last [OF Cons.prems]
    by (simp add: ext_add_def push_value_def ext_norm_kvp)
qed simp

lemma map_wf_drop_mid: "map_wf (a @ b # m) \<Longrightarrow> map_wf (a @ m)"
  by (auto simp: map_wf_def sorted_wrt_append)

lemma fold_ext_add_kvps:
  "map_wf (acc @ m) \<Longrightarrow> fold ext_add (kvps_of m) acc = acc @ ext_normal m"
proof (induction m arbitrary: acc)
  case (Cons p m)
  obtain k vs where p: "p = (k, vs)" by (cases p)
  show ?case
  proof (cases vs)
    case Nil
    then show ?thesis using Cons.IH [of acc] map_wf_drop_mid [OF Cons.prems] p by simp
  next
    case (Cons v ws)
    let ?e = "(k, [norm_value k v])"
    have wf: "map_wf (acc @ [?e])" "map_wf ((acc @ [(k, map (norm_value k) vs)]) @ m)"
      using Cons.prems p by (auto simp: map_wf_def sorted_wrt_append)
    have no: "map_at [] acc k = []"
      using wf(1) by (fastforce simp: map_at_def map_wf_def sorted_wrt_append split: option.splits dest: map_of_SomeD)
    have "ext_add \<lparr>kvp_type = k, kvp_value = v\<rparr> acc = acc @ [?e]"
      using no map_put_append [OF wf(1)] by (simp add: ext_add_def push_value_def ext_norm_kvp)
    then show ?thesis
      using fold_ext_add_key [OF wf(1), of ws] Cons.IH [OF wf(2)] p Cons by simp
  qed
qed simp

corollary fold_ext_add_normal: "map_wf m \<Longrightarrow> fold ext_add (kvps_of m) [] = ext_normal m"
  using fold_ext_add_kvps [of "[]" m] by simp

lemma ext_normal_wf: "map_wf m \<Longrightarrow> map_wf (ext_normal m)"
  by (induction m) (auto simp: map_wf_def ext_normal_def)

lemma ext_normal_find: "map_wf m \<Longrightarrow> map_find (ext_normal m) k =
    (case map_find m k of None \<Rightarrow> None | Some vs \<Rightarrow> if vs = [] then None else Some (map (norm_value k) vs))"
proof (induction m)
  case (Cons p m)
  then have "map_find m (fst p) = None" "map_wf m" by (force simp: map_wf_def map_of_eq_None_iff)+
  then show ?case using Cons.IH by (cases p) (auto split: option.splits)
qed simp

lemma fold_map_put:
  assumes "map_wf m" shows "fold (\<lambda>(k, vs). map_put k vs) m [] = m"
proof (rule map_wf_eqI [OF _ assms])
  have "map_wf (fold (\<lambda>(k, vs). map_put k vs) l acc)" if "map_wf acc" for l and acc :: "('a, 'b) std_map"
    using that by (induction l arbitrary: acc) (auto simp: map_put_wf)
  then show "map_wf (fold (\<lambda>(k, vs). map_put k vs) m [])" by (simp add: map_wf_def)
  show "map_of (fold (\<lambda>(k, vs). map_put k vs) m []) = map_of m"
    using std_map.lookup_fold_update [OF std_map.invar_empty map_wf_distinct [OF assms]]
    by (intro ext) (auto split: option.splits)
qed

subsection \<open>The whole block\<close>

definition ext_block :: "KeyValuePair list \<Rightarrow> bytes" where
  "ext_block ps = varint_bytes (of_nat (length (enc_kvps ps))) @ enc_kvps ps"

definition ext_map :: "KeyValuePair list \<Rightarrow> Extensions option" where
  "ext_map ps = (if ps = [] then None else Some (fold ext_add ps []))"

definition ext_init :: ext_state where
  "ext_init = \<lparr>extension_headers_length = None, extensions = None, extension_bytes_remaining = 0,
     current_header = None\<rparr>"

definition ext_done :: "KeyValuePair list \<Rightarrow> ext_state" where
  "ext_done ps = \<lparr>extension_headers_length = Some (of_nat (length (enc_kvps ps))), extensions = ext_map ps,
     extension_bytes_remaining = 0, current_header = None\<rparr>"

definition ps_ok :: "KeyValuePair list \<Rightarrow> bool" where
  "ps_ok ps \<longleftrightarrow> list_all ext_ok ps \<and> length (enc_kvps ps) < 2 ^ 62"

text \<open>The state of the parser in the middle of the block of \<open>ps\<close>, when the octets to come, arrived or
  not, are \<open>fut\<close>.\<close>

definition block_inv :: "ext_state \<Rightarrow> bytes \<Rightarrow> KeyValuePair list \<Rightarrow> bytes \<Rightarrow> bool" where
  "block_inv st fut ps rest \<longleftrightarrow>
     (case extension_headers_length st of
        None \<Rightarrow> st = ext_init\<lparr>extension_bytes_remaining := extension_bytes_remaining st\<rparr> \<and> fut = ext_block ps @ rest
      | Some n \<Rightarrow> n = of_nat (length (enc_kvps ps)) \<and> ps \<noteq> [] \<and>
          (\<exists>pre post. ps = pre @ post \<and> ext_inv st fut post rest \<and> extensions st = Some (fold ext_add pre [])))"

lemma block_inv_init: "block_inv ext_init (ext_block ps @ rest) ps rest"
  by (simp add: block_inv_def ext_init_def)

lemma enc_kvps_append [simp]: "enc_kvps (ps @ qs) = enc_kvps ps @ enc_kvps qs"
  by (simp add: enc_kvps_def)

lemma enc_kvps_ne [simp]: "enc_kvps ps = [] \<longleftrightarrow> ps = []"
  by (cases ps) (auto simp: enc_kvp_split)

lemma block_len:
  assumes "ps_ok ps"
  shows "(of_nat (length (enc_kvps ps)) :: u64) < 2 ^ 62" "(of_nat (length (enc_kvps ps)) :: u64) = 0 \<longleftrightarrow> ps = []"
  using size_as_u64 [of "length (enc_kvps ps)"] assms by (auto simp: ps_ok_def)

text \<open>The parser of the block, stopped anywhere: it is done, with the map of the pairs and the rest
  of the stream left, or it waits with the invariant kept.\<close>

definition block_progress ::
  "'d StreamBuffer \<Rightarrow> bytes \<Rightarrow> KeyValuePair list \<Rightarrow> bytes \<Rightarrow> (bool \<times> 'd StreamBuffer \<times> ext_state) result \<Rightarrow> bool" where
  "block_progress sb c ps rest r \<longleftrightarrow>
     (\<exists>ok sb' st'. r = Inr (ok, sb', st') \<and> sb' = sb\<lparr>buffer := buffer sb'\<rparr> \<and>
        (if ok then buffer sb' @ c = rest \<and> st' = ext_done ps else c \<noteq> [] \<and> block_inv st' (buffer sb' @ c) ps rest))"

lemma sb_same_eqI:
  fixes sb :: "'d StreamBuffer"
  assumes "parsed_data sb' = parsed_data sb" "parsed_dataB sb' = parsed_dataB sb"
    "parsed_data_type sb' = parsed_data_type sb"
  shows "sb' = sb\<lparr>buffer := buffer sb'\<rparr>"
  using assms by (cases sb, cases sb') simp

lemma block_loop:
  assumes "ps_ok ps" "ps = pre @ post" "ps \<noteq> []" "ext_inv st (buffer sb @ c) post rest"
    "extensions st = Some (fold ext_add pre [])" "extension_headers_length st = Some (of_nat (length (enc_kvps ps)))"
  shows "block_progress sb c ps rest (ext_loop sb st)"
proof -
  have "ext_progress sb st c post rest (ext_loop sb st)"
    by (rule ext_loop_progress [OF assms(4)]) (use assms(1,2) in \<open>simp_all add: ps_ok_def\<close>)
  then show ?thesis
  proof (cases rule: ext_progress_cases)
    case (1 sb' st')
    have "st' = ext_done ps" using 1 assms by (cases st') (simp add: ext_done_def ext_map_def)
    then show ?thesis using 1 sb_same_eqI [of sb' sb] by (auto simp: block_progress_def)
  next
    case (2 sb' st' pre' post')
    have "block_inv st' (buffer sb' @ c) ps rest"
      unfolding block_inv_def using 2 assms(2,3,5,6)
      by (simp del: enc_kvps_append) (rule exI [of _ "pre @ pre'"], simp)
    then show ?thesis using 2 sb_same_eqI [of sb' sb] by (auto simp: block_progress_def)
  qed
qed

lemma ParseExtensions_map_progress:
  assumes ok: "ps_ok ps" and inv: "block_inv st (buffer sb @ c) ps rest"
  shows "block_progress sb c ps rest (ParseExtensions_map sb st)"
proof (cases "extension_headers_length st")
  case (Some n)
  then obtain pre post where "ps = pre @ post" "ps \<noteq> []" "ext_inv st (buffer sb @ c) post rest"
    "extensions st = Some (fold ext_add pre [])" "n = of_nat (length (enc_kvps ps))"
    using inv by (auto simp: block_inv_def)
  then show ?thesis using block_loop [OF ok, of pre post st sb c rest] Some block_len(2) [OF ok]
    by (auto simp: ParseExtensions_map_def)
next
  case None
  let ?n = "of_nat (length (enc_kvps ps)) :: u64"
  have st: "st = ext_init\<lparr>extension_bytes_remaining := extension_bytes_remaining st\<rparr>"
    and fut: "buffer sb @ c = varint_bytes ?n @ enc_kvps ps @ rest"
    using inv None by (simp_all add: block_inv_def ext_block_def)
  obtain u where u: "UintVar_Get u = ?n" "uintv_field (buffer sb @ c) = Some (u, enc_kvps ps @ rest)"
    using uintv_field_varint [OF block_len(1) [OF ok], of "enc_kvps ps @ rest"] fut by metis
  from u(2) show ?thesis
  proof (cases rule: uintv.parse_prefix)
    case (1 r)
    let ?sb = "sb\<lparr>buffer := r\<rparr>"
    let ?st = "ext_init\<lparr>extension_headers_length := Some ?n, extension_bytes_remaining := ?n\<rparr>"
    show ?thesis
    proof (cases "ps = []")
      case True
      then have "ParseExtensions_map sb st = Inr (True, ?sb, ext_done ps)"
        using 1 u None by (subst st)
          (simp add: ParseExtensions_map_def ReadUintVField_def ReadUintV_eq ext_init_def ext_done_def ext_map_def)
      then show ?thesis using 1 True by (auto simp: block_progress_def)
    next
      case False
      let ?st2 = "?st\<lparr>extensions := Some []\<rparr>"
      have "ParseExtensions_map sb st = ext_loop ?sb ?st2"
        using 1 u None False block_len(2) [OF ok] by (subst st)
          (simp add: ParseExtensions_map_def ReadUintVField_def ReadUintV_eq ext_init_def)
      moreover have "block_progress ?sb c ps rest (ext_loop ?sb ?st2)"
        by (rule block_loop [OF ok, of "[]" ps]) (use 1 False in \<open>simp_all add: ext_inv.simps ext_init_def\<close>)
      ultimately show ?thesis by (auto simp: block_progress_def)
    qed
  next
    case 2
    have "ParseExtensions_map sb st = Inr (False, sb, st)"
      using 2 None by (simp add: ParseExtensions_map_def ReadUintVField_def ReadUintV_eq)
    then show ?thesis using inv 2 by (auto simp: block_progress_def)
  qed
qed

text \<open>The immutable map that belongs to the pairs \<open>ps\<close>: when there is an immutable block, its first
  value has to be the encoding of the pairs \<open>qs\<close>.\<close>

definition imm_of :: "KeyValuePair list \<Rightarrow> KeyValuePair list \<Rightarrow> bool" where
  "imm_of ps qs \<longleftrightarrow>
     (case Option.bind (ext_map ps) (\<lambda>m. map_find m immutable_key) of
        Some (blob # _) \<Rightarrow> blob = enc_kvps qs \<and> ps_ok qs \<and> immutable_key \<notin> kvp_type ` set qs
      | _ \<Rightarrow> qs = [])"

definition full_progress ::
  "'d StreamBuffer \<Rightarrow> bytes \<Rightarrow> KeyValuePair list \<Rightarrow> KeyValuePair list \<Rightarrow> bytes \<Rightarrow>
     (bool \<times> 'd StreamBuffer \<times> ext_state \<times> Extensions option) result \<Rightarrow> bool" where
  "full_progress sb c ps qs rest r \<longleftrightarrow>
     (\<exists>ok sb' st' imm. r = Inr (ok, sb', st', imm) \<and> sb' = sb\<lparr>buffer := buffer sb'\<rparr> \<and>
        (if ok then buffer sb' @ c = rest \<and> st' = ext_done ps \<and> imm = ext_map qs
         else c \<noteq> [] \<and> block_inv st' (buffer sb' @ c) ps rest \<and> imm = None))"

lemma full_progress_cases [consumes 1, case_names complete waiting]:
  assumes "full_progress sb c ps qs rest r"
  obtains b where "r = Inr (True, sb\<lparr>buffer := b\<rparr>, ext_done ps, ext_map qs)" "b @ c = rest"
    | b st' where "r = Inr (False, sb\<lparr>buffer := b\<rparr>, st', None)" "c \<noteq> []" "block_inv st' (b @ c) ps rest"
  using assms unfolding full_progress_def by (auto split: if_splits)

lemma fold_ext_add_keys: "fst ` set (fold ext_add qs m) = kvp_type ` set qs \<union> fst ` set m"
  by (induction qs arbitrary: m) (auto simp: ext_add_def push_value_def map_put_keys)

lemma immutable_blob:
  assumes "ps_ok qs"
  shows "ParseExtensions_map (Push (enc_kvps qs) (StreamBuffer_new :: unit StreamBuffer))
     \<lparr>extension_headers_length = Some (of_nat (length (enc_kvps qs))), extensions = None,
      extension_bytes_remaining = of_nat (length (enc_kvps qs)), current_header = None\<rparr> =
     Inr (True, StreamBuffer_new, ext_done qs)"
proof (cases "qs = []")
  case True
  then show ?thesis
    by (simp add: ParseExtensions_map_def ext_done_def ext_map_def Push_def PushInternal_def StreamBuffer_new_def)
next
  case False
  let ?sb = "Push (enc_kvps qs) StreamBuffer_new :: unit StreamBuffer"
  let ?st = "\<lparr>extension_headers_length = Some (of_nat (length (enc_kvps qs))), extensions = Some [],
      extension_bytes_remaining = of_nat (length (enc_kvps qs)), current_header = None\<rparr>"
  have "block_progress ?sb [] qs [] (ext_loop ?sb ?st)"
    by (rule block_loop [OF assms, of "[]" qs])
      (use False in \<open>simp_all add: ext_inv.simps Push_def PushInternal_def StreamBuffer_new_def\<close>)
  then have "ext_loop ?sb ?st = Inr (True, StreamBuffer_new, ext_done qs)"
    by (auto simp: block_progress_def Push_def PushInternal_def StreamBuffer_new_def split: if_splits)
  then show ?thesis using False block_len(2) [OF assms] by (simp add: ParseExtensions_map_def)
qed

lemma ParseExtensions_progress:
  assumes ok: "ps_ok ps" and inv: "block_inv st (buffer sb @ c) ps rest" and imm: "imm_of ps qs"
  shows "full_progress sb c ps qs rest (ParseExtensions sb st None)"
proof -
  obtain ok sb' st' where r: "ParseExtensions_map sb st = Inr (ok, sb', st')" "sb' = sb\<lparr>buffer := buffer sb'\<rparr>"
    and cs: "if ok then buffer sb' @ c = rest \<and> st' = ext_done ps else c \<noteq> [] \<and> block_inv st' (buffer sb' @ c) ps rest"
    using ParseExtensions_map_progress [OF ok inv] unfolding block_progress_def by blast
  show ?thesis
  proof (cases ok)
    case False
    then show ?thesis using r cs by (auto simp: full_progress_def ParseExtensions_def)
  next
    case True
    then have st': "st' = ext_done ps" and rest: "buffer sb' @ c = rest" using cs by simp_all
    let ?blob = "Option.bind (ext_map ps) (\<lambda>m. map_find m immutable_key)"
    have "ParseExtensions sb st None = Inr (True, sb', ext_done ps, ext_map qs)"
    proof (cases "\<exists>blob bs. ?blob = Some (blob # bs)")
      case True
      then obtain blob bs where b: "?blob = Some (blob # bs)" by blast
      then have q: "blob = enc_kvps qs" "ps_ok qs" "immutable_key \<notin> kvp_type ` set qs"
        using imm by (simp_all add: imm_of_def)
      have "\<not> (case ext_map qs of None \<Rightarrow> False | Some m \<Rightarrow> map_contains m immutable_key)"
        using q(3) fold_ext_add_keys [of qs "[]"] by (auto simp: ext_map_def map_contains_def map_of_eq_None_iff)
      moreover have "extensions (ext_done ps) = ext_map ps" "extensions (ext_done qs) = ext_map qs"
        by (simp_all add: ext_done_def)
      ultimately show ?thesis
        using r(1) \<open>ok\<close> st' b q(1) immutable_blob [OF q(2)] by (simp add: ParseExtensions_def)
    next
      case False
      then have "(case ?blob of Some (blob # bs) \<Rightarrow> f blob | _ \<Rightarrow> d) = d" for f and d :: 'z
        by (auto split: option.splits list.splits)
      moreover from False have "qs = []" using imm by (auto simp: imm_of_def split: option.splits list.splits)
      moreover have "extensions (ext_done ps) = ext_map ps" by (simp add: ext_done_def)
      ultimately show ?thesis using r(1) \<open>ok\<close> st'
        by (simp add: ParseExtensions_def ext_map_def [of "[]"])
    qed
    then show ?thesis using r(2) rest by (auto simp: full_progress_def)
  qed
qed

subsection \<open>Writing and reading back\<close>

lemma put_all_kvp: "list_all kvp_ok ps \<Longrightarrow> put_all put_kvp buf ps = Inr (buf @ enc_kvps ps)"
  by (induction ps arbitrary: buf) (simp_all add: kvp_put)

lemma sum_sizes_ok: "list_all kvp_ok ps \<Longrightarrow> sum_sizes ps = Inr (length (enc_kvps ps))"
  by (induction ps) (simp_all add: kvp_Size_put kvp_put)

lemma put_Extensions_ok:
  assumes "ps_ok (kvps_of m)"
  shows "put_Extensions buf m = Inr (buf @ ext_block (kvps_of m))"
proof -
  have "list_all kvp_ok (kvps_of m)" using assms by (simp add: ps_ok_def ext_ok_def list_all_iff)
  then show ?thesis using block_len(1) [OF assms]
    by (simp add: put_Extensions_def sum_sizes_ok put_all_kvp codec_simps ext_block_def)
qed

text \<open>The pairs an object with the given maps puts on the wire.\<close>

definition wire_map :: "Extensions option \<Rightarrow> Extensions option \<Rightarrow> Extensions" where
  "wire_map exts imm =
     (let m = (case exts of None \<Rightarrow> [] | Some m \<Rightarrow> m)
      in case imm of Some (e # im) \<Rightarrow> map_put immutable_key [enc_kvps (kvps_of (e # im))] m | _ \<Rightarrow> m)"

definition exts_ok :: "Extensions option \<Rightarrow> Extensions option \<Rightarrow> bool" where
  "exts_ok exts imm \<longleftrightarrow>
     (\<forall>m \<in> set_option exts. map_wf m \<and> \<not> map_contains m immutable_key) \<and>
     (\<forall>m \<in> set_option imm. map_wf m \<and> \<not> map_contains m immutable_key \<and> ps_ok (kvps_of m)) \<and>
     ps_ok (kvps_of (wire_map exts imm))"

text \<open>The maps a receiver of such an object ends up with.\<close>

definition recv_exts :: "Extensions option \<Rightarrow> Extensions option \<Rightarrow> Extensions option" where
  "recv_exts exts imm = (let m = ext_normal (wire_map exts imm) in if m = [] then None else Some m)"

definition recv_imm :: "Extensions option \<Rightarrow> Extensions option" where
  "recv_imm imm = (case imm of None \<Rightarrow> None | Some im \<Rightarrow> if ext_normal im = [] then None else Some (ext_normal im))"

lemma kvps_of_keys: "kvp_type ` set (kvps_of m) \<subseteq> fst ` set m"
  by (force simp: kvps_of_def)

lemma wire_map_wf:
  assumes "exts_ok exts imm" shows "map_wf (wire_map exts imm)"
  using assms by (auto simp: exts_ok_def wire_map_def Let_def
      split: option.splits list.splits intro!: map_put_wf)

lemma ext_map_kvps: "map_wf m \<Longrightarrow> ext_map (kvps_of m) = (if ext_normal m = [] then None else Some (ext_normal m))"
  by (simp add: ext_map_def kvps_of_empty_iff fold_ext_add_normal)

lemma SerializeExtensions_ok:
  assumes "exts_ok exts imm"
  shows "SerializeExtensions buf exts imm = Inr (buf @ ext_block (kvps_of (wire_map exts imm)))"
proof -
  define m where "m = (case exts of None \<Rightarrow> [] | Some m \<Rightarrow> m)"
  have wf: "map_wf m" "\<not> map_contains m immutable_key"
    using assms by (auto simp: m_def exts_ok_def map_wf_def map_contains_def split: option.splits)
  have comb: "(case exts of None \<Rightarrow> [] | Some m \<Rightarrow> fold (\<lambda>(k, vs). map_put k vs) m []) = m"
    using fold_map_put [OF wf(1)] by (simp add: m_def split: option.splits)
  have w: "ps_ok (kvps_of (wire_map exts imm))" using assms by (simp add: exts_ok_def)
  show ?thesis
  proof (cases "\<exists>e im. imm = Some (e # im)")
    case True
    then obtain e im where imm: "imm = Some (e # im)" by blast
    then have i: "\<not> map_contains (e # im) immutable_key" "list_all kvp_ok (kvps_of (e # im))"
      using assms by (auto simp: exts_ok_def ps_ok_def ext_ok_def list_all_iff)
    have "push_value immutable_key (enc_kvps (kvps_of (e # im))) m = wire_map exts imm"
      using wf(2) imm by (simp add: push_value_def wire_map_def m_def map_at_def map_contains_def)
    then show ?thesis
      using imm i comb put_Extensions_ok [OF w] put_all_kvp [OF i(2), of "[]"] by (simp add: SerializeExtensions_def)
  next
    case False
    then have "wire_map exts imm = m"
      and "(case imm of Some (e # im) \<Rightarrow> f e im | _ \<Rightarrow> d) = d" for f and d :: "bytes result"
      by (auto simp: wire_map_def m_def split: option.splits list.splits)
    then show ?thesis using comb put_Extensions_ok [OF w] by (simp add: SerializeExtensions_def)
  qed
qed

lemma imm_of_wire:
  assumes "exts_ok exts imm"
  shows "imm_of (kvps_of (wire_map exts imm)) (case imm of None \<Rightarrow> [] | Some im \<Rightarrow> kvps_of im)"
proof -
  note wf = wire_map_wf [OF assms]
  have find: "Option.bind (ext_map (kvps_of (wire_map exts imm))) (\<lambda>m. map_find m immutable_key) =
      (case map_find (wire_map exts imm) immutable_key of None \<Rightarrow> None
       | Some vs \<Rightarrow> if vs = [] then None else Some (map (norm_value immutable_key) vs))"
    using ext_normal_find [OF wf, of immutable_key] by (auto simp: ext_map_kvps [OF wf] split: option.splits if_splits)
  have odd: "norm_value immutable_key v = v" for v by (simp add: norm_value_def immutable_key_def)
  show ?thesis
  proof (cases "\<exists>e im. imm = Some (e # im)")
    case True
    then obtain e im where imm: "imm = Some (e # im)" by blast
    let ?m = "case exts of None \<Rightarrow> [] | Some m \<Rightarrow> m"
    have "map_wf ?m" using assms by (auto simp: exts_ok_def map_wf_def split: option.splits)
    then have "map_find (wire_map exts imm) immutable_key = Some [enc_kvps (kvps_of (e # im))]"
      using imm by (simp add: wire_map_def map_put_find)
    moreover have "immutable_key \<notin> kvp_type ` set (kvps_of (e # im))" "ps_ok (kvps_of (e # im))"
      using assms imm kvps_of_keys [of "e # im"]
      by (auto simp: exts_ok_def map_contains_iff simp del: kvps_of_simps)
    ultimately show ?thesis using find imm odd by (simp add: imm_of_def)
  next
    case False
    then have "imm = None \<or> imm = Some []" by (metis list.exhaust option.exhaust)
    then have "wire_map exts imm = (case exts of None \<Rightarrow> [] | Some m \<Rightarrow> m)"
      "(case imm of None \<Rightarrow> [] | Some im \<Rightarrow> kvps_of im) = []"
      by (auto simp: wire_map_def)
    moreover from this have "map_find (wire_map exts imm) immutable_key = None"
      using assms by (auto simp: exts_ok_def map_contains_def split: option.splits)
    ultimately show ?thesis using find by (simp add: imm_of_def)
  qed
qed

text \<open>The parser of the extensions is an incremental parser; its state is the pair of the fields
  passed by reference and the immutable map.\<close>

abbreviation parse_exts :: "('d, ext_state \<times> Extensions option) parser" where
  "parse_exts \<equiv> \<lambda>sb (st, imm). ParseExtensions sb st imm"

interpretation exts: incremental_parser parse_exts
  "\<lambda>(st, imm) fut (ps, qs) rest. ps_ok ps \<and> imm_of ps qs \<and> imm = None \<and> block_inv st fut ps rest"
  "\<lambda>(st, imm) (ps, qs). st = ext_done ps \<and> imm = ext_map qs"
proof (unfold_locales, goal_cases)
  case (1 m sb c v rest)
  then obtain st ps qs where m: "m = (st, None)" "v = (ps, qs)" "ps_ok ps" "imm_of ps qs"
    "block_inv st (buffer sb @ c) ps rest" by (cases m, cases v) auto
  show ?case using ParseExtensions_progress [OF m(3,5,4)] unfolding m(1,2)
    by (cases rule: full_progress_cases) (use m in \<open>simp_all add: progress_def, blast+\<close>)
qed

text \<open>C15. Extension headers survive the wire whatever the packetisation. For an object whose maps are
  well formed (keys and numbers below 2^62, octet strings below 4 GiB, no immutable key), the writer
  succeeds, and a receiver that gets its octets, followed by any others, cut into any pieces, ends
  with the block complete, with both maps as sent (keys without values dropped, numbers as eight
  octets, and the immutable block also kept as a value of its key in the mutable map), and with
  exactly the octets after the block left in the stream.\<close>

theorem extensions_roundtrip:
  assumes "exts_ok exts imm" "concat cs = w @ rest" "cs \<noteq> []" "SerializeExtensions [] exts imm = Inr w"
    "buffer sb = []"
  shows "feed parse_exts cs sb (ext_init, None) =
    Inr (True, sb\<lparr>buffer := rest\<rparr>, ext_done (kvps_of (wire_map exts imm)), recv_imm imm) \<and>
    extensions (ext_done (kvps_of (wire_map exts imm))) = recv_exts exts imm"
proof -
  let ?ps = "kvps_of (wire_map exts imm)" and ?qs = "case imm of None \<Rightarrow> [] | Some im \<Rightarrow> kvps_of im"
  have w: "w = ext_block ?ps" using SerializeExtensions_ok [OF assms(1), of "[]"] assms(4) by simp
  have imm: "ext_map ?qs = recv_imm imm"
    using assms(1) by (auto simp: recv_imm_def ext_map_kvps exts_ok_def split: option.splits) (simp add: ext_map_def)
  have "block_inv ext_init (buffer sb @ concat cs) ?ps rest" using block_inv_init assms(2,5) w by simp
  moreover have "ps_ok ?ps" using assms(1) by (simp add: exts_ok_def)
  ultimately show ?thesis
    using exts.feed_complete [of "(ext_init, None)" sb cs "(?ps, ?qs)" rest] imm_of_wire [OF assms(1)] assms(3) imm
    by (simp add: ext_done_def recv_exts_def ext_map_kvps [OF wire_map_wf [OF assms(1)]] Let_def)
qed

theorem extensions_roundtrip_witness:
  "feed parse_exts [[14, 2], [5, 3, 2, 1], [2, 11, 6, 1], [2, 2, 7, 4, 9, 77]]
     (StreamBuffer_new :: unit StreamBuffer) (ext_init, None) =
   Inr (True, StreamBuffer_new\<lparr>buffer := [77]\<rparr>,
     \<lparr>extension_headers_length = Some 14,
      extensions = Some [(2, [[5, 0, 0, 0, 0, 0, 0, 0]]), (3, [[1, 2]]), (11, [[1, 2, 2, 7, 4, 9]])],
      extension_bytes_remaining = 0, current_header = None\<rparr>,
     Some [(1, [[2, 7]]), (4, [[9, 0, 0, 0, 0, 0, 0, 0]])])"
proof -
  let ?e = "Some [(2, [[5]]), (3, [[1, 2]])] :: Extensions option"
    and ?i = "Some [(1, [[2, 7]]), (4, [[9]])] :: Extensions option"
  let ?w = "[14, 2, 5, 3, 2, 1, 2, 11, 6, 1, 2, 2, 7, 4, 9] :: bytes"
  have ps: "kvps_of (wire_map ?e ?i) =
      [\<lparr>kvp_type = 2, kvp_value = [5]\<rparr>, \<lparr>kvp_type = 3, kvp_value = [1, 2]\<rparr>,
       \<lparr>kvp_type = 11, kvp_value = [1, 2, 2, 7, 4, 9]\<rparr>]" by code_simp
  have len: "enc_kvps (kvps_of (wire_map ?e ?i)) = tl ?w" "enc_kvps (kvps_of (the ?i)) = [1, 2, 2, 7, 4, 9]"
    by code_simp+
  have v: "of_le_bytes [5] = (5 :: u64)" "of_le_bytes [9] = (9 :: u64)" by code_simp+
  have "\<not> map_contains (the ?e) immutable_key" "\<not> map_contains (the ?i) immutable_key" by code_simp+
  then have ok: "exts_ok ?e ?i"
    using len by (simp add: exts_ok_def ps ps_ok_def ext_ok_def kvp_ok_def map_wf_def v)
  have "varint_bytes 14 = [14]" by code_simp
  then have "SerializeExtensions [] ?e ?i = Inr ?w"
    using len by (simp add: SerializeExtensions_ok [OF ok] ext_block_def)
  from extensions_roundtrip [OF ok _ _ this,
      of "[[14, 2], [5, 3, 2, 1], [2, 11, 6, 1], [2, 2, 7, 4, 9, 77]]" "[77]" "StreamBuffer_new :: unit StreamBuffer"]
  have "feed parse_exts [[14, 2], [5, 3, 2, 1], [2, 11, 6, 1], [2, 2, 7, 4, 9, 77]]
      (StreamBuffer_new :: unit StreamBuffer) (ext_init, None) = Inr (True, StreamBuffer_new\<lparr>buffer := [77]\<rparr>, ext_done (kvps_of (wire_map ?e ?i)), recv_imm ?i)"
    by (simp add: StreamBuffer_new_def)
  moreover have "ext_map (kvps_of (wire_map ?e ?i)) =
      Some [(2, [[5, 0, 0, 0, 0, 0, 0, 0]]), (3, [[1, 2]]), (11, [[1, 2, 2, 7, 4, 9]])]"
    "recv_imm ?i = Some [(1, [[2, 7]]), (4, [[9, 0, 0, 0, 0, 0, 0, 0]])]" by code_simp+
  ultimately show ?thesis using len by (simp add: ext_done_def)
qed

text \<open>An object received with immutable extensions and written again carries the immutable block twice:
  the parser leaves the block under its key in the mutable map, and the writer appends another.\<close>

theorem reserialized_immutable_duplicates:
  "SerializeExtensions [] None (Some [(1, [[7]])]) = Inr [5, 11, 3, 1, 1, 7] \<and>
   recv_exts None (Some [(1, [[7]])]) = Some [(11, [[1, 1, 7]])] \<and> recv_imm (Some [(1, [[7]])]) = Some [(1, [[7]])] \<and>
   SerializeExtensions [] (Some [(11, [[1, 1, 7]])]) (Some [(1, [[7]])]) = Inr [10, 11, 3, 1, 1, 7, 11, 3, 1, 1, 7]"
proof -
  let ?i = "[(1, [[7]])] :: Extensions" and ?e = "[(11, [[1, 1, 7]])] :: Extensions"
  let ?e2 = "[(11, [[1, 1, 7], [1, 1, 7]])] :: Extensions"
  have k: "immutable_key = 11" by (simp add: immutable_key_def)
  have enc: "enc_kvps (kvps_of ?i) = [1, 1, 7]" "enc_kvps (kvps_of ?e) = [11, 3, 1, 1, 7]"
    "ext_block (kvps_of ?e) = [5, 11, 3, 1, 1, 7]"
    "ext_block (kvps_of ?e2) = [10, 11, 3, 1, 1, 7, 11, 3, 1, 1, 7]" "enc_kvps (kvps_of ?e2) = [11, 3, 1, 1, 7, 11, 3, 1, 1, 7]"
    by code_simp+
  have ok: "ps_ok (kvps_of ?e)" "ps_ok (kvps_of ?e2)" "list_all kvp_ok (kvps_of ?i)"
    using enc by (simp_all add: ps_ok_def ext_ok_def kvp_ok_def)
  have "push_value 11 [1, 1, 7] [] = ?e" "push_value 11 [1, 1, 7] ?e = ?e2"
    by (simp_all add: push_value_def map_at_def)
  then have "SerializeExtensions [] None (Some ?i) = Inr [5, 11, 3, 1, 1, 7]"
    "SerializeExtensions [] (Some ?e) (Some ?i) = Inr [10, 11, 3, 1, 1, 7, 11, 3, 1, 1, 7]"
    using put_all_kvp [OF ok(3), of "[]"] put_Extensions_ok [OF ok(1), of "[]"] put_Extensions_ok [OF ok(2), of "[]"] enc
    by (simp_all add: SerializeExtensions_def k map_contains_def del: kvps_of_simps)
  moreover have "recv_exts None (Some ?i) = Some ?e" "recv_imm (Some ?i) = Some ?i" by code_simp+
  ultimately show ?thesis by simp
qed

text \<open>A block whose announced length ends in the middle of a pair: the 64-bit counter passes below zero,
  and the parser goes on reading pairs from the octets that follow the block, here until it runs
  out of octets.\<close>

theorem extension_length_underflow:
  "case ParseExtensions_map (Push [2, 3, 2, 8, 9, 2, 1] (StreamBuffer_new :: unit StreamBuffer)) ext_init of
     Inl _ \<Rightarrow> False
   | Inr (ok, sb, st) \<Rightarrow> \<not> ok \<and> buffer sb = [] \<and> extensions st = Some [(2, [[1, 0, 0, 0, 0, 0, 0, 0]]), (3, [[8, 9]])] \<and>
       extension_bytes_remaining st = - 4"
proof -
  have "uintv_field [2, 3, 2, 8, 9, 2, 1] = Some (\<lparr>be_value = [2, 0, 0, 0, 0, 0, 0, 0]\<rparr>, [3, 2, 8, 9, 2, 1])"
    "uintv_field [3, 2, 8, 9, 2, 1] = Some (\<lparr>be_value = [3, 0, 0, 0, 0, 0, 0, 0]\<rparr>, [2, 8, 9, 2, 1])"
    "bytes_field [2, 8, 9, 2, 1] = Some ([8, 9], [2, 1])"
    "uintv_field [2, 1] = Some (\<lparr>be_value = [2, 0, 0, 0, 0, 0, 0, 0]\<rparr>, [1])"
    "uintv_field [1] = Some (\<lparr>be_value = [1, 0, 0, 0, 0, 0, 0, 0]\<rparr>, [])"
    "uintv_field [] = None" by code_simp+
  moreover have "UintVar_Get \<lparr>be_value = [n, 0, 0, 0, 0, 0, 0, 0]\<rparr> = ucast n"
    "UintVar_Size \<lparr>be_value = [n, 0, 0, 0, 0, 0, 0, 0]\<rparr> = 1" if "n \<in> {1, 2, 3}" for n
    using that by (elim insertE; simp; code_simp)+
  moreover have "UintVar_of_value 2 = Inr \<lparr>be_value = [2, 0, 0, 0, 0, 0, 0, 0]\<rparr>"
    "le_bytes 8 (1 :: u64) = [1, 0, 0, 0, 0, 0, 0, 0]"
    "(0 :: u64) < - 4" "(0 :: u64) < - 2" by code_simp+
  ultimately show ?thesis
    by (simp add: ParseExtensions_map_def ext_loop.simps ext_kvp_def ext_tag_def ext_value_def ReadUintVField_def
        ParseBytesField_def ReadUintV_eq DecodeBytes_eq Push_def PushInternal_def StreamBuffer_new_def ext_init_def
        push_value_def map_at_def)
qed

end
