(* ===== verification/Data_Messages.thy ===== *)
theory Data_Messages
  imports Extensions
begin

section \<open>Messages of the data plane\<close>

text \<open>
  The headers and objects that travel on data streams and in datagrams
  (\<^verbatim>\<open>detail/messages.h\<close>, \<^verbatim>\<open>src/messages.cpp\<close>): their writers, and their incremental readers,
  each a \<^verbatim>\<open>switch\<close> over the position with one definition for each case. The members that
  several messages have in common are in base records; the four members of the extension parser
  (\<^verbatim>\<open>extension_headers_length\<close>, \<^verbatim>\<open>extensions\<close>, \<^verbatim>\<open>extension_bytes_remaining\<close> and
  \<^verbatim>\<open>current_tag\<close>) are the record \<open>ext_state\<close>.
\<close>

subsection \<open>Messages\<close>

record ext_msg = parse_pos +
  ext :: ext_state
  immutable_extensions :: "Extensions option"

record payload_msg = ext_msg +
  payload_len :: u64
  object_status :: ObjectStatus
  payload :: bytes

record FetchHeader = parse_pos +
  fh_type :: FetchHeaderType
  fh_request_id :: u64

record FetchObject = payload_msg +
  fo_group_id :: u64
  fo_subgroup_id :: u64
  fo_object_id :: u64
  fo_publisher_priority :: u8

record ObjectDatagram = payload_msg +
  od_track_alias :: u64
  od_group_id :: u64
  od_object_id :: u64
  od_priority :: u8
  od_end_of_group :: bool
  od_type :: "DatagramHeaderType option"

record ObjectDatagramStatus = ext_msg +
  os_track_alias :: u64
  os_group_id :: u64
  os_object_id :: u64
  os_priority :: u8
  os_status :: ObjectStatus
  os_type :: "DatagramStatusType option"

record StreamHeaderSubGroup = parse_pos +
  hs_type :: StreamHeaderType
  hs_track_alias :: u64
  hs_group_id :: u64
  hs_subgroup_id :: "u64 option"
  hs_priority :: u8

record StreamSubGroupObject = payload_msg +
  so_object_delta :: u64
  so_stream_type :: "StreamHeaderType option"

definition has_exts :: "'a ext_msg_scheme \<Rightarrow> bool" where
  "has_exts msg \<longleftrightarrow> extensions (ext msg) \<noteq> None \<or> immutable_extensions msg \<noteq> None"

definition ObjectDatagram_GetType :: "ObjectDatagram \<Rightarrow> DatagramHeaderType" where
  "ObjectDatagram_GetType msg =
     DatagramHeader_GetType \<lparr>dh_end_of_group = od_end_of_group msg, dh_has_extensions = has_exts msg\<rparr>"

definition ObjectDatagramStatus_GetType :: "ObjectDatagramStatus \<Rightarrow> DatagramStatusType" where
  "ObjectDatagramStatus_GetType msg = DatagramStatus_GetType \<lparr>ds_has_extensions = has_exts msg\<rparr>"

subsection \<open>Writing\<close>

definition put_payload :: "bytes \<Rightarrow> 'a payload_msg_scheme \<Rightarrow> bytes result" where
  "put_payload buf msg =
     (if payload msg = [] then
        bind_result (UintVar_of_value (ucast (ObjectStatus_value (object_status msg)))) (\<lambda>status.
          Inr (put_uintvar (buf @ [0]) status))
      else
        bind_result (put_u64 buf (of_nat (length (payload msg)))) (\<lambda>b. Inr (b @ payload msg)))"

definition put_FetchHeader :: "bytes \<Rightarrow> FetchHeader \<Rightarrow> bytes result" where
  "put_FetchHeader buf msg =
     bind_result (put_u64 buf (ucast (FetchHeaderType_value (fh_type msg)))) (\<lambda>b. put_u64 b (fh_request_id msg))"

definition put_FetchObject :: "bytes \<Rightarrow> FetchObject \<Rightarrow> bytes result" where
  "put_FetchObject buf msg =
     bind_result (put_u64 buf (fo_group_id msg)) (\<lambda>b.
     bind_result (put_u64 b (fo_subgroup_id msg)) (\<lambda>b.
     bind_result (put_u64 b (fo_object_id msg)) (\<lambda>b.
     bind_result (SerializeExtensions (b @ [fo_publisher_priority msg]) (extensions (ext msg)) (immutable_extensions msg)) (\<lambda>b.
     put_payload b msg))))"

definition put_ObjectDatagram :: "bytes \<Rightarrow> ObjectDatagram \<Rightarrow> bytes result" where
  "put_ObjectDatagram buf msg =
     bind_result (put_u64 buf (ucast (DatagramHeaderType_value (ObjectDatagram_GetType msg)))) (\<lambda>b.
     bind_result (put_u64 b (od_track_alias msg)) (\<lambda>b.
     bind_result (put_u64 b (od_group_id msg)) (\<lambda>b.
     bind_result (put_u64 b (od_object_id msg)) (\<lambda>b.
     bind_result
       (if has_exts msg
        then SerializeExtensions (b @ [od_priority msg]) (extensions (ext msg)) (immutable_extensions msg)
        else Inr (b @ [od_priority msg])) (\<lambda>b.
     if payload msg = [] then Inr b else Inr (b @ payload msg))))))"

definition put_ObjectDatagramStatus :: "bytes \<Rightarrow> ObjectDatagramStatus \<Rightarrow> bytes result" where
  "put_ObjectDatagramStatus buf msg =
     bind_result (put_u64 buf (ucast (DatagramStatusType_value (ObjectDatagramStatus_GetType msg)))) (\<lambda>b.
     bind_result (put_u64 b (os_track_alias msg)) (\<lambda>b.
     bind_result (put_u64 b (os_group_id msg)) (\<lambda>b.
     bind_result (put_u64 b (os_object_id msg)) (\<lambda>b.
     bind_result
       (if has_exts msg
        then SerializeExtensions (b @ [os_priority msg]) (extensions (ext msg)) (immutable_extensions msg)
        else Inr (b @ [os_priority msg])) (\<lambda>b.
     put_u64 b (ucast (ObjectStatus_value (os_status msg))))))))"

definition put_StreamHeaderSubGroup :: "bytes \<Rightarrow> StreamHeaderSubGroup \<Rightarrow> bytes result" where
  "put_StreamHeaderSubGroup buf msg =
     bind_result (put_u64 buf (ucast (StreamHeaderType_value (hs_type msg)))) (\<lambda>b.
     bind_result (put_u64 b (hs_track_alias msg)) (\<lambda>b.
     bind_result (put_u64 b (hs_group_id msg)) (\<lambda>b.
     bind_result (StreamHeaderProperties_of (hs_type msg)) (\<lambda>properties.
     bind_result
       (if subgroup_id_type properties = kExplicit then
          (case hs_subgroup_id msg of
             None \<Rightarrow> Inl (Invalid_Argument ''Subgroup ID must be set when type is kExplicit'')
           | Some s \<Rightarrow> put_u64 b s)
        else if hs_subgroup_id msg \<noteq> None
        then Inl (Invalid_Argument ''Subgroup ID must be not set when type is not kExplicit'')
        else Inr b) (\<lambda>b.
     Inr (b @ [hs_priority msg]))))))"

definition put_StreamSubGroupObject :: "bytes \<Rightarrow> StreamSubGroupObject \<Rightarrow> bytes result" where
  "put_StreamSubGroupObject buf msg =
     bind_result (put_u64 buf (so_object_delta msg)) (\<lambda>b.
       case so_stream_type msg of
         None \<Rightarrow> Inl Assert_Failed
       | Some t \<Rightarrow>
           bind_result (StreamHeaderProperties_of t) (\<lambda>properties.
           if \<not> may_contain_extensions properties \<and> has_exts msg then Inl Assert_Failed
           else
             bind_result
               (if may_contain_extensions properties
                then SerializeExtensions b (extensions (ext msg)) (immutable_extensions msg) else Inr b) (\<lambda>b.
             put_payload b msg)))"

subsection \<open>Reading: the cases\<close>

definition next_pos :: "'a parse_pos_scheme \<Rightarrow> 'a parse_pos_scheme" where
  "next_pos msg = msg\<lparr>current_pos := current_pos msg + 1\<rparr>"

text \<open>A case that reads a variable-length integer and stores it with \<open>upd\<close>, and one that reads an
  octet.\<close>

definition uint_case :: "(u64 \<Rightarrow> 'm \<Rightarrow> 'm) \<Rightarrow> ('d, 'm) switch_case" where
  "uint_case upd sb msg =
     bind_result (ParseUintVField sb) (\<lambda>(r, sb').
       Inr (case r of None \<Rightarrow> (Ret False, sb', msg) | Some v \<Rightarrow> (Fall, sb', upd v msg)))"

definition octet_case :: "(u8 \<Rightarrow> 'm \<Rightarrow> 'm) \<Rightarrow> ('d, 'm) switch_case" where
  "octet_case upd sb msg =
     Inr (case Front sb of None \<Rightarrow> (Ret False, sb, msg) | Some v \<Rightarrow> (Fall, Pop sb, upd v msg))"

definition ext_case :: "('d, 'a ext_msg_scheme) switch_case" where
  "ext_case sb msg =
     bind_result (ParseExtensions sb (ext msg) (immutable_extensions msg)) (\<lambda>(ok, sb', st, imm).
       let msg' = msg\<lparr>ext := st, immutable_extensions := imm\<rparr>
       in Inr (if ok then (Fall, sb', next_pos msg') else (Ret False, sb', msg')))"

definition no_ext_case :: "('d, 'a ext_msg_scheme) switch_case" where
  "no_ext_case sb msg =
     Inr (Fall, sb, next_pos (msg\<lparr>ext := (ext msg)\<lparr>extensions := None\<rparr>, immutable_extensions := None\<rparr>))"

definition payload_len_case :: "('d, 'a payload_msg_scheme) switch_case" where
  "payload_len_case = uint_case (\<lambda>v msg. next_pos (msg\<lparr>payload_len := v\<rparr>))"

definition status_case :: "('d, 'a payload_msg_scheme) switch_case" where
  "status_case sb msg =
     (if payload_len msg = 0 then
        bind_result (ParseUintVField sb) (\<lambda>(r, sb').
          Inr (case r of
                 None \<Rightarrow> (Ret False, sb', msg)
               | Some status \<Rightarrow>
                   (Ret True, sb', msg\<lparr>object_status := ObjectStatus_of (ucast status), parse_completed := True\<rparr>)))
      else Inr (Fall, sb, next_pos msg))"

definition payload_case :: "('d, 'a payload_msg_scheme) switch_case" where
  "payload_case sb msg =
     (let len = ucast (payload_len msg) in
      if \<not> Available len sb then Inr (Ret False, sb, msg)
      else
        let val = Front_n len sb in
        if val = [] then Inr (Ret False, sb, msg)
        else Inr (Fall, Pop_n len sb, msg\<lparr>payload := val, parse_completed := True\<rparr>))"

subsection \<open>Reading: the messages\<close>

definition get_FetchHeader :: "('d, FetchHeader) parser" where
  "get_FetchHeader = switch_parse
     [uint_case (\<lambda>t msg. next_pos (msg\<lparr>fh_type := FetchHeaderType_of (ucast t)\<rparr>)),
      uint_case (\<lambda>v msg. (next_pos (msg\<lparr>fh_request_id := v\<rparr>))\<lparr>parse_completed := True\<rparr>)]"

definition get_FetchObject :: "('d, FetchObject) parser" where
  "get_FetchObject = switch_parse
     [uint_case (\<lambda>v msg. next_pos (msg\<lparr>fo_group_id := v\<rparr>)),
      uint_case (\<lambda>v msg. next_pos (msg\<lparr>fo_subgroup_id := v\<rparr>)),
      uint_case (\<lambda>v msg. next_pos (msg\<lparr>fo_object_id := v\<rparr>)),
      octet_case (\<lambda>v msg. next_pos (msg\<lparr>fo_publisher_priority := v\<rparr>)),
      ext_case, payload_len_case, status_case, payload_case]"

definition datagram_type_case :: "('d, ObjectDatagram) switch_case" where
  "datagram_type_case sb msg =
     bind_result (ParseUintVField sb) (\<lambda>(r, sb').
       case r of
         None \<Rightarrow> Inr (Ret False, sb', msg)
       | Some t \<Rightarrow>
           let header_type = DatagramHeaderType_of (ucast t) in
           bind_result (DatagramHeaderProperties_of header_type) (\<lambda>properties.
             Inr (Fall, sb', next_pos (msg\<lparr>od_type := Some header_type, od_end_of_group := dh_end_of_group properties\<rparr>))))"

definition datagram_ext_case :: "('d, ObjectDatagram) switch_case" where
  "datagram_ext_case sb msg =
     (case od_type msg of
        None \<Rightarrow> Inl Bad_Optional_Access
      | Some t \<Rightarrow>
          bind_result (DatagramHeaderProperties_of t) (\<lambda>properties.
          bind_result ((if dh_has_extensions properties then ext_case else no_ext_case) sb msg) (\<lambda>(r, sb', msg').
            Inr (r, sb', if r = Fall then msg'\<lparr>payload_len := of_nat (Size_sb sb')\<rparr> else msg'))))"

definition datagram_payload_case :: "('d, ObjectDatagram) switch_case" where
  "datagram_payload_case sb msg =
     (let len = ucast (payload_len msg) in
      if payload_len msg = 0 then Inr (Ret True, sb, msg\<lparr>parse_completed := True\<rparr>)
      else if \<not> Available len sb then Inr (Ret False, sb, msg)
      else Inr (Fall, Pop_n len sb, msg\<lparr>payload := Front_n len sb, parse_completed := True\<rparr>))"

definition get_ObjectDatagram :: "('d, ObjectDatagram) parser" where
  "get_ObjectDatagram = switch_parse
     [datagram_type_case,
      uint_case (\<lambda>v msg. next_pos (msg\<lparr>od_track_alias := v\<rparr>)),
      uint_case (\<lambda>v msg. next_pos (msg\<lparr>od_group_id := v\<rparr>)),
      uint_case (\<lambda>v msg. next_pos (msg\<lparr>od_object_id := v\<rparr>)),
      octet_case (\<lambda>v msg. next_pos (msg\<lparr>od_priority := v\<rparr>)),
      datagram_ext_case, datagram_payload_case]"

definition status_ext_case :: "('d, ObjectDatagramStatus) switch_case" where
  "status_ext_case sb msg =
     (case os_type msg of
        None \<Rightarrow> Inl Bad_Optional_Access
      | Some t \<Rightarrow>
          bind_result (DatagramStatusProperties_of t) (\<lambda>properties.
            (if ds_has_extensions properties then ext_case else no_ext_case) sb msg))"

definition get_ObjectDatagramStatus :: "('d, ObjectDatagramStatus) parser" where
  "get_ObjectDatagramStatus = switch_parse
     [uint_case (\<lambda>t msg. next_pos (msg\<lparr>os_type := Some (DatagramStatusType_of (ucast t))\<rparr>)),
      uint_case (\<lambda>v msg. next_pos (msg\<lparr>os_track_alias := v\<rparr>)),
      uint_case (\<lambda>v msg. next_pos (msg\<lparr>os_group_id := v\<rparr>)),
      uint_case (\<lambda>v msg. next_pos (msg\<lparr>os_object_id := v\<rparr>)),
      octet_case (\<lambda>v msg. next_pos (msg\<lparr>os_priority := v\<rparr>)),
      status_ext_case,
      uint_case (\<lambda>v msg. (next_pos (msg\<lparr>os_status := ObjectStatus_of (ucast v)\<rparr>))\<lparr>parse_completed := True\<rparr>)]"

definition subgroup_id_case :: "('d, StreamHeaderSubGroup) switch_case" where
  "subgroup_id_case sb msg =
     bind_result (StreamHeaderProperties_of (hs_type msg)) (\<lambda>properties.
       case subgroup_id_type properties of
         kIsZero \<Rightarrow> Inr (Fall, sb, next_pos (msg\<lparr>hs_subgroup_id := Some 0\<rparr>))
       | kSetFromFirstObject \<Rightarrow> Inr (Fall, sb, next_pos (msg\<lparr>hs_subgroup_id := None\<rparr>))
       | kExplicit \<Rightarrow> uint_case (\<lambda>v msg. next_pos (msg\<lparr>hs_subgroup_id := Some v\<rparr>)) sb msg)"

definition get_StreamHeaderSubGroup :: "('d, StreamHeaderSubGroup) parser" where
  "get_StreamHeaderSubGroup = switch_parse
     [uint_case (\<lambda>t msg. next_pos (msg\<lparr>hs_type := StreamHeaderType_of (ucast t)\<rparr>)),
      uint_case (\<lambda>v msg. next_pos (msg\<lparr>hs_track_alias := v\<rparr>)),
      uint_case (\<lambda>v msg. next_pos (msg\<lparr>hs_group_id := v\<rparr>)),
      subgroup_id_case,
      octet_case (\<lambda>v msg. (next_pos (msg\<lparr>hs_priority := v\<rparr>))\<lparr>parse_completed := True\<rparr>)]"

definition object_ext_case :: "('d, StreamSubGroupObject) switch_case" where
  "object_ext_case sb msg =
     (case so_stream_type msg of
        None \<Rightarrow> Inl Assert_Failed
      | Some t \<Rightarrow>
          bind_result (StreamHeaderProperties_of t) (\<lambda>properties.
            (if may_contain_extensions properties then ext_case else no_ext_case) sb msg))"

definition get_StreamSubGroupObject :: "('d, StreamSubGroupObject) parser" where
  "get_StreamSubGroupObject = switch_parse
     [uint_case (\<lambda>v msg. next_pos (msg\<lparr>so_object_delta := v\<rparr>)),
      object_ext_case, payload_len_case, status_case, payload_case]"

subsection \<open>What each kind of case does\<close>

text \<open>The rules of the cases: on the octets of its field a case stores the field and falls through
  with what follows the field left, or waits with nothing changed.\<close>

lemma uint_case_result:
  assumes v: "v < 2 ^ 62" and fut: "buffer sb @ c = varint_bytes v @ f"
    and J: "J msg (buffer sb @ c)" and J': "J' (upd v msg) f"
  shows "case_result J J' K sb c rest (uint_case upd sb msg)"
proof -
  obtain u where u: "UintVar_Get u = v" "uintv_field (buffer sb @ c) = Some (u, f)"
    using uintv_field_varint [OF v, of f] fut by metis
  from u(2) show ?thesis
  proof (cases rule: uintv.parse_prefix)
    case (1 r)
    then show ?thesis using u J'
      by (auto simp: case_result_def uint_case_def ParseUintVField_def DecodeUintV_eq)
  next
    case 2
    then have "uint_case upd sb msg = Inr (Ret False, sb\<lparr>buffer := buffer sb\<rparr>, msg)"
      by (simp add: uint_case_def ParseUintVField_def DecodeUintV_eq)
    then show ?thesis using 2 J unfolding case_result_def by blast
  qed
qed

lemma octet_case_result:
  assumes fut: "buffer sb @ c = v # f" and J: "J msg (buffer sb @ c)" and J': "J' (upd v msg) f"
  shows "case_result J J' K sb c rest (octet_case upd sb msg)"
proof (cases "buffer sb")
  case Nil
  then have "octet_case upd sb msg = Inr (Ret False, sb\<lparr>buffer := buffer sb\<rparr>, msg)"
    by (simp add: octet_case_def Front_def)
  moreover have "c \<noteq> []" using Nil fut by auto
  ultimately show ?thesis using J unfolding case_result_def by blast
next
  case (Cons x bs)
  then show ?thesis using fut J' by (auto simp: case_result_def octet_case_def Front_def Pop_def)
qed

lemma ext_case_result:
  assumes "ps_ok ps" "imm_of ps qs" "immutable_extensions msg = None" "block_inv (ext msg) (buffer sb @ c) ps f"
    and J: "\<And>st fut. block_inv st fut ps f \<Longrightarrow> J (msg\<lparr>ext := st, immutable_extensions := None\<rparr>) fut"
    and J': "J' (next_pos (msg\<lparr>ext := ext_done ps, immutable_extensions := ext_map qs\<rparr>)) f"
  shows "case_result J J' K sb c rest (ext_case sb msg)"
  using ParseExtensions_progress [OF assms(1,4,2)]
proof (cases rule: full_progress_cases)
  case (complete b)
  then show ?thesis using J' assms(3) by (auto simp: ext_case_def case_result_def Let_def)
next
  case (waiting b st)
  then show ?thesis using J assms(3) by (auto simp: ext_case_def case_result_def Let_def)
qed

lemma no_ext_case_result:
  assumes "J' (next_pos (msg\<lparr>ext := (ext msg)\<lparr>extensions := None\<rparr>, immutable_extensions := None\<rparr>)) (buffer sb @ c)"
  shows "case_result J J' K sb c rest (no_ext_case sb msg)"
proof -
  have "sb = sb\<lparr>buffer := buffer sb\<rparr>" by simp
  then show ?thesis using assms unfolding case_result_def no_ext_case_def by blast
qed

lemma status_case_zero:
  assumes "payload_len msg = 0" "s < 2 ^ 62" "buffer sb @ c = varint_bytes s @ rest" "J msg (buffer sb @ c)"
    "K (msg\<lparr>object_status := ObjectStatus_of (ucast s), parse_completed := True\<rparr>)"
  shows "case_result J J' K sb c rest (status_case sb msg)"
proof -
  obtain u where u: "UintVar_Get u = s" "uintv_field (buffer sb @ c) = Some (u, rest)"
    using uintv_field_varint [OF assms(2), of rest] assms(3) by metis
  from u(2) show ?thesis
  proof (cases rule: uintv.parse_prefix)
    case (1 r)
    then show ?thesis using u assms
      by (auto simp: case_result_def status_case_def ParseUintVField_def DecodeUintV_eq)
  next
    case 2
    then have "status_case sb msg = Inr (Ret False, sb\<lparr>buffer := buffer sb\<rparr>, msg)"
      using assms(1) by (simp add: status_case_def ParseUintVField_def DecodeUintV_eq)
    then show ?thesis using 2 assms(4) unfolding case_result_def by blast
  qed
qed

lemma status_case_nonzero:
  assumes "payload_len msg \<noteq> 0" "J' (next_pos msg) (buffer sb @ c)"
  shows "case_result J J' K sb c rest (status_case sb msg)"
proof -
  have "status_case sb msg = Inr (Fall, sb\<lparr>buffer := buffer sb\<rparr>, next_pos msg)" using assms(1) by (simp add: status_case_def)
  then show ?thesis using assms(2) unfolding case_result_def by blast
qed

lemma payload_case_result:
  assumes len: "payload_len msg = of_nat (length p)" "p \<noteq> []" "length p < 2 ^ 32"
    and fut: "buffer sb @ c = p @ f" and J: "J msg (buffer sb @ c)"
    and J': "J' (msg\<lparr>payload := p, parse_completed := True\<rparr>) f"
  shows "case_result J J' K sb c rest (payload_case sb msg)"
proof -
  have n: "unat (ucast (payload_len msg) :: u32) = length p"
    using len(1,3) by (simp add: unat_ucast_u32 unat_of_nat take_bit_nat_eq_self)
  show ?thesis
  proof (cases "length p \<le> length (buffer sb)")
    case True
    obtain b where b: "buffer sb = p @ b" "b @ c = f"
      using fut True by (metis append_eq_append_conv_if append_take_drop_id append_assoc same_append_eq)
    have nz: "(ucast (payload_len msg) :: u32) \<noteq> 0" using n len(2) by (metis length_0_conv unat_0)
    have "Front_n (ucast (payload_len msg)) sb = p" "Pop_n (ucast (payload_len msg)) sb = sb\<lparr>buffer := b\<rparr>"
      using b(1) n len(2) nz by (simp_all add: Front_n_def FrontInternal_def Pop_n_def PopInternal_eq)
    then have "payload_case sb msg = Inr (Fall, sb\<lparr>buffer := b\<rparr>, msg\<lparr>payload := p, parse_completed := True\<rparr>)"
      using True n len(2) by (simp add: payload_case_def Available_def)
    then show ?thesis using J' b(2) unfolding case_result_def by blast
  next
    case False
    then have "payload_case sb msg = Inr (Ret False, sb\<lparr>buffer := buffer sb\<rparr>, msg)"
      using n by (simp add: payload_case_def Available_def)
    moreover have "c \<noteq> []" using False fut by auto
    ultimately show ?thesis using J unfolding case_result_def by blast
  qed
qed

subsection \<open>Stream headers\<close>

lemma ucast_octet [simp]: "(ucast (x :: u8) :: u64) < 2 ^ 62" "(ucast (ucast (x :: u8) :: u64) :: u8) = x"
proof -
  have "unat x < 2 ^ 62" using unat_less_pow [of x] by simp
  then show "(ucast x :: u64) < 2 ^ 62" by (simp add: word_less_nat_alt unsigned_ucast_eq take_bit_nat_eq_self)
qed simp

lemma next_pos_simps [simp]:
  "current_pos (next_pos m) = current_pos m + 1" "parse_completed (next_pos m) = parse_completed m"
  by (simp_all add: next_pos_def)

text \<open>The position, and the fields that precede it, in the state of each parser.\<close>

definition fh_I :: "nat \<Rightarrow> FetchHeader \<Rightarrow> bytes \<Rightarrow> FetchHeader \<Rightarrow> bytes \<Rightarrow> bool" where
  "fh_I k m fut v rest \<longleftrightarrow>
     fh_request_id v < 2 ^ 62 \<and> current_pos m = of_nat k \<and>
     fut = concat (drop k [varint_bytes (ucast (FetchHeaderType_value (fh_type v))), varint_bytes (fh_request_id v)]) @ rest \<and>
     (1 \<le> k \<longrightarrow> fh_type m = FetchHeaderType_of (FetchHeaderType_value (fh_type v))) \<and>
     (2 \<le> k \<longrightarrow> fh_request_id m = fh_request_id v \<and> parse_completed m)"

definition fh_complete :: "FetchHeader \<Rightarrow> FetchHeader \<Rightarrow> bool" where
  "fh_complete m v \<longleftrightarrow> fh_type m = FetchHeaderType_of (FetchHeaderType_value (fh_type v)) \<and>
     fh_request_id m = fh_request_id v"

interpretation fh: switch_parser
  "[uint_case (\<lambda>t msg. next_pos (msg\<lparr>fh_type := FetchHeaderType_of (ucast t)\<rparr>)),
    uint_case (\<lambda>v msg. (next_pos (msg\<lparr>fh_request_id := v\<rparr>))\<lparr>parse_completed := True\<rparr>)]" fh_I fh_complete
proof (unfold_locales, goal_cases)
  case (1 k m sb c v rest)
  then consider "k = 0" | "k = 1" by fastforce
  then show ?case
  proof cases
    case a: 1
    show ?thesis unfolding a nth_Cons_0
      by (rule uint_case_result) (use 1 a in \<open>auto simp: fh_I_def next_pos_def\<close>)
  next
    case a: 2
    show ?thesis unfolding a
      by (simp, rule uint_case_result) (use 1 a in \<open>auto simp: fh_I_def next_pos_def\<close>)
  qed
qed (auto simp: fh_I_def fh_complete_def less_Suc_eq)

text \<open>A fetch header, whatever the packetisation.\<close>

theorem FetchHeader_roundtrip:
  assumes "fh_request_id v < 2 ^ 62" "current_pos m = 0" "buffer sb = []" "cs \<noteq> []"
    "put_FetchHeader [] v = Inr w" "concat cs = w @ rest"
  shows "\<exists>m'. feed get_FetchHeader cs sb m = Inr (True, sb\<lparr>buffer := rest\<rparr>, m') \<and> fh_complete m' v"
proof -
  have "w = varint_bytes (ucast (FetchHeaderType_value (fh_type v))) @ varint_bytes (fh_request_id v)"
    using assms(1,5) by (simp add: put_FetchHeader_def put_u64_ok)
  then have "fh_I 0 m (buffer sb @ concat cs) v rest" using assms by (simp add: fh_I_def)
  then show ?thesis unfolding get_FetchHeader_def by (intro fh.sw.feed_complete) (use assms(4) in auto)
qed

definition hs_id :: "StreamHeaderSubGroup \<Rightarrow> bytes" where
  "hs_id v = (case hs_subgroup_id v of None \<Rightarrow> [] | Some s \<Rightarrow> varint_bytes s)"

text \<open>A header the writer accepts: of a known type, with a subgroup id exactly when the type says that
  it is explicit.\<close>

definition hs_ok :: "StreamHeaderSubGroup \<Rightarrow> bool" where
  "hs_ok v \<longleftrightarrow> hs_track_alias v < 2 ^ 62 \<and> hs_group_id v < 2 ^ 62 \<and>
     (case StreamHeaderProperties_of (hs_type v) of
        Inl _ \<Rightarrow> False
      | Inr p \<Rightarrow> if subgroup_id_type p = kExplicit then (\<exists>s. hs_subgroup_id v = Some s \<and> s < 2 ^ 62)
                else hs_subgroup_id v = None)"

definition hs_recv_id :: "StreamHeaderSubGroup \<Rightarrow> u64 option" where
  "hs_recv_id v = (case GetSubgroupIdType (hs_type v) of
     Inr kIsZero \<Rightarrow> Some 0 | Inr kSetFromFirstObject \<Rightarrow> None | _ \<Rightarrow> hs_subgroup_id v)"

definition hs_I :: "nat \<Rightarrow> StreamHeaderSubGroup \<Rightarrow> bytes \<Rightarrow> StreamHeaderSubGroup \<Rightarrow> bytes \<Rightarrow> bool" where
  "hs_I k m fut v rest \<longleftrightarrow>
     hs_ok v \<and> current_pos m = of_nat k \<and>
     fut = concat (drop k [varint_bytes (ucast (StreamHeaderType_value (hs_type v))), varint_bytes (hs_track_alias v),
       varint_bytes (hs_group_id v), hs_id v, [hs_priority v]]) @ rest \<and>
     (1 \<le> k \<longrightarrow> hs_type m = hs_type v) \<and> (2 \<le> k \<longrightarrow> hs_track_alias m = hs_track_alias v) \<and>
     (3 \<le> k \<longrightarrow> hs_group_id m = hs_group_id v) \<and> (4 \<le> k \<longrightarrow> hs_subgroup_id m = hs_recv_id v) \<and>
     (5 \<le> k \<longrightarrow> hs_priority m = hs_priority v \<and> parse_completed m)"

definition hs_complete :: "StreamHeaderSubGroup \<Rightarrow> StreamHeaderSubGroup \<Rightarrow> bool" where
  "hs_complete m v \<longleftrightarrow> hs_type m = hs_type v \<and> hs_track_alias m = hs_track_alias v \<and>
     hs_group_id m = hs_group_id v \<and> hs_subgroup_id m = hs_recv_id v \<and> hs_priority m = hs_priority v"

lemma known_type_of_value:
  "StreamHeaderProperties_of t = Inr p \<Longrightarrow> StreamHeaderType_of (StreamHeaderType_value t) = t"
  by (cases t) (simp_all add: StreamHeaderType_of_def StreamHeaderProperties_of_def)

lemma hs_ok_type: "hs_ok v \<Longrightarrow> StreamHeaderType_of (StreamHeaderType_value (hs_type v)) = hs_type v"
  by (auto simp: hs_ok_def known_type_of_value split: sum.splits)

lemma subgroup_id_case_result:
  assumes I: "hs_I 3 m (buffer sb @ c) v rest"
  shows "case_result (\<lambda>m fut. hs_I 3 m fut v rest) (\<lambda>m fut. hs_I 4 m fut v rest) K sb c rest (subgroup_id_case sb m)"
proof -
  have ok: "hs_ok v" and ty: "hs_type m = hs_type v" using I by (simp_all add: hs_I_def)
  obtain p where p: "StreamHeaderProperties_of (hs_type v) = Inr p" using ok by (auto simp: hs_ok_def split: sum.splits)
  then have g: "GetSubgroupIdType (hs_type v) = Inr (subgroup_id_type p)"
    by (auto simp: StreamHeaderProperties_of_def bind_result_Inr_iff)
  show ?thesis
  proof (cases "subgroup_id_type p")
    case kExplicit
    with ok p obtain s where s: "hs_subgroup_id v = Some s" "s < 2 ^ 62" by (auto simp: hs_ok_def)
    then have "case_result (\<lambda>m fut. hs_I 3 m fut v rest) (\<lambda>m fut. hs_I 4 m fut v rest) K sb c rest
        (uint_case (\<lambda>v msg. next_pos (msg\<lparr>hs_subgroup_id := Some v\<rparr>)) sb m)"
      by (intro uint_case_result [OF s(2)])
        (use I s g kExplicit in \<open>auto simp: hs_I_def hs_id_def hs_recv_id_def next_pos_def\<close>)
    then show ?thesis using p ty kExplicit by (simp add: subgroup_id_case_def)
  next
    case kIsZero
    then have "hs_I 4 (next_pos (m\<lparr>hs_subgroup_id := Some 0\<rparr>)) (buffer sb @ c) v rest"
      using I ok p g by (auto simp: hs_I_def hs_id_def hs_recv_id_def hs_ok_def next_pos_def)
    moreover have "subgroup_id_case sb m = Inr (Fall, sb\<lparr>buffer := buffer sb\<rparr>, next_pos (m\<lparr>hs_subgroup_id := Some 0\<rparr>))"
      using p ty kIsZero by (simp add: subgroup_id_case_def)
    ultimately show ?thesis unfolding case_result_def by blast
  next
    case kSetFromFirstObject
    then have "hs_I 4 (next_pos (m\<lparr>hs_subgroup_id := None\<rparr>)) (buffer sb @ c) v rest"
      using I ok p g by (auto simp: hs_I_def hs_id_def hs_recv_id_def hs_ok_def next_pos_def)
    moreover have "subgroup_id_case sb m = Inr (Fall, sb\<lparr>buffer := buffer sb\<rparr>, next_pos (m\<lparr>hs_subgroup_id := None\<rparr>))"
      using p ty kSetFromFirstObject by (simp add: subgroup_id_case_def)
    ultimately show ?thesis unfolding case_result_def by blast
  qed
qed

interpretation hs: switch_parser
  "[uint_case (\<lambda>t msg. next_pos (msg\<lparr>hs_type := StreamHeaderType_of (ucast t)\<rparr>)),
    uint_case (\<lambda>v msg. next_pos (msg\<lparr>hs_track_alias := v\<rparr>)),
    uint_case (\<lambda>v msg. next_pos (msg\<lparr>hs_group_id := v\<rparr>)),
    subgroup_id_case,
    octet_case (\<lambda>v msg. (next_pos (msg\<lparr>hs_priority := v\<rparr>))\<lparr>parse_completed := True\<rparr>)]" hs_I hs_complete
proof (unfold_locales, goal_cases)
  case (1 k m sb c v rest)
  have ok: "hs_ok v" using 1 by (simp add: hs_I_def)
  then have b: "hs_track_alias v < 2 ^ 62" "hs_group_id v < 2 ^ 62" by (simp_all add: hs_ok_def)
  from 1 consider "k = 0" | "k = 1" | "k = 2" | "k = 3" | "k = 4" by fastforce
  then show ?case
  proof cases
    case a: 1
    show ?thesis unfolding a nth_Cons_0
      by (rule uint_case_result) (use 1 a hs_ok_type [OF ok] in \<open>auto simp: hs_I_def next_pos_def\<close>)
  next
    case a: 2
    show ?thesis unfolding a
      by (simp, rule uint_case_result [OF b(1)]) (use 1 a in \<open>auto simp: hs_I_def next_pos_def\<close>)
  next
    case a: 3
    show ?thesis unfolding a
      by (simp, rule uint_case_result [OF b(2)]) (use 1 a in \<open>auto simp: hs_I_def next_pos_def\<close>)
  next
    case a: 4
    show ?thesis using 1(2) subgroup_id_case_result [of m sb c v rest] unfolding a by simp
  next
    case a: 5
    show ?thesis unfolding a
      by (simp, rule octet_case_result) (use 1 a in \<open>auto simp: hs_I_def next_pos_def\<close>)
  qed
qed (auto simp: hs_I_def hs_complete_def less_Suc_eq)

lemma put_StreamHeaderSubGroup_ok:
  assumes "hs_ok v"
  shows "put_StreamHeaderSubGroup buf v = Inr (buf @ varint_bytes (ucast (StreamHeaderType_value (hs_type v))) @
    varint_bytes (hs_track_alias v) @ varint_bytes (hs_group_id v) @ hs_id v @ [hs_priority v])"
  using assms by (auto simp: hs_ok_def put_StreamHeaderSubGroup_def hs_id_def put_u64_ok split: sum.splits if_splits)

text \<open>C12. A subgroup stream header, whatever the packetisation: every header the writer accepts is
  read back with its type, alias, group and priority, and with the subgroup id the type stands for
  (zero, unset until the first object, or the explicit one), and the stream is left at the first
  object.\<close>

theorem StreamHeaderSubGroup_roundtrip:
  assumes "hs_ok v" "current_pos m = 0" "buffer sb = []" "cs \<noteq> []"
    "put_StreamHeaderSubGroup [] v = Inr w" "concat cs = w @ rest"
  shows "\<exists>m'. feed get_StreamHeaderSubGroup cs sb m = Inr (True, sb\<lparr>buffer := rest\<rparr>, m') \<and> hs_complete m' v"
proof -
  have "hs_I 0 m (buffer sb @ concat cs) v rest"
    using assms put_StreamHeaderSubGroup_ok [OF assms(1), of "[]"] by (simp add: hs_I_def)
  then show ?thesis unfolding get_StreamHeaderSubGroup_def by (intro hs.sw.feed_complete) (use assms(4) in auto)
qed

subsection \<open>Objects on streams\<close>

text \<open>The part that fetch objects and subgroup objects share: the extensions, and the payload or, for
  an empty payload, the status.\<close>

definition wire_kvps :: "'a ext_msg_scheme \<Rightarrow> KeyValuePair list" where
  "wire_kvps v = kvps_of (wire_map (extensions (ext v)) (immutable_extensions v))"

definition imm_kvps :: "'a ext_msg_scheme \<Rightarrow> KeyValuePair list" where
  "imm_kvps v = (case immutable_extensions v of None \<Rightarrow> [] | Some im \<Rightarrow> kvps_of im)"

definition msg_exts_ok :: "'a ext_msg_scheme \<Rightarrow> bool" where
  "msg_exts_ok v \<longleftrightarrow> exts_ok (extensions (ext v)) (immutable_extensions v)"

definition exts_received :: "'a ext_msg_scheme \<Rightarrow> 'b ext_msg_scheme \<Rightarrow> bool" where
  "exts_received m v \<longleftrightarrow>
     extensions (ext m) = recv_exts (extensions (ext v)) (immutable_extensions v) \<and>
     immutable_extensions m = recv_imm (immutable_extensions v)"

definition status_bytes :: "'a payload_msg_scheme \<Rightarrow> bytes" where
  "status_bytes v = varint_bytes (ucast (ObjectStatus_value (object_status v)))"

definition tail_bytes :: "'a payload_msg_scheme \<Rightarrow> bytes" where
  "tail_bytes v = (if payload v = [] then [0] @ status_bytes v else varint_bytes (of_nat (length (payload v))) @ payload v)"

text \<open>The invariant at the extensions (0), the length (1), the status (2), the payload (3) and the
  end (4).\<close>

fun body_I :: "nat \<Rightarrow> 'a payload_msg_scheme \<Rightarrow> bytes \<Rightarrow> 'b payload_msg_scheme \<Rightarrow> bytes \<Rightarrow> bool" where
  "body_I k m fut v rest \<longleftrightarrow> length (payload v) < 2 ^ 32 \<and>
     (if k = 0 then payload m = [] \<and> immutable_extensions m = None \<and> block_inv (ext m) fut (wire_kvps v) (tail_bytes v @ rest)
      else exts_received m v \<and>
        (if k = 1 then payload m = [] \<and> fut = tail_bytes v @ rest
         else if k = 2 then payload m = [] \<and> payload_len m = of_nat (length (payload v)) \<and>
           fut = (if payload v = [] then status_bytes v else payload v) @ rest
         else if k = 3 then payload m = [] \<and> payload_len m = of_nat (length (payload v)) \<and> payload v \<noteq> [] \<and>
           fut = payload v @ rest
         else payload v \<noteq> [] \<and> payload m = payload v \<and> fut = rest \<and> parse_completed m))"

declare body_I.simps [simp del]

definition body_complete :: "'a payload_msg_scheme \<Rightarrow> 'b payload_msg_scheme \<Rightarrow> bool" where
  "body_complete m v \<longleftrightarrow> exts_received m v \<and> payload m = payload v \<and>
     (payload v = [] \<longrightarrow> object_status m = ObjectStatus_of (ObjectStatus_value (object_status v)))"

lemma exts_received_done:
  assumes "msg_exts_ok v" "ext m = ext_done (wire_kvps v)" "immutable_extensions m = ext_map (imm_kvps v)"
  shows "exts_received m v"
proof -
  have "map_wf im" if "immutable_extensions v = Some im" for im
    using assms(1) that by (simp add: msg_exts_ok_def exts_ok_def)
  then show ?thesis
    using assms wire_map_wf [of "extensions (ext v)" "immutable_extensions v"]
    by (auto simp: exts_received_def msg_exts_ok_def ext_done_def wire_kvps_def imm_kvps_def recv_exts_def recv_imm_def
        ext_map_kvps Let_def split: option.splits) (simp add: ext_map_def)
qed

lemma msg_exts_okD:
  assumes "msg_exts_ok v" shows "ps_ok (wire_kvps v)" "imm_of (wire_kvps v) (imm_kvps v)"
  using assms imm_of_wire [of "extensions (ext v)" "immutable_extensions v"]
  by (simp_all add: msg_exts_ok_def exts_ok_def wire_kvps_def imm_kvps_def)

lemma put_payload_ok:
  assumes "length (payload v) < 2 ^ 32" shows "put_payload buf v = Inr (buf @ tail_bytes v)"
proof -
  have "(of_nat (length (payload v)) :: u64) < 2 ^ 62" using assms size_as_u64 [of "length (payload v)"] by simp
  moreover have "bind_result (UintVar_of_value w) (\<lambda>u. Inr (put_uintvar b u)) = Inr (b @ varint_bytes w)"
    if "w < 2 ^ 62" for w b using put_u64_ok [OF that, of b] by (simp add: put_u64_def)
  ultimately show ?thesis by (simp add: put_payload_def tail_bytes_def status_bytes_def put_u64_ok)
qed

text \<open>The four cases, in a message whose other members are described by \<open>P\<close> and whose position
  of the extensions is \<open>n\<close>.\<close>

definition body_at :: "nat \<Rightarrow> ('a payload_msg_scheme \<Rightarrow> bool) \<Rightarrow> nat \<Rightarrow> 'a payload_msg_scheme \<Rightarrow> bytes \<Rightarrow>
    'b payload_msg_scheme \<Rightarrow> bytes \<Rightarrow> bool" where
  "body_at n P k m fut v rest \<longleftrightarrow> (k < 4 \<longrightarrow> current_pos m = of_nat (n + k)) \<and> P m \<and> body_I k m fut v rest"

definition body_frame :: "('a payload_msg_scheme \<Rightarrow> bool) \<Rightarrow> bool" where
  "body_frame P \<longleftrightarrow> (\<forall>m. P m \<longrightarrow>
     (\<forall>x. P (m\<lparr>current_pos := x\<rparr>)) \<and> (\<forall>x. P (m\<lparr>parse_completed := x\<rparr>)) \<and> (\<forall>x. P (m\<lparr>ext := x\<rparr>)) \<and>
     (\<forall>x. P (m\<lparr>immutable_extensions := x\<rparr>)) \<and> (\<forall>x. P (m\<lparr>payload_len := x\<rparr>)) \<and>
     (\<forall>x. P (m\<lparr>object_status := x\<rparr>)) \<and> (\<forall>x. P (m\<lparr>payload := x\<rparr>)))"

lemma body_ext_case:
  assumes "body_frame P" "msg_exts_ok v" "body_at n P 0 m (buffer sb @ c) v rest"
  shows "case_result (\<lambda>m fut. body_at n P 0 m fut v rest) (\<lambda>m fut. body_at n P 1 m fut v rest) K sb c rest
    (ext_case sb m)"
proof -
  note ok = msg_exts_okD [OF assms(2)]
  have "block_inv (ext m) (buffer sb @ c) (wire_kvps v) (tail_bytes v @ rest)" "immutable_extensions m = None"
    using assms(3) by (simp_all add: body_at_def body_I.simps)
  from ok this(2,1) show ?thesis
    by (rule ext_case_result) (use assms(1,3) in
      \<open>auto simp: body_at_def body_I.simps body_frame_def next_pos_def intro: exts_received_done [OF assms(2)]\<close>)
qed

lemma body_len_case:
  assumes "body_frame P" "body_at n P 1 m (buffer sb @ c) v rest"
  shows "case_result (\<lambda>m fut. body_at n P 1 m fut v rest) (\<lambda>m fut. body_at n P 2 m fut v rest) K sb c rest
    (payload_len_case sb m)"
proof -
  let ?n = "of_nat (length (payload v)) :: u64"
  have len: "length (payload v) < 2 ^ 32" and fut: "buffer sb @ c = tail_bytes v @ rest"
    using assms(2) by (simp_all add: body_at_def body_I.simps)
  have "varint_bytes 0 = [0]" by code_simp
  then have "buffer sb @ c = varint_bytes ?n @ (if payload v = [] then status_bytes v else payload v) @ rest"
    using fut by (simp add: tail_bytes_def)
  moreover have "?n < 2 ^ 62" using len size_as_u64 [of "length (payload v)"] by simp
  ultimately show ?thesis unfolding payload_len_case_def
    by (intro uint_case_result) (use assms in
      \<open>auto simp: body_at_def body_I.simps body_frame_def next_pos_def exts_received_def\<close>)
qed

lemma body_status_case:
  assumes "body_frame P" "body_at n P 2 m (buffer sb @ c) v rest"
  shows "case_result (\<lambda>m fut. body_at n P 2 m fut v rest) (\<lambda>m fut. body_at n P 3 m fut v rest)
    (\<lambda>m. P m \<and> body_complete m v) sb c rest (status_case sb m)"
proof (cases "payload v = []")
  case True
  then have st: "payload_len m = 0" "buffer sb @ c = varint_bytes (ucast (ObjectStatus_value (object_status v))) @ rest"
    using assms(2) by (simp_all add: body_at_def body_I.simps status_bytes_def)
  show ?thesis
    by (rule status_case_zero [OF st(1) _ st(2)]) (use assms True in
      \<open>auto simp: body_at_def body_I.simps body_frame_def body_complete_def exts_received_def\<close>)
next
  case False
  have "length (payload v) < 2 ^ 32" "payload_len m = of_nat (length (payload v))"
    using assms(2) by (simp_all add: body_at_def body_I.simps)
  then have "payload_len m \<noteq> 0" using False size_as_u64 [of "length (payload v)"] by auto
  then show ?thesis
    by (rule status_case_nonzero) (use assms False in
      \<open>auto simp: body_at_def body_I.simps body_frame_def next_pos_def exts_received_def\<close>)
qed

lemma body_payload_case:
  assumes "body_frame P" "body_at n P 3 m (buffer sb @ c) v rest"
  shows "case_result (\<lambda>m fut. body_at n P 3 m fut v rest) (\<lambda>m fut. body_at n P 4 m fut v rest) K sb c rest
    (payload_case sb m)"
  by (rule payload_case_result [of m "payload v"]) (use assms in
    \<open>auto simp: body_at_def body_I.simps body_frame_def exts_received_def\<close>)

lemma body_final: "body_at n P 4 m fut v rest \<Longrightarrow> fut = rest \<and> parse_completed m \<and> P m \<and> body_complete m v"
  by (simp add: body_at_def body_I.simps body_complete_def)

text \<open>Fetch objects.\<close>

definition fo_head :: "FetchObject \<Rightarrow> FetchObject \<Rightarrow> bool" where
  "fo_head v m \<longleftrightarrow> fo_group_id m = fo_group_id v \<and> fo_subgroup_id m = fo_subgroup_id v \<and>
     fo_object_id m = fo_object_id v \<and> fo_publisher_priority m = fo_publisher_priority v"

definition fo_ok :: "FetchObject \<Rightarrow> bool" where
  "fo_ok v \<longleftrightarrow> fo_group_id v < 2 ^ 62 \<and> fo_subgroup_id v < 2 ^ 62 \<and> fo_object_id v < 2 ^ 62 \<and>
     msg_exts_ok v \<and> length (payload v) < 2 ^ 32"

text \<open>A message before its extensions are parsed.\<close>

definition fresh_body :: "'a payload_msg_scheme \<Rightarrow> bool" where
  "fresh_body m \<longleftrightarrow> ext m = ext_init \<and> immutable_extensions m = None \<and> payload m = []"

definition fo_I :: "nat \<Rightarrow> FetchObject \<Rightarrow> bytes \<Rightarrow> FetchObject \<Rightarrow> bytes \<Rightarrow> bool" where
  "fo_I k m fut v rest \<longleftrightarrow> fo_ok v \<and>
     (if k < 4 then current_pos m = of_nat k \<and> fresh_body m \<and>
        fut = concat (drop k [varint_bytes (fo_group_id v), varint_bytes (fo_subgroup_id v),
          varint_bytes (fo_object_id v), [fo_publisher_priority v]]) @ ext_block (wire_kvps v) @ tail_bytes v @ rest \<and>
        (1 \<le> k \<longrightarrow> fo_group_id m = fo_group_id v) \<and> (2 \<le> k \<longrightarrow> fo_subgroup_id m = fo_subgroup_id v) \<and>
        (3 \<le> k \<longrightarrow> fo_object_id m = fo_object_id v)
      else body_at 4 (fo_head v) (k - 4) m fut v rest)"

lemma fo_I_body: "fo_I (4 + k) m fut v rest \<longleftrightarrow> fo_ok v \<and> body_at 4 (fo_head v) k m fut v rest"
  by (simp add: fo_I_def)

lemma body_at_start:
  "fresh_body m \<Longrightarrow> current_pos m = of_nat n \<Longrightarrow> P m \<Longrightarrow> length (payload v) < 2 ^ 32 \<Longrightarrow>
     body_at n P 0 m (ext_block (wire_kvps v) @ tail_bytes v @ rest) v rest"
  by (simp add: fresh_body_def body_at_def body_I.simps block_inv_init)

lemma fo_frame: "body_frame (fo_head v)"
  by (simp add: body_frame_def fo_head_def)

lemma case_result_cong:
  assumes "case_result J J' K sb c rest r" "\<And>m fut. J m fut \<Longrightarrow> L m fut" "\<And>m fut. J' m fut \<Longrightarrow> L' m fut" "\<And>m. K m \<Longrightarrow> M m"
  shows "case_result L L' M sb c rest r"
  using assms unfolding case_result_def by blast

interpretation fo: switch_parser
  "[uint_case (\<lambda>v msg. next_pos (msg\<lparr>fo_group_id := v\<rparr>)),
    uint_case (\<lambda>v msg. next_pos (msg\<lparr>fo_subgroup_id := v\<rparr>)),
    uint_case (\<lambda>v msg. next_pos (msg\<lparr>fo_object_id := v\<rparr>)),
    octet_case (\<lambda>v msg. next_pos (msg\<lparr>fo_publisher_priority := v\<rparr>)),
    ext_case, payload_len_case, status_case, payload_case]" fo_I "\<lambda>m v. fo_head v m \<and> body_complete m v"
proof (unfold_locales, goal_cases)
  case (1 k m sb c v rest)
  have ok: "fo_ok v" using 1 by (simp add: fo_I_def)
  then have b: "fo_group_id v < 2 ^ 62" "fo_subgroup_id v < 2 ^ 62" "fo_object_id v < 2 ^ 62" "msg_exts_ok v"
    "length (payload v) < 2 ^ 32" by (simp_all add: fo_ok_def)
  note frame = fo_frame [of v]
  from 1(1) consider "k = 0" | "k = 1" | "k = 2" | "k = 3" | "k = 4" | "k = 5" | "k = 6" | "k = 7" by fastforce
  then show ?case
  proof cases
    case a: 1
    show ?thesis unfolding a nth_Cons_0
      by (rule uint_case_result [OF b(1)]) (use 1 a in \<open>auto simp: fo_I_def fresh_body_def next_pos_def\<close>)
  next
    case a: 2
    show ?thesis unfolding a
      by (simp, rule uint_case_result [OF b(2)]) (use 1 a in \<open>auto simp: fo_I_def fresh_body_def next_pos_def\<close>)
  next
    case a: 3
    show ?thesis unfolding a
      by (simp, rule uint_case_result [OF b(3)]) (use 1 a in \<open>auto simp: fo_I_def fresh_body_def next_pos_def\<close>)
  next
    case a: 4
    show ?thesis unfolding a
      by (simp, rule octet_case_result) (use 1 a b(5) in
        \<open>auto simp: fo_I_def fresh_body_def next_pos_def fo_head_def intro!: body_at_start\<close>)
  next
    case a: 5
    show ?thesis using 1(2) unfolding a
      by (auto intro!: case_result_cong [OF body_ext_case [OF frame b(4), where K = "\<lambda>_. False"]] simp: fo_I_def)
  next
    case a: 6
    show ?thesis using 1(2) unfolding a
      by (auto intro!: case_result_cong [OF body_len_case [OF frame, where K = "\<lambda>_. False"]] simp: fo_I_def)
  next
    case a: 7
    show ?thesis using 1(2) unfolding a
      by (auto intro!: case_result_cong [OF body_status_case [OF frame]] simp: fo_I_def)
  next
    case a: 8
    show ?thesis using 1(2) unfolding a
      by (auto intro!: case_result_cong [OF body_payload_case [OF frame, where K = "\<lambda>_. False"]] simp: fo_I_def)
  qed
next
  case (2 k m fut v rest)
  then show ?case
    by (cases "k < 4") (auto simp: fo_I_def body_at_def unat_of_nat_small)
next
  case (3 m fut v rest)
  then show ?case using body_final [of 4 "fo_head v" m fut v rest] by (simp add: fo_I_def eval_nat_numeral)
qed

lemma put_FetchObject_ok:
  assumes "fo_ok v"
  shows "put_FetchObject buf v = Inr (buf @ varint_bytes (fo_group_id v) @ varint_bytes (fo_subgroup_id v) @
    varint_bytes (fo_object_id v) @ [fo_publisher_priority v] @ ext_block (wire_kvps v) @ tail_bytes v)"
  using assms by (simp add: fo_ok_def msg_exts_ok_def put_FetchObject_def put_u64_ok SerializeExtensions_ok put_payload_ok
      wire_kvps_def)

text \<open>C13. A fetch object, whatever the packetisation: the reader of a fresh message ends with the
  identifiers, the priority, both extension maps, and the payload or, for an empty payload, the
  status that was sent, and leaves the stream at the next object.\<close>

theorem FetchObject_roundtrip:
  assumes "fo_ok v" "current_pos m = 0" "fresh_body m" "buffer sb = []" "cs \<noteq> []"
    "put_FetchObject [] v = Inr w" "concat cs = w @ rest"
  shows "\<exists>m'. feed get_FetchObject cs sb m = Inr (True, sb\<lparr>buffer := rest\<rparr>, m') \<and> fo_head v m' \<and> body_complete m' v"
proof -
  have "fo_I 0 m (buffer sb @ concat cs) v rest"
    using assms put_FetchObject_ok [OF assms(1), of "[]"] by (simp add: fo_I_def)
  then show ?thesis unfolding get_FetchObject_def by (intro fo.sw.feed_complete) (use assms(5) in auto)
qed

text \<open>Subgroup objects; whether they carry extensions is a property of the type of their stream,
  which the receiver knows from the header of the stream.\<close>

definition so_head :: "StreamSubGroupObject \<Rightarrow> StreamSubGroupObject \<Rightarrow> bool" where
  "so_head v m \<longleftrightarrow> so_object_delta m = so_object_delta v \<and> so_stream_type m = so_stream_type v"

definition so_ok :: "StreamSubGroupObject \<Rightarrow> bool" where
  "so_ok v \<longleftrightarrow> so_object_delta v < 2 ^ 62 \<and> msg_exts_ok v \<and> length (payload v) < 2 ^ 32 \<and>
     (case so_stream_type v of
        None \<Rightarrow> False
      | Some t \<Rightarrow> (case StreamHeaderProperties_of t of
          Inl _ \<Rightarrow> False | Inr p \<Rightarrow> \<not> may_contain_extensions p \<longrightarrow> \<not> has_exts v))"

definition so_exts :: "StreamSubGroupObject \<Rightarrow> bool" where
  "so_exts v \<longleftrightarrow> (case so_stream_type v of None \<Rightarrow> False | Some t \<Rightarrow> MayContainExtensions t = Inr True)"

definition so_I :: "nat \<Rightarrow> StreamSubGroupObject \<Rightarrow> bytes \<Rightarrow> StreamSubGroupObject \<Rightarrow> bytes \<Rightarrow> bool" where
  "so_I k m fut v rest \<longleftrightarrow> so_ok v \<and>
     (if k = 0 then current_pos m = 0 \<and> fresh_body m \<and> so_stream_type m = so_stream_type v \<and>
        fut = varint_bytes (so_object_delta v) @ (if so_exts v then ext_block (wire_kvps v) else []) @ tail_bytes v @ rest
      else if k = 1 \<and> \<not> so_exts v then current_pos m = 1 \<and> so_head v m \<and> fresh_body m \<and> fut = tail_bytes v @ rest
      else body_at 1 (so_head v) (k - 1) m fut v rest)"

lemma so_frame: "body_frame (so_head v)"
  by (simp add: body_frame_def so_head_def)

lemma so_ok_cases:
  assumes "so_ok v"
  obtains t p where "so_stream_type v = Some t" "StreamHeaderProperties_of t = Inr p"
    "so_exts v = may_contain_extensions p" "\<not> so_exts v \<longrightarrow> \<not> has_exts v"
proof -
  from assms obtain t p where t: "so_stream_type v = Some t" "StreamHeaderProperties_of t = Inr p"
    "\<not> may_contain_extensions p \<longrightarrow> \<not> has_exts v"
    by (auto simp: so_ok_def split: option.splits sum.splits)
  then have "so_exts v = may_contain_extensions p"
    by (auto simp: so_exts_def StreamHeaderProperties_of_def bind_result_Inr_iff)
  with t that show ?thesis by blast
qed

lemma object_ext_case_result:
  assumes I: "so_I 1 m (buffer sb @ c) v rest"
  shows "case_result (\<lambda>m fut. so_I 1 m fut v rest) (\<lambda>m fut. so_I 2 m fut v rest) K sb c rest (object_ext_case sb m)"
proof -
  have ok: "so_ok v" using I by (simp add: so_I_def)
  then obtain t p where t: "so_stream_type v = Some t" "StreamHeaderProperties_of t = Inr p"
    "so_exts v = may_contain_extensions p" "\<not> so_exts v \<longrightarrow> \<not> has_exts v" by (rule so_ok_cases)
  have ty: "so_stream_type m = Some t" using I t(1) by (auto simp: so_I_def so_head_def body_at_def split: if_splits)
  show ?thesis
  proof (cases "so_exts v")
    case True
    have "msg_exts_ok v" using ok by (simp add: so_ok_def)
    from case_result_cong [OF body_ext_case [OF so_frame this, where K = "\<lambda>_. False"]] I True ok
    have "case_result (\<lambda>m fut. so_I 1 m fut v rest) (\<lambda>m fut. so_I 2 m fut v rest) K sb c rest (ext_case sb m)"
      by (auto simp: so_I_def numeral_2_eq_2)
    then show ?thesis using True t ty by (simp add: object_ext_case_def)
  next
    case False
    then have none: "extensions (ext v) = None" "immutable_extensions v = None" using t(4) by (simp_all add: has_exts_def)
    have "recv_exts None None = None" "recv_imm None = None" by code_simp+
    then have "so_I 2 (next_pos (m\<lparr>ext := (ext m)\<lparr>extensions := None\<rparr>, immutable_extensions := None\<rparr>)) (buffer sb @ c) v rest"
      using I False ok none
      by (auto simp: so_I_def body_at_def body_I.simps exts_received_def so_head_def next_pos_def fresh_body_def so_ok_def)
    from no_ext_case_result [where J' = "\<lambda>m fut. so_I 2 m fut v rest", OF this] show ?thesis
      using False t ty by (simp add: object_ext_case_def)
  qed
qed

interpretation so: switch_parser
  "[uint_case (\<lambda>v msg. next_pos (msg\<lparr>so_object_delta := v\<rparr>)),
    object_ext_case, payload_len_case, status_case, payload_case]" so_I "\<lambda>m v. so_head v m \<and> body_complete m v"
proof (unfold_locales, goal_cases)
  case (1 k m sb c v rest)
  have ok: "so_ok v" using 1 by (simp add: so_I_def)
  then have b: "so_object_delta v < 2 ^ 62" "length (payload v) < 2 ^ 32" by (simp_all add: so_ok_def)
  note frame = so_frame [of v]
  from 1(1) consider "k = 0" | "k = 1" | "k = 2" | "k = 3" | "k = 4" by fastforce
  then show ?case
  proof cases
    case a: 1
    show ?thesis unfolding a nth_Cons_0
      by (rule uint_case_result [OF b(1)]) (use 1 a b(2) in
        \<open>auto simp: so_I_def so_head_def fresh_body_def next_pos_def intro!: body_at_start\<close>)
  next
    case a: 2
    show ?thesis using object_ext_case_result [of m sb c v rest] 1(2) unfolding a by (simp add: numeral_2_eq_2)
  next
    case a: 3
    show ?thesis using 1(2) unfolding a
      by (auto intro!: case_result_cong [OF body_len_case [OF frame, where K = "\<lambda>_. False"]] simp: so_I_def numeral_2_eq_2)
  next
    case a: 4
    show ?thesis using 1(2) unfolding a
      by (auto intro!: case_result_cong [OF body_status_case [OF frame]] simp: so_I_def)
  next
    case a: 5
    show ?thesis using 1(2) unfolding a
      by (auto intro!: case_result_cong [OF body_payload_case [OF frame, where K = "\<lambda>_. False"]] simp: so_I_def)
  qed
next
  case (2 k m fut v rest)
  then show ?case
    by (auto simp: so_I_def body_at_def less_Suc_eq split: if_splits)
next
  case (3 m fut v rest)
  then show ?case using body_final [of 1 "so_head v" m fut v rest] by (simp add: so_I_def eval_nat_numeral)
qed

lemma put_StreamSubGroupObject_ok:
  assumes "so_ok v"
  shows "put_StreamSubGroupObject buf v =
    Inr (buf @ varint_bytes (so_object_delta v) @ (if so_exts v then ext_block (wire_kvps v) else []) @ tail_bytes v)"
proof -
  from assms obtain t p where "so_stream_type v = Some t" "StreamHeaderProperties_of t = Inr p"
    "so_exts v = may_contain_extensions p" "\<not> so_exts v \<longrightarrow> \<not> has_exts v" by (rule so_ok_cases)
  then show ?thesis using assms
    by (simp add: so_ok_def msg_exts_ok_def put_StreamSubGroupObject_def put_u64_ok SerializeExtensions_ok put_payload_ok
        wire_kvps_def)
qed

text \<open>C11. A subgroup object, whatever the packetisation, on a stream with or without extensions: the
  reader of a fresh message that knows the type of the stream ends with the object id delta, both
  extension maps, and the payload or status that was sent.\<close>

theorem StreamSubGroupObject_roundtrip:
  assumes "so_ok v" "current_pos m = 0" "fresh_body m" "so_stream_type m = so_stream_type v" "buffer sb = []" "cs \<noteq> []"
    "put_StreamSubGroupObject [] v = Inr w" "concat cs = w @ rest"
  shows "\<exists>m'. feed get_StreamSubGroupObject cs sb m = Inr (True, sb\<lparr>buffer := rest\<rparr>, m') \<and>
    so_head v m' \<and> body_complete m' v"
proof -
  have "so_I 0 m (buffer sb @ concat cs) v rest"
    using assms put_StreamSubGroupObject_ok [OF assms(1), of "[]"] by (simp add: so_I_def)
  then show ?thesis unfolding get_StreamSubGroupObject_def by (intro so.sw.feed_complete) (use assms(6) in auto)
qed

subsection \<open>Datagrams\<close>

text \<open>A datagram arrives as a whole; the rules of the cases then give equations.\<close>

lemma case_whole:
  "case_result (\<lambda>_ _. True) (\<lambda>m' f'. m' = m2 \<and> f' = f) (\<lambda>_. False) sb [] rest r \<Longrightarrow>
     r = Inr (Fall, sb\<lparr>buffer := f\<rparr>, m2)"
  by (auto simp: case_result_def)

lemma uint_case_at:
  "v < 2 ^ 62 \<Longrightarrow> uint_case upd (sb\<lparr>buffer := varint_bytes v @ f\<rparr>) m = Inr (Fall, sb\<lparr>buffer := f\<rparr>, upd v m)"
  using case_whole [OF uint_case_result [of v "sb\<lparr>buffer := varint_bytes v @ f\<rparr>" "[]" f _ m _ upd]] by simp

lemma octet_case_at: "octet_case upd (sb\<lparr>buffer := v # f\<rparr>) m = Inr (Fall, sb\<lparr>buffer := f\<rparr>, upd v m)"
  by (simp add: octet_case_def Front_def Pop_def)

lemma ext_case_whole:
  assumes "msg_exts_ok v" "ext m = ext_init" "immutable_extensions m = None" "buffer sb = ext_block (wire_kvps v) @ f"
  shows "ext_case sb m = Inr (Fall, sb\<lparr>buffer := f\<rparr>,
    next_pos (m\<lparr>ext := ext_done (wire_kvps v), immutable_extensions := ext_map (imm_kvps v)\<rparr>))"
  by (rule case_whole, rule ext_case_result [OF msg_exts_okD [OF assms(1)] assms(3)])
    (use assms(2,4) block_inv_init in auto)

lemma no_exts_received:
  assumes "\<not> has_exts v" "extensions (ext m) = None" "immutable_extensions m = None"
  shows "exts_received m v"
proof -
  have "recv_exts None None = None" "recv_imm None = None" by code_simp+
  then show ?thesis using assms by (simp add: has_exts_def exts_received_def)
qed

text \<open>The extensions of a datagram are there exactly when its type says so.\<close>

lemma datagram_exts:
  assumes "msg_exts_ok v" "ext m = ext_init" "immutable_extensions m = None"
    "buffer sb = (if has_exts v then ext_block (wire_kvps v) else []) @ f"
  obtains st where "(if has_exts v then ext_case else no_ext_case) sb m =
      Inr (Fall, sb\<lparr>buffer := f\<rparr>, next_pos (m\<lparr>ext := st, immutable_extensions := recv_imm (immutable_extensions v)\<rparr>))"
    "extensions st = recv_exts (extensions (ext v)) (immutable_extensions v)"
proof (cases "has_exts v")
  case True
  have "exts_received (m\<lparr>ext := ext_done (wire_kvps v), immutable_extensions := ext_map (imm_kvps v)\<rparr>) v"
    by (rule exts_received_done [OF assms(1)]) simp_all
  then show ?thesis using that ext_case_whole [OF assms(1-3), of sb f] assms(4) True
    by (auto simp: exts_received_def)
next
  case False
  have "exts_received (m\<lparr>ext := (ext m)\<lparr>extensions := None\<rparr>, immutable_extensions := None\<rparr>) v"
    by (rule no_exts_received [OF False]) simp_all
  then show ?thesis using that [of "(ext m)\<lparr>extensions := None\<rparr>"] assms(4) False
    by (simp add: no_ext_case_def exts_received_def)
qed

definition od_ok :: "ObjectDatagram \<Rightarrow> bool" where
  "od_ok v \<longleftrightarrow> od_track_alias v < 2 ^ 62 \<and> od_group_id v < 2 ^ 62 \<and> od_object_id v < 2 ^ 62 \<and>
     msg_exts_ok v \<and> length (payload v) < 2 ^ 32"

definition od_complete :: "ObjectDatagram \<Rightarrow> ObjectDatagram \<Rightarrow> bool" where
  "od_complete m v \<longleftrightarrow> od_track_alias m = od_track_alias v \<and> od_group_id m = od_group_id v \<and>
     od_object_id m = od_object_id v \<and> od_priority m = od_priority v \<and> od_end_of_group m = od_end_of_group v \<and>
     exts_received m v \<and> payload m = payload v"

lemma GetType_properties:
  "DatagramHeaderProperties_of (DatagramHeaderType_of (DatagramHeaderType_value (DatagramHeader_GetType p))) = Inr p"
  by (cases p) (simp add: DatagramHeader_GetType_def DatagramHeaderType_of_def DatagramHeaderProperties_of_def)

lemma datagram_type_case_whole:
  assumes "buffer sb = varint_bytes (ucast (DatagramHeaderType_value (ObjectDatagram_GetType v))) @ f"
  shows "datagram_type_case sb m = Inr (Fall, sb\<lparr>buffer := f\<rparr>, next_pos
    (m\<lparr>od_type := Some (DatagramHeaderType_of (DatagramHeaderType_value (ObjectDatagram_GetType v))),
       od_end_of_group := od_end_of_group v\<rparr>))"
proof -
  obtain u where "UintVar_Get u = ucast (DatagramHeaderType_value (ObjectDatagram_GetType v))"
    "uintv_field (buffer sb) = Some (u, f)"
    using uintv_field_varint [OF ucast_octet(1), of _ f] assms by metis
  then show ?thesis
    using GetType_properties [of "\<lparr>dh_end_of_group = od_end_of_group v, dh_has_extensions = has_exts v\<rparr>"]
    by (simp add: datagram_type_case_def ParseUintVField_def DecodeUintV_eq ObjectDatagram_GetType_def)
qed

lemma datagram_payload_whole:
  assumes "buffer sb = p" "payload_len m = of_nat (length p)" "length p < 2 ^ 32" "payload m = []"
  shows "\<exists>r m'. datagram_payload_case sb m = Inr (r, sb\<lparr>buffer := []\<rparr>, m') \<and> r \<in> {Fall, Ret True} \<and>
    m' = m\<lparr>payload := p, parse_completed := True\<rparr>"
proof (cases "p = []")
  case True
  have "sb\<lparr>buffer := []\<rparr> = sb" using assms(1) True by (cases sb) simp
  moreover have "m\<lparr>payload := []\<rparr> = m" using assms(4) by (cases m) simp
  ultimately show ?thesis using assms True by (auto simp: datagram_payload_case_def)
next
  case False
  have n: "unat (ucast (payload_len m) :: u32) = length p"
    using assms(2,3) by (simp add: unat_ucast_u32 unat_of_nat take_bit_nat_eq_self)
  have "payload_len m \<noteq> 0" using False assms(2,3) size_as_u64 [of "length p"] by auto
  moreover have "(ucast (payload_len m) :: u32) \<noteq> 0" using n False by (metis length_0_conv unat_0)
  ultimately show ?thesis using n assms(1) False
    by (simp add: datagram_payload_case_def Available_def Front_n_def FrontInternal_def Pop_n_def PopInternal_eq)
qed

lemma put_ObjectDatagram_ok:
  assumes "od_ok v"
  shows "put_ObjectDatagram buf v = Inr (buf @ varint_bytes (ucast (DatagramHeaderType_value (ObjectDatagram_GetType v))) @
    varint_bytes (od_track_alias v) @ varint_bytes (od_group_id v) @ varint_bytes (od_object_id v) @ [od_priority v] @
    (if has_exts v then ext_block (wire_kvps v) else []) @ payload v)"
  using assms by (simp add: od_ok_def msg_exts_ok_def put_ObjectDatagram_def put_u64_ok SerializeExtensions_ok wire_kvps_def)

text \<open>C14. A datagram object: the reader of a fresh message, given a whole datagram, ends with the
  identifiers, the priority, the end-of-group mark, both extension maps and the payload that were
  sent, and with nothing left.\<close>

theorem ObjectDatagram_roundtrip:
  assumes "od_ok v" "current_pos m = 0" "fresh_body m" "put_ObjectDatagram [] v = Inr (buffer sb)"
  shows "\<exists>m'. get_ObjectDatagram sb m = Inr (True, sb\<lparr>buffer := []\<rparr>, m') \<and> od_complete m' v"
proof -
  let ?t = "DatagramHeaderType_of (DatagramHeaderType_value (ObjectDatagram_GetType v))"
  let ?m1 = "next_pos (m\<lparr>od_type := Some ?t, od_end_of_group := od_end_of_group v\<rparr>)"
  let ?m2 = "next_pos (?m1\<lparr>od_track_alias := od_track_alias v\<rparr>)"
  let ?m3 = "next_pos (?m2\<lparr>od_group_id := od_group_id v\<rparr>)"
  let ?m4 = "next_pos (?m3\<lparr>od_object_id := od_object_id v\<rparr>)"
  let ?m5 = "next_pos (?m4\<lparr>od_priority := od_priority v\<rparr>)"
  let ?imm = "recv_imm (immutable_extensions v)"
  let ?f5 = "(if has_exts v then ext_block (wire_kvps v) else []) @ payload v"
  have b: "od_track_alias v < 2 ^ 62" "od_group_id v < 2 ^ 62" "od_object_id v < 2 ^ 62" "msg_exts_ok v"
    "length (payload v) < 2 ^ 32" using assms(1) by (simp_all add: od_ok_def)
  have fut: "buffer sb = varint_bytes (ucast (DatagramHeaderType_value (ObjectDatagram_GetType v))) @
      varint_bytes (od_track_alias v) @ varint_bytes (od_group_id v) @ varint_bytes (od_object_id v) @ od_priority v # ?f5"
    using put_ObjectDatagram_ok [OF assms(1), of "[]"] assms(4) by simp
  have "ext ?m5 = ext_init" "immutable_extensions ?m5 = None" using assms(3) by (simp_all add: fresh_body_def next_pos_def)
  from datagram_exts [OF b(4) this, of "sb\<lparr>buffer := ?f5\<rparr>" "payload v"] obtain st where
    e: "(if has_exts v then ext_case else no_ext_case) (sb\<lparr>buffer := ?f5\<rparr>) ?m5 =
        Inr (Fall, sb\<lparr>buffer := payload v\<rparr>, next_pos (?m5\<lparr>ext := st, immutable_extensions := ?imm\<rparr>))"
    and r: "extensions st = recv_exts (extensions (ext v)) (immutable_extensions v)" by auto
  let ?m6 = "(next_pos (?m5\<lparr>ext := st, immutable_extensions := ?imm\<rparr>))\<lparr>payload_len := of_nat (length (payload v))\<rparr>"
  have "DatagramHeaderProperties_of ?t = Inr \<lparr>dh_end_of_group = od_end_of_group v, dh_has_extensions = has_exts v\<rparr>"
    unfolding ObjectDatagram_GetType_def by (rule GetType_properties)
  then have c5: "datagram_ext_case (sb\<lparr>buffer := ?f5\<rparr>) ?m5 = Inr (Fall, sb\<lparr>buffer := payload v\<rparr>, ?m6)"
    using e by (simp add: datagram_ext_case_def Size_sb_def next_pos_def)
  obtain x m7 where c6: "datagram_payload_case (sb\<lparr>buffer := payload v\<rparr>) ?m6 = Inr (x, sb\<lparr>buffer := []\<rparr>, m7)"
    "x \<in> {Fall, Ret True}" and m7: "m7 = ?m6\<lparr>payload := payload v, parse_completed := True\<rparr>"
    using datagram_payload_whole [of "sb\<lparr>buffer := payload v\<rparr>" "payload v" ?m6] b(5) assms(3)
    by (auto simp: fresh_body_def next_pos_def)
  have "get_ObjectDatagram sb m = Inr (True, sb\<lparr>buffer := []\<rparr>, m7)"
    using assms(2) c6(2) m7 datagram_type_case_whole [OF fut]
    by (auto simp: get_ObjectDatagram_def switch_parse_def uint_case_at [OF b(1)] uint_case_at [OF b(2)]
        uint_case_at [OF b(3)] octet_case_at c5 c6(1) split del: if_split)
  moreover have "od_complete m7 v" using r m7 by (simp add: od_complete_def exts_received_def next_pos_def)
  ultimately show ?thesis by blast
qed

definition os_ok :: "ObjectDatagramStatus \<Rightarrow> bool" where
  "os_ok v \<longleftrightarrow> os_track_alias v < 2 ^ 62 \<and> os_group_id v < 2 ^ 62 \<and> os_object_id v < 2 ^ 62 \<and> msg_exts_ok v"

definition os_complete :: "ObjectDatagramStatus \<Rightarrow> ObjectDatagramStatus \<Rightarrow> bool" where
  "os_complete m v \<longleftrightarrow> os_track_alias m = os_track_alias v \<and> os_group_id m = os_group_id v \<and>
     os_object_id m = os_object_id v \<and> os_priority m = os_priority v \<and> exts_received m v \<and>
     os_status m = ObjectStatus_of (ObjectStatus_value (os_status v))"

lemma put_ObjectDatagramStatus_ok:
  assumes "os_ok v"
  shows "put_ObjectDatagramStatus buf v =
    Inr (buf @ varint_bytes (ucast (DatagramStatusType_value (ObjectDatagramStatus_GetType v))) @
      varint_bytes (os_track_alias v) @ varint_bytes (os_group_id v) @ varint_bytes (os_object_id v) @ [os_priority v] @
      (if has_exts v then ext_block (wire_kvps v) else []) @ varint_bytes (ucast (ObjectStatus_value (os_status v))))"
  using assms
  by (simp add: os_ok_def msg_exts_ok_def put_ObjectDatagramStatus_def put_u64_ok SerializeExtensions_ok wire_kvps_def)

lemma StatusType_properties:
  "DatagramStatusProperties_of (DatagramStatusType_of (DatagramStatusType_value (ObjectDatagramStatus_GetType v))) =
     Inr \<lparr>ds_has_extensions = has_exts v\<rparr>"
  by (simp add: ObjectDatagramStatus_GetType_def DatagramStatus_GetType_def DatagramStatusType_of_def
      DatagramStatusProperties_of_def)

text \<open>A datagram status: the reader of a fresh message, given a whole datagram followed by
  anything, ends with the identifiers, the priority, both extension maps and the status that were
  sent.\<close>

theorem ObjectDatagramStatus_roundtrip:
  assumes "os_ok v" "current_pos m = 0" "ext m = ext_init" "immutable_extensions m = None"
    "put_ObjectDatagramStatus [] v = Inr w" "buffer sb = w @ rest"
  shows "\<exists>m'. get_ObjectDatagramStatus sb m = Inr (True, sb\<lparr>buffer := rest\<rparr>, m') \<and> os_complete m' v"
proof -
  let ?t = "DatagramStatusType_of (DatagramStatusType_value (ObjectDatagramStatus_GetType v))"
  let ?m1 = "next_pos (m\<lparr>os_type := Some ?t\<rparr>)"
  let ?m2 = "next_pos (?m1\<lparr>os_track_alias := os_track_alias v\<rparr>)"
  let ?m3 = "next_pos (?m2\<lparr>os_group_id := os_group_id v\<rparr>)"
  let ?m4 = "next_pos (?m3\<lparr>os_object_id := os_object_id v\<rparr>)"
  let ?m5 = "next_pos (?m4\<lparr>os_priority := os_priority v\<rparr>)"
  let ?imm = "recv_imm (immutable_extensions v)"
  let ?s = "varint_bytes (ucast (ObjectStatus_value (os_status v))) @ rest"
  let ?f5 = "(if has_exts v then ext_block (wire_kvps v) else []) @ ?s"
  have b: "os_track_alias v < 2 ^ 62" "os_group_id v < 2 ^ 62" "os_object_id v < 2 ^ 62" "msg_exts_ok v"
    using assms(1) by (simp_all add: os_ok_def)
  have fut: "buffer sb = varint_bytes (ucast (DatagramStatusType_value (ObjectDatagramStatus_GetType v))) @
      varint_bytes (os_track_alias v) @ varint_bytes (os_group_id v) @ varint_bytes (os_object_id v) @ os_priority v # ?f5"
    using put_ObjectDatagramStatus_ok [OF assms(1), of "[]"] assms(5,6) by simp
  then have sb: "sb = sb\<lparr>buffer := varint_bytes (ucast (DatagramStatusType_value (ObjectDatagramStatus_GetType v))) @
      varint_bytes (os_track_alias v) @ varint_bytes (os_group_id v) @ varint_bytes (os_object_id v) @ os_priority v # ?f5\<rparr>"
    by (cases sb) simp
  have "ext ?m5 = ext_init" "immutable_extensions ?m5 = None" using assms(3,4) by (simp_all add: next_pos_def)
  from datagram_exts [OF b(4) this, of "sb\<lparr>buffer := ?f5\<rparr>" ?s] obtain st where
    e: "(if has_exts v then ext_case else no_ext_case) (sb\<lparr>buffer := ?f5\<rparr>) ?m5 =
        Inr (Fall, sb\<lparr>buffer := ?s\<rparr>, next_pos (?m5\<lparr>ext := st, immutable_extensions := ?imm\<rparr>))"
    and r: "extensions st = recv_exts (extensions (ext v)) (immutable_extensions v)" by auto
  let ?m6 = "next_pos (?m5\<lparr>ext := st, immutable_extensions := ?imm\<rparr>)"
  let ?m7 = "(next_pos (?m6\<lparr>os_status := ObjectStatus_of (ObjectStatus_value (os_status v))\<rparr>))\<lparr>parse_completed := True\<rparr>"
  have c5: "status_ext_case (sb\<lparr>buffer := ?f5\<rparr>) ?m5 = Inr (Fall, sb\<lparr>buffer := ?s\<rparr>, ?m6)"
    using e by (simp add: status_ext_case_def StatusType_properties next_pos_def)
  have "get_ObjectDatagramStatus sb m = Inr (True, sb\<lparr>buffer := rest\<rparr>, ?m7)"
    using assms(2) by (subst sb)
      (simp add: get_ObjectDatagramStatus_def switch_parse_def uint_case_at [OF b(1)] uint_case_at [OF b(2)]
        uint_case_at [OF b(3)] uint_case_at [OF ucast_octet(1)] octet_case_at c5 split del: if_split)
  moreover have "os_complete ?m7 v" using r by (simp add: os_complete_def exts_received_def next_pos_def)
  ultimately show ?thesis by blast
qed

subsection \<open>Where the readers give up\<close>

text \<open>The payload length of an object on a stream is a 62-bit number, but the reader hands it to
  functions that take 32 bits: it waits only for the length modulo 2^32 and takes only so many
  octets as the payload, and with a multiple of 2^32 it never completes, whatever has arrived.\<close>

theorem payload_length_truncated:
  assumes "current_pos m = 7" "payload_len m \<noteq> 0"
  shows "get_FetchObject sb m =
    (let n = unat (payload_len m) mod 2 ^ 32 in
     if n = 0 \<or> length (buffer sb) < n then Inr (False, sb, m)
     else Inr (True, sb\<lparr>buffer := drop n (buffer sb)\<rparr>, m\<lparr>payload := take n (buffer sb), parse_completed := True\<rparr>))"
proof -
  let ?len = "ucast (payload_len m) :: u32"
  have n: "unat ?len = unat (payload_len m) mod 2 ^ 32" by (rule unat_ucast_u32)
  have z: "?len = 0 \<longleftrightarrow> unat ?len = 0" by (simp add: unat_eq_0)
  have "unat (7 :: u64) = 7" by simp
  then have "get_FetchObject sb m = bind_result (payload_case sb m) (\<lambda>(r, sb', m').
      Inr (case r of Fall \<Rightarrow> parse_completed m' | Ret b \<Rightarrow> b, sb', m'))"
    using assms(1) by (simp add: get_FetchObject_def switch_parse_def bind_result_def split: sum.splits outcome.splits)
  then show ?thesis unfolding n [symmetric] using z
    by (auto simp: payload_case_def Available_def Front_n_def FrontInternal_def Pop_n_def PopInternal_eq Let_def)
qed

text \<open>A received subgroup header whose type implies subgroup zero cannot be written again: the
  reader stores the implied id, and the writer throws when an id is set although the type is not
  explicit.\<close>

theorem parsed_header_not_writable:
  assumes "hs_ok v" "GetSubgroupIdType (hs_type v) = Inr kIsZero" "hs_complete m v"
  shows "put_StreamHeaderSubGroup buf m =
    Inl (Invalid_Argument ''Subgroup ID must be not set when type is not kExplicit'')"
proof -
  obtain p where p: "StreamHeaderProperties_of (hs_type v) = Inr p" "subgroup_id_type p = kIsZero"
    using assms(1,2) by (auto simp: hs_ok_def StreamHeaderProperties_of_def bind_result_Inr_iff split: sum.splits)
  have "hs_recv_id v = Some 0" using assms(2) by (simp add: hs_recv_id_def)
  then show ?thesis using assms(1,3) p
    by (simp add: put_StreamHeaderSubGroup_def hs_complete_def hs_ok_def put_u64_ok)
qed

subsection \<open>The theorems on concrete messages\<close>

definition sb0 :: "unit StreamBuffer" where "sb0 = StreamBuffer_new"

definition fetch_header0 :: FetchHeader where
  "fetch_header0 = \<lparr>current_pos = 0, parse_completed = False, fh_type = FetchHeaderType_kFetchHeader, fh_request_id = 7\<rparr>"

theorem FetchHeader_roundtrip_witness:
  "\<exists>m'. feed get_FetchHeader [[5], [7, 1]] sb0 fetch_header0 = Inr (True, sb0\<lparr>buffer := [1]\<rparr>, m') \<and> fh_complete m' fetch_header0"
proof -
  have "varint_bytes 5 = [5]" "varint_bytes 7 = [7]" by code_simp+
  then have "put_FetchHeader [] fetch_header0 = Inr [5, 7]"
    by (simp add: put_FetchHeader_def fetch_header0_def put_u64_ok)
  then show ?thesis
    using FetchHeader_roundtrip [of fetch_header0 fetch_header0 sb0 "[[5], [7, 1]]" "[5, 7]" "[1]"]
    by (simp add: fetch_header0_def sb0_def StreamBuffer_new_def)
qed

definition subgroup_header0 :: StreamHeaderSubGroup where
  "subgroup_header0 = \<lparr>current_pos = 0, parse_completed = False, hs_type = StreamHeaderType_kSubgroup0EndOfGroupNoExtensions,
     hs_track_alias = 3, hs_group_id = 4, hs_subgroup_id = None, hs_priority = 9\<rparr>"

lemma subgroup_header0_ok: "hs_ok subgroup_header0"
  by (simp add: hs_ok_def subgroup_header0_def StreamHeaderProperties_of_def)

theorem StreamHeaderSubGroup_roundtrip_witness:
  "\<exists>m'. feed get_StreamHeaderSubGroup [[24, 3], [], [4, 9, 8]] sb0 subgroup_header0 =
     Inr (True, sb0\<lparr>buffer := [8]\<rparr>, m') \<and> hs_complete m' subgroup_header0"
proof -
  have "varint_bytes 24 = [24]" "varint_bytes 3 = [3]" "varint_bytes 4 = [4]" by code_simp+
  then have "put_StreamHeaderSubGroup [] subgroup_header0 = Inr [24, 3, 4, 9]"
    unfolding put_StreamHeaderSubGroup_ok [OF subgroup_header0_ok] by (simp add: subgroup_header0_def hs_id_def)
  then show ?thesis
    using StreamHeaderSubGroup_roundtrip [OF subgroup_header0_ok, of subgroup_header0 sb0 "[[24, 3], [], [4, 9, 8]]"
        "[24, 3, 4, 9]" "[8]"] by (simp add: subgroup_header0_def sb0_def StreamBuffer_new_def)
qed

theorem parsed_header_not_writable_witness:
  "put_StreamHeaderSubGroup [] (subgroup_header0\<lparr>hs_subgroup_id := Some 0\<rparr>) =
     Inl (Invalid_Argument ''Subgroup ID must be not set when type is not kExplicit'')"
  by (rule parsed_header_not_writable [OF subgroup_header0_ok])
    (simp_all add: subgroup_header0_def hs_complete_def hs_recv_id_def)

text \<open>The octets of the parts of an object without extensions.\<close>

lemma plain_object:
  assumes "extensions (ext v) = None" "immutable_extensions v = None"
  shows "msg_exts_ok v" "wire_kvps v = []" "\<not> has_exts v"
  using assms by (simp_all add: msg_exts_ok_def exts_ok_def wire_kvps_def wire_map_def ps_ok_def has_exts_def)

lemma ext_block_empty [simp]: "ext_block [] = [0]"
  by code_simp

definition fetch_object0 :: FetchObject where
  "fetch_object0 = \<lparr>current_pos = 0, parse_completed = False, ext = ext_init, immutable_extensions = None, payload_len = 0,
     object_status = ObjectStatus_kAvailable, payload = [], fo_group_id = 1, fo_subgroup_id = 2, fo_object_id = 3,
     fo_publisher_priority = 4\<rparr>"

theorem FetchObject_roundtrip_witness:
  "\<exists>m'. feed get_FetchObject [[1, 2], [3, 4, 0, 2], [50, 60, 99]] sb0 fetch_object0 = Inr (True, sb0\<lparr>buffer := [99]\<rparr>, m') \<and>
     fo_head fetch_object0 m' \<and> body_complete m' (fetch_object0\<lparr>payload := [50, 60]\<rparr>)"
proof -
  let ?v = "fetch_object0\<lparr>payload := [50, 60]\<rparr>"
  have p: "msg_exts_ok ?v" "wire_kvps ?v = []"
    by (rule plain_object; simp add: fetch_object0_def ext_init_def)+
  have "varint_bytes 1 = [1]" "varint_bytes 2 = [2]" "varint_bytes 3 = [3]" by code_simp+
  moreover have ok: "fo_ok ?v" using p(1) by (simp add: fo_ok_def) (simp add: fetch_object0_def)
  ultimately have "put_FetchObject [] ?v = Inr [1, 2, 3, 4, 0, 2, 50, 60]"
    unfolding put_FetchObject_ok [OF ok] p(2) by (simp add: fetch_object0_def tail_bytes_def)
  then show ?thesis
    using FetchObject_roundtrip [OF ok, of fetch_object0 sb0 "[[1, 2], [3, 4, 0, 2], [50, 60, 99]]" _ "[99]"]
    by (simp add: fetch_object0_def sb0_def StreamBuffer_new_def fresh_body_def fo_head_def)
qed

definition subgroup_object0 :: StreamSubGroupObject where
  "subgroup_object0 = \<lparr>current_pos = 0, parse_completed = False, ext = ext_init, immutable_extensions = None, payload_len = 0,
     object_status = ObjectStatus_kEndOfGroup, payload = [], so_object_delta = 6,
     so_stream_type = Some StreamHeaderType_kSubgroupExplicitNotEndOfGroupNoExtensions\<rparr>"

theorem StreamSubGroupObject_roundtrip_witness:
  "\<exists>m'. feed get_StreamSubGroupObject [[6, 0], [3]] sb0 subgroup_object0 = Inr (True, sb0, m') \<and>
     so_head subgroup_object0 m' \<and> body_complete m' subgroup_object0"
proof -
  let ?v = subgroup_object0
  have p: "msg_exts_ok ?v" "wire_kvps ?v = []" "\<not> has_exts ?v"
    by (rule plain_object; simp add: subgroup_object0_def ext_init_def)+
  have "varint_bytes 6 = [6]" "varint_bytes 3 = [3]" by code_simp+
  moreover have ok: "so_ok ?v" using p by (simp add: so_ok_def)
      (simp add: subgroup_object0_def StreamHeaderProperties_of_def)
  moreover have "\<not> so_exts ?v" by (simp add: so_exts_def subgroup_object0_def)
  ultimately have "put_StreamSubGroupObject [] ?v = Inr [6, 0, 3]"
    unfolding put_StreamSubGroupObject_ok [OF ok] by (simp add: subgroup_object0_def tail_bytes_def status_bytes_def)
  then show ?thesis
    using StreamSubGroupObject_roundtrip [OF ok, of subgroup_object0 sb0 "[[6, 0], [3]]" _ "[]"]
    by (simp add: subgroup_object0_def sb0_def StreamBuffer_new_def fresh_body_def)
qed

definition datagram0 :: ObjectDatagram where
  "datagram0 = \<lparr>current_pos = 0, parse_completed = False, ext = ext_init, immutable_extensions = None, payload_len = 0,
     object_status = ObjectStatus_kAvailable, payload = [], od_track_alias = 1, od_group_id = 2, od_object_id = 3,
     od_priority = 4, od_end_of_group = True, od_type = None\<rparr>"

theorem ObjectDatagram_roundtrip_witness:
  "\<exists>m'. get_ObjectDatagram (sb0\<lparr>buffer := [2, 1, 2, 3, 4, 50, 60]\<rparr>) datagram0 = Inr (True, sb0, m') \<and>
     od_complete m' (datagram0\<lparr>payload := [50, 60]\<rparr>)"
proof -
  let ?v = "datagram0\<lparr>payload := [50, 60]\<rparr>"
  have p: "msg_exts_ok ?v" "\<not> has_exts ?v" by (rule plain_object; simp add: datagram0_def ext_init_def)+
  have "varint_bytes 1 = [1]" "varint_bytes 2 = [2]" "varint_bytes 3 = [3]" by code_simp+
  moreover have ok: "od_ok ?v" using p(1) by (simp add: od_ok_def) (simp add: datagram0_def)
  ultimately have "put_ObjectDatagram [] ?v = Inr [2, 1, 2, 3, 4, 50, 60]"
    unfolding put_ObjectDatagram_ok [OF ok] using p(2)
    by (simp add: ObjectDatagram_GetType_def DatagramHeader_GetType_def) (simp add: datagram0_def)
  then show ?thesis
    using ObjectDatagram_roundtrip [OF ok, of datagram0 "sb0\<lparr>buffer := [2, 1, 2, 3, 4, 50, 60]\<rparr>"]
    by (simp add: datagram0_def sb0_def StreamBuffer_new_def fresh_body_def)
qed

definition datagram_status0 :: ObjectDatagramStatus where
  "datagram_status0 = \<lparr>current_pos = 0, parse_completed = False, ext = ext_init, immutable_extensions = None,
     os_track_alias = 1, os_group_id = 2, os_object_id = 3, os_priority = 4, os_status = ObjectStatus_kEndOfTrack,
     os_type = None\<rparr>"

theorem ObjectDatagramStatus_roundtrip_witness:
  "\<exists>m'. get_ObjectDatagramStatus (sb0\<lparr>buffer := [4, 1, 2, 3, 4, 4, 9]\<rparr>) datagram_status0 =
     Inr (True, sb0\<lparr>buffer := [9]\<rparr>, m') \<and> os_complete m' datagram_status0"
proof -
  let ?v = datagram_status0
  have p: "msg_exts_ok ?v" "\<not> has_exts ?v" by (rule plain_object; simp add: datagram_status0_def ext_init_def)+
  have "varint_bytes 1 = [1]" "varint_bytes 2 = [2]" "varint_bytes 3 = [3]" "varint_bytes 4 = [4]" by code_simp+
  moreover have ok: "os_ok ?v" using p(1) by (simp add: os_ok_def) (simp add: datagram_status0_def)
  ultimately have "put_ObjectDatagramStatus [] ?v = Inr [4, 1, 2, 3, 4, 4]"
    unfolding put_ObjectDatagramStatus_ok [OF ok] using p(2)
    by (simp add: ObjectDatagramStatus_GetType_def DatagramStatus_GetType_def) (simp add: datagram_status0_def)
  then show ?thesis
    using ObjectDatagramStatus_roundtrip [OF ok, of datagram_status0 _ "sb0\<lparr>buffer := [4, 1, 2, 3, 4, 4, 9]\<rparr>" "[9]"]
    by (simp add: datagram_status0_def sb0_def StreamBuffer_new_def)
qed

theorem payload_length_truncated_witness:
  "get_FetchObject (sb0\<lparr>buffer := [1, 2, 3]\<rparr>) (fetch_object0\<lparr>current_pos := 7, payload_len := 4294967296\<rparr>) =
     Inr (False, sb0\<lparr>buffer := [1, 2, 3]\<rparr>, fetch_object0\<lparr>current_pos := 7, payload_len := 4294967296\<rparr>)"
  using payload_length_truncated [of "fetch_object0\<lparr>current_pos := 7, payload_len := 4294967296\<rparr>"
      "sb0\<lparr>buffer := [1, 2, 3]\<rparr>"] by simp

end
