(* ===== verification/Quic_Metrics.thy ===== *)
theory Quic_Metrics
  imports Quicr_Prelude
begin

section \<open>Metrics of the QUIC transport\<close>

text \<open>
  The counters of \<^verbatim>\<open>detail/quic_transport_metrics.h\<close>: minimum, maximum and average of the samples of a
  period, and the metrics of a connection and of a data context. All values are \<^verbatim>\<open>uint64_t\<close>.
\<close>

record MinMaxAvg =
  mma_min :: u64
  mma_max :: u64
  mma_avg :: u64
  mma_value_sum :: u64
  mma_value_count :: u64

definition MinMaxAvg_Clear :: MinMaxAvg where
  "MinMaxAvg_Clear = \<lparr>mma_min = 0, mma_max = 0, mma_avg = 0, mma_value_sum = 0, mma_value_count = 0\<rparr>"

definition AddValue :: "u64 \<Rightarrow> MinMaxAvg \<Rightarrow> MinMaxAvg" where
  "AddValue v m =
     (let total = mma_value_sum m + v;
          n = mma_value_count m + 1;
          n = (if n = 0 then 1 else n)
      in \<lparr>mma_min = (if mma_min m \<noteq> 0 then min (mma_min m) v else v), mma_max = max (mma_max m) v,
          mma_avg = total div n, mma_value_sum = total, mma_value_count = n\<rparr>)"

record QuicConnectionMetrics =
  qc_cwin_congested :: u64
  qc_prev_cwin_congested :: u64
  qc_tx_congested :: u64
  qc_tx_rate_bps :: MinMaxAvg
  qc_rx_rate_bps :: MinMaxAvg
  qc_tx_cwin_bytes :: MinMaxAvg
  qc_tx_in_transit_bytes :: MinMaxAvg
  qc_rtt_us :: MinMaxAvg
  qc_srtt_us :: MinMaxAvg
  qc_tx_retransmits :: u64
  qc_tx_lost_pkts :: u64
  qc_tx_timer_losses :: u64
  qc_tx_spurious_losses :: u64
  qc_rx_dgrams :: u64
  qc_rx_dgrams_bytes :: u64
  qc_tx_dgram_cb :: u64
  qc_tx_dgram_ack :: u64
  qc_tx_dgram_lost :: u64
  qc_tx_dgram_spurious :: u64
  qc_tx_dgram_drops :: u64

definition QuicConnectionMetrics_new :: QuicConnectionMetrics where
  "QuicConnectionMetrics_new =
     \<lparr>qc_cwin_congested = 0, qc_prev_cwin_congested = 0, qc_tx_congested = 0, qc_tx_rate_bps = MinMaxAvg_Clear,
      qc_rx_rate_bps = MinMaxAvg_Clear, qc_tx_cwin_bytes = MinMaxAvg_Clear, qc_tx_in_transit_bytes = MinMaxAvg_Clear,
      qc_rtt_us = MinMaxAvg_Clear, qc_srtt_us = MinMaxAvg_Clear, qc_tx_retransmits = 0, qc_tx_lost_pkts = 0,
      qc_tx_timer_losses = 0, qc_tx_spurious_losses = 0, qc_rx_dgrams = 0, qc_rx_dgrams_bytes = 0, qc_tx_dgram_cb = 0,
      qc_tx_dgram_ack = 0, qc_tx_dgram_lost = 0, qc_tx_dgram_spurious = 0, qc_tx_dgram_drops = 0\<rparr>"

definition qc_ResetPeriod :: "QuicConnectionMetrics \<Rightarrow> QuicConnectionMetrics" where
  "qc_ResetPeriod m =
     m\<lparr>qc_tx_rate_bps := MinMaxAvg_Clear, qc_rx_rate_bps := MinMaxAvg_Clear, qc_tx_cwin_bytes := MinMaxAvg_Clear,
       qc_tx_in_transit_bytes := MinMaxAvg_Clear, qc_rtt_us := MinMaxAvg_Clear, qc_srtt_us := MinMaxAvg_Clear\<rparr>"

record QuicDataContextMetrics =
  qd_enqueued_objs :: u64
  qd_rx_stream_cb :: u64
  qd_rx_stream_bytes :: u64
  qd_tx_buffer_drops :: u64
  qd_tx_queue_discards :: u64
  qd_tx_queue_expired :: u64
  qd_tx_delayed_callback :: u64
  qd_prev_tx_delayed_callback :: u64
  qd_tx_reset_wait :: u64
  qd_tx_queue_size :: MinMaxAvg
  qd_tx_callback_ms :: MinMaxAvg
  qd_tx_object_duration_us :: MinMaxAvg
  qd_tx_dgrams :: u64
  qd_tx_dgrams_bytes :: u64
  qd_tx_stream_cb :: u64
  qd_tx_stream_objects :: u64
  qd_tx_stream_bytes :: u64

definition QuicDataContextMetrics_new :: QuicDataContextMetrics where
  "QuicDataContextMetrics_new =
     \<lparr>qd_enqueued_objs = 0, qd_rx_stream_cb = 0, qd_rx_stream_bytes = 0, qd_tx_buffer_drops = 0, qd_tx_queue_discards = 0,
      qd_tx_queue_expired = 0, qd_tx_delayed_callback = 0, qd_prev_tx_delayed_callback = 0, qd_tx_reset_wait = 0,
      qd_tx_queue_size = MinMaxAvg_Clear, qd_tx_callback_ms = MinMaxAvg_Clear, qd_tx_object_duration_us = MinMaxAvg_Clear,
      qd_tx_dgrams = 0, qd_tx_dgrams_bytes = 0, qd_tx_stream_cb = 0, qd_tx_stream_objects = 0, qd_tx_stream_bytes = 0\<rparr>"

definition qd_ResetPeriod :: "QuicDataContextMetrics \<Rightarrow> QuicDataContextMetrics" where
  "qd_ResetPeriod m =
     m\<lparr>qd_tx_queue_size := MinMaxAvg_Clear, qd_tx_callback_ms := MinMaxAvg_Clear, qd_tx_object_duration_us := MinMaxAvg_Clear\<rparr>"

subsection \<open>The samples of a period\<close>

definition samples :: "u64 list \<Rightarrow> MinMaxAvg" where
  "samples vs = fold AddValue vs MinMaxAvg_Clear"

lemma samples_fields:
  assumes "sum_list (map unat vs) < 2 ^ 64" "length vs < 2 ^ 64" "0 \<notin> set vs" "vs \<noteq> []"
  shows "unat (mma_value_sum (samples vs)) = sum_list (map unat vs) \<and> unat (mma_value_count (samples vs)) = length vs \<and>
    mma_min (samples vs) = Min (set vs) \<and> mma_max (samples vs) = Max (set vs) \<and>
    unat (mma_avg (samples vs)) = sum_list (map unat vs) div length vs"
  using assms
proof (induction vs rule: rev_induct)
  case (snoc v vs)
  let ?m = "samples vs"
  have step: "samples (vs @ [v]) = AddValue v ?m" by (simp add: samples_def)
  have len: "length vs + 1 < 2 ^ 64" and tot: "sum_list (map unat vs) + unat v < 2 ^ 64" using snoc.prems by simp_all
  show ?case
  proof (cases "vs = []")
    case True
    then show ?thesis using snoc.prems by (simp add: step) (simp add: samples_def AddValue_def MinMaxAvg_Clear_def)
  next
    case False
    have IH: "unat (mma_value_sum ?m) = sum_list (map unat vs)" "unat (mma_value_count ?m) = length vs"
      "mma_min ?m = Min (set vs)" "mma_max ?m = Max (set vs)"
      using snoc.IH False tot len snoc.prems(3) by simp_all
    have n: "unat (mma_value_count ?m + 1) = length vs + 1" using IH(2) len by (simp add: unat_word_ariths)
    have s: "unat (mma_value_sum ?m + v) = sum_list (map unat vs) + unat v" using IH(1) tot by (simp add: unat_word_ariths)
    have n0: "mma_value_count ?m + 1 \<noteq> 0" using n by (metis Suc_eq_plus1 nat.distinct(1) unat_0)
    have "Min (set vs) \<in> set vs" using False by (intro Min_in) auto
    then have m0: "Min (set vs) \<noteq> 0" using snoc.prems(3) by (metis Un_iff set_append)
    show ?thesis unfolding step using n s n0 m0 IH(3,4) False
      by (simp add: AddValue_def Let_def unat_div min.commute max.commute)
  qed
qed simp

text \<open>When no sample is zero and nothing wraps around, the minimum, the maximum and the average over a
  period are those of its samples, the average rounded down.\<close>

theorem MinMaxAvg_samples:
  assumes "sum_list (map unat vs) < 2 ^ 64" "length vs < 2 ^ 64" "0 \<notin> set vs" "vs \<noteq> []"
  shows "mma_min (samples vs) = Min (set vs) \<and> mma_max (samples vs) = Max (set vs) \<and>
    unat (mma_avg (samples vs)) = sum_list (map unat vs) div length vs"
  using samples_fields [OF assms] by simp

theorem MinMaxAvg_samples_witness:
  "mma_min (samples [4, 9, 6]) = Min {4, 9, 6} \<and> mma_max (samples [4, 9, 6]) = Max {4, 9, 6}"
  using MinMaxAvg_samples [of "[4, 9, 6]"] by simp

text \<open>A sample of zero is forgotten by the next one: the minimum of a period with a zero in it can be positive.\<close>

theorem MinMaxAvg_forgets_zero:
  "mma_min (samples (vs @ [0, v])) = v"
  by (simp add: samples_def AddValue_def Let_def)

end
