(* ===== verification/Publish_Handler.thy ===== *)
theory Publish_Handler
  imports Data_Messages Quic_Metrics
begin

section \<open>Publishing objects\<close>

text \<open>
  \<^verbatim>\<open>PublishTrackHandler\<close> (\<^verbatim>\<open>publish_track_handler.h\<close>, \<^verbatim>\<open>src/publish_track_handler.cpp\<close>) and
  \<^verbatim>\<open>PublishFetchHandler\<close> (\<^verbatim>\<open>publish_fetch_handler.h\<close>, \<^verbatim>\<open>src/publish_fetch_handler.cpp\<close>).
  The transport is the interface \<^verbatim>\<open>ITransport\<close>: a state and the function \<open>enqueue\<close> on it, both
  arguments here; an expired weak pointer to it is \<open>None\<close>. An operation returns its status or the
  exception it throws together with the transport and the handler, which keeps what was assigned
  before an exception. Members of a message that the code leaves uninitialised before it is written
  are arguments too: \<open>status0\<close> and \<open>subgroup0\<close>. The message buffer is cleared by every call before
  it is used, so it is local to the call.
\<close>

datatype TransportError =
    TransportError_kNone | TransportError_kQueueFull | TransportError_kUnknownError | TransportError_kPeerDisconnected
  | TransportError_kPeerUnreachable | TransportError_kCannotResolveHostname | TransportError_kInvalidConnContextId
  | TransportError_kInvalidDataContextId | TransportError_kInvalidIpv4Address | TransportError_kInvalidIpv6Address
  | TransportError_kInvalidStreamId

record EnqueueFlags =
  use_reliable :: bool
  new_stream :: bool
  clear_tx_queue :: bool
  use_reset :: bool

definition EnqueueFlags_default :: EnqueueFlags where
  "EnqueueFlags_default = \<lparr>use_reliable = False, new_stream = False, clear_tx_queue = False, use_reset = False\<rparr>"

record enqueue_call =
  eq_conn_id :: u64
  eq_data_ctx_id :: u64
  eq_group_id :: u64
  eq_bytes :: bytes
  eq_priority :: u8
  eq_ttl_ms :: u32
  eq_delay_ms :: u32
  eq_flags :: EnqueueFlags

type_synonym 't enqueue = "enqueue_call \<Rightarrow> 't \<Rightarrow> TransportError \<times> 't"

datatype TrackMode = TrackMode_kDatagram | TrackMode_kStream

record ObjectHeaders =
  oh_group_id :: u64
  oh_object_id :: u64
  oh_subgroup_id :: u64
  oh_payload_length :: u64
  oh_status :: ObjectStatus
  oh_priority :: "u8 option"
  oh_ttl :: "u16 option"
  oh_track_mode :: "TrackMode option"
  oh_extensions :: "Extensions option"
  oh_immutable_extensions :: "Extensions option"

datatype PublishObjectStatus =
    PublishObjectStatus_kOk | PublishObjectStatus_kInternalError | PublishObjectStatus_kNotAuthorized
  | PublishObjectStatus_kNotAnnounced | PublishObjectStatus_kNoSubscribers | PublishObjectStatus_kObjectPayloadLengthExceeded
  | PublishObjectStatus_kPreviousObjectTruncated | PublishObjectStatus_kNoPreviousObject
  | PublishObjectStatus_kObjectDataComplete | PublishObjectStatus_kObjectContinuationDataNeeded
  | PublishObjectStatus_kObjectDataIncomplete | PublishObjectStatus_kObjectDataTooLarge
  | PublishObjectStatus_kPreviousObjectNotCompleteMustStartNewGroup
  | PublishObjectStatus_kPreviousObjectNotCompleteMustStartNewTrack | PublishObjectStatus_kPaused
  | PublishObjectStatus_kPendingPublishOk

datatype PublishStatus =
    PublishStatus_kOk | PublishStatus_kNotConnected | PublishStatus_kNotAnnounced | PublishStatus_kPendingAnnounceResponse
  | PublishStatus_kAnnounceNotAuthorized | PublishStatus_kNoSubscribers | PublishStatus_kSendingUnannounce
  | PublishStatus_kSubscriptionUpdated | PublishStatus_kNewGroupRequested | PublishStatus_kPendingPublishOk
  | PublishStatus_kPaused

text \<open>The metrics of a track. The time of the last sample has no initialiser and is set before a sample is reported; it
  starts at 0 here.\<close>

record PublishTrackQuic =
  ptq_tx_buffer_drops :: u64
  ptq_tx_queue_discards :: u64
  ptq_tx_queue_expired :: u64
  ptq_tx_delayed_callback :: u64
  ptq_tx_reset_wait :: u64
  ptq_tx_queue_size :: MinMaxAvg
  ptq_tx_callback_ms :: MinMaxAvg
  ptq_tx_object_duration_us :: MinMaxAvg

record PublishTrackMetrics =
  ptm_last_sample_time :: u64
  bytes_published :: u64
  objects_published :: u64
  objects_dropped_not_ok :: u64
  ptm_quic :: PublishTrackQuic

definition PublishTrackMetrics_new :: PublishTrackMetrics where
  "PublishTrackMetrics_new = \<lparr>ptm_last_sample_time = 0, bytes_published = 0, objects_published = 0, objects_dropped_not_ok = 0,
     ptm_quic = \<lparr>ptq_tx_buffer_drops = 0, ptq_tx_queue_discards = 0, ptq_tx_queue_expired = 0, ptq_tx_delayed_callback = 0,
       ptq_tx_reset_wait = 0, ptq_tx_queue_size = MinMaxAvg_Clear, ptq_tx_callback_ms = MinMaxAvg_Clear,
       ptq_tx_object_duration_us = MinMaxAvg_Clear\<rparr>\<rparr>"

record PublishTrackHandler =
  pth_connection_id :: u64
  pth_request_id :: "u64 option"
  publish_status :: PublishStatus
  default_track_mode :: TrackMode
  stream_mode :: StreamHeaderType
  default_priority :: u8
  default_ttl :: u32
  publish_data_ctx_id :: u64
  latest_group_id :: u64
  latest_sub_group_id :: u64
  latest_object_id :: "u64 option"
  pth_track_alias :: "u64 option"
  use_announce :: bool
  pending_new_group_request_id :: "u64 option"
  publish_track_metrics :: PublishTrackMetrics

subsection \<open>Construction and status\<close>

text \<open>The members without an initialiser, \<^verbatim>\<open>stream_mode_\<close> in datagram mode and the data context,
  take the values of the arguments \<open>mode0\<close> and \<open>ctx0\<close>.\<close>

definition PublishTrackHandler_new ::
  "StreamHeaderType \<Rightarrow> u64 \<Rightarrow> u64 \<Rightarrow> TrackMode \<Rightarrow> u8 \<Rightarrow> u32 \<Rightarrow> StreamHeaderType option \<Rightarrow> PublishTrackHandler result" where
  "PublishTrackHandler_new mode0 ctx0 conn0 track_mode priority ttl mode =
     (let h = \<lparr>pth_connection_id = conn0, pth_request_id = None, publish_status = PublishStatus_kNotAnnounced,
        default_track_mode = track_mode, stream_mode = mode0, default_priority = priority, default_ttl = ttl,
        publish_data_ctx_id = ctx0, latest_group_id = 0, latest_sub_group_id = 0, latest_object_id = None,
        pth_track_alias = None, use_announce = False, pending_new_group_request_id = None,
        publish_track_metrics = PublishTrackMetrics_new\<rparr>
      in case track_mode of
           TrackMode_kDatagram \<Rightarrow>
             if mode \<noteq> None then Inl (Invalid_Argument ''Datagram track mode should not specify a stream mode'') else Inr h
         | TrackMode_kStream \<Rightarrow>
             Inr (h\<lparr>stream_mode := (case mode of Some t \<Rightarrow> t | None \<Rightarrow> StreamHeaderType_kSubgroup0NotEndOfGroupWithExtensions)\<rparr>))"

definition CanPublish :: "PublishTrackHandler \<Rightarrow> bool" where
  "CanPublish h = (case publish_status h of
      PublishStatus_kOk \<Rightarrow> True | PublishStatus_kNewGroupRequested \<Rightarrow> True | PublishStatus_kSubscriptionUpdated \<Rightarrow> True
    | _ \<Rightarrow> False)"

text \<open>\<^verbatim>\<open>SetStatus\<close> and whether it calls \<^verbatim>\<open>StatusChanged\<close>.\<close>

definition pth_SetStatus :: "PublishStatus \<Rightarrow> PublishTrackHandler \<Rightarrow> PublishTrackHandler \<times> bool" where
  "pth_SetStatus status h =
     (if publish_status h = status then (h, False) else (h\<lparr>publish_status := status\<rparr>, True))"

text \<open>The defaults. Changing the mode of the track leaves \<^verbatim>\<open>stream_mode_\<close> as it is.\<close>

definition SetDefaultPriority :: "u8 \<Rightarrow> PublishTrackHandler \<Rightarrow> PublishTrackHandler" where
  "SetDefaultPriority priority h = h\<lparr>default_priority := priority\<rparr>"

definition SetDefaultTTL :: "u32 \<Rightarrow> PublishTrackHandler \<Rightarrow> PublishTrackHandler" where
  "SetDefaultTTL ttl h = h\<lparr>default_ttl := ttl\<rparr>"

definition SetDefaultTrackMode :: "TrackMode \<Rightarrow> PublishTrackHandler \<Rightarrow> PublishTrackHandler" where
  "SetDefaultTrackMode track_mode h = h\<lparr>default_track_mode := track_mode\<rparr>"

definition SetUseAnnounce :: "bool \<Rightarrow> PublishTrackHandler \<Rightarrow> PublishTrackHandler" where
  "SetUseAnnounce announce h = h\<lparr>use_announce := announce\<rparr>"

definition drop_not_ok :: "PublishTrackHandler \<Rightarrow> PublishTrackHandler" where
  "drop_not_ok h = h\<lparr>publish_track_metrics :=
     (publish_track_metrics h)\<lparr>objects_dropped_not_ok := objects_dropped_not_ok (publish_track_metrics h) + 1\<rparr>\<rparr>"

text \<open>Enqueuing, with the exception that a failed call throws.\<close>

definition enqueue_or_throw ::
  "'t enqueue \<Rightarrow> enqueue_call \<Rightarrow> 't \<Rightarrow> unit result \<times> 't" where
  "enqueue_or_throw enqueue call t =
     (let (r, t') = enqueue call t
      in (if r \<noteq> TransportError_kNone then Inl (Runtime_Error ''TransportException'') else Inr (), t'))"

subsection \<open>Forwarding\<close>

definition forward_gate :: "bool \<Rightarrow> PublishTrackHandler \<Rightarrow> (PublishObjectStatus \<times> PublishTrackHandler) + PublishTrackHandler" where
  "forward_gate is_new_stream h =
     (case publish_status h of
        PublishStatus_kOk \<Rightarrow> Inr h
      | PublishStatus_kPaused \<Rightarrow> Inl (PublishObjectStatus_kPaused, drop_not_ok h)
      | PublishStatus_kNoSubscribers \<Rightarrow> Inl (PublishObjectStatus_kNoSubscribers, drop_not_ok h)
      | PublishStatus_kPendingAnnounceResponse \<Rightarrow> Inl (PublishObjectStatus_kNotAnnounced, drop_not_ok h)
      | PublishStatus_kNotAnnounced \<Rightarrow> Inl (PublishObjectStatus_kNotAnnounced, drop_not_ok h)
      | PublishStatus_kNotConnected \<Rightarrow> Inl (PublishObjectStatus_kNotAnnounced, drop_not_ok h)
      | PublishStatus_kAnnounceNotAuthorized \<Rightarrow> Inl (PublishObjectStatus_kNotAuthorized, drop_not_ok h)
      | PublishStatus_kNewGroupRequested \<Rightarrow> Inr (if is_new_stream then h\<lparr>publish_status := PublishStatus_kOk\<rparr> else h)
      | PublishStatus_kSubscriptionUpdated \<Rightarrow> Inr (if is_new_stream then h\<lparr>publish_status := PublishStatus_kOk\<rparr> else h)
      | PublishStatus_kPendingPublishOk \<Rightarrow> Inl (PublishObjectStatus_kPendingPublishOk, drop_not_ok h)
      | PublishStatus_kSendingUnannounce \<Rightarrow> Inl (PublishObjectStatus_kInternalError, drop_not_ok h))"

definition forward_flags :: "bool \<Rightarrow> TrackMode \<Rightarrow> EnqueueFlags" where
  "forward_flags is_new_stream mode =
     (case mode of
        TrackMode_kDatagram \<Rightarrow> EnqueueFlags_default\<lparr>use_reliable := False\<rparr>
      | TrackMode_kStream \<Rightarrow>
          let f = EnqueueFlags_default\<lparr>use_reliable := True\<rparr>
          in if is_new_stream then f\<lparr>new_stream := True, clear_tx_queue := True, use_reset := False\<rparr> else f)"

definition ForwardPublishedData ::
  "'t enqueue \<Rightarrow> bool \<Rightarrow> bytes \<Rightarrow> 't option \<Rightarrow> PublishTrackHandler \<Rightarrow>
     PublishObjectStatus result \<times> 't option \<times> PublishTrackHandler" where
  "ForwardPublishedData enqueue is_new_stream data transport h =
     (case transport of
        None \<Rightarrow> (Inr PublishObjectStatus_kInternalError, transport, h)
      | Some t \<Rightarrow>
          (case forward_gate is_new_stream h of
             Inl (status, h) \<Rightarrow> (Inr status, transport, h)
           | Inr h \<Rightarrow>
               let m = publish_track_metrics h;
                   h = h\<lparr>publish_track_metrics := m\<lparr>bytes_published := bytes_published m + of_nat (length data)\<rparr>\<rparr>
               in if pth_request_id h = None then (Inr PublishObjectStatus_kNoSubscribers, transport, h)
                  else
                    let call = \<lparr>eq_conn_id = pth_connection_id h, eq_data_ctx_id = publish_data_ctx_id h,
                          eq_group_id = latest_group_id h, eq_bytes = data, eq_priority = default_priority h,
                          eq_ttl_ms = default_ttl h, eq_delay_ms = 0,
                          eq_flags = forward_flags is_new_stream (default_track_mode h)\<rparr>;
                        (r, t') = enqueue_or_throw enqueue call t
                    in (bind_result r (\<lambda>_. Inr PublishObjectStatus_kOk), Some t', h)))"

subsection \<open>Publishing an object\<close>

definition publish_gate ::
  "bool \<Rightarrow> PublishTrackHandler \<Rightarrow> (PublishObjectStatus \<times> PublishTrackHandler) + (bool \<times> PublishTrackHandler)" where
  "publish_gate header_needed h =
     (case publish_status h of
        PublishStatus_kOk \<Rightarrow> Inr (header_needed, h)
      | PublishStatus_kPaused \<Rightarrow> Inl (PublishObjectStatus_kPaused, drop_not_ok h)
      | PublishStatus_kNoSubscribers \<Rightarrow> Inl (PublishObjectStatus_kNoSubscribers, drop_not_ok h)
      | PublishStatus_kPendingAnnounceResponse \<Rightarrow> Inl (PublishObjectStatus_kNotAnnounced, drop_not_ok h)
      | PublishStatus_kNotAnnounced \<Rightarrow> Inl (PublishObjectStatus_kNotAnnounced, drop_not_ok h)
      | PublishStatus_kNotConnected \<Rightarrow> Inl (PublishObjectStatus_kNotAnnounced, drop_not_ok h)
      | PublishStatus_kAnnounceNotAuthorized \<Rightarrow> Inl (PublishObjectStatus_kNotAuthorized, drop_not_ok h)
      | PublishStatus_kNewGroupRequested \<Rightarrow>
          Inr (header_needed, if header_needed then h\<lparr>publish_status := PublishStatus_kOk\<rparr> else h)
      | PublishStatus_kSubscriptionUpdated \<Rightarrow> Inr (True, h\<lparr>publish_status := PublishStatus_kOk\<rparr>)
      | PublishStatus_kPendingPublishOk \<Rightarrow> Inl (PublishObjectStatus_kInternalError, drop_not_ok h)
      | PublishStatus_kSendingUnannounce \<Rightarrow> Inl (PublishObjectStatus_kInternalError, drop_not_ok h))"

definition stream_header_needed :: "ObjectHeaders \<Rightarrow> PublishTrackHandler \<Rightarrow> bool" where
  "stream_header_needed oh h \<longleftrightarrow>
     latest_object_id h = None \<or> latest_sub_group_id h \<noteq> oh_subgroup_id oh \<or> latest_group_id h \<noteq> oh_group_id oh"

definition group_id_delta :: "ObjectHeaders \<Rightarrow> PublishTrackHandler \<Rightarrow> u64" where
  "group_id_delta oh h =
     (case latest_object_id h of
        None \<Rightarrow> 0
      | Some _ \<Rightarrow> if latest_group_id h > oh_group_id oh then 0 else oh_group_id oh - latest_group_id h)"

definition object_id_delta :: "ObjectHeaders \<Rightarrow> PublishTrackHandler \<Rightarrow> u64" where
  "object_id_delta oh h =
     (let d = (case latest_object_id h of
                 None \<Rightarrow> oh_object_id oh + 1
               | Some latest \<Rightarrow> if latest > oh_object_id oh then oh_object_id oh else oh_object_id oh - latest)
      in if d \<noteq> 0 then d - 1 else d)"

text \<open>The extensions that announce gaps; the value is the memory of a 64-bit integer.\<close>

definition add_gap :: "ExtensionHeaderType \<Rightarrow> u64 \<Rightarrow> Extensions option \<Rightarrow> Extensions option" where
  "add_gap key value exts =
     Some (push_value (ExtensionHeaderType_value key) (le_bytes 8 value) (case exts of None \<Rightarrow> [] | Some m \<Rightarrow> m))"

definition object_extensions :: "ObjectHeaders \<Rightarrow> PublishTrackHandler \<Rightarrow> Extensions option" where
  "object_extensions oh h =
     (let e = oh_extensions oh;
          e = (if group_id_delta oh h > 1
               then add_gap ExtensionHeaderType_kPriorGroupIdGap (group_id_delta oh h - 1) e else e)
      in if object_id_delta oh h > 0 then add_gap ExtensionHeaderType_kPriorObjectIdGap (object_id_delta oh h) e else e)"

text \<open>The members an object updates before anything is sent.\<close>

definition account_object :: "ObjectHeaders \<Rightarrow> bytes \<Rightarrow> PublishTrackHandler \<Rightarrow> PublishTrackHandler" where
  "account_object oh data h =
     (let m = publish_track_metrics h in
      h\<lparr>pending_new_group_request_id := (if group_id_delta oh h \<noteq> 0 then None else pending_new_group_request_id h),
        latest_group_id := oh_group_id oh, latest_sub_group_id := oh_subgroup_id oh,
        latest_object_id := Some (oh_object_id oh),
        publish_track_metrics := m\<lparr>bytes_published := bytes_published m + of_nat (length data),
          objects_published := objects_published m + 1\<rparr>\<rparr>)"

definition object_priority :: "ObjectHeaders \<Rightarrow> PublishTrackHandler \<Rightarrow> u8" where
  "object_priority oh h = (case oh_priority oh of Some p \<Rightarrow> p | None \<Rightarrow> default_priority h)"

definition object_ttl :: "ObjectHeaders \<Rightarrow> PublishTrackHandler \<Rightarrow> u16" where
  "object_ttl oh h = (case oh_ttl oh of Some ttl \<Rightarrow> ttl | None \<Rightarrow> ucast (default_ttl h))"

definition object_call :: "ObjectHeaders \<Rightarrow> EnqueueFlags \<Rightarrow> bytes \<Rightarrow> PublishTrackHandler \<Rightarrow> enqueue_call" where
  "object_call oh flags data h =
     \<lparr>eq_conn_id = pth_connection_id h, eq_data_ctx_id = publish_data_ctx_id h, eq_group_id = oh_group_id oh,
      eq_bytes = data, eq_priority = object_priority oh h, eq_ttl_ms = ucast (object_ttl oh h), eq_delay_ms = 0,
      eq_flags = flags\<rparr>"

definition track_alias_value :: "PublishTrackHandler \<Rightarrow> u64 result" where
  "track_alias_value h = (case pth_track_alias h of None \<Rightarrow> Inl Bad_Optional_Access | Some a \<Rightarrow> Inr a)"

text \<open>The messages.\<close>

definition datagram_of :: "ObjectStatus \<Rightarrow> ObjectHeaders \<Rightarrow> Extensions option \<Rightarrow> bytes \<Rightarrow> u64 \<Rightarrow> PublishTrackHandler \<Rightarrow> ObjectDatagram" where
  "datagram_of status0 oh exts data alias h =
     \<lparr>current_pos = 0, parse_completed = False, ext = ext_init\<lparr>extensions := exts\<rparr>,
      immutable_extensions = oh_immutable_extensions oh, payload_len = 0, object_status = status0, payload = data,
      od_track_alias = alias, od_group_id = oh_group_id oh, od_object_id = oh_object_id oh,
      od_priority = object_priority oh h, od_end_of_group = False, od_type = None\<rparr>"

definition subgroup_header_of :: "ObjectHeaders \<Rightarrow> u64 \<Rightarrow> PublishTrackHandler \<Rightarrow> StreamHeaderSubGroup result" where
  "subgroup_header_of oh alias h =
     bind_result (StreamHeaderProperties_of (stream_mode h)) (\<lambda>properties.
       Inr \<lparr>current_pos = 0, parse_completed = False, hs_type = stream_mode h, hs_track_alias = alias,
            hs_group_id = oh_group_id oh,
            hs_subgroup_id = (if subgroup_id_type properties = kExplicit then Some (oh_subgroup_id oh) else None),
            hs_priority = object_priority oh h\<rparr>)"

definition subgroup_object_of :: "ObjectStatus \<Rightarrow> ObjectHeaders \<Rightarrow> u64 \<Rightarrow> Extensions option \<Rightarrow> bytes \<Rightarrow> PublishTrackHandler \<Rightarrow> StreamSubGroupObject" where
  "subgroup_object_of status0 oh delta exts data h =
     \<lparr>current_pos = 0, parse_completed = False, ext = ext_init\<lparr>extensions := exts\<rparr>,
      immutable_extensions = oh_immutable_extensions oh, payload_len = 0, object_status = status0, payload = data,
      so_object_delta = delta, so_stream_type = Some (stream_mode h)\<rparr>"

text \<open>The header that opens a new stream, and then the object.\<close>

definition send_stream_header :: "'t enqueue \<Rightarrow> ObjectHeaders \<Rightarrow> PublishTrackHandler \<Rightarrow> 't \<Rightarrow> unit result \<times> 't" where
  "send_stream_header enqueue oh h t =
     (case bind_result (StreamHeaderProperties_of (stream_mode h)) (\<lambda>_.
           bind_result (track_alias_value h) (\<lambda>alias.
           bind_result (subgroup_header_of oh alias h) (put_StreamHeaderSubGroup []))) of
        Inl e \<Rightarrow> (Inl e, t)
      | Inr bytes \<Rightarrow>
          enqueue_or_throw enqueue
            (object_call oh \<lparr>use_reliable = True, new_stream = True, clear_tx_queue = True, use_reset = False\<rparr> bytes h) t)"

definition object_bytes ::
  "ObjectStatus \<Rightarrow> ObjectHeaders \<Rightarrow> u64 \<Rightarrow> Extensions option \<Rightarrow> bytes \<Rightarrow> PublishTrackHandler \<Rightarrow> bytes result" where
  "object_bytes status0 oh delta exts data h =
     (case default_track_mode h of
        TrackMode_kDatagram \<Rightarrow>
          bind_result (track_alias_value h) (\<lambda>alias. put_ObjectDatagram [] (datagram_of status0 oh exts data alias h))
      | TrackMode_kStream \<Rightarrow> put_StreamSubGroupObject [] (subgroup_object_of status0 oh delta exts data h))"

definition send_object ::
  "'t enqueue \<Rightarrow> ObjectStatus \<Rightarrow> ObjectHeaders \<Rightarrow> u64 \<Rightarrow> Extensions option \<Rightarrow> bytes \<Rightarrow> PublishTrackHandler \<Rightarrow> 't \<Rightarrow>
     unit result \<times> 't" where
  "send_object enqueue status0 oh delta exts data h t =
     (case object_bytes status0 oh delta exts data h of
        Inl e \<Rightarrow> (Inl e, t)
      | Inr bytes \<Rightarrow>
          enqueue_or_throw enqueue
            (object_call oh (EnqueueFlags_default\<lparr>use_reliable := default_track_mode h \<noteq> TrackMode_kDatagram\<rparr>) bytes h) t)"

definition PublishObject ::
  "'t enqueue \<Rightarrow> ObjectStatus \<Rightarrow> ObjectHeaders \<Rightarrow> bytes \<Rightarrow> 't option \<Rightarrow> PublishTrackHandler \<Rightarrow>
     PublishObjectStatus result \<times> 't option \<times> PublishTrackHandler" where
  "PublishObject enqueue status0 oh data transport h =
     (case transport of
        None \<Rightarrow> (Inr PublishObjectStatus_kInternalError, transport, h)
      | Some t \<Rightarrow>
          (case publish_gate (stream_header_needed oh h) h of
             Inl (status, h) \<Rightarrow> (Inr status, transport, h)
           | Inr (header_needed, h) \<Rightarrow>
               let h = (case oh_track_mode oh of Some mode \<Rightarrow> h\<lparr>default_track_mode := mode\<rparr> | None \<Rightarrow> h);
                   delta = object_id_delta oh h;
                   exts = object_extensions oh h;
                   h = account_object oh data h
               in if pth_request_id h = None then (Inr PublishObjectStatus_kNoSubscribers, transport, h)
                  else
                    (case (if default_track_mode h \<noteq> TrackMode_kDatagram \<and> header_needed
                           then send_stream_header enqueue oh h t else (Inr (), t)) of
                       (Inl e, t) \<Rightarrow> (Inl e, Some t, h)
                     | (Inr _, t) \<Rightarrow>
                         let (r, t) = send_object enqueue status0 oh delta exts data h t
                         in (bind_result r (\<lambda>_. Inr PublishObjectStatus_kOk), Some t, h))))"

subsection \<open>Publishing for a fetch\<close>

record PublishFetchHandler = PublishTrackHandler +
  sent_first_header :: bool

definition fetch_header_of :: "u64 \<Rightarrow> FetchHeader" where
  "fetch_header_of request_id =
     \<lparr>current_pos = 0, parse_completed = False, fh_type = FetchHeaderType_kFetchHeader, fh_request_id = request_id\<rparr>"

definition fetch_object_of :: "u64 \<Rightarrow> ObjectStatus \<Rightarrow> ObjectHeaders \<Rightarrow> bytes \<Rightarrow> PublishFetchHandler \<Rightarrow> FetchObject" where
  "fetch_object_of subgroup0 status0 oh data h =
     \<lparr>current_pos = 0, parse_completed = False, ext = ext_init\<lparr>extensions := oh_extensions oh\<rparr>,
      immutable_extensions = oh_immutable_extensions oh, payload_len = 0, object_status = status0, payload = data,
      fo_group_id = oh_group_id oh, fo_subgroup_id = subgroup0, fo_object_id = oh_object_id oh,
      fo_publisher_priority = object_priority oh (PublishTrackHandler.truncate h)\<rparr>"

definition send_bytes ::
  "'t enqueue \<Rightarrow> ObjectHeaders \<Rightarrow> EnqueueFlags \<Rightarrow> bytes result \<Rightarrow> PublishFetchHandler \<Rightarrow> 't \<Rightarrow> unit result \<times> 't" where
  "send_bytes enqueue oh flags bytes h t =
     (case bytes of
        Inl e \<Rightarrow> (Inl e, t)
      | Inr bs \<Rightarrow> enqueue_or_throw enqueue (object_call oh flags bs (PublishTrackHandler.truncate h)) t)"

definition PublishFetchObject ::
  "'t enqueue \<Rightarrow> u64 \<Rightarrow> ObjectStatus \<Rightarrow> ObjectHeaders \<Rightarrow> bytes \<Rightarrow> 't option \<Rightarrow> PublishFetchHandler \<Rightarrow>
     PublishObjectStatus result \<times> 't option \<times> PublishFetchHandler" where
  "PublishFetchObject enqueue subgroup0 status0 oh data transport h =
     (case transport of
        None \<Rightarrow> (Inr PublishObjectStatus_kInternalError, transport, h)
      | Some t \<Rightarrow>
          let header_needed = \<not> sent_first_header h;
              h = h\<lparr>sent_first_header := True\<rparr>
          in case pth_request_id h of
               None \<Rightarrow> (Inr PublishObjectStatus_kNoSubscribers, transport, h)
             | Some request_id \<Rightarrow>
                 (case (if header_needed
                        then send_bytes enqueue oh \<lparr>use_reliable = True, new_stream = True, clear_tx_queue = True, use_reset = False\<rparr>
                          (put_FetchHeader [] (fetch_header_of request_id)) h t
                        else (Inr (), t)) of
                    (Inl e, t) \<Rightarrow> (Inl e, Some t, h)
                  | (Inr _, t) \<Rightarrow>
                      let (r, t) = send_bytes enqueue oh (EnqueueFlags_default\<lparr>use_reliable := True\<rparr>)
                            (put_FetchObject [] (fetch_object_of subgroup0 status0 oh data h)) h t
                      in (bind_result r (\<lambda>_. Inr PublishObjectStatus_kOk), Some t, h)))"

subsection \<open>When objects are sent\<close>


text \<open>The status of an object without payload is not the one of the object headers: the octets that are
  written do not depend on \<^verbatim>\<open>object_headers.status\<close>, but on a member that the code never sets.\<close>

theorem empty_object_status_unset:
  assumes "default_track_mode h = TrackMode_kStream" "put_StreamSubGroupObject [] (subgroup_object_of status0 oh delta exts [] h) = Inr w"
  shows "object_bytes status0 (oh\<lparr>oh_status := s\<rparr>) delta exts [] h = Inr w \<and>
    (\<exists>b. w = b @ [0] @ varint_bytes (ucast (ObjectStatus_value status0)))"
proof -
  have "\<exists>b. w = b @ [0] @ varint_bytes (ucast (ObjectStatus_value status0))"
    using assms(2) put_u64_ok [of "ucast (ObjectStatus_value status0)"]
    by (auto simp: put_StreamSubGroupObject_def subgroup_object_of_def bind_result_Inr_iff put_payload_def put_u64_def
        split: option.splits if_splits)
  moreover have "object_bytes status0 (oh\<lparr>oh_status := s\<rparr>) delta exts [] h = Inr w"
    using assms by (simp add: object_bytes_def subgroup_object_of_def)
  ultimately show ?thesis by blast
qed

text \<open>The default time to live is cut to 16 bits when an object is published, although the member and
  the transport have 32; forwarding keeps it.\<close>

theorem default_ttl_truncated:
  assumes "oh_ttl oh = None"
  shows "unat (eq_ttl_ms (object_call oh flags data h)) = unat (default_ttl h) mod 2 ^ 16"
  using assms by (simp add: object_call_def object_ttl_def unsigned_ucast_eq take_bit_eq_mod unat_mod)

subsection \<open>The theorems on a concrete handler\<close>

definition publisher0 :: PublishTrackHandler where
  "publisher0 = \<lparr>pth_connection_id = 1, pth_request_id = Some 2, publish_status = PublishStatus_kPaused,
     default_track_mode = TrackMode_kStream, stream_mode = StreamHeaderType_kSubgroup0NotEndOfGroupNoExtensions,
     default_priority = 3, default_ttl = 65636, publish_data_ctx_id = 4, latest_group_id = 0, latest_sub_group_id = 0,
     latest_object_id = None, pth_track_alias = Some 5, use_announce = False, pending_new_group_request_id = None,
     publish_track_metrics = PublishTrackMetrics_new\<rparr>"

definition object_headers0 :: ObjectHeaders where
  "object_headers0 = \<lparr>oh_group_id = 0, oh_object_id = 0, oh_subgroup_id = 0, oh_payload_length = 0,
     oh_status = ObjectStatus_kEndOfGroup, oh_priority = None, oh_ttl = None, oh_track_mode = None, oh_extensions = None,
     oh_immutable_extensions = None\<rparr>"


theorem empty_object_status_unset_witness:
  "\<exists>w b. object_bytes ObjectStatus_kDoesNotExist (object_headers0\<lparr>oh_status := ObjectStatus_kEndOfGroup\<rparr>) 0 None [] publisher0 = Inr w \<and>
     w = b @ [0] @ varint_bytes (ucast (ObjectStatus_value ObjectStatus_kDoesNotExist))"
proof -
  let ?o = "subgroup_object_of ObjectStatus_kDoesNotExist object_headers0 0 None [] publisher0"
  have p: "msg_exts_ok ?o" "\<not> has_exts ?o" by (rule plain_object; simp add: subgroup_object_of_def object_headers0_def ext_init_def)+
  then have "so_ok ?o" by (simp add: so_ok_def) (simp add: subgroup_object_of_def publisher0_def StreamHeaderProperties_of_def)
  from put_StreamSubGroupObject_ok [OF this, of "[]"] obtain w where "put_StreamSubGroupObject [] ?o = Inr w" by blast
  from empty_object_status_unset [OF _ this, of ObjectStatus_kEndOfGroup] show ?thesis by (auto simp: publisher0_def)
qed

theorem default_ttl_truncated_witness: "eq_ttl_ms (object_call object_headers0 EnqueueFlags_default [] publisher0) = 100"
proof -
  have "unat (eq_ttl_ms (object_call object_headers0 EnqueueFlags_default [] publisher0)) = 65636 mod 2 ^ 16"
    using default_ttl_truncated [of object_headers0 EnqueueFlags_default "[]" publisher0]
    by (simp add: object_headers0_def publisher0_def)
  then show ?thesis by (simp add: word_unat_eq_iff)
qed

end
