(* ===== verification/Subscribe_Handler.thy ===== *)
theory Subscribe_Handler
  imports Publish_Handler
begin

section \<open>Receiving objects\<close>

text \<open>
  \<^verbatim>\<open>SubscribeTrackHandler\<close> (\<^verbatim>\<open>subscribe_track_handler.h\<close>, \<^verbatim>\<open>src/subscribe_track_handler.cpp\<close>),
  \<^verbatim>\<open>FetchTrackHandler\<close> and \<^verbatim>\<open>JoiningFetchHandler\<close>: the part that turns the octets of streams and
  datagrams into calls of \<^verbatim>\<open>ObjectReceived\<close>. The virtual callback is an argument, a predicate that
  says whether it returns normally; what it was called with is part of the result. The messages that the
  code keeps in the two slots of the stream buffer, and parses through references into them, are
  variants of one datatype. An operation that throws gives the exception only.
\<close>

datatype stream_any =
    Any_SubgroupHeader StreamHeaderSubGroup
  | Any_SubgroupObject StreamSubGroupObject
  | Any_FetchHeader FetchHeader
  | Any_FetchObject FetchObject

fun as_SubgroupHeader :: "stream_any \<Rightarrow> StreamHeaderSubGroup option" where
  "as_SubgroupHeader (Any_SubgroupHeader m) = Some m" | "as_SubgroupHeader _ = None"

fun as_SubgroupObject :: "stream_any \<Rightarrow> StreamSubGroupObject option" where
  "as_SubgroupObject (Any_SubgroupObject m) = Some m" | "as_SubgroupObject _ = None"

fun as_FetchHeader :: "stream_any \<Rightarrow> FetchHeader option" where
  "as_FetchHeader (Any_FetchHeader m) = Some m" | "as_FetchHeader _ = None"

fun as_FetchObject :: "stream_any \<Rightarrow> FetchObject option" where
  "as_FetchObject (Any_FetchObject m) = Some m" | "as_FetchObject _ = None"

text \<open>The messages \<^verbatim>\<open>std::any::emplace\<close> puts into a slot are value-initialised.\<close>

definition SubgroupHeader_init :: StreamHeaderSubGroup where
  "SubgroupHeader_init = \<lparr>current_pos = 0, parse_completed = False, hs_type = StreamHeaderType_of 0, hs_track_alias = 0,
     hs_group_id = 0, hs_subgroup_id = None, hs_priority = 0\<rparr>"

definition SubgroupObject_init :: StreamSubGroupObject where
  "SubgroupObject_init = \<lparr>current_pos = 0, parse_completed = False, ext = ext_init, immutable_extensions = None,
     payload_len = 0, object_status = ObjectStatus_of 0, payload = [], so_object_delta = 0, so_stream_type = None\<rparr>"

definition FetchHeader_init :: FetchHeader where
  "FetchHeader_init = \<lparr>current_pos = 0, parse_completed = False, fh_type = FetchHeaderType_kFetchHeader, fh_request_id = 0\<rparr>"

definition FetchObject_init :: FetchObject where
  "FetchObject_init = \<lparr>current_pos = 0, parse_completed = False, ext = ext_init, immutable_extensions = None,
     payload_len = 0, object_status = ObjectStatus_of 0, payload = [], fo_group_id = 0, fo_subgroup_id = 0,
     fo_object_id = 0, fo_publisher_priority = 0\<rparr>"

text \<open>The datagram of \<^verbatim>\<open>DgramDataRecv\<close> is a local variable; the reader sets every member it reads
  but the status, which nothing reads.\<close>

definition ObjectDatagram_init :: ObjectDatagram where
  "ObjectDatagram_init = \<lparr>current_pos = 0, parse_completed = False, ext = ext_init, immutable_extensions = None,
     payload_len = 0, object_status = ObjectStatus_of 0, payload = [], od_track_alias = 0, od_group_id = 0,
     od_object_id = 0, od_priority = 0, od_end_of_group = False, od_type = None\<rparr>"

record SubscribeTrackHandler =
  stream_buffer :: "stream_any StreamBuffer"
  next_object_id :: "u64 option"
  current_group_id :: u64
  current_subgroup_id :: u64
  current_stream_id :: u64
  objects_received :: u64
  bytes_received :: u64

definition SubscribeTrackHandler_new :: SubscribeTrackHandler where
  "SubscribeTrackHandler_new = \<lparr>stream_buffer = StreamBuffer_new, next_object_id = None, current_group_id = 0,
     current_subgroup_id = 0, current_stream_id = 0, objects_received = 0, bytes_received = 0\<rparr>"

type_synonym received = "ObjectHeaders \<times> bytes"
type_synonym callback = "ObjectHeaders \<Rightarrow> bytes \<Rightarrow> bool"

definition count_object :: "bytes \<Rightarrow> SubscribeTrackHandler \<Rightarrow> SubscribeTrackHandler" where
  "count_object data h = h\<lparr>objects_received := objects_received h + 1,
     bytes_received := bytes_received h + of_nat (length data)\<rparr>"

text \<open>Parsing a message in a slot: the message is read, parsed and put back.\<close>

definition parse_subgroup_header :: "stream_any StreamBuffer \<Rightarrow> (bool \<times> stream_any StreamBuffer) result" where
  "parse_subgroup_header sb =
     bind_result (GetAny as_SubgroupHeader sb) (\<lambda>m.
     bind_result (get_StreamHeaderSubGroup sb m) (\<lambda>(ok, sb', m'). Inr (ok, sb'\<lparr>parsed_data := Some (Any_SubgroupHeader m')\<rparr>)))"

definition parse_fetch_header :: "stream_any StreamBuffer \<Rightarrow> (bool \<times> stream_any StreamBuffer) result" where
  "parse_fetch_header sb =
     bind_result (GetAny as_FetchHeader sb) (\<lambda>m.
     bind_result (get_FetchHeader sb m) (\<lambda>(ok, sb', m'). Inr (ok, sb'\<lparr>parsed_data := Some (Any_FetchHeader m')\<rparr>)))"

definition parse_fetch_object :: "stream_any StreamBuffer \<Rightarrow> (bool \<times> FetchObject \<times> stream_any StreamBuffer) result" where
  "parse_fetch_object sb =
     bind_result (GetAnyB as_FetchObject sb) (\<lambda>m.
     bind_result (get_FetchObject sb m) (\<lambda>(ok, sb', m'). Inr (ok, m', sb'\<lparr>parsed_dataB := Some (Any_FetchObject m')\<rparr>)))"

subsection \<open>Subgroup streams\<close>

text \<open>The id of a received object: the delta restarts when the group or the subgroup changes.\<close>

definition receive_object_id :: "StreamHeaderSubGroup \<Rightarrow> u64 \<Rightarrow> SubscribeTrackHandler \<Rightarrow> u64" where
  "receive_object_id s_hdr delta h =
     (case next_object_id h of
        Some next \<Rightarrow>
          if current_group_id h \<noteq> hs_group_id s_hdr \<or> Some (current_subgroup_id h) \<noteq> hs_subgroup_id s_hdr
          then delta else next + delta
      | None \<Rightarrow> delta)"

definition stream_object_headers :: "StreamHeaderSubGroup \<Rightarrow> u64 \<Rightarrow> u64 \<Rightarrow> StreamSubGroupObject \<Rightarrow> ObjectHeaders" where
  "stream_object_headers s_hdr object_id subgroup_id obj =
     \<lparr>oh_group_id = hs_group_id s_hdr, oh_object_id = object_id, oh_subgroup_id = subgroup_id,
      oh_payload_length = of_nat (length (payload obj)), oh_status = object_status obj,
      oh_priority = Some (hs_priority s_hdr), oh_ttl = None, oh_track_mode = Some TrackMode_kStream,
      oh_extensions = extensions (ext obj), oh_immutable_extensions = immutable_extensions obj\<rparr>"

text \<open>What happens when an object is complete. \<^verbatim>\<open>s_hdr.subgroup_id.value()\<close> throws when the header
  leaves the subgroup to the first object, before the test that would set it.\<close>

definition deliver_object ::
  "callback \<Rightarrow> StreamHeaderSubGroup \<Rightarrow> StreamSubGroupObject \<Rightarrow> SubscribeTrackHandler \<Rightarrow>
     (received list \<times> SubscribeTrackHandler) result" where
  "deliver_object cb s_hdr obj h =
     (let object_id = receive_object_id s_hdr (so_object_delta obj) h in
      case hs_subgroup_id s_hdr of
        None \<Rightarrow> Inl Bad_Optional_Access
      | Some subgroup_id \<Rightarrow>
          let h = count_object (payload obj)
                (h\<lparr>current_group_id := hs_group_id s_hdr, current_subgroup_id := subgroup_id\<rparr>);
              headers = stream_object_headers s_hdr object_id subgroup_id obj;
              h = h\<lparr>next_object_id := Some (if cb headers (payload obj) then object_id + 1 else object_id),
                    stream_buffer := ResetAnyB_init (Any_SubgroupObject SubgroupObject_init) (stream_buffer h)\<rparr>
          in Inr ([(headers, payload obj)], h))"

definition receive_object :: "callback \<Rightarrow> SubscribeTrackHandler \<Rightarrow> (received list \<times> SubscribeTrackHandler) result" where
  "receive_object cb h =
     bind_result (GetAny as_SubgroupHeader (stream_buffer h)) (\<lambda>s_hdr.
     let sb = (if AnyHasValueB (stream_buffer h) then stream_buffer h
               else InitAnyB (Any_SubgroupObject SubgroupObject_init) (stream_buffer h))
     in bind_result (GetAnyB as_SubgroupObject sb) (\<lambda>obj.
        bind_result (StreamHeaderProperties_of (hs_type s_hdr)) (\<lambda>_.
        bind_result (get_StreamSubGroupObject sb (obj\<lparr>so_stream_type := Some (hs_type s_hdr)\<rparr>)) (\<lambda>(ok, sb', obj').
          let h = h\<lparr>stream_buffer := sb'\<lparr>parsed_dataB := Some (Any_SubgroupObject obj')\<rparr>\<rparr>
          in if ok then deliver_object cb s_hdr obj' h else Inr ([], h)))))"

definition StreamDataRecv ::
  "callback \<Rightarrow> bool \<Rightarrow> u64 \<Rightarrow> bytes \<Rightarrow> SubscribeTrackHandler \<Rightarrow> (received list \<times> SubscribeTrackHandler) result" where
  "StreamDataRecv cb is_start stream_id data h =
     (if stream_id < current_stream_id h then Inr ([], h)
      else
        let h = h\<lparr>current_stream_id := stream_id\<rparr> in
        if is_start then
          bind_result (parse_subgroup_header
              (Push data (InitAny (Any_SubgroupHeader SubgroupHeader_init) (Clear_sb (stream_buffer h))))) (\<lambda>(ok, sb).
            let h = h\<lparr>stream_buffer := sb\<rparr> in if \<not> ok then Inr ([], h) else receive_object cb h)
        else receive_object cb (h\<lparr>stream_buffer := Push data (stream_buffer h)\<rparr>))"

definition DgramDataRecv :: "callback \<Rightarrow> bytes \<Rightarrow> SubscribeTrackHandler \<Rightarrow> (received list \<times> SubscribeTrackHandler) result" where
  "DgramDataRecv cb data h =
     bind_result (get_ObjectDatagram (Push data (Clear_sb (stream_buffer h))) ObjectDatagram_init) (\<lambda>(ok, sb, msg).
       let h = h\<lparr>stream_buffer := sb\<rparr>;
           headers = \<lparr>oh_group_id = od_group_id msg, oh_object_id = od_object_id msg, oh_subgroup_id = 0,
             oh_payload_length = of_nat (length (payload msg)), oh_status = ObjectStatus_kAvailable,
             oh_priority = Some (od_priority msg), oh_ttl = None, oh_track_mode = Some TrackMode_kDatagram,
             oh_extensions = extensions (ext msg), oh_immutable_extensions = immutable_extensions msg\<rparr>
       in Inr (if ok then ([(headers, payload msg)], count_object (payload msg) h) else ([], h)))"

subsection \<open>Fetch streams\<close>

definition fetch_object_headers :: "FetchObject \<Rightarrow> ObjectHeaders" where
  "fetch_object_headers obj =
     \<lparr>oh_group_id = fo_group_id obj, oh_object_id = fo_object_id obj, oh_subgroup_id = fo_subgroup_id obj,
      oh_payload_length = of_nat (length (payload obj)), oh_status = object_status obj,
      oh_priority = Some (fo_publisher_priority obj), oh_ttl = None, oh_track_mode = Some TrackMode_kStream,
      oh_extensions = extensions (ext obj), oh_immutable_extensions = immutable_extensions obj\<rparr>"

text \<open>The two fetch handlers differ in the object slot: one keeps a partly parsed object, the joining
  one starts with a new object at every call. The joining handler does not count.\<close>

definition fetch_receive_object ::
  "bool \<Rightarrow> stream_any StreamBuffer \<Rightarrow> SubscribeTrackHandler \<Rightarrow> (received list \<times> SubscribeTrackHandler) result" where
  "fetch_receive_object count sb h =
     bind_result (parse_fetch_object sb) (\<lambda>(ok, obj, sb').
       Inr (if ok then
              ([(fetch_object_headers obj, payload obj)],
               (if count then count_object (payload obj) h else h)\<lparr>
                 stream_buffer := ResetAnyB_init (Any_FetchObject FetchObject_init) sb'\<rparr>)
            else ([], h\<lparr>stream_buffer := sb'\<rparr>)))"

definition fetch_start ::
  "bool \<Rightarrow> bytes \<Rightarrow> SubscribeTrackHandler \<Rightarrow> (stream_any StreamBuffer \<Rightarrow> (received list \<times> SubscribeTrackHandler) result) \<Rightarrow>
     (received list \<times> SubscribeTrackHandler) result" where
  "fetch_start is_start data h continue =
     (if is_start then
        bind_result (parse_fetch_header
            (Push data (InitAny (Any_FetchHeader FetchHeader_init) (Clear_sb (stream_buffer h))))) (\<lambda>(ok, sb).
          if \<not> ok then Inr ([], h\<lparr>stream_buffer := sb\<rparr>) else continue sb)
      else continue (Push data (stream_buffer h)))"

definition Fetch_StreamDataRecv :: "bool \<Rightarrow> bytes \<Rightarrow> SubscribeTrackHandler \<Rightarrow> (received list \<times> SubscribeTrackHandler) result" where
  "Fetch_StreamDataRecv is_start data h =
     fetch_start is_start data h (\<lambda>sb.
       fetch_receive_object True (if AnyHasValueB sb then sb else InitAnyB (Any_FetchObject FetchObject_init) sb) h)"

definition Joining_StreamDataRecv :: "bool \<Rightarrow> bytes \<Rightarrow> SubscribeTrackHandler \<Rightarrow> (received list \<times> SubscribeTrackHandler) result" where
  "Joining_StreamDataRecv is_start data h =
     fetch_start is_start data h (\<lambda>sb. fetch_receive_object False (InitAnyB (Any_FetchObject FetchObject_init) sb) h)"

text \<open>Pieces of a stream, the first of them at its start.\<close>

fun recv_pieces :: "(bool \<Rightarrow> bytes \<Rightarrow> 'h \<Rightarrow> (received list \<times> 'h) result) \<Rightarrow> bool \<Rightarrow> bytes list \<Rightarrow> 'h \<Rightarrow> (received list \<times> 'h) result" where
  "recv_pieces recv start [] h = Inr ([], h)"
| "recv_pieces recv start (c # cs) h =
     bind_result (recv start c h) (\<lambda>(out, h').
     bind_result (recv_pieces recv False cs h') (\<lambda>(outs, h''). Inr (out @ outs, h'')))"

subsection \<open>A subgroup stream, message by message\<close>

text \<open>A handler that waits for the next object of a stream whose header was \<open>m\<close>.\<close>

definition idle_on :: "StreamHeaderSubGroup \<Rightarrow> SubscribeTrackHandler \<Rightarrow> bool" where
  "idle_on m h \<longleftrightarrow> (\<exists>t ty. stream_buffer h = \<lparr>buffer = [], parsed_data = Some (Any_SubgroupHeader m),
     parsed_dataB = Some (Any_SubgroupObject (SubgroupObject_init\<lparr>so_stream_type := ty\<rparr>)), parsed_data_type = t\<rparr>)"

lemma uintv_field_Nil [simp]: "uintv_field [] = None"
  by (rule uintv.parse_empty)

lemma no_object_yet:
  assumes "buffer sb = []" "current_pos m = 0"
  shows "get_StreamSubGroupObject sb m = Inr (False, sb, m)"
  using assms by (simp add: get_StreamSubGroupObject_def switch_parse_def uint_case_def ParseUintVField_def DecodeUintV_eq)

lemma StreamDataRecv_header:
  assumes "hs_ok v" "put_StreamHeaderSubGroup [] v = Inr w" "current_stream_id h \<le> sid"
  shows "\<exists>m h'. StreamDataRecv cb True sid w h = Inr ([], h') \<and> hs_complete m v \<and> idle_on m h' \<and>
    current_stream_id h' = sid \<and> next_object_id h' = next_object_id h \<and> current_group_id h' = current_group_id h \<and>
    current_subgroup_id h' = current_subgroup_id h"
proof -
  let ?sb = "\<lparr>buffer = w, parsed_data = Some (Any_SubgroupHeader SubgroupHeader_init), parsed_dataB = None, parsed_data_type = None\<rparr>"
  have start: "Push w (InitAny (Any_SubgroupHeader SubgroupHeader_init) (Clear_sb (stream_buffer h))) = ?sb"
    by (simp add: Push_eq InitAny_def Clear_sb_def ResetAny_def)
  have "hs_I 0 SubgroupHeader_init (buffer ?sb) v []"
    using assms(1,2) put_StreamHeaderSubGroup_ok [OF assms(1), of "[]"] by (simp add: hs_I_def SubgroupHeader_init_def)
  then obtain m where m: "get_StreamHeaderSubGroup ?sb SubgroupHeader_init = Inr (True, ?sb\<lparr>buffer := []\<rparr>, m)" "hs_complete m v"
    using hs.sw.parse_whole [of SubgroupHeader_init ?sb v "[]"] unfolding get_StreamHeaderSubGroup_def by fastforce
  have "parse_subgroup_header ?sb = Inr (True, ?sb\<lparr>buffer := [], parsed_data := Some (Any_SubgroupHeader m)\<rparr>)"
    using m(1) by (simp add: parse_subgroup_header_def GetAny_def any_cast_def)
  moreover have "\<exists>p. StreamHeaderProperties_of (hs_type m) = Inr p" using assms(1) m(2)
    by (auto simp: hs_ok_def hs_complete_def split: sum.splits)
  ultimately show ?thesis using start m(2) assms(3)
    by (auto simp: StreamDataRecv_def Let_def receive_object_def GetAny_def GetAnyB_def any_cast_def AnyHasValueB_def InitAnyB_def
        no_object_yet SubgroupObject_init_def idle_on_def not_less)
qed

lemma StreamDataRecv_object:
  assumes "so_ok v" "put_StreamSubGroupObject [] v = Inr w" "current_stream_id h \<le> sid" "idle_on m h"
    "so_stream_type v = Some (hs_type m)"
  shows "\<exists>obj h'. StreamDataRecv cb False sid (w @ rest) h = deliver_object cb m obj h' \<and> so_head v obj \<and> body_complete obj v \<and>
    stream_buffer h' = (stream_buffer h)\<lparr>buffer := rest, parsed_dataB := Some (Any_SubgroupObject obj)\<rparr> \<and>
    h' = h\<lparr>current_stream_id := sid, stream_buffer := stream_buffer h'\<rparr>"
proof -
  obtain t ty where sb: "stream_buffer h = \<lparr>buffer = [], parsed_data = Some (Any_SubgroupHeader m),
     parsed_dataB = Some (Any_SubgroupObject (SubgroupObject_init\<lparr>so_stream_type := ty\<rparr>)), parsed_data_type = t\<rparr>"
    using assms(4) by (auto simp: idle_on_def)
  let ?sb = "(stream_buffer h)\<lparr>buffer := w @ rest\<rparr>" and ?m = "SubgroupObject_init\<lparr>so_stream_type := Some (hs_type m)\<rparr>"
  have "so_I 0 ?m (buffer ?sb) v rest"
    using assms put_StreamSubGroupObject_ok [OF assms(1), of "[]"]
    by (simp add: so_I_def SubgroupObject_init_def fresh_body_def)
  then obtain obj where obj: "get_StreamSubGroupObject ?sb ?m = Inr (True, ?sb\<lparr>buffer := rest\<rparr>, obj)" "so_head v obj" "body_complete obj v"
    using so.sw.parse_whole [of ?m ?sb v rest] unfolding get_StreamSubGroupObject_def by fastforce
  have known: "\<exists>p. StreamHeaderProperties_of (hs_type m) = Inr p" using assms(1,5) by (auto simp: so_ok_def split: sum.splits)
  let ?h = "h\<lparr>current_stream_id := sid, stream_buffer := (stream_buffer h)\<lparr>buffer := rest, parsed_dataB := Some (Any_SubgroupObject obj)\<rparr>\<rparr>"
  have "StreamDataRecv cb False sid (w @ rest) h = deliver_object cb m obj ?h"
    using obj(1) known assms(3) sb
    by (auto simp: StreamDataRecv_def Let_def receive_object_def Push_eq GetAny_def GetAnyB_def any_cast_def AnyHasValueB_def not_less)
  then show ?thesis using obj(2,3) by (intro exI [of _ obj] exI [of _ ?h]) simp
qed

text \<open>Streams that take the subgroup id from their first object cannot be received: the header is
  accepted, but the first complete object throws \<^verbatim>\<open>bad_optional_access\<close> before it is delivered.\<close>

theorem subgroup_from_first_object_throws:
  assumes "hs_ok v" "GetSubgroupIdType (hs_type v) = Inr kSetFromFirstObject" "put_StreamHeaderSubGroup [] v = Inr wh"
    "so_ok obj" "so_stream_type obj = Some (hs_type v)" "put_StreamSubGroupObject [] obj = Inr wo" "current_stream_id h \<le> sid"
  shows "\<exists>h'. StreamDataRecv cb True sid wh h = Inr ([], h') \<and> StreamDataRecv cb False sid wo h' = Inl Bad_Optional_Access"
proof -
  obtain m h' where h: "StreamDataRecv cb True sid wh h = Inr ([], h')" "hs_complete m v" "idle_on m h'" "current_stream_id h' = sid"
    using StreamDataRecv_header [OF assms(1,3,7)] by blast
  have m: "hs_type m = hs_type v" "hs_subgroup_id m = None" using h(2) assms(2) by (simp_all add: hs_complete_def hs_recv_id_def)
  have "current_stream_id h' \<le> sid" "so_stream_type obj = Some (hs_type m)" using h(4) m(1) assms(5) by simp_all
  from StreamDataRecv_object [OF assms(4,6) this(1) h(3) this(2), of cb "[]"] obtain o' h'' where
    "StreamDataRecv cb False sid wo h' = deliver_object cb m o' h''" by auto
  then show ?thesis using h(1) m(2) by (simp add: deliver_object_def Let_def)
qed

text \<open>One call of \<^verbatim>\<open>StreamDataRecv\<close> delivers at most one object: when the data holds more than one,
  the first is delivered and the rest, however many complete objects it holds, stays in the buffer
  until the next data of the stream arrives.\<close>

theorem StreamDataRecv_one_object:
  assumes "so_ok v" "put_StreamSubGroupObject [] v = Inr w" "current_stream_id h \<le> sid" "idle_on m h"
    "so_stream_type v = Some (hs_type m)" "hs_subgroup_id m \<noteq> None"
  shows "\<exists>r h'. StreamDataRecv cb False sid (w @ rest) h = Inr ([r], h') \<and> snd r = payload v \<and> buffer (stream_buffer h') = rest"
proof -
  obtain obj h' where o: "StreamDataRecv cb False sid (w @ rest) h = deliver_object cb m obj h'" "body_complete obj v"
    "stream_buffer h' = (stream_buffer h)\<lparr>buffer := rest, parsed_dataB := Some (Any_SubgroupObject obj)\<rparr>"
    using StreamDataRecv_object [OF assms(1-5), of cb rest] by blast
  then show ?thesis using assms(6)
    by (auto simp: deliver_object_def Let_def body_complete_def count_object_def ResetAnyB_init_def ResetAnyB_def InitAnyB_def)
qed

subsection \<open>A fetch stream in pieces\<close>

lemma no_fetch_object_yet:
  assumes "buffer sb = []" "current_pos m = 0"
  shows "get_FetchObject sb m = Inr (False, sb, m)"
  using assms by (simp add: get_FetchObject_def switch_parse_def uint_case_def ParseUintVField_def DecodeUintV_eq)

lemma Fetch_empty_pieces:
  assumes "concat cs = []" "buffer (stream_buffer h) = []" "parsed_dataB (stream_buffer h) = Some (Any_FetchObject m)" "current_pos m = 0"
  shows "\<exists>h'. recv_pieces Fetch_StreamDataRecv False cs h = Inr ([], h')"
  using assms
proof (induction cs arbitrary: h)
  case (Cons c cs)
  let ?h = "h\<lparr>stream_buffer := (stream_buffer h)\<lparr>parsed_dataB := Some (Any_FetchObject m)\<rparr>\<rparr>"
  have "Push [] (stream_buffer h) = stream_buffer h" by (simp add: Push_eq)
  then have "Fetch_StreamDataRecv False [] h = Inr ([], ?h)"
    using Cons.prems by (simp add: Fetch_StreamDataRecv_def fetch_start_def AnyHasValueB_def fetch_receive_object_def
        parse_fetch_object_def GetAnyB_def any_cast_def no_fetch_object_yet)
  then show ?case using Cons.IH [of ?h] Cons.prems by auto
qed simp

lemma fetch_object_progress:
  assumes "k < 8" "fo_I k m (buffer sb @ c) v rest"
  shows "progress (\<lambda>m fut v rest. \<exists>k < 8. fo_I k m fut v rest) (\<lambda>m v. fo_head v m \<and> body_complete m v) sb c v rest (get_FetchObject sb m)"
  using fo.sw.parse_progress [of m sb c v rest] assms unfolding get_FetchObject_def by (auto simp: numeral_eq_Suc)

lemma Fetch_pieces:
  assumes "k < 8" "fo_I k m (buffer (stream_buffer h) @ concat cs) v []" "cs \<noteq> []"
    "parsed_dataB (stream_buffer h) = Some (Any_FetchObject m)"
  shows "\<exists>obj h'. recv_pieces Fetch_StreamDataRecv False cs h = Inr ([(fetch_object_headers obj, payload obj)], h') \<and>
    fo_head v obj \<and> body_complete obj v"
  using assms
proof (induction cs arbitrary: h k m)
  case (Cons c cs)
  let ?sb = "Push c (stream_buffer h)"
  have sb: "buffer ?sb = buffer (stream_buffer h) @ c" "parsed_dataB ?sb = Some (Any_FetchObject m)" using Cons.prems(4) by (simp_all add: Push_eq)
  have step: "Fetch_StreamDataRecv False c h = fetch_receive_object True ?sb h"
    using sb(2) by (simp add: Fetch_StreamDataRecv_def fetch_start_def AnyHasValueB_def)
  have parse: "parse_fetch_object ?sb = bind_result (get_FetchObject ?sb m) (\<lambda>(ok, sb', m'). Inr (ok, m', sb'\<lparr>parsed_dataB := Some (Any_FetchObject m')\<rparr>))"
    using sb(2) by (simp add: parse_fetch_object_def GetAnyB_def any_cast_def)
  have "progress (\<lambda>m fut v rest. \<exists>k < 8. fo_I k m fut v rest) (\<lambda>m v. fo_head v m \<and> body_complete m v) ?sb (concat cs) v [] (get_FetchObject ?sb m)"
    using fetch_object_progress [OF Cons.prems(1), of m ?sb "concat cs" v "[]"] Cons.prems(2) sb(1) by simp
  then show ?case unfolding progress_def
  proof (elim disjE exE conjE)
    fix b obj assume r: "get_FetchObject ?sb m = Inr (True, ?sb\<lparr>buffer := b\<rparr>, obj)" "b @ concat cs = []" "fo_head v obj" "body_complete obj v"
    let ?h = "(count_object (payload obj) h)\<lparr>stream_buffer := ResetAnyB_init (Any_FetchObject FetchObject_init)
      (?sb\<lparr>buffer := b, parsed_dataB := Some (Any_FetchObject obj)\<rparr>)\<rparr>"
    have "Fetch_StreamDataRecv False c h = Inr ([(fetch_object_headers obj, payload obj)], ?h)"
      using r(1) step parse by (simp add: fetch_receive_object_def)
    moreover obtain h' where "recv_pieces Fetch_StreamDataRecv False cs ?h = Inr ([], h')"
      using Fetch_empty_pieces [of cs ?h FetchObject_init] r(2)
      by (auto simp: ResetAnyB_init_def ResetAnyB_def InitAnyB_def FetchObject_init_def)
    ultimately show ?thesis using r(3,4) by (intro exI [of _ obj] exI [of _ h']) simp
  next
    fix b m' k' assume r: "get_FetchObject ?sb m = Inr (False, ?sb\<lparr>buffer := b\<rparr>, m')" "concat cs \<noteq> []"
      and k': "k' < 8" "fo_I k' m' (b @ concat cs) v []"
    let ?h = "h\<lparr>stream_buffer := ?sb\<lparr>buffer := b, parsed_dataB := Some (Any_FetchObject m')\<rparr>\<rparr>"
    have one: "Fetch_StreamDataRecv False c h = Inr ([], ?h)" using r(1) step parse by (simp add: fetch_receive_object_def)
    have "cs \<noteq> []" using r(2) by auto
    then obtain obj h' where "recv_pieces Fetch_StreamDataRecv False cs ?h = Inr ([(fetch_object_headers obj, payload obj)], h')"
      "fo_head v obj" "body_complete obj v" using Cons.IH [of k' m' ?h] k' by auto
    then show ?thesis using one by (intro exI [of _ obj] exI [of _ h']) simp
  qed
qed simp

text \<open>C37. A fetch stream whose header arrives in one piece delivers its object exactly once, when the last
  octet has arrived, however the octets of the object are cut into pieces, and with all its fields.\<close>

theorem Fetch_object_in_pieces:
  assumes "put_FetchHeader [] (fetch_header_of request_id) = Inr wh" "request_id < 2 ^ 62"
    "fo_ok v" "put_FetchObject [] v = Inr wo" "concat cs = wo"
  shows "\<exists>obj h'. recv_pieces Fetch_StreamDataRecv True (wh # cs) h = Inr ([(fetch_object_headers obj, payload obj)], h') \<and>
    fo_head v obj \<and> body_complete obj v"
proof -
  let ?sb = "\<lparr>buffer = wh, parsed_data = Some (Any_FetchHeader FetchHeader_init), parsed_dataB = None, parsed_data_type = None\<rparr>"
  have start: "Push wh (InitAny (Any_FetchHeader FetchHeader_init) (Clear_sb (stream_buffer h))) = ?sb"
    by (simp add: Push_eq InitAny_def Clear_sb_def ResetAny_def)
  have "wh = varint_bytes (ucast (FetchHeaderType_value FetchHeaderType_kFetchHeader)) @ varint_bytes request_id"
    using assms(1,2) by (simp add: put_FetchHeader_def put_u64_ok fetch_header_of_def)
  then have "fh_I 0 FetchHeader_init (buffer ?sb) (fetch_header_of request_id) []"
    using assms(2) by (simp add: fh_I_def FetchHeader_init_def fetch_header_of_def)
  then obtain m where m: "get_FetchHeader ?sb FetchHeader_init = Inr (True, ?sb\<lparr>buffer := []\<rparr>, m)"
    using fh.sw.parse_whole [of FetchHeader_init ?sb "fetch_header_of request_id" "[]"] unfolding get_FetchHeader_def by fastforce
  let ?h = "h\<lparr>stream_buffer := \<lparr>buffer = [], parsed_data = Some (Any_FetchHeader m), parsed_dataB = Some (Any_FetchObject FetchObject_init),
    parsed_data_type = None\<rparr>\<rparr>"
  have head: "Fetch_StreamDataRecv True wh h = Inr ([], ?h)"
    using start m by (simp add: Fetch_StreamDataRecv_def fetch_start_def parse_fetch_header_def GetAny_def any_cast_def AnyHasValueB_def
        InitAnyB_def fetch_receive_object_def parse_fetch_object_def GetAnyB_def no_fetch_object_yet FetchObject_init_def)
  have "wo \<noteq> []" using assms(3,4) put_FetchObject_ok [OF assms(3), of "[]"] by auto
  then have "cs \<noteq> []" using assms(5) by auto
  moreover have "fo_I 0 FetchObject_init (concat cs) v []"
    using assms(3-5) put_FetchObject_ok [OF assms(3), of "[]"] by (simp add: fo_I_def FetchObject_init_def fresh_body_def)
  ultimately show ?thesis using Fetch_pieces [of 0 FetchObject_init ?h cs v] head by auto
qed

subsection \<open>The theorems on concrete streams\<close>

definition fetch_object1 :: FetchObject where
  "fetch_object1 = FetchObject_init\<lparr>fo_group_id := 1, fo_subgroup_id := 2, fo_object_id := 3, fo_publisher_priority := 4,
     payload := [50, 60]\<rparr>"

lemma small_varints: "varint_bytes 1 = [1]" "varint_bytes 2 = [2]" "varint_bytes 3 = [3]" "varint_bytes 4 = [4]"
  "varint_bytes 5 = [5]" "varint_bytes 7 = [7]" "varint_bytes 18 = [18]"
  by code_simp+

lemma fetch_object1_put: "fo_ok fetch_object1" "put_FetchObject [] fetch_object1 = Inr [1, 2, 3, 4, 0, 2, 50, 60]"
proof -
  have p: "msg_exts_ok fetch_object1" "wire_kvps fetch_object1 = []"
    by (rule plain_object; simp add: fetch_object1_def FetchObject_init_def ext_init_def)+
  show ok: "fo_ok fetch_object1" using p(1) by (simp add: fo_ok_def) (simp add: fetch_object1_def)
  show "put_FetchObject [] fetch_object1 = Inr [1, 2, 3, 4, 0, 2, 50, 60]"
    unfolding put_FetchObject_ok [OF ok] p(2) by (simp add: fetch_object1_def tail_bytes_def small_varints)
qed

lemma fetch_header1_put: "put_FetchHeader [] (fetch_header_of 7) = Inr [5, 7]"
  by (simp add: put_FetchHeader_def fetch_header_of_def put_u64_ok small_varints)

theorem Fetch_object_in_pieces_witness:
  "\<exists>obj h'. recv_pieces Fetch_StreamDataRecv True [[5, 7], [1, 2], [3, 4, 0, 2, 50], [60]] SubscribeTrackHandler_new =
     Inr ([(fetch_object_headers obj, [50, 60])], h') \<and> fo_object_id obj = 3"
  using Fetch_object_in_pieces [OF fetch_header1_put _ fetch_object1_put, of "[[1, 2], [3, 4, 0, 2, 50], [60]]" SubscribeTrackHandler_new]
  by (auto simp: body_complete_def fo_head_def) (auto simp: fetch_object1_def)

definition first_object_header :: StreamHeaderSubGroup where
  "first_object_header = SubgroupHeader_init\<lparr>hs_type := StreamHeaderType_kSubgroupFirstObjectNotEndOfGroupNoExtensions,
     hs_track_alias := 1, hs_group_id := 2, hs_priority := 3\<rparr>"

definition first_object :: StreamSubGroupObject where
  "first_object = SubgroupObject_init\<lparr>so_object_delta := 4, payload := [50],
     so_stream_type := Some StreamHeaderType_kSubgroupFirstObjectNotEndOfGroupNoExtensions\<rparr>"

theorem subgroup_from_first_object_throws_witness:
  "\<exists>h'. StreamDataRecv (\<lambda>_ _. True) True 0 [18, 1, 2, 3] SubscribeTrackHandler_new = Inr ([], h') \<and>
     StreamDataRecv (\<lambda>_ _. True) False 0 [4, 1, 50] h' = Inl Bad_Optional_Access"
proof -
  have ok: "hs_ok first_object_header"
    by (simp add: hs_ok_def first_object_header_def SubgroupHeader_init_def StreamHeaderProperties_of_def)
  have wh: "put_StreamHeaderSubGroup [] first_object_header = Inr [18, 1, 2, 3]"
    unfolding put_StreamHeaderSubGroup_ok [OF ok]
    by (simp add: first_object_header_def SubgroupHeader_init_def hs_id_def small_varints)
  have p: "msg_exts_ok first_object" "\<not> has_exts first_object"
    by (rule plain_object; simp add: first_object_def SubgroupObject_init_def ext_init_def)+
  then have ok2: "so_ok first_object" by (simp add: so_ok_def) (simp add: first_object_def StreamHeaderProperties_of_def)
  have "\<not> so_exts first_object" by (simp add: so_exts_def first_object_def)
  then have wo: "put_StreamSubGroupObject [] first_object = Inr [4, 1, 50]"
    unfolding put_StreamSubGroupObject_ok [OF ok2] by (simp add: first_object_def tail_bytes_def small_varints)
  show ?thesis
    by (rule subgroup_from_first_object_throws [OF ok _ wh ok2 _ wo])
      (simp_all add: first_object_header_def first_object_def SubscribeTrackHandler_new_def)
qed

definition stream_object1 :: StreamSubGroupObject where
  "stream_object1 = SubgroupObject_init\<lparr>so_object_delta := 4, payload := [50],
     so_stream_type := Some StreamHeaderType_kSubgroup0NotEndOfGroupNoExtensions\<rparr>"

definition idle_handler :: SubscribeTrackHandler where
  "idle_handler = SubscribeTrackHandler_new\<lparr>stream_buffer := \<lparr>buffer = [], parsed_data = Some (Any_SubgroupHeader
     (SubgroupHeader_init\<lparr>hs_type := StreamHeaderType_kSubgroup0NotEndOfGroupNoExtensions, hs_subgroup_id := Some 0\<rparr>)),
     parsed_dataB = Some (Any_SubgroupObject SubgroupObject_init), parsed_data_type = None\<rparr>\<rparr>"

theorem StreamDataRecv_one_object_witness:
  "\<exists>r h'. StreamDataRecv (\<lambda>_ _. True) False 0 [4, 1, 50, 0, 1, 60] idle_handler = Inr ([r], h') \<and> snd r = [50] \<and>
     buffer (stream_buffer h') = [0, 1, 60]"
proof -
  let ?m = "SubgroupHeader_init\<lparr>hs_type := StreamHeaderType_kSubgroup0NotEndOfGroupNoExtensions, hs_subgroup_id := Some 0\<rparr>"
  have p: "msg_exts_ok stream_object1" "\<not> has_exts stream_object1"
    by (rule plain_object; simp add: stream_object1_def SubgroupObject_init_def ext_init_def)+
  then have ok: "so_ok stream_object1" by (simp add: so_ok_def) (simp add: stream_object1_def StreamHeaderProperties_of_def)
  have "\<not> so_exts stream_object1" by (simp add: so_exts_def stream_object1_def)
  then have wo: "put_StreamSubGroupObject [] stream_object1 = Inr [4, 1, 50]"
    unfolding put_StreamSubGroupObject_ok [OF ok] by (simp add: stream_object1_def tail_bytes_def small_varints)
  have idle: "idle_on ?m idle_handler" unfolding idle_on_def
    by (rule exI [of _ None], rule exI [of _ None]) (simp add: idle_handler_def SubgroupObject_init_def)
  show ?thesis
    using StreamDataRecv_one_object [OF ok wo _ idle, of 0 "\<lambda>_ _. True" "[0, 1, 60]"]
    by (simp add: idle_handler_def stream_object1_def SubscribeTrackHandler_new_def)
qed

text \<open>The joining fetch handler forgets a partly received object: on the same pieces from which the
  fetch handler delivers the object, it starts a new object with each piece, takes what is left of the
  object for the start of another one, and delivers nothing.\<close>

theorem Joining_loses_split_object:
  "case recv_pieces Joining_StreamDataRecv True [[5, 7], [1, 2], [3, 4, 0, 2, 50], [60]] SubscribeTrackHandler_new of
     Inl _ \<Rightarrow> False | Inr (received, _) \<Rightarrow> received = []"
  by code_simp

end
