(* ===== verification/Publish_Subscribe.thy ===== *)
theory Publish_Subscribe
  imports Subscribe_Handler
begin

section \<open>From the publisher to the subscriber\<close>

text \<open>
  The two handlers end to end on streams: a transport that accepts every object and delivers it, each
  enqueued buffer as one piece, with a new stream for every header that opens one.
\<close>

definition record_call :: "enqueue_call list enqueue" where
  "record_call call t = (TransportError_kNone, t @ [call])"

fun deliver_calls :: "callback \<Rightarrow> nat \<Rightarrow> enqueue_call list \<Rightarrow> SubscribeTrackHandler \<Rightarrow>
    (received list \<times> nat \<times> SubscribeTrackHandler) result" where
  "deliver_calls cb n [] h = Inr ([], n, h)"
| "deliver_calls cb n (c # cs) h =
     (let start = new_stream (eq_flags c); n' = (if start then n + 1 else n) in
      bind_result (StreamDataRecv cb start (of_nat n') (eq_bytes c) h) (\<lambda>(out, h').
      bind_result (deliver_calls cb n' cs h') (\<lambda>(outs, r). Inr (out @ outs, r))))"

lemma deliver_calls_append:
  "deliver_calls cb n (cs @ ds) h =
     bind_result (deliver_calls cb n cs h) (\<lambda>(out, n', h').
     bind_result (deliver_calls cb n' ds h') (\<lambda>(outs, r). Inr (out @ outs, r)))"
  by (induction cs arbitrary: n h)
    (auto simp: bind_result_def Let_def split: sum.splits prod.splits)

subsection \<open>One object\<close>

text \<open>A publisher that is free to send on streams of a type that announces the subgroup and carries
  extensions, and an object that the wire format can hold.\<close>

definition sender_ok :: "PublishTrackHandler \<Rightarrow> bool" where
  "sender_ok h \<longleftrightarrow> publish_status h = PublishStatus_kOk \<and> default_track_mode h = TrackMode_kStream \<and>
     pth_request_id h \<noteq> None \<and> (\<exists>a. pth_track_alias h = Some a \<and> a < 2 ^ 62) \<and>
     (\<exists>p. StreamHeaderProperties_of (stream_mode h) = Inr p \<and> subgroup_id_type p \<noteq> kSetFromFirstObject \<and>
        may_contain_extensions p)"

definition object_ok :: "ObjectHeaders \<Rightarrow> bytes \<Rightarrow> PublishTrackHandler \<Rightarrow> bool" where
  "object_ok oh data h \<longleftrightarrow> oh_track_mode oh \<noteq> Some TrackMode_kDatagram \<and> oh_group_id oh < 2 ^ 62 \<and>
     oh_subgroup_id oh < 2 ^ 62 \<and> oh_object_id oh < 2 ^ 62 \<and> data \<noteq> [] \<and> length data < 2 ^ 32 \<and>
     exts_ok (object_extensions oh h) (oh_immutable_extensions oh)"

text \<open>The subgroup the receiver sees.\<close>

definition recv_subgroup :: "StreamHeaderType \<Rightarrow> u64 \<Rightarrow> u64" where
  "recv_subgroup t s = (if GetSubgroupIdType t = Inr kIsZero then 0 else s)"

lemma object_id_delta_bound:
  assumes "oh_object_id oh < 2 ^ 62" shows "object_id_delta oh h < 2 ^ 62"
proof -
  have dec: "x - 1 < 2 ^ 62" if "x < 2 ^ 62" "x \<noteq> 0" for x :: u64
    using that unat_minus_one [of x] by (simp add: word_less_nat_alt)
  have sub: "oh_object_id oh - l < 2 ^ 62" if "\<not> oh_object_id oh < l" for l
    using that assms unat_sub [of l "oh_object_id oh"] by (simp add: word_less_nat_alt not_less word_le_nat_alt)
  show ?thesis using assms dec sub by (auto simp: object_id_delta_def Let_def split: option.split)
qed

lemma account_fields [simp]:
  "publish_status (account_object oh data h) = publish_status h" "default_track_mode (account_object oh data h) = default_track_mode h"
  "pth_request_id (account_object oh data h) = pth_request_id h" "pth_track_alias (account_object oh data h) = pth_track_alias h"
  "stream_mode (account_object oh data h) = stream_mode h" "latest_group_id (account_object oh data h) = oh_group_id oh"
  "latest_sub_group_id (account_object oh data h) = oh_subgroup_id oh" "latest_object_id (account_object oh data h) = Some (oh_object_id oh)"
  "default_priority (account_object oh data h) = default_priority h"
  by (simp_all add: account_object_def Let_def)

lemma sender_ok_account [simp]: "sender_ok (account_object oh data h) = sender_ok h"
  by (simp add: sender_ok_def)

text \<open>What is sent for one object.\<close>

definition header_msg :: "ObjectHeaders \<Rightarrow> PublishTrackHandler \<Rightarrow> StreamHeaderSubGroup" where
  "header_msg oh h = \<lparr>current_pos = 0, parse_completed = False, hs_type = stream_mode h,
     hs_track_alias = the (pth_track_alias h), hs_group_id = oh_group_id oh,
     hs_subgroup_id = (if GetSubgroupIdType (stream_mode h) = Inr kExplicit then Some (oh_subgroup_id oh) else None),
     hs_priority = object_priority oh h\<rparr>"

definition object_msg :: "ObjectStatus \<Rightarrow> ObjectHeaders \<Rightarrow> bytes \<Rightarrow> PublishTrackHandler \<Rightarrow> StreamSubGroupObject" where
  "object_msg status0 oh data h = subgroup_object_of status0 oh (object_id_delta oh h) (object_extensions oh h) data h"

lemma properties_subgroup: "StreamHeaderProperties_of t = Inr p \<Longrightarrow> GetSubgroupIdType t = Inr (subgroup_id_type p)"
  by (auto simp: StreamHeaderProperties_of_def bind_result_Inr_iff)

lemma header_msg_ok:
  assumes "sender_ok h" "object_ok oh data h'" shows "hs_ok (header_msg oh h)"
  using assms properties_subgroup [of "stream_mode h"] by (auto simp: sender_ok_def object_ok_def hs_ok_def header_msg_def)

lemma object_msg_ok:
  assumes "sender_ok h" "object_ok oh data h" shows "so_ok (object_msg status0 oh data h)"
  using assms object_id_delta_bound [of oh h]
  by (auto simp: sender_ok_def object_ok_def so_ok_def object_msg_def subgroup_object_of_def msg_exts_ok_def has_exts_def)

lemma object_call_account [simp]: "eq_bytes (object_call oh fl w h) = w" "eq_flags (object_call oh fl w h) = fl"
  by (simp_all add: object_call_def)

lemma PublishObject_sends:
  assumes "sender_ok h" "object_ok oh data h"
    "put_StreamHeaderSubGroup [] (header_msg oh h) = Inr wh" "put_StreamSubGroupObject [] (object_msg status0 oh data h) = Inr wo"
  shows "\<exists>calls. PublishObject record_call status0 oh data (Some t) h = (Inr PublishObjectStatus_kOk, Some (t @ calls), account_object oh data h) \<and>
    map (\<lambda>c. (new_stream (eq_flags c), eq_bytes c)) calls = (if stream_header_needed oh h then [(True, wh)] else []) @ [(False, wo)]"
proof -
  let ?h = "account_object oh data h"
  have gate: "publish_gate (stream_header_needed oh h) h = Inr (stream_header_needed oh h, h)"
    using assms(1) by (simp add: publish_gate_def sender_ok_def)
  have "h\<lparr>default_track_mode := TrackMode_kStream\<rparr> = h" using assms(1) by (simp add: sender_ok_def)
  then have mode: "(case oh_track_mode oh of Some mode \<Rightarrow> h\<lparr>default_track_mode := mode\<rparr> | None \<Rightarrow> h) = h"
    using assms(2) by (auto simp: object_ok_def split: option.split intro: TrackMode.exhaust)
  obtain a p where ap: "pth_track_alias h = Some a" "StreamHeaderProperties_of (stream_mode h) = Inr p"
    using assms(1) by (auto simp: sender_ok_def)
  have "header_msg oh h = \<lparr>current_pos = 0, parse_completed = False, hs_type = stream_mode h, hs_track_alias = a,
      hs_group_id = oh_group_id oh, hs_subgroup_id = (if subgroup_id_type p = kExplicit then Some (oh_subgroup_id oh) else None),
      hs_priority = object_priority oh ?h\<rparr>"
    using ap properties_subgroup [OF ap(2)] by (simp add: header_msg_def object_priority_def split: option.split)
  then have hdr: "send_stream_header record_call oh ?h t' =
      (Inr (), t' @ [object_call oh \<lparr>use_reliable = True, new_stream = True, clear_tx_queue = True, use_reset = False\<rparr> wh ?h])" for t'
    using assms(3) ap by (simp add: send_stream_header_def track_alias_value_def subgroup_header_of_def enqueue_or_throw_def record_call_def)
  have "object_bytes status0 oh (object_id_delta oh h) (object_extensions oh h) data ?h = Inr wo"
    using assms(1,4) by (simp add: object_bytes_def sender_ok_def object_msg_def subgroup_object_of_def)
  then have obj: "send_object record_call status0 oh (object_id_delta oh h) (object_extensions oh h) data ?h t' =
      (Inr (), t' @ [object_call oh (EnqueueFlags_default\<lparr>use_reliable := True\<rparr>) wo ?h])" for t'
    using assms(1) by (simp add: send_object_def enqueue_or_throw_def record_call_def sender_ok_def)
  show ?thesis using gate mode hdr obj assms(1)
    by (simp add: PublishObject_def Let_def sender_ok_def EnqueueFlags_default_def)
qed

subsection \<open>Publisher and subscriber in step\<close>

text \<open>\<open>nxt\<close> is the id the subscriber expects next, \<open>None\<close> before the first object.\<close>

definition in_step :: "nat \<Rightarrow> u64 option \<Rightarrow> PublishTrackHandler \<Rightarrow> SubscribeTrackHandler \<Rightarrow> bool" where
  "in_step n nxt h hs \<longleftrightarrow> current_stream_id hs \<le> of_nat n \<and> next_object_id hs = nxt \<and>
     (if nxt = None then latest_object_id h = None
      else latest_object_id h \<noteq> None \<and> current_group_id hs = latest_group_id h \<and>
        current_subgroup_id hs = recv_subgroup (stream_mode h) (latest_sub_group_id h) \<and>
        (\<exists>m. idle_on m hs \<and> hs_type m = stream_mode h \<and> hs_group_id m = latest_group_id h \<and>
           hs_subgroup_id m = Some (recv_subgroup (stream_mode h) (latest_sub_group_id h))))"

text \<open>The id that the subscriber computes for the next object.\<close>

definition received_id :: "u64 option \<Rightarrow> ObjectHeaders \<Rightarrow> PublishTrackHandler \<Rightarrow> u64" where
  "received_id nxt oh h =
     (case nxt of
        None \<Rightarrow> object_id_delta oh h
      | Some next \<Rightarrow>
          if latest_group_id h \<noteq> oh_group_id oh \<or>
             recv_subgroup (stream_mode h) (latest_sub_group_id h) \<noteq> recv_subgroup (stream_mode h) (oh_subgroup_id oh)
          then object_id_delta oh h else next + object_id_delta oh h)"

text \<open>What the application sees of an object: group, subgroup, object, both extension maps, payload.\<close>

type_synonym object_view = "u64 \<times> u64 \<times> u64 \<times> Extensions option \<times> Extensions option \<times> bytes"

definition view :: "received \<Rightarrow> object_view" where
  "view r = (case r of (oh, data) \<Rightarrow>
     (oh_group_id oh, oh_subgroup_id oh, oh_object_id oh, oh_extensions oh, oh_immutable_extensions oh, data))"

definition sent_view :: "u64 \<Rightarrow> ObjectHeaders \<Rightarrow> bytes \<Rightarrow> PublishTrackHandler \<Rightarrow> object_view" where
  "sent_view object_id oh data h =
     (oh_group_id oh, recv_subgroup (stream_mode h) (oh_subgroup_id oh), object_id,
      recv_exts (object_extensions oh h) (oh_immutable_extensions oh), recv_imm (oh_immutable_extensions oh), data)"

lemma header_recv_subgroup:
  assumes "sender_ok h"
  shows "hs_recv_id (header_msg oh h) = Some (recv_subgroup (stream_mode h) (oh_subgroup_id oh))"
proof -
  obtain p where "StreamHeaderProperties_of (stream_mode h) = Inr p" "subgroup_id_type p \<noteq> kSetFromFirstObject"
    using assms by (auto simp: sender_ok_def)
  then show ?thesis using properties_subgroup [of "stream_mode h" p]
    by (cases "subgroup_id_type p") (simp_all add: hs_recv_id_def header_msg_def recv_subgroup_def)
qed

text \<open>A callback that returns normally.\<close>

definition accept :: callback where
  "accept oh data = True"

text \<open>The object on a stream whose header the subscriber has read.\<close>

lemma object_received:
  assumes "sender_ok h" "object_ok oh data h" "put_StreamSubGroupObject [] (object_msg status0 oh data h) = Inr wo"
    "current_stream_id hs \<le> sid" "idle_on m hs" "hs_type m = stream_mode h" "hs_group_id m = oh_group_id oh"
    "hs_subgroup_id m = Some (recv_subgroup (stream_mode h) (oh_subgroup_id oh))"
  defines "rid \<equiv> receive_object_id m (object_id_delta oh h) hs"
  shows "\<exists>r hs'. StreamDataRecv accept False sid wo hs = Inr ([r], hs') \<and> view r = sent_view rid oh data h \<and>
    idle_on m hs' \<and> current_stream_id hs' = sid \<and> next_object_id hs' = Some (rid + 1) \<and>
    current_group_id hs' = oh_group_id oh \<and> current_subgroup_id hs' = recv_subgroup (stream_mode h) (oh_subgroup_id oh)"
proof -
  have "so_stream_type (object_msg status0 oh data h) = Some (hs_type m)" using assms(6) by (simp add: object_msg_def subgroup_object_of_def)
  then obtain obj h' where o: "StreamDataRecv accept False sid wo hs = deliver_object accept m obj h'"
    "so_head (object_msg status0 oh data h) obj" "body_complete obj (object_msg status0 oh data h)"
    "stream_buffer h' = (stream_buffer hs)\<lparr>buffer := [], parsed_dataB := Some (Any_SubgroupObject obj)\<rparr>"
    "h' = hs\<lparr>current_stream_id := sid, stream_buffer := stream_buffer h'\<rparr>"
    using StreamDataRecv_object [OF object_msg_ok [OF assms(1,2)] assms(3-5), of accept "[]"] by auto
  have same: "next_object_id h' = next_object_id hs" "current_group_id h' = current_group_id hs"
    "current_subgroup_id h' = current_subgroup_id hs" "current_stream_id h' = sid" 
    using arg_cong [OF o(5), of next_object_id] arg_cong [OF o(5), of current_group_id]
      arg_cong [OF o(5), of current_subgroup_id] arg_cong [OF o(5), of current_stream_id] by simp_all
  have delta: "so_object_delta obj = object_id_delta oh h" using o(2) by (simp add: so_head_def object_msg_def subgroup_object_of_def)
  have rid: "receive_object_id m (so_object_delta obj) h' = rid" by (simp add: rid_def delta receive_object_id_def same split: option.split)
  have body: "payload obj = data" "extensions (ext obj) = recv_exts (object_extensions oh h) (oh_immutable_extensions oh)"
    "immutable_extensions obj = recv_imm (oh_immutable_extensions oh)"
    using o(3) by (simp_all add: body_complete_def exts_received_def object_msg_def subgroup_object_of_def)
  have "\<exists>t ty. ResetAnyB_init (Any_SubgroupObject SubgroupObject_init) (stream_buffer h') =
      \<lparr>buffer = [], parsed_data = Some (Any_SubgroupHeader m),
       parsed_dataB = Some (Any_SubgroupObject (SubgroupObject_init\<lparr>so_stream_type := ty\<rparr>)), parsed_data_type = t\<rparr>"
    using assms(5) o(4) by (auto simp: idle_on_def ResetAnyB_init_def ResetAnyB_def InitAnyB_def SubgroupObject_init_def)
  then show ?thesis using o(1) rid body same assms(7,8)
    by (simp add: accept_def deliver_object_def Let_def count_object_def idle_on_def view_def sent_view_def stream_object_headers_def)
qed

lemma step_received:
  assumes "sender_ok h" "object_ok oh data h" "in_step n nxt h hs" "n + 1 < 2 ^ 64"
  shows "\<exists>calls n' r hs'. PublishObject record_call status0 oh data (Some t) h =
      (Inr PublishObjectStatus_kOk, Some (t @ calls), account_object oh data h) \<and>
    deliver_calls accept n calls hs = Inr ([r], n', hs') \<and> view r = sent_view (received_id nxt oh h) oh data h \<and>
    n' \<le> n + 1 \<and> in_step n' (Some (received_id nxt oh h + 1)) (account_object oh data h) hs'"
proof -
  obtain wh where wh: "put_StreamHeaderSubGroup [] (header_msg oh h) = Inr wh"
    using put_StreamHeaderSubGroup_ok [OF header_msg_ok [OF assms(1,2)]] by blast
  obtain wo where wo: "put_StreamSubGroupObject [] (object_msg status0 oh data h) = Inr wo"
    using put_StreamSubGroupObject_ok [OF object_msg_ok [OF assms(1,2)]] by blast
  obtain calls where calls: "PublishObject record_call status0 oh data (Some t) h =
      (Inr PublishObjectStatus_kOk, Some (t @ calls), account_object oh data h)"
    "map (\<lambda>c. (new_stream (eq_flags c), eq_bytes c)) calls = (if stream_header_needed oh h then [(True, wh)] else []) @ [(False, wo)]"
    using PublishObject_sends [OF assms(1,2) wh wo] by blast
  have sid: "current_stream_id hs \<le> of_nat n" using assms(3) by (simp add: in_step_def)
  have up: "(of_nat n :: u64) \<le> of_nat (n + 1)" using assms(4) by (simp add: word_le_nat_alt unat_of_nat_small del: of_nat_add of_nat_Suc)
  show ?thesis
  proof (cases "stream_header_needed oh h")
    case True
    obtain m hs1 where h1: "StreamDataRecv accept True (of_nat (n + 1)) wh hs = Inr ([], hs1)" "hs_complete m (header_msg oh h)"
      "idle_on m hs1" "current_stream_id hs1 = of_nat (n + 1)" "next_object_id hs1 = next_object_id hs"
      "current_group_id hs1 = current_group_id hs" "current_subgroup_id hs1 = current_subgroup_id hs"
      using StreamDataRecv_header [OF header_msg_ok [OF assms(1,2)] wh, of hs "of_nat (n + 1)"] order.trans [OF sid up] by blast
    have m: "hs_type m = stream_mode h" "hs_group_id m = oh_group_id oh"
      "hs_subgroup_id m = Some (recv_subgroup (stream_mode h) (oh_subgroup_id oh))"
      using h1(2) header_recv_subgroup [OF assms(1), of oh] by (auto simp: hs_complete_def) (simp_all add: header_msg_def)
    have rid: "receive_object_id m (object_id_delta oh h) hs1 = received_id nxt oh h"
      using assms(3) m by (auto simp: receive_object_id_def received_id_def in_step_def h1 split: option.splits)
    obtain r hs' where r: "StreamDataRecv accept False (of_nat (n + 1)) wo hs1 = Inr ([r], hs')"
      "view r = sent_view (received_id nxt oh h) oh data h" "idle_on m hs'" "current_stream_id hs' = of_nat (n + 1)"
      "next_object_id hs' = Some (received_id nxt oh h + 1)" "current_group_id hs' = oh_group_id oh"
      "current_subgroup_id hs' = recv_subgroup (stream_mode h) (oh_subgroup_id oh)"
      using object_received [OF assms(1,2) wo _ h1(3) m, of "of_nat (n + 1)"] h1(4) rid by auto
    obtain c1 c2 where c: "calls = [c1, c2]" "new_stream (eq_flags c1)" "eq_bytes c1 = wh" "\<not> new_stream (eq_flags c2)" "eq_bytes c2 = wo"
      using calls(2) True by (auto simp: map_eq_Cons_conv)
    have "deliver_calls accept n calls hs = Inr ([r], n + 1, hs')" using c h1(1) r(1) by simp
    moreover have "in_step (n + 1) (Some (received_id nxt oh h + 1)) (account_object oh data h) hs'" using r m by (auto simp: in_step_def)
    ultimately show ?thesis using calls(1) r(2)
      by (intro exI [of _ calls] exI [of _ "n + 1"] exI [of _ r] exI [of _ hs']) simp
  next
    case False
    then have l: "latest_object_id h \<noteq> None" "latest_sub_group_id h = oh_subgroup_id oh" "latest_group_id h = oh_group_id oh"
      by (simp_all add: stream_header_needed_def)
    obtain k m where km: "nxt = Some k" "idle_on m hs" "hs_type m = stream_mode h" "hs_group_id m = oh_group_id oh"
      "hs_subgroup_id m = Some (recv_subgroup (stream_mode h) (oh_subgroup_id oh))"
      "current_group_id hs = oh_group_id oh" "current_subgroup_id hs = recv_subgroup (stream_mode h) (oh_subgroup_id oh)"
      "next_object_id hs = Some k"
      using assms(3) l by (auto simp: in_step_def split: if_splits)
    have rid: "receive_object_id m (object_id_delta oh h) hs = received_id nxt oh h"
      using km l by (simp add: receive_object_id_def received_id_def)
    obtain r hs' where r: "StreamDataRecv accept False (of_nat n) wo hs = Inr ([r], hs')"
      "view r = sent_view (received_id nxt oh h) oh data h" "idle_on m hs'" "current_stream_id hs' = of_nat n"
      "next_object_id hs' = Some (received_id nxt oh h + 1)" "current_group_id hs' = oh_group_id oh"
      "current_subgroup_id hs' = recv_subgroup (stream_mode h) (oh_subgroup_id oh)"
      using object_received [OF assms(1,2) wo sid km(2-5)] rid by auto
    obtain c where c: "calls = [c]" "\<not> new_stream (eq_flags c)" "eq_bytes c = wo" using calls(2) False by (auto simp: map_eq_Cons_conv)
    have "deliver_calls accept n calls hs = Inr ([r], n, hs')" using c r(1) by simp
    moreover have "in_step n (Some (received_id nxt oh h + 1)) (account_object oh data h) hs'" using r km by (auto simp: in_step_def)
    ultimately show ?thesis using calls(1) r(2) by (intro exI [of _ calls] exI [of _ n] exI [of _ r] exI [of _ hs']) simp
  qed
qed

subsection \<open>Sequences of objects\<close>

text \<open>Publishing one object after the other, as long as each call returns \<^verbatim>\<open>kOk\<close>.\<close>

fun publish_all :: "ObjectStatus \<Rightarrow> (ObjectHeaders \<times> bytes) list \<Rightarrow> enqueue_call list \<Rightarrow> PublishTrackHandler \<Rightarrow>
    (enqueue_call list \<times> PublishTrackHandler) option" where
  "publish_all status0 [] t h = Some (t, h)"
| "publish_all status0 ((oh, data) # xs) t h =
     (case PublishObject record_call status0 oh data (Some t) h of
        (Inr PublishObjectStatus_kOk, Some t', h') \<Rightarrow> publish_all status0 xs t' h'
      | _ \<Rightarrow> None)"

text \<open>The objects come in an order the handlers can express: within what the subscriber takes for one
  subgroup the ids increase, and every other group or subgroup starts at object 0.\<close>

definition in_order :: "ObjectHeaders \<Rightarrow> PublishTrackHandler \<Rightarrow> bool" where
  "in_order oh h \<longleftrightarrow>
     (case latest_object_id h of
        None \<Rightarrow> True
      | Some latest \<Rightarrow>
          if latest_group_id h = oh_group_id oh \<and>
             recv_subgroup (stream_mode h) (latest_sub_group_id h) = recv_subgroup (stream_mode h) (oh_subgroup_id oh)
          then latest < oh_object_id oh else oh_object_id oh = 0)"

fun objects_ok :: "(ObjectHeaders \<times> bytes) list \<Rightarrow> PublishTrackHandler \<Rightarrow> bool" where
  "objects_ok [] h = True"
| "objects_ok ((oh, data) # xs) h \<longleftrightarrow> object_ok oh data h \<and> in_order oh h \<and> objects_ok xs (account_object oh data h)"

fun sent_views :: "(ObjectHeaders \<times> bytes) list \<Rightarrow> PublishTrackHandler \<Rightarrow> object_view list" where
  "sent_views [] h = []"
| "sent_views ((oh, data) # xs) h = sent_view (oh_object_id oh) oh data h # sent_views xs (account_object oh data h)"

lemma succ_ne_0: "(x :: u64) < 2 ^ 62 \<Longrightarrow> x + 1 \<noteq> 0"
proof
  assume "x < 2 ^ 62" "x + 1 = 0"
  then have "x = - 1" by (simp add: eq_neg_iff_add_eq_0)
  with \<open>x < 2 ^ 62\<close> show False by simp
qed

lemma received_id_in_order:
  assumes "in_order oh h" "oh_object_id oh < 2 ^ 62" "nxt = map_option (\<lambda>l. l + 1) (latest_object_id h)"
  shows "received_id nxt oh h = oh_object_id oh"
proof (cases "latest_object_id h")
  case None
  have "oh_object_id oh + 1 \<noteq> 0" by (rule succ_ne_0 [OF assms(2)])
  then show ?thesis using None assms(3) by (simp add: received_id_def object_id_delta_def)
next
  case (Some l)
  show ?thesis
  proof (cases "latest_group_id h = oh_group_id oh \<and>
      recv_subgroup (stream_mode h) (latest_sub_group_id h) = recv_subgroup (stream_mode h) (oh_subgroup_id oh)")
    case True
    then have l: "l < oh_object_id oh" using assms(1) Some by (simp add: in_order_def)
    then show ?thesis using True Some assms(3) by (auto simp: received_id_def object_id_delta_def Let_def)
  next
    case False
    then show ?thesis using assms Some by (auto simp: in_order_def received_id_def object_id_delta_def Let_def word_gt_0)
  qed
qed

lemma publish_subscribe_from:
  assumes "sender_ok h" "objects_ok xs h" "in_step n (map_option (\<lambda>l. l + 1) (latest_object_id h)) h hs" "n + length xs < 2 ^ 64"
  shows "\<exists>calls h' rs n' hs'. publish_all status0 xs t h = Some (t @ calls, h') \<and> deliver_calls accept n calls hs = Inr (rs, n', hs') \<and>
    map view rs = sent_views xs h"
  using assms
proof (induction xs arbitrary: t h n hs)
  case (Cons x xs)
  obtain oh data where x: "x = (oh, data)" by (cases x)
  let ?nxt = "map_option (\<lambda>l. l + 1) (latest_object_id h)"
  have ok: "object_ok oh data h" "in_order oh h" "objects_ok xs (account_object oh data h)" using Cons.prems(2) x by simp_all
  have id: "received_id ?nxt oh h = oh_object_id oh" using ok(1,2) by (intro received_id_in_order) (auto simp: object_ok_def)
  obtain calls n' r hs' where s: "PublishObject record_call status0 oh data (Some t) h =
      (Inr PublishObjectStatus_kOk, Some (t @ calls), account_object oh data h)"
    "deliver_calls accept n calls hs = Inr ([r], n', hs')" "view r = sent_view (oh_object_id oh) oh data h" "n' \<le> n + 1"
    "in_step n' (Some (oh_object_id oh + 1)) (account_object oh data h) hs'"
    using step_received [OF Cons.prems(1) ok(1) Cons.prems(3), of status0 t] Cons.prems(4) unfolding id by auto
  obtain calls' h'' rs n'' hs'' where IH: "publish_all status0 xs (t @ calls) (account_object oh data h) = Some ((t @ calls) @ calls', h'')"
    "deliver_calls accept n' calls' hs' = Inr (rs, n'', hs'')" "map view rs = sent_views xs (account_object oh data h)"
    using Cons.IH [of "account_object oh data h" n' hs' "t @ calls"] Cons.prems(1,4) ok(3) s(4,5) by auto
  have "deliver_calls accept n (calls @ calls') hs = Inr (r # rs, n'', hs'')" using s(2) IH(2) by (simp add: deliver_calls_append)
  then show ?case using s(1,3) IH(1,3) x
    by (intro exI [of _ "calls @ calls'"] exI [of _ h''] exI [of _ "r # rs"] exI [of _ n''] exI [of _ hs'']) simp
qed simp

lemma in_step_new: "latest_object_id h = None \<Longrightarrow> in_step 0 None h SubscribeTrackHandler_new"
  by (simp add: in_step_def SubscribeTrackHandler_new_def)

text \<open>C1. Publishing and subscribing on streams, end to end: a publisher that may send and that numbers its
  objects in order gets \<^verbatim>\<open>kOk\<close> for every object, and a new subscriber that is handed what was
  enqueued calls \<^verbatim>\<open>ObjectReceived\<close> once for each object, in the same order, with the same group,
  subgroup, object id and payload, and with the extensions, to which the publisher has added the gaps
  in the numbering.\<close>

theorem publish_subscribe:
  assumes "sender_ok h" "latest_object_id h = None" "objects_ok xs h" "length xs < 2 ^ 64"
  shows "\<exists>calls h' rs n' hs'. publish_all status0 xs [] h = Some (calls, h') \<and>
    deliver_calls accept 0 calls SubscribeTrackHandler_new = Inr (rs, n', hs') \<and> map view rs = sent_views xs h"
  using publish_subscribe_from [OF assms(1,3), of 0 SubscribeTrackHandler_new status0 "[]"] in_step_new [OF assms(2)] assms(2,4)
  by simp

text \<open>C16. The first object of a new group loses its id unless the id is 0: the publisher counts the delta
  from the last object of the previous group, the subscriber counts it from 0. After object \<open>a\<close> of one
  group, object \<open>b\<close> of another arrives as \<open>b - 1\<close> when \<open>a\<close> is larger, as 0 when they are equal, and as
  \<open>b - a - 1\<close> when \<open>a\<close> is smaller.\<close>

theorem group_change_misnumbers:
  assumes "sender_ok h" "latest_object_id h = None" "object_ok oh1 d1 h" "object_ok oh2 d2 (account_object oh1 d1 h)"
    "oh_group_id oh1 \<noteq> oh_group_id oh2" "oh_object_id oh2 \<noteq> 0"
  shows "\<exists>calls h' r1 r2 n' hs'. publish_all status0 [(oh1, d1), (oh2, d2)] [] h = Some (calls, h') \<and>
    deliver_calls accept 0 calls SubscribeTrackHandler_new = Inr ([r1, r2], n', hs') \<and>
    oh_object_id (fst r2) =
      (let a = oh_object_id oh1; b = oh_object_id oh2 in if a > b then b - 1 else if a = b then 0 else b - a - 1) \<and>
    oh_object_id (fst r2) \<noteq> oh_object_id oh2"
proof -
  let ?h1 = "account_object oh1 d1 h"
  have id1: "received_id None oh1 h = oh_object_id oh1"
    using assms(2,3) by (intro received_id_in_order) (auto simp: in_order_def object_ok_def)
  obtain calls1 n1 r1 hs1 where s1: "PublishObject record_call status0 oh1 d1 (Some []) h = (Inr PublishObjectStatus_kOk, Some calls1, ?h1)"
    "deliver_calls accept 0 calls1 SubscribeTrackHandler_new = Inr ([r1], n1, hs1)" "n1 \<le> 1"
    "in_step n1 (Some (oh_object_id oh1 + 1)) ?h1 hs1"
    using step_received [OF assms(1,3) in_step_new [OF assms(2)], of status0 "[]"] unfolding id1 by auto
  let ?id = "received_id (Some (oh_object_id oh1 + 1)) oh2 ?h1"
  obtain calls2 n2 r2 hs2 where s2: "PublishObject record_call status0 oh2 d2 (Some calls1) ?h1 =
      (Inr PublishObjectStatus_kOk, Some (calls1 @ calls2), account_object oh2 d2 ?h1)"
    "deliver_calls accept n1 calls2 hs1 = Inr ([r2], n2, hs2)" "view r2 = sent_view ?id oh2 d2 ?h1"
    using step_received [OF _ assms(4) s1(4), of status0 calls1] assms(1) s1(3) by auto
  have id: "?id = (let a = oh_object_id oh1; b = oh_object_id oh2 in if a > b then b - 1 else if a = b then 0 else b - a - 1)"
    using assms(5,6) by (auto simp: received_id_def object_id_delta_def Let_def)
  have "oh_object_id oh1 + 1 \<noteq> 0" using assms(3) by (intro succ_ne_0) (simp add: object_ok_def)
  then have "- oh_object_id oh1 \<noteq> 1" by (simp add: neg_eq_iff_add_eq_0)
  then have "?id \<noteq> oh_object_id oh2" unfolding id Let_def using assms(6) by (auto simp: diff_diff_eq)
  moreover have "oh_object_id (fst r2) = ?id" using s2(3) by (simp add: view_def sent_view_def split: prod.splits)
  moreover have "publish_all status0 [(oh1, d1), (oh2, d2)] [] h = Some (calls1 @ calls2, account_object oh2 d2 ?h1)"
    using s1(1) s2(1) by simp
  moreover have "deliver_calls accept 0 (calls1 @ calls2) SubscribeTrackHandler_new = Inr ([r1, r2], n2, hs2)"
    using s1(2) s2(2) by (simp add: deliver_calls_append)
  ultimately show ?thesis unfolding id [symmetric] by metis
qed

subsection \<open>The theorems on concrete objects\<close>

definition handler0 :: PublishTrackHandler where
  "handler0 = \<lparr>pth_connection_id = 1, pth_request_id = Some 2, publish_status = PublishStatus_kOk,
     default_track_mode = TrackMode_kStream, stream_mode = StreamHeaderType_kSubgroup0NotEndOfGroupWithExtensions,
     default_priority = 3, default_ttl = 100, publish_data_ctx_id = 4, latest_group_id = 0, latest_sub_group_id = 0,
     latest_object_id = None, pth_track_alias = Some 5, use_announce = False, pending_new_group_request_id = None,
     publish_track_metrics = PublishTrackMetrics_new\<rparr>"

definition headers0 :: "u64 \<Rightarrow> u64 \<Rightarrow> ObjectHeaders" where
  "headers0 g i = \<lparr>oh_group_id = g, oh_object_id = i, oh_subgroup_id = 0, oh_payload_length = 1,
     oh_status = ObjectStatus_kAvailable, oh_priority = None, oh_ttl = None, oh_track_mode = None, oh_extensions = None,
     oh_immutable_extensions = None\<rparr>"

lemma headers0_simps [simp]:
  "oh_group_id (headers0 g i) = g" "oh_object_id (headers0 g i) = i" "oh_subgroup_id (headers0 g i) = 0"
  "oh_track_mode (headers0 g i) = None" "oh_extensions (headers0 g i) = None" "oh_immutable_extensions (headers0 g i) = None"
  by (simp_all add: headers0_def)

lemma handler0_simps [simp]:
  "latest_object_id handler0 = None" "latest_group_id handler0 = 0" "latest_sub_group_id handler0 = 0"
  "stream_mode handler0 = StreamHeaderType_kSubgroup0NotEndOfGroupWithExtensions"
  by (simp_all add: handler0_def)

lemma handler0_ok: "sender_ok handler0"
  by (simp add: sender_ok_def handler0_def StreamHeaderProperties_of_def)

lemma no_exts_ok: "exts_ok None None"
  by (simp add: exts_ok_def wire_map_def ps_ok_def)

theorem publish_subscribe_witness:
  "\<exists>calls h' rs n' hs'. publish_all ObjectStatus_kAvailable [(headers0 0 0, [9]), (headers0 0 1, [8]), (headers0 1 0, [7])] [] handler0 =
      Some (calls, h') \<and> deliver_calls accept 0 calls SubscribeTrackHandler_new = Inr (rs, n', hs') \<and>
    map view rs = [(0, 0, 0, None, None, [9]), (0, 0, 1, None, None, [8]), (1, 0, 0, None, None, [7])]"
proof -
  let ?xs = "[(headers0 0 0, [9]), (headers0 0 1, [8]), (headers0 1 0, [7])]"
  have r: "recv_exts None None = None" "recv_imm None = None" by code_simp+
  have ok: "objects_ok ?xs handler0"
    by (simp add: object_ok_def in_order_def object_extensions_def group_id_delta_def object_id_delta_def no_exts_ok)
  have "sent_views ?xs handler0 = [(0, 0, 0, None, None, [9]), (0, 0, 1, None, None, [8]), (1, 0, 0, None, None, [7])]"
    by (simp add: sent_view_def object_extensions_def group_id_delta_def object_id_delta_def recv_subgroup_def r)
  moreover have "\<exists>calls h' rs n' hs'. publish_all ObjectStatus_kAvailable ?xs [] handler0 = Some (calls, h') \<and>
      deliver_calls accept 0 calls SubscribeTrackHandler_new = Inr (rs, n', hs') \<and> map view rs = sent_views ?xs handler0"
    by (rule publish_subscribe [OF handler0_ok _ ok]) simp_all
  ultimately show ?thesis by (simp only:)
qed

theorem group_change_misnumbers_witness:
  "\<exists>calls h' r1 r2 n' hs'. publish_all ObjectStatus_kAvailable [(headers0 0 0, [9]), (headers0 1 1, [8])] [] handler0 = Some (calls, h') \<and>
     deliver_calls accept 0 calls SubscribeTrackHandler_new = Inr ([r1, r2], n', hs') \<and> oh_object_id (fst r2) = 0"
proof -
  have "object_ok (headers0 0 0) [9] handler0" by (simp add: object_ok_def object_extensions_def group_id_delta_def object_id_delta_def no_exts_ok)
  moreover have "object_ok (headers0 1 1) [8] (account_object (headers0 0 0) [9] handler0)"
    by (simp add: object_ok_def object_extensions_def group_id_delta_def object_id_delta_def no_exts_ok)
  ultimately show ?thesis
    using group_change_misnumbers [OF handler0_ok, of "headers0 0 0" "[9]" "headers0 1 1" "[8]" ObjectStatus_kAvailable]
    unfolding Let_def headers0_simps by fastforce
qed

end
