(* ===== verification/Transport_State.thy ===== *)
theory Transport_State
  imports Publish_Subscribe Track_Name Std_Map
begin

section \<open>The state of the transport\<close>

text \<open>
  The class \<^verbatim>\<open>Transport\<close> (\<^verbatim>\<open>detail/transport.h\<close>, \<^verbatim>\<open>src/transport.cpp\<close>): its connections with
  their tables of requests and tracks, the handlers these tables point to, and the functions that send
  control messages.

  Handlers are shared objects: the tables hold addresses into two stores, one of subscribe handlers and
  one of publish handlers, and \<open>alive\<close> says which handlers still exist, that is, which weak pointers can
  be locked. The QUIC transport below is the interface \<^verbatim>\<open>ITransport\<close>: its operations on a state of
  its own are fields of \<open>env\<close>. So are the writer and the reader of control messages (the reader by message type), which the build
  generates, the configured endpoint id, and what the code leaves open: the value of an uninitialised connection handle,
  the octets read through a span of a temporary,
  the state in which an exception leaves a handler, whether the application's object callback returns,
  and the connections the application names when a namespace is withdrawn.
  Calls of the application's virtual functions are recorded as \<open>event\<close>s in the order they are made; they
  are taken not to call the transport before they return.
\<close>

subsection \<open>Enumerations\<close>

datatype TransportStatus =
    TransportStatus_kReady | TransportStatus_kConnecting | TransportStatus_kRemoteRequestClose | TransportStatus_kDisconnected
  | TransportStatus_kIdleTimeout | TransportStatus_kShutdown | TransportStatus_kShuttingDown

datatype Status =
    Status_kReady | Status_kNotReady | Status_kInternalError | Status_kInvalidParams | Status_kConnecting
  | Status_kDisconnecting | Status_kNotConnected | Status_kFailedToConnect | Status_kPendingServerSetup

datatype ConnectionStatus =
    ConnectionStatus_kNotConnected | ConnectionStatus_kConnecting | ConnectionStatus_kConnected
  | ConnectionStatus_kIdleTimeout | ConnectionStatus_kClosedByRemote

datatype SubscribeStatus =
    SubscribeStatus_kOk | SubscribeStatus_kNotConnected | SubscribeStatus_kError | SubscribeStatus_kNotAuthorized
  | SubscribeStatus_kNotSubscribed | SubscribeStatus_kPendingResponse | SubscribeStatus_kSendingUnsubscribe
  | SubscribeStatus_kPaused | SubscribeStatus_kNewGroupRequested | SubscribeStatus_kCancelled
  | SubscribeStatus_kDoneByFin | SubscribeStatus_kDoneByReset

datatype SubscribeReason =
    SubscribeReason_kOk | SubscribeReason_kInternalError | SubscribeReason_kInvalidRange | SubscribeReason_kUnauthorized
  | SubscribeReason_kTimeout | SubscribeReason_kNotSupported | SubscribeReason_kTrackDoesNotExist
  | SubscribeReason_kMalformedAuthToken | SubscribeReason_kExpiredAuthToken

datatype PublishReason = PublishReason_kOk | PublishReason_kInternalError | PublishReason_kNotSupported

datatype FetchReason = FetchReason_kOk | FetchReason_kInvalidRange | FetchReason_kNoObjects | FetchReason_kInternalError

subsection \<open>Control messages\<close>

text \<open>The control messages with the fields that the code passes to their constructors or reads from them
  after parsing, in that order. The classes themselves and their wire format are generated. A message of a
  type for which the receiver has no case is \<open>Msg_Unsupported\<close>.\<close>

datatype CtrlMsg =
    Msg_ClientSetup "u64 list" "KeyValuePair list"
  | Msg_ServerSetup u64 "KeyValuePair list"
  | Msg_PublishNamespace u64 TrackNamespace "KeyValuePair list"
  | Msg_PublishNamespaceOk u64
  | Msg_PublishNamespaceError u64 u64 bytes
  | Msg_PublishNamespaceDone TrackNamespace
  | Msg_PublishNamespaceCancel TrackNamespace
  | Msg_TrackStatus u64 TrackNamespace bytes u8 GroupOrder u8 FilterType "Location option" "u64 option" "KeyValuePair list"
  | Msg_TrackStatusOk u64 u64 u64 GroupOrder bool "Location option" "KeyValuePair list"
  | Msg_TrackStatusError u64 SubscribeErrorCode bytes
  | Msg_Subscribe u64 TrackNamespace bytes u8 GroupOrder u8 FilterType "Location option" "u64 option" "KeyValuePair list"
  | Msg_SubscribeUpdate u64 u64 Location u64 u8 u8 "KeyValuePair list"
  | Msg_SubscribeOk u64 u64 u64 GroupOrder bool "Location option" "KeyValuePair list"
  | Msg_SubscribeError u64 SubscribeErrorCode bytes
  | Msg_Unsubscribe u64
  | Msg_Publish u64 TrackNamespace bytes u64 GroupOrder bool "Location option" u8 "KeyValuePair list"
  | Msg_PublishOk u64 u8 u8 GroupOrder FilterType "Location option" "u64 option" "KeyValuePair list"
  | Msg_PublishError u64 SubscribeErrorCode bytes
  | Msg_PublishDone u64 PublishDoneStatusCode u64 bytes
  | Msg_SubscribeNamespace u64 TrackNamespace "KeyValuePair list"
  | Msg_SubscribeNamespaceOk u64
  | Msg_SubscribeNamespaceError u64 SubscribeNamespaceErrorCode bytes
  | Msg_UnsubscribeNamespace TrackNamespace
  | Msg_Fetch u64 u8 GroupOrder FetchType "StandaloneFetch option" "JoiningFetch option" "KeyValuePair list"
  | Msg_FetchOk u64 GroupOrder bool Location "KeyValuePair list"
  | Msg_FetchError u64 FetchErrorCode bytes
  | Msg_FetchCancel u64
  | Msg_RequestsBlocked u64
  | Msg_Goaway bytes
  | Msg_Unsupported

definition setup_param :: "SetupParameterType \<Rightarrow> bytes \<Rightarrow> KeyValuePair" where
  "setup_param t v = \<lparr>kvp_type = SetupParameterType_value t, kvp_value = v\<rparr>"

definition param :: "ParameterType \<Rightarrow> bytes \<Rightarrow> KeyValuePair" where
  "param t v = \<lparr>kvp_type = ParameterType_value t, kvp_value = v\<rparr>"

definition is_param :: "ParameterType \<Rightarrow> KeyValuePair \<Rightarrow> bool" where
  "is_param t p \<longleftrightarrow> kvp_type p = ParameterType_value t"

definition is_setup_param :: "SetupParameterType \<Rightarrow> KeyValuePair \<Rightarrow> bool" where
  "is_setup_param t p \<longleftrightarrow> kvp_type p = SetupParameterType_value t"

text \<open>Octets of a string literal.\<close>

definition octets :: "string \<Rightarrow> bytes" where
  "octets s = map (\<lambda>c. of_nat (of_char c)) s"

subsection \<open>Handlers\<close>

text \<open>\<^verbatim>\<open>SubscribeTrackHandler::JoiningFetch\<close>.\<close>

record JoiningFetchInfo =
  ji_priority :: u8
  ji_group_order :: GroupOrder
  ji_parameters :: "KeyValuePair list"
  ji_joining_start :: u64
  ji_absolute :: bool

text \<open>The class of a subscribe handler: a plain one, a \<^verbatim>\<open>FetchTrackHandler\<close> with its range (start group,
  start object, end group, end object), a \<^verbatim>\<open>JoiningFetchHandler\<close> with its subscription.\<close>

datatype handler_class = SubscribeClass | FetchClass u64 u64 u64 u64 | JoiningClass nat

record Subscriber =
  st_handler :: SubscribeTrackHandler
  st_class :: handler_class
  st_full_track_name :: FullTrackName
  st_connection_handle :: u64
  st_request_id :: "u64 option"
  st_status :: SubscribeStatus
  st_priority :: u8
  st_group_order :: GroupOrder
  st_filter_type :: FilterType
  st_latest_location :: "Location option"
  st_joining_fetch :: "JoiningFetchInfo option"
  st_track_alias :: "u64 option"
  st_received_track_alias :: "u64 option"
  st_delivery_timeout :: u64
  st_publisher_initiated :: bool
  st_support_new_group_request :: bool
  st_pending_new_group_request_id :: "u64 option"
  st_has_transport :: bool

definition is_fetch_handler :: "Subscriber \<Rightarrow> bool" where
  "is_fetch_handler s = (case st_class s of FetchClass _ _ _ _ \<Rightarrow> True | _ \<Rightarrow> False)"

definition Subscriber_new ::
  "handler_class \<Rightarrow> u64 \<Rightarrow> FullTrackName \<Rightarrow> u8 \<Rightarrow> GroupOrder \<Rightarrow> FilterType \<Rightarrow> JoiningFetchInfo option \<Rightarrow> bool \<Rightarrow> Subscriber" where
  "Subscriber_new cls conn0 tfn priority group_order filter_type joining publisher_initiated =
     \<lparr>st_handler = SubscribeTrackHandler_new, st_class = cls, st_full_track_name = tfn, st_connection_handle = conn0,
      st_request_id = None, st_status = SubscribeStatus_kNotSubscribed, st_priority = priority, st_group_order = group_order,
      st_filter_type = filter_type, st_latest_location = None,
      st_joining_fetch = (if publisher_initiated then None else joining), st_track_alias = None,
      st_received_track_alias = None, st_delivery_timeout = 0, st_publisher_initiated = publisher_initiated,
      st_support_new_group_request = False, st_pending_new_group_request_id = None, st_has_transport = False\<rparr>"

record Publisher =
  pb_handler :: PublishTrackHandler
  pb_full_track_name :: FullTrackName
  pb_support_new_group_request :: bool
  pb_has_transport :: bool

subsection \<open>Connections\<close>

record SubscribeContext =
  sc_track_full_name :: FullTrackName
  sc_track_hash :: TrackHash
  sc_largest_location :: "Location option"

record ConnectionMetrics =
  cm_last_sample_time :: u64
  cm_quic :: QuicConnectionMetrics
  rx_dgram_unknown_track_alias :: u64
  rx_dgram_invalid_type :: u64
  rx_dgram_decode_failed :: u64
  rx_stream_buffer_error :: u64
  rx_stream_unknown_track_alias :: u64
  rx_stream_invalid_type :: u64
  invalid_ctrl_stream_msg :: u64

type_synonym hptr = nat

record ConnectionContext =
  connection_handle :: u64
  ctrl_data_ctx_id :: "u64 option"
  setup_complete :: bool
  closed :: bool
  client_version :: u64
  ctrl_msg_type_received :: "u64 option"
  ctrl_msg_buffer :: bytes
  next_request_id :: u64
  recv_req_id :: "(u64, SubscribeContext) std_map"
  sub_tracks_by_request_id :: "(u64, hptr) std_map"
  sub_by_recv_track_alias :: "(u64, hptr) std_map"
  pub_tracks_by_name :: "(u64, (u64, hptr) std_map) std_map"
  pub_tracks_by_track_alias :: "(u64, (u64, hptr) std_map) std_map"
  pub_tracks_ns_by_request_id :: "(u64, u64) std_map"
  pub_namespaces_by_request_id :: "(u64, u64) std_map"
  pub_by_request_id :: "(u64, FullTrackName) std_map"
  pub_tracks_by_request_id :: "(u64, hptr) std_map"
  pub_tracks_by_data_ctx_id :: "(u64, hptr) std_map"
  pub_fetch_tracks_by_request_id :: "(u64, hptr) std_map"
  sub_namespace_prefix_by_request_id :: "(u64, TrackNamespace) std_map"
  conn_metrics :: ConnectionMetrics

definition ConnectionMetrics_new :: ConnectionMetrics where
  "ConnectionMetrics_new = \<lparr>cm_last_sample_time = 0, cm_quic = QuicConnectionMetrics_new, rx_dgram_unknown_track_alias = 0, rx_dgram_invalid_type = 0, rx_dgram_decode_failed = 0,
     rx_stream_buffer_error = 0, rx_stream_unknown_track_alias = 0, rx_stream_invalid_type = 0, invalid_ctrl_stream_msg = 0\<rparr>"

definition ConnectionContext_new :: ConnectionContext where
  "ConnectionContext_new = \<lparr>connection_handle = 0, ctrl_data_ctx_id = None, setup_complete = False, closed = False,
     client_version = 0, ctrl_msg_type_received = None, ctrl_msg_buffer = [], next_request_id = 0, recv_req_id = [],
     sub_tracks_by_request_id = [], sub_by_recv_track_alias = [], pub_tracks_by_name = [], pub_tracks_by_track_alias = [],
     pub_tracks_ns_by_request_id = [], pub_namespaces_by_request_id = [], pub_by_request_id = [],
     pub_tracks_by_request_id = [], pub_tracks_by_data_ctx_id = [], pub_fetch_tracks_by_request_id = [],
     sub_namespace_prefix_by_request_id = [], conn_metrics = ConnectionMetrics_new\<rparr>"

definition GetNextRequestId :: "ConnectionContext \<Rightarrow> u64 \<times> ConnectionContext" where
  "GetNextRequestId c = (next_request_id c, c\<lparr>next_request_id := next_request_id c + 2\<rparr>)"

subsection \<open>The transport\<close>

text \<open>Calls of virtual functions that the application implements.\<close>

datatype event =
    Ev_StatusChanged Status
  | Ev_NewConnectionAccepted u64
  | Ev_ConnectionStatusChanged u64 ConnectionStatus
  | Ev_SetConnectionHandle u64
  | Ev_SubscribeStatus hptr SubscribeStatus
  | Ev_PublishStatus hptr PublishStatus
  | Ev_ObjectReceived hptr ObjectHeaders bytes
  | Ev_ServerSetupReceived u64 bytes
  | Ev_ClientSetupReceived u64 bytes
  | Ev_SubscribeReceived u64 u64 FullTrackName u8 GroupOrder u64 FilterType u8 "u64 option" bool
  | Ev_UnsubscribeReceived u64 u64
  | Ev_PublishDoneReceived u64 u64
  | Ev_NewGroupRequested FullTrackName u64
  | Ev_PublishNamespaceReceived u64 TrackNamespace u64
  | Ev_PublishNamespaceDoneReceived u64 TrackNamespace
  | Ev_PublishNamespaceNotPublished TrackNamespace
  | Ev_SubscribeNamespaceReceived u64 TrackNamespace u64
  | Ev_UnsubscribeNamespaceReceived u64 TrackNamespace
  | Ev_SubscribeNamespaceStatusChanged TrackNamespace "(SubscribeNamespaceErrorCode \<times> bytes) option"
  | Ev_PublishReceived u64 u64 FullTrackName u64 u8 GroupOrder u64 "u64 option" bool
  | Ev_TrackStatusReceived u64 u64 FullTrackName u8 GroupOrder FilterType u8
  | Ev_TrackStatusResponseReceived u64 u64 SubscribeReason "bytes option" "Location option"
  | Ev_StandaloneFetchReceived u64 u64 FullTrackName u8 GroupOrder Location Location
  | Ev_JoiningFetchReceived u64 u64 FullTrackName u8 GroupOrder u64 bool u64
  | Ev_FetchCancelReceived u64 u64
  | Ev_MetricsSampled "u64 option" ConnectionMetrics
  | Ev_PublishMetricsSampled hptr PublishTrackMetrics
  | Ev_SubscribeMetricsSampled hptr u64 u64

record 't env =
  it_Enqueue :: "'t enqueue"
  it_CreateDataContext :: "u64 \<Rightarrow> bool \<Rightarrow> u8 \<Rightarrow> bool \<Rightarrow> 't \<Rightarrow> u64 \<times> 't"
  it_DeleteDataContext :: "u64 \<Rightarrow> u64 \<Rightarrow> bool \<Rightarrow> 't \<Rightarrow> 't"
  it_Close :: "u64 \<Rightarrow> u64 \<Rightarrow> 't \<Rightarrow> 't"
  put_msg :: "CtrlMsg \<Rightarrow> bytes result"
  get_msg :: "u64 \<Rightarrow> bytes \<Rightarrow> CtrlMsg result"
  endpoint_id :: bytes
  conn0 :: u64
  dangling :: bytes
  after_throw :: "SubscribeTrackHandler \<Rightarrow> bytes \<Rightarrow> SubscribeTrackHandler"
  object_callback :: callback
  done_subscribers :: "u64 \<Rightarrow> TrackNamespace \<Rightarrow> u64 list"

record 't Transport =
  client_mode :: bool
  tr_status :: Status
  tr_stop :: bool
  connections :: "(u64, ConnectionContext) std_map"
  subs :: "hptr \<Rightarrow> Subscriber"
  pubs :: "hptr \<Rightarrow> Publisher"
  next_ptr :: hptr
  alive :: "hptr \<Rightarrow> bool"
  quic :: 't
  events :: "event list"

definition emit :: "event \<Rightarrow> 't Transport \<Rightarrow> 't Transport" where
  "emit e tr = tr\<lparr>events := events tr @ [e]\<rparr>"

definition put_conn :: "u64 \<Rightarrow> ConnectionContext \<Rightarrow> 't Transport \<Rightarrow> 't Transport" where
  "put_conn cid c tr = tr\<lparr>connections := map_put cid c (connections tr)\<rparr>"

text \<open>\<^verbatim>\<open>connections_[id]\<close>, which creates the entry when it is missing.\<close>

definition conn_at :: "u64 \<Rightarrow> 't Transport \<Rightarrow> ConnectionContext" where
  "conn_at cid tr = map_at ConnectionContext_new (connections tr) cid"

definition put_sub :: "hptr \<Rightarrow> Subscriber \<Rightarrow> 't Transport \<Rightarrow> 't Transport" where
  "put_sub h s tr = tr\<lparr>subs := (subs tr)(h := s)\<rparr>"

definition put_pub :: "hptr \<Rightarrow> Publisher \<Rightarrow> 't Transport \<Rightarrow> 't Transport" where
  "put_pub h p tr = tr\<lparr>pubs := (pubs tr)(h := p)\<rparr>"

definition sub_SetStatus :: "hptr \<Rightarrow> SubscribeStatus \<Rightarrow> 't Transport \<Rightarrow> 't Transport" where
  "sub_SetStatus h status tr =
     emit (Ev_SubscribeStatus h status) (put_sub h ((subs tr h)\<lparr>st_status := status\<rparr>) tr)"

definition pub_SetStatus :: "hptr \<Rightarrow> PublishStatus \<Rightarrow> 't Transport \<Rightarrow> 't Transport" where
  "pub_SetStatus h status tr =
     (let p = pubs tr h; (ph, changed) = pth_SetStatus status (pb_handler p); tr' = put_pub h (p\<lparr>pb_handler := ph\<rparr>) tr
      in if changed then emit (Ev_PublishStatus h status) tr' else tr')"

text \<open>The hash of a track name. The name is an octet string in memory, so its hash is defined.\<close>

definition track_hash :: "FullTrackName \<Rightarrow> TrackHash" where
  "track_hash tfn = (case TrackHash_of_name tfn of Inr th \<Rightarrow> th | Inl _ \<Rightarrow> TrackHash_of_hashes 0 0)"

lemma track_hash_eq:
  assumes "length (ns_bytes (name_space tfn)) < 2 ^ 64" "length (name tfn) < 2 ^ 64"
  shows "TrackHash_of_name tfn = Inr (track_hash tfn)"
  using hash_defined [OF assms(1)] hash_defined [OF assms(2)]
  by (auto simp: track_hash_def TrackHash_of_name_def hash_FullTrackName_def hash_TrackNamespace_def)

definition ns_hash :: "TrackNamespace \<Rightarrow> TrackHash" where
  "ns_hash ns = track_hash \<lparr>name_space = ns, name = []\<rparr>"

subsection \<open>Closing and sending\<close>

definition CloseConnection :: "'t env \<Rightarrow> u64 \<Rightarrow> TerminationReason \<Rightarrow> 't Transport \<Rightarrow> 't Transport" where
  "CloseConnection env conn_id reason tr =
     (let tr = tr\<lparr>quic := it_Close env conn_id (TerminationReason_value reason) (quic tr)\<rparr>
      in if client_mode tr then tr\<lparr>tr_stop := True\<rparr> else tr)"

definition ctrl_call :: "ConnectionContext \<Rightarrow> u64 \<Rightarrow> bytes \<Rightarrow> enqueue_call" where
  "ctrl_call c ctx data = \<lparr>eq_conn_id = connection_handle c, eq_data_ctx_id = ctx, eq_group_id = 0, eq_bytes = data,
     eq_priority = 0, eq_ttl_ms = 2000, eq_delay_ms = 0,
     eq_flags = \<lparr>use_reliable = True, new_stream = False, clear_tx_queue = False, use_reset = False\<rparr>\<rparr>"

definition SendCtrlMsg :: "'t env \<Rightarrow> ConnectionContext \<Rightarrow> bytes \<Rightarrow> 't Transport \<Rightarrow> unit result \<times> 't Transport" where
  "SendCtrlMsg env c data tr =
     (case ctrl_data_ctx_id c of
        None \<Rightarrow> (Inr (), CloseConnection env (connection_handle c) TerminationReason_kProtocolViolation tr)
      | Some ctx \<Rightarrow>
          let (r, q) = enqueue_or_throw (it_Enqueue env) (ctrl_call c ctx data) (quic tr)
          in (r, tr\<lparr>quic := q\<rparr>))"

text \<open>The body of every \<^verbatim>\<open>Send\<dots>\<close> function: the message is written and handed to the control stream;
  exceptions are caught and logged.\<close>

definition send :: "'t env \<Rightarrow> ConnectionContext \<Rightarrow> CtrlMsg result \<Rightarrow> 't Transport \<Rightarrow> 't Transport" where
  "send env c msg tr =
     (case bind_result msg (put_msg env) of
        Inl _ \<Rightarrow> tr
      | Inr data \<Rightarrow> snd (SendCtrlMsg env c data tr))"

definition kMoqtVersion :: u64 where "kMoqtVersion = 0xff00000E"
definition kSubscribeExpires :: u64 where "kSubscribeExpires = 0"

definition SendClientSetup :: "'t env \<Rightarrow> 't Transport \<Rightarrow> 't Transport" where
  "SendClientSetup env tr =
     (case connections tr of
        [] \<Rightarrow> tr
      | (_, c) # _ \<Rightarrow>
          send env c (Inr (Msg_ClientSetup [kMoqtVersion]
            [setup_param SetupParameterType_kEndpointId (endpoint_id env),
             setup_param SetupParameterType_kMaxRequestId (dangling env)])) tr)"

definition SendServerSetup :: "'t env \<Rightarrow> ConnectionContext \<Rightarrow> 't Transport \<Rightarrow> 't Transport" where
  "SendServerSetup env c =
     send env c (Inr (Msg_ServerSetup (client_version c) [setup_param SetupParameterType_kEndpointId (endpoint_id env)]))"

definition SendPublishNamespace :: "'t env \<Rightarrow> ConnectionContext \<Rightarrow> u64 \<Rightarrow> TrackNamespace \<Rightarrow> 't Transport \<Rightarrow> 't Transport" where
  "SendPublishNamespace env c request_id ns = send env c (Inr (Msg_PublishNamespace request_id ns []))"

definition SendPublishNamespaceOk :: "'t env \<Rightarrow> ConnectionContext \<Rightarrow> u64 \<Rightarrow> 't Transport \<Rightarrow> 't Transport" where
  "SendPublishNamespaceOk env c request_id = send env c (Inr (Msg_PublishNamespaceOk request_id))"

definition SendPublishNamespaceDone :: "'t env \<Rightarrow> ConnectionContext \<Rightarrow> TrackNamespace \<Rightarrow> 't Transport \<Rightarrow> 't Transport" where
  "SendPublishNamespaceDone env c ns = send env c (Inr (Msg_PublishNamespaceDone ns))"

definition SendTrackStatus :: "'t env \<Rightarrow> ConnectionContext \<Rightarrow> u64 \<Rightarrow> FullTrackName \<Rightarrow> 't Transport \<Rightarrow> 't Transport" where
  "SendTrackStatus env c request_id tfn =
     send env c (Inr (Msg_TrackStatus request_id (name_space tfn) (name tfn) 0 GroupOrder_kOriginalPublisherOrder 1
       FilterType_kLargestObject None None []))"

text \<open>Filters with an absolute start are refused by an exception.\<close>

definition no_absolute_filter :: "FilterType \<Rightarrow> unit result" where
  "no_absolute_filter f =
     (if f = FilterType_kAbsoluteStart \<or> f = FilterType_kAbsoluteRange
      then Inl (Runtime_Error ''Absolute filtering not yet supported for Subscribe'') else Inr ())"

definition SendSubscribe ::
  "'t env \<Rightarrow> ConnectionContext \<Rightarrow> u64 \<Rightarrow> FullTrackName \<Rightarrow> u8 \<Rightarrow> GroupOrder \<Rightarrow> FilterType \<Rightarrow> u64 \<Rightarrow> 't Transport \<Rightarrow> 't Transport" where
  "SendSubscribe env c request_id tfn priority group_order filter_type delivery_timeout =
     send env c (bind_result (no_absolute_filter filter_type) (\<lambda>_.
       Inr (Msg_Subscribe request_id (name_space tfn) (name tfn) priority group_order 1 filter_type None None
         [param ParameterType_kDeliveryTimeout (le_bytes 8 delivery_timeout)])))"

definition SendPublish ::
  "'t env \<Rightarrow> ConnectionContext \<Rightarrow> u64 \<Rightarrow> FullTrackName \<Rightarrow> u64 \<Rightarrow> GroupOrder \<Rightarrow> Location option \<Rightarrow> bool \<Rightarrow> bool \<Rightarrow>
     't Transport \<Rightarrow> 't Transport" where
  "SendPublish env c request_id tfn track_alias group_order largest_location forward support_new_group =
     send env c (Inr (Msg_Publish request_id (name_space tfn) (name tfn) track_alias group_order (largest_location \<noteq> None)
       largest_location (of_bool forward) (if support_new_group then [param ParameterType_kDynamicGroups [1]] else [])))"

definition SendPublishOk ::
  "'t env \<Rightarrow> ConnectionContext \<Rightarrow> u64 \<Rightarrow> bool \<Rightarrow> u8 \<Rightarrow> GroupOrder \<Rightarrow> FilterType \<Rightarrow> 't Transport \<Rightarrow> 't Transport" where
  "SendPublishOk env c request_id forward priority group_order filter_type =
     send env c (bind_result (no_absolute_filter filter_type) (\<lambda>_.
       Inr (Msg_PublishOk request_id (of_bool forward) priority group_order filter_type None None [])))"

definition SendPublishError :: "'t env \<Rightarrow> ConnectionContext \<Rightarrow> u64 \<Rightarrow> SubscribeErrorCode \<Rightarrow> string \<Rightarrow> 't Transport \<Rightarrow> 't Transport" where
  "SendPublishError env c request_id err reason = send env c (Inr (Msg_PublishError request_id err (octets reason)))"

definition SendSubscribeUpdate ::
  "'t env \<Rightarrow> ConnectionContext \<Rightarrow> u64 \<Rightarrow> u64 \<Rightarrow> Location \<Rightarrow> u64 \<Rightarrow> u8 \<Rightarrow> bool \<Rightarrow> bool \<Rightarrow> 't Transport \<Rightarrow> 't Transport" where
  "SendSubscribeUpdate env c request_id subscribe_request_id start_location end_group_id priority forward new_group_request =
     send env c (Inr (Msg_SubscribeUpdate request_id subscribe_request_id start_location end_group_id priority (of_bool forward)
       (if new_group_request then [param ParameterType_kNewGroupRequest (le_bytes 8 end_group_id)] else [])))"

definition SendTrackStatusOk :: "'t env \<Rightarrow> ConnectionContext \<Rightarrow> u64 \<Rightarrow> u64 \<Rightarrow> Location option \<Rightarrow> 't Transport \<Rightarrow> 't Transport" where
  "SendTrackStatusOk env c request_id expires largest_location =
     send env c (Inr (Msg_TrackStatusOk request_id 0 expires GroupOrder_kAscending (largest_location \<noteq> None) largest_location []))"

definition SendSubscribeOk :: "'t env \<Rightarrow> ConnectionContext \<Rightarrow> u64 \<Rightarrow> u64 \<Rightarrow> u64 \<Rightarrow> Location option \<Rightarrow> 't Transport \<Rightarrow> 't Transport" where
  "SendSubscribeOk env c request_id track_alias expires largest_location =
     send env c (Inr (Msg_SubscribeOk request_id track_alias expires GroupOrder_kAscending (largest_location \<noteq> None)
       largest_location [param ParameterType_kDynamicGroups [1]]))"

definition SendPublishDone :: "'t env \<Rightarrow> ConnectionContext \<Rightarrow> u64 \<Rightarrow> PublishDoneStatusCode \<Rightarrow> string \<Rightarrow> 't Transport \<Rightarrow> 't Transport" where
  "SendPublishDone env c request_id status reason = send env c (Inr (Msg_PublishDone request_id status 0 (octets reason)))"

definition SendUnsubscribe :: "'t env \<Rightarrow> ConnectionContext \<Rightarrow> u64 \<Rightarrow> 't Transport \<Rightarrow> 't Transport" where
  "SendUnsubscribe env c request_id = send env c (Inr (Msg_Unsubscribe request_id))"

definition SendSubscribeNamespace :: "'t env \<Rightarrow> u64 \<Rightarrow> TrackNamespace \<Rightarrow> 't Transport \<Rightarrow> 't Transport" where
  "SendSubscribeNamespace env conn_id pfx tr =
     (case map_find (connections tr) conn_id of
        None \<Rightarrow> tr
      | Some c \<Rightarrow>
          let (rid, c) = GetNextRequestId c;
              c = c\<lparr>sub_namespace_prefix_by_request_id := map_put rid pfx (sub_namespace_prefix_by_request_id c)\<rparr>
          in send env c (Inr (Msg_SubscribeNamespace rid pfx [])) (put_conn conn_id c tr))"

definition SendSubscribeNamespaceOk :: "'t env \<Rightarrow> ConnectionContext \<Rightarrow> u64 \<Rightarrow> 't Transport \<Rightarrow> 't Transport" where
  "SendSubscribeNamespaceOk env c request_id = send env c (Inr (Msg_SubscribeNamespaceOk request_id))"

definition SendSubscribeNamespaceError ::
  "'t env \<Rightarrow> ConnectionContext \<Rightarrow> u64 \<Rightarrow> SubscribeNamespaceErrorCode \<Rightarrow> string \<Rightarrow> 't Transport \<Rightarrow> 't Transport" where
  "SendSubscribeNamespaceError env c request_id err reason =
     send env c (Inr (Msg_SubscribeNamespaceError request_id err (octets reason)))"

text \<open>The first entry with an equal prefix is erased.\<close>

fun erase_prefix :: "TrackNamespace \<Rightarrow> (u64, TrackNamespace) std_map \<Rightarrow> (u64, TrackNamespace) std_map" where
  "erase_prefix pfx [] = []"
| "erase_prefix pfx ((rid, ns) # m) = (if TrackNamespace_eq ns pfx then m else (rid, ns) # erase_prefix pfx m)"

definition SendUnsubscribeNamespace :: "'t env \<Rightarrow> u64 \<Rightarrow> TrackNamespace \<Rightarrow> 't Transport \<Rightarrow> 't Transport" where
  "SendUnsubscribeNamespace env conn_id pfx tr =
     (case map_find (connections tr) conn_id of
        None \<Rightarrow> tr
      | Some c \<Rightarrow>
          let c = c\<lparr>sub_namespace_prefix_by_request_id := erase_prefix pfx (sub_namespace_prefix_by_request_id c)\<rparr>
          in send env c (Inr (Msg_UnsubscribeNamespace pfx)) (put_conn conn_id c tr))"

definition SendTrackStatusError :: "'t env \<Rightarrow> ConnectionContext \<Rightarrow> u64 \<Rightarrow> SubscribeErrorCode \<Rightarrow> bytes \<Rightarrow> 't Transport \<Rightarrow> 't Transport" where
  "SendTrackStatusError env c request_id err reason = send env c (Inr (Msg_TrackStatusError request_id err reason))"

definition SendSubscribeError :: "'t env \<Rightarrow> ConnectionContext \<Rightarrow> u64 \<Rightarrow> SubscribeErrorCode \<Rightarrow> string \<Rightarrow> 't Transport \<Rightarrow> 't Transport" where
  "SendSubscribeError env c request_id err reason = send env c (Inr (Msg_SubscribeError request_id err (octets reason)))"

definition SendFetch ::
  "'t env \<Rightarrow> ConnectionContext \<Rightarrow> u64 \<Rightarrow> FullTrackName \<Rightarrow> u8 \<Rightarrow> GroupOrder \<Rightarrow> u64 \<Rightarrow> u64 \<Rightarrow> u64 \<Rightarrow> u64 \<Rightarrow> 't Transport \<Rightarrow> 't Transport" where
  "SendFetch env c request_id tfn priority group_order start_group start_object end_group end_object =
     send env c (Inr (Msg_Fetch request_id priority group_order FetchType_kStandalone
       (Some \<lparr>sf_track_namespace = name_space tfn, sf_track_name = name tfn, sf_start = Location start_group start_object,
              sf_end = Location end_group end_object\<rparr>) None []))"

definition SendJoiningFetch ::
  "'t env \<Rightarrow> ConnectionContext \<Rightarrow> u64 \<Rightarrow> u8 \<Rightarrow> GroupOrder \<Rightarrow> u64 \<Rightarrow> u64 \<Rightarrow> bool \<Rightarrow> KeyValuePair list \<Rightarrow> 't Transport \<Rightarrow> 't Transport" where
  "SendJoiningFetch env c request_id priority group_order joining_request_id joining_start absolute parameters =
     send env c (Inr (Msg_Fetch request_id priority group_order
       (if absolute then FetchType_kAbsoluteJoiningFetch else FetchType_kRelativeJoiningFetch) None
       (Some \<lparr>jf_request_id = joining_request_id, jf_joining_start = joining_start\<rparr>) parameters))"

definition SendFetchCancel :: "'t env \<Rightarrow> ConnectionContext \<Rightarrow> u64 \<Rightarrow> 't Transport \<Rightarrow> 't Transport" where
  "SendFetchCancel env c request_id = send env c (Inr (Msg_FetchCancel request_id))"

definition SendFetchOk :: "'t env \<Rightarrow> ConnectionContext \<Rightarrow> u64 \<Rightarrow> GroupOrder \<Rightarrow> bool \<Rightarrow> Location \<Rightarrow> 't Transport \<Rightarrow> 't Transport" where
  "SendFetchOk env c request_id group_order end_of_track largest_location =
     send env c (Inr (Msg_FetchOk request_id group_order end_of_track largest_location []))"

definition SendFetchError :: "'t env \<Rightarrow> ConnectionContext \<Rightarrow> u64 \<Rightarrow> FetchErrorCode \<Rightarrow> bytes \<Rightarrow> 't Transport \<Rightarrow> 't Transport" where
  "SendFetchError env c request_id err reason = send env c (Inr (Msg_FetchError request_id err reason))"

end
