(* ===== verification/Transport_Frame.thy ===== *)
theory Transport_Frame
  imports Transport_State
begin

section \<open>What the primitives of the transport change\<close>

text \<open>Reading back what was written, and the parts of the transport that a write leaves alone. These facts
  carry the proofs about the operations.\<close>

lemma conn_at_put [simp]: "conn_at cid' (put_conn cid c tr) = (if cid' = cid then c else conn_at cid' tr)"
  by (simp add: conn_at_def put_conn_def map_at_def map_find_put)

lemma find_put_conn [simp]:
  "map_find (connections (put_conn cid c tr)) cid' = (if cid' = cid then Some c else map_find (connections tr) cid')"
  by (simp add: put_conn_def map_find_put)

lemma conn_at_found: "map_find (connections tr) cid = Some c \<Longrightarrow> conn_at cid tr = c"
  by (simp add: conn_at_def map_at_def)

lemma put_conn_frame [simp]:
  "subs (put_conn cid c tr) = subs tr" "pubs (put_conn cid c tr) = pubs tr" "quic (put_conn cid c tr) = quic tr"
  "events (put_conn cid c tr) = events tr" "client_mode (put_conn cid c tr) = client_mode tr"
  "tr_status (put_conn cid c tr) = tr_status tr" "tr_stop (put_conn cid c tr) = tr_stop tr"
  "next_ptr (put_conn cid c tr) = next_ptr tr" "alive (put_conn cid c tr) = alive tr"
  by (simp_all add: put_conn_def)

lemma put_sub_frame [simp]:
  "subs (put_sub h s tr) = (subs tr)(h := s)" "pubs (put_sub h s tr) = pubs tr" "quic (put_sub h s tr) = quic tr"
  "events (put_sub h s tr) = events tr" "client_mode (put_sub h s tr) = client_mode tr"
  "tr_status (put_sub h s tr) = tr_status tr" "tr_stop (put_sub h s tr) = tr_stop tr"
  "connections (put_sub h s tr) = connections tr" "conn_at cid (put_sub h s tr) = conn_at cid tr"
  "next_ptr (put_sub h s tr) = next_ptr tr" "alive (put_sub h s tr) = alive tr"
  by (simp_all add: put_sub_def conn_at_def)

lemma put_pub_frame [simp]:
  "subs (put_pub h p tr) = subs tr" "pubs (put_pub h p tr) = (pubs tr)(h := p)" "quic (put_pub h p tr) = quic tr"
  "events (put_pub h p tr) = events tr" "client_mode (put_pub h p tr) = client_mode tr"
  "tr_status (put_pub h p tr) = tr_status tr" "tr_stop (put_pub h p tr) = tr_stop tr"
  "connections (put_pub h p tr) = connections tr" "conn_at cid (put_pub h p tr) = conn_at cid tr"
  "next_ptr (put_pub h p tr) = next_ptr tr" "alive (put_pub h p tr) = alive tr"
  by (simp_all add: put_pub_def conn_at_def)

lemma emit_frame [simp]:
  "subs (emit e tr) = subs tr" "pubs (emit e tr) = pubs tr" "quic (emit e tr) = quic tr"
  "events (emit e tr) = events tr @ [e]" "client_mode (emit e tr) = client_mode tr"
  "tr_status (emit e tr) = tr_status tr" "tr_stop (emit e tr) = tr_stop tr"
  "connections (emit e tr) = connections tr" "conn_at cid (emit e tr) = conn_at cid tr"
  "next_ptr (emit e tr) = next_ptr tr" "alive (emit e tr) = alive tr"
  by (simp_all add: emit_def conn_at_def)

lemma update_frame [simp]:
  "conn_at cid (tr\<lparr>quic := q\<rparr>) = conn_at cid tr" "conn_at cid (tr\<lparr>tr_status := st\<rparr>) = conn_at cid tr"
  "conn_at cid (tr\<lparr>tr_stop := b\<rparr>) = conn_at cid tr" "conn_at cid (tr\<lparr>events := es\<rparr>) = conn_at cid tr"
  "conn_at cid (tr\<lparr>next_ptr := n, alive := a\<rparr>) = conn_at cid tr"
  by (simp_all add: conn_at_def)

text \<open>Sending only changes the QUIC transport and, when it closes the connection, the stop flag.\<close>

lemma CloseConnection_frame [simp]:
  "subs (CloseConnection env cid r tr) = subs tr" "pubs (CloseConnection env cid r tr) = pubs tr"
  "events (CloseConnection env cid r tr) = events tr" "client_mode (CloseConnection env cid r tr) = client_mode tr"
  "tr_status (CloseConnection env cid r tr) = tr_status tr" "connections (CloseConnection env cid r tr) = connections tr"
  "conn_at k (CloseConnection env cid r tr) = conn_at k tr"
  "next_ptr (CloseConnection env cid r tr) = next_ptr tr" "alive (CloseConnection env cid r tr) = alive tr"
  by (simp_all add: CloseConnection_def Let_def)

lemma send_cases:
  obtains "send env c msg tr = tr"
  | q where "send env c msg tr = tr\<lparr>quic := q\<rparr>"
  | "send env c msg tr = CloseConnection env (connection_handle c) TerminationReason_kProtocolViolation tr"
proof (cases "bind_result msg (put_msg env)")
  case Inl
  then show ?thesis using that(1) by (simp add: send_def)
next
  case (Inr data)
  show ?thesis
  proof (cases "ctrl_data_ctx_id c")
    case None
    with Inr show ?thesis using that(3) by (simp add: send_def SendCtrlMsg_def)
  next
    case (Some ctx)
    with Inr show ?thesis
      by (intro that(2) [of "snd (enqueue_or_throw (it_Enqueue env) (ctrl_call c ctx data) (quic tr))"])
        (simp add: send_def SendCtrlMsg_def case_prod_unfold Let_def)
  qed
qed

lemma send_frame [simp]:
  "subs (send env c msg tr) = subs tr" "pubs (send env c msg tr) = pubs tr"
  "events (send env c msg tr) = events tr" "client_mode (send env c msg tr) = client_mode tr"
  "tr_status (send env c msg tr) = tr_status tr" "connections (send env c msg tr) = connections tr"
  "conn_at k (send env c msg tr) = conn_at k tr"
  "next_ptr (send env c msg tr) = next_ptr tr" "alive (send env c msg tr) = alive tr"
  by (cases rule: send_cases [of env c msg tr]; simp)+

lemma sub_SetStatus_frame [simp]:
  "subs (sub_SetStatus h st tr) = (subs tr)(h := (subs tr h)\<lparr>st_status := st\<rparr>)" "pubs (sub_SetStatus h st tr) = pubs tr"
  "quic (sub_SetStatus h st tr) = quic tr" "events (sub_SetStatus h st tr) = events tr @ [Ev_SubscribeStatus h st]"
  "client_mode (sub_SetStatus h st tr) = client_mode tr" "tr_status (sub_SetStatus h st tr) = tr_status tr"
  "tr_stop (sub_SetStatus h st tr) = tr_stop tr" "connections (sub_SetStatus h st tr) = connections tr"
  "conn_at cid (sub_SetStatus h st tr) = conn_at cid tr"
  "next_ptr (sub_SetStatus h st tr) = next_ptr tr" "alive (sub_SetStatus h st tr) = alive tr"
  by (simp_all add: sub_SetStatus_def)

lemma pub_SetStatus_frame [simp]:
  "subs (pub_SetStatus h st tr) = subs tr"
  "pubs (pub_SetStatus h st tr) = (pubs tr)(h := (pubs tr h)\<lparr>pb_handler := (pb_handler (pubs tr h))\<lparr>publish_status := st\<rparr>\<rparr>)"
  "quic (pub_SetStatus h st tr) = quic tr"
  "client_mode (pub_SetStatus h st tr) = client_mode tr" "tr_status (pub_SetStatus h st tr) = tr_status tr"
  "tr_stop (pub_SetStatus h st tr) = tr_stop tr" "connections (pub_SetStatus h st tr) = connections tr"
  "conn_at cid (pub_SetStatus h st tr) = conn_at cid tr"
  "next_ptr (pub_SetStatus h st tr) = next_ptr tr" "alive (pub_SetStatus h st tr) = alive tr"
  by (auto simp: pub_SetStatus_def pth_SetStatus_def Let_def)

lemmas Send_defs =
  SendPublishNamespace_def SendPublishNamespaceOk_def SendPublishNamespaceDone_def SendTrackStatus_def SendSubscribe_def
  SendPublish_def SendPublishOk_def SendPublishError_def SendSubscribeUpdate_def SendTrackStatusOk_def SendSubscribeOk_def
  SendPublishDone_def SendUnsubscribe_def SendSubscribeNamespaceOk_def SendSubscribeNamespaceError_def
  SendTrackStatusError_def SendSubscribeError_def SendFetch_def SendJoiningFetch_def SendFetchCancel_def SendFetchOk_def
  SendFetchError_def SendServerSetup_def

lemma GetNextRequestId_simps [simp]:
  "fst (GetNextRequestId c) = next_request_id c" "snd (GetNextRequestId c) = c\<lparr>next_request_id := next_request_id c + 2\<rparr>"
  by (simp_all add: GetNextRequestId_def)

end
