(* ===== verification/Transport_Tracks.thy ===== *)
theory Transport_Tracks
  imports Transport_Frame
begin

section \<open>Tracks and connections\<close>

text \<open>
  The operations of \<^verbatim>\<open>Transport\<close> (\<^verbatim>\<open>src/transport.cpp\<close>) that the application calls on tracks:
  subscribing, publishing, fetching, their cancellation, and the answers to requests of the peer; and the
  callbacks of the QUIC transport for connections. An operation that can throw or has undefined behaviour
  returns a result next to the transport, which keeps what was assigned before.
\<close>

definition mod_conn :: "u64 \<Rightarrow> (ConnectionContext \<Rightarrow> ConnectionContext) \<Rightarrow> 't Transport \<Rightarrow> 't Transport" where
  "mod_conn cid f tr = put_conn cid (f (conn_at cid tr)) tr"

subsection \<open>Subscribing\<close>

text \<open>A joining fetch, requested together with a subscription, gets a request and a handler of its own.\<close>

definition send_joining_fetch :: "'t env \<Rightarrow> u64 \<Rightarrow> hptr \<Rightarrow> u64 \<Rightarrow> 't Transport \<Rightarrow> 't Transport" where
  "send_joining_fetch env conn_id h request_id tr =
     (case st_joining_fetch (subs tr h) of
        None \<Rightarrow> tr
      | Some info \<Rightarrow>
          let s = subs tr h; p = next_ptr tr; (fetch_rid, c) = GetNextRequestId (conn_at conn_id tr);
              j = Subscriber_new (JoiningClass h) (conn0 env) (st_full_track_name s) (st_priority s) (st_group_order s)
                    (st_filter_type s) None False;
              c = c\<lparr>sub_tracks_by_request_id := map_put fetch_rid p (sub_tracks_by_request_id c)\<rparr>;
              tr = put_conn conn_id c (put_sub p j (tr\<lparr>next_ptr := p + 1, alive := (alive tr)(p := True)\<rparr>))
          in SendJoiningFetch env c fetch_rid (ji_priority info) (ji_group_order info) request_id (ji_joining_start info)
               (ji_absolute info) (ji_parameters info) tr)"

definition SubscribeTrack :: "'t env \<Rightarrow> u64 \<Rightarrow> hptr \<Rightarrow> 't Transport \<Rightarrow> unit result \<times> 't Transport" where
  "SubscribeTrack env conn_id h tr =
     (let s = (subs tr h)\<lparr>st_connection_handle := conn_id\<rparr>;
          s = (if st_track_alias s = None
               then s\<lparr>st_track_alias := Some (track_fullname_hash (track_hash (st_full_track_name s)))\<rparr> else s);
          tr = put_sub h s tr
      in case map_find (connections tr) conn_id of
           None \<Rightarrow> (Inr (), tr)
         | Some c \<Rightarrow>
             if st_publisher_initiated s then
               (case st_received_track_alias s of
                  None \<Rightarrow> (Inl (Runtime_Error ''Missing received track alias for publisher initiated subscribe''), tr)
                | Some alias \<Rightarrow>
                    (case st_request_id s of
                       None \<Rightarrow> (Inl (Runtime_Error ''Missing request id for publisher initiated subscribe''), tr)
                     | Some rid \<Rightarrow>
                         let c = c\<lparr>sub_by_recv_track_alias := map_put alias h (sub_by_recv_track_alias c),
                                   sub_tracks_by_request_id := map_put rid h (sub_tracks_by_request_id c)\<rparr>
                         in (Inr (), put_conn conn_id c (put_sub h (s\<lparr>st_has_transport := True\<rparr>) tr))))
             else
               let (rid, c) = GetNextRequestId c;
                   s = s\<lparr>st_request_id := Some rid, st_has_transport := True\<rparr>;
                   c = c\<lparr>sub_tracks_by_request_id := map_put rid h (sub_tracks_by_request_id c)\<rparr>;
                   tr = SendSubscribe env c rid (st_full_track_name s) (st_priority s) (st_group_order s) (st_filter_type s)
                          (st_delivery_timeout s) (put_conn conn_id c (put_sub h s tr))
               in (Inr (), send_joining_fetch env conn_id h rid tr))"

definition RemoveSubscribeTrack :: "'t env \<Rightarrow> u64 \<Rightarrow> hptr \<Rightarrow> bool \<Rightarrow> 't Transport \<Rightarrow> 't Transport" where
  "RemoveSubscribeTrack env cid h remove_handler tr =
     (let s = subs tr h; c = conn_at cid tr;
          tr = (if st_status s \<in> {SubscribeStatus_kDoneByFin, SubscribeStatus_kDoneByReset, SubscribeStatus_kOk} then
                  let tr = (if \<not> st_publisher_initiated s \<and> \<not> closed c then
                              (case st_request_id s of None \<Rightarrow> tr | Some rid \<Rightarrow> SendUnsubscribe env c rid tr)
                            else tr)
                  in sub_SetStatus h SubscribeStatus_kNotSubscribed tr
                else tr)
      in if remove_handler then
           mod_conn cid (\<lambda>c. c\<lparr>
             sub_tracks_by_request_id := (case st_request_id s of None \<Rightarrow> sub_tracks_by_request_id c
                                          | Some rid \<Rightarrow> map_erase rid (sub_tracks_by_request_id c)),
             sub_by_recv_track_alias := (case st_received_track_alias s of None \<Rightarrow> sub_by_recv_track_alias c
                                         | Some alias \<Rightarrow> map_erase alias (sub_by_recv_track_alias c))\<rparr>) tr
         else tr)"

definition UnsubscribeTrack :: "'t env \<Rightarrow> u64 \<Rightarrow> hptr \<Rightarrow> 't Transport \<Rightarrow> 't Transport" where
  "UnsubscribeTrack env conn_id h tr = RemoveSubscribeTrack env conn_id h True (mod_conn conn_id (\<lambda>c. c) tr)"

definition UpdateTrackSubscription :: "'t env \<Rightarrow> u64 \<Rightarrow> hptr \<Rightarrow> 't Transport \<Rightarrow> 't Transport" where
  "UpdateTrackSubscription env conn_id h tr =
     (case map_find (connections tr) conn_id of
        None \<Rightarrow> tr
      | Some c \<Rightarrow>
          (case st_request_id (subs tr h) of
             None \<Rightarrow> tr
           | Some sub_rid \<Rightarrow>
               let (rid, c) = GetNextRequestId c; s = subs tr h
               in SendSubscribeUpdate env c rid sub_rid (Location 0 0)
                    (case st_pending_new_group_request_id s of Some g \<Rightarrow> g | None \<Rightarrow> 0) (st_priority s) True False
                    (put_conn conn_id c tr)))"

text \<open>\<^verbatim>\<open>Pause\<close>, \<^verbatim>\<open>Resume\<close> and \<^verbatim>\<open>RequestNewGroup\<close> of a subscribe handler. They are
  \<^verbatim>\<open>noexcept\<close>: a missing connection or request id ends the program, which is \<open>Undefined_Behaviour\<close>
  here.\<close>

definition send_update :: "'t env \<Rightarrow> hptr \<Rightarrow> u64 \<Rightarrow> bool \<Rightarrow> bool \<Rightarrow> 't Transport \<Rightarrow> unit result \<times> 't Transport" where
  "send_update env h end_group forward new_group tr =
     (let s = subs tr h; cid = st_connection_handle s in
      case map_find (connections tr) cid of
        None \<Rightarrow> (Inl Undefined_Behaviour, tr)
      | Some c \<Rightarrow>
          (case st_request_id s of
             None \<Rightarrow> (Inl Undefined_Behaviour, tr)
           | Some sub_rid \<Rightarrow>
               let (rid, c) = GetNextRequestId c
               in (Inr (), SendSubscribeUpdate env c rid sub_rid (Location 0 0) end_group (st_priority s) forward new_group
                             (put_conn cid c tr))))"

definition Pause :: "'t env \<Rightarrow> hptr \<Rightarrow> 't Transport \<Rightarrow> unit result \<times> 't Transport" where
  "Pause env h tr =
     (let s = subs tr h in
      if \<not> st_has_transport s \<or> st_status s = SubscribeStatus_kPaused \<or> st_status s = SubscribeStatus_kNotConnected
      then (Inr (), tr)
      else send_update env h 0 False False (put_sub h (s\<lparr>st_status := SubscribeStatus_kPaused\<rparr>) tr))"

definition Resume :: "'t env \<Rightarrow> hptr \<Rightarrow> 't Transport \<Rightarrow> unit result \<times> 't Transport" where
  "Resume env h tr =
     (let s = subs tr h in
      if \<not> st_has_transport s then (Inr (), tr)
      else if st_status s \<noteq> SubscribeStatus_kPaused then (Inr (), tr)
      else send_update env h 0 True False (put_sub h (s\<lparr>st_status := SubscribeStatus_kOk\<rparr>) tr))"

definition RequestNewGroup :: "'t env \<Rightarrow> hptr \<Rightarrow> u64 \<Rightarrow> 't Transport \<Rightarrow> unit result \<times> 't Transport" where
  "RequestNewGroup env h group_id tr =
     (let s = subs tr h in
      if \<not> st_has_transport s \<or> st_status s \<noteq> SubscribeStatus_kOk \<or> \<not> st_support_new_group_request s then (Inr (), tr)
      else send_update env h group_id True True tr)"

definition SetNewGroupRequestId :: "u64 \<Rightarrow> Subscriber \<Rightarrow> Subscriber" where
  "SetNewGroupRequestId group_id s =
     s\<lparr>st_pending_new_group_request_id :=
       (case st_pending_new_group_request_id s of
          None \<Rightarrow> Some group_id
        | Some g \<Rightarrow> if g < group_id then Some group_id else Some 0)\<rparr>"

subsection \<open>Publishing\<close>

definition pub_request_id :: "hptr \<Rightarrow> 't Transport \<Rightarrow> u64 option" where
  "pub_request_id h tr = pth_request_id (pb_handler (pubs tr h))"

definition mod_pub :: "hptr \<Rightarrow> (PublishTrackHandler \<Rightarrow> PublishTrackHandler) \<Rightarrow> 't Transport \<Rightarrow> 't Transport" where
  "mod_pub h f tr = put_pub h ((pubs tr h)\<lparr>pb_handler := f (pb_handler (pubs tr h))\<rparr>) tr"

text \<open>The track of the same name, if there is one, is told and removed.\<close>

definition unpublish_name :: "'t env \<Rightarrow> u64 \<Rightarrow> TrackHash \<Rightarrow> (u64, hptr) std_map \<Rightarrow> 't Transport \<Rightarrow> 't Transport" where
  "unpublish_name env conn_id th names tr =
     (case map_find names (track_name_hash th) of
        None \<Rightarrow> tr
      | Some q \<Rightarrow>
          let p = pb_handler (pubs tr q);
              tr = (case pth_request_id p of
                      Some rid \<Rightarrow>
                        if publish_status p = PublishStatus_kOk
                        then SendPublishDone env (conn_at conn_id tr) rid PublishDoneStatusCode_kSubscribtionEnded ''Unpublish track'' tr
                        else tr
                    | None \<Rightarrow> tr);
              tr = mod_pub q (\<lambda>p. p\<lparr>publish_data_ctx_id := 0\<rparr>) tr;
              tr = pub_SetStatus q PublishStatus_kNotAnnounced tr
          in mod_conn conn_id (\<lambda>c. c\<lparr>pub_tracks_by_name :=
               map_put (track_namespace_hash th) (map_erase (track_name_hash th) names) (pub_tracks_by_name c)\<rparr>) tr)"

definition UnpublishTrack :: "'t env \<Rightarrow> u64 \<Rightarrow> hptr \<Rightarrow> 't Transport \<Rightarrow> unit result \<times> 't Transport" where
  "UnpublishTrack env conn_id h tr =
     (let tfn = pb_full_track_name (pubs tr h); th = track_hash tfn; announce = use_announce (pb_handler (pubs tr h)) in
      case map_find (connections tr) conn_id of
        None \<Rightarrow> (Inr (), tr)
      | Some c \<Rightarrow>
          (case pub_request_id h tr of
             None \<Rightarrow> (Inl Undefined_Behaviour, tr)
           | Some rid \<Rightarrow>
               let c = c\<lparr>pub_tracks_by_request_id := map_erase rid (pub_tracks_by_request_id c),
                         pub_tracks_ns_by_request_id := map_erase rid (pub_tracks_ns_by_request_id c),
                         pub_tracks_by_track_alias := map_erase (track_fullname_hash th) (pub_tracks_by_track_alias c)\<rparr>;
                   c = (if \<not> announce then c\<lparr>recv_req_id := map_erase (track_fullname_hash th) (recv_req_id c)\<rparr> else c);
                   tr = put_conn conn_id c tr
               in case map_find (pub_tracks_by_name c) (track_namespace_hash th) of
                    None \<Rightarrow> (Inr (), tr)
                  | Some names \<Rightarrow>
                      let tr = unpublish_name env conn_id th names tr; c = conn_at conn_id tr;
                          tr = (if map_at [] (pub_tracks_by_name c) (track_namespace_hash th) = [] \<and> announce then
                                  let tr = SendPublishNamespaceDone env c (name_space tfn) tr
                                  in mod_conn conn_id (\<lambda>c. c\<lparr>pub_tracks_by_name :=
                                       map_erase (track_namespace_hash th) (pub_tracks_by_name c)\<rparr>) tr
                                else tr)
                      in (Inr (), tr\<lparr>quic := it_DeleteDataContext env conn_id
                                              (publish_data_ctx_id (pb_handler (pubs tr h))) False (quic tr)\<rparr>)))"

text \<open>Announcing: the namespace is announced with the first track of it; a further track takes the status
  of the first one.\<close>

definition announce_track :: "'t env \<Rightarrow> u64 \<Rightarrow> hptr \<Rightarrow> u64 \<Rightarrow> TrackHash \<Rightarrow> 't Transport \<Rightarrow> unit result \<times> 't Transport" where
  "announce_track env conn_id h rid th tr =
     (let c = conn_at conn_id tr; ns = name_space (pb_full_track_name (pubs tr h)) in
      case map_find (pub_tracks_by_name c) (track_namespace_hash th) of
        None \<Rightarrow>
          let tr = pub_SetStatus h PublishStatus_kPendingAnnounceResponse tr;
              tr = SendPublishNamespace env c rid ns tr
          in (Inr (), mod_conn conn_id (\<lambda>c. c\<lparr>pub_tracks_ns_by_request_id :=
                        map_put rid (track_namespace_hash th) (pub_tracks_ns_by_request_id c)\<rparr>) tr)
      | Some names \<Rightarrow>
          (case map_find names (track_name_hash th) of
             Some _ \<Rightarrow> (Inr (), tr)
           | None \<Rightarrow>
               (case names of
                  [] \<Rightarrow> (Inl Undefined_Behaviour, tr)
                | (_, q) # _ \<Rightarrow>
                    let tr = pub_SetStatus h (publish_status (pb_handler (pubs tr q))) tr
                    in (Inr (), SendPublishNamespace env c rid ns tr))))"

definition publish_track :: "'t env \<Rightarrow> u64 \<Rightarrow> hptr \<Rightarrow> u64 \<Rightarrow> TrackHash \<Rightarrow> 't Transport \<Rightarrow> 't Transport" where
  "publish_track env conn_id h rid th tr =
     (let p = pubs tr h;
          tr = mod_conn conn_id (\<lambda>c. c\<lparr>recv_req_id := map_put rid
                 \<lparr>sc_track_full_name = pb_full_track_name p, sc_track_hash = th, sc_largest_location = None\<rparr> (recv_req_id c)\<rparr>) tr;
          tr = pub_SetStatus h PublishStatus_kPendingPublishOk tr
      in SendPublish env (conn_at conn_id tr) rid (pb_full_track_name p) (the (pth_track_alias (pb_handler p)))
           GroupOrder_kAscending
           (Some (Location (latest_group_id (pb_handler p))
                    (case latest_object_id (pb_handler p) of Some i \<Rightarrow> i | None \<Rightarrow> 0)))
           True (pb_support_new_group_request p) tr)"

definition bind_publisher :: "'t env \<Rightarrow> u64 \<Rightarrow> hptr \<Rightarrow> 't Transport \<Rightarrow> 't Transport" where
  "bind_publisher env conn_id h tr =
     (let p = pubs tr h;
          (ctx, q) = it_CreateDataContext env conn_id (default_track_mode (pb_handler p) \<noteq> TrackMode_kDatagram)
                       (default_priority (pb_handler p)) False (quic tr)
      in put_pub h (p\<lparr>pb_handler := (pb_handler p)\<lparr>pth_connection_id := conn_id, publish_data_ctx_id := ctx\<rparr>,
                      pb_has_transport := True\<rparr>) (tr\<lparr>quic := q\<rparr>))"

definition hold_publisher :: "u64 \<Rightarrow> hptr \<Rightarrow> u64 \<Rightarrow> TrackHash \<Rightarrow> 't Transport \<Rightarrow> 't Transport" where
  "hold_publisher conn_id h src_id th tr =
     mod_conn conn_id (\<lambda>c. c\<lparr>
       pub_tracks_by_name := map_put (track_namespace_hash th)
         (map_put (track_name_hash th) h (map_at [] (pub_tracks_by_name c) (track_namespace_hash th))) (pub_tracks_by_name c),
       pub_tracks_by_track_alias := map_put (track_fullname_hash th)
         (map_put src_id h (map_at [] (pub_tracks_by_track_alias c) (track_fullname_hash th))) (pub_tracks_by_track_alias c),
       pub_tracks_by_data_ctx_id := map_put (publish_data_ctx_id (pb_handler (pubs tr h))) h (pub_tracks_by_data_ctx_id c)\<rparr>) tr"

definition PublishTrack :: "'t env \<Rightarrow> u64 \<Rightarrow> hptr \<Rightarrow> 't Transport \<Rightarrow> unit result \<times> 't Transport" where
  "PublishTrack env conn_id h tr =
     (let th = track_hash (pb_full_track_name (pubs tr h)) in
      case map_find (connections tr) conn_id of
        None \<Rightarrow> (Inr (), tr)
      | Some c \<Rightarrow>
          let (rid, c) = GetNextRequestId c;
              tr = mod_pub h (\<lambda>p. p\<lparr>pth_request_id := Some rid,
                     pth_track_alias := (if pth_track_alias p = None then Some (track_fullname_hash th) else pth_track_alias p)\<rparr>)
                     (put_conn conn_id c tr);
              (r, tr) = (if use_announce (pb_handler (pubs tr h)) then announce_track env conn_id h rid th tr
                         else (Inr (), publish_track env conn_id h rid th tr))
          in (case r of
                Inl e \<Rightarrow> (Inl e, tr)
              | Inr _ \<Rightarrow>
                  let tr = bind_publisher env conn_id h tr;
                      tr = mod_conn conn_id (\<lambda>c. c\<lparr>pub_tracks_by_request_id := map_put rid h (pub_tracks_by_request_id c)\<rparr>) tr
                  in (Inr (), hold_publisher conn_id h conn_id th tr)))"

definition GetPubTrackHandler :: "ConnectionContext \<Rightarrow> TrackHash \<Rightarrow> hptr option" where
  "GetPubTrackHandler c th =
     (case map_find (pub_tracks_by_name c) (track_namespace_hash th) of
        None \<Rightarrow> None
      | Some names \<Rightarrow> map_find names (track_name_hash th))"

subsection \<open>Fetching\<close>

definition fetch_range :: "handler_class \<Rightarrow> u64 \<times> u64 \<times> u64 \<times> u64" where
  "fetch_range cls = (case cls of FetchClass sg so eg eo \<Rightarrow> (sg, so, eg, eo) | _ \<Rightarrow> (0, 0, 0, 0))"

definition FetchTrack :: "'t env \<Rightarrow> u64 \<Rightarrow> hptr \<Rightarrow> 't Transport \<Rightarrow> 't Transport" where
  "FetchTrack env conn_id h tr =
     (let s = subs tr h; tfn = st_full_track_name s;
          s = s\<lparr>st_track_alias := Some (track_fullname_hash (track_hash tfn))\<rparr>;
          tr = put_sub h s tr
      in case map_find (connections tr) conn_id of
           None \<Rightarrow> tr
         | Some c \<Rightarrow>
             let (rid, c) = GetNextRequestId c; s = s\<lparr>st_request_id := Some rid\<rparr>;
                 (start_group, start_object, end_group, end_object) = fetch_range (st_class s);
                 c = c\<lparr>sub_tracks_by_request_id := map_put rid h (sub_tracks_by_request_id c)\<rparr>;
                 tr = sub_SetStatus h SubscribeStatus_kPendingResponse (put_sub h s tr)
             in SendFetch env c rid tfn (st_priority s) (st_group_order s) start_group start_object end_group end_object
                  (put_conn conn_id c tr))"

definition CancelFetchTrack :: "'t env \<Rightarrow> u64 \<Rightarrow> hptr \<Rightarrow> 't Transport \<Rightarrow> 't Transport" where
  "CancelFetchTrack env conn_id h tr =
     (case map_find (connections tr) conn_id of
        None \<Rightarrow> tr
      | Some c \<Rightarrow>
          (case st_request_id (subs tr h) of
             None \<Rightarrow> tr
           | Some rid \<Rightarrow>
               let c = c\<lparr>sub_tracks_by_request_id := map_erase rid (sub_tracks_by_request_id c)\<rparr>;
                   tr = put_sub h ((subs tr h)\<lparr>st_request_id := None\<rparr>) (put_conn conn_id c tr)
               in if st_status (subs tr h) \<in> {SubscribeStatus_kDoneByFin, SubscribeStatus_kDoneByReset} then tr
                  else sub_SetStatus h SubscribeStatus_kNotConnected (SendFetchCancel env c rid tr)))"

subsection \<open>Requests of the peer and their answers\<close>

definition RequestTrackStatus :: "'t env \<Rightarrow> u64 \<Rightarrow> FullTrackName \<Rightarrow> 't Transport \<Rightarrow> u64 \<times> 't Transport" where
  "RequestTrackStatus env conn_id tfn tr =
     (case map_find (connections tr) conn_id of
        None \<Rightarrow> (0, tr)
      | Some c \<Rightarrow> let (rid, c) = GetNextRequestId c in (rid, SendTrackStatus env c rid tfn (put_conn conn_id c tr)))"

definition ResolveTrackStatus ::
  "'t env \<Rightarrow> u64 \<Rightarrow> u64 \<Rightarrow> SubscribeReason \<Rightarrow> bytes option \<Rightarrow> Location option \<Rightarrow> 't Transport \<Rightarrow> 't Transport" where
  "ResolveTrackStatus env conn_id request_id reason error_reason largest_location tr =
     (case map_find (connections tr) conn_id of
        None \<Rightarrow> tr
      | Some c \<Rightarrow>
          (case reason of
             SubscribeReason_kOk \<Rightarrow> SendTrackStatusOk env c request_id kSubscribeExpires largest_location tr
           | SubscribeReason_kTrackDoesNotExist \<Rightarrow>
               SendTrackStatusError env c request_id SubscribeErrorCode_kTrackDoesNotExist
                 (case error_reason of Some r \<Rightarrow> r | None \<Rightarrow> octets ''Track does not exist'') tr
           | SubscribeReason_kUnauthorized \<Rightarrow>
               SendTrackStatusError env c request_id SubscribeErrorCode_kUnauthorized
                 (case error_reason of Some r \<Rightarrow> r | None \<Rightarrow> octets ''Unauthorized'') tr
           | _ \<Rightarrow> SendTrackStatusError env c request_id SubscribeErrorCode_kInternalError (octets ''Internal error'') tr))"

text \<open>The attributes of a received PUBLISH.\<close>

record PublishAttributes =
  pa_track_full_name :: FullTrackName
  pa_track_alias :: u64
  pa_priority :: u8
  pa_group_order :: GroupOrder
  pa_delivery_timeout :: u64
  pa_filter_type :: FilterType
  pa_forward :: u8
  pa_new_group_request_id :: "u64 option"
  pa_dynamic_groups :: bool

text \<open>PUBLISH is sent to one subscriber of the namespace; unknown connections are skipped.\<close>

definition fan_out_publish :: "'t env \<Rightarrow> PublishAttributes \<Rightarrow> Location option \<Rightarrow> u64 \<Rightarrow> 't Transport \<Rightarrow> 't Transport" where
  "fan_out_publish env attributes largest_location handle tr =
     (case map_find (connections tr) handle of
        None \<Rightarrow> tr
      | Some c \<Rightarrow>
          let (rid, c) = GetNextRequestId c;
              c = c\<lparr>pub_by_request_id := map_put rid (pa_track_full_name attributes) (pub_by_request_id c)\<rparr>
          in SendPublish env c rid (pa_track_full_name attributes) (pa_track_alias attributes) (pa_group_order attributes)
               largest_location (pa_forward attributes \<noteq> 0) (pa_dynamic_groups attributes) (put_conn handle c tr))"

definition ResolvePublish ::
  "'t env \<Rightarrow> u64 \<Rightarrow> u64 \<Rightarrow> PublishAttributes \<Rightarrow> PublishReason \<Rightarrow> Location option \<Rightarrow> u64 list \<Rightarrow> 't Transport \<Rightarrow> 't Transport" where
  "ResolvePublish env conn_id request_id attributes reason largest_location subscribers tr =
     (case map_find (connections tr) conn_id of
        None \<Rightarrow> tr
      | Some c \<Rightarrow>
          (case reason of
             PublishReason_kOk \<Rightarrow>
               fold (fan_out_publish env attributes largest_location) subscribers
                 (SendPublishOk env c request_id (pa_forward attributes \<noteq> 0) (pa_priority attributes) (pa_group_order attributes)
                    (pa_filter_type attributes) tr)
           | _ \<Rightarrow> SendPublishError env c request_id SubscribeErrorCode_kInternalError ''Internal error'' tr))"

subsection \<open>Connections\<close>

definition notify_sub_closed :: "'t env \<Rightarrow> u64 \<Rightarrow> hptr \<Rightarrow> 't Transport \<Rightarrow> 't Transport" where
  "notify_sub_closed env cid h tr =
     (let tr = RemoveSubscribeTrack env cid h False tr
      in if st_connection_handle (subs tr h) = connection_handle (conn_at cid tr)
         then sub_SetStatus h SubscribeStatus_kNotConnected tr else tr)"

definition notify_pub_closed :: "hptr \<Rightarrow> 't Transport \<Rightarrow> 't Transport" where
  "notify_pub_closed h tr =
     mod_pub h (\<lambda>p. p\<lparr>pth_request_id := None\<rparr>) (pub_SetStatus h PublishStatus_kNotConnected tr)"

definition RemoveAllTracksForConnectionClose :: "'t env \<Rightarrow> u64 \<Rightarrow> 't Transport \<Rightarrow> 't Transport" where
  "RemoveAllTracksForConnectionClose env cid tr =
     (let c = conn_at cid tr;
          tr = fold (notify_sub_closed env cid) (map snd (sub_tracks_by_request_id c)) tr;
          tr = fold notify_pub_closed (map snd (pub_tracks_by_data_ctx_id c)) tr
      in mod_conn cid (\<lambda>c. c\<lparr>pub_tracks_by_data_ctx_id := [], pub_tracks_by_name := [], recv_req_id := [],
           sub_tracks_by_request_id := [], sub_by_recv_track_alias := []\<rparr>) tr)"

definition remove_connection :: "'t env \<Rightarrow> u64 \<Rightarrow> ConnectionStatus \<Rightarrow> 't Transport \<Rightarrow> 't Transport" where
  "remove_connection env cid conn_status tr =
     (let tr = (if client_mode tr then tr\<lparr>tr_status := Status_kNotConnected\<rparr> else tr);
          tr = RemoveAllTracksForConnectionClose env cid tr;
          tr = emit (Ev_ConnectionStatusChanged cid conn_status) tr
      in tr\<lparr>connections := map_erase cid (connections tr)\<rparr>)"

definition close_connection :: "'t env \<Rightarrow> u64 \<Rightarrow> ConnectionStatus \<Rightarrow> 't Transport \<Rightarrow> 't Transport" where
  "close_connection env cid conn_status tr =
     remove_connection env cid conn_status (mod_conn cid (\<lambda>c. c\<lparr>closed := True\<rparr>) tr)"

definition OnConnectionStatus :: "'t env \<Rightarrow> u64 \<Rightarrow> TransportStatus \<Rightarrow> 't Transport \<Rightarrow> 't Transport" where
  "OnConnectionStatus env cid status tr =
     (let tr = mod_conn cid (\<lambda>c. c) tr;
          tr = (case status of
              TransportStatus_kReady \<Rightarrow>
                if client_mode tr then
                  let (ctx, q) = it_CreateDataContext env cid True 0 True (quic tr);
                      tr = mod_conn cid (\<lambda>c. c\<lparr>ctrl_data_ctx_id := Some ctx\<rparr>) (tr\<lparr>quic := q\<rparr>)
                  in (SendClientSetup env tr)\<lparr>tr_status := Status_kPendingServerSetup\<rparr>
                else tr
            | TransportStatus_kConnecting \<Rightarrow> if client_mode tr then tr\<lparr>tr_status := Status_kConnecting\<rparr> else tr
            | TransportStatus_kRemoteRequestClose \<Rightarrow> close_connection env cid ConnectionStatus_kClosedByRemote tr
            | TransportStatus_kIdleTimeout \<Rightarrow> close_connection env cid ConnectionStatus_kIdleTimeout tr
            | TransportStatus_kDisconnected \<Rightarrow> close_connection env cid ConnectionStatus_kNotConnected tr
            | TransportStatus_kShuttingDown \<Rightarrow> tr
            | TransportStatus_kShutdown \<Rightarrow>
                remove_connection env cid ConnectionStatus_kNotConnected (tr\<lparr>tr_status := Status_kNotReady\<rparr>))
      in emit (Ev_StatusChanged (tr_status tr)) tr)"

definition OnNewConnection :: "u64 \<Rightarrow> 't Transport \<Rightarrow> 't Transport" where
  "OnNewConnection cid tr =
     emit (Ev_NewConnectionAccepted cid) (mod_conn cid (\<lambda>c. c\<lparr>next_request_id := 1, connection_handle := cid\<rparr>) tr)"

text \<open>The samples of metrics. Both callbacks look the connection up with \<^verbatim>\<open>operator[]\<close>, which makes a context for an unknown
  connection. The sample of a subscription reports the counters of its handler.\<close>

definition sub_sample :: "hptr \<Rightarrow> 't Transport \<Rightarrow> 't Transport" where
  "sub_sample h tr =
     (let sh = st_handler (subs tr h) in emit (Ev_SubscribeMetricsSampled h (bytes_received sh) (objects_received sh)) tr)"

definition OnConnectionMetricsSampled :: "u64 \<Rightarrow> u64 \<Rightarrow> QuicConnectionMetrics \<Rightarrow> 't Transport \<Rightarrow> 't Transport" where
  "OnConnectionMetricsSampled sample_time cid m tr =
     (let tr = mod_conn cid (\<lambda>c. c\<lparr>conn_metrics := (conn_metrics c)\<lparr>cm_last_sample_time := sample_time, cm_quic := m\<rparr>\<rparr>) tr
      in emit (Ev_MetricsSampled (if client_mode tr then None else Some cid) (conn_metrics (conn_at cid tr))) tr)"

definition publish_sample :: "u64 \<Rightarrow> QuicDataContextMetrics \<Rightarrow> PublishTrackMetrics \<Rightarrow> PublishTrackMetrics" where
  "publish_sample sample_time m pm =
     pm\<lparr>ptm_last_sample_time := sample_time,
        ptm_quic := (ptm_quic pm)\<lparr>ptq_tx_buffer_drops := qd_tx_buffer_drops m, ptq_tx_callback_ms := qd_tx_callback_ms m,
          ptq_tx_delayed_callback := qd_tx_delayed_callback m, ptq_tx_object_duration_us := qd_tx_object_duration_us m,
          ptq_tx_queue_discards := qd_tx_queue_discards m, ptq_tx_queue_expired := qd_tx_queue_expired m,
          ptq_tx_queue_size := qd_tx_queue_size m, ptq_tx_reset_wait := qd_tx_reset_wait m\<rparr>\<rparr>"

definition OnDataMetricsStampled :: "u64 \<Rightarrow> u64 \<Rightarrow> u64 \<Rightarrow> QuicDataContextMetrics \<Rightarrow> 't Transport \<Rightarrow> 't Transport" where
  "OnDataMetricsStampled sample_time cid did m tr =
     (let tr = mod_conn cid (\<lambda>c. c) tr; c = conn_at cid tr;
          tr = (case map_find (pub_tracks_by_data_ctx_id c) did of
                  None \<Rightarrow> tr
                | Some h \<Rightarrow>
                    let p = pubs tr h; ph = pb_handler p; pm = publish_sample sample_time m (publish_track_metrics ph)
                    in emit (Ev_PublishMetricsSampled h pm) (put_pub h (p\<lparr>pb_handler := ph\<lparr>publish_track_metrics := pm\<rparr>\<rparr>) tr))
      in fold (\<lambda>(_, h). sub_sample h) (sub_tracks_by_request_id c) tr)"

text \<open>A closed stream. \<open>caller\<close> is the handler of the stream, if one was set: without it the cast throws, and
  a handler that no longer exists is a null pointer.\<close>

datatype StreamClosedFlag = StreamClosed_Fin | StreamClosed_Reset

definition OnStreamClosed :: "hptr option \<Rightarrow> StreamClosedFlag \<Rightarrow> 't Transport \<Rightarrow> unit result \<times> 't Transport" where
  "OnStreamClosed caller flag tr =
     (case caller of
        None \<Rightarrow> (Inl Bad_Any_Cast, tr)
      | Some h \<Rightarrow>
          if \<not> alive tr h then (Inl Undefined_Behaviour, tr)
          else if is_fetch_handler (subs tr h) then
            (Inr (), sub_SetStatus h (case flag of StreamClosed_Fin \<Rightarrow> SubscribeStatus_kDoneByFin
                                      | StreamClosed_Reset \<Rightarrow> SubscribeStatus_kDoneByReset) tr)
          else (Inr (), tr))"

end
