(* ===== verification/Wrap64.thy ===== *)
theory Wrap64
  imports Main
begin

section \<open>Sizes and ticks\<close>

text \<open>
  The containers compute with \<^verbatim>\<open>size_t\<close> and \<^verbatim>\<open>uint64_t\<close> values that are also sizes and
  list positions. They are naturals below \<open>2^64\<close> here, with the wrap-around of addition and
  subtraction written out.
\<close>

definition limit64 :: nat where
  "limit64 = 2 ^ 64"

definition add64 :: "nat \<Rightarrow> nat \<Rightarrow> nat" where
  "add64 a b = (a + b) mod limit64"

definition sub64 :: "nat \<Rightarrow> nat \<Rightarrow> nat" where
  "sub64 a b = (a + (limit64 - b)) mod limit64"

lemma limit64_pos [simp]: "0 < limit64"
  by (simp add: limit64_def)

lemma add64_small: "a + b < limit64 \<Longrightarrow> add64 a b = a + b"
  by (simp add: add64_def)

lemma sub64_small: "b \<le> a \<Longrightarrow> a < limit64 \<Longrightarrow> sub64 a b = a - b"
proof -
  assume "b \<le> a" "a < limit64"
  then have "a + (limit64 - b) = (a - b) + limit64" by simp
  then have "sub64 a b = (a - b + limit64) mod limit64" by (simp only: sub64_def)
  then show ?thesis using \<open>a < limit64\<close> by simp
qed

lemma sub64_self [simp]: "a < limit64 \<Longrightarrow> sub64 a a = 0"
  by (simp add: sub64_small)

lemma add64_less [simp]: "add64 a b < limit64" and sub64_less [simp]: "sub64 a b < limit64"
  by (simp_all add: add64_def sub64_def)

lemma add64_0 [simp]: "a < limit64 \<Longrightarrow> add64 a 0 = a"
  by (simp add: add64_def)

lemmas wrap64_defs = add64_def sub64_def limit64_def

subsection \<open>Interface: first in, first out\<close>

text \<open>
  What the queues promise as long as nothing overflows or expires: \<open>abs\<close> is the sequence of elements
  still to be delivered, a push appends, a pop delivers the head. A queue may hold at most \<open>cap\<close>
  elements.
\<close>

locale fifo_queue =
  fixes inv :: "'q \<Rightarrow> bool" and abs :: "'q \<Rightarrow> 'a list" and push :: "'a \<Rightarrow> 'q \<Rightarrow> 'q"
    and pop :: "'q \<Rightarrow> 'a option \<times> 'q" and cap :: nat
  assumes inv_push: "inv q \<Longrightarrow> length (abs q) < cap \<Longrightarrow> inv (push v q)"
    and abs_push: "inv q \<Longrightarrow> length (abs q) < cap \<Longrightarrow> abs (push v q) = abs q @ [v]"
    and inv_pop: "inv q \<Longrightarrow> inv (snd (pop q))"
    and abs_pop: "inv q \<Longrightarrow> abs (snd (pop q)) = tl (abs q)"
    and pop_value: "inv q \<Longrightarrow> fst (pop q) = (case abs q of [] \<Rightarrow> None | v # _ \<Rightarrow> Some v)"
begin

lemma push_all:
  "inv q \<Longrightarrow> length (abs q) + length vs \<le> cap \<Longrightarrow> inv (fold push vs q) \<and> abs (fold push vs q) = abs q @ vs"
  by (induction vs arbitrary: q) (simp_all add: inv_push abs_push)

end

text \<open>Popping \<open>n\<close> times.\<close>

fun pop_n :: "('q \<Rightarrow> 'a option \<times> 'q) \<Rightarrow> nat \<Rightarrow> 'q \<Rightarrow> 'a option list \<times> 'q" where
  "pop_n pop 0 q = ([], q)"
| "pop_n pop (Suc n) q = (let (v, q') = pop q; (vs, q'') = pop_n pop n q' in (v # vs, q''))"

context fifo_queue begin

lemma pop_all:
  "inv q \<Longrightarrow> n \<le> length (abs q) \<Longrightarrow>
     fst (pop_n pop n q) = map Some (take n (abs q)) \<and> abs (snd (pop_n pop n q)) = drop n (abs q)"
proof (induction n arbitrary: q)
  case (Suc n)
  obtain v q' where p: "pop q = (v, q')" by (cases "pop q")
  obtain a as where a: "abs q = a # as" using Suc.prems(2) by (cases "abs q") auto
  have "inv q'" "abs q' = as" "v = Some a"
    using inv_pop [OF Suc.prems(1)] abs_pop [OF Suc.prems(1)] pop_value [OF Suc.prems(1)] p a by auto
  then show ?case using Suc.IH [of q'] Suc.prems(2) p a by (auto split: prod.splits)
qed simp

lemma push_pop_all:
  assumes "inv q" "abs q = []" "length vs \<le> cap"
  shows "fst (pop_n pop (length vs) (fold push vs q)) = map Some vs"
  using push_all [OF assms(1), of vs] pop_all [of "fold push vs q" "length vs"] assms(2,3) by simp

end

end
