(* ===== verification/Safe_Queue.thy ===== *)
theory Safe_Queue
  imports Wrap64
begin

section \<open>The thread-safe queue\<close>

text \<open>
  \<^verbatim>\<open>SafeQueue\<close> of \<^verbatim>\<open>detail/safe_queue.h\<close>, each method one atomic step as the mutex makes
  it. The atomic flag \<^verbatim>\<open>empty_\<close>, which \<^verbatim>\<open>Empty\<close> reads without the mutex, is a field of
  its own. A blocking pop that would wait has no result.
\<close>

record 'a SafeQueue =
  sq_empty :: bool
  sq_stop_waiting :: bool
  sq_limit :: nat
  sq_queue :: "'a list"

definition SafeQueue_new :: "nat \<Rightarrow> 'a SafeQueue" where
  "SafeQueue_new limit = \<lparr>sq_empty = True, sq_stop_waiting = False, sq_limit = limit, sq_queue = []\<rparr>"

definition sq_Push :: "'a \<Rightarrow> 'a SafeQueue \<Rightarrow> bool \<times> 'a SafeQueue" where
  "sq_Push elem q =
     (if sq_queue q = [] then (True, q\<lparr>sq_empty := False, sq_queue := [elem]\<rparr>)
      else if length (sq_queue q) \<ge> sq_limit q then (False, q\<lparr>sq_queue := tl (sq_queue q) @ [elem]\<rparr>)
      else (True, q\<lparr>sq_queue := sq_queue q @ [elem]\<rparr>))"

definition sq_PopInternal :: "'a SafeQueue \<Rightarrow> 'a option \<times> 'a SafeQueue" where
  "sq_PopInternal q =
     (case sq_queue q of
        [] \<Rightarrow> (None, q\<lparr>sq_empty := True\<rparr>)
      | elem # rest \<Rightarrow> (Some elem, q\<lparr>sq_queue := rest, sq_empty := sq_empty q \<or> rest = []\<rparr>))"

definition sq_Pop :: "'a SafeQueue \<Rightarrow> 'a option \<times> 'a SafeQueue" where
  "sq_Pop q = sq_PopInternal q"

definition sq_Front :: "'a SafeQueue \<Rightarrow> 'a option" where
  "sq_Front q = (case sq_queue q of [] \<Rightarrow> None | elem # _ \<Rightarrow> Some elem)"

definition sq_PopFront :: "'a SafeQueue \<Rightarrow> 'a SafeQueue" where
  "sq_PopFront q =
     (case sq_queue q of
        [] \<Rightarrow> q\<lparr>sq_empty := True\<rparr>
      | _ # rest \<Rightarrow> q\<lparr>sq_queue := rest, sq_empty := sq_empty q \<or> rest = []\<rparr>)"

definition sq_BlockPop :: "'a SafeQueue \<Rightarrow> ('a option \<times> 'a SafeQueue) option" where
  "sq_BlockPop q =
     (if sq_stop_waiting q then Some (None, q)
      else if sq_queue q \<noteq> [] then Some (sq_PopInternal q)
      else None)"

definition sq_Size :: "'a SafeQueue \<Rightarrow> nat" where
  "sq_Size q = length (sq_queue q)"

definition sq_Clear :: "'a SafeQueue \<Rightarrow> 'a SafeQueue" where
  "sq_Clear q = q\<lparr>sq_queue := []\<rparr>"

definition sq_Empty :: "'a SafeQueue \<Rightarrow> bool" where
  "sq_Empty q = sq_empty q"

definition sq_StopWaiting :: "'a SafeQueue \<Rightarrow> 'a SafeQueue" where
  "sq_StopWaiting q = q\<lparr>sq_stop_waiting := True\<rparr>"

definition sq_SetLimit :: "nat \<Rightarrow> 'a SafeQueue \<Rightarrow> 'a SafeQueue" where
  "sq_SetLimit limit q = q\<lparr>sq_limit := limit\<rparr>"

lemmas sq_defs = sq_Push_def sq_PopInternal_def sq_Pop_def sq_PopFront_def sq_Clear_def sq_StopWaiting_def sq_SetLimit_def

subsection \<open>The steps of the threads that share a queue\<close>

inductive sq_step :: "'a SafeQueue \<Rightarrow> 'a SafeQueue \<Rightarrow> bool" where
  push: "sq_step q (snd (sq_Push v q))"
| pop: "sq_step q (snd (sq_Pop q))"
| pop_front: "sq_step q (sq_PopFront q)"
| block_pop: "sq_BlockPop q = Some (r, q') \<Longrightarrow> sq_step q q'"
| stop: "sq_step q (sq_StopWaiting q)"

inductive sq_reachable :: "nat \<Rightarrow> 'a SafeQueue \<Rightarrow> bool" for limit where
  init: "sq_reachable limit (SafeQueue_new limit)"
| step: "sq_reachable limit q \<Longrightarrow> sq_step q q' \<Longrightarrow> sq_reachable limit q'"

inductive_cases sq_stepE: "sq_step q q'"

lemma sq_reachable_inv:
  "sq_reachable limit q \<Longrightarrow> sq_limit q = limit \<and> length (sq_queue q) \<le> max 1 limit \<and> (sq_empty q \<longleftrightarrow> sq_queue q = [])"
proof (induction rule: sq_reachable.induct)
  case (step q q')
  from step.hyps(2) step.IH show ?case
    by (cases rule: sq_stepE) (auto simp: sq_defs sq_BlockPop_def split: list.splits if_splits)
qed (simp add: SafeQueue_new_def)

text \<open>In every interleaving of pushes, pops, blocking pops and stop requests the queue never holds
  more than the limit (one element when the limit is zero), and the flag that \<^verbatim>\<open>Empty\<close> reads
  without the lock agrees with the queue.\<close>

theorem SafeQueue_invariant:
  assumes "sq_reachable limit q"
  shows "sq_Size q \<le> max 1 limit \<and> (sq_Empty q \<longleftrightarrow> sq_Size q = 0)"
  using sq_reachable_inv [OF assms] by (simp add: sq_Size_def sq_Empty_def)

theorem SafeQueue_invariant_witness:
  "sq_Size (snd (sq_Push 7 (SafeQueue_new 2 :: nat SafeQueue))) \<le> 2 \<and>
   \<not> sq_Empty (snd (sq_Push 7 (SafeQueue_new 2 :: nat SafeQueue)))"
proof -
  have "sq_reachable 2 (snd (sq_Push 7 (SafeQueue_new 2 :: nat SafeQueue)))"
    by (rule sq_reachable.step [OF sq_reachable.init sq_step.push])
  from SafeQueue_invariant [OF this] show ?thesis by (simp add: sq_Push_def SafeQueue_new_def sq_Size_def)
qed

subsection \<open>First in, first out\<close>

interpretation sq: fifo_queue "\<lambda>q. sq_limit q = cap" sq_queue "\<lambda>v q. snd (sq_Push v q)" sq_Pop cap
  by unfold_locales (auto simp: sq_defs split: list.splits)

text \<open>C24. Below its limit the queue is first in, first out: everything that is pushed onto an empty
  queue comes out of \<^verbatim>\<open>Pop\<close> in the same order. Above the limit every push drops exactly the
  oldest element and says so.\<close>

theorem SafeQueue_fifo:
  assumes "sq_queue q = []"
  shows "(length vs \<le> sq_limit (q :: 'a SafeQueue) \<longrightarrow>
      fst (pop_n sq_Pop (length vs) (fold (\<lambda>v q. snd (sq_Push v q)) vs q)) = map Some vs) \<and>
    (\<forall>v (q' :: 'a SafeQueue). sq_queue q' \<noteq> [] \<and> sq_limit q' \<le> sq_Size q' \<longrightarrow>
      \<not> fst (sq_Push v q') \<and> sq_queue (snd (sq_Push v q')) = tl (sq_queue q') @ [v])"
  using sq.push_pop_all [of q "sq_limit q" vs] assms by (auto simp: sq_Push_def sq_Size_def)

theorem SafeQueue_fifo_witness:
  "fst (pop_n sq_Pop 3 (fold (\<lambda>v q. snd (sq_Push v q)) [4, 5, 6] (SafeQueue_new 5 :: nat SafeQueue))) =
     [Some 4, Some 5, Some 6]"
proof -
  have "sq_queue (SafeQueue_new 5 :: nat SafeQueue) = []" "length [4, 5, 6 :: nat] = 3" "sq_limit (SafeQueue_new 5 :: nat SafeQueue) = 5"
    by (simp_all add: SafeQueue_new_def)
  with SafeQueue_fifo [of "SafeQueue_new 5" "[4, 5, 6 :: nat]"] show ?thesis by (auto simp only: list.map)
qed

text \<open>A limit of zero, documented as unlimited, keeps only the last element, and after
  \<^verbatim>\<open>Clear\<close> of a queue that was not empty \<^verbatim>\<open>Empty\<close> still answers false.\<close>

theorem SafeQueue_zero_limit_and_clear:
  "sq_queue (fold (\<lambda>v q. snd (sq_Push v q)) (vs @ [v]) (SafeQueue_new 0)) = [v] \<and>
   (sq_reachable limit q \<longrightarrow> sq_Size q \<noteq> 0 \<longrightarrow> sq_Size (sq_Clear q) = 0 \<and> \<not> sq_Empty (sq_Clear q))"
proof -
  have "sq_limit (fold (\<lambda>v q. snd (sq_Push v q)) vs q) = sq_limit q \<and>
      length (sq_queue (fold (\<lambda>v q. snd (sq_Push v q)) vs q)) \<le> 1"
    if "sq_limit q = 0" "length (sq_queue q) \<le> 1" for q :: "'a SafeQueue"
    using that by (induction vs arbitrary: q) (auto simp: sq_Push_def)
  from this [of "SafeQueue_new 0"] have
    l: "sq_limit (fold (\<lambda>v q. snd (sq_Push v q)) vs (SafeQueue_new 0)) = 0"
      "length (sq_queue (fold (\<lambda>v q. snd (sq_Push v q)) vs (SafeQueue_new 0 :: 'a SafeQueue))) \<le> 1"
    by (simp_all add: SafeQueue_new_def)
  then have "tl (sq_queue (fold (\<lambda>v q. snd (sq_Push v q)) vs (SafeQueue_new 0 :: 'a SafeQueue))) = []"
    by (cases "sq_queue (fold (\<lambda>v q. snd (sq_Push v q)) vs (SafeQueue_new 0 :: 'a SafeQueue))") auto
  then have "sq_queue (fold (\<lambda>v q. snd (sq_Push v q)) (vs @ [v]) (SafeQueue_new 0)) = [v]"
    using l by (simp add: sq_Push_def)
  then show ?thesis using sq_reachable_inv [of limit q] by (simp add: sq_Size_def sq_Empty_def sq_Clear_def)
qed

theorem SafeQueue_zero_limit_and_clear_witness:
  "sq_queue (fold (\<lambda>v q. snd (sq_Push v q)) [1, 2, 3] (SafeQueue_new 0 :: nat SafeQueue)) = [3] \<and>
   \<not> sq_Empty (sq_Clear (snd (sq_Push 7 (SafeQueue_new 2 :: nat SafeQueue))))"
proof -
  let ?q = "snd (sq_Push 7 (SafeQueue_new 2 :: nat SafeQueue))"
  have r: "sq_reachable 2 ?q" by (rule sq_reachable.step [OF sq_reachable.init sq_step.push])
  have "sq_Size ?q \<noteq> 0" by (simp add: sq_Push_def SafeQueue_new_def sq_Size_def)
  with SafeQueue_zero_limit_and_clear [of "[1, 2]" "3 :: nat" 2 ?q] r show ?thesis by simp
qed

end
