(* ===== verification/Transport_Recv.thy ===== *)
theory Transport_Recv
  imports Transport_Tracks Safe_Queue
begin

section \<open>Receiving streams and datagrams\<close>

text \<open>
  The callbacks of the QUIC transport for received data (\<^verbatim>\<open>OnRecvStream\<close>, \<^verbatim>\<open>OnRecvSubgroup\<close>,
  \<^verbatim>\<open>OnRecvFetch\<close>, \<^verbatim>\<open>OnRecvDgram\<close> of \<^verbatim>\<open>src/transport.cpp\<close>). The octets of the control
  stream are collected in a buffer and cut into messages; \<open>process\<close> is the virtual function
  \<^verbatim>\<open>ProcessCtrlMessage\<close> of the client or the server. A new data stream is routed by the track alias or
  the request id in its header to a subscribe handler, the following data of the stream goes to the same
  handler. The received data waits in the queue of the stream's context.
\<close>

definition kReadLoopMaxPerStream :: nat where "kReadLoopMaxPerStream = 100"

subsection \<open>The control stream\<close>

type_synonym 't ctrl_processor = "u64 \<Rightarrow> bytes \<Rightarrow> 't Transport \<Rightarrow> bool result \<times> 't Transport"

text \<open>What the loop does with a message type that is known: \<open>Inl\<close> when octets are missing, \<open>Inr\<close> with the
  payload length otherwise.\<close>

definition ctrl_payload_len :: "bytes \<Rightarrow> nat option" where
  "ctrl_payload_len buf =
     (if length buf < 2 then None
      else let plen = SwapBytes16 (of_le_bytes (take 2 buf))
           in if length buf < unat plen + 2 then None else Some (unat plen))"

text \<open>Reading the message type, unless it has been read before.\<close>

definition ctrl_type :: "u64 option \<Rightarrow> bytes \<Rightarrow> (u64 \<times> bytes) option" where
  "ctrl_type ty buf =
     (case ty of
        Some t \<Rightarrow> Some (t, buf)
      | None \<Rightarrow>
          let uv_sz = UintVar_Size_msb (hd buf) in
          if length buf < uv_sz then None
          else (case UintVar_of_bytes (take uv_sz buf) of Inl _ \<Rightarrow> None | Inr v \<Rightarrow> Some (UintVar_Get v, drop uv_sz buf)))"

definition set_ctrl :: "u64 \<Rightarrow> u64 option \<Rightarrow> bytes \<Rightarrow> 't Transport \<Rightarrow> 't Transport" where
  "set_ctrl cid ty buf = mod_conn cid (\<lambda>c. c\<lparr>ctrl_msg_type_received := ty, ctrl_msg_buffer := buf\<rparr>)"

definition count_invalid_ctrl :: "u64 \<Rightarrow> 't Transport \<Rightarrow> 't Transport" where
  "count_invalid_ctrl cid = mod_conn cid (\<lambda>c. c\<lparr>conn_metrics :=
     (conn_metrics c)\<lparr>invalid_ctrl_stream_msg := invalid_ctrl_stream_msg (conn_metrics c) + 1\<rparr>\<rparr>)"

lemma ctrl_type_shorter: "ctrl_type ty buf = Some (t, buf') \<Longrightarrow> length buf' \<le> length buf"
  by (auto simp: ctrl_type_def Let_def split: option.splits if_splits sum.splits)

lemma ctrl_payload_len_bound: "ctrl_payload_len buf = Some n \<Longrightarrow> n + 2 \<le> length buf"
  by (auto simp: ctrl_payload_len_def Let_def split: if_splits)

text \<open>The loop over the buffer. \<open>ty\<close> and \<open>buf\<close> are the message type and the buffer of the connection; the
  result says whether the whole buffer was consumed. The message processor gets all octets after the length
  field, not only the payload.\<close>

function ctrl_loop :: "'t ctrl_processor \<Rightarrow> u64 \<Rightarrow> u64 option \<Rightarrow> bytes \<Rightarrow> 't Transport \<Rightarrow> bool result \<times> 't Transport" where
  "ctrl_loop process cid ty buf tr =
     (if buf = [] then (Inr True, set_ctrl cid ty buf tr)
      else case ctrl_type ty buf of
        None \<Rightarrow> (Inr False, set_ctrl cid ty buf tr)
      | Some (t, buf) \<Rightarrow>
          (case ctrl_payload_len buf of
             None \<Rightarrow> (Inr False, set_ctrl cid (Some t) buf tr)
           | Some plen \<Rightarrow>
               (case process cid (drop 2 buf) (set_ctrl cid (Some t) buf tr) of
                  (Inl e, tr) \<Rightarrow> (Inl e, tr)
                | (Inr ok, tr) \<Rightarrow>
                    ctrl_loop process cid None (drop (2 + plen) buf) (if ok then tr else count_invalid_ctrl cid tr))))"
  by pat_completeness auto
termination
proof (relation "measure (\<lambda>(_, _, _, buf, _). length buf)")
qed (auto dest!: ctrl_type_shorter ctrl_payload_len_bound)

declare ctrl_loop.simps [simp del]

datatype ctrl_outcome = Ctrl_Return | Ctrl_Continue bool

text \<open>One piece of data of the control stream.\<close>

definition recv_ctrl ::
  "'t env \<Rightarrow> 't ctrl_processor \<Rightarrow> u64 \<Rightarrow> u64 option \<Rightarrow> bytes \<Rightarrow> 't Transport \<Rightarrow> ctrl_outcome result \<times> 't Transport" where
  "recv_ctrl env process cid data_ctx_id data tr =
     (let tr = mod_conn cid (\<lambda>c. c\<lparr>ctrl_msg_buffer := ctrl_msg_buffer c @ data\<rparr>) tr in
      if ctrl_data_ctx_id (conn_at cid tr) = None \<and> data_ctx_id = None
      then (Inr Ctrl_Return, CloseConnection env cid TerminationReason_kInternalError tr)
      else
        let tr = mod_conn cid (\<lambda>c. if ctrl_data_ctx_id c = None then c\<lparr>ctrl_data_ctx_id := data_ctx_id\<rparr> else c) tr;
            c = conn_at cid tr; (r, tr) = ctrl_loop process cid (ctrl_msg_type_received c) (ctrl_msg_buffer c) tr
        in (bind_result r (\<lambda>all. Inr (Ctrl_Continue all)), tr))"

subsection \<open>Data streams\<close>

record StreamRxContext =
  rx_caller :: "hptr option"
  rx_is_new :: bool
  rx_unknown_expiry_tick_ms :: u64
  rx_queue :: "bytes SafeQueue"

text \<open>Handing data to a handler, by its class. The objects of a joining fetch go to the subscription.\<close>

definition emit_objects :: "hptr \<Rightarrow> received list \<Rightarrow> 't Transport \<Rightarrow> 't Transport" where
  "emit_objects h rs = fold (\<lambda>(headers, data). emit (Ev_ObjectReceived h headers data)) rs"

definition handler_recv ::
  "'t env \<Rightarrow> Subscriber \<Rightarrow> bool \<Rightarrow> u64 \<Rightarrow> bytes \<Rightarrow> (received list \<times> SubscribeTrackHandler) result" where
  "handler_recv env s is_start stream_id data =
     (case st_class s of
        SubscribeClass \<Rightarrow> StreamDataRecv (object_callback env) is_start stream_id data (st_handler s)
      | FetchClass _ _ _ _ \<Rightarrow> Fetch_StreamDataRecv is_start data (st_handler s)
      | JoiningClass _ \<Rightarrow> Joining_StreamDataRecv is_start data (st_handler s))"

definition handler_StreamDataRecv ::
  "'t env \<Rightarrow> hptr \<Rightarrow> bool \<Rightarrow> u64 \<Rightarrow> bytes \<Rightarrow> 't Transport \<Rightarrow> unit result \<times> 't Transport" where
  "handler_StreamDataRecv env h is_start stream_id data tr =
     (let s = subs tr h; target = (case st_class s of JoiningClass p \<Rightarrow> p | _ \<Rightarrow> h) in
      case handler_recv env s is_start stream_id data of
        Inl e \<Rightarrow> (Inl e, put_sub h (s\<lparr>st_handler := after_throw env (st_handler s) data\<rparr>) tr)
      | Inr (rs, sh) \<Rightarrow> (Inr (), emit_objects target rs (put_sub h (s\<lparr>st_handler := sh\<rparr>) tr)))"

text \<open>Reading the header without bounds checks: the cursor is a position in the data, and reading at or behind
  its end is undefined.\<close>

definition octet_at :: "bytes \<Rightarrow> nat \<Rightarrow> u8 result" where
  "octet_at data pos = (if pos < length data then Inr (data ! pos) else Inl Undefined_Behaviour)"

definition uintvar_size_at :: "bytes \<Rightarrow> nat \<Rightarrow> nat result" where
  "uintvar_size_at data pos = bind_result (octet_at data pos) (\<lambda>b. Inr (UintVar_Size_msb b))"

definition uintvar_at :: "bytes \<Rightarrow> nat \<Rightarrow> (u64 \<times> nat) result" where
  "uintvar_at data pos =
     bind_result (uintvar_size_at data pos) (\<lambda>sz.
       if length data < pos + sz then Inl Undefined_Behaviour
       else bind_result (UintVar_of_bytes (take sz (drop pos data))) (\<lambda>v. Inr (UintVar_Get v, pos + sz)))"

definition subgroup_stream_header :: "StreamHeaderType \<Rightarrow> bytes \<Rightarrow> nat \<Rightarrow> (u64 \<times> u8) result" where
  "subgroup_stream_header ty data pos =
     bind_result (uintvar_at data pos) (\<lambda>(track_alias, pos).
     bind_result (uintvar_size_at data pos) (\<lambda>group_id_sz.
     bind_result (StreamHeaderProperties_of ty) (\<lambda>properties.
     bind_result (if subgroup_id_type properties = kExplicit
                  then bind_result (uintvar_size_at data (pos + group_id_sz)) (\<lambda>sz. Inr (pos + group_id_sz + sz))
                  else Inr (pos + group_id_sz)) (\<lambda>pos.
     bind_result (octet_at data pos) (\<lambda>priority. Inr (track_alias, priority))))))"

definition count_unknown_stream :: "u64 \<Rightarrow> 't Transport \<Rightarrow> 't Transport" where
  "count_unknown_stream cid = mod_conn cid (\<lambda>c. c\<lparr>conn_metrics :=
     (conn_metrics c)\<lparr>rx_stream_unknown_track_alias := rx_stream_unknown_track_alias (conn_metrics c) + 1\<rparr>\<rparr>)"

definition OnRecvSubgroup ::
  "'t env \<Rightarrow> StreamHeaderType \<Rightarrow> nat \<Rightarrow> u64 \<Rightarrow> u64 \<Rightarrow> bytes \<Rightarrow> StreamRxContext \<Rightarrow> 't Transport \<Rightarrow>
     bool result \<times> StreamRxContext \<times> 't Transport" where
  "OnRecvSubgroup env ty cursor stream_id cid data rx tr =
     (case subgroup_stream_header ty data cursor of
        Inl (Invalid_Argument _) \<Rightarrow> (Inr False, rx, tr)
      | Inl e \<Rightarrow> (Inl e, rx, tr)
      | Inr (track_alias, priority) \<Rightarrow>
          (case map_find (sub_by_recv_track_alias (conn_at cid tr)) track_alias of
             None \<Rightarrow> (Inr False, rx, count_unknown_stream cid tr)
           | Some h \<Rightarrow>
               let rx = rx\<lparr>rx_is_new := False, rx_caller := Some h\<rparr>;
                   tr = put_sub h ((subs tr h)\<lparr>st_priority := priority\<rparr>) tr;
                   (r, tr) = handler_StreamDataRecv env h True stream_id data tr
               in (bind_result r (\<lambda>_. Inr True), rx, tr)))"

definition OnRecvFetch ::
  "'t env \<Rightarrow> nat \<Rightarrow> u64 \<Rightarrow> u64 \<Rightarrow> bytes \<Rightarrow> StreamRxContext \<Rightarrow> 't Transport \<Rightarrow> bool result \<times> StreamRxContext \<times> 't Transport" where
  "OnRecvFetch env cursor stream_id cid data rx tr =
     (case uintvar_at data cursor of
        Inl (Invalid_Argument _) \<Rightarrow> (Inr False, rx, tr)
      | Inl e \<Rightarrow> (Inl e, rx, tr)
      | Inr (request_id, _) \<Rightarrow>
          let rx = rx\<lparr>rx_is_new := False\<rparr> in
          (case map_find (sub_tracks_by_request_id (conn_at cid tr)) request_id of
             None \<Rightarrow> (Inr False, rx, tr)
           | Some h \<Rightarrow>
               let (r, tr) = handler_StreamDataRecv env h True stream_id data tr
               in (bind_result r (\<lambda>_. Inr True), rx\<lparr>rx_caller := Some h\<rparr>, tr)))"

text \<open>The start of a data stream: \<open>None\<close> when the type is cut off, otherwise whether a handler took the
  stream. Types that are neither subgroup nor fetch headers throw.\<close>

definition new_data_stream ::
  "'t env \<Rightarrow> u64 \<Rightarrow> u64 \<Rightarrow> bytes \<Rightarrow> StreamRxContext \<Rightarrow> 't Transport \<Rightarrow> bool option result \<times> StreamRxContext \<times> 't Transport" where
  "new_data_stream env cid stream_id data rx tr =
     (if data = [] then (Inl Undefined_Behaviour, rx, tr)
      else
        let type_sz = UintVar_Size_msb (hd data) in
        if length data < type_sz then (Inr None, rx, tr)
        else
          (case UintVar_of_bytes (take type_sz data) of
             Inl e \<Rightarrow> (Inl e, rx, tr)
           | Inr v \<Rightarrow>
               let msg_type = ucast (UintVar_Get v) :: u8 in
               (case TypeIsStreamHeaderType (StreamMessageType_of msg_type) of
                  Inl e \<Rightarrow> (Inl e, rx, tr)
                | Inr is_subgroup \<Rightarrow>
                    let (r, rx, tr) =
                      (if is_subgroup then OnRecvSubgroup env (StreamHeaderType_of msg_type) type_sz stream_id cid data rx tr
                       else OnRecvFetch env type_sz stream_id cid data rx tr)
                    in (bind_result r (\<lambda>parsed. Inr (Some parsed)), rx, tr))))"

text \<open>Data of a stream whose handler is known; exceptions of the handler close the connection.\<close>

definition continue_data_stream :: "'t env \<Rightarrow> u64 \<Rightarrow> u64 \<Rightarrow> hptr \<Rightarrow> bytes \<Rightarrow> 't Transport \<Rightarrow> 't Transport" where
  "continue_data_stream env cid stream_id h data tr =
     (if alive tr h then
        (case handler_StreamDataRecv env h False stream_id data tr of
           (Inr _, tr) \<Rightarrow> tr
         | (Inl (Protocol_Violation _), tr) \<Rightarrow> CloseConnection env cid TerminationReason_kProtocolViolation tr
         | (Inl _, tr) \<Rightarrow> CloseConnection env cid TerminationReason_kInternalError tr)
      else tr)"

definition rx_pop :: "StreamRxContext \<Rightarrow> StreamRxContext" where
  "rx_pop rx = rx\<lparr>rx_queue := sq_PopFront (rx_queue rx)\<rparr>"

text \<open>The loop over the queue. An incomplete control message moves the counter to its last four values.\<close>

function recv_loop ::
  "'t env \<Rightarrow> 't ctrl_processor \<Rightarrow> u64 \<Rightarrow> u64 \<Rightarrow> u64 option \<Rightarrow> bool \<Rightarrow> nat \<Rightarrow> StreamRxContext \<Rightarrow> 't Transport \<Rightarrow>
     unit result \<times> StreamRxContext \<times> 't Transport" where
  "recv_loop env process cid stream_id data_ctx_id is_bidir i rx tr =
     (if i \<ge> kReadLoopMaxPerStream \<or> sq_Empty (rx_queue rx) then (Inr (), rx, tr)
      else case sq_Front (rx_queue rx) of
        None \<Rightarrow> (Inr (), rx, tr)
      | Some data \<Rightarrow>
          if is_bidir then
            (case recv_ctrl env process cid data_ctx_id data tr of
               (Inl e, tr) \<Rightarrow> (Inl e, rx_pop rx, tr)
             | (Inr Ctrl_Return, tr) \<Rightarrow> (Inr (), rx_pop rx, tr)
             | (Inr (Ctrl_Continue all), tr) \<Rightarrow>
                 recv_loop env process cid stream_id data_ctx_id is_bidir
                   ((if all then i else kReadLoopMaxPerStream - 4) + 1) (rx_pop rx) tr)
          else if rx_is_new rx then
            (case new_data_stream env cid stream_id data rx tr of
               (Inl e, rx, tr) \<Rightarrow> (Inl e, rx, tr)
             | (Inr None, rx, tr) \<Rightarrow> (Inr (), rx, tr)
             | (Inr (Some False), rx, tr) \<Rightarrow> (Inr (), rx\<lparr>rx_unknown_expiry_tick_ms := 0\<rparr>, tr)
             | (Inr (Some True), rx', tr) \<Rightarrow>
                 recv_loop env process cid stream_id data_ctx_id is_bidir (i + 1)
                   (rx_pop (rx\<lparr>rx_is_new := rx_is_new rx', rx_caller := rx_caller rx'\<rparr>)) tr)
          else
            (case rx_caller rx of
               Some h \<Rightarrow> recv_loop env process cid stream_id data_ctx_id is_bidir (i + 1) (rx_pop rx)
                           (continue_data_stream env cid stream_id h data tr)
             | None \<Rightarrow> recv_loop env process cid stream_id data_ctx_id is_bidir (i + 1) rx tr))"
  by pat_completeness auto
termination
proof (relation "measures [\<lambda>(_, _, _, _, _, _, _, rx, _). length (sq_queue (rx_queue rx)),
    \<lambda>(_, _, _, _, _, _, i, _, _). kReadLoopMaxPerStream - i]")
qed (auto simp: rx_pop_def sq_PopFront_def sq_Front_def split: list.splits)

declare recv_loop.simps [simp del]

text \<open>\<open>rx\<close> is the context of the stream, if the QUIC transport still has one.\<close>

definition OnRecvStream ::
  "'t env \<Rightarrow> 't ctrl_processor \<Rightarrow> u64 \<Rightarrow> u64 \<Rightarrow> u64 option \<Rightarrow> bool \<Rightarrow> StreamRxContext option \<Rightarrow> 't Transport \<Rightarrow>
     unit result \<times> StreamRxContext option \<times> 't Transport" where
  "OnRecvStream env process cid stream_id data_ctx_id is_bidir rx tr =
     (let tr = mod_conn cid (\<lambda>c. c) tr in
      case rx of
        None \<Rightarrow> (Inr (), None, tr)
      | Some rx \<Rightarrow>
          let (r, rx, tr) = recv_loop env process cid stream_id data_ctx_id is_bidir 0 rx tr in (r, Some rx, tr))"

subsection \<open>Datagrams\<close>

definition mod_metrics :: "u64 \<Rightarrow> (ConnectionMetrics \<Rightarrow> ConnectionMetrics) \<Rightarrow> 't Transport \<Rightarrow> 't Transport" where
  "mod_metrics cid f = mod_conn cid (\<lambda>c. c\<lparr>conn_metrics := f (conn_metrics c)\<rparr>)"

text \<open>One datagram.\<close>

definition recv_dgram :: "'t env \<Rightarrow> u64 \<Rightarrow> bytes \<Rightarrow> 't Transport \<Rightarrow> unit result \<times> 't Transport" where
  "recv_dgram env cid data tr =
     (if length data > 3 then
        (case TypeIsDatagram (DatagramMessageType_of (hd data)) of
           Inl e \<Rightarrow> (Inl e, tr)
         | Inr False \<Rightarrow> (Inr (), mod_metrics cid (\<lambda>m. m\<lparr>rx_dgram_invalid_type := rx_dgram_invalid_type m + 1\<rparr>) tr)
         | Inr True \<Rightarrow>
             (case uintvar_at data 1 of
                Inl (Invalid_Argument _) \<Rightarrow> (Inr (), tr)
              | Inl e \<Rightarrow> (Inl e, tr)
              | Inr (track_alias, _) \<Rightarrow>
                  let tr = mod_conn cid (\<lambda>c. c) tr in
                  (case map_find (sub_by_recv_track_alias (conn_at cid tr)) track_alias of
                     None \<Rightarrow>
                       (Inr (), mod_metrics cid (\<lambda>m. m\<lparr>rx_dgram_unknown_track_alias := rx_dgram_unknown_track_alias m + 1\<rparr>) tr)
                   | Some h \<Rightarrow>
                       let s = subs tr h in
                       (case DgramDataRecv (object_callback env) data (st_handler s) of
                          Inl e \<Rightarrow> (Inl e, put_sub h (s\<lparr>st_handler := after_throw env (st_handler s) data\<rparr>) tr)
                        | Inr (rs, sh) \<Rightarrow> (Inr (), emit_objects h rs (put_sub h (s\<lparr>st_handler := sh\<rparr>) tr))))))
      else (Inr (), mod_metrics cid (\<lambda>m. m\<lparr>rx_dgram_decode_failed := rx_dgram_decode_failed m + 1\<rparr>) tr))"

text \<open>\<open>queue\<close> holds the datagrams that \<^verbatim>\<open>Dequeue\<close> will return; the loop takes up to 100 of them.\<close>

fun recv_dgrams :: "'t env \<Rightarrow> u64 \<Rightarrow> bytes list \<Rightarrow> 't Transport \<Rightarrow> unit result \<times> 't Transport" where
  "recv_dgrams env cid [] tr = (Inr (), tr)"
| "recv_dgrams env cid (data # queue) tr =
     (case recv_dgram env cid data tr of
        (Inl e, tr) \<Rightarrow> (Inl e, tr)
      | (Inr _, tr) \<Rightarrow> recv_dgrams env cid queue tr)"

definition OnRecvDgram :: "'t env \<Rightarrow> u64 \<Rightarrow> bytes list \<Rightarrow> 't Transport \<Rightarrow> unit result \<times> 't Transport" where
  "OnRecvDgram env cid queue tr = recv_dgrams env cid (take kReadLoopMaxPerStream queue) tr"

end
