(* ===== verification/Client_Control.thy ===== *)
theory Client_Control
  imports Transport_Recv
begin

section \<open>The client's control messages\<close>

text \<open>
  \<^verbatim>\<open>Client\<close> (\<^verbatim>\<open>client.h\<close>, \<^verbatim>\<open>src/client.cpp\<close>): the answers it gives to requests, and
  \<^verbatim>\<open>ProcessCtrlMessage\<close>, one definition per message, composed by the switch at the end. A message
  handler returns whether the message was processed; exceptions are caught by the switch, undefined behaviour
  is not. The reader of a message is \<open>get_msg\<close> of the environment, applied to the octets after the length
  field.
\<close>

subsection \<open>Answers\<close>

definition Client_ResolveSubscribe ::
  "'t env \<Rightarrow> u64 \<Rightarrow> u64 \<Rightarrow> u64 \<Rightarrow> SubscribeReason \<Rightarrow> Location option \<Rightarrow> 't Transport \<Rightarrow> 't Transport" where
  "Client_ResolveSubscribe env conn_id request_id track_alias reason largest_location tr =
     (case map_find (connections tr) conn_id of
        None \<Rightarrow> tr
      | Some c \<Rightarrow>
          if reason = SubscribeReason_kOk
          then SendSubscribeOk env c request_id track_alias kSubscribeExpires largest_location tr
          else SendSubscribeError env c request_id SubscribeErrorCode_kInternalError ''Internal error'' tr)"

text \<open>The priority is passed where \<^verbatim>\<open>SendFetchOk\<close> expects whether the track has ended.\<close>

definition Client_ResolveFetch ::
  "'t env \<Rightarrow> u64 \<Rightarrow> u64 \<Rightarrow> u8 \<Rightarrow> GroupOrder \<Rightarrow> FetchReason \<Rightarrow> bytes option \<Rightarrow> Location option \<Rightarrow> 't Transport \<Rightarrow>
     unit result \<times> 't Transport" where
  "Client_ResolveFetch env conn_id request_id priority group_order reason error_reason largest_location tr =
     (case map_find (connections tr) conn_id of
        None \<Rightarrow> (Inr (), tr)
      | Some c \<Rightarrow>
          if reason = FetchReason_kOk then
            (case largest_location of
               None \<Rightarrow> (Inl Bad_Optional_Access, tr)
             | Some l \<Rightarrow> (Inr (), SendFetchOk env c request_id group_order (priority \<noteq> 0) l tr))
          else (Inr (), SendFetchError env c request_id FetchErrorCode_kInternalError
                          (case error_reason of Some r \<Rightarrow> r | None \<Rightarrow> octets ''Internal error'') tr))"

definition bind_fetch_track :: "'t env \<Rightarrow> u64 \<Rightarrow> hptr \<Rightarrow> u64 \<Rightarrow> 't Transport \<Rightarrow> 't Transport" where
  "bind_fetch_track env conn_id h request_id tr =
     (let p = pubs tr h;
          (ctx, q) = it_CreateDataContext env conn_id True (default_priority (pb_handler p)) False (quic tr);
          tr = put_pub h (p\<lparr>pb_handler := (pb_handler p)\<lparr>pth_connection_id := conn_id, publish_data_ctx_id := ctx\<rparr>,
                            pb_has_transport := True\<rparr>) (tr\<lparr>quic := q\<rparr>)
      in mod_conn conn_id (\<lambda>c. c\<lparr>pub_fetch_tracks_by_request_id :=
           map_put request_id h (pub_fetch_tracks_by_request_id c)\<rparr>) tr)"

definition Client_BindFetchTrack :: "'t env \<Rightarrow> u64 \<Rightarrow> hptr \<Rightarrow> 't Transport \<Rightarrow> unit result \<times> 't Transport" where
  "Client_BindFetchTrack env conn_id h tr =
     (case pub_request_id h tr of
        None \<Rightarrow> (Inl Undefined_Behaviour, tr)
      | Some rid \<Rightarrow>
          (case map_find (connections tr) conn_id of
             None \<Rightarrow> (Inr (), tr)
           | Some _ \<Rightarrow> (Inr (), bind_fetch_track env conn_id h rid tr)))"

definition UnbindFetchTrack :: "'t env \<Rightarrow> u64 \<Rightarrow> hptr \<Rightarrow> 't Transport \<Rightarrow> unit result \<times> 't Transport" where
  "UnbindFetchTrack env conn_id h tr =
     (case map_find (connections tr) conn_id of
        None \<Rightarrow> (Inr (), tr)
      | Some _ \<Rightarrow>
          (case pub_request_id h tr of
             None \<Rightarrow> (Inl Undefined_Behaviour, tr)
           | Some rid \<Rightarrow>
               let tr = mod_conn conn_id (\<lambda>c. c\<lparr>pub_fetch_tracks_by_request_id :=
                          map_erase rid (pub_fetch_tracks_by_request_id c)\<rparr>) tr
               in (Inr (), tr\<lparr>quic := it_DeleteDataContext env conn_id (publish_data_ctx_id (pb_handler (pubs tr h))) True (quic tr)\<rparr>)))"

subsection \<open>Parameters\<close>

text \<open>A parameter value is copied over a 64-bit integer that is zero before.\<close>

definition param_u64 :: "KeyValuePair \<Rightarrow> u64" where
  "param_u64 p = of_le_bytes (take 8 (kvp_value p))"

text \<open>In a loop over the parameters a later one overwrites an earlier one of the same type.\<close>

definition last_param :: "ParameterType \<Rightarrow> KeyValuePair list \<Rightarrow> KeyValuePair option" where
  "last_param t ps = (case filter (is_param t) ps of [] \<Rightarrow> None | qs \<Rightarrow> Some (last qs))"

definition overlay_u64 :: "u64 \<Rightarrow> KeyValuePair \<Rightarrow> u64" where
  "overlay_u64 w p = of_le_bytes (take 8 (kvp_value p) @ drop (length (kvp_value p)) (le_bytes 8 w))"

text \<open>The delivery timeout is one variable that every parameter of the type is copied over.\<close>

definition delivery_timeout_of :: "KeyValuePair list \<Rightarrow> u64" where
  "delivery_timeout_of ps = fold (\<lambda>p w. overlay_u64 w p) (filter (is_param ParameterType_kDeliveryTimeout) ps) 0"

definition new_group_request_of :: "KeyValuePair list \<Rightarrow> u64 option" where
  "new_group_request_of ps = map_option param_u64 (last_param ParameterType_kNewGroupRequest ps)"

subsection \<open>Requests of the peer\<close>

definition track_not_found :: "'t env \<Rightarrow> u64 \<Rightarrow> u64 \<Rightarrow> string \<Rightarrow> 't Transport \<Rightarrow> 't Transport" where
  "track_not_found env cid request_id reason tr =
     SendSubscribeError env (conn_at cid tr) request_id SubscribeErrorCode_kTrackNotExist reason tr"

definition Client_Subscribe :: "'t env \<Rightarrow> u64 \<Rightarrow> u64 \<Rightarrow> FullTrackName \<Rightarrow> 't Transport \<Rightarrow> bool result \<times> 't Transport" where
  "Client_Subscribe env cid request_id tfn tr =
     (let th = track_hash tfn;
          tr = mod_conn cid (\<lambda>c. c\<lparr>recv_req_id := map_put request_id
                 \<lparr>sc_track_full_name = tfn, sc_track_hash = th, sc_largest_location = None\<rparr> (recv_req_id c)\<rparr>) tr
      in case GetPubTrackHandler (conn_at cid tr) th of
           None \<Rightarrow> (Inr True, track_not_found env cid request_id ''Published track not found'' tr)
         | Some q \<Rightarrow>
             (case pth_track_alias (pb_handler (pubs tr q)) of
                None \<Rightarrow> (Inl Bad_Optional_Access, tr)
              | Some alias \<Rightarrow>
                  let tr = Client_ResolveSubscribe env (connection_handle (conn_at cid tr)) request_id alias SubscribeReason_kOk None tr;
                      tr = mod_pub q (\<lambda>p. p\<lparr>pth_request_id := Some request_id\<rparr>) tr
                  in (Inr True, pub_SetStatus q PublishStatus_kOk tr)))"

text \<open>A new group is requested unless a request for the next group is pending already, or the requested group
  is not ahead of the track.\<close>

definition request_new_group :: "hptr \<Rightarrow> u64 \<Rightarrow> 't Transport \<Rightarrow> 't Transport" where
  "request_new_group q group_id tr =
     (let p = pb_handler (pubs tr q) in
      if \<not> (pending_new_group_request_id p = Some 0 \<and> group_id = 0) \<and> (group_id = 0 \<or> latest_group_id p < group_id)
      then pub_SetStatus q PublishStatus_kNewGroupRequested (mod_pub q (\<lambda>p. p\<lparr>pending_new_group_request_id := Some group_id\<rparr>) tr)
      else tr)"

definition Client_SubscribeUpdate ::
  "'t env \<Rightarrow> u64 \<Rightarrow> u64 \<Rightarrow> u64 \<Rightarrow> u8 \<Rightarrow> KeyValuePair list \<Rightarrow> 't Transport \<Rightarrow> bool result \<times> 't Transport" where
  "Client_SubscribeUpdate env cid request_id sub_rid forward ps tr =
     (case map_find (recv_req_id (conn_at cid tr)) sub_rid of
        None \<Rightarrow> (Inr True, track_not_found env cid request_id ''Subscription not found'' tr)
      | Some ctx \<Rightarrow>
          (case GetPubTrackHandler (conn_at cid tr) (sc_track_hash ctx) of
             None \<Rightarrow> (Inr True, track_not_found env cid request_id ''Published track not found'' tr)
           | Some q \<Rightarrow>
               if forward = 0 then (Inr True, pub_SetStatus q PublishStatus_kPaused tr)
               else (case filter (is_param ParameterType_kNewGroupRequest) ps of
                       p # _ \<Rightarrow> (Inr True, request_new_group q (param_u64 p) tr)
                     | [] \<Rightarrow> (Inr True, pub_SetStatus q PublishStatus_kSubscriptionUpdated tr))))"

definition Client_Unsubscribe :: "u64 \<Rightarrow> u64 \<Rightarrow> 't Transport \<Rightarrow> 't Transport" where
  "Client_Unsubscribe cid request_id tr =
     (case map_find (recv_req_id (conn_at cid tr)) request_id of
        None \<Rightarrow> tr
      | Some ctx \<Rightarrow>
          (case GetPubTrackHandler (conn_at cid tr) (track_hash (sc_track_full_name ctx)) of
             None \<Rightarrow> tr
           | Some q \<Rightarrow> pub_SetStatus q PublishStatus_kNoSubscribers tr))"

text \<open>A received PUBLISH is refused by default.\<close>

definition Client_Publish ::
  "'t env \<Rightarrow> u64 \<Rightarrow> u64 \<Rightarrow> FullTrackName \<Rightarrow> u64 \<Rightarrow> u8 \<Rightarrow> GroupOrder \<Rightarrow> KeyValuePair list \<Rightarrow> 't Transport \<Rightarrow> 't Transport" where
  "Client_Publish env cid request_id tfn track_alias forward group_order ps tr =
     (let handle = connection_handle (conn_at cid tr);
          attrs = \<lparr>pa_track_full_name = tfn, pa_track_alias = track_alias, pa_priority = 0, pa_group_order = group_order,
            pa_delivery_timeout = delivery_timeout_of ps, pa_filter_type = FilterType_kLargestObject, pa_forward = forward,
            pa_new_group_request_id = new_group_request_of ps, pa_dynamic_groups = False\<rparr>;
          tr = emit (Ev_PublishReceived handle request_id tfn track_alias forward group_order (delivery_timeout_of ps)
                      (new_group_request_of ps) False) tr
      in ResolvePublish env handle request_id attrs PublishReason_kNotSupported None [] tr)"

text \<open>The end location of a standalone fetch is exclusive in its object.\<close>

definition fetch_end :: "Location \<Rightarrow> Location" where
  "fetch_end l = Location (group l) (if object l > 0 then object l - 1 else 0)"

definition standalone_fetch ::
  "u64 \<Rightarrow> u64 \<Rightarrow> u8 \<Rightarrow> GroupOrder \<Rightarrow> StandaloneFetch option \<Rightarrow> 't Transport \<Rightarrow> bool result \<times> 't Transport" where
  "standalone_fetch cid request_id priority group_order g tr =
     (case g of
        None \<Rightarrow> (Inl Undefined_Behaviour, tr)
      | Some f \<Rightarrow>
          (Inr True, emit (Ev_StandaloneFetchReceived (connection_handle (conn_at cid tr)) request_id
             \<lparr>name_space = sf_track_namespace f, name = sf_track_name f\<rparr> priority group_order (sf_start f) (fetch_end (sf_end f))) tr))"

definition joining_fetch ::
  "'t env \<Rightarrow> u64 \<Rightarrow> u64 \<Rightarrow> u8 \<Rightarrow> GroupOrder \<Rightarrow> bool \<Rightarrow> JoiningFetch option \<Rightarrow> 't Transport \<Rightarrow> bool result \<times> 't Transport" where
  "joining_fetch env cid request_id priority group_order relative g tr =
     (case g of
        None \<Rightarrow> (Inl Undefined_Behaviour, tr)
      | Some f \<Rightarrow>
          (case map_find (recv_req_id (conn_at cid tr)) (jf_request_id f) of
             None \<Rightarrow> (Inr True, SendFetchError env (conn_at cid tr) request_id FetchErrorCode_kTrackDoesNotExist
                        (octets ''Corresponding subscribe does not exist'') tr)
           | Some ctx \<Rightarrow>
               (Inr True, emit (Ev_JoiningFetchReceived (connection_handle (conn_at cid tr)) request_id (sc_track_full_name ctx)
                  priority group_order (jf_request_id f) relative (jf_joining_start f)) tr)))"

text \<open>The client reports every joining fetch as absolute.\<close>

definition Client_Fetch ::
  "'t env \<Rightarrow> u64 \<Rightarrow> u64 \<Rightarrow> u8 \<Rightarrow> GroupOrder \<Rightarrow> FetchType \<Rightarrow> StandaloneFetch option \<Rightarrow> JoiningFetch option \<Rightarrow> 't Transport \<Rightarrow>
     bool result \<times> 't Transport" where
  "Client_Fetch env cid request_id priority group_order fetch_type g0 g1 tr =
     (case fetch_type of
        FetchType_kStandalone \<Rightarrow> standalone_fetch cid request_id priority group_order g0 tr
      | FetchType_kRelativeJoiningFetch \<Rightarrow> joining_fetch env cid request_id priority group_order False g1 tr
      | FetchType_kAbsoluteJoiningFetch \<Rightarrow> joining_fetch env cid request_id priority group_order False g1 tr
      | FetchType_other _ \<Rightarrow>
          (Inr True, SendFetchError env (conn_at cid tr) request_id FetchErrorCode_kNotSupported (octets ''Unknown fetch type'') tr))"

definition Client_FetchCancel :: "u64 \<Rightarrow> u64 \<Rightarrow> 't Transport \<Rightarrow> 't Transport" where
  "Client_FetchCancel cid request_id tr =
     (let received = Ev_FetchCancelReceived (connection_handle (conn_at cid tr)) request_id in
      case map_find (sub_tracks_by_request_id (conn_at cid tr)) request_id of
        None \<Rightarrow> emit received tr
      | Some h \<Rightarrow>
          mod_conn cid (\<lambda>c. c\<lparr>sub_tracks_by_request_id := map_erase request_id (sub_tracks_by_request_id c),
                              recv_req_id := map_erase request_id (recv_req_id c)\<rparr>)
            (emit received (sub_SetStatus h SubscribeStatus_kCancelled tr)))"

subsection \<open>Answers of the peer\<close>

definition set_latest_location :: "hptr \<Rightarrow> Location option \<Rightarrow> 't Transport \<Rightarrow> 't Transport" where
  "set_latest_location h l tr =
     (case l of None \<Rightarrow> tr | Some l \<Rightarrow> put_sub h ((subs tr h)\<lparr>st_latest_location := Some l\<rparr>) tr)"

text \<open>SUBSCRIBE_OK: the handler learns the track alias of the publisher, and data with this alias is routed to
  it. The server does the same.\<close>

definition recv_SubscribeOk :: "u64 \<Rightarrow> u64 \<Rightarrow> u64 \<Rightarrow> Location option \<Rightarrow> KeyValuePair list \<Rightarrow> 't Transport \<Rightarrow> 't Transport" where
  "recv_SubscribeOk cid request_id track_alias location ps tr =
     (case map_find (sub_tracks_by_request_id (conn_at cid tr)) request_id of
        None \<Rightarrow> tr
      | Some h \<Rightarrow>
          let tr = set_latest_location h location tr; s = subs tr h;
              s = (if \<exists>p \<in> set ps. is_param ParameterType_kDynamicGroups p then s\<lparr>st_support_new_group_request := True\<rparr> else s);
              tr = put_sub h (s\<lparr>st_received_track_alias := Some track_alias\<rparr>) tr;
              tr = mod_conn cid (\<lambda>c. c\<lparr>sub_by_recv_track_alias := map_put track_alias h (sub_by_recv_track_alias c)\<rparr>) tr
          in sub_SetStatus h SubscribeStatus_kOk tr)"

definition recv_SubscribeError :: "'t env \<Rightarrow> u64 \<Rightarrow> u64 \<Rightarrow> 't Transport \<Rightarrow> 't Transport" where
  "recv_SubscribeError env cid request_id tr =
     (case map_find (sub_tracks_by_request_id (conn_at cid tr)) request_id of
        None \<Rightarrow> tr
      | Some h \<Rightarrow> RemoveSubscribeTrack env cid h True (sub_SetStatus h SubscribeStatus_kError tr))"

definition Client_PublishNamespaceOk :: "u64 \<Rightarrow> u64 \<Rightarrow> 't Transport \<Rightarrow> bool result \<times> 't Transport" where
  "Client_PublishNamespaceOk cid request_id tr =
     (let c = conn_at cid tr in
      case map_find (pub_tracks_ns_by_request_id c) request_id of
        None \<Rightarrow> (Inr True, tr)
      | Some ns \<Rightarrow>
          (case map_find (pub_tracks_by_name c) ns of
             None \<Rightarrow> (Inl Undefined_Behaviour, tr)
           | Some names \<Rightarrow>
               (Inr True, mod_conn cid (\<lambda>c. c\<lparr>pub_tracks_ns_by_request_id := map_erase request_id (pub_tracks_ns_by_request_id c)\<rparr>)
                  (fold (\<lambda>q tr. if publish_status (pb_handler (pubs tr q)) \<noteq> PublishStatus_kOk
                                then pub_SetStatus q PublishStatus_kNoSubscribers tr else tr) (map snd names) tr))))"

definition Client_SubscribeNamespaceStatus ::
  "u64 \<Rightarrow> u64 \<Rightarrow> (SubscribeNamespaceErrorCode \<times> bytes) option \<Rightarrow> 't Transport \<Rightarrow> 't Transport" where
  "Client_SubscribeNamespaceStatus cid request_id err tr =
     (case map_find (sub_namespace_prefix_by_request_id (conn_at cid tr)) request_id of
        None \<Rightarrow> tr
      | Some ns \<Rightarrow>
          let tr = emit (Ev_SubscribeNamespaceStatusChanged ns None) tr
          in if err = None then tr else emit (Ev_SubscribeNamespaceStatusChanged ns err) tr)"

definition recv_PublishDone :: "u64 \<Rightarrow> u64 \<Rightarrow> 't Transport \<Rightarrow> 't Transport" where
  "recv_PublishDone cid request_id tr =
     (case map_find (sub_tracks_by_request_id (conn_at cid tr)) request_id of
        None \<Rightarrow> tr
      | Some h \<Rightarrow> sub_SetStatus h SubscribeStatus_kNotSubscribed tr)"

definition track_status_reason :: "SubscribeErrorCode \<Rightarrow> SubscribeReason" where
  "track_status_reason e =
     (case e of SubscribeErrorCode_kUnauthorized \<Rightarrow> SubscribeReason_kUnauthorized
      | SubscribeErrorCode_kTrackDoesNotExist \<Rightarrow> SubscribeReason_kTrackDoesNotExist
      | _ \<Rightarrow> SubscribeReason_kInternalError)"

definition Client_ServerSetup :: "u64 \<Rightarrow> u64 \<Rightarrow> KeyValuePair list \<Rightarrow> 't Transport \<Rightarrow> 't Transport" where
  "Client_ServerSetup cid version ps tr =
     (let endpoint = (case filter (is_setup_param SetupParameterType_kEndpointId) ps of
                        p # _ \<Rightarrow> kvp_value p | [] \<Rightarrow> octets ''Unknown Endpoint ID'');
          tr = emit (Ev_ServerSetupReceived version endpoint) tr;
          tr = emit (Ev_StatusChanged Status_kReady) (tr\<lparr>tr_status := Status_kReady\<rparr>)
      in mod_conn cid (\<lambda>c. c\<lparr>setup_complete := True\<rparr>) tr)"

definition recv_FetchOk :: "u64 \<Rightarrow> u64 \<Rightarrow> Location \<Rightarrow> 't Transport \<Rightarrow> 't Transport" where
  "recv_FetchOk cid request_id end_location tr =
     (case map_find (sub_tracks_by_request_id (conn_at cid tr)) request_id of
        None \<Rightarrow> tr
      | Some h \<Rightarrow> sub_SetStatus h SubscribeStatus_kOk (set_latest_location h (Some end_location) tr))"

definition recv_FetchError :: "u64 \<Rightarrow> u64 \<Rightarrow> 't Transport \<Rightarrow> 't Transport" where
  "recv_FetchError cid request_id tr =
     (case map_find (sub_tracks_by_request_id (conn_at cid tr)) request_id of
        None \<Rightarrow> tr
      | Some h \<Rightarrow>
          mod_conn cid (\<lambda>c. c\<lparr>sub_tracks_by_request_id := map_erase request_id (sub_tracks_by_request_id c)\<rparr>)
            (sub_SetStatus h SubscribeStatus_kError tr))"

text \<open>The log message reads the end group when there is a start location, although a filter with an absolute
  start has none.\<close>

definition Client_PublishOk :: "u64 \<Rightarrow> u64 \<Rightarrow> Location option \<Rightarrow> u64 option \<Rightarrow> 't Transport \<Rightarrow> bool result \<times> 't Transport" where
  "Client_PublishOk cid request_id start_location end_group tr =
     (case map_find (pub_tracks_by_request_id (conn_at cid tr)) request_id of
        None \<Rightarrow> (Inr True, tr)
      | Some q \<Rightarrow>
          if start_location \<noteq> None \<and> end_group = None then (Inl Undefined_Behaviour, tr)
          else (Inr True, pub_SetStatus q PublishStatus_kOk tr))"

subsection \<open>The switch\<close>

definition client_dispatch :: "'t env \<Rightarrow> u64 \<Rightarrow> CtrlMsg \<Rightarrow> 't Transport \<Rightarrow> bool result \<times> 't Transport" where
  "client_dispatch env cid msg tr =
     (let handle = connection_handle (conn_at cid tr) in
      case msg of
        Msg_Subscribe rid ns nm _ _ _ _ _ _ _ \<Rightarrow> Client_Subscribe env cid rid \<lparr>name_space = ns, name = nm\<rparr> tr
      | Msg_SubscribeUpdate rid sub_rid _ _ _ forward ps \<Rightarrow> Client_SubscribeUpdate env cid rid sub_rid forward ps tr
      | Msg_SubscribeOk rid alias _ _ _ location ps \<Rightarrow> (Inr True, recv_SubscribeOk cid rid alias location ps tr)
      | Msg_SubscribeError rid _ _ \<Rightarrow> (Inr True, recv_SubscribeError env cid rid tr)
      | Msg_PublishNamespace rid ns _ \<Rightarrow> (Inr True, emit (Ev_PublishNamespaceReceived handle ns rid) tr)
      | Msg_PublishNamespaceDone ns \<Rightarrow> (Inr True, emit (Ev_PublishNamespaceDoneReceived handle ns) tr)
      | Msg_PublishNamespaceOk rid \<Rightarrow> Client_PublishNamespaceOk cid rid tr
      | Msg_PublishNamespaceError _ _ _ \<Rightarrow> (Inr True, tr)
      | Msg_SubscribeNamespaceOk rid \<Rightarrow> (Inr True, Client_SubscribeNamespaceStatus cid rid None tr)
      | Msg_SubscribeNamespaceError rid e reason \<Rightarrow> (Inr True, Client_SubscribeNamespaceStatus cid rid (Some (e, reason)) tr)
      | Msg_Unsubscribe rid \<Rightarrow> (Inr True, Client_Unsubscribe cid rid tr)
      | Msg_Publish rid ns nm alias order _ _ forward ps \<Rightarrow>
          (Inr True, Client_Publish env cid rid \<lparr>name_space = ns, name = nm\<rparr> alias forward order ps tr)
      | Msg_PublishDone rid _ _ _ \<Rightarrow> (Inr True, recv_PublishDone cid rid tr)
      | Msg_RequestsBlocked _ \<Rightarrow> (Inr True, tr)
      | Msg_PublishNamespaceCancel ns \<Rightarrow> (Inr True, emit (Ev_PublishNamespaceNotPublished ns) tr)
      | Msg_TrackStatus rid ns nm priority order forward filter_type _ _ _ \<Rightarrow>
          (Inr True, emit (Ev_TrackStatusReceived handle rid \<lparr>name_space = ns, name = nm\<rparr> priority order filter_type forward) tr)
      | Msg_TrackStatusOk rid _ _ _ _ location _ \<Rightarrow>
          (Inr True, emit (Ev_TrackStatusResponseReceived handle rid SubscribeReason_kOk None location) tr)
      | Msg_TrackStatusError rid e reason \<Rightarrow>
          (Inr True, emit (Ev_TrackStatusResponseReceived handle rid (track_status_reason e) (Some reason) None) tr)
      | Msg_Goaway _ \<Rightarrow> (Inr True, tr)
      | Msg_ServerSetup version ps \<Rightarrow> (Inr True, Client_ServerSetup cid version ps tr)
      | Msg_FetchOk rid _ _ location _ \<Rightarrow> (Inr True, recv_FetchOk cid rid location tr)
      | Msg_FetchError rid _ _ \<Rightarrow> (Inr True, recv_FetchError cid rid tr)
      | Msg_Fetch rid priority order ft g0 g1 _ \<Rightarrow> Client_Fetch env cid rid priority order ft g0 g1 tr
      | Msg_FetchCancel rid \<Rightarrow> (Inr True, Client_FetchCancel cid rid tr)
      | Msg_PublishOk rid _ _ _ _ location end_group _ \<Rightarrow> Client_PublishOk cid rid location end_group tr
      | _ \<Rightarrow> (Inr False, tr))"

text \<open>Undefined behaviour and failed assertions are not caught.\<close>

definition caught :: "exn \<Rightarrow> bool" where
  "caught e \<longleftrightarrow> e \<noteq> Undefined_Behaviour \<and> e \<noteq> Assert_Failed"

definition Client_ProcessCtrlMessage :: "'t env \<Rightarrow> 't ctrl_processor" where
  "Client_ProcessCtrlMessage env cid msg_bytes tr =
     (case bind_result (case ctrl_msg_type_received (conn_at cid tr) of None \<Rightarrow> Inl Undefined_Behaviour | Some t \<Rightarrow> Inr t)
             (\<lambda>t. get_msg env t msg_bytes) of
        Inl e \<Rightarrow> (if caught e then Inr False else Inl e, tr)
      | Inr msg \<Rightarrow>
          (case client_dispatch env cid msg tr of
             (Inl e, tr) \<Rightarrow> (if caught e then Inr False else Inl e, tr)
           | (Inr ok, tr) \<Rightarrow> (Inr ok, tr)))"

end
