(* ===== verification/Server_Control.thy ===== *)
theory Server_Control
  imports Client_Control
begin

section \<open>The server's control messages\<close>

text \<open>
  \<^verbatim>\<open>Server\<close> (\<^verbatim>\<open>server.h\<close>, \<^verbatim>\<open>src/server.cpp\<close>): the answers to requests, the publish handlers
  of a relay, and \<^verbatim>\<open>ProcessCtrlMessage\<close>. The application's functions \<^verbatim>\<open>SubscribeReceived\<close>,
  \<^verbatim>\<open>PublishReceived\<close> and so on are events; the answers it gives later are calls of the
  \<^verbatim>\<open>Resolve\<dots>\<close> functions.
\<close>

subsection \<open>Namespaces\<close>

definition announce_to :: "'t env \<Rightarrow> TrackNamespace \<Rightarrow> u64 \<Rightarrow> 't Transport \<Rightarrow> 't Transport" where
  "announce_to env ns handle tr =
     (case map_find (connections tr) handle of
        None \<Rightarrow> tr
      | Some c \<Rightarrow>
          let (rid, c) = GetNextRequestId c; tr = SendPublishNamespace env c rid ns (put_conn handle c tr)
          in mod_conn handle (\<lambda>c. c\<lparr>pub_namespaces_by_request_id :=
               map_put (track_fullname_hash (ns_hash ns)) rid (pub_namespaces_by_request_id c)\<rparr>) tr)"

definition ResolvePublishNamespace ::
  "'t env \<Rightarrow> u64 \<Rightarrow> u64 \<Rightarrow> TrackNamespace \<Rightarrow> u64 list \<Rightarrow> bool \<Rightarrow> 't Transport \<Rightarrow> 't Transport" where
  "ResolvePublishNamespace env conn_id request_id ns subscribers ok tr =
     (if conn_id = 0 then fold (announce_to env ns) subscribers tr
      else case map_find (connections tr) conn_id of
        None \<Rightarrow> tr
      | Some c \<Rightarrow> if ok then fold (announce_to env ns) subscribers (SendPublishNamespaceOk env c request_id tr) else tr)"

definition withdraw_from :: "'t env \<Rightarrow> TrackNamespace \<Rightarrow> u64 \<Rightarrow> 't Transport \<Rightarrow> 't Transport" where
  "withdraw_from env ns handle tr =
     (let key = track_fullname_hash (ns_hash ns) in
      case map_find (connections tr) handle of
        None \<Rightarrow> tr
      | Some c \<Rightarrow>
          if map_contains (pub_namespaces_by_request_id c) key then
            mod_conn handle (\<lambda>c. c\<lparr>pub_namespaces_by_request_id := map_erase key (pub_namespaces_by_request_id c)\<rparr>)
              (SendPublishNamespaceDone env c ns tr)
          else tr)"

definition ResolvePublishNamespaceDone :: "'t env \<Rightarrow> TrackNamespace \<Rightarrow> u64 list \<Rightarrow> 't Transport \<Rightarrow> 't Transport" where
  "ResolvePublishNamespaceDone env ns subscribers = fold (withdraw_from env ns) subscribers"

record AvailableTrack =
  at_track_full_name :: FullTrackName
  at_largest_location :: "Location option"
  at_attributes :: PublishAttributes

text \<open>The namespaces of a subscription to a prefix are entered under the hash of the prefix.\<close>

definition announce_matching :: "'t env \<Rightarrow> u64 \<Rightarrow> TrackNamespace \<Rightarrow> TrackNamespace \<Rightarrow> 't Transport \<Rightarrow> 't Transport" where
  "announce_matching env conn_id pfx ns tr =
     (if \<not> IsPrefixOf pfx ns then tr
      else
        let (rid, c) = GetNextRequestId (conn_at conn_id tr); tr = SendPublishNamespace env c rid ns (put_conn conn_id c tr)
        in mod_conn conn_id (\<lambda>c. c\<lparr>pub_namespaces_by_request_id :=
             map_put (track_fullname_hash (ns_hash pfx)) rid (pub_namespaces_by_request_id c)\<rparr>) tr)"

definition publish_matching :: "'t env \<Rightarrow> u64 \<Rightarrow> AvailableTrack \<Rightarrow> 't Transport \<Rightarrow> 't Transport" where
  "publish_matching env conn_id track tr =
     (let (rid, c) = GetNextRequestId (conn_at conn_id tr); a = at_attributes track;
          c = c\<lparr>pub_by_request_id := map_put rid (at_track_full_name track) (pub_by_request_id c)\<rparr>
      in SendPublish env c rid (at_track_full_name track) (pa_track_alias a) (pa_group_order a) (at_largest_location track)
           (pa_forward a \<noteq> 0) (pa_new_group_request_id a \<noteq> None) (put_conn conn_id c tr))"

definition ResolveSubscribeNamespace ::
  "'t env \<Rightarrow> u64 \<Rightarrow> u64 \<Rightarrow> TrackNamespace \<Rightarrow> bool \<Rightarrow> TrackNamespace list \<Rightarrow> AvailableTrack list \<Rightarrow> 't Transport \<Rightarrow> 't Transport" where
  "ResolveSubscribeNamespace env conn_id request_id pfx ok namespaces tracks tr =
     (case map_find (connections tr) conn_id of
        None \<Rightarrow> tr
      | Some c \<Rightarrow>
          if \<not> ok then SendSubscribeNamespaceError env c request_id SubscribeNamespaceErrorCode_kInternalError ''Internal error'' tr
          else fold (publish_matching env conn_id) tracks
                 (fold (announce_matching env conn_id pfx) namespaces (SendSubscribeNamespaceOk env c request_id tr)))"

subsection \<open>Subscriptions and fetches\<close>

definition Server_ResolveSubscribe ::
  "'t env \<Rightarrow> u64 \<Rightarrow> u64 \<Rightarrow> u64 \<Rightarrow> SubscribeReason \<Rightarrow> bool \<Rightarrow> Location option \<Rightarrow> 't Transport \<Rightarrow> 't Transport" where
  "Server_ResolveSubscribe env conn_id request_id track_alias reason is_publisher_initiated largest_location tr =
     (case map_find (connections tr) conn_id of
        None \<Rightarrow> tr
      | Some c \<Rightarrow>
          if reason = SubscribeReason_kOk then
            (case map_find (recv_req_id c) request_id of
               None \<Rightarrow> tr
             | Some ctx \<Rightarrow>
                 let c = c\<lparr>recv_req_id := map_put request_id (ctx\<lparr>sc_largest_location := largest_location\<rparr>) (recv_req_id c)\<rparr>;
                     tr = put_conn conn_id c tr
                 in if is_publisher_initiated then tr
                    else SendSubscribeOk env c request_id track_alias kSubscribeExpires largest_location tr)
          else if is_publisher_initiated then tr
          else SendSubscribeError env c request_id SubscribeErrorCode_kInternalError ''Internal error'' tr)"

definition Server_ResolveFetch ::
  "'t env \<Rightarrow> u64 \<Rightarrow> u64 \<Rightarrow> u8 \<Rightarrow> GroupOrder \<Rightarrow> FetchReason \<Rightarrow> bytes option \<Rightarrow> Location option \<Rightarrow> 't Transport \<Rightarrow>
     unit result \<times> 't Transport" where
  "Server_ResolveFetch env conn_id request_id priority group_order reason error_reason largest_location tr =
     (case map_find (connections tr) conn_id of
        None \<Rightarrow> (Inr (), tr)
      | Some c \<Rightarrow>
          if reason = FetchReason_kOk then
            (case largest_location of
               None \<Rightarrow> (Inl Bad_Optional_Access, tr)
             | Some l \<Rightarrow> (Inr (), SendFetchOk env c request_id group_order (priority \<noteq> 0) l tr))
          else
            let err = (case reason of FetchReason_kInvalidRange \<Rightarrow> FetchErrorCode_kInvalidRange
                       | FetchReason_kNoObjects \<Rightarrow> FetchErrorCode_kNoObjects | _ \<Rightarrow> FetchErrorCode_kInternalError)
            in (Inr (), SendFetchError env c request_id err
                          (case error_reason of Some r \<Rightarrow> r | None \<Rightarrow> octets ''Internal error'') tr))"

definition Server_BindFetchTrack :: "'t env \<Rightarrow> u64 \<Rightarrow> hptr \<Rightarrow> 't Transport \<Rightarrow> unit result \<times> 't Transport" where
  "Server_BindFetchTrack env conn_id h tr =
     (case pub_request_id h tr of
        None \<Rightarrow> (Inl Undefined_Behaviour, tr)
      | Some rid \<Rightarrow>
          (case map_find (connections tr) conn_id of
             None \<Rightarrow> (Inr (), tr)
           | Some _ \<Rightarrow> (Inr (), bind_fetch_track env conn_id h rid (pub_SetStatus h PublishStatus_kOk tr))))"

text \<open>\<^verbatim>\<open>SendFetchObject\<close>, the same in client and server: what the queue answers is ignored.\<close>

definition fetch_call :: "PublishTrackHandler \<Rightarrow> u64 \<Rightarrow> u8 \<Rightarrow> u32 \<Rightarrow> EnqueueFlags \<Rightarrow> bytes \<Rightarrow> enqueue_call" where
  "fetch_call p group_id priority ttl flags data =
     \<lparr>eq_conn_id = pth_connection_id p, eq_data_ctx_id = publish_data_ctx_id p, eq_group_id = group_id, eq_bytes = data,
      eq_priority = priority, eq_ttl_ms = ttl, eq_delay_ms = 0, eq_flags = flags\<rparr>"

definition SendFetchObject ::
  "'t env \<Rightarrow> hptr \<Rightarrow> u8 \<Rightarrow> u32 \<Rightarrow> bool \<Rightarrow> u64 \<Rightarrow> u64 \<Rightarrow> u64 \<Rightarrow> Extensions option \<Rightarrow> bytes \<Rightarrow> 't Transport \<Rightarrow>
     PublishObjectStatus result \<times> 't Transport" where
  "SendFetchObject env h priority ttl header_needed group_id subgroup_id object_id exts data tr =
     (let p = pb_handler (pubs tr h);
          send_call = (\<lambda>flags bs tr. tr\<lparr>quic := snd (it_Enqueue env (fetch_call p group_id priority ttl flags bs) (quic tr))\<rparr>);
          object = FetchObject_init\<lparr>fo_group_id := group_id, fo_subgroup_id := subgroup_id, fo_object_id := object_id,
            fo_publisher_priority := priority, ext := ext_init\<lparr>extensions := exts\<rparr>, payload := data\<rparr>
      in case pth_request_id p of
           None \<Rightarrow> (Inl Undefined_Behaviour, tr)
         | Some rid \<Rightarrow>
             (case (if header_needed then put_FetchHeader [] (fetch_header_of rid) else Inr []) of
                Inl e \<Rightarrow> (Inl e, tr)
              | Inr hdr \<Rightarrow>
                  let tr = (if header_needed
                            then send_call \<lparr>use_reliable = True, new_stream = True, clear_tx_queue = True, use_reset = True\<rparr> hdr tr
                            else tr)
                  in (case put_FetchObject [] object of
                        Inl e \<Rightarrow> (Inl e, tr)
                      | Inr bs \<Rightarrow> (Inr PublishObjectStatus_kOk,
                                   send_call \<lparr>use_reliable = True, new_stream = False, clear_tx_queue = False, use_reset = False\<rparr> bs tr))))"

subsection \<open>Publish handlers of a relay\<close>

definition BindPublisherTrack ::
  "'t env \<Rightarrow> u64 \<Rightarrow> u64 \<Rightarrow> u64 \<Rightarrow> hptr \<Rightarrow> bool \<Rightarrow> 't Transport \<Rightarrow> 't Transport" where
  "BindPublisherTrack env conn_id src_id request_id h ephemeral tr =
     (let th = track_hash (pb_full_track_name (pubs tr h)) in
      case map_find (connections tr) conn_id of
        None \<Rightarrow> tr
      | Some _ \<Rightarrow>
          let tr = mod_pub h (\<lambda>p. p\<lparr>pth_track_alias := (if pth_track_alias p = None then Some (track_fullname_hash th)
                                                        else pth_track_alias p), pth_request_id := Some request_id\<rparr>) tr;
              tr = mod_conn conn_id (\<lambda>c. c\<lparr>pub_tracks_ns_by_request_id :=
                     map_put request_id (track_namespace_hash th) (pub_tracks_ns_by_request_id c)\<rparr>) tr;
              tr = bind_publisher env conn_id h tr;
              tr = (if ephemeral then tr else hold_publisher conn_id h src_id th tr)
          in pub_SetStatus h PublishStatus_kOk tr)"

text \<open>The entry of the namespace is created by the subscript operator before the test whether it exists, so an
  empty one stays.\<close>

definition UnbindPublisherTrack :: "'t env \<Rightarrow> u64 \<Rightarrow> u64 \<Rightarrow> hptr \<Rightarrow> 't Transport \<Rightarrow> unit result \<times> 't Transport" where
  "UnbindPublisherTrack env conn_id src_id h tr =
     (let th = track_hash (pb_full_track_name (pubs tr h)); ctx = publish_data_ctx_id (pb_handler (pubs tr h)) in
      case map_find (connections tr) conn_id of
        None \<Rightarrow> (Inr (), tr)
      | Some c \<Rightarrow>
          (case pub_request_id h tr of
             None \<Rightarrow> (Inl Undefined_Behaviour, tr)
           | Some rid \<Rightarrow>
               let names = map_erase (track_name_hash th) (map_at [] (pub_tracks_by_name c) (track_namespace_hash th));
                   srcs = map_erase src_id (map_at [] (pub_tracks_by_track_alias c) (track_fullname_hash th));
                   c = c\<lparr>pub_tracks_ns_by_request_id := map_erase rid (pub_tracks_ns_by_request_id c),
                         pub_tracks_by_name := map_put (track_namespace_hash th) names (pub_tracks_by_name c),
                         pub_tracks_by_track_alias :=
                           (if srcs = [] then map_erase (track_fullname_hash th) (pub_tracks_by_track_alias c)
                            else map_put (track_fullname_hash th) srcs (pub_tracks_by_track_alias c)),
                         pub_tracks_by_data_ctx_id := map_erase ctx (pub_tracks_by_data_ctx_id c)\<rparr>;
                   tr = put_conn conn_id c tr
               in (Inr (), tr\<lparr>quic := it_DeleteDataContext env conn_id ctx False (quic tr)\<rparr>)))"

subsection \<open>Messages\<close>

definition remember_request :: "u64 \<Rightarrow> u64 \<Rightarrow> FullTrackName \<Rightarrow> 't Transport \<Rightarrow> 't Transport" where
  "remember_request cid request_id tfn = mod_conn cid (\<lambda>c. c\<lparr>recv_req_id := map_put request_id
     \<lparr>sc_track_full_name = tfn, sc_track_hash = track_hash tfn, sc_largest_location = None\<rparr> (recv_req_id c)\<rparr>)"

definition Server_Subscribe ::
  "u64 \<Rightarrow> u64 \<Rightarrow> FullTrackName \<Rightarrow> u8 \<Rightarrow> GroupOrder \<Rightarrow> u8 \<Rightarrow> FilterType \<Rightarrow> KeyValuePair list \<Rightarrow> 't Transport \<Rightarrow> 't Transport" where
  "Server_Subscribe cid request_id tfn priority order forward filter_type ps tr =
     (let tr = remember_request cid request_id tfn tr;
          tr = emit (Ev_SubscribeReceived (connection_handle (conn_at cid tr)) request_id tfn priority order (delivery_timeout_of ps)
                      filter_type forward (new_group_request_of ps) False) tr
      in case new_group_request_of ps of None \<Rightarrow> tr | Some g \<Rightarrow> emit (Ev_NewGroupRequested tfn g) tr)"

definition Server_PublishNamespaceDone :: "'t env \<Rightarrow> u64 \<Rightarrow> TrackNamespace \<Rightarrow> 't Transport \<Rightarrow> 't Transport" where
  "Server_PublishNamespaceDone env cid ns tr =
     (let handle = connection_handle (conn_at cid tr) in
      fold (\<lambda>conn tr. case map_find (connections tr) conn of None \<Rightarrow> tr | Some c \<Rightarrow> SendPublishNamespaceDone env c ns tr)
        (done_subscribers env handle ns) (emit (Ev_PublishNamespaceDoneReceived handle ns) tr))"

definition Server_Unsubscribe :: "u64 \<Rightarrow> u64 \<Rightarrow> 't Transport \<Rightarrow> 't Transport" where
  "Server_Unsubscribe cid request_id tr =
     (let c = conn_at cid tr;
          th = (case map_find (recv_req_id c) request_id of Some ctx \<Rightarrow> sc_track_hash ctx | None \<Rightarrow> TrackHash_of_hashes 0 0);
          tr = (case GetPubTrackHandler c th of Some q \<Rightarrow> pub_SetStatus q PublishStatus_kNoSubscribers tr | None \<Rightarrow> tr);
          tr = emit (Ev_UnsubscribeReceived (connection_handle c) request_id) tr
      in mod_conn cid (\<lambda>c. c\<lparr>recv_req_id := map_erase request_id (recv_req_id c)\<rparr>) tr)"

definition Server_PublishDone :: "u64 \<Rightarrow> u64 \<Rightarrow> 't Transport \<Rightarrow> 't Transport" where
  "Server_PublishDone cid request_id tr =
     (case map_find (sub_tracks_by_request_id (conn_at cid tr)) request_id of
        None \<Rightarrow> tr
      | Some _ \<Rightarrow>
          mod_conn cid (\<lambda>c. c\<lparr>recv_req_id := map_erase request_id (recv_req_id c)\<rparr>)
            (emit (Ev_PublishDoneReceived (connection_handle (conn_at cid tr)) request_id) (recv_PublishDone cid request_id tr)))"

definition Server_ClientSetup :: "'t env \<Rightarrow> u64 \<Rightarrow> u64 list \<Rightarrow> KeyValuePair list \<Rightarrow> 't Transport \<Rightarrow> 't Transport" where
  "Server_ClientSetup env cid versions ps tr =
     (let handle = connection_handle (conn_at cid tr) in
      case versions of
        [] \<Rightarrow> CloseConnection env handle TerminationReason_kProtocolViolation tr
      | version # _ \<Rightarrow>
          let endpoint = (case filter (is_setup_param SetupParameterType_kEndpointId) ps of
                            [] \<Rightarrow> octets ''Unknown Endpoint ID'' | qs \<Rightarrow> kvp_value (last qs));
              tr = mod_conn cid (\<lambda>c. c\<lparr>client_version := version\<rparr>) (emit (Ev_ClientSetupReceived handle endpoint) tr);
              tr = SendServerSetup env (conn_at cid tr) tr
          in mod_conn cid (\<lambda>c. c\<lparr>setup_complete := True\<rparr>) tr)"

definition Server_Fetch ::
  "'t env \<Rightarrow> u64 \<Rightarrow> u64 \<Rightarrow> u8 \<Rightarrow> GroupOrder \<Rightarrow> FetchType \<Rightarrow> StandaloneFetch option \<Rightarrow> JoiningFetch option \<Rightarrow> 't Transport \<Rightarrow>
     bool result \<times> 't Transport" where
  "Server_Fetch env cid request_id priority group_order fetch_type g0 g1 tr =
     (case fetch_type of
        FetchType_kStandalone \<Rightarrow> standalone_fetch cid request_id priority group_order g0 tr
      | FetchType_kRelativeJoiningFetch \<Rightarrow> joining_fetch env cid request_id priority group_order True g1 tr
      | FetchType_kAbsoluteJoiningFetch \<Rightarrow> joining_fetch env cid request_id priority group_order False g1 tr
      | FetchType_other _ \<Rightarrow>
          (Inr True, SendFetchError env (conn_at cid tr) request_id FetchErrorCode_kNotSupported (octets ''Unknown fetch type'') tr))"

text \<open>PUBLISH: the new group parameter is read as the dynamic groups flag.\<close>

definition Server_Publish ::
  "u64 \<Rightarrow> u64 \<Rightarrow> FullTrackName \<Rightarrow> u64 \<Rightarrow> u8 \<Rightarrow> GroupOrder \<Rightarrow> KeyValuePair list \<Rightarrow> 't Transport \<Rightarrow> bool result \<times> 't Transport" where
  "Server_Publish cid request_id tfn track_alias forward group_order ps tr =
     (let tr = remember_request cid request_id tfn tr; ngr = map param_u64 (filter (is_param ParameterType_kNewGroupRequest) ps) in
      if \<exists>v \<in> set ngr. v > 1 then (Inl (Protocol_Violation ''DYNAMIC_GROUPS value MUST be <= 1''), tr)
      else (Inr True, emit (Ev_PublishReceived (connection_handle (conn_at cid tr)) request_id tfn track_alias forward group_order
              (delivery_timeout_of ps) (Some 1) (1 \<in> set ngr)) tr))"

definition Server_PublishOk ::
  "u64 \<Rightarrow> u64 \<Rightarrow> u8 \<Rightarrow> u8 \<Rightarrow> GroupOrder \<Rightarrow> FilterType \<Rightarrow> KeyValuePair list \<Rightarrow> 't Transport \<Rightarrow> 't Transport" where
  "Server_PublishOk cid request_id forward priority order filter_type ps tr =
     (case map_find (pub_by_request_id (conn_at cid tr)) request_id of
        None \<Rightarrow> tr
      | Some tfn \<Rightarrow>
          let tr = mod_conn cid (\<lambda>c. c\<lparr>pub_by_request_id := map_erase request_id (pub_by_request_id c)\<rparr>) tr;
              tr = remember_request cid request_id tfn tr
          in emit (Ev_SubscribeReceived (connection_handle (conn_at cid tr)) request_id tfn priority order (delivery_timeout_of ps)
               filter_type forward (new_group_request_of ps) True) tr)"

definition Server_SubscribeUpdate ::
  "'t env \<Rightarrow> u64 \<Rightarrow> u64 \<Rightarrow> u64 \<Rightarrow> u8 \<Rightarrow> KeyValuePair list \<Rightarrow> 't Transport \<Rightarrow> 't Transport" where
  "Server_SubscribeUpdate env cid request_id sub_rid forward ps tr =
     (case map_find (recv_req_id (conn_at cid tr)) sub_rid of
        None \<Rightarrow> track_not_found env cid request_id ''Subscription not found'' tr
      | Some ctx \<Rightarrow>
          let ngr = filter (is_param ParameterType_kNewGroupRequest) ps;
              tr = (case ngr of [] \<Rightarrow> tr | p # _ \<Rightarrow> emit (Ev_NewGroupRequested (sc_track_full_name ctx) (param_u64 p)) tr);
              alias = track_fullname_hash (sc_track_hash ctx); srcs = map_at [] (pub_tracks_by_track_alias (conn_at cid tr)) alias;
              tr = mod_conn cid (\<lambda>c. c\<lparr>pub_tracks_by_track_alias := map_put alias srcs (pub_tracks_by_track_alias c)\<rparr>) tr;
              status = (if forward = 0 then PublishStatus_kPaused
                        else if ngr \<noteq> [] then PublishStatus_kNewGroupRequested else PublishStatus_kSubscriptionUpdated)
          in fold (\<lambda>q. pub_SetStatus q status) (map snd srcs) tr)"

definition server_dispatch :: "'t env \<Rightarrow> u64 \<Rightarrow> CtrlMsg \<Rightarrow> 't Transport \<Rightarrow> bool result \<times> 't Transport" where
  "server_dispatch env cid msg tr =
     (let handle = connection_handle (conn_at cid tr) in
      case msg of
        Msg_Subscribe rid ns nm priority order forward filter_type _ _ ps \<Rightarrow>
          (Inr True, Server_Subscribe cid rid \<lparr>name_space = ns, name = nm\<rparr> priority order forward filter_type ps tr)
      | Msg_SubscribeOk rid alias _ _ _ location ps \<Rightarrow> (Inr True, recv_SubscribeOk cid rid alias location ps tr)
      | Msg_SubscribeError rid _ _ \<Rightarrow> (Inr True, recv_SubscribeError env cid rid tr)
      | Msg_TrackStatus rid ns nm priority order forward filter_type _ _ _ \<Rightarrow>
          (Inr True, emit (Ev_TrackStatusReceived handle rid \<lparr>name_space = ns, name = nm\<rparr> priority order filter_type forward) tr)
      | Msg_TrackStatusOk rid _ _ _ _ location _ \<Rightarrow>
          (Inr True, emit (Ev_TrackStatusResponseReceived handle rid SubscribeReason_kOk None location) tr)
      | Msg_TrackStatusError rid e reason \<Rightarrow>
          (Inr True, emit (Ev_TrackStatusResponseReceived handle rid (track_status_reason e) (Some reason) None) tr)
      | Msg_PublishNamespace rid ns _ \<Rightarrow> (Inr True, emit (Ev_PublishNamespaceReceived handle ns rid) tr)
      | Msg_SubscribeNamespace rid ns _ \<Rightarrow> (Inr True, emit (Ev_SubscribeNamespaceReceived handle ns rid) tr)
      | Msg_UnsubscribeNamespace ns \<Rightarrow> (Inr True, emit (Ev_UnsubscribeNamespaceReceived handle ns) tr)
      | Msg_PublishNamespaceError _ _ _ \<Rightarrow> (Inr True, tr)
      | Msg_PublishNamespaceDone ns \<Rightarrow> (Inr True, Server_PublishNamespaceDone env cid ns tr)
      | Msg_Unsubscribe rid \<Rightarrow> (Inr True, Server_Unsubscribe cid rid tr)
      | Msg_PublishDone rid _ _ _ \<Rightarrow> (Inr True, Server_PublishDone cid rid tr)
      | Msg_RequestsBlocked _ \<Rightarrow> (Inr True, tr)
      | Msg_PublishNamespaceCancel _ \<Rightarrow> (Inr True, tr)
      | Msg_Goaway _ \<Rightarrow> (Inr True, tr)
      | Msg_ClientSetup versions ps \<Rightarrow> (Inr True, Server_ClientSetup env cid versions ps tr)
      | Msg_FetchOk rid _ _ location _ \<Rightarrow> (Inr True, recv_FetchOk cid rid location tr)
      | Msg_FetchError rid _ _ \<Rightarrow> (Inr True, recv_FetchError cid rid tr)
      | Msg_Fetch rid priority order ft g0 g1 _ \<Rightarrow> Server_Fetch env cid rid priority order ft g0 g1 tr
      | Msg_FetchCancel rid \<Rightarrow> (Inr True, Client_FetchCancel cid rid tr)
      | Msg_Publish rid ns nm alias order _ _ forward ps \<Rightarrow>
          Server_Publish cid rid \<lparr>name_space = ns, name = nm\<rparr> alias forward order ps tr
      | Msg_PublishOk rid forward priority order filter_type _ _ ps \<Rightarrow>
          (Inr True, Server_PublishOk cid rid forward priority order filter_type ps tr)
      | Msg_SubscribeUpdate rid sub_rid _ _ _ forward ps \<Rightarrow> (Inr True, Server_SubscribeUpdate env cid rid sub_rid forward ps tr)
      | _ \<Rightarrow> (Inr False, tr))"

definition server_catch :: "'t env \<Rightarrow> u64 \<Rightarrow> exn \<Rightarrow> 't Transport \<Rightarrow> bool result \<times> 't Transport" where
  "server_catch env cid e tr =
     (if caught e then
        (Inr False, CloseConnection env (connection_handle (conn_at cid tr)) TerminationReason_kProtocolViolation tr)
      else (Inl e, tr))"

definition Server_ProcessCtrlMessage :: "'t env \<Rightarrow> 't ctrl_processor" where
  "Server_ProcessCtrlMessage env cid msg_bytes tr =
     (case bind_result (case ctrl_msg_type_received (conn_at cid tr) of None \<Rightarrow> Inl Undefined_Behaviour | Some t \<Rightarrow> Inr t)
             (\<lambda>t. get_msg env t msg_bytes) of
        Inl e \<Rightarrow> server_catch env cid e tr
      | Inr msg \<Rightarrow>
          (case server_dispatch env cid msg tr of
             (Inl e, tr) \<Rightarrow> server_catch env cid e tr
           | (Inr ok, tr) \<Rightarrow> (Inr ok, tr)))"

end
