(* ===== verification/Connection_Invariant.thy ===== *)
theory Connection_Invariant
  imports Server_Control
begin

section \<open>What no operation changes in a connection\<close>

text \<open>
  A relation between the transport before and after an operation: every connection stays, and keeps its handle, its
  control stream, the parity of its request ids and the order of its tables. Each operation of the application
  and each handler of a received message stays within it; the rules are collected in \<open>evolve\<close> and read from
  the outermost operation inwards.
\<close>

named_theorems evolve
named_theorems evolve_simps

definition map_all :: "('v \<Rightarrow> bool) \<Rightarrow> ('k, 'v) std_map \<Rightarrow> bool" where
  "map_all P m \<longleftrightarrow> (\<forall>x \<in> set m. P (snd x))"

definition conn_wf :: "ConnectionContext \<Rightarrow> bool" where
  "conn_wf c \<longleftrightarrow> map_wf (recv_req_id c) \<and> map_wf (sub_tracks_by_request_id c) \<and> map_wf (sub_by_recv_track_alias c) \<and>
     map_wf (pub_tracks_by_name c) \<and> map_all map_wf (pub_tracks_by_name c) \<and>
     map_wf (pub_tracks_by_track_alias c) \<and> map_all map_wf (pub_tracks_by_track_alias c) \<and>
     map_wf (pub_tracks_ns_by_request_id c) \<and> map_wf (pub_namespaces_by_request_id c) \<and> map_wf (pub_by_request_id c) \<and>
     map_wf (pub_tracks_by_request_id c) \<and> map_wf (pub_tracks_by_data_ctx_id c) \<and>
     map_wf (pub_fetch_tracks_by_request_id c) \<and> map_wf (sub_namespace_prefix_by_request_id c)"

definition conn_evolves :: "ConnectionContext \<Rightarrow> ConnectionContext \<Rightarrow> bool" where
  "conn_evolves c c' \<longleftrightarrow> connection_handle c' = connection_handle c \<and> (ctrl_data_ctx_id c \<noteq> None \<longrightarrow> ctrl_data_ctx_id c' = ctrl_data_ctx_id c) \<and>
     odd (next_request_id c') = odd (next_request_id c) \<and> (conn_wf c \<longrightarrow> conn_wf c')"

definition evolves :: "'t Transport \<Rightarrow> 't Transport \<Rightarrow> bool" where
  "evolves tr tr' \<longleftrightarrow> (\<forall>k. conn_evolves (conn_at k tr) (conn_at k tr')) \<and>
     (\<forall>k. map_find (connections tr) k \<noteq> None \<longrightarrow> map_find (connections tr') k \<noteq> None) \<and>
     (map_wf (connections tr) \<longrightarrow> map_wf (connections tr')) \<and> client_mode tr' = client_mode tr"

lemma mod_pub_frame [simp]:
  "subs (mod_pub h f tr) = subs tr" "quic (mod_pub h f tr) = quic tr" "events (mod_pub h f tr) = events tr"
  "pubs (mod_pub h f tr) = (pubs tr)(h := (pubs tr h)\<lparr>pb_handler := f (pb_handler (pubs tr h))\<rparr>)"
  "connections (mod_pub h f tr) = connections tr" "conn_at cid (mod_pub h f tr) = conn_at cid tr"
  "client_mode (mod_pub h f tr) = client_mode tr" "alive (mod_pub h f tr) = alive tr"
  by (simp_all add: mod_pub_def)

lemma map_all_simps [evolve_simps]:
  "map_all P []" "map_all P m \<Longrightarrow> map_all P (map_erase k m)"
  by (auto simp: map_all_def map_erase_def)

lemma map_all_put [evolve_simps]: "map_all P m \<Longrightarrow> P v \<Longrightarrow> map_all P (map_put k v m)"
  by (induction k v m rule: map_put.induct) (auto simp: map_all_def)

lemma map_all_find: "map_all P m \<Longrightarrow> map_find m k = Some v \<Longrightarrow> P v"
  unfolding map_all_def by (drule map_of_SomeD) force

lemma map_all_at [evolve_simps]: "map_all map_wf m \<Longrightarrow> map_wf (map_at [] m k)"
  using map_all_find [of map_wf m k] by (simp add: map_at_def split: option.splits)

lemma erase_prefix_wf: "map_wf m \<Longrightarrow> map_wf (erase_prefix pfx m)"
proof (induction pfx m rule: erase_prefix.induct)
  case (2 pfx rid ns m)
  have "set (erase_prefix pfx m) \<subseteq> set m" by (induction pfx m rule: erase_prefix.induct) auto
  with 2 show ?case by (fastforce simp: map_wf_def)
qed simp

lemmas wf_simps [evolve_simps] = map_put_wf map_erase_wf erase_prefix_wf

lemma conn_evolves_refl [simp]: "conn_evolves c c"
  by (simp add: conn_evolves_def)

lemma conn_evolves_trans: "conn_evolves c c' \<Longrightarrow> conn_evolves c' c'' \<Longrightarrow> conn_evolves c c''"
  by (auto simp: conn_evolves_def)

lemma evolves_refl [simp, evolve]: "evolves tr tr"
  by (simp add: evolves_def)

lemma evolves_frame [evolve_simps]:
  "evolves t (put_sub h s tr) = evolves t tr" "evolves t (put_pub h p tr) = evolves t tr" "evolves t (emit e tr) = evolves t tr"
  "evolves t (tr\<lparr>quic := q\<rparr>) = evolves t tr" "evolves t (tr\<lparr>tr_status := st\<rparr>) = evolves t tr"
  "evolves t (tr\<lparr>tr_stop := b\<rparr>) = evolves t tr" "evolves t (tr\<lparr>next_ptr := n, alive := a\<rparr>) = evolves t tr"
  "evolves t (send env c msg tr) = evolves t tr" "evolves t (sub_SetStatus h ss tr) = evolves t tr"
  "evolves t (pub_SetStatus h ps tr) = evolves t tr" "evolves t (mod_pub h f tr) = evolves t tr"
  "evolves t (CloseConnection env cid r tr) = evolves t tr"
  by (simp_all add: evolves_def mod_pub_def)

lemma put_conn_wf: "map_wf (connections tr) \<Longrightarrow> map_wf (connections (put_conn cid c tr))"
  by (simp add: put_conn_def map_put_wf)

lemma evolves_put_conn [evolve]:
  "evolves t tr \<Longrightarrow> conn_evolves (conn_at cid tr) c \<Longrightarrow> evolves t (put_conn cid c tr)"
  by (auto simp: evolves_def put_conn_wf intro: conn_evolves_trans)

lemma evolves_mod_conn [evolve]:
  "evolves t tr \<Longrightarrow> (\<And>c. conn_evolves c (f c)) \<Longrightarrow> evolves t (mod_conn cid f tr)"
  unfolding mod_conn_def by (rule evolves_put_conn)

lemma evolves_fold [evolve]:
  assumes "\<And>t x tr. evolves t tr \<Longrightarrow> evolves t (f x tr)" "evolves t tr" shows "evolves t (fold f xs tr)"
  using assms(2) by (induction xs arbitrary: tr) (auto intro: assms(1))

lemmas evolve_defs = Let_def case_prod_unfold Send_defs conn_evolves_def conn_wf_def

lemma odd_next [evolve_simps]: "odd (2 + n :: u64) = odd n" "odd (n + 2 :: u64) = odd n"
  by simp_all

subsection \<open>Operations of the application\<close>

lemma evolves_send_joining_fetch [evolve]:
  "evolves t tr \<Longrightarrow> evolves t (send_joining_fetch env cid h rid tr)"
  by (auto simp: send_joining_fetch_def evolve_defs evolve_simps intro!: evolve split: option.splits)

lemma evolves_SubscribeTrack [evolve]: "evolves t tr \<Longrightarrow> evolves t (snd (SubscribeTrack env cid h tr))"
  by (auto simp: SubscribeTrack_def evolve_defs evolve_simps conn_at_found intro!: evolve split: option.splits)

lemma evolves_RemoveSubscribeTrack [evolve]:
  "evolves t tr \<Longrightarrow> evolves t (RemoveSubscribeTrack env cid h rm tr)"
  by (auto simp: RemoveSubscribeTrack_def evolve_defs evolve_simps intro!: evolve split: option.splits)

lemma evolves_UnsubscribeTrack [evolve]: "evolves t tr \<Longrightarrow> evolves t (UnsubscribeTrack env cid h tr)"
  by (auto simp: UnsubscribeTrack_def evolve_defs evolve_simps intro!: evolve split: option.splits)

lemma evolves_UpdateTrackSubscription [evolve]:
  "evolves t tr \<Longrightarrow> evolves t (UpdateTrackSubscription env cid h tr)"
  by (auto simp: UpdateTrackSubscription_def evolve_defs evolve_simps conn_at_found intro!: evolve split: option.splits)

lemma evolves_send_update [evolve]: "evolves t tr \<Longrightarrow> evolves t (snd (send_update env h g forward ng tr))"
  by (auto simp: send_update_def evolve_defs evolve_simps conn_at_found intro!: evolve split: option.splits)

lemma evolves_Pause [evolve]: "evolves t tr \<Longrightarrow> evolves t (snd (Pause env h tr))"
  by (auto simp: Pause_def evolve_defs evolve_simps intro!: evolve split: option.splits)

lemma evolves_Resume [evolve]: "evolves t tr \<Longrightarrow> evolves t (snd (Resume env h tr))"
  by (auto simp: Resume_def evolve_defs evolve_simps intro!: evolve split: option.splits)

lemma evolves_RequestNewGroup [evolve]: "evolves t tr \<Longrightarrow> evolves t (snd (RequestNewGroup env h g tr))"
  by (auto simp: RequestNewGroup_def evolve_defs evolve_simps intro!: evolve split: option.splits)

lemma evolves_unpublish_name [evolve]:
  assumes "evolves t tr" "map_find (pub_tracks_by_name (conn_at cid tr)) (track_namespace_hash th) = Some names"
  shows "evolves t (unpublish_name env cid th names tr)"
  using assms(1) map_all_find [OF _ assms(2), of map_wf]
  by (auto simp: unpublish_name_def mod_conn_def evolve_defs evolve_simps intro!: evolves_put_conn split: option.splits)

lemma evolves_UnpublishTrack [evolve]: "evolves t tr \<Longrightarrow> evolves t (snd (UnpublishTrack env cid h tr))"
  by (auto simp: UnpublishTrack_def evolve_defs evolve_simps conn_at_found intro!: evolve split: option.splits)

lemma evolves_announce_track [evolve]: "evolves t tr \<Longrightarrow> evolves t (snd (announce_track env cid h rid th tr))"
  by (auto simp: announce_track_def evolve_defs evolve_simps intro!: evolve split: option.splits list.splits)

lemma evolves_publish_track [evolve]: "evolves t tr \<Longrightarrow> evolves t (publish_track env cid h rid th tr)"
  by (auto simp: publish_track_def evolve_defs evolve_simps intro!: evolve split: option.splits)

lemma evolves_bind_publisher [evolve]: "evolves t tr \<Longrightarrow> evolves t (bind_publisher env cid h tr)"
  by (auto simp: bind_publisher_def evolve_defs evolve_simps intro!: evolve split: option.splits)

lemma evolves_hold_publisher [evolve]: "evolves t tr \<Longrightarrow> evolves t (hold_publisher cid h src th tr)"
  by (auto simp: hold_publisher_def evolve_defs evolve_simps intro!: evolve split: option.splits)

lemma evolves_PublishTrack [evolve]: "evolves t tr \<Longrightarrow> evolves t (snd (PublishTrack env cid h tr))"
  by (auto simp: PublishTrack_def evolve_defs evolve_simps conn_at_found intro!: evolve split: option.splits sum.splits)

lemma evolves_FetchTrack [evolve]: "evolves t tr \<Longrightarrow> evolves t (FetchTrack env cid h tr)"
  by (auto simp: FetchTrack_def evolve_defs evolve_simps conn_at_found intro!: evolve split: option.splits)

lemma evolves_CancelFetchTrack [evolve]: "evolves t tr \<Longrightarrow> evolves t (CancelFetchTrack env cid h tr)"
  by (auto simp: CancelFetchTrack_def evolve_defs evolve_simps conn_at_found intro!: evolve split: option.splits)

lemma evolves_RequestTrackStatus [evolve]:
  "evolves t tr \<Longrightarrow> evolves t (snd (RequestTrackStatus env cid tfn tr))"
  by (auto simp: RequestTrackStatus_def evolve_defs evolve_simps conn_at_found intro!: evolve split: option.splits)

lemma evolves_ResolveTrackStatus [evolve]:
  "evolves t tr \<Longrightarrow> evolves t (ResolveTrackStatus env cid rid reason err l tr)"
  by (auto simp: ResolveTrackStatus_def evolve_defs evolve_simps intro!: evolve split: option.splits SubscribeReason.splits)

lemma evolves_fan_out_publish [evolve]: "evolves t tr \<Longrightarrow> evolves t (fan_out_publish env a l handle tr)"
  by (auto simp: fan_out_publish_def evolve_defs evolve_simps conn_at_found intro!: evolve split: option.splits)

lemma evolves_ResolvePublish [evolve]:
  "evolves t tr \<Longrightarrow> evolves t (ResolvePublish env cid rid a reason l hs tr)"
  by (auto simp: ResolvePublish_def evolve_defs evolve_simps intro!: evolve split: option.splits PublishReason.splits)

lemma evolves_SendSubscribeNamespace [evolve]:
  "evolves t tr \<Longrightarrow> evolves t (SendSubscribeNamespace env cid pfx tr)"
  by (auto simp: SendSubscribeNamespace_def evolve_defs evolve_simps conn_at_found intro!: evolve split: option.splits)

lemma evolves_SendUnsubscribeNamespace [evolve]:
  "evolves t tr \<Longrightarrow> evolves t (SendUnsubscribeNamespace env cid pfx tr)"
  by (auto simp: SendUnsubscribeNamespace_def evolve_defs evolve_simps conn_at_found intro!: evolve split: option.splits)

lemma evolves_OnStreamClosed [evolve]: "evolves t tr \<Longrightarrow> evolves t (snd (OnStreamClosed caller flag tr))"
  by (auto simp: OnStreamClosed_def evolve_defs evolve_simps intro!: evolve split: option.splits)

subsection \<open>Received data\<close>

lemma evolves_set_ctrl [evolve]: "evolves t tr \<Longrightarrow> evolves t (set_ctrl cid ty buf tr)"
  by (auto simp: set_ctrl_def evolve_defs evolve_simps intro!: evolve split: option.splits)

lemma evolves_count_invalid_ctrl [evolve]: "evolves t tr \<Longrightarrow> evolves t (count_invalid_ctrl cid tr)"
  by (auto simp: count_invalid_ctrl_def evolve_defs evolve_simps intro!: evolve split: option.splits)

lemma evolves_emit_objects [evolve]: "evolves t tr \<Longrightarrow> evolves t (emit_objects h rs tr)"
  by (auto simp: emit_objects_def evolve_simps intro!: evolves_fold)

lemma evolves_handler_StreamDataRecv [evolve]:
  "evolves t tr \<Longrightarrow> evolves t (snd (handler_StreamDataRecv env h st sid data tr))"
  by (auto simp: handler_StreamDataRecv_def evolve_defs evolve_simps intro!: evolve split: option.splits sum.splits)

lemma evolves_count_unknown_stream [evolve]: "evolves t tr \<Longrightarrow> evolves t (count_unknown_stream cid tr)"
  by (auto simp: count_unknown_stream_def evolve_defs evolve_simps intro!: evolve split: option.splits)

lemma evolves_OnRecvSubgroup [evolve]:
  "evolves t tr \<Longrightarrow> evolves t (snd (snd (OnRecvSubgroup env ty cursor sid cid data rx tr)))"
  by (auto simp: OnRecvSubgroup_def evolve_defs evolve_simps intro!: evolve split: option.splits sum.splits exn.splits)

lemma evolves_OnRecvFetch [evolve]:
  "evolves t tr \<Longrightarrow> evolves t (snd (snd (OnRecvFetch env cursor sid cid data rx tr)))"
  by (auto simp: OnRecvFetch_def evolve_defs evolve_simps intro!: evolve split: option.splits sum.splits exn.splits)

lemma evolves_new_data_stream [evolve]:
  "evolves t tr \<Longrightarrow> evolves t (snd (snd (new_data_stream env cid sid data rx tr)))"
  by (auto simp: new_data_stream_def evolve_defs evolve_simps intro!: evolve split: sum.splits)

lemma evolves_continue_data_stream [evolve]:
  assumes "evolves t tr" shows "evolves t (continue_data_stream env cid sid h data tr)"
  using evolves_handler_StreamDataRecv [OF assms, of env h False sid data] assms
  by (auto simp: continue_data_stream_def evolve_simps split: prod.splits sum.splits exn.splits)

lemma evolves_mod_metrics [evolve]: "evolves t tr \<Longrightarrow> evolves t (mod_metrics cid f tr)"
  by (auto simp: mod_metrics_def evolve_defs evolve_simps intro!: evolve split: option.splits)

lemma evolves_recv_dgram [evolve]: "evolves t tr \<Longrightarrow> evolves t (snd (recv_dgram env cid data tr))"
  by (auto simp: recv_dgram_def evolve_defs evolve_simps intro!: evolve split: option.splits sum.splits exn.splits bool.splits)

lemma evolves_recv_dgrams [evolve]: "evolves t tr \<Longrightarrow> evolves t (snd (recv_dgrams env cid queue tr))"
proof (induction env cid queue tr rule: recv_dgrams.induct)
  case (2 env cid data queue tr)
  then show ?case
    using evolves_recv_dgram [OF 2(2), of env cid data]
    by (cases "recv_dgram env cid data tr"; cases "fst (recv_dgram env cid data tr)") auto
qed simp

lemma evolves_OnRecvDgram: "evolves tr (snd (OnRecvDgram env cid queue tr))"
  by (simp add: OnRecvDgram_def evolves_recv_dgrams)

text \<open>The control stream, for a processor that stays within the relation.\<close>

definition evolving :: "'t ctrl_processor \<Rightarrow> bool" where
  "evolving process \<longleftrightarrow> (\<forall>cid bs tr. evolves tr (snd (process cid bs tr)))"

lemma evolves_trans: "evolves t tr \<Longrightarrow> evolves tr tr' \<Longrightarrow> evolves t tr'"
  by (auto simp: evolves_def intro: conn_evolves_trans)

lemma evolves_ctrl_loop:
  assumes "evolving process"
  shows "evolves t tr \<Longrightarrow> evolves t (snd (ctrl_loop process cid ty buf tr))"
  using assms
proof (induction process cid ty buf tr rule: ctrl_loop.induct)
  case (1 process cid ty buf tr)
  have step: "evolves t tr'" if "process cid bs (set_ctrl cid ty' buf' tr) = (r, tr')" for bs ty' buf' r tr'
    using evolves_trans [OF evolves_set_ctrl [OF 1(2)]] 1(3) that unfolding evolving_def by (metis snd_conv)
  then have "evolves t (if ok then tr' else count_invalid_ctrl cid tr')"
    if "process cid bs (set_ctrl cid ty' buf' tr) = (Inr ok, tr')" for bs ty' buf' ok tr'
    using that by (auto intro!: evolves_count_invalid_ctrl)
  then show ?case
    using 1 step by (subst ctrl_loop.simps) (auto intro: evolve split: option.splits prod.splits sum.splits)
qed

lemma evolves_recv_ctrl:
  assumes "evolving process" "evolves t tr"
  shows "evolves t (snd (recv_ctrl env process cid ctx data tr))"
  unfolding recv_ctrl_def Let_def case_prod_unfold
  by (auto simp: evolve_defs evolve_simps intro!: evolves_ctrl_loop evolve assms)

lemma evolves_recv_loop:
  assumes "evolving process"
  shows "evolves t tr \<Longrightarrow> evolves t (snd (snd (recv_loop env process cid sid ctx bidir i rx tr)))"
  using assms
proof (induction env process cid sid ctx bidir i rx tr rule: recv_loop.induct)
  case (1 env process cid sid ctx bidir i rx tr)
  have c: "evolves t tr'" if "recv_ctrl env process cid ctx data tr = (r, tr')" for data r tr'
    using evolves_recv_ctrl [OF 1(6,5), of env cid ctx data] that by simp
  have n: "evolves t tr'" if "new_data_stream env cid sid data rx tr = (r, rx', tr')" for data r rx' tr'
    using evolves_new_data_stream [OF 1(5), of env cid sid data rx] that by simp
  have k: "evolves t (continue_data_stream env cid sid h data tr)" for h data
    using 1(5) by (rule evolves_continue_data_stream)
  show ?case
  proof (cases "(i \<ge> kReadLoopMaxPerStream \<or> sq_Empty (rx_queue rx)) \<or> sq_Front (rx_queue rx) = None")
    case True
    then show ?thesis using 1(5) by (auto simp: recv_loop.simps)
  next
    case False
    then obtain data where go: "\<not> (i \<ge> kReadLoopMaxPerStream \<or> sq_Empty (rx_queue rx))"
      and data: "sq_Front (rx_queue rx) = Some data" by blast
    consider (ctrl) bidir | (new) "\<not> bidir" "rx_is_new rx" | (old) "\<not> bidir" "\<not> rx_is_new rx" by blast
    then show ?thesis
    proof cases
      case ctrl
      obtain r tr' where r: "recv_ctrl env process cid ctx data tr = (r, tr')" by fastforce
      show ?thesis
        using go data ctrl r c [OF r] 1(1) [OF go data ctrl r [symmetric] _ _ c [OF r] 1(6)]
        by (subst recv_loop.simps) (auto split: sum.splits ctrl_outcome.splits)
    next
      case new
      obtain r rx' tr' where r: "new_data_stream env cid sid data rx tr = (r, rx', tr')" by (metis prod_cases3)
      show ?thesis
        using go data new r n [OF r] 1(2) [OF go data new r [symmetric] _ _ _ refl n [OF r] 1(6)]
        by (subst recv_loop.simps) (auto split: sum.splits option.splits bool.splits)
    next
      case old
      then show ?thesis
        using go data 1(5,6) 1(3) [OF go data old] 1(4) [OF go data old _ k]
        by (subst recv_loop.simps) (auto split: option.splits)
    qed
  qed
qed

lemma evolves_OnRecvStream:
  assumes "evolving process" shows "evolves tr (snd (snd (OnRecvStream env process cid sid ctx bidir rx tr)))"
  using assms by (auto simp: OnRecvStream_def Let_def case_prod_unfold intro!: evolves_recv_loop evolve split: option.splits)

subsection \<open>Messages\<close>

lemma evolves_Client_ResolveSubscribe [evolve]:
  "evolves t tr \<Longrightarrow> evolves t (Client_ResolveSubscribe env cid rid alias reason l tr)"
  by (auto simp: Client_ResolveSubscribe_def evolve_defs evolve_simps intro!: evolve split: option.splits)

lemma evolves_Client_ResolveFetch [evolve]:
  "evolves t tr \<Longrightarrow> evolves t (snd (Client_ResolveFetch env cid rid priority order reason err l tr))"
  by (auto simp: Client_ResolveFetch_def evolve_defs evolve_simps intro!: evolve split: option.splits)

lemma evolves_bind_fetch_track [evolve]: "evolves t tr \<Longrightarrow> evolves t (bind_fetch_track env cid h rid tr)"
  by (auto simp: bind_fetch_track_def evolve_defs evolve_simps intro!: evolve split: option.splits)

lemma evolves_Client_BindFetchTrack [evolve]:
  "evolves t tr \<Longrightarrow> evolves t (snd (Client_BindFetchTrack env cid h tr))"
  by (auto simp: Client_BindFetchTrack_def evolve_defs evolve_simps intro!: evolve split: option.splits)

lemma evolves_UnbindFetchTrack [evolve]: "evolves t tr \<Longrightarrow> evolves t (snd (UnbindFetchTrack env cid h tr))"
  by (auto simp: UnbindFetchTrack_def evolve_defs evolve_simps intro!: evolve split: option.splits)

lemma evolves_track_not_found [evolve]: "evolves t tr \<Longrightarrow> evolves t (track_not_found env cid rid reason tr)"
  by (auto simp: track_not_found_def evolve_defs evolve_simps intro!: evolve split: option.splits)

lemma evolves_Client_Subscribe [evolve]:
  "evolves t tr \<Longrightarrow> evolves t (snd (Client_Subscribe env cid rid tfn tr))"
  by (auto simp: Client_Subscribe_def evolve_defs evolve_simps intro!: evolve split: option.splits)

lemma evolves_request_new_group [evolve]: "evolves t tr \<Longrightarrow> evolves t (request_new_group q g tr)"
  by (auto simp: request_new_group_def evolve_defs evolve_simps intro!: evolve split: option.splits)

lemma evolves_Client_SubscribeUpdate [evolve]:
  "evolves t tr \<Longrightarrow> evolves t (snd (Client_SubscribeUpdate env cid rid sub_rid forward ps tr))"
  by (auto simp: Client_SubscribeUpdate_def evolve_defs evolve_simps intro!: evolve split: option.splits list.splits)

lemma evolves_Client_Unsubscribe [evolve]: "evolves t tr \<Longrightarrow> evolves t (Client_Unsubscribe cid rid tr)"
  by (auto simp: Client_Unsubscribe_def evolve_defs evolve_simps intro!: evolve split: option.splits)

lemma evolves_Client_Publish [evolve]:
  "evolves t tr \<Longrightarrow> evolves t (Client_Publish env cid rid tfn alias forward order ps tr)"
  by (auto simp: Client_Publish_def evolve_defs evolve_simps intro!: evolve split: option.splits)

lemma evolves_standalone_fetch [evolve]:
  "evolves t tr \<Longrightarrow> evolves t (snd (standalone_fetch cid rid priority order g tr))"
  by (auto simp: standalone_fetch_def evolve_defs evolve_simps intro!: evolve split: option.splits)

lemma evolves_joining_fetch [evolve]:
  "evolves t tr \<Longrightarrow> evolves t (snd (joining_fetch env cid rid priority order relative g tr))"
  by (auto simp: joining_fetch_def evolve_defs evolve_simps intro!: evolve split: option.splits)

lemma evolves_Client_Fetch [evolve]:
  "evolves t tr \<Longrightarrow> evolves t (snd (Client_Fetch env cid rid priority order ft g0 g1 tr))"
  by (auto simp: Client_Fetch_def evolve_defs evolve_simps intro!: evolve split: FetchType.splits)

lemma evolves_Client_FetchCancel [evolve]: "evolves t tr \<Longrightarrow> evolves t (Client_FetchCancel cid rid tr)"
  by (auto simp: Client_FetchCancel_def evolve_defs evolve_simps intro!: evolve split: option.splits)

lemma evolves_set_latest_location [evolve]: "evolves t tr \<Longrightarrow> evolves t (set_latest_location h l tr)"
  by (auto simp: set_latest_location_def evolve_defs evolve_simps intro!: evolve split: option.splits)

lemma evolves_recv_SubscribeOk [evolve]: "evolves t tr \<Longrightarrow> evolves t (recv_SubscribeOk cid rid alias l ps tr)"
  by (auto simp: recv_SubscribeOk_def evolve_defs evolve_simps intro!: evolve split: option.splits)

lemma evolves_recv_SubscribeError [evolve]: "evolves t tr \<Longrightarrow> evolves t (recv_SubscribeError env cid rid tr)"
  by (auto simp: recv_SubscribeError_def evolve_defs evolve_simps intro!: evolve split: option.splits)

lemma evolves_Client_PublishNamespaceOk [evolve]:
  "evolves t tr \<Longrightarrow> evolves t (snd (Client_PublishNamespaceOk cid rid tr))"
  by (auto simp: Client_PublishNamespaceOk_def evolve_defs evolve_simps intro!: evolve split: option.splits)

lemma evolves_Client_SubscribeNamespaceStatus [evolve]:
  "evolves t tr \<Longrightarrow> evolves t (Client_SubscribeNamespaceStatus cid rid err tr)"
  by (auto simp: Client_SubscribeNamespaceStatus_def evolve_defs evolve_simps intro!: evolve split: option.splits)

lemma evolves_recv_PublishDone [evolve]: "evolves t tr \<Longrightarrow> evolves t (recv_PublishDone cid rid tr)"
  by (auto simp: recv_PublishDone_def evolve_defs evolve_simps intro!: evolve split: option.splits)

lemma evolves_Client_ServerSetup [evolve]: "evolves t tr \<Longrightarrow> evolves t (Client_ServerSetup cid version ps tr)"
  by (auto simp: Client_ServerSetup_def evolve_defs evolve_simps intro!: evolve split: list.splits)

lemma evolves_recv_FetchOk [evolve]: "evolves t tr \<Longrightarrow> evolves t (recv_FetchOk cid rid l tr)"
  by (auto simp: recv_FetchOk_def evolve_defs evolve_simps intro!: evolve split: option.splits)

lemma evolves_recv_FetchError [evolve]: "evolves t tr \<Longrightarrow> evolves t (recv_FetchError cid rid tr)"
  by (auto simp: recv_FetchError_def evolve_defs evolve_simps intro!: evolve split: option.splits)

lemma evolves_Client_PublishOk [evolve]: "evolves t tr \<Longrightarrow> evolves t (snd (Client_PublishOk cid rid l g tr))"
  by (auto simp: Client_PublishOk_def evolve_defs evolve_simps intro!: evolve split: option.splits)

lemma evolves_client_dispatch: "evolves t tr \<Longrightarrow> evolves t (snd (client_dispatch env cid msg tr))"
  by (cases msg) (auto simp: client_dispatch_def Let_def evolve_simps intro!: evolve)

lemma evolving_client: "evolving (Client_ProcessCtrlMessage env)"
  using evolves_client_dispatch [OF evolves_refl, where env = env]
  by (auto simp: evolving_def Client_ProcessCtrlMessage_def split: sum.splits prod.splits) (metis snd_conv)+

lemma evolves_announce_to [evolve]: "evolves t tr \<Longrightarrow> evolves t (announce_to env ns handle tr)"
  by (auto simp: announce_to_def evolve_defs evolve_simps conn_at_found intro!: evolve split: option.splits)

lemma evolves_ResolvePublishNamespace [evolve]:
  "evolves t tr \<Longrightarrow> evolves t (ResolvePublishNamespace env cid rid ns hs ok tr)"
  by (auto simp: ResolvePublishNamespace_def evolve_defs evolve_simps intro!: evolve split: option.splits)

lemma evolves_withdraw_from [evolve]: "evolves t tr \<Longrightarrow> evolves t (withdraw_from env ns handle tr)"
  by (auto simp: withdraw_from_def evolve_defs evolve_simps intro!: evolve split: option.splits)

lemma evolves_ResolvePublishNamespaceDone [evolve]:
  "evolves t tr \<Longrightarrow> evolves t (ResolvePublishNamespaceDone env ns hs tr)"
  by (auto simp: ResolvePublishNamespaceDone_def evolve_defs evolve_simps intro!: evolve split: option.splits)

lemma evolves_announce_matching [evolve]: "evolves t tr \<Longrightarrow> evolves t (announce_matching env cid pfx ns tr)"
  by (auto simp: announce_matching_def evolve_defs evolve_simps intro!: evolve split: option.splits)

lemma evolves_publish_matching [evolve]: "evolves t tr \<Longrightarrow> evolves t (publish_matching env cid track tr)"
  by (auto simp: publish_matching_def evolve_defs evolve_simps intro!: evolve split: option.splits)

lemma evolves_ResolveSubscribeNamespace [evolve]:
  "evolves t tr \<Longrightarrow> evolves t (ResolveSubscribeNamespace env cid rid pfx ok nss tracks tr)"
  by (auto simp: ResolveSubscribeNamespace_def evolve_defs evolve_simps intro!: evolve split: option.splits)

lemma evolves_Server_ResolveSubscribe [evolve]:
  "evolves t tr \<Longrightarrow> evolves t (Server_ResolveSubscribe env cid rid alias reason pi l tr)"
  by (auto simp: Server_ResolveSubscribe_def evolve_defs evolve_simps conn_at_found intro!: evolve split: option.splits)

lemma evolves_Server_ResolveFetch [evolve]:
  "evolves t tr \<Longrightarrow> evolves t (snd (Server_ResolveFetch env cid rid priority order reason err l tr))"
  by (auto simp: Server_ResolveFetch_def evolve_defs evolve_simps intro!: evolve split: option.splits)

lemma evolves_Server_BindFetchTrack [evolve]:
  "evolves t tr \<Longrightarrow> evolves t (snd (Server_BindFetchTrack env cid h tr))"
  by (auto simp: Server_BindFetchTrack_def evolve_defs evolve_simps intro!: evolve split: option.splits)

lemma evolves_SendFetchObject [evolve]:
  "evolves t tr \<Longrightarrow> evolves t (snd (SendFetchObject env h priority ttl hdr g sg oid exts data tr))"
  by (auto simp: SendFetchObject_def evolve_defs evolve_simps intro!: evolve split: option.splits sum.splits)

lemma evolves_BindPublisherTrack [evolve]:
  "evolves t tr \<Longrightarrow> evolves t (BindPublisherTrack env cid src rid h ephemeral tr)"
  by (auto simp: BindPublisherTrack_def evolve_defs evolve_simps intro!: evolve split: option.splits)

lemma evolves_UnbindPublisherTrack [evolve]:
  "evolves t tr \<Longrightarrow> evolves t (snd (UnbindPublisherTrack env cid src h tr))"
  by (auto simp: UnbindPublisherTrack_def evolve_defs evolve_simps conn_at_found intro!: evolve split: option.splits)

lemma evolves_remember_request [evolve]: "evolves t tr \<Longrightarrow> evolves t (remember_request cid rid tfn tr)"
  by (auto simp: remember_request_def evolve_defs evolve_simps intro!: evolve split: option.splits)

lemma evolves_Server_Subscribe [evolve]:
  "evolves t tr \<Longrightarrow> evolves t (Server_Subscribe cid rid tfn priority order forward ft ps tr)"
  by (auto simp: Server_Subscribe_def evolve_defs evolve_simps intro!: evolve split: option.splits)

lemma evolves_Server_PublishNamespaceDone [evolve]:
  "evolves t tr \<Longrightarrow> evolves t (Server_PublishNamespaceDone env cid ns tr)"
  by (auto simp: Server_PublishNamespaceDone_def evolve_defs evolve_simps intro!: evolve split: option.splits)

lemma evolves_Server_Unsubscribe [evolve]: "evolves t tr \<Longrightarrow> evolves t (Server_Unsubscribe cid rid tr)"
  by (auto simp: Server_Unsubscribe_def evolve_defs evolve_simps intro!: evolve split: option.splits)

lemma evolves_Server_PublishDone [evolve]: "evolves t tr \<Longrightarrow> evolves t (Server_PublishDone cid rid tr)"
  by (auto simp: Server_PublishDone_def evolve_defs evolve_simps intro!: evolve split: option.splits)

lemma evolves_Server_ClientSetup [evolve]:
  "evolves t tr \<Longrightarrow> evolves t (Server_ClientSetup env cid versions ps tr)"
  by (auto simp: Server_ClientSetup_def evolve_defs evolve_simps intro!: evolve split: list.splits)

lemma evolves_Server_Fetch [evolve]:
  "evolves t tr \<Longrightarrow> evolves t (snd (Server_Fetch env cid rid priority order ft g0 g1 tr))"
  by (auto simp: Server_Fetch_def evolve_defs evolve_simps intro!: evolve split: FetchType.splits)

lemma evolves_Server_Publish [evolve]:
  "evolves t tr \<Longrightarrow> evolves t (snd (Server_Publish cid rid tfn alias forward order ps tr))"
  by (auto simp: Server_Publish_def evolve_defs evolve_simps intro!: evolve split: option.splits)

lemma evolves_Server_PublishOk [evolve]:
  "evolves t tr \<Longrightarrow> evolves t (Server_PublishOk cid rid forward priority order ft ps tr)"
  by (auto simp: Server_PublishOk_def evolve_defs evolve_simps intro!: evolve split: option.splits)

lemma evolves_Server_SubscribeUpdate [evolve]:
  "evolves t tr \<Longrightarrow> evolves t (Server_SubscribeUpdate env cid rid sub_rid forward ps tr)"
  by (auto simp: Server_SubscribeUpdate_def mod_conn_def evolve_defs evolve_simps intro!: evolve split: option.splits list.splits)

lemma evolves_server_dispatch: "evolves t tr \<Longrightarrow> evolves t (snd (server_dispatch env cid msg tr))"
  by (cases msg) (auto simp: server_dispatch_def Let_def evolve_simps intro!: evolve)

lemma evolving_server: "evolving (Server_ProcessCtrlMessage env)"
  using evolves_server_dispatch [OF evolves_refl, where env = env]
  by (auto simp: evolving_def Server_ProcessCtrlMessage_def server_catch_def evolve_simps split: sum.splits prod.splits)
    (metis snd_conv)+

end
