(* ===== verification/Transport_Start.thy ===== *)
theory Transport_Start
  imports Transport_Recv
begin

section \<open>Starting a transport\<close>

text \<open>
  \<^verbatim>\<open>ParseConnectUri\<close> and \<^verbatim>\<open>Start\<close> of \<^verbatim>\<open>src/transport.cpp\<close>, with the parts of the standard library
  they use: \<^verbatim>\<open>std::search\<close>, \<^verbatim>\<open>std::find\<close> and \<^verbatim>\<open>std::stoi\<close>.
\<close>

subsection \<open>The connect URI\<close>

text \<open>What follows the first occurrence of a pattern.\<close>

fun after :: "string \<Rightarrow> string \<Rightarrow> string option" where
  "after pat [] = (if pat = [] then Some [] else None)"
| "after pat (c # cs) = (if take (length pat) (c # cs) = pat then Some (drop (length pat) (c # cs)) else after pat cs)"

definition is_digit :: "char \<Rightarrow> bool" where
  "is_digit c \<longleftrightarrow> of_char c \<ge> (48 :: int) \<and> of_char c \<le> (57 :: int)"

definition is_space :: "char \<Rightarrow> bool" where
  "is_space c \<longleftrightarrow> of_char c = (32 :: int) \<or> (of_char c \<ge> (9 :: int) \<and> of_char c \<le> (13 :: int))"

definition digits_value :: "string \<Rightarrow> int" where
  "digits_value ds = foldl (\<lambda>n c. 10 * n + (of_char c - 48)) 0 ds"

text \<open>\<^verbatim>\<open>stoi\<close> skips white space and reads a sign and as many digits as follow; what comes after them is
  ignored.\<close>

definition stoi :: "string \<Rightarrow> int result" where
  "stoi s =
     (let s = dropWhile is_space s;
          (sgn, s) = (case s of c # r \<Rightarrow> if c = CHR ''-'' then (-1, r) else if c = CHR ''+'' then (1, r) else (1, s)
                      | [] \<Rightarrow> (1, s));
          ds = takeWhile is_digit s; n = sgn * digits_value ds
      in if ds = [] then Inl (Invalid_Argument ''stoi'')
         else if n < -(2 ^ 31) \<or> n \<ge> 2 ^ 31 then Inl (Out_Of_Range ''stoi'')
         else Inr n)"

text \<open>The loop: while the address is empty the next part up to a colon is taken as the address; then the
  octets up to a slash are the port, which is cut to 16 bits.\<close>

definition parse_port :: "string \<Rightarrow> u16 result" where
  "parse_port s = bind_result (stoi (takeWhile (\<lambda>c. c \<noteq> CHR ''/'') s)) (\<lambda>n. Inr (of_int n))"

function uri_loop :: "string \<Rightarrow> (string \<times> u16) option result" where
  "uri_loop s =
     (if CHR '':'' \<notin> set s then Inr None
      else
        let address = takeWhile (\<lambda>c. c \<noteq> CHR '':'') s; rest = drop (length address + 1) s in
        if rest = [] then Inr None
        else if address = [] then uri_loop rest
        else bind_result (parse_port rest) (\<lambda>port. Inr (Some (address, port))))"
  by pat_completeness auto
termination
  by (relation "measure length") auto

declare uri_loop.simps [simp del]

definition ParseConnectUri :: "string \<Rightarrow> (string \<times> u16) option result" where
  "ParseConnectUri uri = (case after ''moq://'' uri of None \<Rightarrow> Inr None | Some s \<Rightarrow> uri_loop s)"

subsection \<open>Start\<close>

definition Transport_new :: "bool \<Rightarrow> 't \<Rightarrow> (hptr \<Rightarrow> Subscriber) \<Rightarrow> (hptr \<Rightarrow> Publisher) \<Rightarrow> (hptr \<Rightarrow> bool) \<Rightarrow> hptr \<Rightarrow> 't Transport" where
  "Transport_new client q ss ps al n =
     \<lparr>client_mode = client, tr_status = Status_kNotReady, tr_stop = False, connections = [], subs = ss, pubs = ps,
      next_ptr = n, alive = al, quic = q, events = []\<rparr>"

definition try_emplace_conn :: "u64 \<Rightarrow> 't Transport \<Rightarrow> 't Transport" where
  "try_emplace_conn cid tr =
     (case map_find (connections tr) cid of Some _ \<Rightarrow> tr | None \<Rightarrow> put_conn cid ConnectionContext_new tr)"

text \<open>\<open>quic_start\<close> makes the QUIC transport for the address and port and starts it: the connection id, 0 on
  failure. \<open>quic_listen\<close> does the same for a server: whether it is still running.\<close>

definition Start_client :: "(string \<Rightarrow> u16 \<Rightarrow> 't \<Rightarrow> u64 \<times> 't) \<Rightarrow> string \<Rightarrow> 't Transport \<Rightarrow> Status result \<times> 't Transport" where
  "Start_client quic_start uri tr =
     (case ParseConnectUri uri of
        Inl e \<Rightarrow> (Inl e, tr)
      | Inr None \<Rightarrow> (Inr Status_kInvalidParams, tr)
      | Inr (Some (address, port)) \<Rightarrow>
          let (cid, q) = quic_start address port (quic tr); tr = tr\<lparr>quic := q\<rparr> in
          if cid = 0 then (Inr Status_kFailedToConnect, tr\<lparr>tr_status := Status_kFailedToConnect\<rparr>)
          else
            let tr = emit (Ev_SetConnectionHandle cid) tr;
                tr = emit (Ev_StatusChanged Status_kConnecting) (tr\<lparr>tr_status := Status_kConnecting\<rparr>);
                tr = try_emplace_conn cid tr;
                tr = mod_conn cid (\<lambda>c. c\<lparr>connection_handle := cid\<rparr>) tr
            in (Inr Status_kConnecting, tr))"

definition Start_server :: "('t \<Rightarrow> bool \<times> 't) \<Rightarrow> 't Transport \<Rightarrow> Status result \<times> 't Transport" where
  "Start_server quic_listen tr =
     (let (running, q) = quic_listen (quic tr); st = (if running then Status_kReady else Status_kInternalError)
      in (Inr st, tr\<lparr>quic := q, tr_status := st\<rparr>))"

subsection \<open>What the URI parser accepts\<close>

lemma digits_value_bound: "\<forall>c \<in> set ds. is_digit c \<Longrightarrow> 0 \<le> digits_value ds"
proof (induction ds rule: rev_induct)
  case (snoc c ds)
  then show ?case by (simp add: digits_value_def is_digit_def)
qed (simp add: digits_value_def)

lemma stoi_digits:
  assumes "ds \<noteq> []" "\<forall>c \<in> set ds. is_digit c"
  shows "stoi ds = (if digits_value ds < 2 ^ 31 then Inr (digits_value ds) else Inl (Out_Of_Range ''stoi''))"
proof -
  obtain c r where ds: "ds = c # r" using assms(1) by (cases ds) auto
  have "is_digit c" using assms(2) ds by simp
  then have "\<not> is_space c" "c \<noteq> CHR ''-''" "c \<noteq> CHR ''+''"
    by (auto simp: is_digit_def is_space_def)
  moreover have tw: "takeWhile is_digit r = r" using assms(2) ds by (simp add: takeWhile_eq_all_conv)
  ultimately have "stoi ds = (let n = digits_value ds in if n < -(2 ^ 31) \<or> n \<ge> 2 ^ 31 then Inl (Out_Of_Range ''stoi'') else Inr n)"
    using \<open>is_digit c\<close> ds by (simp add: stoi_def Let_def tw del: takeWhile_eq_all_conv)
  then show ?thesis using digits_value_bound [OF assms(2)] by (auto simp: Let_def)
qed

lemma after_here: "pat \<noteq> [] \<Longrightarrow> after pat (pat @ s) = Some s"
  by (cases pat) auto

lemma uri_loop_address:
  assumes "host \<noteq> []" "CHR '':'' \<notin> set host"
  shows "uri_loop (host @ CHR '':'' # rest) =
     (if rest = [] then Inr None else bind_result (parse_port rest) (\<lambda>port. Inr (Some (host, port))))"
proof -
  have "takeWhile (\<lambda>c. c \<noteq> CHR '':'') (host @ CHR '':'' # rest) = host"
    using assms(2) by (subst takeWhile_append2) auto
  then show ?thesis using assms(1) by (subst uri_loop.simps) (simp add: Let_def)
qed

lemma parse_port_digits:
  assumes "ds \<noteq> []" "\<forall>c \<in> set ds. is_digit c" "path = [] \<or> hd path = CHR ''/''"
  shows "parse_port (ds @ path) =
     (if digits_value ds < 2 ^ 31 then Inr (of_int (digits_value ds)) else Inl (Out_Of_Range ''stoi''))"
proof -
  have "\<forall>c \<in> set ds. c \<noteq> CHR ''/''" using assms(2) by (auto simp: is_digit_def)
  then have "takeWhile (\<lambda>c. c \<noteq> CHR ''/'') (ds @ path) = ds" using assms(3) by (cases path) (auto simp: takeWhile_tail)
  then show ?thesis using stoi_digits [OF assms(1,2)] by (simp add: parse_port_def bind_result_def)
qed



end
