(* ===== verification/Recording_Quic.thy ===== *)
theory Recording_Quic
  imports Transport_State
begin

section \<open>A recording QUIC transport\<close>

text \<open>
  An environment in which everything can be computed: a QUIC transport that accepts every call and keeps
  the list of them, numbers data contexts from 1, and a wire format of control messages with one octet for each
  field, enough for the messages of the examples. The examples of the following theories run in it.
\<close>

datatype quic_call = Q_Enqueue enqueue_call | Q_Create u64 | Q_Delete u64 u64 | Q_Close u64 u64

definition rec_put :: "CtrlMsg \<Rightarrow> bytes result" where
  "rec_put msg =
     (case msg of
        Msg_Subscribe rid _ nm _ _ _ _ _ _ _ \<Rightarrow> Inr (3 # ucast rid # nm)
      | Msg_SubscribeOk rid alias _ _ _ _ _ \<Rightarrow> Inr [4, ucast rid, ucast alias]
      | Msg_Unsubscribe rid \<Rightarrow> Inr [10, ucast rid]
      | Msg_PublishNamespaceDone _ \<Rightarrow> Inr [9]
      | _ \<Rightarrow> Inr [])"

definition rec_get :: "u64 \<Rightarrow> bytes \<Rightarrow> CtrlMsg result" where
  "rec_get t bs =
     (if t = 4 \<and> length bs \<ge> 2 then Inr (Msg_SubscribeOk (ucast (bs ! 0)) (ucast (bs ! 1)) 0 GroupOrder_kAscending False None [])
      else if t = 11 \<and> length bs \<ge> 1 then Inr (Msg_PublishDone (ucast (bs ! 0)) PublishDoneStatusCode_kTrackEnded 0 [])
      else Inl (Invalid_Argument ''message''))"

definition rec_env :: "quic_call list env" where
  "rec_env = \<lparr>it_Enqueue = (\<lambda>call q. (TransportError_kNone, q @ [Q_Enqueue call])),
     it_CreateDataContext = (\<lambda>cid reliable priority bidir q.
       (of_nat (length (filter (\<lambda>c. \<exists>k. c = Q_Create k) q) + 1), q @ [Q_Create cid])),
     it_DeleteDataContext = (\<lambda>cid ctx delay q. q @ [Q_Delete cid ctx]),
     it_Close = (\<lambda>cid reason q. q @ [Q_Close cid reason]),
     put_msg = rec_put, get_msg = rec_get, endpoint_id = [], conn0 = 0, dangling = [],
     after_throw = (\<lambda>h data. h), object_callback = (\<lambda>oh data. True), done_subscribers = (\<lambda>cid ns. [])\<rparr>"

definition rec_name :: FullTrackName where
  "rec_name = \<lparr>name_space = \<lparr>ns_bytes = [], ns_entries = [], ns_hashes = []\<rparr>, name = []\<rparr>"

definition rec_sub :: Subscriber where
  "rec_sub = Subscriber_new SubscribeClass 0 rec_name 0 GroupOrder_kAscending FilterType_kLargestObject None False"

definition rec_handler :: "bool \<Rightarrow> PublishTrackHandler" where
  "rec_handler announce =
     (projr (PublishTrackHandler_new StreamHeaderType_kSubgroup0NotEndOfGroupNoExtensions 9 0 TrackMode_kStream 0 1000 None))
       \<lparr>use_announce := announce\<rparr>"

definition rec_pub :: "bool \<Rightarrow> Publisher" where
  "rec_pub announce = \<lparr>pb_handler = rec_handler announce, pb_full_track_name = rec_name, pb_support_new_group_request = False,
     pb_has_transport = False\<rparr>"

lemmas rec_simps = rec_env_def rec_put_def rec_get_def rec_name_def rec_sub_def rec_pub_def rec_handler_def

end
