(* ===== verification/Transport_Reachable.thy ===== *)
theory Transport_Reachable
  imports Connection_Invariant Transport_Start Recording_Quic
begin

section \<open>Reachable transports\<close>

text \<open>
  The transport as a state machine. A step is one call: by the application, of an operation on tracks or of an
  answer to a request, or by the QUIC transport, of one of its callbacks. An operation that throws leaves the
  transport it had reached. The application may also change its own handlers between calls. The steps common to
  both sides are \<open>transport_step\<close>; \<open>client_step\<close> and \<open>server_step\<close> add those of one side.
\<close>

inductive transport_step :: "'t env \<Rightarrow> 't ctrl_processor \<Rightarrow> 't Transport \<Rightarrow> 't Transport \<Rightarrow> bool" for env process where
  subscribe: "transport_step env process tr (snd (SubscribeTrack env cid h tr))"
| unsubscribe: "transport_step env process tr (UnsubscribeTrack env cid h tr)"
| update_subscription: "transport_step env process tr (UpdateTrackSubscription env cid h tr)"
| pause: "transport_step env process tr (snd (Pause env h tr))"
| resume: "transport_step env process tr (snd (Resume env h tr))"
| request_new_group: "transport_step env process tr (snd (RequestNewGroup env h g tr))"
| publish: "transport_step env process tr (snd (PublishTrack env cid h tr))"
| unpublish: "transport_step env process tr (snd (UnpublishTrack env cid h tr))"
| fetch: "transport_step env process tr (FetchTrack env cid h tr)"
| cancel_fetch: "transport_step env process tr (CancelFetchTrack env cid h tr)"
| request_track_status: "transport_step env process tr (snd (RequestTrackStatus env cid tfn tr))"
| resolve_track_status: "transport_step env process tr (ResolveTrackStatus env cid rid reason err l tr)"
| resolve_publish: "transport_step env process tr (ResolvePublish env cid rid a preason l hs tr)"
| subscribe_namespace: "transport_step env process tr (SendSubscribeNamespace env cid pfx tr)"
| unsubscribe_namespace: "transport_step env process tr (SendUnsubscribeNamespace env cid pfx tr)"
| unbind_fetch: "transport_step env process tr (snd (UnbindFetchTrack env cid h tr))"
| stream_closed: "transport_step env process tr (snd (OnStreamClosed caller flag tr))"
| recv_stream: "transport_step env process tr (snd (snd (OnRecvStream env process cid sid ctx bidir rx tr)))"
| recv_dgram: "transport_step env process tr (snd (OnRecvDgram env cid queue tr))"
| connection_status: "transport_step env process tr (OnConnectionStatus env cid st tr)"
| connection_metrics: "transport_step env process tr (OnConnectionMetricsSampled sample_time cid cm tr)"
| data_metrics: "transport_step env process tr (OnDataMetricsStampled sample_time cid did dm tr)"
| subscriber_changed: "transport_step env process tr (put_sub h s tr)"
| publisher_changed: "transport_step env process tr (put_pub h p (tr\<lparr>quic := q\<rparr>))"
| handler_lifetime: "transport_step env process tr (tr\<lparr>next_ptr := n, alive := al\<rparr>)"

inductive client_step :: "'t env \<Rightarrow> 't Transport \<Rightarrow> 't Transport \<Rightarrow> bool" for env where
  common: "transport_step env (Client_ProcessCtrlMessage env) tr tr' \<Longrightarrow> client_step env tr tr'"
| start: "client_step env tr (snd (Start_client quic_start uri tr))"
| resolve_subscribe: "client_step env tr (Client_ResolveSubscribe env cid rid alias sreason l tr)"
| resolve_fetch: "client_step env tr (snd (Client_ResolveFetch env cid rid priority order freason err l tr))"
| bind_fetch: "client_step env tr (snd (Client_BindFetchTrack env cid h tr))"

inductive server_step :: "'t env \<Rightarrow> 't Transport \<Rightarrow> 't Transport \<Rightarrow> bool" for env where
  common: "transport_step env (Server_ProcessCtrlMessage env) tr tr' \<Longrightarrow> server_step env tr tr'"
| start: "server_step env tr (snd (Start_server quic_listen tr))"
| accept: "server_step env tr (OnNewConnection cid tr)"
| resolve_publish_namespace: "server_step env tr (ResolvePublishNamespace env cid rid ns hs ok tr)"
| resolve_publish_namespace_done: "server_step env tr (ResolvePublishNamespaceDone env ns hs tr)"
| resolve_subscribe_namespace: "server_step env tr (ResolveSubscribeNamespace env cid rid pfx ok nss tracks tr)"
| resolve_subscribe: "server_step env tr (Server_ResolveSubscribe env cid rid alias sreason initiated l tr)"
| resolve_fetch: "server_step env tr (snd (Server_ResolveFetch env cid rid priority order freason err l tr))"
| bind_fetch: "server_step env tr (snd (Server_BindFetchTrack env cid h tr))"
| send_fetch_object: "server_step env tr (snd (SendFetchObject env h priority ttl hdr g sg oid exts data tr))"
| bind_publisher: "server_step env tr (BindPublisherTrack env cid src rid h ephemeral tr)"
| unbind_publisher: "server_step env tr (snd (UnbindPublisherTrack env cid src h tr))"

text \<open>Reachable from a new transport.\<close>

definition client_reachable :: "'t env \<Rightarrow> 't Transport \<Rightarrow> bool" where
  "client_reachable env tr \<longleftrightarrow> (\<exists>q ss ps al n. (client_step env)\<^sup>*\<^sup>* (Transport_new True q ss ps al n) tr)"

definition server_reachable :: "'t env \<Rightarrow> 't Transport \<Rightarrow> bool" where
  "server_reachable env tr \<longleftrightarrow> (\<exists>q ss ps al n. (server_step env)\<^sup>*\<^sup>* (Transport_new False q ss ps al n) tr)"

subsection \<open>Preservation\<close>

lemma evolves_notify [evolve]:
  "evolves t tr \<Longrightarrow> evolves t (notify_sub_closed env cid h tr)" "evolves t tr \<Longrightarrow> evolves t (notify_pub_closed h tr)"
  by (auto simp: notify_sub_closed_def notify_pub_closed_def Let_def evolve_simps intro!: evolve)

lemma evolves_RemoveAllTracks: "evolves tr (RemoveAllTracksForConnectionClose env cid tr)"
  by (auto simp: RemoveAllTracksForConnectionClose_def evolve_defs evolve_simps intro!: evolve)

text \<open>The invariant: the connections and all tables of every connection are ordered maps, and the request ids
  of a connection satisfy \<open>P\<close>, which may depend on the handle and the parity.\<close>

definition conns_inv :: "(u64 \<Rightarrow> bool \<Rightarrow> bool) \<Rightarrow> 't Transport \<Rightarrow> bool" where
  "conns_inv P tr \<longleftrightarrow> map_wf (connections tr) \<and>
     (\<forall>k. conn_wf (conn_at k tr) \<and> P (connection_handle (conn_at k tr)) (odd (next_request_id (conn_at k tr))))"

definition client_parity :: "u64 \<Rightarrow> bool \<Rightarrow> bool" where "client_parity handle odd_ids \<longleftrightarrow> \<not> odd_ids"
definition server_parity :: "u64 \<Rightarrow> bool \<Rightarrow> bool" where "server_parity handle odd_ids \<longleftrightarrow> handle = 0 \<or> odd_ids"

text \<open>The contract of an invariant on request ids: a context that \<^verbatim>\<open>connections_[id]\<close> creates satisfies it.\<close>

locale parity_invariant =
  fixes P :: "u64 \<Rightarrow> bool \<Rightarrow> bool"
  assumes new_context: "P 0 False"
begin

lemma inv_evolves: "conns_inv P tr \<Longrightarrow> evolves tr tr' \<Longrightarrow> conns_inv P tr'"
  by (auto simp: conns_inv_def evolves_def conn_evolves_def)

lemma new_context_inv: "conn_wf ConnectionContext_new \<and> P (connection_handle ConnectionContext_new) (odd (next_request_id ConnectionContext_new))"
  using new_context by (simp add: ConnectionContext_new_def conn_wf_def map_all_def)

lemma inv_new: "conns_inv P (Transport_new client q ss ps al n)"
  using new_context_inv by (simp add: conns_inv_def Transport_new_def conn_at_def map_at_def)

lemma inv_erase: "conns_inv P tr \<Longrightarrow> conns_inv P (tr\<lparr>connections := map_erase cid (connections tr)\<rparr>)"
  using new_context_inv by (auto simp: conns_inv_def map_erase_wf conn_at_def map_at_def map_erase_find)

lemma inv_frame [simp]:
  "conns_inv P (emit e tr) = conns_inv P tr" "conns_inv P (tr\<lparr>tr_status := st\<rparr>) = conns_inv P tr"
  "conns_inv P (tr\<lparr>quic := q\<rparr>) = conns_inv P tr" "conns_inv P (tr\<lparr>quic := q, tr_status := st\<rparr>) = conns_inv P tr"
  "conns_inv P (send env c msg tr) = conns_inv P tr"
  by (simp_all add: conns_inv_def conn_at_def)

lemma inv_mod_conn:
  assumes "conns_inv P tr"
    "\<And>c. conn_wf c \<Longrightarrow> P (connection_handle c) (odd (next_request_id c)) \<Longrightarrow>
       conn_wf (f c) \<and> P (connection_handle (f c)) (odd (next_request_id (f c)))"
  shows "conns_inv P (mod_conn cid f tr)"
  using assms by (auto simp: conns_inv_def mod_conn_def put_conn_wf)

lemma inv_remove_connection: "conns_inv P tr \<Longrightarrow> conns_inv P (remove_connection env cid cs tr)"
  unfolding remove_connection_def Let_def
  by (rule inv_erase, simp only: inv_frame, rule inv_evolves [OF _ evolves_RemoveAllTracks], simp)

lemma inv_OnConnectionStatus:
  assumes "conns_inv P tr" shows "conns_inv P (OnConnectionStatus env cid st tr)"
proof -
  have touch: "conns_inv P (mod_conn cid (\<lambda>c. c) tr)" using assms by (rule inv_mod_conn) simp
  have close: "conns_inv P (close_connection env cid cs (mod_conn cid (\<lambda>c. c) tr))" for cs
    unfolding close_connection_def
    by (rule inv_remove_connection, rule inv_mod_conn [OF touch]) (simp add: conn_wf_def)
  have ready: "conns_inv P (SendClientSetup env tr') = conns_inv P tr'" for tr' :: "'a Transport"
    by (simp add: SendClientSetup_def split: list.splits prod.splits)
  have ctx: "conns_inv P (mod_conn cid (ctrl_data_ctx_id_update (\<lambda>_. x)) ((mod_conn cid (\<lambda>c. c) tr)\<lparr>quic := q\<rparr>))" for x q
    by (rule inv_mod_conn) (simp_all add: touch conn_wf_def)
  show ?thesis
    by (cases st) (simp_all add: OnConnectionStatus_def Let_def case_prod_unfold ready touch close ctx inv_remove_connection)
qed

lemma inv_samples:
  assumes "conns_inv P tr"
  shows "conns_inv P (OnConnectionMetricsSampled time cid cm tr)" "conns_inv P (OnDataMetricsStampled time cid did dm tr)"
proof -
  show "conns_inv P (OnConnectionMetricsSampled time cid cm tr)"
    unfolding OnConnectionMetricsSampled_def Let_def by (simp, rule inv_mod_conn [OF assms]) (simp add: conn_wf_def)
  have subs: "conns_inv P (fold (\<lambda>(_, h). sub_sample h) hs t) = conns_inv P t" for hs :: "(u64 \<times> hptr) list" and t :: "'a Transport"
    by (induction hs arbitrary: t) (simp_all add: case_prod_unfold sub_sample_def Let_def)
  have "conns_inv P (mod_conn cid (\<lambda>c. c) tr)" by (rule inv_mod_conn [OF assms]) simp
  then show "conns_inv P (OnDataMetricsStampled time cid did dm tr)"
    unfolding OnDataMetricsStampled_def Let_def subs by (simp add: conns_inv_def conn_at_def put_pub_def emit_def split: option.split)
qed

lemma inv_step:
  assumes "evolving process" "transport_step env process tr tr'" "conns_inv P tr" shows "conns_inv P tr'"
  using assms(2)
proof cases
  case connection_status
  then show ?thesis using assms(3) inv_OnConnectionStatus by simp
next
  case connection_metrics
  then show ?thesis using inv_samples(1) [OF assms(3)] by simp
next
  case data_metrics
  then show ?thesis using inv_samples(2) [OF assms(3)] by simp
next
  case recv_stream
  then show ?thesis using inv_evolves [OF assms(3)] evolves_OnRecvStream [OF assms(1)] by simp
qed (auto intro!: inv_evolves [OF assms(3)] evolve evolves_OnRecvDgram simp: evolve_simps)

end

text \<open>Both parities satisfy the contract.\<close>

interpretation client_ids: parity_invariant client_parity
  by unfold_locales (simp add: client_parity_def)

interpretation server_ids: parity_invariant server_parity
  by unfold_locales (simp add: server_parity_def)

lemma inv_client_step:
  assumes "client_step env tr tr'" "conns_inv client_parity tr" shows "conns_inv client_parity tr'"
  using assms(1)
proof cases
  case common
  then show ?thesis using client_ids.inv_step [OF evolving_client] assms(2) by blast
next
  case (start quic_start uri)
  have "conns_inv client_parity (mod_conn cid (\<lambda>c. c\<lparr>connection_handle := k\<rparr>) (try_emplace_conn cid t))"
    if "conns_inv client_parity t" for cid k and t :: "'a Transport"
    using that client_ids.new_context_inv
    by (auto simp: conns_inv_def mod_conn_def try_emplace_conn_def put_conn_wf client_parity_def conn_wf_def split: option.splits)
  then show ?thesis
    using start assms(2) by (auto simp: Start_client_def Let_def case_prod_unfold split: sum.splits option.splits)
qed (auto intro!: client_ids.inv_evolves [OF assms(2)] evolve)

lemma inv_server_step:
  assumes "server_step env tr tr'" "conns_inv server_parity tr" shows "conns_inv server_parity tr'"
  using assms(1)
proof cases
  case common
  then show ?thesis using server_ids.inv_step [OF evolving_server] assms(2) by blast
next
  case (start quic_listen)
  then show ?thesis using assms(2) by (simp add: Start_server_def Let_def case_prod_unfold)
next
  case (accept cid)
  then show ?thesis
    using assms(2) unfolding OnNewConnection_def
    by (simp, intro server_ids.inv_mod_conn) (auto simp: server_parity_def conn_wf_def)
qed (auto intro!: server_ids.inv_evolves [OF assms(2)] evolve)

lemma client_reachable_inv: "client_reachable env tr \<Longrightarrow> conns_inv client_parity tr"
  unfolding client_reachable_def
proof (elim exE)
  fix q ss ps al n
  assume "(client_step env)\<^sup>*\<^sup>* (Transport_new True q ss ps al n) tr"
  then show ?thesis by induction (auto intro: client_ids.inv_new inv_client_step)
qed

lemma server_reachable_inv: "server_reachable env tr \<Longrightarrow> conns_inv server_parity tr"
  unfolding server_reachable_def
proof (elim exE)
  fix q ss ps al n
  assume "(server_step env)\<^sup>*\<^sup>* (Transport_new False q ss ps al n) tr"
  then show ?thesis by induction (auto intro: server_ids.inv_new inv_server_step)
qed

subsection \<open>Properties\<close>


text \<open>C6. Request ids never collide: whatever the applications and the network do, the ids a client draws on a connection
  are even and those a server draws on a connection it accepted are odd, so the two ends never use the same id for
  different requests.\<close>

theorem request_ids_disjoint:
  assumes "client_reachable env tr" "map_find (connections tr) cid = Some c"
    "server_reachable env' tr'" "map_find (connections tr') cid' = Some c'" "connection_handle c' \<noteq> 0"
  shows "even (fst (GetNextRequestId c)) \<and> odd (fst (GetNextRequestId c')) \<and>
    fst (GetNextRequestId c) \<noteq> fst (GetNextRequestId c')"
proof -
  have "even (next_request_id c)"
    using client_reachable_inv [OF assms(1)] conn_at_found [OF assms(2)] by (auto simp: conns_inv_def client_parity_def)
  moreover have "odd (next_request_id c')"
    using server_reachable_inv [OF assms(3)] conn_at_found [OF assms(4)] assms(5) by (auto simp: conns_inv_def server_parity_def)
  ultimately show ?thesis by auto
qed

text \<open>A client that has started and a server that has accepted a connection.\<close>

definition started_client :: "quic_call list Transport" where
  "started_client = snd (Start_client (\<lambda>address port q. (5, q)) ''moq://h:1''
     (Transport_new True [] (\<lambda>_. rec_sub) (\<lambda>_. rec_pub False) (\<lambda>_. True) 9))"

definition started_server :: "quic_call list Transport" where
  "started_server = OnNewConnection 5 (Transport_new False [] (\<lambda>_. rec_sub) (\<lambda>_. rec_pub False) (\<lambda>_. True) 9)"

lemma started_reachable: "client_reachable rec_env started_client" "server_reachable rec_env started_server"
  unfolding client_reachable_def server_reachable_def started_client_def started_server_def
  by (blast intro: client_step.start server_step.accept)+

lemma started_conns:
  "map_find (connections started_client) 5 = Some (ConnectionContext_new\<lparr>connection_handle := 5\<rparr>)"
  "map_find (connections started_server) 5 = Some (ConnectionContext_new\<lparr>next_request_id := 1, connection_handle := 5\<rparr>)"
  by (simp_all add: started_client_def started_server_def Start_client_def ParseConnectUri_def uri_loop.simps parse_port_def
      stoi_def is_digit_def is_space_def digits_value_def bind_result_def OnNewConnection_def Transport_new_def
      try_emplace_conn_def mod_conn_def conn_at_def map_at_def)


theorem request_ids_disjoint_witness:
  "odd (next_request_id (ConnectionContext_new\<lparr>next_request_id := 1, connection_handle := 5\<rparr>))"
  using request_ids_disjoint [OF started_reachable(1) started_conns(1) started_reachable(2) started_conns(2)] by simp

end
