(* ===== verification/Transport_Core.thy ===== *)
theory Transport_Core
  imports Server_Control
begin

section \<open>The transport without the control buffer\<close>

text \<open>
  The message being read from the control stream, its type and the octets received so far, are fields of
  the connection. \<open>core\<close> is the transport without them. Every message handler of the client and of the
  server works on the core alone: it commutes with \<open>core\<close>. So what a message does depends neither on how its
  octets arrived nor on what has arrived behind it.
\<close>

named_theorems core_simps

definition strip_conn :: "ConnectionContext \<Rightarrow> ConnectionContext" where
  "strip_conn c = c\<lparr>ctrl_msg_type_received := None, ctrl_msg_buffer := []\<rparr>"

definition core :: "'t Transport \<Rightarrow> 't Transport" where
  "core tr = tr\<lparr>connections := map (\<lambda>(k, c). (k, strip_conn c)) (connections tr)\<rparr>"

lemma strip_conn_reads [core_simps]:
  "connection_handle (strip_conn c) = connection_handle c" "ctrl_data_ctx_id (strip_conn c) = ctrl_data_ctx_id c"
  "setup_complete (strip_conn c) = setup_complete c" "closed (strip_conn c) = closed c"
  "client_version (strip_conn c) = client_version c" "next_request_id (strip_conn c) = next_request_id c"
  "recv_req_id (strip_conn c) = recv_req_id c" "sub_tracks_by_request_id (strip_conn c) = sub_tracks_by_request_id c"
  "sub_by_recv_track_alias (strip_conn c) = sub_by_recv_track_alias c"
  "pub_tracks_by_name (strip_conn c) = pub_tracks_by_name c"
  "pub_tracks_by_track_alias (strip_conn c) = pub_tracks_by_track_alias c"
  "pub_tracks_ns_by_request_id (strip_conn c) = pub_tracks_ns_by_request_id c"
  "pub_namespaces_by_request_id (strip_conn c) = pub_namespaces_by_request_id c"
  "pub_by_request_id (strip_conn c) = pub_by_request_id c"
  "pub_tracks_by_request_id (strip_conn c) = pub_tracks_by_request_id c"
  "pub_tracks_by_data_ctx_id (strip_conn c) = pub_tracks_by_data_ctx_id c"
  "pub_fetch_tracks_by_request_id (strip_conn c) = pub_fetch_tracks_by_request_id c"
  "sub_namespace_prefix_by_request_id (strip_conn c) = sub_namespace_prefix_by_request_id c"
  "conn_metrics (strip_conn c) = conn_metrics c"
  by (simp_all add: strip_conn_def)

lemma strip_conn_updates [core_simps]:
  "strip_conn (c\<lparr>connection_handle := x0\<rparr>) = (strip_conn c)\<lparr>connection_handle := x0\<rparr>"
  "strip_conn (c\<lparr>ctrl_data_ctx_id := x1\<rparr>) = (strip_conn c)\<lparr>ctrl_data_ctx_id := x1\<rparr>"
  "strip_conn (c\<lparr>setup_complete := x2\<rparr>) = (strip_conn c)\<lparr>setup_complete := x2\<rparr>"
  "strip_conn (c\<lparr>closed := x3\<rparr>) = (strip_conn c)\<lparr>closed := x3\<rparr>"
  "strip_conn (c\<lparr>client_version := x4\<rparr>) = (strip_conn c)\<lparr>client_version := x4\<rparr>"
  "strip_conn (c\<lparr>next_request_id := x5\<rparr>) = (strip_conn c)\<lparr>next_request_id := x5\<rparr>"
  "strip_conn (c\<lparr>recv_req_id := x6\<rparr>) = (strip_conn c)\<lparr>recv_req_id := x6\<rparr>"
  "strip_conn (c\<lparr>sub_tracks_by_request_id := x7\<rparr>) = (strip_conn c)\<lparr>sub_tracks_by_request_id := x7\<rparr>"
  "strip_conn (c\<lparr>sub_by_recv_track_alias := x8\<rparr>) = (strip_conn c)\<lparr>sub_by_recv_track_alias := x8\<rparr>"
  "strip_conn (c\<lparr>pub_tracks_by_name := x9\<rparr>) = (strip_conn c)\<lparr>pub_tracks_by_name := x9\<rparr>"
  "strip_conn (c\<lparr>pub_tracks_by_track_alias := x10\<rparr>) = (strip_conn c)\<lparr>pub_tracks_by_track_alias := x10\<rparr>"
  "strip_conn (c\<lparr>pub_tracks_ns_by_request_id := x11\<rparr>) = (strip_conn c)\<lparr>pub_tracks_ns_by_request_id := x11\<rparr>"
  "strip_conn (c\<lparr>pub_namespaces_by_request_id := x12\<rparr>) = (strip_conn c)\<lparr>pub_namespaces_by_request_id := x12\<rparr>"
  "strip_conn (c\<lparr>pub_by_request_id := x13\<rparr>) = (strip_conn c)\<lparr>pub_by_request_id := x13\<rparr>"
  "strip_conn (c\<lparr>pub_tracks_by_request_id := x14\<rparr>) = (strip_conn c)\<lparr>pub_tracks_by_request_id := x14\<rparr>"
  "strip_conn (c\<lparr>pub_tracks_by_data_ctx_id := x15\<rparr>) = (strip_conn c)\<lparr>pub_tracks_by_data_ctx_id := x15\<rparr>"
  "strip_conn (c\<lparr>pub_fetch_tracks_by_request_id := x16\<rparr>) = (strip_conn c)\<lparr>pub_fetch_tracks_by_request_id := x16\<rparr>"
  "strip_conn (c\<lparr>sub_namespace_prefix_by_request_id := x17\<rparr>) = (strip_conn c)\<lparr>sub_namespace_prefix_by_request_id := x17\<rparr>"
  "strip_conn (c\<lparr>conn_metrics := x18\<rparr>) = (strip_conn c)\<lparr>conn_metrics := x18\<rparr>"
  by (simp_all add: strip_conn_def)

lemma strip_conn_misc [core_simps]:
  "strip_conn (c\<lparr>ctrl_msg_type_received := t\<rparr>) = strip_conn c" "strip_conn (c\<lparr>ctrl_msg_buffer := b\<rparr>) = strip_conn c"
  "strip_conn ConnectionContext_new = ConnectionContext_new" "strip_conn (strip_conn c) = strip_conn c"
  by (simp_all add: strip_conn_def ConnectionContext_new_def)

lemma send_conn [core_simps]:
  "send env (c\<lparr>setup_complete := x2\<rparr>) = send env c"
  "send env (c\<lparr>closed := x3\<rparr>) = send env c"
  "send env (c\<lparr>client_version := x4\<rparr>) = send env c"
  "send env (c\<lparr>next_request_id := x5\<rparr>) = send env c"
  "send env (c\<lparr>recv_req_id := x6\<rparr>) = send env c"
  "send env (c\<lparr>sub_tracks_by_request_id := x7\<rparr>) = send env c"
  "send env (c\<lparr>sub_by_recv_track_alias := x8\<rparr>) = send env c"
  "send env (c\<lparr>pub_tracks_by_name := x9\<rparr>) = send env c"
  "send env (c\<lparr>pub_tracks_by_track_alias := x10\<rparr>) = send env c"
  "send env (c\<lparr>pub_tracks_ns_by_request_id := x11\<rparr>) = send env c"
  "send env (c\<lparr>pub_namespaces_by_request_id := x12\<rparr>) = send env c"
  "send env (c\<lparr>pub_by_request_id := x13\<rparr>) = send env c"
  "send env (c\<lparr>pub_tracks_by_request_id := x14\<rparr>) = send env c"
  "send env (c\<lparr>pub_tracks_by_data_ctx_id := x15\<rparr>) = send env c"
  "send env (c\<lparr>pub_fetch_tracks_by_request_id := x16\<rparr>) = send env c"
  "send env (c\<lparr>sub_namespace_prefix_by_request_id := x17\<rparr>) = send env c"
  "send env (c\<lparr>conn_metrics := x18\<rparr>) = send env c" "send env (strip_conn c) = send env c"
  by (simp_all add: send_def SendCtrlMsg_def ctrl_call_def strip_conn_def fun_eq_iff split: option.splits sum.splits)

lemma map_put_map:
  "map_put k (f v) (map (\<lambda>(k, v). (k, f v)) m) = map (\<lambda>(k, v). (k, f v)) (map_put k v m)"
  by (induction k v m rule: map_put.induct) auto

lemmas map_put_map' = map_put_map [unfolded case_prod_unfold]

lemma map_find_map: "map_find (map (\<lambda>(k, v). (k, f v)) m) k = map_option f (map_find m k)"
  by (induction m) auto

lemma core_reads [core_simps]:
  "subs (core tr) = subs tr" "pubs (core tr) = pubs tr" "quic (core tr) = quic tr" "events (core tr) = events tr"
  "client_mode (core tr) = client_mode tr" "tr_status (core tr) = tr_status tr" "tr_stop (core tr) = tr_stop tr"
  "next_ptr (core tr) = next_ptr tr" "alive (core tr) = alive tr"
  "map_find (connections (core tr)) cid = map_option strip_conn (map_find (connections tr) cid)"
  by (simp_all add: core_def map_find_map)

lemma conn_at_core [core_simps]: "conn_at cid (core tr) = strip_conn (conn_at cid tr)"
  by (simp add: conn_at_def map_at_def core_simps split: option.splits)

lemma core_writes [core_simps]:
  "core (put_conn cid c tr) = put_conn cid (strip_conn c) (core tr)" "core (put_sub h s tr) = put_sub h s (core tr)"
  "core (put_pub h p tr) = put_pub h p (core tr)" "core (emit e tr) = emit e (core tr)"
  "core (tr\<lparr>quic := q\<rparr>) = (core tr)\<lparr>quic := q\<rparr>" "core (tr\<lparr>tr_status := st\<rparr>) = (core tr)\<lparr>tr_status := st\<rparr>"
  "core (tr\<lparr>tr_stop := b\<rparr>) = (core tr)\<lparr>tr_stop := b\<rparr>" "core (core tr) = core tr"
  by (simp_all add: core_def put_conn_def put_sub_def put_pub_def emit_def map_put_map' o_def core_simps case_prod_unfold)

lemma core_sub_SetStatus [core_simps]: "core (sub_SetStatus h st tr) = sub_SetStatus h st (core tr)"
  by (simp add: sub_SetStatus_def core_simps)

lemma core_pub_SetStatus [core_simps]: "core (pub_SetStatus h st tr) = pub_SetStatus h st (core tr)"
  by (simp add: pub_SetStatus_def Let_def case_prod_unfold core_simps)

lemma core_mod_pub [core_simps]: "core (mod_pub h f tr) = mod_pub h f (core tr)"
  by (simp add: mod_pub_def core_simps)

lemma core_CloseConnection [core_simps]: "core (CloseConnection env cid r tr) = CloseConnection env cid r (core tr)"
  by (simp add: CloseConnection_def Let_def core_simps)

lemma core_SendCtrlMsg: "apsnd core (SendCtrlMsg env c data tr) = SendCtrlMsg env c data (core tr)"
  by (simp add: SendCtrlMsg_def Let_def case_prod_unfold core_simps split: option.splits)

lemma core_send [core_simps]: "core (send env c msg tr) = send env c msg (core tr)"
  using arg_cong [OF core_SendCtrlMsg, where f = snd]
  by (auto simp: send_def split: sum.splits)

lemma core_fold:
  assumes "\<And>x tr. core (f x tr) = f x (core tr)" shows "core (fold f xs tr) = fold f xs (core tr)"
  using assms by (induction xs arbitrary: tr) auto

subsection \<open>Messages that both sides handle\<close>

lemma core_mod_conn:
  assumes "\<And>c. strip_conn (f c) = f (strip_conn c)" shows "core (mod_conn cid f tr) = mod_conn cid f (core tr)"
  using assms by (simp add: mod_conn_def core_simps)

lemmas core_handler = mod_conn_def Let_def case_prod_unfold Send_defs

lemma core_set_latest_location [core_simps]: "core (set_latest_location h l tr) = set_latest_location h l (core tr)"
  by (simp add: set_latest_location_def core_simps split: option.splits)

lemma core_recv_SubscribeOk [core_simps]:
  "core (recv_SubscribeOk cid rid alias l ps tr) = recv_SubscribeOk cid rid alias l ps (core tr)"
  by (simp add: recv_SubscribeOk_def core_handler core_simps set_latest_location_def split: option.splits)

lemma core_RemoveSubscribeTrack [core_simps]:
  "core (RemoveSubscribeTrack env cid h rm tr) = RemoveSubscribeTrack env cid h rm (core tr)"
  by (simp add: RemoveSubscribeTrack_def core_handler core_simps split: option.splits)

lemma core_recv_SubscribeError [core_simps]:
  "core (recv_SubscribeError env cid rid tr) = recv_SubscribeError env cid rid (core tr)"
  by (simp add: recv_SubscribeError_def core_handler core_simps split: option.splits)

lemma core_recv_PublishDone [core_simps]: "core (recv_PublishDone cid rid tr) = recv_PublishDone cid rid (core tr)"
  by (simp add: recv_PublishDone_def core_handler core_simps split: option.splits)

lemma core_recv_FetchOk [core_simps]: "core (recv_FetchOk cid rid l tr) = recv_FetchOk cid rid l (core tr)"
  by (simp add: recv_FetchOk_def core_handler core_simps split: option.splits)

lemma core_recv_FetchError [core_simps]: "core (recv_FetchError cid rid tr) = recv_FetchError cid rid (core tr)"
  by (simp add: recv_FetchError_def core_handler core_simps split: option.splits)

lemma core_Client_FetchCancel [core_simps]: "core (Client_FetchCancel cid rid tr) = Client_FetchCancel cid rid (core tr)"
  by (simp add: Client_FetchCancel_def core_handler core_simps split: option.splits)

lemma core_track_not_found [core_simps]:
  "core (track_not_found env cid rid reason tr) = track_not_found env cid rid reason (core tr)"
  by (simp add: track_not_found_def core_handler core_simps)

lemma core_standalone_fetch [core_simps]:
  "apsnd core (standalone_fetch cid rid priority order g tr) = standalone_fetch cid rid priority order g (core tr)"
  by (simp add: standalone_fetch_def core_handler core_simps split: option.splits)

lemma core_joining_fetch [core_simps]:
  "apsnd core (joining_fetch env cid rid priority order relative g tr) =
     joining_fetch env cid rid priority order relative g (core tr)"
  by (simp add: joining_fetch_def core_handler core_simps split: option.splits)

subsection \<open>Messages of the client\<close>

lemma GetPubTrackHandler_strip [core_simps]: "GetPubTrackHandler (strip_conn c) th = GetPubTrackHandler c th"
  by (simp add: GetPubTrackHandler_def core_simps)

lemma core_Client_ResolveSubscribe [core_simps]:
  "core (Client_ResolveSubscribe env cid rid alias reason l tr) = Client_ResolveSubscribe env cid rid alias reason l (core tr)"
  by (simp add: Client_ResolveSubscribe_def core_handler core_simps split: option.splits)

lemma core_Client_Subscribe [core_simps]:
  "apsnd core (Client_Subscribe env cid rid tfn tr) = Client_Subscribe env cid rid tfn (core tr)"
  by (simp add: Client_Subscribe_def core_handler core_simps GetPubTrackHandler_def split: option.splits)

lemma core_request_new_group [core_simps]: "core (request_new_group q g tr) = request_new_group q g (core tr)"
  by (simp add: request_new_group_def core_handler core_simps)

lemma core_Client_SubscribeUpdate [core_simps]:
  "apsnd core (Client_SubscribeUpdate env cid rid sub_rid forward ps tr) =
     Client_SubscribeUpdate env cid rid sub_rid forward ps (core tr)"
  by (simp add: Client_SubscribeUpdate_def core_handler core_simps split: option.splits list.splits)

lemma core_Client_Unsubscribe [core_simps]: "core (Client_Unsubscribe cid rid tr) = Client_Unsubscribe cid rid (core tr)"
  by (simp add: Client_Unsubscribe_def core_handler core_simps split: option.splits)

lemma core_fan_out_publish: "core (fan_out_publish env a l handle tr) = fan_out_publish env a l handle (core tr)"
  by (simp add: fan_out_publish_def core_handler core_simps split: option.splits)

lemma core_ResolvePublish [core_simps]:
  "core (ResolvePublish env cid rid a reason l hs tr) = ResolvePublish env cid rid a reason l hs (core tr)"
  by (simp add: ResolvePublish_def core_handler core_simps core_fold core_fan_out_publish split: option.splits PublishReason.splits)

lemma core_Client_Publish [core_simps]:
  "core (Client_Publish env cid rid tfn alias forward order ps tr) =
     Client_Publish env cid rid tfn alias forward order ps (core tr)"
  by (simp add: Client_Publish_def core_handler core_simps)

lemma core_Client_Fetch [core_simps]:
  "apsnd core (Client_Fetch env cid rid priority order ft g0 g1 tr) = Client_Fetch env cid rid priority order ft g0 g1 (core tr)"
  by (simp add: Client_Fetch_def core_handler core_simps split: FetchType.splits)

lemma core_Client_PublishNamespaceOk [core_simps]:
  "apsnd core (Client_PublishNamespaceOk cid rid tr) = Client_PublishNamespaceOk cid rid (core tr)"
  by (simp add: Client_PublishNamespaceOk_def Let_def core_mod_conn core_simps core_fold split: option.splits)

lemma core_Client_SubscribeNamespaceStatus [core_simps]:
  "core (Client_SubscribeNamespaceStatus cid rid err tr) = Client_SubscribeNamespaceStatus cid rid err (core tr)"
  by (simp add: Client_SubscribeNamespaceStatus_def core_handler core_simps split: option.splits)

lemma core_Client_ServerSetup [core_simps]:
  "core (Client_ServerSetup cid version ps tr) = Client_ServerSetup cid version ps (core tr)"
  by (simp add: Client_ServerSetup_def core_handler core_simps split: list.splits)

lemma core_Client_PublishOk [core_simps]:
  "apsnd core (Client_PublishOk cid rid l g tr) = Client_PublishOk cid rid l g (core tr)"
  by (auto simp: Client_PublishOk_def core_handler core_simps split: option.splits)

lemma core_client_dispatch: "apsnd core (client_dispatch env cid msg tr) = client_dispatch env cid msg (core tr)"
  by (cases msg) (simp_all add: client_dispatch_def core_simps)

subsection \<open>Messages of the server\<close>

lemma core_remember_request [core_simps]:
  "core (remember_request cid rid tfn tr) = remember_request cid rid tfn (core tr)"
  by (simp add: remember_request_def core_handler core_simps)

lemma core_Server_Subscribe [core_simps]:
  "core (Server_Subscribe cid rid tfn priority order forward ft ps tr) =
     Server_Subscribe cid rid tfn priority order forward ft ps (core tr)"
  by (simp add: Server_Subscribe_def remember_request_def core_handler core_simps split: option.splits)

lemma core_Server_PublishNamespaceDone [core_simps]:
  "core (Server_PublishNamespaceDone env cid ns tr) = Server_PublishNamespaceDone env cid ns (core tr)"
  by (simp add: Server_PublishNamespaceDone_def Let_def core_simps) (subst core_fold, auto simp: core_handler core_simps split: option.splits)

lemma core_Server_Unsubscribe [core_simps]: "core (Server_Unsubscribe cid rid tr) = Server_Unsubscribe cid rid (core tr)"
  by (simp add: Server_Unsubscribe_def core_handler core_simps split: option.splits)

lemma core_Server_PublishDone [core_simps]: "core (Server_PublishDone cid rid tr) = Server_PublishDone cid rid (core tr)"
  by (simp add: Server_PublishDone_def recv_PublishDone_def core_handler core_simps split: option.splits)

lemma core_Server_ClientSetup [core_simps]:
  "core (Server_ClientSetup env cid versions ps tr) = Server_ClientSetup env cid versions ps (core tr)"
  by (simp add: Server_ClientSetup_def core_handler core_simps split: list.splits)

lemma core_Server_Fetch [core_simps]:
  "apsnd core (Server_Fetch env cid rid priority order ft g0 g1 tr) = Server_Fetch env cid rid priority order ft g0 g1 (core tr)"
  by (simp add: Server_Fetch_def core_handler core_simps split: FetchType.splits)

lemma core_Server_Publish [core_simps]:
  "apsnd core (Server_Publish cid rid tfn alias forward order ps tr) = Server_Publish cid rid tfn alias forward order ps (core tr)"
  by (auto simp: Server_Publish_def remember_request_def core_handler core_simps)

lemma core_Server_PublishOk [core_simps]:
  "core (Server_PublishOk cid rid forward priority order ft ps tr) = Server_PublishOk cid rid forward priority order ft ps (core tr)"
  by (simp add: Server_PublishOk_def remember_request_def core_handler core_simps split: option.splits)

lemma core_Server_SubscribeUpdate [core_simps]:
  "core (Server_SubscribeUpdate env cid rid sub_rid forward ps tr) =
     Server_SubscribeUpdate env cid rid sub_rid forward ps (core tr)"
  by (simp add: Server_SubscribeUpdate_def core_handler core_simps core_fold split: option.splits list.splits)

lemma core_server_dispatch: "apsnd core (server_dispatch env cid msg tr) = server_dispatch env cid msg (core tr)"
  by (cases msg) (simp_all add: server_dispatch_def core_simps)

end
