(* ===== verification/Control_Stream.thy ===== *)
theory Control_Stream
  imports Transport_Core Connection_Invariant Recording_Quic
begin

section \<open>Messages on the control stream\<close>

text \<open>
  The control stream delivers the octets of a sequence of control messages in pieces of any size. This
  theory shows that the read loop of \<open>OnRecvStream\<close> hands exactly these messages, in order, to the message handlers,
  whatever the pieces: the loop refines \<open>act_all\<close>, which runs the handlers on the messages themselves. The
  contract of a message processor is the locale \<open>ctrl_handler\<close>; the client's and the server's are its
  interpretations.
\<close>

text \<open>The specification: \<open>act\<close> handles one message of a given type and payload.\<close>

type_synonym 't ctrl_act = "u64 \<Rightarrow> u64 \<Rightarrow> bytes \<Rightarrow> 't Transport \<Rightarrow> bool result \<times> 't Transport"

fun act_all :: "'t ctrl_act \<Rightarrow> u64 \<Rightarrow> ControlMessage list \<Rightarrow> 't Transport \<Rightarrow> unit result \<times> 't Transport" where
  "act_all act cid [] tr = (Inr (), tr)"
| "act_all act cid (m # ms) tr =
     (case act cid (cm_type m) (cm_payload m) tr of
        (Inl e, tr) \<Rightarrow> (Inl e, tr)
      | (Inr ok, tr) \<Rightarrow> act_all act cid ms (if ok then tr else count_invalid_ctrl cid tr))"

lemma act_all_append:
  "act_all act cid (ms @ ms') tr =
     (case act_all act cid ms tr of (Inl e, tr) \<Rightarrow> (Inl e, tr) | (Inr _, tr) \<Rightarrow> act_all act cid ms' tr)"
  by (induction ms arbitrary: tr) (auto split: prod.splits sum.splits)

text \<open>The pieces of the stream, one after the other.\<close>

fun recv_ctrl_pieces ::
  "'t env \<Rightarrow> 't ctrl_processor \<Rightarrow> u64 \<Rightarrow> u64 option \<Rightarrow> bytes list \<Rightarrow> 't Transport \<Rightarrow> unit result \<times> 't Transport" where
  "recv_ctrl_pieces env process cid ctx [] tr = (Inr (), tr)"
| "recv_ctrl_pieces env process cid ctx (d # ds) tr =
     (case recv_ctrl env process cid ctx d tr of
        (Inl e, tr) \<Rightarrow> (Inl e, tr)
      | (Inr _, tr) \<Rightarrow> recv_ctrl_pieces env process cid ctx ds tr)"

text \<open>A message of a legal type and size whose handling does not depend on what follows it in the buffer.\<close>

definition sendable :: "ControlMessage \<Rightarrow> bool" where
  "sendable m \<longleftrightarrow> cm_type m < 2 ^ 62 \<and> length (cm_payload m) < 65536"

definition ignores_rest :: "'t ctrl_act \<Rightarrow> ControlMessage \<Rightarrow> bool" where
  "ignores_rest act m \<longleftrightarrow>
     (\<forall>cid rest tr. act cid (cm_type m) (cm_payload m @ rest) tr = act cid (cm_type m) (cm_payload m) tr)"

subsection \<open>Framing\<close>

definition body :: "ControlMessage \<Rightarrow> bytes" where
  "body m = enc_u16 (of_nat (length (cm_payload m))) @ cm_payload m"

lemma enc_body: "enc_ControlMessage m = varint_bytes (cm_type m) @ body m"
  by (simp add: enc_ControlMessage_def body_def)

definition unread :: "u64 option \<Rightarrow> bytes \<Rightarrow> ControlMessage list \<Rightarrow> bool" where
  "unread ty bs ms \<longleftrightarrow>
     (case ty of
        None \<Rightarrow> bs = concat (map enc_ControlMessage ms)
      | Some t \<Rightarrow> (\<exists>m ms'. ms = m # ms' \<and> t = cm_type m \<and> bs = body m @ concat (map enc_ControlMessage ms')))"

lemma split_prefix:
  assumes "buf @ fut = a @ tail" "length a \<le> length buf"
  obtains r where "buf = a @ r" "r @ fut = tail"
  using assms by (auto simp: append_eq_append_conv2)

lemma ctrl_type_whole:
  assumes "t < 2 ^ 62" shows "ctrl_type None (varint_bytes t @ rest) = Some (t, rest)"
proof -
  obtain u where u: "UintVar_of_value t = Inr u" using UintVar_of_value_bytes [OF assms] by simp
  show ?thesis
    using UintVar_of_bytes_varint [OF u, of "[]"] UintVar_of_value_wire(3) [OF u] Size_varint_bytes [OF assms]
    by (simp add: ctrl_type_def Let_def)
qed

lemma hd_part: "buf @ fut = a @ tail \<Longrightarrow> buf \<noteq> [] \<Longrightarrow> a \<noteq> [] \<Longrightarrow> hd buf = hd a"
  by (metis hd_append2)

text \<open>Reading the type of the next message: it takes the whole type or waits for more octets.\<close>

lemma type_step:
  assumes "unread ty (buf @ fut) (m # ms)" "sendable m" "buf \<noteq> []"
  obtains "ctrl_type ty buf = None" "fut \<noteq> []"
  | b where "ctrl_type ty buf = Some (cm_type m, b)" "unread (Some (cm_type m)) (b @ fut) (m # ms)"
proof (cases ty)
  case (Some t)
  then show thesis using assms(1) that(2) [of buf] by (auto simp: unread_def ctrl_type_def)
next
  case None
  let ?v = "varint_bytes (cm_type m)" and ?tail = "body m @ concat (map enc_ControlMessage ms)"
  have t: "cm_type m < 2 ^ 62" using assms(2) by (simp add: sendable_def)
  have eq: "buf @ fut = ?v @ ?tail" using assms(1) None by (simp add: unread_def enc_body)
  show thesis
  proof (cases "length ?v \<le> length buf")
    case True
    then obtain r where "buf = ?v @ r" "r @ fut = ?tail" using split_prefix [OF eq] by blast
    then show thesis using that(2) [of r] ctrl_type_whole [OF t] None by (simp add: unread_def)
  next
    case False
    have "UintVar_Size_msb (hd buf) = length ?v"
      using hd_part [OF eq assms(3)] Size_varint_bytes [OF t] by simp
    then have "ctrl_type ty buf = None" using False None by (simp add: ctrl_type_def Let_def)
    moreover have "fut \<noteq> []" using eq False by auto
    ultimately show thesis by (rule that(1))
  qed
qed

lemma SwapBytes16_enc: "SwapBytes16 (of_le_bytes (take 2 (enc_u16 v @ rest))) = v"
  using enc_u16_get [of v rest] by (simp add: get_u16_def enc_u16_def split: if_splits)

text \<open>Reading its length: the body is complete, or more octets are to come.\<close>

lemma length_step:
  assumes "unread (Some t) (b @ fut) (m # ms)" "sendable m"
  obtains "ctrl_payload_len b = None" "fut \<noteq> []"
  | r where "ctrl_payload_len b = Some (length (cm_payload m))" "b = body m @ r"
      "unread None (r @ fut) ms"
proof -
  let ?n = "length (cm_payload m)"
  have eq: "b @ fut = body m @ concat (map enc_ControlMessage ms)" using assms(1) by (simp add: unread_def)
  have n: "unat (of_nat ?n :: u16) = ?n" using assms(2) by (intro unat_of_nat_small) (simp add: sendable_def)
  have len: "length (body m) = ?n + 2" by (simp add: body_def enc_u16_def)
  have pre: "SwapBytes16 (of_le_bytes (take 2 b)) = of_nat ?n" if "2 \<le> length b"
  proof -
    have "take 2 b = take 2 (b @ fut)" using that by simp
    also have "\<dots> = take 2 (enc_u16 (of_nat ?n) @ cm_payload m @ concat (map enc_ControlMessage ms))"
      by (simp only: eq body_def append_assoc)
    finally show ?thesis by (simp only: SwapBytes16_enc)
  qed
  show thesis
  proof (cases "length (body m) \<le> length b")
    case True
    then obtain r where "b = body m @ r" "r @ fut = concat (map enc_ControlMessage ms)"
      using split_prefix [OF eq] by blast
    then show thesis using that(2) [of r] pre n len True by (simp add: ctrl_payload_len_def Let_def unread_def)
  next
    case False
    then have "ctrl_payload_len b = None" using pre n len by (simp add: ctrl_payload_len_def Let_def)
    moreover have "fut \<noteq> []" using eq False by auto
    ultimately show thesis by (rule that(1))
  qed
qed

subsection \<open>The read loop\<close>

text \<open>A connection that exists and has its control stream.\<close>

definition ctrl_ready :: "u64 \<Rightarrow> 't Transport \<Rightarrow> bool" where
  "ctrl_ready cid tr \<longleftrightarrow> map_wf (connections tr) \<and> map_find (connections tr) cid \<noteq> None \<and>
     ctrl_data_ctx_id (conn_at cid tr) \<noteq> None"

lemma ctrl_ready_evolves: "ctrl_ready cid tr \<Longrightarrow> evolves tr tr' \<Longrightarrow> ctrl_ready cid tr'"
  by (auto simp: ctrl_ready_def evolves_def conn_evolves_def)

lemma map_put_same: "map_wf m \<Longrightarrow> map_find m k = Some v \<Longrightarrow> map_put k v m = m"
  by (rule map_wf_eqI) (auto simp: map_put_wf map_put_find)

text \<open>Writing the control buffer is invisible to the core.\<close>

lemma core_put_strip:
  assumes "ctrl_ready cid tr" "strip_conn c = strip_conn (conn_at cid tr)"
  shows "core (put_conn cid c tr) = core tr"
proof -
  obtain c' where c': "map_find (connections tr) cid = Some c'" using assms(1) by (auto simp: ctrl_ready_def)
  then have "map_find (connections (core tr)) cid = Some (strip_conn c)"
    using assms(2) by (simp add: core_simps conn_at_found)
  moreover have "map_wf (connections (core tr))"
    using assms(1) by (simp add: ctrl_ready_def core_def map_wf_def o_def case_prod_unfold)
  ultimately show ?thesis by (simp only: core_writes(1)) (simp add: put_conn_def map_put_same)
qed

lemma core_set_ctrl: "ctrl_ready cid tr \<Longrightarrow> core (set_ctrl cid ty buf tr) = core tr"
  unfolding set_ctrl_def mod_conn_def by (rule core_put_strip) (simp_all add: core_simps)

lemma set_ctrl_reads [simp]:
  "ctrl_msg_type_received (conn_at cid (set_ctrl cid ty buf tr)) = ty"
  "ctrl_msg_buffer (conn_at cid (set_ctrl cid ty buf tr)) = buf"
  by (simp_all add: set_ctrl_def mod_conn_def)

lemma core_count_invalid [core_simps]: "core (count_invalid_ctrl cid tr) = count_invalid_ctrl cid (core tr)"
  by (simp add: count_invalid_ctrl_def mod_conn_def core_simps)

text \<open>What the loop leaves behind: it has handled the messages \<open>ms1\<close>, and \<open>ms2\<close> are still to be read.\<close>

definition handled :: "'t ctrl_act \<Rightarrow> u64 \<Rightarrow> bytes \<Rightarrow> ControlMessage list \<Rightarrow> ControlMessage list \<Rightarrow> 't Transport \<Rightarrow>
    bool result \<times> 't Transport \<Rightarrow> bool" where
  "handled act cid fut ms1 ms2 tr out \<longleftrightarrow>
     (case act_all act cid ms1 (core tr) of
        (Inl e, T) \<Rightarrow> fst out = Inl e \<and> core (snd out) = T
      | (Inr _, T) \<Rightarrow> (\<exists>all. fst out = Inr all) \<and> core (snd out) = T \<and> ctrl_ready cid (snd out) \<and>
          unread (ctrl_msg_type_received (conn_at cid (snd out))) (ctrl_msg_buffer (conn_at cid (snd out)) @ fut) ms2 \<and>
          (fut = [] \<longrightarrow> ms2 = []))"

lemma handled_none:
  assumes "ctrl_ready cid tr" "unread ty (buf @ fut) ms" "fut = [] \<longrightarrow> ms = []"
  shows "handled act cid fut [] ms tr (Inr all, set_ctrl cid ty buf tr)"
  using assms ctrl_ready_evolves [OF assms(1) evolves_set_ctrl [OF evolves_refl]] core_set_ctrl [OF assms(1)]
  by (simp add: handled_def)

locale ctrl_handler =
  fixes process :: "'t ctrl_processor" and act :: "'t ctrl_act"
  assumes process_core:
      "ctrl_msg_type_received (conn_at cid tr) = Some t \<Longrightarrow> apsnd core (process cid bs tr) = act cid t bs (core tr)"
    and process_evolving: "evolving process"
begin

lemma process_message:
  assumes "ctrl_ready cid tr" "ignores_rest act m" "process cid (cm_payload m @ r) (set_ctrl cid (Some (cm_type m)) b tr) = (x, tr')"
  shows "act cid (cm_type m) (cm_payload m) (core tr) = (x, core tr')" "ctrl_ready cid tr'"
proof -
  show "act cid (cm_type m) (cm_payload m) (core tr) = (x, core tr')"
    using process_core [of cid "set_ctrl cid (Some (cm_type m)) b tr" "cm_type m" "cm_payload m @ r"] assms
    by (simp add: core_set_ctrl ignores_rest_def)
  have "evolves tr (set_ctrl cid (Some (cm_type m)) b tr)" by (rule evolves_set_ctrl) simp
  moreover have "evolves (set_ctrl cid (Some (cm_type m)) b tr) tr'"
    using process_evolving assms(3) unfolding evolving_def by (metis snd_conv)
  ultimately show "ctrl_ready cid tr'" using assms(1) ctrl_ready_evolves by blast
qed

lemma loop_handles:
  assumes "\<forall>m \<in> set ms. sendable m \<and> ignores_rest act m" "ctrl_ready cid tr" "unread ty (buf @ fut) ms"
  shows "\<exists>ms1 ms2. ms = ms1 @ ms2 \<and> handled act cid fut ms1 ms2 tr (ctrl_loop process cid ty buf tr)"
  using assms
proof (induction ms arbitrary: ty buf tr)
  case Nil
  then have "buf = []" by (auto simp: unread_def split: option.splits)
  then show ?case using handled_none [of cid tr ty "[]" fut "[]" act True] Nil by (simp add: ctrl_loop.simps)
next
  case (Cons m ms)
  have m: "sendable m" "ignores_rest act m" using Cons.prems(1) by auto
  note stop = handled_none [OF Cons.prems(2), where act = act]
  show ?case
  proof (cases "buf = []")
    case True
    have "fut \<noteq> []" using Cons.prems(3) True by (auto simp: unread_def enc_body body_def enc_u16_def split: option.splits)
    then show ?thesis using stop [OF Cons.prems(3)] True by - (rule exI [of _ "[]"], simp add: ctrl_loop.simps)
  next
    case False
    from Cons.prems(3) m(1) False show ?thesis
    proof (cases rule: type_step)
      case 1
      then show ?thesis using stop [OF Cons.prems(3)] False by - (rule exI [of _ "[]"], simp add: ctrl_loop.simps)
    next
      case (2 b)
      from 2(2) m(1) show ?thesis
      proof (cases rule: length_step)
        case 1
        then show ?thesis using stop [OF 2(2)] 2(1) False by - (rule exI [of _ "[]"], simp add: ctrl_loop.simps)
      next
        case (2 r)
        obtain x tr' where p: "process cid (cm_payload m @ r) (set_ctrl cid (Some (cm_type m)) b tr) = (x, tr')" by fastforce
        note act = process_message [OF Cons.prems(2) m(2) p]
        let ?tr = "\<lambda>ok. if ok then tr' else count_invalid_ctrl cid tr'"
        have loop: "ctrl_loop process cid ty buf tr =
            (case x of Inl e \<Rightarrow> (Inl e, tr') | Inr ok \<Rightarrow> ctrl_loop process cid None r (?tr ok))"
          using False \<open>ctrl_type ty buf = _\<close> 2(1,2) p
          by (subst ctrl_loop.simps) (simp add: body_def enc_u16_def split: sum.splits)
        show ?thesis
        proof (cases x)
          case (Inl e)
          then show ?thesis using act(1) loop by - (rule exI [of _ "[m]"], simp add: handled_def)
        next
          case (Inr ok)
          have "ctrl_ready cid (?tr ok)"
            using act(2) ctrl_ready_evolves [OF act(2) evolves_count_invalid_ctrl [OF evolves_refl]] by simp
          from Cons.IH [OF _ this 2(3)] Cons.prems(1)
          obtain ms1 ms2 where IH: "ms = ms1 @ ms2" "handled act cid fut ms1 ms2 (?tr ok) (ctrl_loop process cid None r (?tr ok))"
            by auto
          then have "handled act cid fut (m # ms1) ms2 tr (ctrl_loop process cid ty buf tr)"
            using act(1) loop Inr by (cases ok) (simp_all add: handled_def core_simps)
          then show ?thesis using IH(1) by (metis append_Cons)
        qed
      qed
    qed
  qed
qed

lemma recv_ctrl_handles:
  assumes "\<forall>m \<in> set ms. sendable m \<and> ignores_rest act m" "ctrl_ready cid tr"
    "unread (ctrl_msg_type_received (conn_at cid tr)) (ctrl_msg_buffer (conn_at cid tr) @ d @ fut) ms"
  shows "\<exists>ms1 ms2 r tr'. ms = ms1 @ ms2 \<and> handled act cid fut ms1 ms2 tr (r, tr') \<and>
    recv_ctrl env process cid ctx d tr = (bind_result r (\<lambda>all. Inr (Ctrl_Continue all)), tr')"
proof -
  let ?c = "conn_at cid tr"
  let ?c1 = "?c\<lparr>ctrl_msg_buffer := ctrl_msg_buffer ?c @ d\<rparr>"
  let ?tr = "put_conn cid ?c1 (put_conn cid ?c1 tr)"
  have ctx: "ctrl_data_ctx_id ?c \<noteq> None" using assms(2) by (simp add: ctrl_ready_def)
  have ev: "evolves tr ?tr" by (intro evolves_put_conn) (simp_all add: conn_evolves_def conn_wf_def)
  have ready: "ctrl_ready cid ?tr" using ctrl_ready_evolves [OF assms(2) ev] .
  have core: "core ?tr = core tr"
    using core_put_strip [OF assms(2), of ?c1] by (simp add: put_conn_def core_simps)
  have un: "unread (ctrl_msg_type_received ?c) ((ctrl_msg_buffer ?c @ d) @ fut) ms" using assms(3) by simp
  obtain ms1 ms2 where "ms = ms1 @ ms2"
    "handled act cid fut ms1 ms2 ?tr (ctrl_loop process cid (ctrl_msg_type_received ?c) (ctrl_msg_buffer ?c @ d) ?tr)"
    using loop_handles [OF assms(1) ready un] by blast
  moreover have "recv_ctrl env process cid ctx d tr =
      (let (r, tr') = ctrl_loop process cid (ctrl_msg_type_received ?c) (ctrl_msg_buffer ?c @ d) ?tr
       in (bind_result r (\<lambda>all. Inr (Ctrl_Continue all)), tr'))"
    using ctx by (auto simp: recv_ctrl_def mod_conn_def Let_def)
  ultimately show ?thesis
    by (cases "ctrl_loop process cid (ctrl_msg_type_received ?c) (ctrl_msg_buffer ?c @ d) ?tr")
      (fastforce simp: handled_def core)
qed

lemma recv_pieces_handles:
  assumes "\<forall>m \<in> set ms. sendable m \<and> ignores_rest act m" "ctrl_ready cid tr"
    "unread (ctrl_msg_type_received (conn_at cid tr)) (ctrl_msg_buffer (conn_at cid tr) @ concat ds) ms" "ds = [] \<longrightarrow> ms = []"
  shows "apsnd core (recv_ctrl_pieces env process cid ctx ds tr) = act_all act cid ms (core tr) \<and>
    (fst (act_all act cid ms (core tr)) = Inr () \<longrightarrow>
      (let c = conn_at cid (snd (recv_ctrl_pieces env process cid ctx ds tr))
       in ctrl_msg_type_received c = None \<and> ctrl_msg_buffer c = []))"
  using assms
proof (induction ds arbitrary: ms tr)
  case Nil
  then show ?case by (auto simp: unread_def Let_def split: option.splits)
next
  case (Cons d ds)
  obtain ms1 ms2 r tr' where h: "ms = ms1 @ ms2" "handled act cid (concat ds) ms1 ms2 tr (r, tr')"
    "recv_ctrl env process cid ctx d tr = (bind_result r (\<lambda>all. Inr (Ctrl_Continue all)), tr')"
    using recv_ctrl_handles [OF Cons.prems(1,2), of d "concat ds" env ctx] Cons.prems(3) by auto
  show ?case
  proof (cases "act_all act cid ms1 (core tr)")
    case (Pair x T)
    show ?thesis
    proof (cases x)
      case (Inl e)
      then show ?thesis using h Pair by (simp add: handled_def act_all_append bind_result_def)
    next
      case (Inr u)
      then have g: "\<exists>all. r = Inr all" "core tr' = T" "ctrl_ready cid tr'"
        "unread (ctrl_msg_type_received (conn_at cid tr')) (ctrl_msg_buffer (conn_at cid tr') @ concat ds) ms2"
        "ds = [] \<longrightarrow> ms2 = []"
        using h(2) Pair by (auto simp: handled_def)
      have "\<forall>m \<in> set ms2. sendable m \<and> ignores_rest act m" using Cons.prems(1) h(1) by auto
      from Cons.IH [OF this g(3-5)] show ?thesis
        using h(1,3) Pair Inr g(1,2) by (auto simp: act_all_append bind_result_def)
    qed
  qed
qed

end

subsection \<open>Client and server\<close>

definition client_act :: "'t env \<Rightarrow> 't ctrl_act" where
  "client_act env cid t bs tr =
     (case get_msg env t bs of
        Inl e \<Rightarrow> (if caught e then Inr False else Inl e, tr)
      | Inr msg \<Rightarrow>
          (case client_dispatch env cid msg tr of
             (Inl e, tr) \<Rightarrow> (if caught e then Inr False else Inl e, tr)
           | (Inr ok, tr) \<Rightarrow> (Inr ok, tr)))"

definition server_act :: "'t env \<Rightarrow> 't ctrl_act" where
  "server_act env cid t bs tr =
     (case get_msg env t bs of
        Inl e \<Rightarrow> server_catch env cid e tr
      | Inr msg \<Rightarrow>
          (case server_dispatch env cid msg tr of
             (Inl e, tr) \<Rightarrow> server_catch env cid e tr
           | (Inr ok, tr) \<Rightarrow> (Inr ok, tr)))"

interpretation client_ctrl: ctrl_handler "Client_ProcessCtrlMessage env" "client_act env"
proof
  fix cid t bs and tr :: "'a Transport"
  assume "ctrl_msg_type_received (conn_at cid tr) = Some t"
  then show "apsnd core (Client_ProcessCtrlMessage env cid bs tr) = client_act env cid t bs (core tr)"
    by (auto simp: Client_ProcessCtrlMessage_def client_act_def bind_result_def simp flip: core_client_dispatch
        split: sum.splits prod.splits)
qed (rule evolving_client)

lemma core_server_catch: "apsnd core (server_catch env cid e tr) = server_catch env cid e (core tr)"
  by (simp add: server_catch_def core_simps)

interpretation server_ctrl: ctrl_handler "Server_ProcessCtrlMessage env" "server_act env"
proof
  fix cid t bs and tr :: "'a Transport"
  assume "ctrl_msg_type_received (conn_at cid tr) = Some t"
  then show "apsnd core (Server_ProcessCtrlMessage env cid bs tr) = server_act env cid t bs (core tr)"
    by (auto simp: Server_ProcessCtrlMessage_def server_act_def bind_result_def
        simp flip: core_server_dispatch core_server_catch split: sum.splits prod.splits)
qed (rule evolving_server)

subsection \<open>Properties\<close>

text \<open>The octets the peer writes for a sequence of messages, and what is relied on of the generated reader of a
  message: it reads the fields of the message and nothing behind them.\<close>

fun put_messages :: "bytes \<Rightarrow> ControlMessage list \<Rightarrow> bytes result" where
  "put_messages buf [] = Inr buf"
| "put_messages buf (m # ms) = bind_result (put_ControlMessage buf m) (\<lambda>b. put_messages b ms)"

definition reads_own_fields :: "'t env \<Rightarrow> ControlMessage \<Rightarrow> bool" where
  "reads_own_fields env m \<longleftrightarrow>
     (\<forall>rest. get_msg env (cm_type m) (cm_payload m @ rest) = get_msg env (cm_type m) (cm_payload m))"

lemma put_ControlMessage_type:
  "put_ControlMessage buf m = Inr w \<Longrightarrow> cm_type m < 2 ^ 62"
  using UintVar_of_value_wire(1) [of "cm_type m"]
  by (auto simp: put_ControlMessage_def put_u64_def bind_result_def split: sum.splits)

lemma put_messages_wire:
  "put_messages buf ms = Inr w \<Longrightarrow> (\<forall>m \<in> set ms. cm_type m < 2 ^ 62) \<and> w = buf @ concat (map enc_ControlMessage ms)"
proof (induction ms arbitrary: buf)
  case (Cons m ms)
  then obtain b where b: "put_ControlMessage buf m = Inr b" "put_messages b ms = Inr w"
    by (auto simp: bind_result_def split: sum.splits)
  then show ?case using Cons.IH [OF b(2)] put_ControlMessage_type [OF b(1)] ControlMessage_put [of m buf] by auto
qed simp

lemma stream_start:
  assumes "put_messages [] ms = Inr (concat pieces)" "\<forall>m \<in> set ms. length (cm_payload m) < 65536"
  shows "\<forall>m \<in> set ms. sendable m" "unread None ([] @ concat pieces) ms" "pieces = [] \<longrightarrow> ms = []"
  using put_messages_wire [OF assms(1)] assms(2)
  by (auto simp: sendable_def unread_def enc_ControlMessage_def)

text \<open>C2. The client's control stream: however the octets of a sequence of control messages are cut into pieces, the
  client handles exactly these messages, each once and in order, up to the first one whose handling fails for good.
  What a handler sees and does is the same as if it were given the message alone. When all pieces have arrived
  nothing is left in the buffer.\<close>

theorem client_control_stream:
  assumes "ctrl_ready cid tr" "ctrl_msg_type_received (conn_at cid tr) = None" "ctrl_msg_buffer (conn_at cid tr) = []"
    "put_messages [] ms = Inr (concat pieces)" "\<forall>m \<in> set ms. length (cm_payload m) < 65536 \<and> reads_own_fields env m"
  shows "apsnd core (recv_ctrl_pieces env (Client_ProcessCtrlMessage env) cid ctx pieces tr) =
      act_all (client_act env) cid ms (core tr) \<and>
    (fst (act_all (client_act env) cid ms (core tr)) = Inr () \<longrightarrow>
      (let c = conn_at cid (snd (recv_ctrl_pieces env (Client_ProcessCtrlMessage env) cid ctx pieces tr))
       in ctrl_msg_type_received c = None \<and> ctrl_msg_buffer c = []))"
  using client_ctrl.recv_pieces_handles [OF _ assms(1), where ms = ms and ds = pieces and env = env and enva = env and ctx = ctx] stream_start [OF assms(4)] assms(2,3,5)
  by (simp add: ignores_rest_def reads_own_fields_def client_act_def)

text \<open>C19. The server's control stream, in the same way.\<close>

theorem server_control_stream:
  assumes "ctrl_ready cid tr" "ctrl_msg_type_received (conn_at cid tr) = None" "ctrl_msg_buffer (conn_at cid tr) = []"
    "put_messages [] ms = Inr (concat pieces)" "\<forall>m \<in> set ms. length (cm_payload m) < 65536 \<and> reads_own_fields env m"
  shows "apsnd core (recv_ctrl_pieces env (Server_ProcessCtrlMessage env) cid ctx pieces tr) =
      act_all (server_act env) cid ms (core tr) \<and>
    (fst (act_all (server_act env) cid ms (core tr)) = Inr () \<longrightarrow>
      (let c = conn_at cid (snd (recv_ctrl_pieces env (Server_ProcessCtrlMessage env) cid ctx pieces tr))
       in ctrl_msg_type_received c = None \<and> ctrl_msg_buffer c = []))"
  using server_ctrl.recv_pieces_handles [OF _ assms(1), where ms = ms and ds = pieces and env = env and enva = env and ctx = ctx] stream_start [OF assms(4)] assms(2,3,5)
  by (simp add: ignores_rest_def reads_own_fields_def server_act_def)

text \<open>A client with one pending subscription receives SUBSCRIBE_OK and PUBLISH_DONE in pieces that cut both
  messages.\<close>

definition subscribed :: "bool \<Rightarrow> quic_call list Transport" where
  "subscribed client = \<lparr>client_mode = client, tr_status = Status_kReady, tr_stop = False,
     connections = [(5, ConnectionContext_new\<lparr>connection_handle := 5, ctrl_data_ctx_id := Some 1,
       sub_tracks_by_request_id := [(0, 3)]\<rparr>)],
     subs = (\<lambda>_. rec_sub), pubs = (\<lambda>_. rec_pub False), next_ptr = 9, alive = (\<lambda>_. True), quic = [], events = []\<rparr>"

definition two_messages :: "ControlMessage list" where
  "two_messages = [\<lparr>cm_type = 4, cm_payload = [0, 7]\<rparr>, \<lparr>cm_type = 11, cm_payload = [0]\<rparr>]"

lemma subscribed_ready:
  "ctrl_ready 5 (subscribed b)" "ctrl_msg_type_received (conn_at 5 (subscribed b)) = None"
  "ctrl_msg_buffer (conn_at 5 (subscribed b)) = []"
  by (simp_all add: ctrl_ready_def subscribed_def conn_at_def map_at_def ConnectionContext_new_def)

lemma two_messages_wire:
  "put_messages [] two_messages = Inr (concat [[4, 0], [2, 0], [7, 11, 0], [1, 0]])"
  "\<forall>m \<in> set two_messages. length (cm_payload m) < 65536 \<and> reads_own_fields rec_env m"
  by (code_simp, simp add: two_messages_def reads_own_fields_def rec_env_def rec_get_def)

lemma two_messages_handled:
  assumes "act = client_act rec_env \<or> act = server_act rec_env"
  shows "fst (act_all act 5 two_messages (core (subscribed b))) = Inr () \<and>
    st_status (subs (snd (act_all act 5 two_messages (core (subscribed b)))) 3) = SubscribeStatus_kNotSubscribed"
  using assms
  by (auto simp: two_messages_def client_act_def server_act_def rec_env_def rec_get_def client_dispatch_def server_dispatch_def
      recv_SubscribeOk_def recv_PublishDone_def Server_PublishDone_def set_latest_location_def mod_conn_def core_simps
      subscribed_def conn_at_def [of _ "\<lparr>client_mode = _, tr_status = _, tr_stop = _, connections = _, subs = _, pubs = _,
        next_ptr = _, alive = _, quic = _, events = _\<rparr>"] map_at_def)

lemma core_observe: "apsnd core x = y \<and> Q \<Longrightarrow> subs (snd x) = subs (snd y)"
  by (auto simp: core_reads)

theorem client_control_stream_witness:
  "st_status (subs (snd (recv_ctrl_pieces rec_env (Client_ProcessCtrlMessage rec_env) 5 None
     [[4, 0], [2, 0], [7, 11, 0], [1, 0]] (subscribed True))) 3) = SubscribeStatus_kNotSubscribed"
  using two_messages_handled [of "client_act rec_env" True]
    core_observe [OF client_control_stream [OF subscribed_ready two_messages_wire, where ctx = None, of True]]
  by simp

theorem server_control_stream_witness:
  "st_status (subs (snd (recv_ctrl_pieces rec_env (Server_ProcessCtrlMessage rec_env) 5 None
     [[4, 0], [2, 0], [7, 11, 0], [1, 0]] (subscribed False))) 3) = SubscribeStatus_kNotSubscribed"
  using two_messages_handled [of "server_act rec_env" False]
    core_observe [OF server_control_stream [OF subscribed_ready two_messages_wire, where ctx = None, of False]]
  by simp

end
