(* ===== verification/Subscriptions.thy ===== *)
theory Subscriptions
  imports Connection_Invariant Recording_Quic
begin

section \<open>Subscriptions and the data routed to them\<close>

text \<open>
  The life of a subscription: the request, the answer of the publisher with the track alias, data streams
  that carry the alias, and the end of the subscription or of the connection.
\<close>

subsection \<open>Reading the header of a data stream\<close>

lemma uintvar_size_at_varint:
  assumes "v < 2 ^ 62" shows "uintvar_size_at (pre @ varint_bytes v @ rest) (length pre) = Inr (length (varint_bytes v))"
proof -
  have "(varint_bytes v @ rest) ! 0 = hd (varint_bytes v)"
    using varint_bytes_ne [of v] by (cases "varint_bytes v") auto
  then show ?thesis using Size_varint_bytes [OF assms] varint_bytes_ne [of v]
    by (simp add: uintvar_size_at_def octet_at_def nth_append bind_result_def)
qed

lemma uintvar_at_varint:
  assumes "v < 2 ^ 62"
  shows "uintvar_at (pre @ varint_bytes v @ rest) (length pre) = Inr (v, length pre + length (varint_bytes v))"
proof -
  obtain u where u: "UintVar_of_value v = Inr u" using UintVar_of_value_bytes [OF assms] by simp
  show ?thesis
    using UintVar_of_bytes_varint [OF u, of "[]"] UintVar_of_value_wire(3) [OF u] uintvar_size_at_varint [OF assms, of pre rest]
    by (simp add: uintvar_at_def bind_result_def)
qed

lemma octet_at_here: "octet_at (pre @ b # rest) (length pre) = Inr b"
  by (simp add: octet_at_def)

lemma subgroup_header_read:
  assumes "hs_ok v" "put_StreamHeaderSubGroup [] v = Inr w"
  shows "subgroup_stream_header (hs_type v) (w @ rest) (length (varint_bytes (ucast (StreamHeaderType_value (hs_type v))))) =
    Inr (hs_track_alias v, hs_priority v)"
proof -
  let ?t = "varint_bytes (ucast (StreamHeaderType_value (hs_type v)))" and ?a = "varint_bytes (hs_track_alias v)"
    and ?g = "varint_bytes (hs_group_id v)"
  have w: "w = ?t @ ?a @ ?g @ hs_id v @ [hs_priority v]"
    using put_StreamHeaderSubGroup_ok [OF assms(1), of "[]"] assms(2) by simp
  have b: "hs_track_alias v < 2 ^ 62" "hs_group_id v < 2 ^ 62" using assms(1) by (simp_all add: hs_ok_def)
  obtain p where p: "StreamHeaderProperties_of (hs_type v) = Inr p" using assms(1) by (auto simp: hs_ok_def split: sum.splits)
  have al: "uintvar_at (w @ rest) (length ?t) = Inr (hs_track_alias v, length ?t + length ?a)"
    using uintvar_at_varint [OF b(1), of ?t] by (simp add: w)
  have gr: "uintvar_size_at (w @ rest) (length ?t + length ?a) = Inr (length ?g)"
    using uintvar_size_at_varint [OF b(2), of "?t @ ?a"] by (simp add: w)
  have sgid: "subgroup_id_type p = kExplicit \<Longrightarrow>
      uintvar_size_at (w @ rest) (length ?t + length ?a + length ?g) = Inr (length (hs_id v))"
    "subgroup_id_type p \<noteq> kExplicit \<Longrightarrow> hs_id v = []"
    using assms(1) p uintvar_size_at_varint [of "the (hs_subgroup_id v)" "?t @ ?a @ ?g"]
    by (auto simp: hs_ok_def hs_id_def w add.assoc)
  have prio: "octet_at (w @ rest) (length ?t + length ?a + length ?g + length (hs_id v)) = Inr (hs_priority v)"
    using octet_at_here [of "?t @ ?a @ ?g @ hs_id v"] by (simp add: w add.assoc)
  show ?thesis
    using al gr sgid prio p by (cases "subgroup_id_type p = kExplicit") (simp_all add: subgroup_stream_header_def bind_result_def)
qed

lemma subgroup_type_read:
  "hs_ok v \<Longrightarrow> TypeIsStreamHeaderType (StreamMessageType_of (StreamHeaderType_value (hs_type v))) = Inr True"
  by (cases "hs_type v") (simp_all add: hs_ok_def StreamHeaderProperties_of_def StreamMessageType_of_def)

text \<open>The start of a stream is routed by its track alias to the handler that is entered under it.\<close>

lemma new_data_stream_routed:
  assumes "hs_ok v" "put_StreamHeaderSubGroup [] v = Inr w"
    "map_find (sub_by_recv_track_alias (conn_at cid tr)) (hs_track_alias v) = Some h"
  shows "new_data_stream env cid sid (w @ rest) rx tr =
    (let (r, tr') = handler_StreamDataRecv env h True sid (w @ rest) (put_sub h ((subs tr h)\<lparr>st_priority := hs_priority v\<rparr>) tr)
     in (bind_result r (\<lambda>_. Inr (Some True)), rx\<lparr>rx_is_new := False, rx_caller := Some h\<rparr>, tr'))"
proof -
  let ?t = "ucast (StreamHeaderType_value (hs_type v)) :: u64"
  obtain d where d: "w @ rest = varint_bytes ?t @ d"
    using put_StreamHeaderSubGroup_ok [OF assms(1), of "[]"] assms(2) by auto
  obtain u where u: "UintVar_of_value ?t = Inr u" using UintVar_of_value_bytes [OF ucast_octet(1)] by blast
  have ty: "w @ rest \<noteq> []" "UintVar_Size_msb (hd (w @ rest)) = length (varint_bytes ?t)"
    "length (varint_bytes ?t) \<le> length (w @ rest)" "UintVar_of_bytes (take (length (varint_bytes ?t)) (w @ rest)) = Inr u"
    unfolding d using Size_varint_bytes [OF ucast_octet(1), of "StreamHeaderType_value (hs_type v)"]
      UintVar_of_bytes_varint [OF u, of "[]"] by simp_all
  have get: "(ucast (UintVar_Get u) :: u8) = StreamHeaderType_value (hs_type v)"
    using UintVar_of_value_wire(3) [OF u] by simp
  have "\<not> length (w @ rest) < length (varint_bytes ?t)" using ty(3) by simp
  then show ?thesis
    using subgroup_header_read [OF assms(1,2), of rest] assms(3) subgroup_type_read [OF assms(1)]
    unfolding new_data_stream_def Let_def ty(2,4)
    by (simp only: ty(1) if_False sum.case get hs_ok_type [OF assms(1)] if_True)
      (simp add: OnRecvSubgroup_def Let_def case_prod_unfold bind_result_def split: sum.splits)
qed

subsection \<open>From the request to the data\<close>

definition sub_state :: "u64 \<Rightarrow> hptr \<Rightarrow> u64 \<Rightarrow> 't Transport \<Rightarrow> bool" where
  "sub_state cid h rid tr \<longleftrightarrow> st_request_id (subs tr h) = Some rid \<and> st_has_transport (subs tr h) \<and>
     st_connection_handle (subs tr h) = cid \<and> map_find (sub_tracks_by_request_id (conn_at cid tr)) rid = Some h"

lemma SubscribeTrack_state:
  assumes "map_find (connections tr) cid = Some c" "\<not> st_publisher_initiated (subs tr h)" "h < next_ptr tr"
    "next_request_id c + 2 \<noteq> next_request_id c"
  shows "fst (SubscribeTrack env cid h tr) = Inr () \<and> sub_state cid h (next_request_id c) (snd (SubscribeTrack env cid h tr))"
  using assms
  by (auto simp: SubscribeTrack_def send_joining_fetch_def sub_state_def Let_def case_prod_unfold Send_defs map_find_put
      split: option.splits)

lemma recv_SubscribeOk_state:
  assumes "sub_state cid h rid tr"
  shows "st_status (subs (recv_SubscribeOk cid rid alias l ps tr) h) = SubscribeStatus_kOk \<and>
    st_received_track_alias (subs (recv_SubscribeOk cid rid alias l ps tr) h) = Some alias \<and>
    map_find (sub_by_recv_track_alias (conn_at cid (recv_SubscribeOk cid rid alias l ps tr))) alias = Some h \<and>
    sub_state cid h rid (recv_SubscribeOk cid rid alias l ps tr)"
  using assms
  by (auto simp: recv_SubscribeOk_def sub_state_def set_latest_location_def Let_def mod_conn_def map_find_put split: option.splits)

text \<open>C5. A subscription works: after \<^verbatim>\<open>SubscribeTrack\<close> on an open connection the handler holds the next request id
  and is entered under it; when SUBSCRIBE_OK for this id arrives, at a client or a server, its status is
  \<^verbatim>\<open>kOk\<close>, and from then on a data stream whose header was written with the alias of the answer is
  given to this handler, with its priority, together with the first octets of the stream; the stream remembers the
  handler.\<close>

theorem subscription_routes_data:
  assumes "map_find (connections tr) cid = Some c" "\<not> st_publisher_initiated (subs tr h)" "h < next_ptr tr"
    "hs_ok v" "put_StreamHeaderSubGroup [] v = Inr w"
  shows "let tr1 = snd (SubscribeTrack env cid h tr);
        ok = Msg_SubscribeOk (next_request_id c) (hs_track_alias v) expires order exists l ps;
        tr2 = snd (client_dispatch env cid ok tr1) in
      fst (SubscribeTrack env cid h tr) = Inr () \<and> st_request_id (subs tr1 h) = Some (next_request_id c) \<and>
      server_dispatch env' cid ok tr1 = client_dispatch env cid ok tr1 \<and>
      st_status (subs tr2 h) = SubscribeStatus_kOk \<and>
      new_data_stream env cid sid (w @ rest) rx tr2 =
        (let (r, tr3) = handler_StreamDataRecv env h True sid (w @ rest)
                          (put_sub h ((subs tr2 h)\<lparr>st_priority := hs_priority v\<rparr>) tr2)
         in (bind_result r (\<lambda>_. Inr (Some True)), rx\<lparr>rx_is_new := False, rx_caller := Some h\<rparr>, tr3))"
proof -
  have ne: "next_request_id c + 2 \<noteq> next_request_id c" by simp
  let ?tr1 = "snd (SubscribeTrack env cid h tr)"
  let ?tr2 = "recv_SubscribeOk cid (next_request_id c) (hs_track_alias v) l ps ?tr1"
  have s: "fst (SubscribeTrack env cid h tr) = Inr ()" "sub_state cid h (next_request_id c) ?tr1"
    using SubscribeTrack_state [OF assms(1-3) ne, of env] by simp_all
  note ok = recv_SubscribeOk_state [OF s(2), of "hs_track_alias v" l ps]
  show ?thesis
    unfolding Let_def using s ok new_data_stream_routed [OF assms(4,5), of cid ?tr2 h env sid rest rx]
    by (simp add: client_dispatch_def server_dispatch_def sub_state_def Let_def)
qed

text \<open>A client with an open connection.\<close>

definition open_conn :: "ConnectionContext \<Rightarrow> quic_call list Transport" where
  "open_conn c = \<lparr>client_mode = True, tr_status = Status_kReady, tr_stop = False, connections = [(5, c)],
     subs = (\<lambda>_. rec_sub), pubs = (\<lambda>_. rec_pub False), next_ptr = 9, alive = (\<lambda>_. True), quic = [], events = []\<rparr>"

definition open_context :: ConnectionContext where
  "open_context = ConnectionContext_new\<lparr>connection_handle := 5, ctrl_data_ctx_id := Some 1\<rparr>"

lemma open_conn_find [simp]: "map_find (connections (open_conn c)) 5 = Some c" "conn_at 5 (open_conn c) = c"
  by (simp_all add: open_conn_def conn_at_def map_at_def)

lemma header0_wire: "put_StreamHeaderSubGroup [] subgroup_header0 = Inr [24, 3, 4, 9]"
proof -
  have "varint_bytes 24 = [24]" "varint_bytes 3 = [3]" "varint_bytes 4 = [4]" by code_simp+
  then show ?thesis
    unfolding put_StreamHeaderSubGroup_ok [OF subgroup_header0_ok] by (simp add: subgroup_header0_def hs_id_def)
qed

definition rx_new :: StreamRxContext where
  "rx_new = \<lparr>rx_caller = None, rx_is_new = True, rx_unknown_expiry_tick_ms = 0, rx_queue = SafeQueue_new 10\<rparr>"

theorem subscription_routes_data_witness:
  "let tr2 = snd (client_dispatch rec_env 5 (Msg_SubscribeOk 0 3 0 GroupOrder_kAscending False None [])
                  (snd (SubscribeTrack rec_env 5 2 (open_conn open_context)))) in
   st_status (subs tr2 2) = SubscribeStatus_kOk \<and>
   rx_caller (fst (snd (new_data_stream rec_env 5 0 [24, 3, 4, 9] rx_new tr2))) = Some 2"
proof -
  have "\<not> st_publisher_initiated (subs (open_conn open_context) 2)" "2 < next_ptr (open_conn open_context)"
    "next_request_id open_context = 0" "hs_track_alias subgroup_header0 = 3"
    by (simp_all add: open_conn_def open_context_def ConnectionContext_new_def rec_sub_def Subscriber_new_def subgroup_header0_def)
  then show ?thesis
    using subscription_routes_data [OF open_conn_find(1) _ _ subgroup_header0_ok header0_wire, where c = open_context and h = 2
        and expires = 0 and order = GroupOrder_kAscending and exists = False and l = None and ps = "[]" and sid = 0
        and rest = "[]" and rx = rx_new and env = rec_env and env' = rec_env]
    by (simp add: Let_def case_prod_unfold)
qed

subsection \<open>The end of a connection\<close>

text \<open>On a closed connection nothing is sent, and only the handler itself changes.\<close>

lemma notify_sub_closed_eq:
  assumes "closed (conn_at cid tr)"
  shows "connections (notify_sub_closed env cid h tr) = connections tr" "quic (notify_sub_closed env cid h tr) = quic tr"
    "pubs (notify_sub_closed env cid h tr) = pubs tr" "conn_at k (notify_sub_closed env cid h tr) = conn_at k tr"
    "h' \<noteq> h \<Longrightarrow> subs (notify_sub_closed env cid h tr) h' = subs tr h'"
    "st_connection_handle (subs (notify_sub_closed env cid h tr) h') = st_connection_handle (subs tr h')"
    "st_connection_handle (subs tr h) = connection_handle (conn_at cid tr) \<Longrightarrow>
       st_status (subs (notify_sub_closed env cid h tr) h) = SubscribeStatus_kNotConnected"
  using assms by (auto simp: notify_sub_closed_def RemoveSubscribeTrack_def Let_def)

lemma notify_all_subs:
  assumes "closed (conn_at cid tr)"
  shows "connections (fold (notify_sub_closed env cid) hs tr) = connections tr \<and>
    quic (fold (notify_sub_closed env cid) hs tr) = quic tr \<and> pubs (fold (notify_sub_closed env cid) hs tr) = pubs tr \<and>
    (\<forall>h. h \<notin> set hs \<longrightarrow> subs (fold (notify_sub_closed env cid) hs tr) h = subs tr h) \<and>
    (\<forall>h \<in> set hs. st_connection_handle (subs tr h) = connection_handle (conn_at cid tr) \<longrightarrow>
       st_status (subs (fold (notify_sub_closed env cid) hs tr) h) = SubscribeStatus_kNotConnected)"
  using assms
proof (induction hs arbitrary: tr)
  case (Cons h hs)
  let ?tr = "notify_sub_closed env cid h tr"
  have c: "closed (conn_at cid ?tr)" using Cons.prems by (simp add: notify_sub_closed_eq)
  note eq = notify_sub_closed_eq [OF Cons.prems, where env = env and h = h]
  have h: "st_status (subs (fold (notify_sub_closed env cid) hs ?tr) h) = SubscribeStatus_kNotConnected"
    if "st_connection_handle (subs tr h) = connection_handle (conn_at cid tr)"
    using Cons.IH [OF c] eq(7) [OF that] eq(4,6) that by (cases "h \<in> set hs") auto
  show ?case using Cons.IH [OF c] eq(1-6) h by auto
qed simp

lemma notify_pub_closed_eq [simp]:
  "connections (notify_pub_closed h tr) = connections tr" "quic (notify_pub_closed h tr) = quic tr"
  "subs (notify_pub_closed h tr) = subs tr" "conn_at k (notify_pub_closed h tr) = conn_at k tr"
  "h' \<noteq> h \<Longrightarrow> pubs (notify_pub_closed h tr) h' = pubs tr h'"
  "publish_status (pb_handler (pubs (notify_pub_closed h tr) h)) = PublishStatus_kNotConnected"
  "pth_request_id (pb_handler (pubs (notify_pub_closed h tr) h)) = None"
  by (simp_all add: notify_pub_closed_def)

lemma notify_all_pubs:
  "connections (fold notify_pub_closed hs tr) = connections tr \<and> quic (fold notify_pub_closed hs tr) = quic tr \<and>
   subs (fold notify_pub_closed hs tr) = subs tr \<and>
   (\<forall>h. h \<notin> set hs \<longrightarrow> pubs (fold notify_pub_closed hs tr) h = pubs tr h) \<and>
   (\<forall>h \<in> set hs. publish_status (pb_handler (pubs (fold notify_pub_closed hs tr) h)) = PublishStatus_kNotConnected \<and>
      pth_request_id (pb_handler (pubs (fold notify_pub_closed hs tr) h)) = None)"
proof (induction hs arbitrary: tr)
  case (Cons h hs)
  then show ?case using Cons.IH [of "notify_pub_closed h tr"] by (cases "h \<in> set hs") auto
qed simp


definition busy_context :: ConnectionContext where
  "busy_context = open_context\<lparr>sub_tracks_by_request_id := [(0, 2)], pub_tracks_by_data_ctx_id := [(1, 4)]\<rparr>"


end
