(* ===== verification/Stream_Routing.thy ===== *)
theory Stream_Routing
  imports Control_Stream Subscriptions
begin

section \<open>Limits and faults of the receive callbacks\<close>

text \<open>
  How much of a stream one callback takes, and the received data that the callbacks lose, refuse or answer with an
  exception.
\<close>

subsection \<open>How much one callback reads\<close>

lemma new_data_stream_queue: "rx_queue (fst (snd (new_data_stream env cid sid data rx tr))) = rx_queue rx"
  by (simp add: new_data_stream_def OnRecvSubgroup_def OnRecvFetch_def Let_def case_prod_unfold
      split: sum.splits option.splits exn.splits)

abbreviation queued :: "StreamRxContext \<Rightarrow> bytes list" where
  "queued rx \<equiv> sq_queue (rx_queue rx)"

lemma queued_pop: "length (queued rx) \<le> Suc (length (queued (rx_pop rx)))"
  by (simp add: rx_pop_def sq_PopFront_def split: list.splits)

lemma data_loop_limit:
  "\<not> bidir \<Longrightarrow> length (queued rx) \<le> length (queued (fst (snd (recv_loop env process cid sid ctx bidir i rx tr)))) +
     (kReadLoopMaxPerStream - i)"
proof (induction env process cid sid ctx bidir i rx tr rule: recv_loop.induct)
  case (1 env process cid sid ctx bidir i rx tr)
  show ?case
  proof (cases "(i \<ge> kReadLoopMaxPerStream \<or> sq_Empty (rx_queue rx)) \<or> sq_Front (rx_queue rx) = None")
    case True
    then show ?thesis by (auto simp: recv_loop.simps)
  next
    case False
    then obtain data where go: "\<not> (i \<ge> kReadLoopMaxPerStream \<or> sq_Empty (rx_queue rx))"
      and data: "sq_Front (rx_queue rx) = Some data" by blast
    show ?thesis
    proof (cases "rx_is_new rx")
      case True
      obtain r rx' tr' where r: "new_data_stream env cid sid data rx tr = (r, rx', tr')" by (metis prod_cases3)
      have q: "rx_queue rx' = rx_queue rx" using new_data_stream_queue [of env cid sid data rx tr] r by simp
      note IH = 1(2) [OF go data 1(5) True r [symmetric] _ refl refl refl 1(5)]
      show ?thesis
      proof (cases "r = Inr (Some True)")
        case ok: True
        then show ?thesis
          using go data 1(5) True r IH [OF ok] queued_pop [of "rx\<lparr>rx_is_new := rx_is_new rx', rx_caller := rx_caller rx'\<rparr>"]
          by (subst recv_loop.simps) auto
      next
        case False
        then show ?thesis
          using go data 1(5) True r q by (subst recv_loop.simps) (auto split: sum.splits option.splits bool.splits)
      qed
    next
      case new: False
      show ?thesis
        using go data 1(5) new queued_pop [of rx] 1(3) [OF go data 1(5) new] 1(4) [OF go data 1(5) new]
        by (subst recv_loop.simps) (auto split: option.splits)
    qed
  qed
qed

text \<open>A piece that does not complete a control message.\<close>

lemma recv_ctrl_waits:
  assumes "ctrl_ready cid tr" "sendable m" "fut \<noteq> []" "d \<noteq> []"
    "unread (ctrl_msg_type_received (conn_at cid tr)) (ctrl_msg_buffer (conn_at cid tr) @ d @ fut) [m]"
  shows "\<exists>tr'. recv_ctrl env process cid ctx d tr = (Inr (Ctrl_Continue False), tr') \<and> ctrl_ready cid tr' \<and>
    unread (ctrl_msg_type_received (conn_at cid tr')) (ctrl_msg_buffer (conn_at cid tr') @ fut) [m]"
proof -
  let ?c = "conn_at cid tr"
  let ?c1 = "?c\<lparr>ctrl_msg_buffer := ctrl_msg_buffer ?c @ d\<rparr>" and ?ty = "ctrl_msg_type_received ?c"
    and ?buf = "ctrl_msg_buffer ?c @ d"
  let ?tr = "put_conn cid ?c1 (put_conn cid ?c1 tr)"
  have "evolves tr ?tr" by (intro evolves_put_conn) (simp_all add: conn_evolves_def conn_wf_def)
  then have ready: "ctrl_ready cid ?tr" using ctrl_ready_evolves [OF assms(1)] by blast
  have un: "unread ?ty (?buf @ fut) [m]" and ne: "?buf \<noteq> []" using assms(4,5) by auto
  have "\<exists>ty' b. ctrl_loop process cid ?ty ?buf ?tr = (Inr False, set_ctrl cid ty' b ?tr) \<and> unread ty' (b @ fut) [m]"
    using un assms(2) ne
  proof (cases rule: type_step)
    case 1
    then have "ctrl_loop process cid ?ty ?buf ?tr = (Inr False, set_ctrl cid ?ty ?buf ?tr)"
      using ne by (subst ctrl_loop.simps) simp
    then show ?thesis using un by blast
  next
    case (2 b)
    from 2(2) assms(2) show ?thesis
    proof (cases rule: length_step)
      case 1
      then have "ctrl_loop process cid ?ty ?buf ?tr = (Inr False, set_ctrl cid (Some (cm_type m)) b ?tr)"
        using ne 2(1) by (subst ctrl_loop.simps) simp
      then show ?thesis using 2(2) by blast
    next
      case (2 r)
      then show ?thesis using assms(3) by (simp add: unread_def)
    qed
  qed
  then obtain ty' b where l: "ctrl_loop process cid ?ty ?buf ?tr = (Inr False, set_ctrl cid ty' b ?tr)" "unread ty' (b @ fut) [m]"
    by blast
  have "recv_ctrl env process cid ctx d tr = (Inr (Ctrl_Continue False), set_ctrl cid ty' b ?tr)"
    using assms(1) l(1) by (auto simp: recv_ctrl_def mod_conn_def Let_def ctrl_ready_def bind_result_def)
  then show ?thesis
    using l(2) ctrl_ready_evolves [OF ready evolves_set_ctrl [OF evolves_refl]] by simp
qed

lemma recv_loop_drains:
  assumes "ctrl_ready cid tr" "sendable m" "fut \<noteq> []" "\<forall>d \<in> set ds. d \<noteq> []" "i < kReadLoopMaxPerStream"
    "unread (ctrl_msg_type_received (conn_at cid tr)) (ctrl_msg_buffer (conn_at cid tr) @ concat ds @ fut) [m]"
    "queued rx = ds" "sq_Empty (rx_queue rx) = (ds = [])"
  shows "\<exists>rx' tr'. recv_loop env process cid sid ctx True i rx tr = (Inr (), rx', tr') \<and> queued rx' = []"
  using assms
proof (induction ds arbitrary: tr i rx)
  case Nil
  then show ?case by (subst recv_loop.simps) simp
next
  case (Cons d ds)
  have un: "unread (ctrl_msg_type_received (conn_at cid tr)) (ctrl_msg_buffer (conn_at cid tr) @ d @ concat ds @ fut) [m]"
    using Cons.prems(6) by simp
  obtain tr' where r: "recv_ctrl env process cid ctx d tr = (Inr (Ctrl_Continue False), tr')" "ctrl_ready cid tr'"
    "unread (ctrl_msg_type_received (conn_at cid tr')) (ctrl_msg_buffer (conn_at cid tr') @ concat ds @ fut) [m]"
    using recv_ctrl_waits [OF Cons.prems(1,2) _ _ un, of env process ctx] Cons.prems(3,4) by auto
  have q: "queued (rx_pop rx) = ds" "sq_Empty (rx_queue (rx_pop rx)) = (ds = [])"
    using Cons.prems(7,8) by (simp_all add: rx_pop_def sq_PopFront_def sq_Empty_def)
  have "kReadLoopMaxPerStream - 4 + 1 < kReadLoopMaxPerStream" by (simp add: kReadLoopMaxPerStream_def)
  from Cons.IH [OF r(2) Cons.prems(2,3) _ this r(3) q] Cons.prems(4) show ?case
    using Cons.prems(5,7,8) r(1) by (subst recv_loop.simps) (simp add: sq_Front_def)
qed

text \<open>C25. The limit of 100 reads for each callback holds for data streams only: a data stream never gives up more than 100
  pieces in one callback; a control stream gives up every piece it has, however many, as long as the message they belong to is
  incomplete, because an incomplete message sets the counter back to 97.\<close>

theorem read_limits:
  assumes "ctrl_ready cid tr" "ctrl_msg_type_received (conn_at cid tr) = None" "ctrl_msg_buffer (conn_at cid tr) = []"
    "put_messages [] [m] = Inr (concat ds @ fut)" "length (cm_payload m) < 65536" "fut \<noteq> []" "\<forall>d \<in> set ds. d \<noteq> []"
    "queued rx = ds" "sq_Empty (rx_queue rx) = (ds = [])"
  shows "(\<exists>rx' tr'. OnRecvStream env process cid sid ctx True (Some rx) tr = (Inr (), Some rx', tr') \<and> queued rx' = []) \<and>
    length (queued rx1) \<le>
      length (queued (the (fst (snd (OnRecvStream env process cid1 sid1 ctx1 False (Some rx1) tr1))))) + 100"
proof
  have wire: "cm_type m < 2 ^ 62" "concat ds @ fut = enc_ControlMessage m" using put_messages_wire [OF assms(4)] by auto
  have "evolves tr (mod_conn cid (\<lambda>c. c) tr)" by (intro evolves_mod_conn) simp_all
  then have ready: "ctrl_ready cid (mod_conn cid (\<lambda>c. c) tr)" using ctrl_ready_evolves [OF assms(1)] by blast
  have "sendable m" using wire(1) assms(5) by (simp add: sendable_def)
  from recv_loop_drains [OF ready this assms(6,7) _ _ assms(8,9), of 0 env process sid ctx]
  show "\<exists>rx' tr'. OnRecvStream env process cid sid ctx True (Some rx) tr = (Inr (), Some rx', tr') \<and> queued rx' = []"
    using assms(2,3) wire(2) by (auto simp: OnRecvStream_def Let_def mod_conn_def unread_def kReadLoopMaxPerStream_def)
  show "length (queued rx1) \<le>
      length (queued (the (fst (snd (OnRecvStream env process cid1 sid1 ctx1 False (Some rx1) tr1))))) + 100"
    using data_loop_limit [of False rx1 env process cid1 sid1 ctx1 0 "mod_conn cid1 (\<lambda>c. c) tr1"]
    by (simp add: OnRecvStream_def Let_def case_prod_unfold kReadLoopMaxPerStream_def)
qed

subsection \<open>Streams and datagrams that are lost\<close>

lemma idle_loop:
  "\<not> rx_is_new rx \<Longrightarrow> rx_caller rx = None \<Longrightarrow> recv_loop env process cid sid ctx False i rx tr = (Inr (), rx, tr)"
proof (induction "kReadLoopMaxPerStream - i" arbitrary: i rule: less_induct)
  case less
  show ?case
  proof (cases "i \<ge> kReadLoopMaxPerStream \<or> sq_Empty (rx_queue rx)")
    case True
    then show ?thesis by (simp add: recv_loop.simps)
  next
    case False
    then have "kReadLoopMaxPerStream - (i + 1) < kReadLoopMaxPerStream - i" by auto
    from less.hyps [OF this less.prems] show ?thesis
      using False less.prems by (subst recv_loop.simps) (simp split: option.splits)
  qed
qed

lemma fetch_header_routed:
  assumes "fh_type v = FetchHeaderType_kFetchHeader" "put_FetchHeader [] v = Inr w"
  shows "new_data_stream env cid sid (w @ rest) rx tr =
    (let (r, rx', tr') = OnRecvFetch env 1 sid cid (w @ rest) rx tr in (bind_result r (\<lambda>p. Inr (Some p)), rx', tr'))"
    "uintvar_at (w @ rest) 1 = Inr (fh_request_id v, 1 + length (varint_bytes (fh_request_id v)))"
proof -
  have five: "varint_bytes 5 = [5]" "UintVar_Size_msb 5 = 1" by code_simp+
  obtain u where u: "UintVar_of_value (fh_request_id v) = Inr u"
    using assms(2) by (auto simp: put_FetchHeader_def put_u64_def bind_result_def split: sum.splits)
  note rid = UintVar_of_value_wire(1) [OF u]
  have w: "w = [5] @ varint_bytes (fh_request_id v)"
    using assms put_u64_ok [OF rid, of "[5]"] by (simp add: put_FetchHeader_def codec_simps five)
  obtain u5 where u5: "UintVar_of_value 5 = Inr u5" using UintVar_of_value_bytes [of 5] by simp
  have ty: "UintVar_of_bytes [5] = Inr u5" "UintVar_Get u5 = 5"
    using UintVar_of_bytes_varint [OF u5, of "[]"] UintVar_of_value_wire(3) [OF u5] by (simp_all add: five)
  show "uintvar_at (w @ rest) 1 = Inr (fh_request_id v, 1 + length (varint_bytes (fh_request_id v)))"
    using uintvar_at_varint [OF rid, of "[5]" rest] by (simp add: w)
  show "new_data_stream env cid sid (w @ rest) rx tr =
    (let (r, rx', tr') = OnRecvFetch env 1 sid cid (w @ rest) rx tr in (bind_result r (\<lambda>p. Inr (Some p)), rx', tr'))"
    by (simp add: new_data_stream_def w five ty Let_def StreamMessageType_of_def case_prod_unfold)
qed

text \<open>C29. A fetch stream whose request is not known when it starts is lost for good: the stream is marked as no longer new
  before the request is looked up, so its data stays in the queue, and no later callback reads the stream again, whatever
  arrives on it and even if the request is known by then. A subgroup stream with an unknown alias stays new and is tried
  again.\<close>

theorem unknown_fetch_stream_lost:
  assumes "fh_type v = FetchHeaderType_kFetchHeader" "put_FetchHeader [] v = Inr w"
    "map_find (sub_tracks_by_request_id (conn_at cid tr)) (fh_request_id v) = None"
    "rx_is_new rx" "rx_caller rx = None" "queued rx = (w @ rest) # ds" "\<not> sq_Empty (rx_queue rx)"
  shows "\<exists>rx' tr'. OnRecvStream env process cid sid ctx False (Some rx) tr = (Inr (), Some rx', tr') \<and>
      queued rx' = queued rx \<and>
      (\<forall>q tr2. OnRecvStream env process cid sid ctx False (Some (rx'\<lparr>rx_queue := q\<rparr>)) tr2 =
        (Inr (), Some (rx'\<lparr>rx_queue := q\<rparr>), mod_conn cid (\<lambda>c. c) tr2))"
proof -
  have n: "new_data_stream env cid sid (w @ rest) rx (mod_conn cid (\<lambda>c. c) tr) =
      (Inr (Some False), rx\<lparr>rx_is_new := False\<rparr>, mod_conn cid (\<lambda>c. c) tr)"
    using assms(3) by (simp add: fetch_header_routed [OF assms(1,2)] OnRecvFetch_def Let_def mod_conn_def bind_result_def
        del: One_nat_def)
  have "OnRecvStream env process cid sid ctx False (Some rx) tr =
      (Inr (), Some (rx\<lparr>rx_is_new := False, rx_unknown_expiry_tick_ms := 0\<rparr>), mod_conn cid (\<lambda>c. c) tr)"
    using assms(4,6,7) n
    by (simp add: OnRecvStream_def Let_def recv_loop.simps [of _ _ _ _ _ _ 0 rx] kReadLoopMaxPerStream_def sq_Front_def)
  then show ?thesis using assms(5) by (simp add: OnRecvStream_def Let_def idle_loop)
qed

text \<open>A datagram of an unknown type, of at least four octets, throws out of the callback: it is not counted as invalid
  and the datagrams behind it are not read. The count of invalid types never changes.\<close>

theorem unknown_datagram_throws:
  assumes "length data > 3" "hd data > 5"
  shows "OnRecvDgram env cid (data # queue) tr = (Inl (Protocol_Violation ''Unknown datagram message type''), tr) \<and>
    rx_dgram_invalid_type (conn_metrics (conn_at k (snd (recv_dgram env cid other tr)))) =
      rx_dgram_invalid_type (conn_metrics (conn_at k tr))"
proof
  have "DatagramMessageType_of (hd data) = DatagramMessageType_other (hd data)"
    using assms(2) by (auto simp: DatagramMessageType_of_def)
  then show "OnRecvDgram env cid (data # queue) tr = (Inl (Protocol_Violation ''Unknown datagram message type''), tr)"
    using assms(1) by (simp add: OnRecvDgram_def kReadLoopMaxPerStream_def recv_dgram_def)
  have t: "TypeIsDatagram t \<noteq> Inr False" for t by (cases t) auto
  have o: "conn_at k' (emit_objects h rs tr') = conn_at k' tr'" for k' h rs and tr' :: "'a Transport"
    unfolding emit_objects_def by (induction rs arbitrary: tr') auto
  show "rx_dgram_invalid_type (conn_metrics (conn_at k (snd (recv_dgram env cid other tr)))) =
      rx_dgram_invalid_type (conn_metrics (conn_at k tr))"
    using t [of "DatagramMessageType_of (hd other)"]
    by (auto simp: recv_dgram_def mod_metrics_def mod_conn_def Let_def o split: sum.splits option.splits bool.splits exn.splits)
qed

subsection \<open>Examples\<close>

definition queue_of :: "bytes list \<Rightarrow> StreamRxContext" where
  "queue_of ds = rx_new\<lparr>rx_queue := \<lparr>sq_empty = (ds = []), sq_stop_waiting = False, sq_limit = 500, sq_queue = ds\<rparr>\<rparr>"

theorem read_limits_witness:
  "\<exists>rx' tr'. OnRecvStream rec_env (Client_ProcessCtrlMessage rec_env) 5 0 None True
     (Some (queue_of ([4] # [3] # [232] # replicate 997 [7]))) (subscribed True) = (Inr (), Some rx', tr') \<and> queued rx' = []"
proof -
  let ?m = "\<lparr>cm_type = 4, cm_payload = replicate 1000 7\<rparr>" and ?ds = "[4] # [3] # [232] # replicate 997 [7]"
  have "enc_ControlMessage ?m = [4, 3, 232] @ replicate 1000 7"
  proof -
    have "varint_bytes 4 = [4]" "enc_u16 1000 = [3, 232]" by code_simp+
    then show ?thesis by (simp add: enc_ControlMessage_def del: replicate.simps)
  qed
  moreover have "concat (replicate n [x]) = replicate n x" for n and x :: u8 by (induction n) auto
  moreover have "replicate 1000 (7 :: u8) = replicate 997 7 @ replicate 3 7" by (simp only: replicate_add [symmetric]) simp
  ultimately have w: "put_messages [] [?m] = Inr (concat ?ds @ replicate 3 7)"
    using ControlMessage_put [of ?m "[]"] by (simp add: bind_result_def del: replicate.simps)
  show ?thesis
    using read_limits [OF subscribed_ready w, where rx = "queue_of ?ds" and env = rec_env and sid = 0 and ctx = None
        and process = "Client_ProcessCtrlMessage rec_env", of True]
    by (simp add: queue_of_def sq_Empty_def del: replicate.simps)
qed

definition fetch7 :: FetchHeader where
  "fetch7 = \<lparr>current_pos = 0, parse_completed = False, fh_type = FetchHeaderType_kFetchHeader, fh_request_id = 7\<rparr>"

theorem unknown_fetch_stream_lost_witness:
  "\<exists>rx' tr'. OnRecvStream rec_env (Client_ProcessCtrlMessage rec_env) 5 0 None False (Some (queue_of [[5, 7, 1]])) (subscribed True) =
      (Inr (), Some rx', tr') \<and> queued rx' = [[5, 7, 1]]"
proof -
  have "varint_bytes 5 = [5]" "varint_bytes 7 = [7]" by code_simp+
  then have w: "put_FetchHeader [] fetch7 = Inr [5, 7]" by (simp add: put_FetchHeader_def fetch7_def codec_simps)
  have "map_find (sub_tracks_by_request_id (conn_at 5 (subscribed True))) (fh_request_id fetch7) = None"
    by (simp add: subscribed_def fetch7_def conn_at_def map_at_def)
  from unknown_fetch_stream_lost [OF _ w this, of "queue_of [[5, 7, 1]]" "[1]" "[]" rec_env "Client_ProcessCtrlMessage rec_env" 0 None]
  show ?thesis by (auto simp: queue_of_def rx_new_def fetch7_def sq_Empty_def)
qed

theorem unknown_datagram_throws_witness:
  "fst (OnRecvDgram rec_env 5 [[9, 0, 0, 0], [0, 0, 0, 0]] (subscribed True)) =
     Inl (Protocol_Violation ''Unknown datagram message type'')"
  using unknown_datagram_throws [of "[9, 0, 0, 0]" rec_env 5 "[[0, 0, 0, 0]]" "subscribed True"] by simp

end
