(* ===== verification/Published_Tracks.thy ===== *)
theory Published_Tracks
  imports Subscriptions
begin

section \<open>Published tracks\<close>

text \<open>
  The life of a published track at a client: PUBLISH and its answer, or the announcement of the namespace, its
  answer and the first subscription; and what \<^verbatim>\<open>UnpublishTrack\<close> leaves behind.
\<close>

lemma bind_publisher_frame [simp]:
  "connections (bind_publisher env cid h tr) = connections tr" "conn_at k (bind_publisher env cid h tr) = conn_at k tr"
  "subs (bind_publisher env cid h tr) = subs tr"
  "publish_status (pb_handler (pubs (bind_publisher env cid h tr) h')) = publish_status (pb_handler (pubs tr h'))"
  "pth_request_id (pb_handler (pubs (bind_publisher env cid h tr) h')) = pth_request_id (pb_handler (pubs tr h'))"
  "pth_track_alias (pb_handler (pubs (bind_publisher env cid h tr) h')) = pth_track_alias (pb_handler (pubs tr h'))"
  "pb_full_track_name (pubs (bind_publisher env cid h tr) h') = pb_full_track_name (pubs tr h')"
  by (simp_all add: bind_publisher_def Let_def case_prod_unfold)

lemma hold_publisher_frame [simp]:
  "pubs (hold_publisher cid h src th tr) = pubs tr" "subs (hold_publisher cid h src th tr) = subs tr"
  "quic (hold_publisher cid h src th tr) = quic tr"
  "pub_tracks_by_request_id (conn_at cid (hold_publisher cid h src th tr)) = pub_tracks_by_request_id (conn_at cid tr)"
  "pub_tracks_ns_by_request_id (conn_at cid (hold_publisher cid h src th tr)) = pub_tracks_ns_by_request_id (conn_at cid tr)"
  "connection_handle (conn_at cid (hold_publisher cid h src th tr)) = connection_handle (conn_at cid tr)"
  "GetPubTrackHandler (conn_at cid (hold_publisher cid h src th tr)) th = Some h"
  by (simp_all add: hold_publisher_def mod_conn_def GetPubTrackHandler_def map_find_put)

text \<open>What \<^verbatim>\<open>PublishTrack\<close> establishes: the request is entered, and the track is found by its name.\<close>

lemma PublishTrack_state:
  assumes "map_find (connections tr) cid = Some c" "\<not> use_announce (pb_handler (pubs tr h))"
  shows "fst (PublishTrack env cid h tr) = Inr ()"
    "publish_status (pb_handler (pubs (snd (PublishTrack env cid h tr)) h)) = PublishStatus_kPendingPublishOk"
    "pth_request_id (pb_handler (pubs (snd (PublishTrack env cid h tr)) h)) = Some (next_request_id c)"
    "map_find (pub_tracks_by_request_id (conn_at cid (snd (PublishTrack env cid h tr)))) (next_request_id c) = Some h"
  using assms
  by (simp_all add: PublishTrack_def publish_track_def Let_def case_prod_unfold Send_defs mod_conn_def map_find_put)


lemma PublishTrack_announce_state:
  assumes "map_find (connections tr) cid = Some c" "use_announce (pb_handler (pubs tr h))"
    "th = track_hash (pb_full_track_name (pubs tr h))" "map_find (pub_tracks_by_name c) (track_namespace_hash th) = None"
    "tr1 = snd (PublishTrack env cid h tr)"
  shows "fst (PublishTrack env cid h tr) = Inr ()"
    "publish_status (pb_handler (pubs tr1 h)) = PublishStatus_kPendingAnnounceResponse"
    "pth_track_alias (pb_handler (pubs tr1 h)) \<noteq> None" "pb_full_track_name (pubs tr1 h) = pb_full_track_name (pubs tr h)"
    "map_find (pub_tracks_ns_by_request_id (conn_at cid tr1)) (next_request_id c) = Some (track_namespace_hash th)"
    "map_find (pub_tracks_by_name (conn_at cid tr1)) (track_namespace_hash th) = Some [(track_name_hash th, h)]"
    "connection_handle (conn_at cid tr1) = connection_handle c" "map_find (connections tr1) cid = Some (conn_at cid tr1)"
  using assms(1-4) unfolding assms(5)
  by (auto simp: PublishTrack_def announce_track_def hold_publisher_def Let_def case_prod_unfold Send_defs mod_conn_def
      map_find_put map_at_def split: option.splits)


subsection \<open>What unpublishing leaves behind\<close>

text \<open>C28. Unpublishing a track that is not announced leaves it half registered: the data context that is deleted in the
  QUIC transport is number 0 whatever the context of the track was, since the handler's context id is cleared first; the
  table by data context keeps its entry; and the entry of the request in \<^verbatim>\<open>recv_req_id\<close> stays unless its request id
  happens to equal the hash of the track name, which is what is erased.\<close>

theorem unpublish_leaks:
  assumes "map_find (connections tr) cid = Some c" "pub_request_id h tr = Some rid"
    "\<not> use_announce (pb_handler (pubs tr h))" "th = track_hash (pb_full_track_name (pubs tr h))"
    "map_find (pub_tracks_by_name c) (track_namespace_hash th) = Some names" "map_find names (track_name_hash th) = Some h"
  shows "let tr' = snd (UnpublishTrack env cid h tr) in
    fst (UnpublishTrack env cid h tr) = Inr () \<and> (\<exists>q. quic tr' = it_DeleteDataContext env cid 0 False q) \<and>
    pub_tracks_by_data_ctx_id (conn_at cid tr') = pub_tracks_by_data_ctx_id c \<and>
    (rid \<noteq> track_fullname_hash th \<longrightarrow> map_find (recv_req_id (conn_at cid tr')) rid = map_find (recv_req_id c) rid)"
  using assms
  by (auto simp: UnpublishTrack_def unpublish_name_def pub_request_id_def Let_def mod_conn_def Send_defs map_erase_find
      split: option.splits)

lemma unpublish_last_name:
  assumes "map_find (connections tr) cid = Some c" "pub_request_id h tr = Some rid"
    "\<not> use_announce (pb_handler (pubs tr h))" "th = track_hash (pb_full_track_name (pubs tr h))"
    "map_find (pub_tracks_by_name c) (track_namespace_hash th) = Some [(track_name_hash th, h)]"
    "tr' = snd (UnpublishTrack env cid h tr)"
  shows "map_find (pub_tracks_by_name (conn_at cid tr')) (track_namespace_hash th) = Some []"
    "map_find (connections tr') cid = Some (conn_at cid tr')" "k \<noteq> h \<Longrightarrow> pubs tr' k = pubs tr k"
  using assms(1-5) unfolding assms(6)
  by (auto simp: UnpublishTrack_def unpublish_name_def pub_request_id_def Let_def mod_conn_def Send_defs map_erase_find
      map_find_put map_erase_def split: option.splits)

text \<open>A sequence of legal calls with undefined behaviour: when the only track of a namespace, published without
  announcing, is unpublished, the empty entry of the namespace stays, and publishing a track of the same namespace with
  announcing dereferences the first element of the empty map.\<close>

theorem republish_undefined:
  assumes "map_find (connections tr) cid = Some c" "pub_request_id h tr = Some rid"
    "\<not> use_announce (pb_handler (pubs tr h))" "th = track_hash (pb_full_track_name (pubs tr h))"
    "map_find (pub_tracks_by_name c) (track_namespace_hash th) = Some [(track_name_hash th, h)]"
    "k \<noteq> h" "use_announce (pb_handler (pubs tr k))"
    "track_namespace_hash (track_hash (pb_full_track_name (pubs tr k))) = track_namespace_hash th"
  shows "fst (PublishTrack env cid k (snd (UnpublishTrack env cid h tr))) = Inl Undefined_Behaviour"
  using unpublish_last_name(1,2) [OF assms(1-5) refl, of env] unpublish_last_name(3) [OF assms(1-5) refl assms(6), of env] assms(7,8)
  by (simp add: PublishTrack_def announce_track_def Let_def case_prod_unfold)

subsection \<open>Examples\<close>

definition th0 :: TrackHash where "th0 = track_hash rec_name"

definition published_context :: ConnectionContext where
  "published_context = open_context\<lparr>recv_req_id := [(0, \<lparr>sc_track_full_name = rec_name, sc_track_hash = th0, sc_largest_location = None\<rparr>)],
     pub_tracks_by_name := [(track_namespace_hash th0, [(track_name_hash th0, 4)])], pub_tracks_by_data_ctx_id := [(1, 4)]\<rparr>"

definition published :: "quic_call list Transport" where
  "published = put_pub 4 ((rec_pub False)\<lparr>pb_handler := (rec_handler False)\<lparr>pth_request_id := Some 0\<rparr>\<rparr>)
     (put_pub 6 (rec_pub True) (open_conn published_context))"

lemma published_facts:
  "map_find (connections published) 5 = Some published_context" "pub_request_id 4 published = Some 0"
  "\<not> use_announce (pb_handler (pubs published 4))" "use_announce (pb_handler (pubs published 6))"
  "th0 = track_hash (pb_full_track_name (pubs published 4))" "th0 = track_hash (pb_full_track_name (pubs published 6))"
  "map_find (pub_tracks_by_name published_context) (track_namespace_hash th0) = Some [(track_name_hash th0, 4)]"
  by (simp_all add: published_def pub_request_id_def rec_pub_def rec_handler_def PublishTrackHandler_new_def th0_def
      published_context_def)



theorem unpublish_leaks_witness:
  "pub_tracks_by_data_ctx_id (conn_at 5 (snd (UnpublishTrack rec_env 5 4 published))) = [(1, 4)]"
  using unpublish_leaks [OF published_facts(1-3,5,7), of rec_env] by (simp add: Let_def published_context_def)

theorem republish_undefined_witness:
  "fst (PublishTrack rec_env 5 6 (snd (UnpublishTrack rec_env 5 4 published))) = Inl Undefined_Behaviour"
  by (rule republish_undefined [OF published_facts(1-3,5,7) _ published_facts(4)]) (simp_all flip: published_facts(6))

end
