(* ===== verification/Relay_Namespaces.thy ===== *)
theory Relay_Namespaces
  imports Subscriptions
begin

section \<open>Namespaces announced by a relay\<close>

text \<open>
  A relay announces a namespace to the subscribers of a prefix of it in two ways: when the namespace is published
  (\<^verbatim>\<open>ResolvePublishNamespace\<close>) and when the subscription is made after that
  (\<^verbatim>\<open>ResolveSubscribeNamespace\<close>). \<^verbatim>\<open>ResolvePublishNamespaceDone\<close> withdraws it.
\<close>

abbreviation ns_key :: "TrackNamespace \<Rightarrow> u64" where
  "ns_key ns \<equiv> track_fullname_hash (ns_hash ns)"

lemma announce_to_state:
  assumes "map_find (connections tr) k = Some c"
  shows "map_find (connections (announce_to env ns k tr)) k = Some (conn_at k (announce_to env ns k tr))"
    "pub_namespaces_by_request_id (conn_at k (announce_to env ns k tr)) =
       map_put (ns_key ns) (next_request_id c) (pub_namespaces_by_request_id c)"
  using assms by (simp_all add: announce_to_def Let_def case_prod_unfold Send_defs mod_conn_def)

lemma announce_matching_state:
  assumes "map_find (connections tr) k = Some c" "IsPrefixOf pfx ns"
  shows "map_find (connections (announce_matching env k pfx ns tr)) k = Some (conn_at k (announce_matching env k pfx ns tr))"
    "pub_namespaces_by_request_id (conn_at k (announce_matching env k pfx ns tr)) =
       map_put (ns_key pfx) (next_request_id c) (pub_namespaces_by_request_id c)"
  using assms conn_at_found [OF assms(1)]
  by (simp_all add: announce_matching_def Let_def case_prod_unfold Send_defs mod_conn_def)


definition one_entry :: TrackNamespace where
  "one_entry = \<lparr>ns_bytes = [1], ns_entries = [(0, 1)], ns_hashes = [7]\<rparr>"


end
