(* ===== verification/Tick_Service.thy ===== *)
theory Tick_Service
  imports Wrap64
begin

section \<open>The tick service\<close>

text \<open>
  \<^verbatim>\<open>ThreadedTickService\<close> of \<^verbatim>\<open>detail/tick_service.h\<close>: a thread that adds up the time
  that passes on the steady clock, in microseconds. The clock is the list of its readings, in
  nanoseconds, one for each iteration of the loop; the casts to microseconds truncate. The other
  containers only see \<^verbatim>\<open>Milliseconds\<close>.
\<close>

record ThreadedTickService =
  ticks :: nat
  sleep_delay_us :: nat
  ts_stop :: bool
  prev_time :: nat

definition TickService_new :: "nat \<Rightarrow> nat \<Rightarrow> ThreadedTickService" where
  "TickService_new delay now = \<lparr>ticks = 0, sleep_delay_us = delay, ts_stop = False, prev_time = now\<rparr>"

definition Microseconds :: "ThreadedTickService \<Rightarrow> nat" where
  "Microseconds ts = ticks ts"

definition Milliseconds :: "ThreadedTickService \<Rightarrow> nat" where
  "Milliseconds ts = ticks ts div 1000"

definition tick_iteration :: "nat \<Rightarrow> ThreadedTickService \<Rightarrow> ThreadedTickService" where
  "tick_iteration now ts =
     (let delta = sub64 now (prev_time ts) div 1000 in
      if delta \<ge> sleep_delay_us ts then ts\<lparr>ticks := add64 (ticks ts) delta, prev_time := now\<rparr> else ts)"

fun TickLoop :: "nat list \<Rightarrow> ThreadedTickService \<Rightarrow> ThreadedTickService" where
  "TickLoop [] ts = ts"
| "TickLoop (now # nows) ts = (if ts_stop ts then ts else TickLoop nows (tick_iteration now ts))"

lemma div_1000_bounds: "1000 * (n div 1000) \<le> (n :: nat)" "n \<le> 1000 * (n div 1000) + 999"
proof -
  have "1000 * (n div 1000) + n mod 1000 = n" "n mod 1000 < 1000" by simp_all
  then show "1000 * (n div 1000) \<le> n" "n \<le> 1000 * (n div 1000) + 999" by linarith+
qed

lemma tick_iteration_bounds:
  assumes "prev_time ts \<le> now" "now < limit64" "ticks ts + now \<le> limit64 - 1 + prev_time ts"
  shows "1000 * ticks (tick_iteration now ts) + prev_time ts \<le> 1000 * ticks ts + prev_time (tick_iteration now ts)"
    "prev_time (tick_iteration now ts) + 1000 * ticks ts \<le> prev_time ts + 1000 * ticks (tick_iteration now ts) + 999"
    "ticks ts \<le> ticks (tick_iteration now ts)" "prev_time (tick_iteration now ts) \<le> now"
    "(now - prev_time (tick_iteration now ts)) div 1000 < max 1 (sleep_delay_us ts)"
    "ticks (tick_iteration now ts) + prev_time ts \<le> ticks ts + prev_time (tick_iteration now ts)"
proof -
  obtain d where now: "now = prev_time ts + d" using assms(1) le_Suc_ex by blast
  define q where "q = d div 1000"
  have q: "1000 * q \<le> d" "d \<le> 1000 * q + 999" using div_1000_bounds [of d] by (simp_all add: q_def)
  have d: "sub64 now (prev_time ts) = d" using assms now by (simp add: sub64_small)
  have a: "add64 (ticks ts) q = ticks ts + q" using assms q now limit64_pos by (intro add64_small) linarith
  have it: "tick_iteration now ts =
      (if sleep_delay_us ts \<le> q then ts\<lparr>ticks := ticks ts + q, prev_time := now\<rparr> else ts)"
    by (simp add: tick_iteration_def d a flip: q_def)
  show "1000 * ticks (tick_iteration now ts) + prev_time ts \<le> 1000 * ticks ts + prev_time (tick_iteration now ts)"
    "prev_time (tick_iteration now ts) + 1000 * ticks ts \<le> prev_time ts + 1000 * ticks (tick_iteration now ts) + 999"
    "ticks ts \<le> ticks (tick_iteration now ts)" "prev_time (tick_iteration now ts) \<le> now"
    "ticks (tick_iteration now ts) + prev_time ts \<le> ticks ts + prev_time (tick_iteration now ts)"
    unfolding it using q now by simp_all
  show "(now - prev_time (tick_iteration now ts)) div 1000 < max 1 (sleep_delay_us ts)"
    unfolding it using now by (simp add: less_max_iff_disj flip: q_def)
qed

text \<open>On a clock that never goes back, the count of microseconds never runs ahead of the clock and
  never decreases, and it falls behind by less than one microsecond for each iteration of the loop,
  plus the sleep delay that has to pass before an interval is counted.\<close>

theorem TickLoop_accuracy:
  assumes "\<not> ts_stop ts" "sorted (prev_time ts # nows)" "\<forall>now \<in> set nows. now < limit64"
    "\<forall>now \<in> set nows. ticks ts + now \<le> limit64 - 1 + prev_time ts" "nows \<noteq> []"
  shows "let ts' = TickLoop nows ts; elapsed = last nows - prev_time ts; counted = Microseconds ts' - Microseconds ts in
    Microseconds ts \<le> Microseconds ts' \<and> 1000 * counted \<le> elapsed \<and>
    elapsed \<le> 1000 * counted + 999 * length nows + 1000 * max 1 (sleep_delay_us ts)"
proof -
  have gen: "1000 * ticks (TickLoop nows ts) + prev_time ts \<le> 1000 * ticks ts + prev_time (TickLoop nows ts) \<and>
      prev_time (TickLoop nows ts) + 1000 * ticks ts \<le> prev_time ts + 1000 * ticks (TickLoop nows ts) + 999 * length nows \<and>
      ticks ts \<le> ticks (TickLoop nows ts) \<and>
      (nows \<noteq> [] \<longrightarrow> prev_time (TickLoop nows ts) \<le> last nows \<and>
        (last nows - prev_time (TickLoop nows ts)) div 1000 < max 1 (sleep_delay_us ts))"
    using assms(1-4)
  proof (induction nows arbitrary: ts)
    case (Cons now nows)
    let ?ts = "tick_iteration now ts"
    have b: "prev_time ts \<le> now" "now < limit64" "ticks ts + now \<le> limit64 - 1 + prev_time ts" using Cons.prems by auto
    note ib = tick_iteration_bounds [OF b]
    have same: "ts_stop ?ts = ts_stop ts" "sleep_delay_us ?ts = sleep_delay_us ts" by (simp_all add: tick_iteration_def Let_def)
    have "sorted (prev_time ?ts # nows)" using Cons.prems(2) ib(4) by auto
    moreover have "\<forall>n \<in> set nows. ticks ?ts + n \<le> limit64 - 1 + prev_time ?ts" using Cons.prems(4) ib(6) by fastforce
    ultimately have IH: "1000 * ticks (TickLoop nows ?ts) + prev_time ?ts \<le> 1000 * ticks ?ts + prev_time (TickLoop nows ?ts)"
      "prev_time (TickLoop nows ?ts) + 1000 * ticks ?ts \<le> prev_time ?ts + 1000 * ticks (TickLoop nows ?ts) + 999 * length nows"
      "ticks ?ts \<le> ticks (TickLoop nows ?ts)"
      "nows \<noteq> [] \<longrightarrow> prev_time (TickLoop nows ?ts) \<le> last nows \<and>
        (last nows - prev_time (TickLoop nows ?ts)) div 1000 < max 1 (sleep_delay_us ts)"
      using Cons.IH [of ?ts] Cons.prems same by auto
    have "TickLoop (now # nows) ts = TickLoop nows ?ts" using Cons.prems(1) by simp
    moreover have "1000 * ticks (TickLoop nows ?ts) + prev_time ts \<le> 1000 * ticks ts + prev_time (TickLoop nows ?ts)"
      using IH(1) ib(1) by linarith
    moreover have "prev_time (TickLoop nows ?ts) + 1000 * ticks ts \<le>
        prev_time ts + 1000 * ticks (TickLoop nows ?ts) + 999 * length (now # nows)" using IH(2) ib(2) by simp
    moreover have "ticks ts \<le> ticks (TickLoop nows ?ts)" using IH(3) ib(3) by linarith
    ultimately show ?case using IH(4) ib(4,5) by (cases nows) simp_all
  qed simp
  define e where "e = last nows - prev_time (TickLoop nows ts)"
  have e: "e div 1000 < max 1 (sleep_delay_us ts)" using gen assms(5) by (simp add: e_def)
  with div_1000_bounds(2) [of e] have "e \<le> 1000 * max 1 (sleep_delay_us ts)" by linarith
  moreover have "last nows = prev_time (TickLoop nows ts) + e" using gen assms(5) by (simp add: e_def)
  moreover obtain k where "ticks (TickLoop nows ts) = ticks ts + k" using gen le_Suc_ex by blast
  ultimately show ?thesis using gen unfolding Microseconds_def Let_def by (intro conjI; linarith)
qed

theorem TickLoop_accuracy_witness:
  "let ts = TickService_new 333 0; nows = [400700, 500000, 900900]; ts' = TickLoop nows ts in
     1000 * Microseconds ts' \<le> 900900 \<and> 900900 \<le> 1000 * Microseconds ts' + 999 * 3 + 333000"
  using TickLoop_accuracy [of "TickService_new 333 0" "[400700, 500000, 900900]"]
  by (simp add: TickService_new_def Microseconds_def Let_def limit64_def)

end
