(* ===== verification/Cache.thy ===== *)
theory Cache
  imports Wrap64 Std_Map
begin

section \<open>The object cache\<close>

text \<open>
  \<^verbatim>\<open>Cache\<close> of \<^verbatim>\<open>cache.h\<close>: an ordered map of values and a ring of buckets that holds, for
  each interval of time to come, the keys to drop when the interval ends. Every operation takes the
  milliseconds that the tick service shows. Keys are of any linear order, values of any type.
\<close>

record ('k, 't) Cache =
  c_duration :: nat
  c_interval :: nat
  c_total_buckets :: nat
  c_bucket_index :: nat
  c_current_ticks :: nat
  c_buckets :: "'k list list"
  c_cache :: "('k, 't) std_map"

text \<open>The division by \<^verbatim>\<open>interval\<close> comes before the arguments are checked.\<close>

definition Cache_new :: "nat \<Rightarrow> nat \<Rightarrow> bool \<Rightarrow> ('k, 't) Cache result" where
  "Cache_new duration interval have_tick_service =
     (if interval = 0 then Inl Undefined_Behaviour
      else if duration = 0 \<or> duration mod interval \<noteq> 0 \<or> duration = interval
        then Inl (Invalid_Argument ''Invalid time_queue constructor args'')
      else if \<not> have_tick_service then Inl (Invalid_Argument ''Tick service cannot be null'')
      else Inr \<lparr>c_duration = duration, c_interval = interval, c_total_buckets = duration div interval,
                c_bucket_index = 0, c_current_ticks = 0, c_buckets = replicate (duration div interval) [],
                c_cache = []\<rparr>)"

definition cache_Size :: "('k, 't) Cache \<Rightarrow> nat" where
  "cache_Size c = length (c_cache c)"

definition cache_Empty :: "('k, 't) Cache \<Rightarrow> bool" where
  "cache_Empty c \<longleftrightarrow> c_cache c = []"

definition cache_Clear :: "('k, 't) Cache \<Rightarrow> ('k, 't) Cache" where
  "cache_Clear c = c\<lparr>c_cache := [], c_bucket_index := 0, c_buckets := map (\<lambda>_. []) (c_buckets c)\<rparr>"

text \<open>One turn of the loop of \<^verbatim>\<open>Advance\<close>: the keys of the bucket leave the map.\<close>

definition drop_bucket :: "nat \<Rightarrow> ('k, 't) Cache \<Rightarrow> ('k, 't) Cache" where
  "drop_bucket j c =
     c\<lparr>c_cache := fold map_erase (c_buckets c ! j) (c_cache c), c_buckets := (c_buckets c)[j := []]\<rparr>"

definition cache_Advance :: "nat \<Rightarrow> ('k, 't) Cache \<Rightarrow> ('k, 't) Cache" where
  "cache_Advance new_ticks c =
     (let delta = (if c_current_ticks c \<noteq> 0 then sub64 new_ticks (c_current_ticks c) div c_interval c else 0);
          c = c\<lparr>c_current_ticks := new_ticks\<rparr>
      in if delta = 0 then c
         else if delta \<ge> c_total_buckets c then cache_Clear c
         else
           (fold (\<lambda>i. drop_bucket ((c_bucket_index c + i) mod c_total_buckets c)) [0..<delta] c)
             \<lparr>c_bucket_index := (c_bucket_index c + delta) mod c_total_buckets c mod 2 ^ 32\<rparr>)"

definition cache_InternalInsert :: "nat \<Rightarrow> 'k::linorder \<Rightarrow> 't \<Rightarrow> nat \<Rightarrow> ('k, 't) Cache \<Rightarrow> ('k, 't) Cache result" where
  "cache_InternalInsert now key value ttl c =
     (if ttl > c_duration c then Inl (Invalid_Argument ''TTL is greater than max duration'')
      else
        let ttl = (if ttl = 0 then c_duration c else ttl) div c_interval c;
            c = cache_Advance now c;
            future_index = sub64 (add64 (c_bucket_index c) ttl) 1 mod c_total_buckets c mod 2 ^ 32
        in Inr (c\<lparr>c_buckets := (c_buckets c)[future_index := c_buckets c ! future_index @ [key]],
                  c_cache := map_put key value (c_cache c)\<rparr>))"

definition cache_Insert :: "nat \<Rightarrow> 'k::linorder \<Rightarrow> 't \<Rightarrow> nat \<Rightarrow> ('k, 't) Cache \<Rightarrow> ('k, 't) Cache result" where
  "cache_Insert now key value ttl c = cache_InternalInsert now key value ttl c"

definition cache_Contains :: "nat \<Rightarrow> 'k \<Rightarrow> ('k, 't) Cache \<Rightarrow> ('k, 't) Cache \<times> bool" where
  "cache_Contains now key c = (let c = cache_Advance now c in (c, map_find (c_cache c) key \<noteq> None))"

text \<open>The positions of \<^verbatim>\<open>lower_bound\<close> and \<^verbatim>\<open>upper_bound\<close> in the map.\<close>

definition lower_bound :: "('k::linorder, 't) std_map \<Rightarrow> 'k \<Rightarrow> nat" where
  "lower_bound m k = length (takeWhile (\<lambda>(k', _). k' < k) m)"

definition upper_bound :: "('k::linorder, 't) std_map \<Rightarrow> 'k \<Rightarrow> nat" where
  "upper_bound m k = length (takeWhile (\<lambda>(k', _). k' \<le> k) m)"

definition cache_Contains_range ::
  "nat \<Rightarrow> 'k::linorder \<Rightarrow> 'k \<Rightarrow> ('k, 't) Cache \<Rightarrow> (('k, 't) Cache \<times> bool) result" where
  "cache_Contains_range now start_key end_key c =
     (if start_key > end_key then Inl (Invalid_Argument ''Exclusive end key must be greater than start key'')
      else
        let c = cache_Advance now c
        in Inr (c, lower_bound (c_cache c) start_key \<noteq> upper_bound (c_cache c) end_key))"

text \<open>\<^verbatim>\<open>cache_.at(key)\<close> cannot throw here, because the key was found.\<close>

definition cache_Get :: "nat \<Rightarrow> 'k \<Rightarrow> ('k, 't) Cache \<Rightarrow> ('k, 't) Cache \<times> 't option" where
  "cache_Get now key c =
     (let (c, found) = cache_Contains now key c in (c, if \<not> found then None else map_find (c_cache c) key))"

text \<open>The loop of the range \<^verbatim>\<open>Get\<close>, from an iterator to the end key or the end of the map.\<close>

fun take_entries :: "'k \<Rightarrow> ('k, 't) std_map \<Rightarrow> 't list" where
  "take_entries end_key [] = []"
| "take_entries end_key ((k, v) # m) = (if k = end_key then [v] else v # take_entries end_key m)"

definition cache_Get_range ::
  "nat \<Rightarrow> 'k::linorder \<Rightarrow> 'k \<Rightarrow> ('k, 't) Cache \<Rightarrow> (('k, 't) Cache \<times> 't list) result" where
  "cache_Get_range now start_key end_key c =
     bind_result (cache_Contains_range now start_key end_key c) (\<lambda>(c, found).
       if \<not> found then Inr (c, [])
       else case map_find (c_cache c) start_key of
           None \<Rightarrow> Inr (c, [])
         | Some _ \<Rightarrow> Inr (c, take_entries end_key (dropWhile (\<lambda>(k, _). k \<noteq> start_key) (c_cache c))))"

definition cache_First :: "nat \<Rightarrow> ('k, 't) Cache \<Rightarrow> ('k, 't) Cache \<times> 't option" where
  "cache_First now c =
     (let c = cache_Advance now c in (c, if c_cache c = [] then None else Some (snd (hd (c_cache c)))))"

definition cache_Last :: "nat \<Rightarrow> ('k, 't) Cache \<Rightarrow> ('k, 't) Cache \<times> 't option" where
  "cache_Last now c =
     (let c = cache_Advance now c in (c, if c_cache c = [] then None else Some (snd (last (c_cache c)))))"

subsection \<open>The invariant\<close>

text \<open>Every cached key is in a bucket, so that it leaves the cache when its bucket's time has come.\<close>

definition cache_wf :: "('k::linorder, 't) Cache \<Rightarrow> bool" where
  "cache_wf c \<longleftrightarrow> 0 < c_interval c \<and> 1 < c_total_buckets c \<and> c_duration c div c_interval c = c_total_buckets c \<and>
     length (c_buckets c) = c_total_buckets c \<and> c_bucket_index c < c_total_buckets c \<and> map_wf (c_cache c) \<and>
     (\<forall>k. map_find (c_cache c) k \<noteq> None \<longrightarrow> (\<exists>j < c_total_buckets c. k \<in> set (c_buckets c ! j)))"

inductive cache_reachable :: "('k::linorder, 't) Cache \<Rightarrow> bool" where
  new: "Cache_new duration interval ts = Inr c \<Longrightarrow> cache_reachable c"
| insert: "cache_reachable c \<Longrightarrow> cache_Insert now k v ttl c = Inr c' \<Longrightarrow> cache_reachable c'"
| read: "cache_reachable c \<Longrightarrow> cache_reachable (cache_Advance now c)"
| clear: "cache_reachable c \<Longrightarrow> cache_reachable (cache_Clear c)"

lemma fold_map_erase_find:
  "map_find (fold map_erase ks m) k = (if k \<in> set ks then None else map_find m k)"
  by (induction ks arbitrary: m) (auto simp: map_erase_find)

lemma fold_map_erase_wf: "map_wf m \<Longrightarrow> map_wf (fold map_erase ks m)"
  by (induction ks arbitrary: m) (simp_all add: map_erase_wf)

lemma key_find: "k \<in> fst ` set m \<longleftrightarrow> map_find m k \<noteq> None"
  by (simp add: map_of_eq_None_iff)

lemma drop_bucket_fields [simp]:
  "c_duration (drop_bucket j c) = c_duration c" "c_interval (drop_bucket j c) = c_interval c"
  "c_total_buckets (drop_bucket j c) = c_total_buckets c" "c_bucket_index (drop_bucket j c) = c_bucket_index c"
  "c_current_ticks (drop_bucket j c) = c_current_ticks c"
  by (simp_all add: drop_bucket_def)

lemma drop_bucket_wf:
  assumes "cache_wf c" "j < c_total_buckets c" shows "cache_wf (drop_bucket j c)"
proof -
  have "\<exists>i < c_total_buckets c. k \<in> set ((c_buckets c)[j := []] ! i)"
    if "map_find (fold map_erase (c_buckets c ! j) (c_cache c)) k \<noteq> None" for k
  proof -
    have "k \<notin> set (c_buckets c ! j)" "map_find (c_cache c) k \<noteq> None" using that by (auto simp: fold_map_erase_find split: if_splits)
    then obtain i where "i < c_total_buckets c" "k \<in> set (c_buckets c ! i)" "i \<noteq> j" using assms(1) unfolding cache_wf_def by metis
    then show ?thesis by (metis nth_list_update_neq)
  qed
  then show ?thesis using assms by (simp add: cache_wf_def drop_bucket_def fold_map_erase_wf)
qed

lemma drop_buckets_wf:
  "cache_wf c \<Longrightarrow> \<forall>j \<in> set js. j < c_total_buckets c \<Longrightarrow> cache_wf (fold drop_bucket js c)"
  by (induction js arbitrary: c) (simp_all add: drop_bucket_wf)

text \<open>The loop of \<^verbatim>\<open>Advance\<close> as the list of buckets it visits.\<close>

definition visited :: "nat \<Rightarrow> ('k, 't) Cache \<Rightarrow> nat list" where
  "visited delta c = map (\<lambda>i. (c_bucket_index c + i) mod c_total_buckets c) [0..<delta]"

definition cache_delta :: "nat \<Rightarrow> ('k, 't) Cache \<Rightarrow> nat" where
  "cache_delta now c = (if c_current_ticks c \<noteq> 0 then sub64 now (c_current_ticks c) div c_interval c else 0)"

lemma cache_Advance_eq:
  "cache_Advance now c =
     (let c' = c\<lparr>c_current_ticks := now\<rparr>; delta = cache_delta now c in
      if delta = 0 then c'
      else if delta \<ge> c_total_buckets c then cache_Clear c'
      else (fold drop_bucket (visited delta c) c')\<lparr>c_bucket_index := (c_bucket_index c + delta) mod c_total_buckets c mod 2 ^ 32\<rparr>)"
  by (simp add: cache_Advance_def cache_delta_def visited_def Let_def fold_map comp_def)

lemma fold_drop_fields [simp]:
  "c_duration (fold drop_bucket js c) = c_duration c" "c_interval (fold drop_bucket js c) = c_interval c"
  "c_total_buckets (fold drop_bucket js c) = c_total_buckets c" "c_bucket_index (fold drop_bucket js c) = c_bucket_index c"
  "c_current_ticks (fold drop_bucket js c) = c_current_ticks c"
  by (induction js arbitrary: c) simp_all

lemma cache_Clear_wf: "cache_wf c \<Longrightarrow> cache_wf (cache_Clear c)"
  by (simp add: cache_wf_def cache_Clear_def)

lemma ticks_wf: "cache_wf (c\<lparr>c_current_ticks := t\<rparr>) \<longleftrightarrow> cache_wf c"
  by (simp add: cache_wf_def)

lemma mod_mod_less: "0 < (n :: nat) \<Longrightarrow> a mod n mod m < n"
  by (meson le_less_trans mod_less_divisor mod_less_eq_dividend)

lemma cache_Advance_wf: assumes "cache_wf c" shows "cache_wf (cache_Advance now c)"
proof -
  let ?c = "c\<lparr>c_current_ticks := now\<rparr>"
  have "0 < c_total_buckets c" using assms by (simp add: cache_wf_def)
  then have "cache_wf (fold drop_bucket (visited d c) ?c)" for d
    using assms by (intro drop_buckets_wf) (auto simp: ticks_wf visited_def)
  moreover have "cache_wf (c'\<lparr>c_bucket_index := i\<rparr>)" if "cache_wf c'" "i < c_total_buckets c'" for c' :: "('a, 'b) Cache" and i
    using that by (simp add: cache_wf_def)
  ultimately show ?thesis using assms cache_Clear_wf [of ?c] mod_mod_less [OF \<open>0 < c_total_buckets c\<close>]
    by (simp add: cache_Advance_eq Let_def ticks_wf)
qed

lemma cache_Advance_fields [simp]:
  "c_duration (cache_Advance now c) = c_duration c" "c_interval (cache_Advance now c) = c_interval c"
  "c_total_buckets (cache_Advance now c) = c_total_buckets c" "c_current_ticks (cache_Advance now c) = now"
  by (simp_all add: cache_Advance_eq Let_def cache_Clear_def)

text \<open>Where an insertion puts its key.\<close>

definition ttl_slots :: "nat \<Rightarrow> ('k, 't) Cache \<Rightarrow> nat" where
  "ttl_slots ttl c = (if ttl = 0 then c_duration c else ttl) div c_interval c"

definition insert_index :: "nat \<Rightarrow> ('k, 't) Cache \<Rightarrow> nat" where
  "insert_index ttl c = sub64 (add64 (c_bucket_index c) (ttl_slots ttl c)) 1 mod c_total_buckets c mod 2 ^ 32"

definition insert_at :: "'k::linorder \<Rightarrow> 't \<Rightarrow> nat \<Rightarrow> ('k, 't) Cache \<Rightarrow> ('k, 't) Cache" where
  "insert_at k v j c = c\<lparr>c_buckets := (c_buckets c)[j := c_buckets c ! j @ [k]], c_cache := map_put k v (c_cache c)\<rparr>"

lemma cache_Insert_eq:
  "cache_Insert now k v ttl c =
     (if ttl > c_duration c then Inl (Invalid_Argument ''TTL is greater than max duration'')
      else let c' = cache_Advance now c in Inr (insert_at k v (insert_index ttl c') c'))"
  by (simp add: cache_Insert_def cache_InternalInsert_def ttl_slots_def insert_index_def insert_at_def Let_def)

lemma insert_at_wf:
  assumes "cache_wf c" "j < c_total_buckets c" shows "cache_wf (insert_at k v j c)"
proof -
  have "\<exists>i < c_total_buckets c. k' \<in> set ((c_buckets c)[j := c_buckets c ! j @ [k]] ! i)"
    if known: "k' = k \<or> map_find (c_cache c) k' \<noteq> None" for k'
  proof (cases "k' = k")
    case False
    then obtain i where "i < c_total_buckets c" "k' \<in> set (c_buckets c ! i)" using known assms(1) unfolding cache_wf_def by metis
    then show ?thesis using assms by (intro exI [of _ i]) (simp add: nth_list_update cache_wf_def)
  qed (use assms in \<open>auto simp: cache_wf_def intro!: exI [of _ j]\<close>)
  then show ?thesis using assms by (simp add: cache_wf_def insert_at_def map_put_wf map_put_find)
qed

lemma cache_Insert_wf: "cache_wf c \<Longrightarrow> cache_Insert now k v ttl c = Inr c' \<Longrightarrow> cache_wf c'"
  using cache_Advance_wf [of c now] insert_at_wf [of "cache_Advance now c"] mod_mod_less [of "c_total_buckets c"]
  by (auto simp: cache_Insert_eq insert_index_def Let_def cache_wf_def [of c] split: if_splits)

lemma Cache_new_wf: "Cache_new duration interval ts = Inr c \<Longrightarrow> cache_wf c"
proof -
  assume new: "Cache_new duration interval ts = Inr c"
  then have "0 < interval" "duration mod interval = 0" "duration \<noteq> interval" "duration \<noteq> 0"
    by (simp_all add: Cache_new_def split: if_splits)
  moreover from this obtain k where "duration = k * interval" by (metis dvdE mod_0_imp_dvd mult.commute)
  ultimately have "1 < duration div interval" by (cases k) (auto simp: nat_neq_iff)
  then show ?thesis using new by (auto simp: Cache_new_def cache_wf_def split: if_splits)
qed

lemma cache_reachable_wf: "cache_reachable c \<Longrightarrow> cache_wf c"
  by (induction rule: cache_reachable.induct) (auto intro: Cache_new_wf cache_Insert_wf cache_Advance_wf cache_Clear_wf)

text \<open>In every cache that the constructor and the operations can make, the map is ordered by key, the
  index of the ring is in range, and every cached key is in a bucket, so that no entry stays behind when
  the ring has gone round.\<close>

theorem Cache_invariant:
  assumes "cache_reachable c"
  shows "map_wf (c_cache c) \<and> c_bucket_index c < length (c_buckets c) \<and>
    (\<forall>k. map_find (c_cache c) k \<noteq> None \<longrightarrow> (\<exists>j < length (c_buckets c). k \<in> set (c_buckets c ! j)))"
  using cache_reachable_wf [OF assms] by (simp add: cache_wf_def)

subsection \<open>Expiry\<close>

lemma drop_buckets_nth:
  "length (c_buckets (fold drop_bucket js c)) = length (c_buckets c) \<and>
   (i < length (c_buckets c) \<longrightarrow> c_buckets (fold drop_bucket js c) ! i = (if i \<in> set js then [] else c_buckets c ! i))"
  by (induction js arbitrary: c) (auto simp: drop_bucket_def nth_list_update)

lemma drop_buckets_find:
  "\<forall>j \<in> set js. j < length (c_buckets c) \<Longrightarrow>
   map_find (c_cache (fold drop_bucket js c)) k =
     (if \<exists>j \<in> set js. k \<in> set (c_buckets c ! j) then None else map_find (c_cache c) k)"
proof (induction js arbitrary: c)
  case (Cons j js)
  then show ?case
    by (auto simp: drop_bucket_def fold_map_erase_find nth_list_update)
qed simp

lemma ring_inj:
  assumes "(b + i) mod n = (b + j) mod n" "i < n" "j < (n :: nat)" shows "i = j"
proof -
  have "i = j" if "i \<le> j" "(b + i) mod n = (b + j) mod n" "j < n" for i j
  proof -
    have "n dvd (b + j) - (b + i)" using that by (metis mod_eq_dvd_iff_nat add_le_cancel_left)
    then have "n dvd j - i" by simp
    then have "\<not> 0 < j - i" using nat_dvd_not_less [of "j - i" n] that(3) less_imp_diff_less [of j n i] by auto
    then show ?thesis using that(1) by simp
  qed
  then show ?thesis using assms by (metis nat_le_linear)
qed

lemma visited_iff:
  assumes "a < c_total_buckets c" "delta \<le> c_total_buckets c"
  shows "(c_bucket_index c + a) mod c_total_buckets c \<in> set (visited delta c) \<longleftrightarrow> a < delta"
  using assms ring_inj [of "c_bucket_index c" a "c_total_buckets c"] by (auto simp: visited_def)

text \<open>\<open>k\<close> is cached with value \<open>v\<close>, and its only bucket is dropped \<open>r\<close> intervals from now.\<close>

definition due_in :: "nat \<Rightarrow> 'k::linorder \<Rightarrow> 't \<Rightarrow> ('k, 't) Cache \<Rightarrow> bool" where
  "due_in r k v c \<longleftrightarrow> cache_wf c \<and> c_total_buckets c \<le> 2 ^ 32 \<and> 0 < r \<and> r \<le> c_total_buckets c \<and>
     map_find (c_cache c) k = Some v \<and>
     (\<forall>j < c_total_buckets c. k \<in> set (c_buckets c ! j) \<longleftrightarrow> j = (c_bucket_index c + (r - 1)) mod c_total_buckets c)"

lemma due_in_Advance:
  assumes "due_in r k v c" "cache_delta now c < r"
  shows "due_in (r - cache_delta now c) k v (cache_Advance now c)"
proof -
  let ?d = "cache_delta now c" and ?n = "c_total_buckets c" and ?b = "c_bucket_index c"
  have wf: "cache_wf c" "r \<le> ?n" "?n \<le> 2 ^ 32" "0 < ?n" "length (c_buckets c) = ?n" using assms by (auto simp: due_in_def cache_wf_def)
  show ?thesis
  proof (cases "?d = 0")
    case True
    then show ?thesis using assms(1) by (simp add: cache_Advance_eq Let_def due_in_def cache_wf_def)
  next
    case False
    let ?c = "fold drop_bucket (visited ?d c) (c\<lparr>c_current_ticks := now\<rparr>)"
    have adv: "cache_Advance now c = ?c\<lparr>c_bucket_index := (?b + ?d) mod ?n\<rparr>"
      using False assms(2) wf(2) less_le_trans [OF mod_less_divisor [OF wf(4), of "?b + ?d"] wf(3)]
      by (simp add: cache_Advance_eq Let_def)
    have v: "\<forall>j \<in> set (visited ?d c). j < length (c_buckets c)" using wf by (auto simp: visited_def)
    have k: "(?b + (r - 1)) mod ?n \<notin> set (visited ?d c)" using assms wf(2) by (subst visited_iff) auto
    have "map_find (c_cache ?c) k = Some v"
      using drop_buckets_find [of "visited ?d c" "c\<lparr>c_current_ticks := now\<rparr>" k] v k assms(1) wf(5) by (auto simp: due_in_def)
    moreover have "((?b + ?d) mod ?n + (r - ?d - 1)) mod ?n = (?b + (r - 1)) mod ?n"
      unfolding mod_add_left_eq using assms(2) by simp
    moreover have "k \<in> set (c_buckets ?c ! j) \<longleftrightarrow> j = (?b + (r - 1)) mod ?n" if "j < ?n" for j
      using drop_buckets_nth [of "visited ?d c" "c\<lparr>c_current_ticks := now\<rparr>" j] that wf(5) k assms(1) by (auto simp: due_in_def)
    ultimately show ?thesis using cache_Advance_wf [OF wf(1), of now] assms wf(2,3) unfolding due_in_def adv by auto
  qed
qed

lemma Advance_expires:
  assumes "cache_wf c" "c_total_buckets c \<le> 2 ^ 32" "0 < r" "r \<le> c_total_buckets c" "r \<le> cache_delta now c"
    "k \<in> set (c_buckets c ! ((c_bucket_index c + (r - 1)) mod c_total_buckets c))"
  shows "map_find (c_cache (cache_Advance now c)) k = None"
proof (cases "c_total_buckets c \<le> cache_delta now c")
  case True
  then show ?thesis using assms by (simp add: cache_Advance_eq Let_def cache_Clear_def)
next
  case False
  let ?d = "cache_delta now c"
  have "(c_bucket_index c + (r - 1)) mod c_total_buckets c \<in> set (visited ?d c)" using assms False by (subst visited_iff) auto
  moreover have "\<forall>j \<in> set (visited ?d c). j < length (c_buckets c)" using assms by (auto simp: visited_def cache_wf_def)
  ultimately show ?thesis using drop_buckets_find [of "visited ?d c" "c\<lparr>c_current_ticks := now\<rparr>" k] assms(3,5,6) False
    by (auto simp: cache_Advance_eq Let_def)
qed

lemma Advance_find_None: "cache_wf c \<Longrightarrow> map_find (c_cache c) k = None \<Longrightarrow> map_find (c_cache (cache_Advance now c)) k = None"
proof -
  assume a: "cache_wf c" "map_find (c_cache c) k = None"
  then have "\<forall>j \<in> set (visited d c). j < length (c_buckets c)" for d by (auto simp: visited_def cache_wf_def)
  then show ?thesis using a drop_buckets_find [of "visited (cache_delta now c) c" "c\<lparr>c_current_ticks := now\<rparr>" k]
    by (auto simp: cache_Advance_eq Let_def cache_Clear_def)
qed

text \<open>The number of intervals the cache counts over a sequence of reads: the remainder of each gap is lost.\<close>

fun intervals_counted :: "nat \<Rightarrow> nat \<Rightarrow> nat list \<Rightarrow> nat" where
  "intervals_counted interval t [] = 0"
| "intervals_counted interval t (now # nows) = (now - t) div interval + intervals_counted interval now nows"

lemma cache_delta_eq:
  "0 < c_current_ticks c \<Longrightarrow> c_current_ticks c \<le> now \<Longrightarrow> now < limit64 \<Longrightarrow>
     cache_delta now c = (now - c_current_ticks c) div c_interval c"
  by (simp add: cache_delta_def sub64_small)

lemma gone_Advances:
  "cache_wf c \<Longrightarrow> map_find (c_cache c) k = None \<Longrightarrow> map_find (c_cache (fold cache_Advance nows c)) k = None"
  by (induction nows arbitrary: c) (simp_all add: cache_Advance_wf Advance_find_None)

lemma due_in_Advances:
  assumes "due_in r k v c" "sorted (c_current_ticks c # nows)" "\<forall>now \<in> set nows. now < limit64" "0 < c_current_ticks c"
  shows "map_find (c_cache (fold cache_Advance nows c)) k =
    (if intervals_counted (c_interval c) (c_current_ticks c) nows < r then Some v else None)"
  using assms
proof (induction nows arbitrary: c r)
  case (Cons now nows)
  let ?c = "cache_Advance now c" and ?d = "cache_delta now c"
  have d: "?d = (now - c_current_ticks c) div c_interval c" using Cons.prems by (intro cache_delta_eq) auto
  show ?case
  proof (cases "?d < r")
    case True
    have "map_find (c_cache (fold cache_Advance nows ?c)) k =
        (if intervals_counted (c_interval c) now nows < r - ?d then Some v else None)"
      using Cons.IH [OF due_in_Advance [OF Cons.prems(1) True]] Cons.prems(2-4) by auto
    then show ?thesis using True d by auto
  next
    case False
    have "map_find (c_cache ?c) k = None" "cache_wf ?c"
      using Cons.prems(1) False Advance_expires [of c r now k] cache_Advance_wf [of c now]
      by (auto simp: due_in_def cache_wf_def)
    then show ?thesis using gone_Advances [of ?c k nows] False d by simp
  qed
qed (simp add: due_in_def)

lemma insert_index_eq:
  assumes "cache_wf c" "c_total_buckets c \<le> 2 ^ 32" "0 < ttl_slots ttl c" "ttl \<le> c_duration c"
  shows "insert_index ttl c = (c_bucket_index c + (ttl_slots ttl c - 1)) mod c_total_buckets c"
    "ttl_slots ttl c \<le> c_total_buckets c"
proof -
  let ?n = "c_total_buckets c" and ?b = "c_bucket_index c" and ?r = "ttl_slots ttl c"
  have n: "?b < ?n" "0 < ?n" using assms(1) by (auto simp: cache_wf_def)
  show r: "?r \<le> ?n" using assms(1,4) div_le_mono [of ttl "c_duration c" "c_interval c"] by (auto simp: ttl_slots_def cache_wf_def)
  have "?b + ?r < limit64" using n(1) r assms(2) by (simp add: limit64_def)
  then have "sub64 (add64 ?b ?r) 1 = ?b + (?r - 1)" using assms(3) by (simp add: add64_small sub64_small)
  moreover have "(?b + (?r - 1)) mod ?n < 2 ^ 32" using less_le_trans [OF mod_less_divisor [OF n(2)] assms(2)] .
  ultimately show "insert_index ttl c = (?b + (?r - 1)) mod ?n" by (simp add: insert_index_def)
qed

lemma insert_due:
  assumes "cache_wf c" "c_total_buckets c \<le> 2 ^ 32" "0 < ttl_slots ttl c" "ttl \<le> c_duration c"
    "\<forall>b \<in> set (c_buckets c). k \<notin> set b"
  shows "due_in (ttl_slots ttl c) k v (insert_at k v (insert_index ttl c) c)"
proof -
  let ?j = "insert_index ttl c"
  note j = insert_index_eq [OF assms(1-4)]
  have l: "?j < c_total_buckets c" "length (c_buckets c) = c_total_buckets c" using assms(1) by (auto simp: j(1) cache_wf_def)
  have "k \<in> set ((c_buckets c)[?j := c_buckets c ! ?j @ [k]] ! i) \<longleftrightarrow> i = ?j" if "i < c_total_buckets c" for i
    using that l assms(5) nth_mem [of i "c_buckets c"] by (auto simp: nth_list_update)
  then show ?thesis using insert_at_wf [OF assms(1) l(1), of k v] assms(1-3) j unfolding due_in_def
    by (simp add: insert_at_def map_put_find cache_wf_def)
qed

lemma cache_Get_eq: "cache_Get now k c = (cache_Advance now c, map_find (c_cache (cache_Advance now c)) k)"
  by (simp add: cache_Get_def cache_Contains_def Let_def)

text \<open>C23. A key that is in no bucket and is inserted for at least one interval is returned by \<^verbatim>\<open>Get\<close>,
  with the inserted value, until the intervals counted since reach the time to live, and never after;
  any reads may come between. Each read counts the whole intervals since the read before it.\<close>

theorem Cache_expiry:
  assumes "cache_reachable c" "cache_Insert now k v ttl c = Inr c'"
    "\<forall>b \<in> set (c_buckets (cache_Advance now c)). k \<notin> set b"
    "c_total_buckets c \<le> 2 ^ 32" "0 < ttl_slots ttl c" "0 < now" "sorted (now # nows @ [t])" "t < 2 ^ 64"
  shows "snd (cache_Get t k (fold cache_Advance nows c')) =
    (if intervals_counted (c_interval c) now (nows @ [t]) < ttl_slots ttl c then Some v else None)"
proof -
  let ?c = "cache_Advance now c"
  have ttl: "ttl \<le> c_duration c" "c' = insert_at k v (insert_index ttl ?c) ?c"
    using assms(2) by (auto simp: cache_Insert_eq Let_def split: if_splits)
  have same: "ttl_slots ttl ?c = ttl_slots ttl c" by (simp add: ttl_slots_def)
  have "due_in (ttl_slots ttl c) k v c'"
    using insert_due [OF cache_Advance_wf [OF cache_reachable_wf [OF assms(1)], of now], of ttl k v] assms(3-5) ttl same by simp
  moreover have "c_current_ticks c' = now" "c_interval c' = c_interval c" by (simp_all add: ttl(2) insert_at_def)
  moreover have "\<forall>x \<in> set (nows @ [t]). x < limit64" using assms(7,8) by (auto simp: sorted_append limit64_def)
  ultimately have "map_find (c_cache (fold cache_Advance (nows @ [t]) c')) k =
      (if intervals_counted (c_interval c) now (nows @ [t]) < ttl_slots ttl c then Some v else None)"
    using due_in_Advances [of "ttl_slots ttl c" k v c' "nows @ [t]"] assms(6,7) by simp
  then show ?thesis by (simp add: cache_Get_eq)
qed

text \<open>An entry that is read more often than the interval never expires: as long as successive reads
  are less than one interval apart, \<^verbatim>\<open>Advance\<close> counts nothing and \<^verbatim>\<open>Get\<close> returns the entry,
  however long ago its time to live ran out.\<close>

theorem Cache_frequent_reads_keep:
  assumes "cache_Insert now k v ttl c = Inr c'" "cache_reachable c" "0 < now"
    "successively (\<lambda>a b. a \<le> b \<and> b - a < c_interval c) (now # nows @ [t])" "t < 2 ^ 64"
  shows "snd (cache_Get t k (fold cache_Advance nows c')) = Some v"
proof -
  have c': "c_current_ticks c' = now" "c_interval c' = c_interval c" "map_find (c_cache c') k = Some v"
    using assms(1) cache_Advance_wf [OF cache_reachable_wf [OF assms(2)], of now]
    by (auto simp: cache_Insert_eq Let_def insert_at_def map_put_find cache_wf_def split: if_splits)
  have keep: "map_find (c_cache (fold cache_Advance ts d)) k = Some v"
    if "successively (\<lambda>a b. a \<le> b \<and> b - a < c_interval d) (c_current_ticks d # ts)" "0 < c_current_ticks d"
      "map_find (c_cache d) k = Some v" "\<forall>x \<in> set ts. x < limit64" for ts and d :: "('a, 'b) Cache"
    using that
  proof (induction ts arbitrary: d)
    case (Cons x ts)
    then have "cache_delta x d = 0" using cache_delta_eq [of d x] by auto
    then have "cache_Advance x d = d\<lparr>c_current_ticks := x\<rparr>" by (simp add: cache_Advance_eq)
    then show ?case using Cons.IH [of "cache_Advance x d"] Cons.prems by auto
  qed simp
  have "successively (\<le>) (now # nows @ [t])" using assms(4) by (rule successively_mono) auto
  then have "sorted (now # nows @ [t])" by (simp add: successively_conv_sorted_wrt transp_on_def)
  then have "\<forall>x \<in> set (nows @ [t]). x < limit64" using assms(5) by (auto simp: sorted_append limit64_def)
  then show ?thesis using keep [of c' "nows @ [t]"] c' assms(3,4) by (simp add: cache_Get_eq)
qed

text \<open>Inserting a key again does not renew it: the bucket of the first insertion still drops the key
  when the first time to live has run out, and the new value with it, whatever the new time to live.\<close>

theorem Cache_reinsert_keeps_old_expiry:
  assumes "cache_reachable c" "cache_Insert now k v ttl c = Inr c1" "cache_Insert now k w ttl' c1 = Inr c2"
    "c_total_buckets c \<le> 2 ^ 32" "0 < ttl_slots ttl c" "0 < now" "now \<le> t" "t < 2 ^ 64"
    "ttl_slots ttl c \<le> (t - now) div c_interval c"
  shows "snd (cache_Get t k c2) = None"
proof -
  let ?c = "cache_Advance now c"
  have wf: "cache_wf ?c" by (rule cache_Advance_wf [OF cache_reachable_wf [OF assms(1)]])
  have ttl: "ttl \<le> c_duration c" "c1 = insert_at k v (insert_index ttl ?c) ?c"
    using assms(2) by (auto simp: cache_Insert_eq Let_def split: if_splits)
  have slots: "ttl_slots ttl ?c = ttl_slots ttl c" by (simp add: ttl_slots_def)
  then have i: "insert_index ttl ?c = (c_bucket_index ?c + (ttl_slots ttl c - 1)) mod c_total_buckets c"
    "ttl_slots ttl c \<le> c_total_buckets c"
    using insert_index_eq [OF wf, of ttl] assms(4,5) ttl(1) by simp_all
  have same: "cache_delta now c1 = 0" "c_bucket_index c1 = c_bucket_index ?c"
    using assms(6-8) by (simp_all add: ttl(2) insert_at_def cache_delta_def limit64_def)
  have "c1\<lparr>c_current_ticks := now\<rparr> = c1" by (simp add: ttl(2) insert_at_def)
  then have "cache_Advance now c1 = c1" using same(1) by (simp add: cache_Advance_eq [of now c1])
  then have c2: "c2 = insert_at k w (insert_index ttl' c1) c1"
    using assms(3) by (auto simp: cache_Insert_eq Let_def split: if_splits)
  have wf2: "cache_wf c2" "cache_wf c1"
    using cache_Insert_wf [OF _ assms(3)] cache_Insert_wf [OF cache_reachable_wf [OF assms(1)] assms(2)] by auto
  have l: "insert_index ttl ?c < length (c_buckets c1)" "length (c_buckets ?c) = c_total_buckets c"
    using wf2(2) wf i(1) by (auto simp: cache_wf_def ttl(2) insert_at_def)
  have "k \<in> set (c_buckets c1 ! insert_index ttl ?c)" using l by (simp add: ttl(2) insert_at_def)
  then have "k \<in> set (c_buckets c2 ! insert_index ttl ?c)" using l(1)
    by (cases "insert_index ttl' c1 = insert_index ttl ?c") (auto simp: c2 insert_at_def)
  moreover have "c_bucket_index c2 = c_bucket_index ?c" "c_total_buckets c2 = c_total_buckets c"
    "c_interval c2 = c_interval c" "c_current_ticks c2 = now" by (simp_all add: c2 ttl(2) insert_at_def)
  ultimately have "map_find (c_cache (cache_Advance t c2)) k = None"
    using Advance_expires [OF wf2(1), of "ttl_slots ttl c" t k] assms(4-9) i cache_delta_eq [of c2 t] by (simp add: limit64_def)
  then show ?thesis by (simp add: cache_Get_eq)
qed

subsection \<open>Ranges\<close>

lemma bounds_differ:
  assumes "map_wf m" "s \<le> e"
  shows "lower_bound m s \<noteq> upper_bound m e \<longleftrightarrow> (\<exists>k \<in> fst ` set m. s \<le> k \<and> k \<le> e)"
  using assms
proof (induction m)
  case (Cons p m)
  obtain k v where p: "p = (k, v)" by (cases p)
  have wf: "map_wf m" "\<forall>k' \<in> fst ` set m. k < k'" using Cons.prems p by (simp_all add: map_wf_def)
  consider "k < s" | "s \<le> k" "k \<le> e" | "e < k" by fastforce
  then show ?case
  proof cases
    case 1
    then have "lower_bound (p # m) s = Suc (lower_bound m s)" "upper_bound (p # m) e = Suc (upper_bound m e)"
      using p Cons.prems(2) by (auto simp: lower_bound_def upper_bound_def)
    then show ?thesis using Cons.IH [OF wf(1) Cons.prems(2)] 1 p by auto
  next
    case 2
    then show ?thesis using p by (auto simp: lower_bound_def upper_bound_def)
  next
    case 3
    then have "\<not> k' \<le> e" if "k' \<in> fst ` set (p # m)" for k' using wf(2) p that by fastforce
    then show ?thesis using 3 p Cons.prems(2) by (simp add: lower_bound_def upper_bound_def)
  qed
qed (simp add: lower_bound_def upper_bound_def)

lemma dropWhile_key:
  assumes "map_wf m" "map_find m s \<noteq> None"
  shows "dropWhile (\<lambda>(k, _). k \<noteq> s) m = filter (\<lambda>(k, _). s \<le> k) m"
  using assms
proof (induction m)
  case (Cons p m)
  obtain k v where p: "p = (k, v)" by (cases p)
  have wf: "map_wf m" "\<forall>x \<in> set m. k < fst x" using Cons.prems p by (simp_all add: map_wf_def)
  show ?case
  proof (cases "k = s")
    case True
    have "filter (\<lambda>(k, _). s \<le> k) m = m" using wf(2) True by (auto simp: filter_id_conv)
    then show ?thesis using p True by simp
  next
    case False
    then have "map_find m s \<noteq> None" "k < s" using Cons.prems(2) p wf(2) by (auto dest!: map_of_SomeD)
    then show ?thesis using Cons.IH [OF wf(1)] p by auto
  qed
qed simp

lemma find_filter_ge: "s \<le> e \<Longrightarrow> map_find (filter (\<lambda>(k, _). s \<le> k) m) e = map_find m e"
  by (induction m) auto

lemma take_entries_eq:
  assumes "map_wf m"
  shows "take_entries e m = map snd (if map_find m e = None then m else filter (\<lambda>(k, _). k \<le> e) m)"
  using assms
proof (induction m)
  case (Cons p m)
  obtain k v where p: "p = (k, v)" by (cases p)
  have "filter (\<lambda>(k', _). k' \<le> k) m = []" using Cons.prems p by (auto simp: map_wf_def filter_empty_conv)
  then show ?case using Cons p by (auto simp: map_wf_def dest!: map_of_SomeD)
qed simp

text \<open>C39. The range \<^verbatim>\<open>Get\<close> on every branch: a start above the end throws; an absent start key gives
  nothing, even when the range holds entries; with both keys cached the result is the entries from
  start to end inclusive, in key order; with an absent end key it runs on to the end of the cache.\<close>

theorem Cache_Get_range_spec:
  assumes "cache_reachable c"
  shows "cache_Get_range now s e c =
    (let c' = cache_Advance now c; m = c_cache c' in
     if e < s then Inl (Invalid_Argument ''Exclusive end key must be greater than start key'')
     else if map_find m s = None then Inr (c', [])
     else if map_find m e = None then Inr (c', map snd (filter (\<lambda>(k, _). s \<le> k) m))
     else Inr (c', map snd (filter (\<lambda>(k, _). s \<le> k \<and> k \<le> e) m)))"
proof -
  define c' where "c' = cache_Advance now c"
  have wf: "map_wf (c_cache c')" using cache_Advance_wf [OF cache_reachable_wf [OF assms], of now] by (simp add: c'_def cache_wf_def)
  have wf': "map_wf (filter (\<lambda>(k, _). s \<le> k) (c_cache c'))"
    using wf by (simp add: map_wf_def sorted_wrt_map sorted_wrt_filter)
  have t: "take_entries e (dropWhile (\<lambda>(k, _). k \<noteq> s) (c_cache c')) =
      map snd (if map_find (c_cache c') e = None then filter (\<lambda>(k, _). s \<le> k) (c_cache c')
        else filter (\<lambda>(k, _). s \<le> k \<and> k \<le> e) (c_cache c'))" if "map_find (c_cache c') s \<noteq> None" "s \<le> e"
  proof -
    have "filter (\<lambda>(k, _). k \<le> e) (filter (\<lambda>(k, _). s \<le> k) (c_cache c')) = filter (\<lambda>(k, _). s \<le> k \<and> k \<le> e) (c_cache c')"
      by (auto intro: filter_cong)
    then show ?thesis
      unfolding dropWhile_key [OF wf that(1)] take_entries_eq [OF wf'] find_filter_ge [OF that(2)] by (rule arg_cong)
  qed
  have f: "lower_bound (c_cache c') s \<noteq> upper_bound (c_cache c') e" if "map_find (c_cache c') s \<noteq> None" "s \<le> e"
    using that bounds_differ [OF wf that(2)] by (force dest: map_of_SomeD)
  show ?thesis unfolding cache_Get_range_def cache_Contains_range_def Let_def c'_def [symmetric]
    using t f by (auto simp: not_less split: option.split)
qed

subsection \<open>The theorems on a concrete cache\<close>

definition cache0 :: "(nat, nat) Cache" where
  "cache0 = \<lparr>c_duration = 20, c_interval = 5, c_total_buckets = 4, c_bucket_index = 0, c_current_ticks = 0,
     c_buckets = [[], [], [], []], c_cache = []\<rparr>"

lemma cache0_reachable: "cache_reachable cache0"
proof -
  have "replicate 4 ([] :: nat list) = [[], [], [], []]" by (simp add: numeral_eq_Suc)
  then have "Cache_new 20 5 True = Inr cache0" by (simp add: Cache_new_def cache0_def)
  then show ?thesis by (rule cache_reachable.new)
qed

definition cache1 :: "(nat, nat) Cache" where
  "cache1 = cache0\<lparr>c_current_ticks := 100, c_buckets := [[], [7], [], []], c_cache := [(7, 70)]\<rparr>"

lemma cache1_insert: "cache_Insert 100 7 70 10 cache0 = Inr cache1"
  by (simp add: cache_Insert_def cache_InternalInsert_def cache_Advance_def cache0_def cache1_def Let_def wrap64_defs)

lemma cache0_Advance: "cache_Advance 100 cache0 = cache0\<lparr>c_current_ticks := 100\<rparr>"
  by (simp add: cache_Advance_def cache0_def)

definition cache2 :: "(nat, nat) Cache" where
  "cache2 = cache1\<lparr>c_buckets := [[], [7], [], [7]], c_cache := [(7, 80)]\<rparr>"

lemma cache2_insert: "cache_Insert 100 7 80 20 cache1 = Inr cache2"
  by (simp add: cache_Insert_def cache_InternalInsert_def cache_Advance_def cache0_def cache1_def cache2_def Let_def wrap64_defs)

lemmas cache1_reachable = cache_reachable.insert [OF cache0_reachable cache1_insert]

theorem Cache_invariant_witness: "\<exists>j < length (c_buckets cache1). 7 \<in> set (c_buckets cache1 ! j)"
  using Cache_invariant [OF cache1_reachable] by (auto simp: cache1_def)

theorem Cache_expiry_witness:
  "snd (cache_Get 108 7 (fold cache_Advance [106] cache1)) = Some 70 \<and>
   snd (cache_Get 111 7 (fold cache_Advance [106] cache1)) = None"
proof -
  have fresh: "\<forall>b \<in> set (c_buckets (cache_Advance 100 cache0)). 7 \<notin> set b" by (simp only: cache0_Advance) (simp add: cache0_def)
  have args: "c_total_buckets cache0 \<le> 2 ^ 32" "ttl_slots 10 cache0 = 2" "c_interval cache0 = 5" by (simp_all add: cache0_def ttl_slots_def)
  show ?thesis using Cache_expiry [OF cache0_reachable cache1_insert fresh args(1), of "[106]" 108]
      Cache_expiry [OF cache0_reachable cache1_insert fresh args(1), of "[106]" 111] by (simp add: args)
qed

theorem Cache_frequent_reads_keep_witness: "snd (cache_Get 112 7 (fold cache_Advance [104, 108] cache1)) = Some 70"
  using Cache_frequent_reads_keep [OF cache1_insert cache0_reachable, of "[104, 108]" 112] by (simp add: cache0_def)

theorem Cache_reinsert_keeps_old_expiry_witness: "snd (cache_Get 110 7 cache2) = None"
  using Cache_reinsert_keeps_old_expiry [OF cache0_reachable cache1_insert cache2_insert, of 110]
  by (simp add: cache0_def ttl_slots_def)

theorem Cache_Get_range_spec_witness: "cache_Get_range 101 7 9 cache1 = Inr (cache1\<lparr>c_current_ticks := 101\<rparr>, [70])"
  using Cache_Get_range_spec [OF cache1_reachable, of 101 7 9]
  by (simp add: cache1_def cache0_def cache_Advance_def Let_def wrap64_defs)

end
