(* ===== verification/Data_Storage.thy ===== *)
theory Data_Storage
  imports Quicr_Prelude Wrap64 "HOL-Library.Sublist"
begin

section \<open>Sliced buffers\<close>

text \<open>
  \<^verbatim>\<open>DataStorage\<close> and \<^verbatim>\<open>DataStorageDynView\<close> of \<^verbatim>\<open>detail/data_storage.h\<close>: a queue of byte
  slices that is read through one iterator over all of them. A slice is a shared pointer, so it may be
  null (\<open>None\<close>); reading through a null pointer, or an octet outside a slice, is undefined behaviour.
  The iterators are positions in the current list of slices.

  \<^verbatim>\<open>EraseFront\<close> removes the element its range-for stands on; the C++ standard leaves the
  increment that follows undefined. The model continues with the next slice, which is what the deque
  implementations do.
\<close>

type_synonym slice = "bytes option"

record ds_iterator =
  it_slice :: nat
  span_it :: "nat option"

definition ds_Empty :: "slice list \<Rightarrow> bool" where
  "ds_Empty buffer \<longleftrightarrow> buffer = []"

definition ds_Create_slice :: "slice \<Rightarrow> slice list" where
  "ds_Create_slice s = [s]"

definition ds_Push_bytes :: "bytes \<Rightarrow> slice list \<Rightarrow> slice list" where
  "ds_Push_bytes bytes buffer = buffer @ [Some bytes]"

definition ds_Push_slice :: "slice \<Rightarrow> slice list \<Rightarrow> slice list" where
  "ds_Push_slice s buffer = buffer @ [s]"

fun ds_size :: "slice list \<Rightarrow> nat result" where
  "ds_size [] = Inr 0"
| "ds_size (None # buffer) = Inl Undefined_Behaviour"
| "ds_size (Some s # buffer) = bind_result (ds_size buffer) (\<lambda>n. Inr (length s + n))"

fun ds_EraseFront :: "nat \<Rightarrow> slice list \<Rightarrow> nat \<times> slice list" where
  "ds_EraseFront len [] = (0, [])"
| "ds_EraseFront len (None # buffer) = (0, None # buffer)"
| "ds_EraseFront len (Some s # buffer) =
     (if len \<ge> length s then ds_EraseFront (len - length s) buffer else (len, Some s # buffer))"

text \<open>The iterator: its constructor, \<^verbatim>\<open>*\<close>, \<^verbatim>\<open>++\<close>, \<^verbatim>\<open>--\<close> and \<^verbatim>\<open>==\<close>.\<close>

definition it_new :: "slice list \<Rightarrow> nat \<Rightarrow> ds_iterator result" where
  "it_new buffer i =
     (if i = length buffer then Inr \<lparr>it_slice = i, span_it = None\<rparr>
      else case buffer ! i of None \<Rightarrow> Inl Undefined_Behaviour | Some _ \<Rightarrow> Inr \<lparr>it_slice = i, span_it = Some 0\<rparr>)"

definition it_deref :: "slice list \<Rightarrow> ds_iterator \<Rightarrow> u8 result" where
  "it_deref buffer it =
     (case span_it it of
        None \<Rightarrow> Inl Undefined_Behaviour
      | Some pos \<Rightarrow>
          (case buffer ! it_slice it of
             None \<Rightarrow> Inl Undefined_Behaviour
           | Some s \<Rightarrow> if pos < length s then Inr (s ! pos) else Inl Undefined_Behaviour))"

definition it_next_slice :: "slice list \<Rightarrow> ds_iterator \<Rightarrow> ds_iterator result" where
  "it_next_slice buffer it =
     (if it_slice it \<ge> length buffer then Inl Undefined_Behaviour else it_new buffer (it_slice it + 1))"

definition it_inc :: "slice list \<Rightarrow> ds_iterator \<Rightarrow> ds_iterator result" where
  "it_inc buffer it =
     (case span_it it of
        None \<Rightarrow> it_next_slice buffer it
      | Some pos \<Rightarrow>
          (case buffer ! it_slice it of
             None \<Rightarrow> Inl Undefined_Behaviour
           | Some s \<Rightarrow>
               if pos \<ge> length s then Inl Undefined_Behaviour
               else if pos + 1 = length s then it_next_slice buffer it
               else Inr (it\<lparr>span_it := Some (pos + 1)\<rparr>)))"

definition it_prev_slice :: "slice list \<Rightarrow> ds_iterator \<Rightarrow> ds_iterator result" where
  "it_prev_slice buffer it =
     (if it_slice it = 0 then Inl Undefined_Behaviour
      else case buffer ! (it_slice it - 1) of
          None \<Rightarrow> Inl Undefined_Behaviour
        | Some s \<Rightarrow>
            if s = [] then Inl Undefined_Behaviour
            else Inr \<lparr>it_slice = it_slice it - 1, span_it = Some (length s - 1)\<rparr>)"

definition it_dec :: "slice list \<Rightarrow> ds_iterator \<Rightarrow> ds_iterator result" where
  "it_dec buffer it =
     (case span_it it of
        None \<Rightarrow> it_prev_slice buffer it
      | Some pos \<Rightarrow> if pos = 0 then it_prev_slice buffer it else Inr (it\<lparr>span_it := Some (pos - 1)\<rparr>))"

definition ds_begin :: "slice list \<Rightarrow> ds_iterator result" where
  "ds_begin buffer = it_new buffer 0"

definition ds_end :: "slice list \<Rightarrow> ds_iterator result" where
  "ds_end buffer = it_new buffer (length buffer)"

text \<open>\<^verbatim>\<open>std::next\<close>, and copying the range between two iterators; the copy takes a bound on its
  number of steps and gives \<open>None\<close> when the bound is reached.\<close>

fun it_next :: "slice list \<Rightarrow> nat \<Rightarrow> ds_iterator \<Rightarrow> ds_iterator result" where
  "it_next buffer 0 it = Inr it"
| "it_next buffer (Suc n) it = bind_result (it_inc buffer it) (it_next buffer n)"

fun it_copy :: "nat \<Rightarrow> slice list \<Rightarrow> ds_iterator \<Rightarrow> ds_iterator \<Rightarrow> bytes result option" where
  "it_copy fuel buffer it end_it =
     (if it = end_it then Some (Inr [])
      else case fuel of
          0 \<Rightarrow> None
        | Suc fuel \<Rightarrow>
            (case bind_result (it_deref buffer it) (\<lambda>b. bind_result (it_inc buffer it) (\<lambda>it'. Inr (b, it'))) of
               Inl e \<Rightarrow> Some (Inl e)
             | Inr (b, it') \<Rightarrow> map_option (\<lambda>r. bind_result r (\<lambda>bs. Inr (b # bs))) (it_copy fuel buffer it' end_it)))"

declare it_copy.simps [simp del]

subsection \<open>Views\<close>

record DataStorageDynView =
  dv_storage :: "slice list"
  dv_start_pos :: nat
  dv_end_pos :: "nat option"

definition dv_Subspan :: "nat \<Rightarrow> nat option \<Rightarrow> DataStorageDynView \<Rightarrow> DataStorageDynView result" where
  "dv_Subspan start_pos end_pos dv =
     bind_result (ds_size (dv_storage dv)) (\<lambda>size.
       Inr \<lparr>dv_storage = dv_storage dv, dv_start_pos = start_pos,
            dv_end_pos = Some (case end_pos of None \<Rightarrow> size | Some e \<Rightarrow> if e > size then size else e)\<rparr>)"

definition dv_size :: "DataStorageDynView \<Rightarrow> nat result" where
  "dv_size dv =
     (case dv_end_pos dv of
        Some e \<Rightarrow> Inr (sub64 e (dv_start_pos dv))
      | None \<Rightarrow> bind_result (ds_size (dv_storage dv)) (\<lambda>size. Inr (sub64 size (dv_start_pos dv))))"

definition dv_begin :: "DataStorageDynView \<Rightarrow> ds_iterator result" where
  "dv_begin dv = bind_result (ds_begin (dv_storage dv)) (it_next (dv_storage dv) (dv_start_pos dv))"

definition dv_end :: "DataStorageDynView \<Rightarrow> ds_iterator result" where
  "dv_end dv = bind_result (dv_begin dv) (\<lambda>it. bind_result (dv_size dv) (\<lambda>n. it_next (dv_storage dv) n it))"

subsection \<open>Iterating\<close>

text \<open>A buffer whose slices are neither null nor empty, and what an iterator still has to read.\<close>

definition solid :: "slice list \<Rightarrow> bool" where
  "solid buffer \<longleftrightarrow> list_all (\<lambda>s. s \<noteq> None \<and> s \<noteq> Some []) buffer"

definition ds_bytes :: "slice list \<Rightarrow> bytes" where
  "ds_bytes buffer = concat (map the buffer)"

definition it_valid :: "slice list \<Rightarrow> ds_iterator \<Rightarrow> bool" where
  "it_valid buffer it \<longleftrightarrow>
     (case span_it it of
        None \<Rightarrow> it_slice it = length buffer
      | Some pos \<Rightarrow> it_slice it < length buffer \<and> pos < length (the (buffer ! it_slice it)))"

definition it_rest :: "slice list \<Rightarrow> ds_iterator \<Rightarrow> bytes" where
  "it_rest buffer it = drop (case span_it it of None \<Rightarrow> 0 | Some pos \<Rightarrow> pos) (ds_bytes (drop (it_slice it) buffer))"

lemma ds_bytes_simps [simp]:
  "ds_bytes [] = []" "ds_bytes (s # buffer) = the s @ ds_bytes buffer" "ds_bytes (a @ b) = ds_bytes a @ ds_bytes b"
  by (simp_all add: ds_bytes_def)

lemma solid_nth: "solid buffer \<Longrightarrow> i < length buffer \<Longrightarrow> \<exists>b bs. buffer ! i = Some (b # bs)"
  unfolding solid_def list_all_length by (metis list.exhaust not_None_eq)

lemma it_new_valid:
  assumes "solid buffer" "i \<le> length buffer"
  shows "\<exists>it. it_new buffer i = Inr it \<and> it_valid buffer it \<and> it_rest buffer it = ds_bytes (drop i buffer)"
  using assms solid_nth [of buffer i] by (cases "i = length buffer") (fastforce simp: it_new_def it_valid_def it_rest_def)+

lemma it_rest_Some:
  assumes "it_slice it < length buffer" "span_it it = Some pos" "buffer ! it_slice it = Some s" "pos < length s"
  shows "it_rest buffer it = s ! pos # drop (Suc pos) s @ ds_bytes (drop (Suc (it_slice it)) buffer)"
  using assms by (simp add: it_rest_def Cons_nth_drop_Suc [symmetric])

lemma it_step:
  assumes "solid buffer" "it_valid buffer it" "it_rest buffer it \<noteq> []"
  shows "it_deref buffer it = Inr (hd (it_rest buffer it)) \<and>
    (\<exists>it'. it_inc buffer it = Inr it' \<and> it_valid buffer it' \<and> it_rest buffer it' = tl (it_rest buffer it))"
proof -
  obtain pos where pos: "span_it it = Some pos" "it_slice it < length buffer" "pos < length (the (buffer ! it_slice it))"
    using assms(2,3) by (auto simp: it_valid_def it_rest_def split: option.splits)
  obtain s where s: "buffer ! it_slice it = Some s" using solid_nth [OF assms(1) pos(2)] by auto
  note r = it_rest_Some [OF pos(2,1) s]
  show ?thesis
  proof (cases "Suc pos = length s")
    case True
    then show ?thesis using it_new_valid [OF assms(1), of "Suc (it_slice it)"] pos s r
      by (auto simp: it_deref_def it_inc_def it_next_slice_def)
  next
    case False
    have "ds_bytes (drop (it_slice it) buffer) = s @ ds_bytes (drop (Suc (it_slice it)) buffer)"
      using pos(2) s by (simp add: Cons_nth_drop_Suc [symmetric])
    then have "it_rest buffer (it\<lparr>span_it := Some (Suc pos)\<rparr>) = tl (it_rest buffer it)"
      using pos(1,3) s by (simp add: it_rest_def drop_Suc tl_drop)
    then show ?thesis using False pos s r by (auto simp: it_deref_def it_inc_def it_valid_def)
  qed
qed

text \<open>The end iterator is the only valid one with nothing to read.\<close>

lemma it_end: "solid buffer \<Longrightarrow> it_valid buffer it \<Longrightarrow> it_rest buffer it = [] \<Longrightarrow> it = \<lparr>it_slice = length buffer, span_it = None\<rparr>"
  by (cases "span_it it") (auto simp: it_valid_def it_rest_def dest: solid_nth split: option.splits simp: Cons_nth_drop_Suc [symmetric])

lemma it_next_rest:
  assumes "solid buffer" "it_valid buffer it" "n \<le> length (it_rest buffer it)"
  shows "\<exists>it'. it_next buffer n it = Inr it' \<and> it_valid buffer it' \<and> it_rest buffer it' = drop n (it_rest buffer it)"
  using assms
proof (induction n arbitrary: it)
  case (Suc n)
  then have "it_rest buffer it \<noteq> []" by auto
  with it_step [OF Suc.prems(1,2)] obtain it' where i: "it_inc buffer it = Inr it'" "it_valid buffer it'"
    "it_rest buffer it' = tl (it_rest buffer it)" by blast
  with Suc.IH [of it'] Suc.prems show ?case by (simp add: drop_Suc)
qed simp

lemma it_copy_rest:
  assumes "solid buffer" "it_valid buffer it" "n \<le> length (it_rest buffer it)" "it_next buffer n it = Inr it'" "n \<le> fuel"
  shows "it_copy fuel buffer it it' = Some (Inr (take n (it_rest buffer it)))"
  using assms
proof (induction n arbitrary: it fuel)
  case 0
  then show ?case by (simp add: it_copy.simps)
next
  case (Suc n)
  then have ne: "it_rest buffer it \<noteq> []" by auto
  obtain it1 where s: "it_deref buffer it = Inr (hd (it_rest buffer it))" "it_inc buffer it = Inr it1" "it_valid buffer it1"
    "it_rest buffer it1 = tl (it_rest buffer it)" using it_step [OF Suc.prems(1,2) ne] by blast
  obtain f where f: "fuel = Suc f" using Suc.prems(5) by (cases fuel) auto
  have "length (it_rest buffer it') = length (it_rest buffer it) - Suc n"
    using it_next_rest [OF Suc.prems(1-3)] Suc.prems(4) by auto
  then have "it \<noteq> it'" using Suc.prems(3) by auto
  moreover have "it_copy f buffer it1 it' = Some (Inr (take n (tl (it_rest buffer it))))"
    using Suc.IH [of it1 f] Suc.prems s f by simp
  ultimately show ?case using s ne f by (subst it_copy.simps) (simp add: take_Suc)
qed

lemma ds_size_eq: "list_all (\<lambda>s. s \<noteq> None) buffer \<Longrightarrow> ds_size buffer = Inr (length (ds_bytes buffer))"
  by (induction buffer rule: ds_size.induct) auto

lemma solid_not_null: "solid buffer \<Longrightarrow> list_all (\<lambda>s. s \<noteq> None) buffer"
  by (auto simp: solid_def list_all_iff)

lemma ds_begin_valid:
  "solid buffer \<Longrightarrow> \<exists>it. ds_begin buffer = Inr it \<and> it_valid buffer it \<and> it_rest buffer it = ds_bytes buffer"
  using it_new_valid [of buffer 0] by (simp add: ds_begin_def)

text \<open>C40. Reading the storage from \<^verbatim>\<open>begin()\<close> to \<^verbatim>\<open>end()\<close> gives all octets that were pushed, in
  order, across the borders of the slices, provided no slice is null or empty; as many steps as there
  are octets are enough. \<^verbatim>\<open>size()\<close> is their number.\<close>

theorem DataStorage_read:
  assumes "solid buffer" "length (ds_bytes buffer) \<le> fuel"
  shows "\<exists>first last. ds_begin buffer = Inr first \<and> ds_end buffer = Inr last \<and>
    it_copy fuel buffer first last = Some (Inr (ds_bytes buffer)) \<and> ds_size buffer = Inr (length (ds_bytes buffer))"
proof -
  obtain it where it: "ds_begin buffer = Inr it" "it_valid buffer it" "it_rest buffer it = ds_bytes buffer"
    using ds_begin_valid [OF assms(1)] by blast
  let ?n = "length (ds_bytes buffer)"
  obtain it' where n: "it_next buffer ?n it = Inr it'" "it_valid buffer it'" "it_rest buffer it' = []"
    using it_next_rest [OF assms(1) it(2), of ?n] it(3) by auto
  have "ds_end buffer = Inr it'" using it_end [OF assms(1) n(2,3)] by (simp add: ds_end_def it_new_def)
  then show ?thesis using it it_copy_rest [OF assms(1) it(2) _ n(1) assms(2)] ds_size_eq [OF solid_not_null [OF assms(1)]] by simp
qed

text \<open>A view reads exactly its window of the storage.\<close>

theorem DynView_window:
  assumes "solid (dv_storage dv)" "dv_start_pos dv \<le> e" "e \<le> length (ds_bytes (dv_storage dv))" "e < 2 ^ 64"
    "dv_end_pos dv = Some e \<or> dv_end_pos dv = None \<and> e = length (ds_bytes (dv_storage dv))" "e - dv_start_pos dv \<le> fuel"
  shows "dv_size dv = Inr (e - dv_start_pos dv) \<and>
    (\<exists>first last. dv_begin dv = Inr first \<and> dv_end dv = Inr last \<and>
       it_copy fuel (dv_storage dv) first last =
         Some (Inr (take (e - dv_start_pos dv) (drop (dv_start_pos dv) (ds_bytes (dv_storage dv))))))"
proof -
  let ?b = "dv_storage dv" and ?s = "dv_start_pos dv"
  obtain it where it: "ds_begin ?b = Inr it" "it_valid ?b it" "it_rest ?b it = ds_bytes ?b"
    using ds_begin_valid [OF assms(1)] by blast
  obtain it1 where i1: "it_next ?b ?s it = Inr it1" "it_valid ?b it1" "it_rest ?b it1 = drop ?s (ds_bytes ?b)"
    using it_next_rest [OF assms(1) it(2), of ?s] it(3) assms(2,3) by auto
  have l: "e - ?s \<le> length (it_rest ?b it1)" using i1(3) assms(3) by auto
  obtain it2 where i2: "it_next ?b (e - ?s) it1 = Inr it2" using it_next_rest [OF assms(1) i1(2) l] by blast
  have size: "dv_size dv = Inr (e - ?s)"
    using assms(2-5) ds_size_eq [OF solid_not_null [OF assms(1)]] by (auto simp: dv_size_def sub64_small limit64_def)
  show ?thesis using it i1 i2 size it_copy_rest [OF assms(1) i1(2) l i2 assms(6)] by (simp add: dv_begin_def dv_end_def)
qed

text \<open>\<^verbatim>\<open>Subspan\<close> counts its positions from the start of the storage, not of the view, and clips
  the end to the storage: the octets it shows do not depend on the view it was taken from.\<close>

theorem DynView_Subspan:
  assumes "solid (dv_storage dv)"
  shows "\<exists>sub. dv_Subspan start end_pos dv = Inr sub \<and> dv_storage sub = dv_storage dv \<and> dv_start_pos sub = start \<and>
    dv_end_pos sub = Some (min (length (ds_bytes (dv_storage dv)))
      (case end_pos of None \<Rightarrow> length (ds_bytes (dv_storage dv)) | Some e \<Rightarrow> e))"
  using ds_size_eq [OF solid_not_null [OF assms]] by (auto simp: dv_Subspan_def min_def split: option.splits)

text \<open>\<^verbatim>\<open>EraseFront\<close> removes whole slices only: what is left of the storage, from the offset it
  returns, is what follows the first \<open>len\<close> octets, and the offset lies inside the first remaining slice.\<close>

theorem EraseFront_spec:
  assumes "list_all (\<lambda>s. s \<noteq> None) buffer" "ds_EraseFront len buffer = (off, buffer')"
  shows "drop off (ds_bytes buffer') = drop len (ds_bytes buffer) \<and> suffix buffer' buffer \<and>
    (buffer' = [] \<and> off = 0 \<or> (\<exists>s. hd buffer' = Some s \<and> off < length s))"
  using assms
proof (induction len buffer rule: ds_EraseFront.induct)
  case (3 len s buffer)
  then show ?case by (auto split: if_splits intro: suffix_ConsI)
qed auto

text \<open>An empty slice breaks the iterator: pushing no octets is allowed, but then \<^verbatim>\<open>begin()\<close> points
  into the empty slice, and both reading and advancing it are undefined.\<close>

theorem DataStorage_empty_slice:
  assumes "hd buffer = Some []" "buffer \<noteq> []"
  shows "\<exists>it. ds_begin buffer = Inr it \<and> it_deref buffer it = Inl Undefined_Behaviour \<and> it_inc buffer it = Inl Undefined_Behaviour"
  using assms by (cases buffer) (auto simp: ds_begin_def it_new_def it_deref_def it_inc_def)

text \<open>Stepping forward and back again.\<close>

lemma it_new_cases: "it_new buffer i = Inr it \<Longrightarrow> it_slice it = i \<and> span_it it \<in> {None, Some 0}"
  by (auto simp: it_new_def split: if_splits option.splits)

text \<open>\<^verbatim>\<open>--\<close> undoes \<^verbatim>\<open>++\<close> at every position of a storage without null or empty slices.\<close>

theorem iterator_inc_dec:
  assumes "solid buffer" "it_valid buffer it" "it_inc buffer it = Inr it'"
  shows "it_dec buffer it' = Inr it"
proof (cases "span_it it")
  case None
  then show ?thesis using assms by (auto simp: it_valid_def it_inc_def it_next_slice_def)
next
  case (Some pos)
  then have l: "it_slice it < length buffer" using assms(2) by (simp add: it_valid_def)
  then obtain b bs where s: "buffer ! it_slice it = Some (b # bs)" using solid_nth [OF assms(1)] by blast
  have id: "\<lparr>it_slice = it_slice it, span_it = Some pos\<rparr> = it" "it\<lparr>span_it := Some pos\<rparr> = it" using Some by simp_all
  show ?thesis
  proof (cases "Suc pos = length (b # bs)")
    case True
    then have "it_new buffer (Suc (it_slice it)) = Inr it'" using assms(3) Some s l by (simp add: it_inc_def it_next_slice_def)
    then show ?thesis using it_new_cases [of buffer "Suc (it_slice it)" it'] True s id
      by (auto simp: it_dec_def it_prev_slice_def)
  next
    case False
    then show ?thesis using assms(3) Some s id by (auto simp: it_inc_def it_dec_def split: if_splits)
  qed
qed

subsection \<open>The theorems on a concrete storage\<close>

definition storage0 :: "slice list" where
  "storage0 = ds_Push_bytes [4] (ds_Push_bytes [1, 2, 3] [])"

lemma storage0_facts: "solid storage0" "ds_bytes storage0 = [1, 2, 3, 4]" "storage0 = [Some [1, 2, 3], Some [4]]"
  by (simp_all add: storage0_def ds_Push_bytes_def solid_def)

theorem DataStorage_read_witness:
  "\<exists>first last. ds_begin storage0 = Inr first \<and> ds_end storage0 = Inr last \<and>
     it_copy 4 storage0 first last = Some (Inr [1, 2, 3, 4])"
  using DataStorage_read [OF storage0_facts(1), of 4] by (auto simp: storage0_facts(2))

theorem DynView_window_witness:
  "dv_size \<lparr>dv_storage = storage0, dv_start_pos = 1, dv_end_pos = Some 4\<rparr> = Inr 3 \<and>
   (\<exists>first last. it_copy 3 storage0 first last = Some (Inr [2, 3, 4]))"
  using DynView_window [of "\<lparr>dv_storage = storage0, dv_start_pos = 1, dv_end_pos = Some 4\<rparr>" 4 3]
  by (auto simp: storage0_facts(1,2))

theorem DynView_Subspan_witness:
  "\<exists>sub. dv_Subspan 2 (Some 9) \<lparr>dv_storage = storage0, dv_start_pos = 1, dv_end_pos = Some 3\<rparr> = Inr sub \<and> dv_end_pos sub = Some 4"
  using DynView_Subspan [of "\<lparr>dv_storage = storage0, dv_start_pos = 1, dv_end_pos = Some 3\<rparr>" 2 "Some 9"]
  by (auto simp: storage0_facts(1,2))

theorem EraseFront_spec_witness: "ds_EraseFront 3 storage0 = (0, [Some [4]]) \<and> drop 0 (ds_bytes [Some [4]]) = drop 3 (ds_bytes storage0)"
  using EraseFront_spec [of storage0 3 0 "[Some [4]]"] by (simp add: storage0_facts(3))

theorem DataStorage_empty_slice_witness:
  "\<exists>it. ds_begin (ds_Push_bytes [1] (ds_Push_bytes [] [])) = Inr it \<and>
     it_deref (ds_Push_bytes [1] (ds_Push_bytes [] [])) it = Inl Undefined_Behaviour"
  using DataStorage_empty_slice [of "ds_Push_bytes [1] (ds_Push_bytes [] [])"] by (auto simp: ds_Push_bytes_def)

theorem iterator_inc_dec_witness: "it_dec storage0 \<lparr>it_slice = 1, span_it = Some 0\<rparr> = Inr \<lparr>it_slice = 0, span_it = Some 2\<rparr>"
  using iterator_inc_dec [OF storage0_facts(1), of "\<lparr>it_slice = 0, span_it = Some 2\<rparr>" "\<lparr>it_slice = 1, span_it = Some 0\<rparr>"]
  by (simp add: storage0_facts(3) it_valid_def it_inc_def it_next_slice_def it_new_def)

end
