(* ===== verification/Timed_Interface.thy ===== *)
theory Timed_Interface
  imports Wrap64 Quicr_Prelude
begin

section \<open>Interface: queues whose elements expire\<close>

text \<open>
  What the time queue and the priority queue promise to a user who pushes and pops in any order, with
  any times to live, while the clock goes on. The abstract queue is a list of elements, each with the
  millisecond at which it expires; \<open>ins\<close> says where a new element goes. An operation is made at a
  time, and a schedule of operations is \<open>timely\<close> when the clock does not run backwards, every time
  to live is accepted, and nothing that waits is within \<open>margin\<close> milliseconds of its expiry when an
  operation is made.
\<close>

datatype 'a timed_op = Push_op nat nat 'a | Pop_op nat

fun op_time :: "'a timed_op \<Rightarrow> nat" where
  "op_time (Push_op now ttl v) = now"
| "op_time (Pop_op now) = now"

definition lifetime :: "nat \<Rightarrow> nat \<Rightarrow> nat" where
  "lifetime duration ttl = (if ttl = 0 then duration else ttl)"

fun head_value :: "(nat \<times> 'a) list \<Rightarrow> 'a option" where
  "head_value [] = None"
| "head_value ((_, v) # _) = Some v"

fun list_step :: "((nat \<times> 'a) list \<Rightarrow> nat \<times> 'a \<Rightarrow> (nat \<times> 'a) list) \<Rightarrow> nat \<Rightarrow> 'a timed_op \<Rightarrow> (nat \<times> 'a) list \<Rightarrow> (nat \<times> 'a) list" where
  "list_step ins duration (Push_op now ttl v) l = ins l (now + lifetime duration ttl, v)"
| "list_step ins duration (Pop_op now) l = tl l"

text \<open>The values the pops deliver, and what is left.\<close>

fun list_run :: "((nat \<times> 'a) list \<Rightarrow> nat \<times> 'a \<Rightarrow> (nat \<times> 'a) list) \<Rightarrow> nat \<Rightarrow> 'a timed_op list \<Rightarrow> (nat \<times> 'a) list \<Rightarrow>
    'a option list \<times> (nat \<times> 'a) list" where
  "list_run ins duration [] l = ([], l)"
| "list_run ins duration (op # ops) l =
     (let (vs, l') = list_run ins duration ops (list_step ins duration op l)
      in (case op of Push_op _ _ _ \<Rightarrow> vs | Pop_op _ \<Rightarrow> head_value l # vs, l'))"

fun ttl_ok :: "nat \<Rightarrow> nat \<Rightarrow> 'a timed_op \<Rightarrow> bool" where
  "ttl_ok duration margin (Push_op now ttl v) \<longleftrightarrow> ttl \<le> duration \<and> margin \<le> lifetime duration ttl"
| "ttl_ok duration margin (Pop_op now) \<longleftrightarrow> True"

fun timely :: "((nat \<times> 'a) list \<Rightarrow> nat \<times> 'a \<Rightarrow> (nat \<times> 'a) list) \<Rightarrow> nat \<Rightarrow> nat \<Rightarrow> nat \<Rightarrow> 'a timed_op list \<Rightarrow>
    (nat \<times> 'a) list \<Rightarrow> bool" where
  "timely ins duration margin now [] l \<longleftrightarrow> True"
| "timely ins duration margin now (op # ops) l \<longleftrightarrow>
     now \<le> op_time op \<and> op_time op + duration < limit64 \<and> ttl_ok duration margin op \<and>
     (\<forall>x \<in> set l. op_time op + margin \<le> fst x) \<and>
     timely ins duration margin (op_time op) ops (list_step ins duration op l)"

text \<open>The same schedule on an implementation, whose push may throw.\<close>

fun timed_run :: "(nat \<Rightarrow> nat \<Rightarrow> 'a \<Rightarrow> 'q \<Rightarrow> 'q result) \<Rightarrow> (nat \<Rightarrow> 'q \<Rightarrow> 'b option \<times> 'q) \<Rightarrow> 'a timed_op list \<Rightarrow> 'q \<Rightarrow>
    ('b option list \<times> 'q) result" where
  "timed_run push pop [] q = Inr ([], q)"
| "timed_run push pop (Push_op now ttl v # ops) q = bind_result (push now ttl v q) (timed_run push pop ops)"
| "timed_run push pop (Pop_op now # ops) q =
     (let (r, q') = pop now q in bind_result (timed_run push pop ops q') (\<lambda>(rs, q''). Inr (r # rs, q'')))"

locale timed_queue =
  fixes inv :: "nat \<Rightarrow> 'q \<Rightarrow> bool" and abs :: "'q \<Rightarrow> (nat \<times> 'a) list"
    and push :: "nat \<Rightarrow> nat \<Rightarrow> 'a \<Rightarrow> 'q \<Rightarrow> 'q result" and pop :: "nat \<Rightarrow> 'q \<Rightarrow> 'b option \<times> 'q"
    and ins :: "(nat \<times> 'a) list \<Rightarrow> nat \<times> 'a \<Rightarrow> (nat \<times> 'a) list" and val :: "'a \<Rightarrow> 'b"
    and duration :: nat and margin :: nat
  assumes inv_wait: "inv now q \<Longrightarrow> now \<le> now' \<Longrightarrow> now' + duration < limit64 \<Longrightarrow>
      \<forall>x \<in> set (abs q). now' + margin \<le> fst x \<Longrightarrow> inv now' q"
    and push_law: "inv now q \<Longrightarrow> ttl \<le> duration \<Longrightarrow> margin \<le> lifetime duration ttl \<Longrightarrow>
      \<exists>q'. push now ttl v q = Inr q' \<and> inv now q' \<and> abs q' = ins (abs q) (now + lifetime duration ttl, v)"
    and pop_law: "inv now q \<Longrightarrow>
      \<exists>q'. pop now q = (map_option val (head_value (abs q)), q') \<and> inv now q' \<and> abs q' = tl (abs q)"
begin

lemma run_refines:
  "inv now q \<Longrightarrow> timely ins duration margin now ops (abs q) \<Longrightarrow>
     \<exists>q'. timed_run push pop ops q = Inr (map (map_option val) (fst (list_run ins duration ops (abs q))), q') \<and>
       abs q' = snd (list_run ins duration ops (abs q)) \<and> (\<exists>now'. inv now' q')"
proof (induction ops arbitrary: now q)
  case (Cons op ops)
  have inv: "inv (op_time op) q" by (rule inv_wait [OF Cons.prems(1)]) (use Cons.prems(2) in simp_all)
  show ?case
  proof (cases op)
    case (Push_op t ttl v)
    then obtain q1 where q1: "push t ttl v q = Inr q1" "inv t q1" "abs q1 = list_step ins duration op (abs q)"
      using push_law [of t q ttl v] inv Cons.prems(2) by auto
    then show ?thesis using Cons.IH [of t q1] Cons.prems(2) Push_op by (auto simp: case_prod_beta)
  next
    case (Pop_op t)
    then obtain q1 where q1: "pop t q = (map_option val (head_value (abs q)), q1)" "inv t q1"
        "abs q1 = list_step ins duration op (abs q)"
      using pop_law [of t q] inv by auto
    then show ?thesis using Cons.IH [of t q1] Cons.prems(2) Pop_op by (auto simp: case_prod_beta)
  qed
qed auto

end

end
