(* ===== verification/Time_Queue.thy ===== *)
theory Time_Queue
  imports Timed_Interface
begin

section \<open>The time queue\<close>

text \<open>
  \<^verbatim>\<open>TimeQueue\<close> of \<^verbatim>\<open>detail/time_queue.h\<close>: a first-in first-out queue whose elements
  expire. The values are stored in buckets of a ring that turns with time; the queue proper holds
  references (bucket and position) with the tick at which the element expires and the tick before
  which it may not be popped. The milliseconds of the tick service are an argument of every
  operation that reads them. The vector of buckets is never resized, so a reference to a bucket is
  its position.
\<close>

record QueueValueType =
  qv_bucket :: nat
  qv_value_index :: nat
  qv_expiry_tick :: nat
  qv_wait_for_tick :: nat

record 'v TimeQueueElement =
  has_value :: bool
  expired_count :: nat
  elem_value :: 'v

record 'v TimeQueue =
  tq_duration :: nat
  tq_interval :: nat
  tq_total_buckets :: nat
  tq_bucket_index :: nat
  tq_queue_index :: nat
  tq_current_ticks :: nat
  tq_buckets :: "'v list list"
  tq_inuse :: "nat list"
  tq_queue :: "QueueValueType list"

definition kMaxBuckets :: nat where
  "kMaxBuckets = 1000"

text \<open>The constructor. The initialisers divide by the interval before the arguments are checked.\<close>

definition TimeQueue_new :: "nat \<Rightarrow> nat \<Rightarrow> bool \<Rightarrow> 'v TimeQueue result" where
  "TimeQueue_new duration interval have_tick_service =
     (if interval = 0 then Inl Undefined_Behaviour
      else
        let interval' = (if duration div interval > kMaxBuckets then duration div kMaxBuckets else interval);
            total = duration div interval'
        in
        if duration = 0 \<or> duration mod interval \<noteq> 0 \<or> duration = interval
        then Inl (Invalid_Argument ''Invalid time_queue constructor args'')
        else if \<not> have_tick_service then Inl (Invalid_Argument ''Tick service cannot be null'')
        else Inr \<lparr>tq_duration = duration, tq_interval = interval', tq_total_buckets = total, tq_bucket_index = 0,
                  tq_queue_index = 0, tq_current_ticks = 0, tq_buckets = replicate total [], tq_inuse = [],
                  tq_queue = []\<rparr>)"

definition tq_Size :: "'v TimeQueue \<Rightarrow> nat" where
  "tq_Size q = sub64 (length (tq_queue q)) (tq_queue_index q)"

definition tq_Empty :: "'v TimeQueue \<Rightarrow> bool" where
  "tq_Empty q \<longleftrightarrow> tq_queue q = [] \<or> tq_queue_index q \<ge> length (tq_queue q)"

fun clear_buckets :: "nat list \<Rightarrow> 'v list list \<Rightarrow> 'v list list" where
  "clear_buckets [] bs = bs"
| "clear_buckets (i # is) bs = clear_buckets is (bs[i := []])"

definition tq_Clear :: "'v TimeQueue \<Rightarrow> 'v TimeQueue" where
  "tq_Clear q =
     (if tq_queue q = [] then q
      else q\<lparr>tq_queue := [], tq_buckets := clear_buckets (tq_inuse q) (tq_buckets q), tq_inuse := [],
             tq_queue_index := 0, tq_bucket_index := 0\<rparr>)"

definition tq_ClearRange :: "nat \<Rightarrow> nat \<Rightarrow> 'v TimeQueue \<Rightarrow> 'v TimeQueue" where
  "tq_ClearRange start end q =
     q\<lparr>tq_buckets := clear_buckets (filter (\<lambda>i. start \<le> i \<and> i \<le> end) (tq_inuse q)) (tq_buckets q),
       tq_inuse := filter (\<lambda>i. \<not> (start \<le> i \<and> i \<le> end)) (tq_inuse q)\<rparr>"

definition tq_Advance :: "nat \<Rightarrow> 'v TimeQueue \<Rightarrow> nat \<times> 'v TimeQueue" where
  "tq_Advance new_ticks q =
     (let elapsed = (if tq_current_ticks q \<noteq> 0 then sub64 new_ticks (tq_current_ticks q) else 0);
          q = q\<lparr>tq_current_ticks := new_ticks\<rparr>;
          delta = elapsed div tq_interval q;
          total = tq_total_buckets q;
          index = tq_bucket_index q
      in
      if elapsed = 0 then (new_ticks, q)
      else if delta \<ge> total then (new_ticks, tq_Clear q)
      else if index + delta > total then
        let q = tq_ClearRange index total q;
            index' = (index + delta) mod total;
            q = q\<lparr>tq_bucket_index := index'\<rparr>
        in (new_ticks, tq_ClearRange 0 index' q)
      else
        let q = tq_ClearRange index (index + delta) q
        in (new_ticks, q\<lparr>tq_bucket_index := (index + delta) mod total\<rparr>))"

definition insert_inuse :: "nat \<Rightarrow> nat list \<Rightarrow> nat list" where
  "insert_inuse i is = (if i \<in> set is then is else insort i is)"

definition tq_InternalPush :: "nat \<Rightarrow> 'v \<Rightarrow> nat \<Rightarrow> nat \<Rightarrow> 'v TimeQueue \<Rightarrow> 'v TimeQueue result" where
  "tq_InternalPush now value ttl delay_ttl q =
     (if ttl > tq_duration q then Inl (Invalid_Argument ''TTL is greater than max duration'')
      else
        let ttl = (if ttl = 0 then tq_duration q else ttl);
            relative_ttl = ttl div tq_interval q;
            (ticks, q) = tq_Advance now q;
            expiry_tick = add64 ticks ttl;
            future_index = sub64 (add64 (tq_bucket_index q) relative_ttl) 1 mod tq_total_buckets q;
            bucket = tq_buckets q ! future_index @ [value]
        in Inr (q\<lparr>tq_inuse := insert_inuse (future_index mod 2 ^ 32) (tq_inuse q),
                  tq_buckets := (tq_buckets q)[future_index := bucket],
                  tq_queue := tq_queue q @
                    [\<lparr>qv_bucket = future_index, qv_value_index = length bucket - 1, qv_expiry_tick = expiry_tick,
                      qv_wait_for_tick = add64 ticks delay_ttl\<rparr>]\<rparr>))"

definition tq_Push :: "nat \<Rightarrow> 'v \<Rightarrow> nat \<Rightarrow> nat \<Rightarrow> 'v TimeQueue \<Rightarrow> 'v TimeQueue result" where
  "tq_Push now value ttl delay_ttl q = tq_InternalPush now value ttl delay_ttl q"

definition tq_Pop :: "'v TimeQueue \<Rightarrow> 'v TimeQueue" where
  "tq_Pop q = (if tq_queue q = [] then q else q\<lparr>tq_queue_index := tq_queue_index q + 1\<rparr>)"

text \<open>The loop of \<^verbatim>\<open>Front\<close>, which skips what has expired.\<close>

function front_loop :: "nat \<Rightarrow> 'v TimeQueue \<Rightarrow> 'v TimeQueueElement \<Rightarrow> 'v TimeQueue \<times> 'v TimeQueueElement" where
  "front_loop ticks q elem =
     (if tq_queue_index q < length (tq_queue q) then
        let e = tq_queue q ! tq_queue_index q; bucket = tq_buckets q ! qv_bucket e in
        if qv_value_index e \<ge> length bucket \<or> ticks > qv_expiry_tick e then
          front_loop ticks (q\<lparr>tq_queue_index := tq_queue_index q + 1\<rparr>)
            (elem\<lparr>expired_count := (expired_count elem + 1) mod 2 ^ 32\<rparr>)
        else if qv_wait_for_tick e > ticks then (q, elem)
        else (q, elem\<lparr>has_value := True, elem_value := bucket ! qv_value_index e\<rparr>)
      else (q, elem))"
  by pat_completeness auto
termination
  by (relation "measure (\<lambda>(_, q, _). length (tq_queue q) - tq_queue_index q)") auto

declare front_loop.simps [simp del]

definition tq_Front :: "nat \<Rightarrow> 'v TimeQueue \<Rightarrow> 'v TimeQueueElement \<Rightarrow> 'v TimeQueue \<times> 'v TimeQueueElement" where
  "tq_Front now q elem =
     (let (ticks, q) = tq_Advance now q;
          elem = elem\<lparr>has_value := False, expired_count := 0\<rparr>
      in if tq_queue q = [] then (q, elem) else front_loop ticks q elem)"

definition tq_PopFront :: "nat \<Rightarrow> 'v TimeQueue \<Rightarrow> 'v TimeQueueElement \<Rightarrow> 'v TimeQueue \<times> 'v TimeQueueElement" where
  "tq_PopFront now q elem =
     (let (q, elem) = tq_Front now q elem in (if has_value elem then tq_Pop q else q, elem))"

subsection \<open>The constructor\<close>

lemma bucket_count_bound:
  assumes "0 < i" "0 < d" "d mod i = 0" "d \<noteq> (i :: nat)"
  defines "i' \<equiv> (if d div i > kMaxBuckets then d div kMaxBuckets else i)"
  shows "0 < i'" "0 < d div i'" "d div i' < 2 * kMaxBuckets"
proof -
  have "i dvd d" using assms(3) by (simp add: mod_0_imp_dvd)
  then have di: "0 < d div i" using assms(1,2) by (simp add: div_greater_zero_iff dvd_imp_le)
  have "1000 \<le> d" if "1000 < d div i" by (rule order.trans [OF less_imp_le [OF that] div_le_dividend])
  then show "0 < i'" using assms(1) by (simp add: i'_def kMaxBuckets_def div_greater_zero_iff)
  show "0 < d div i'" using di \<open>0 < i'\<close> div_le_dividend [of d 1000] by (auto simp: i'_def kMaxBuckets_def div_greater_zero_iff intro: order.trans [OF div_le_dividend])
  show "d div i' < 2 * kMaxBuckets"
  proof (cases "d div i > kMaxBuckets")
    case True
    let ?k = "d div 1000"
    have k: "i' = ?k" "0 < ?k" using True \<open>0 < i'\<close> by (simp_all add: i'_def kMaxBuckets_def)
    have "1000 * ?k + d mod 1000 = d" "d mod 1000 < 1000" by simp_all
    then have "d < 2000 * ?k" using k(2) by linarith
    then show ?thesis unfolding k(1) by (simp add: kMaxBuckets_def less_mult_imp_div_less)
  next
    case False
    then show ?thesis by (simp add: i'_def kMaxBuckets_def)
  qed
qed

text \<open>The constructor accepts exactly the durations that are a proper multiple of the interval, and
  then makes at least one bucket, and fewer than twice the documented maximum.\<close>

theorem TimeQueue_new_buckets:
  "case (TimeQueue_new duration interval ts :: 'v TimeQueue result) of
     Inl _ \<Rightarrow> \<not> (ts \<and> 0 < interval \<and> 0 < duration \<and> duration mod interval = 0 \<and> duration \<noteq> interval)
   | Inr q \<Rightarrow> ts \<and> 0 < interval \<and> 0 < duration \<and> duration mod interval = 0 \<and> duration \<noteq> interval \<and>
       0 < tq_interval q \<and> 0 < tq_total_buckets q \<and> tq_total_buckets q < 2 * kMaxBuckets \<and>
       length (tq_buckets q) = tq_total_buckets q"
  using bucket_count_bound [of interval duration] by (simp add: TimeQueue_new_def Let_def)

subsection \<open>The representation invariant\<close>

definition tq_wf :: "'v TimeQueue \<Rightarrow> bool" where
  "tq_wf q \<longleftrightarrow>
     0 < tq_interval q \<and> 0 < tq_total_buckets q \<and> tq_total_buckets q < 2 ^ 32 \<and>
     tq_duration q div tq_interval q = tq_total_buckets q \<and> length (tq_buckets q) = tq_total_buckets q \<and> tq_bucket_index q < tq_total_buckets q \<and>
     (\<forall>e \<in> set (tq_queue q). qv_bucket e < tq_total_buckets q) \<and> set (tq_inuse q) \<subseteq> {..<tq_total_buckets q} \<and>
     (\<forall>i < tq_total_buckets q. tq_buckets q ! i \<noteq> [] \<longrightarrow> i \<in> set (tq_inuse q)) \<and>
     (tq_queue q = [] \<longrightarrow> (\<forall>i < tq_total_buckets q. tq_buckets q ! i = []))"

lemma length_clear_buckets [simp]: "length (clear_buckets is bs) = length bs"
  by (induction "is" bs rule: clear_buckets.induct) simp_all

lemma nth_clear_buckets:
  "i < length bs \<Longrightarrow> clear_buckets is bs ! i = (if i \<in> set is then [] else bs ! i)"
  by (induction "is" bs rule: clear_buckets.induct) (auto simp: nth_list_update)

lemma tq_Clear_wf: "tq_wf q \<Longrightarrow> tq_wf (tq_Clear q)"
  by (auto simp: tq_wf_def tq_Clear_def nth_clear_buckets)

lemma tq_ClearRange_wf: "tq_wf q \<Longrightarrow> tq_wf (tq_ClearRange s e q)"
  by (auto simp: tq_wf_def tq_ClearRange_def nth_clear_buckets)

lemma tq_bucket_index_wf: "tq_wf q \<Longrightarrow> i < tq_total_buckets q \<Longrightarrow> tq_wf (q\<lparr>tq_bucket_index := i\<rparr>)"
  by (simp add: tq_wf_def)

lemma tq_ClearRange_fields [simp]:
  "tq_total_buckets (tq_ClearRange s e q) = tq_total_buckets q" "tq_queue (tq_ClearRange s e q) = tq_queue q"
  "tq_current_ticks (tq_ClearRange s e q) = tq_current_ticks q" "tq_duration (tq_ClearRange s e q) = tq_duration q"
  "tq_interval (tq_ClearRange s e q) = tq_interval q" "tq_queue_index (tq_ClearRange s e q) = tq_queue_index q"
  by (simp_all add: tq_ClearRange_def)

lemma tq_Advance_wf:
  assumes "tq_wf q" shows "tq_wf (snd (tq_Advance now q))"
proof -
  have q: "tq_wf (q\<lparr>tq_current_ticks := now\<rparr>)" and t: "0 < tq_total_buckets q" using assms by (simp_all add: tq_wf_def)
  show ?thesis using t tq_Clear_wf [OF q] tq_ClearRange_wf [OF q] q
    by (auto simp: tq_Advance_def Let_def intro!: tq_ClearRange_wf tq_bucket_index_wf)
qed

lemma tq_Advance_fields [simp]:
  "fst (tq_Advance now q) = now" "tq_current_ticks (snd (tq_Advance now q)) = now"
  "tq_duration (snd (tq_Advance now q)) = tq_duration q" "tq_interval (snd (tq_Advance now q)) = tq_interval q"
  by (simp_all add: tq_Advance_def Let_def tq_Clear_def)

lemma set_insert_inuse [simp]: "set (insert_inuse i is) = insert i (set is)"
  by (auto simp: insert_inuse_def set_insort_key)

text \<open>A push after the ring has turned.\<close>

definition ttl_or_max :: "nat \<Rightarrow> 'v TimeQueue \<Rightarrow> nat" where
  "ttl_or_max ttl q = lifetime (tq_duration q) ttl"

definition push_index :: "nat \<Rightarrow> 'v TimeQueue \<Rightarrow> nat" where
  "push_index ttl q = sub64 (add64 (tq_bucket_index q) (ttl_or_max ttl q div tq_interval q)) 1 mod tq_total_buckets q"

definition push_at :: "nat \<Rightarrow> 'v \<Rightarrow> nat \<Rightarrow> nat \<Rightarrow> 'v TimeQueue \<Rightarrow> 'v TimeQueue" where
  "push_at now v ttl delay q =
     (let i = push_index ttl q in
      q\<lparr>tq_inuse := insert_inuse (i mod 2 ^ 32) (tq_inuse q), tq_buckets := (tq_buckets q)[i := tq_buckets q ! i @ [v]],
        tq_queue := tq_queue q @
          [\<lparr>qv_bucket = i, qv_value_index = length (tq_buckets q ! i), qv_expiry_tick = add64 now (ttl_or_max ttl q),
            qv_wait_for_tick = add64 now delay\<rparr>]\<rparr>)"

lemma tq_InternalPush_eq:
  "tq_InternalPush now v ttl delay q =
     (if ttl > tq_duration q then Inl (Invalid_Argument ''TTL is greater than max duration'')
      else Inr (push_at now v ttl delay (snd (tq_Advance now q))))"
proof -
  have "tq_Advance now q = (now, snd (tq_Advance now q))" by (metis prod.collapse tq_Advance_fields(1))
  then show ?thesis unfolding tq_InternalPush_def
    by (auto simp: push_at_def push_index_def ttl_or_max_def lifetime_def Let_def split: prod.splits)
qed

lemma push_index_less: "tq_wf q \<Longrightarrow> push_index ttl q < tq_total_buckets q"
  by (simp add: push_index_def tq_wf_def)

lemma push_at_wf:
  assumes "tq_wf q" shows "tq_wf (push_at now v ttl delay q)"
proof -
  define i where "i = push_index ttl q"
  have i: "i < tq_total_buckets q" "i mod 2 ^ 32 = i"
    using push_index_less [OF assms, of ttl] assms by (simp_all add: i_def tq_wf_def)
  show ?thesis using assms i(1) unfolding push_at_def i_def [symmetric] Let_def i(2)
    by (auto simp: tq_wf_def nth_list_update)
qed

lemma tq_Push_wf: "tq_wf q \<Longrightarrow> tq_Push now v ttl delay q = Inr q' \<Longrightarrow> tq_wf q'"
  by (auto simp: tq_Push_def tq_InternalPush_eq push_at_wf tq_Advance_wf split: if_splits)

lemma tq_Pop_wf: "tq_wf q \<Longrightarrow> tq_wf (tq_Pop q)"
  by (auto simp: tq_wf_def tq_Pop_def)

text \<open>What \<^verbatim>\<open>Front\<close> does: it drops a run of dead references, which it counts, and stops at the first
  one that is alive, whose value it delivers unless it has to wait.\<close>

definition dead :: "nat \<Rightarrow> 'v TimeQueue \<Rightarrow> QueueValueType \<Rightarrow> bool" where
  "dead ticks q e \<longleftrightarrow> qv_value_index e \<ge> length (tq_buckets q ! qv_bucket e) \<or> ticks > qv_expiry_tick e"

definition pending :: "'v TimeQueue \<Rightarrow> QueueValueType list" where
  "pending q = drop (tq_queue_index q) (tq_queue q)"

definition ref_value :: "'v TimeQueue \<Rightarrow> QueueValueType \<Rightarrow> 'v" where
  "ref_value q e = tq_buckets q ! qv_bucket e ! qv_value_index e"

lemma pending_Cons: "tq_queue_index q < length (tq_queue q) \<Longrightarrow>
    pending q = tq_queue q ! tq_queue_index q # pending (q\<lparr>tq_queue_index := tq_queue_index q + 1\<rparr>)"
  by (simp add: pending_def Cons_nth_drop_Suc)

lemma pending_skip: "pending (q\<lparr>tq_queue_index := tq_queue_index q + k\<rparr>) = drop k (pending q)"
  by (simp add: pending_def add.commute)

definition count_expired :: "nat \<Rightarrow> nat" where
  "count_expired n = (n + 1) mod 2 ^ 32"

fun deliver :: "nat \<Rightarrow> 'v TimeQueue \<Rightarrow> QueueValueType list \<Rightarrow> 'v TimeQueueElement \<Rightarrow> 'v TimeQueueElement" where
  "deliver ticks q [] elem = elem"
| "deliver ticks q (e # _) elem =
     (if qv_wait_for_tick e > ticks then elem else elem\<lparr>has_value := True, elem_value := ref_value q e\<rparr>)"

lemma front_loop_eq:
  "front_loop ticks q elem =
    (let skipped = length (takeWhile (dead ticks q) (pending q)) in
     (q\<lparr>tq_queue_index := tq_queue_index q + skipped\<rparr>,
      deliver ticks q (dropWhile (dead ticks q) (pending q))
        (elem\<lparr>expired_count := (count_expired ^^ skipped) (expired_count elem)\<rparr>)))"
proof (induction ticks q elem rule: front_loop.induct)
  case (1 ticks q elem)
  show ?case
  proof (cases "tq_queue_index q < length (tq_queue q)")
    case False
    then have "pending q = []" by (simp add: pending_def)
    then show ?thesis using False by (simp add: front_loop.simps [of ticks q elem])
  next
    case True
    let ?e = "tq_queue q ! tq_queue_index q" and ?q = "q\<lparr>tq_queue_index := tq_queue_index q + 1\<rparr>"
    let ?el = "elem\<lparr>expired_count := (expired_count elem + 1) mod 2 ^ 32\<rparr>"
    have "deliver ticks ?q l el = deliver ticks q l el" for l el by (cases l) (simp_all add: ref_value_def)
    then have d: "dead ticks ?q = dead ticks q" "deliver ticks ?q = deliver ticks q"
      by (auto simp: dead_def fun_eq_iff)
    show ?thesis
    proof (cases "dead ticks q ?e")
      case dd: True
      then have "front_loop ticks q elem = front_loop ticks ?q ?el"
        using True by (simp add: front_loop.simps [of ticks q elem] dead_def Let_def)
      also have "\<dots> = (let skipped = length (takeWhile (dead ticks q) (pending ?q)) in
          (?q\<lparr>tq_queue_index := tq_queue_index ?q + skipped\<rparr>, deliver ticks q (dropWhile (dead ticks q) (pending ?q))
            (?el\<lparr>expired_count := (count_expired ^^ skipped) (expired_count ?el)\<rparr>)))"
        using "1.IH" [OF True refl refl] dd [unfolded dead_def] True unfolding d by simp
      also have "?el = elem\<lparr>expired_count := count_expired (expired_count elem)\<rparr>" by (simp add: count_expired_def)
      finally show ?thesis unfolding pending_Cons [OF True] using dd by (simp add: Let_def funpow_swap1)
    next
      case False
      then show ?thesis using True
        by (simp add: front_loop.simps [of ticks q elem] pending_Cons [OF True] dead_def ref_value_def Let_def)
    qed
  qed
qed

lemma count_expired_funpow: "(count_expired ^^ n) 0 = n mod 2 ^ 32"
  by (induction n) (simp_all add: count_expired_def mod_simps)

lemma tq_Front_eq:
  "tq_Front now q elem =
    (let q1 = snd (tq_Advance now q);
         skipped = length (takeWhile (dead now q1) (pending q1))
     in (q1\<lparr>tq_queue_index := tq_queue_index q1 + skipped\<rparr>,
         deliver now q1 (dropWhile (dead now q1) (pending q1))
           (elem\<lparr>has_value := False, expired_count := skipped mod 2 ^ 32\<rparr>)))"
proof -
  let ?q = "snd (tq_Advance now q)"
  have "tq_Advance now q = (now, ?q)" by (metis prod.collapse tq_Advance_fields(1))
  then show ?thesis using front_loop_eq [of now ?q] unfolding tq_Front_def
    by (auto simp: Let_def pending_def count_expired_funpow split: prod.splits)
qed

lemma tq_queue_index_wf: "tq_wf q \<Longrightarrow> tq_wf (q\<lparr>tq_queue_index := i\<rparr>)"
  by (simp add: tq_wf_def)

lemma tq_Front_wf: "tq_wf q \<Longrightarrow> tq_wf (fst (tq_Front now q elem))"
  by (simp add: tq_Front_eq Let_def tq_queue_index_wf tq_Advance_wf)

lemma tq_PopFront_wf: "tq_wf q \<Longrightarrow> tq_wf (fst (tq_PopFront now q elem))"
  using tq_Front_wf [of q now elem] by (auto simp: tq_PopFront_def tq_Pop_wf split: prod.splits)

text \<open>The queues that can be made; \<open>careful\<close> when \<^verbatim>\<open>Pop\<close> is only called on a queue that is
  not empty.\<close>

inductive tq_reachable :: "bool \<Rightarrow> 'v TimeQueue \<Rightarrow> bool" for careful :: bool where
  new: "TimeQueue_new duration interval ts = Inr q \<Longrightarrow> tq_reachable careful q"
| push: "tq_reachable careful q \<Longrightarrow> tq_Push now v ttl delay q = Inr q' \<Longrightarrow> tq_reachable careful q'"
| pop: "tq_reachable careful q \<Longrightarrow> \<not> careful \<or> \<not> tq_Empty q \<Longrightarrow> tq_reachable careful (tq_Pop q)"
| front: "tq_reachable careful q \<Longrightarrow> tq_reachable careful (fst (tq_Front now q elem))"
| pop_front: "tq_reachable careful q \<Longrightarrow> tq_reachable careful (fst (tq_PopFront now q elem))"
| clear: "tq_reachable careful q \<Longrightarrow> tq_reachable careful (tq_Clear q)"

lemma TimeQueue_new_wf: "TimeQueue_new duration interval ts = Inr q \<Longrightarrow> tq_wf q"
  using bucket_count_bound [of interval duration]
  by (auto simp: TimeQueue_new_def Let_def tq_wf_def kMaxBuckets_def split: if_splits)

lemma tq_reachable_wf: "tq_reachable careful q \<Longrightarrow> tq_wf q"
  by (induction rule: tq_reachable.induct)
    (auto intro: TimeQueue_new_wf tq_Push_wf tq_Pop_wf tq_Front_wf tq_PopFront_wf tq_Clear_wf)

text \<open>With careful calls the index never passes the end.\<close>

definition index_ok :: "'v TimeQueue \<Rightarrow> bool" where
  "index_ok q \<longleftrightarrow> tq_queue_index q \<le> length (tq_queue q)"

lemma tq_Clear_index: "index_ok q \<Longrightarrow> index_ok (tq_Clear q)"
  by (auto simp: index_ok_def tq_Clear_def)

lemma tq_Advance_index: "index_ok q \<Longrightarrow> index_ok (snd (tq_Advance now q))"
  by (auto simp: index_ok_def tq_Advance_def Let_def tq_Clear_def)

lemma tq_Push_index: "index_ok q \<Longrightarrow> tq_Push now v ttl delay q = Inr q' \<Longrightarrow> index_ok q'"
  using tq_Advance_index [of q now]
  by (auto simp: index_ok_def tq_Push_def tq_InternalPush_eq push_at_def Let_def split: if_splits)

lemma tq_Front_index: "index_ok q \<Longrightarrow> index_ok (fst (tq_Front now q elem))"
  using tq_Advance_index [of q now] length_takeWhile_le [of "dead now (snd (tq_Advance now q))" "pending (snd (tq_Advance now q))"]
  by (simp add: index_ok_def tq_Front_eq Let_def pending_def)

lemma deliver_has_value: "has_value (deliver t q l el) \<Longrightarrow> \<not> has_value el \<Longrightarrow> l \<noteq> []"
  by (cases l) auto

lemma tq_Front_not_empty:
  assumes "has_value (snd (tq_Front now q elem))" shows "\<not> tq_Empty (fst (tq_Front now q elem))"
proof -
  let ?q = "snd (tq_Advance now q)"
  define d where "d = dropWhile (dead now ?q) (pending ?q)"
  define t where "t = takeWhile (dead now ?q) (pending ?q)"
  have "has_value (deliver now ?q d (elem\<lparr>has_value := False, expired_count := length t mod 2 ^ 32\<rparr>))"
    using assms by (simp add: tq_Front_eq Let_def d_def t_def)
  then have "d \<noteq> []" by (rule deliver_has_value) simp
  moreover have "t @ d = pending ?q" by (simp add: d_def t_def)
  ultimately have "length t < length (pending ?q)"
    by (metis length_append length_greater_0_conv less_add_same_cancel1)
  then show ?thesis by (auto simp: tq_Front_eq Let_def tq_Empty_def pending_def t_def)
qed

lemma tq_PopFront_index: "index_ok q \<Longrightarrow> index_ok (fst (tq_PopFront now q elem))"
  using tq_Front_index [of q now elem] tq_Front_not_empty [of now q elem]
  by (auto simp: tq_PopFront_def tq_Pop_def tq_Empty_def index_ok_def split: prod.splits)

lemma tq_reachable_index: "tq_reachable True q \<Longrightarrow> index_ok q"
proof (induction rule: tq_reachable.induct)
  case (new duration interval ts q)
  then show ?case by (auto simp: TimeQueue_new_def Let_def index_ok_def split: if_splits)
next
  case (pop q)
  then show ?case by (auto simp: tq_Pop_def tq_Empty_def index_ok_def)
qed (auto intro: tq_Push_index tq_Front_index tq_PopFront_index tq_Clear_index)

lemma tq_Size_eq:
  assumes "length (tq_queue q) < limit64" "tq_queue_index q < limit64"
  shows "tq_Size q = (if index_ok q then length (pending q) else limit64 - (tq_queue_index q - length (tq_queue q)))"
proof (cases "index_ok q")
  case True
  then show ?thesis using assms by (simp add: tq_Size_def sub64_small pending_def index_ok_def)
next
  case False
  then have "tq_Size q = (length (tq_queue q) + (limit64 - tq_queue_index q)) mod limit64"
    "length (tq_queue q) + (limit64 - tq_queue_index q) = limit64 - (tq_queue_index q - length (tq_queue q))"
    "limit64 - (tq_queue_index q - length (tq_queue q)) < limit64"
    using assms by (auto simp: tq_Size_def sub64_def index_ok_def)
  then show ?thesis using False by simp
qed



subsection \<open>While the clock goes on\<close>

text \<open>
  A bucket at offset \<open>k\<close> from the current one is cleared when the ring has turned by \<open>k\<close> intervals.
  An element is held as long as it expires less than \<open>k + 2\<close> intervals after the queue last looked at
  the clock, so its bucket is not cleared before the last two intervals of its life. A queue is ready
  at a time when everything pending is held and has two intervals left to live.
\<close>

definition ring_offset :: "'v TimeQueue \<Rightarrow> nat \<Rightarrow> nat" where
  "ring_offset q b = (b + tq_total_buckets q - tq_bucket_index q) mod tq_total_buckets q"

definition held :: "'v TimeQueue \<Rightarrow> QueueValueType \<Rightarrow> bool" where
  "held q e \<longleftrightarrow> qv_value_index e < length (tq_buckets q ! qv_bucket e) \<and> qv_wait_for_tick e \<le> tq_current_ticks q \<and>
     qv_expiry_tick e < tq_current_ticks q + (ring_offset q (qv_bucket e) + 2) * tq_interval q"

definition tq_ready :: "nat \<Rightarrow> 'v TimeQueue \<Rightarrow> bool" where
  "tq_ready now q \<longleftrightarrow> tq_wf q \<and> index_ok q \<and> tq_current_ticks q \<le> now \<and> now + tq_duration q < limit64 \<and>
     (\<forall>e \<in> set (pending q). held q e \<and> now + 2 * tq_interval q \<le> qv_expiry_tick e)"

definition tq_values :: "'v TimeQueue \<Rightarrow> (nat \<times> 'v) list" where
  "tq_values q = map (\<lambda>e. (qv_expiry_tick e, ref_value q e)) (pending q)"

lemma tq_ready_wait:
  assumes "tq_ready now q" "now \<le> now'" "now' + tq_duration q < limit64"
    "\<forall>x \<in> set (tq_values q). now' + 2 * tq_interval q \<le> fst x"
  shows "tq_ready now' q"
  using assms by (auto simp: tq_ready_def tq_values_def)

lemma tq_ready_empty: "tq_ready now q \<Longrightarrow> tq_values q = [] \<longleftrightarrow> tq_Empty q"
  by (auto simp: tq_values_def pending_def tq_Empty_def)

text \<open>Turning the ring by fewer buckets than the offset of a bucket leaves that bucket alone.\<close>

definition turned :: "nat \<Rightarrow> nat \<Rightarrow> 'v TimeQueue \<Rightarrow> 'v TimeQueue" where
  "turned now d q = snd (
      let q = q\<lparr>tq_current_ticks := now\<rparr>; total = tq_total_buckets q; index = tq_bucket_index q in
      if index + d > total then
        let q = tq_ClearRange index total q;
            index' = (index + d) mod total;
            q = q\<lparr>tq_bucket_index := index'\<rparr>
        in (now, tq_ClearRange 0 index' q)
      else
        let q = tq_ClearRange index (index + d) q
        in (now, q\<lparr>tq_bucket_index := (index + d) mod total\<rparr>))"

lemma turned_fields [simp]:
  "tq_total_buckets (turned now d q) = tq_total_buckets q" "tq_queue (turned now d q) = tq_queue q"
  "tq_current_ticks (turned now d q) = now" "tq_interval (turned now d q) = tq_interval q"
  "tq_queue_index (turned now d q) = tq_queue_index q" "tq_duration (turned now d q) = tq_duration q"
  "tq_bucket_index (turned now d q) = (tq_bucket_index q + d) mod tq_total_buckets q"
  by (simp_all add: turned_def Let_def tq_ClearRange_def)

lemma tq_Advance_turned:
  assumes "tq_current_ticks q \<noteq> 0" "tq_current_ticks q < now" "now < limit64"
    "(now - tq_current_ticks q) div tq_interval q < tq_total_buckets q"
  shows "snd (tq_Advance now q) = turned now ((now - tq_current_ticks q) div tq_interval q) q"
  using assms by (simp add: tq_Advance_def turned_def Let_def sub64_small)

lemma offset_shift:
  fixes b i d n :: nat
  assumes "i < n" "b < n" "d < n" "d < (b + n - i) mod n"
  shows "(b + n - (i + d) mod n) mod n = (b + n - i) mod n - d"
    "i + d > n \<Longrightarrow> b < i \<and> (i + d) mod n < b" "i + d \<le> n \<Longrightarrow> b < i \<or> i + d < b"
proof -
  have off: "(b + n - i) mod n = (if b \<ge> i then b - i else b + n - i)"
    using assms(1,2) by (auto simp: le_mod_geq)
  have id: "(i + d) mod n = (if i + d \<ge> n then i + d - n else i + d)"
    using assms(1,3) by (auto simp: le_mod_geq)
  show "i + d > n \<Longrightarrow> b < i \<and> (i + d) mod n < b" "i + d \<le> n \<Longrightarrow> b < i \<or> i + d < b"
    using assms off id by (auto split: if_splits)
  have off': "(b + n - j) mod n = (if b \<ge> j then b - j else b + n - j)" if "j < n" for j
    using assms(2) that by (auto simp: le_mod_geq)
  have "(i + d) mod n < n" using assms(1) by simp
  from off' [OF this] show "(b + n - (i + d) mod n) mod n = (b + n - i) mod n - d"
    using assms off id by (auto split: if_splits)
qed

lemma turned_bucket:
  assumes "tq_wf q" "b < tq_total_buckets q" "d < tq_total_buckets q" "d < ring_offset q b"
  shows "tq_buckets (turned now d q) ! b = tq_buckets q ! b" "ring_offset (turned now d q) b = ring_offset q b - d"
proof -
  have i: "tq_bucket_index q < tq_total_buckets q" "length (tq_buckets q) = tq_total_buckets q"
    using assms(1) by (simp_all add: tq_wf_def)
  note s = offset_shift [OF i(1) assms(2,3) assms(4) [unfolded ring_offset_def]]
  show "ring_offset (turned now d q) b = ring_offset q b - d" using s(1) by (simp add: ring_offset_def)
  show "tq_buckets (turned now d q) ! b = tq_buckets q ! b" using s(2,3) i assms(2)
    by (cases "tq_bucket_index q + d > tq_total_buckets q")
      (auto simp: turned_def Let_def tq_ClearRange_def nth_clear_buckets)
qed

lemma turned_held:
  assumes "tq_wf q" "qv_bucket e < tq_total_buckets q" "held q e" "tq_current_ticks q \<le> now"
    "now + 2 * tq_interval q \<le> qv_expiry_tick e"
  defines "d \<equiv> (now - tq_current_ticks q) div tq_interval q"
  shows "d < tq_total_buckets q" "held (turned now d q) e" "ref_value (turned now d q) e = ref_value q e"
proof -
  let ?I = "tq_interval q" and ?k = "ring_offset q (qv_bucket e)"
  have I: "0 < ?I" "0 < tq_total_buckets q" using assms(1) by (simp_all add: tq_wf_def)
  have "now + 2 * ?I < tq_current_ticks q + (?k + 2) * ?I" using assms(3,5) by (simp add: held_def)
  then have "now - tq_current_ticks q < ?k * ?I" using assms(4) unfolding add_mult_distrib by linarith
  then have k: "d < ?k" using I(1) by (simp add: d_def less_mult_imp_div_less)
  moreover have "?k < tq_total_buckets q" using I(2) by (simp add: ring_offset_def)
  ultimately show dn: "d < tq_total_buckets q" by simp
  note t = turned_bucket [OF assms(1,2) dn k, of now]
  show "ref_value (turned now d q) e = ref_value q e" by (simp add: ref_value_def t)
  have "d * ?I \<le> now - tq_current_ticks q" by (simp add: d_def)
  moreover have "(?k + 2) * ?I = d * ?I + (?k - d + 2) * ?I" using k by (simp flip: add_mult_distrib)
  ultimately have "tq_current_ticks q + (?k + 2) * ?I \<le> now + (?k - d + 2) * ?I" using assms(4) by linarith
  then show "held (turned now d q) e" using assms(3,4) by (simp add: held_def t)
qed

lemma pending_bucket: "tq_wf q \<Longrightarrow> e \<in> set (pending q) \<Longrightarrow> qv_bucket e < tq_total_buckets q"
  by (auto simp: tq_wf_def pending_def dest: in_set_dropD)

lemma tq_Advance_ready:
  assumes "tq_ready now q"
  shows "tq_ready now (snd (tq_Advance now q)) \<and> tq_values (snd (tq_Advance now q)) = tq_values q"
proof -
  let ?q = "snd (tq_Advance now q)" and ?d = "(now - tq_current_ticks q) div tq_interval q"
  have wf: "tq_wf q" "index_ok q" "tq_current_ticks q \<le> now" "now < limit64" "now + tq_duration q < limit64"
    using assms by (simp_all add: tq_ready_def)
  have q: "tq_wf ?q" "index_ok ?q" using wf tq_Advance_wf tq_Advance_index by blast+
  have rest: ?thesis if "pending ?q = pending q" "\<forall>e \<in> set (pending q). held ?q e \<and> ref_value ?q e = ref_value q e"
    using that q assms by (simp add: tq_ready_def tq_values_def)
  show ?thesis
  proof (cases "tq_current_ticks q = 0 \<or> tq_current_ticks q = now")
    case True
    then have "?q = q\<lparr>tq_current_ticks := now\<rparr>" using wf by (auto simp: tq_Advance_def Let_def)
    then show ?thesis using wf(3) assms
      by (intro rest) (auto simp: pending_def held_def ref_value_def ring_offset_def tq_ready_def intro: less_le_trans order.trans)
  next
    case cur: False
    show ?thesis
    proof (cases "?d < tq_total_buckets q")
      case True
      then have t: "?q = turned now ?d q" using cur wf(3,4) by (intro tq_Advance_turned) auto
      show ?thesis
      proof (rule rest)
        show "pending ?q = pending q" by (simp add: t pending_def)
        show "\<forall>e \<in> set (pending q). held ?q e \<and> ref_value ?q e = ref_value q e"
          using turned_held [OF wf(1) pending_bucket [OF wf(1)] _ wf(3)] assms unfolding t by (auto simp: tq_ready_def)
      qed
    next
      case False
      then have "e \<notin> set (pending q)" for e
        using turned_held(1) [OF wf(1) pending_bucket [OF wf(1)] _ wf(3), of e] assms by (auto simp: tq_ready_def)
      then have "pending q = []" by (metis list.set_intros(1) neq_Nil_conv)
      moreover have "?q = tq_Clear (q\<lparr>tq_current_ticks := now\<rparr>)"
        using False cur wf(3,4) by (simp add: tq_Advance_def Let_def sub64_small)
      ultimately show ?thesis by (intro rest) (simp_all add: tq_Clear_def pending_def)
    qed
  qed
qed

lemma push_index_offset:
  assumes "tq_wf q" "ttl \<le> tq_duration q" "tq_interval q \<le> ttl_or_max ttl q"
  shows "ring_offset q (push_index ttl q) + 1 = ttl_or_max ttl q div tq_interval q"
proof -
  let ?n = "tq_total_buckets q" and ?r = "ttl_or_max ttl q div tq_interval q" and ?i = "tq_bucket_index q"
  have wf: "0 < tq_interval q" "?n < 2 ^ 32" "?n = tq_duration q div tq_interval q" "?i < ?n"
    using assms(1) by (simp_all add: tq_wf_def)
  have r: "0 < ?r" "?r \<le> ?n"
    using assms(2,3) wf(1,3) by (simp_all add: div_greater_zero_iff div_le_mono ttl_or_max_def lifetime_def)
  have "add64 ?i ?r = ?i + ?r" "sub64 (?i + ?r) 1 = ?i + ?r - 1"
    using wf(2,4) r by (auto intro!: add64_small sub64_small simp: limit64_def)
  then have p: "push_index ttl q = (?i + ?r - 1) mod ?n" by (simp add: push_index_def)
  have "ring_offset q (push_index ttl q) = ?r - 1"
  proof (cases "?i + ?r - 1 < ?n")
    case True
    then have "push_index ttl q + ?n - ?i = ?r - 1 + ?n" "?r - 1 < ?n" using p r by simp_all
    then show ?thesis by (simp add: ring_offset_def)
  next
    case False
    then have "push_index ttl q = ?i + ?r - 1 - ?n" using p r wf(4) by (simp add: le_mod_geq)
    then show ?thesis using False r wf(4) by (simp add: ring_offset_def)
  qed
  then show ?thesis using r(1) by simp
qed

lemma push_at_ready:
  assumes "tq_ready now q" "tq_current_ticks q = now" "ttl \<le> tq_duration q" "2 * tq_interval q \<le> ttl_or_max ttl q"
  shows "tq_ready now (push_at now v ttl 0 q)"
    "tq_values (push_at now v ttl 0 q) = tq_values q @ [(now + ttl_or_max ttl q, v)]"
proof -
  define i where "i = push_index ttl q"
  define e where "e = \<lparr>qv_bucket = i, qv_value_index = length (tq_buckets q ! i),
    qv_expiry_tick = now + ttl_or_max ttl q, qv_wait_for_tick = now\<rparr>"
  let ?q = "push_at now v ttl 0 q"
  have wf: "tq_wf q" "index_ok q" and now: "now + tq_duration q < limit64" using assms(1) by (simp_all add: tq_ready_def)
  have i: "i < length (tq_buckets q)" using push_index_less [OF wf(1), of ttl] wf(1) by (simp add: i_def tq_wf_def)
  have t: "ttl_or_max ttl q \<le> tq_duration q" using assms(3) by (simp add: ttl_or_max_def lifetime_def)
  have "add64 now (ttl_or_max ttl q) = now + ttl_or_max ttl q" "add64 now 0 = now"
    using now t by (simp_all add: add64_small)
  then have b: "tq_buckets ?q = (tq_buckets q)[i := tq_buckets q ! i @ [v]]" and p: "pending ?q = pending q @ [e]"
    and f: "tq_current_ticks ?q = now" "tq_interval ?q = tq_interval q" "tq_duration ?q = tq_duration q" "ring_offset ?q = ring_offset q"
    using wf assms(2) by (simp_all add: push_at_def Let_def i_def e_def pending_def index_ok_def ring_offset_def fun_eq_iff)
  have old: "held ?q x \<and> ref_value ?q x = ref_value q x" if "x \<in> set (pending q)" for x
    using assms(1,2) that i by (auto simp: tq_ready_def held_def ref_value_def b f nth_list_update nth_append)
  let ?I = "tq_interval q"
  have I: "0 < ?I" using wf(1) by (simp add: tq_wf_def)
  have "ring_offset q i + 1 = ttl_or_max ttl q div ?I"
    using push_index_offset [OF wf(1) assms(3)] assms(4) by (simp add: i_def)
  then have "ttl_or_max ttl q < (ring_offset q i + 2) * ?I"
    using div_mult_mod_eq [of "ttl_or_max ttl q" ?I] mod_less_divisor [OF I, of "ttl_or_max ttl q"]
    by (metis Suc_eq_plus1 add.commute add_2_eq_Suc' dividend_less_times_div mult.commute I mult_Suc)
  then have new: "held ?q e" "ref_value ?q e = v" using i by (simp_all add: held_def ref_value_def b f e_def)
  have "index_ok ?q" using wf(2) by (simp add: index_ok_def push_at_def Let_def)
  then show "tq_ready now ?q" using old new push_at_wf [OF wf(1), of now v ttl 0] assms(1,4) now
    by (auto simp: tq_ready_def p f) (simp add: e_def)
  show "tq_values ?q = tq_values q @ [(now + ttl_or_max ttl q, v)]" using old new by (simp add: tq_values_def p) (simp add: e_def)
qed

lemma push_at_fields [simp]:
  "tq_duration (push_at now v ttl delay q) = tq_duration q" "tq_interval (push_at now v ttl delay q) = tq_interval q"
  by (simp_all add: push_at_def Let_def)

lemma tq_Push_ready:
  assumes "tq_ready now q" "ttl \<le> tq_duration q" "2 * tq_interval q \<le> lifetime (tq_duration q) ttl"
  obtains q' where "tq_Push now v ttl 0 q = Inr q'" "tq_ready now q'"
    "tq_values q' = tq_values q @ [(now + lifetime (tq_duration q) ttl, v)]"
    "tq_duration q' = tq_duration q" "tq_interval q' = tq_interval q"
  using that push_at_ready [of now "snd (tq_Advance now q)" ttl v] tq_Advance_ready [OF assms(1)] assms(2,3)
  by (simp add: tq_Push_def tq_InternalPush_eq ttl_or_max_def)

lemma tq_PopFront_ready:
  assumes "tq_ready now q"
  obtains q' where
    "tq_PopFront now q elem = (q', case tq_values q of
        [] \<Rightarrow> elem\<lparr>has_value := False, expired_count := 0\<rparr>
      | x # _ \<Rightarrow> elem\<lparr>has_value := True, expired_count := 0, elem_value := snd x\<rparr>)"
    "tq_ready now q'" "tq_values q' = tl (tq_values q)" "tq_duration q' = tq_duration q" "tq_interval q' = tq_interval q"
proof -
  let ?q = "snd (tq_Advance now q)"
  have adv: "tq_ready now ?q" "tq_values ?q = tq_values q" using tq_Advance_ready [OF assms] by simp_all
  have live: "\<forall>e \<in> set (pending ?q). \<not> dead now ?q e \<and> qv_wait_for_tick e \<le> now"
    using adv(1) by (auto simp: tq_ready_def held_def dead_def intro: order.trans)
  then have "dropWhile (dead now ?q) (pending ?q) = pending ?q" "takeWhile (dead now ?q) (pending ?q) = []"
    by (cases "pending ?q"; simp)+
  then have f: "tq_Front now q elem = (?q, deliver now ?q (pending ?q) (elem\<lparr>has_value := False, expired_count := 0\<rparr>))"
    by (simp add: tq_Front_eq Let_def)
  show ?thesis
  proof (cases "pending ?q")
    case Nil
    then have "tq_values q = []" unfolding adv(2) [symmetric] by (simp add: tq_values_def)
    then show ?thesis using that [of ?q] f adv Nil by (simp add: tq_PopFront_def)
  next
    case (Cons e es)
    have "tq_queue ?q \<noteq> []" using Cons by (auto simp: pending_def)
    then have pop: "tq_Pop ?q = ?q\<lparr>tq_queue_index := tq_queue_index ?q + 1\<rparr>" by (simp add: tq_Pop_def)
    have p: "pending (tq_Pop ?q) = es" using pending_skip [of ?q 1] Cons pop by simp
    have "tq_queue_index ?q < length (tq_queue ?q)" using Cons by (rule_tac ccontr) (simp add: pending_def)
    then have "tq_ready now (tq_Pop ?q)" using adv(1) p Cons tq_Pop_wf [of ?q]
      by (auto simp: tq_ready_def held_def pop index_ok_def ring_offset_def)
    moreover have vals: "tq_values q = (qv_expiry_tick e, ref_value ?q e) # map (\<lambda>e. (qv_expiry_tick e, ref_value ?q e)) es"
      unfolding adv(2) [symmetric] using Cons by (simp add: tq_values_def)
    moreover have "tq_values (tq_Pop ?q) = tl (tq_values q)"
      unfolding vals using p by (simp add: tq_values_def) (simp add: pop ref_value_def)
    moreover have "tq_PopFront now q elem =
        (tq_Pop ?q, elem\<lparr>has_value := True, expired_count := 0, elem_value := ref_value ?q e\<rparr>)"
      using f live Cons by (simp add: tq_PopFront_def)
    moreover have "tq_duration (tq_Pop ?q) = tq_duration q" "tq_interval (tq_Pop ?q) = tq_interval q" by (simp_all add: pop)
    ultimately show ?thesis using that [of "tq_Pop ?q"] by simp
  qed
qed

text \<open>A push and a pop at a given time, in the shape of the interface.\<close>

definition push_now :: "nat \<Rightarrow> nat \<Rightarrow> 'v \<Rightarrow> 'v TimeQueue \<Rightarrow> 'v TimeQueue result" where
  "push_now now ttl v q = tq_Push now v ttl 0 q"

definition pop_now :: "'v TimeQueueElement \<Rightarrow> nat \<Rightarrow> 'v TimeQueue \<Rightarrow> 'v option \<times> 'v TimeQueue" where
  "pop_now elem now q =
     (let (q', e) = tq_PopFront now q elem in (if has_value e then Some (elem_value e) else None, q'))"

definition at_end :: "(nat \<times> 'a) list \<Rightarrow> nat \<times> 'a \<Rightarrow> (nat \<times> 'a) list" where
  "at_end l x = l @ [x]"

interpretation tq: timed_queue "\<lambda>now q. tq_ready now q \<and> tq_duration q = duration \<and> tq_interval q = interval"
  tq_values push_now "pop_now elem" at_end "\<lambda>v. v" duration "2 * interval"
proof (unfold_locales, goal_cases)
  case (1 now q now') then show ?case using tq_ready_wait [of now q now'] by simp
next
  case (2 now q ttl v)
  then obtain q' where "tq_Push now v ttl 0 q = Inr q'" "tq_ready now q'"
    "tq_values q' = tq_values q @ [(now + lifetime (tq_duration q) ttl, v)]"
    "tq_duration q' = tq_duration q" "tq_interval q' = tq_interval q"
    using tq_Push_ready [of now q ttl v] by blast
  then show ?case using 2 by (intro exI [of _ q']) (simp add: push_now_def at_end_def)
next
  case (3 now q)
  then obtain q' where "tq_PopFront now q elem = (q', case tq_values q of
        [] \<Rightarrow> elem\<lparr>has_value := False, expired_count := 0\<rparr>
      | x # _ \<Rightarrow> elem\<lparr>has_value := True, expired_count := 0, elem_value := snd x\<rparr>)"
    "tq_ready now q'" "tq_values q' = tl (tq_values q)" "tq_duration q' = tq_duration q" "tq_interval q' = tq_interval q"
    using tq_PopFront_ready [of now q elem] by blast
  then show ?case using 3 by (cases "tq_values q") (auto simp: pop_now_def)
qed

lemma TimeQueue_new_ready:
  assumes "TimeQueue_new duration interval ts = Inr q" "now + duration < limit64"
  shows "tq_ready now q \<and> tq_values q = [] \<and> tq_duration q = duration \<and> tq_queue q = []"
  using TimeQueue_new_wf [OF assms(1)] assms
  by (auto simp: TimeQueue_new_def Let_def tq_ready_def tq_values_def pending_def index_ok_def split: if_splits)

text \<open>C22. The time queue is first in, first out, whatever the order of pushes and pops, the times to live
  and the speed of the clock, as long as no operation is made when something that waits is within two
  intervals of its expiry: on such a schedule the pops deliver exactly what a plain list gives to which
  a push appends and from which a pop takes the head, and what is left is what the list has left, each
  value with its expiry.\<close>

theorem TimeQueue_fifo:
  assumes "TimeQueue_new duration interval True = Inr q" "timely at_end duration (2 * tq_interval q) 0 ops []"
  shows "\<exists>q'. timed_run push_now (pop_now elem) ops q = Inr (fst (list_run at_end duration ops []), q') \<and>
    map (\<lambda>e. (qv_expiry_tick e, ref_value q' e)) (pending q') = snd (list_run at_end duration ops [])"
proof (cases "duration < limit64")
  case True
  then have q: "tq_ready 0 q" "tq_values q = []" "tq_duration q = duration"
    using TimeQueue_new_ready [OF assms(1), of 0] by simp_all
  then show ?thesis using tq.run_refines [where now = 0 and q = q and duration = duration and interval = "tq_interval q" and elem = elem] assms(2)
    by (auto simp: tq_values_def map_idI option.map_ident)
next
  case False
  then have "ops = []" using assms(2) by (cases ops) simp_all
  moreover have "pending q = []" using assms(1) by (auto simp: TimeQueue_new_def Let_def pending_def split: if_splits)
  ultimately show ?thesis by simp
qed

subsection \<open>In the last two intervals of a life\<close>

text \<open>A value can be delivered twice, and another lost: the ring clears a bucket up to one
  interval before its elements expire, so the reference to \<open>a\<close>, still unexpired, finds the next value
  that is pushed into the same bucket. Here \<open>a\<close> is pushed for 2 milliseconds and \<open>b\<close>, a millisecond
  later, for 1 millisecond; both pops deliver \<open>b\<close>.\<close>

theorem TimeQueue_delivers_twice:
  "\<exists>q0 q1 q2 q3 q4 e1 e2. TimeQueue_new 2 1 True = Inr q0 \<and> tq_Push 100 a 2 0 q0 = Inr q1 \<and>
     tq_Push 101 b 1 0 q1 = Inr q2 \<and> tq_PopFront 101 q2 elem = (q3, e1) \<and> tq_PopFront 101 q3 e1 = (q4, e2) \<and>
     has_value e1 \<and> elem_value e1 = b \<and> has_value e2 \<and> elem_value e2 = b"
proof -
  let ?base = "\<lparr>tq_duration = 2, tq_interval = 1, tq_total_buckets = 2, tq_bucket_index = 0, tq_queue_index = 0,
    tq_current_ticks = 0, tq_buckets = [[], []], tq_inuse = [], tq_queue = []\<rparr>"
  let ?ra = "\<lparr>qv_bucket = 1, qv_value_index = 0, qv_expiry_tick = 102, qv_wait_for_tick = 100\<rparr>"
  let ?rb = "\<lparr>qv_bucket = 1, qv_value_index = 0, qv_expiry_tick = 102, qv_wait_for_tick = 101\<rparr>"
  let ?q1 = "?base\<lparr>tq_current_ticks := 100, tq_buckets := [[], [a]], tq_inuse := [1], tq_queue := [?ra]\<rparr>"
  let ?q2 = "?base\<lparr>tq_current_ticks := 101, tq_bucket_index := 1, tq_buckets := [[], [b]], tq_inuse := [1],
    tq_queue := [?ra, ?rb]\<rparr>"
  have new: "TimeQueue_new 2 1 True = Inr ?base"
    by (simp add: TimeQueue_new_def kMaxBuckets_def numeral_2_eq_2)
  have p1: "tq_Push 100 a 2 0 ?base = Inr ?q1"
    by (simp add: tq_Push_def tq_InternalPush_def tq_Advance_def Let_def wrap64_defs insert_inuse_def)
  have p2: "tq_Push 101 b 1 0 ?q1 = Inr ?q2"
    by (simp add: tq_Push_def tq_InternalPush_def tq_Advance_def tq_ClearRange_def Let_def wrap64_defs insert_inuse_def)
  have f1: "tq_PopFront 101 ?q2 elem = (?q2\<lparr>tq_queue_index := 1\<rparr>, elem\<lparr>has_value := True, expired_count := 0, elem_value := b\<rparr>)"
    by (simp add: tq_PopFront_def tq_Front_def tq_Advance_def tq_Pop_def front_loop.simps Let_def wrap64_defs)
  have f2: "tq_PopFront 101 (?q2\<lparr>tq_queue_index := 1\<rparr>) e =
      (?q2\<lparr>tq_queue_index := 2\<rparr>, e\<lparr>has_value := True, expired_count := 0, elem_value := b\<rparr>)" for e
    by (simp add: tq_PopFront_def tq_Front_def tq_Advance_def tq_Pop_def front_loop.simps Let_def wrap64_defs)
  from new p1 p2 f1 f2 show ?thesis by (intro exI conjI) (assumption | rule | simp)+
qed

text \<open>\<^verbatim>\<open>Pop\<close> does not stop at the end: popping once more after the last element makes
  \<^verbatim>\<open>Size\<close> report 2^64 - 1, while \<^verbatim>\<open>Empty\<close> still answers true.\<close>

theorem TimeQueue_Pop_underflow:
  assumes "tq_reachable True q" "tq_queue q \<noteq> []" "tq_Empty q" "length (tq_queue q) < 2 ^ 64 - 1"
  shows "tq_Size (tq_Pop q) = 2 ^ 64 - 1 \<and> tq_Empty (tq_Pop q)"
proof -
  have "tq_queue_index q = length (tq_queue q)"
    using tq_reachable_index [OF assms(1)] assms(2,3) by (auto simp: index_ok_def tq_Empty_def)
  moreover have "n + (18446744073709551616 - Suc n) = 18446744073709551615" if "n < 18446744073709551615" for n :: nat
    using that by simp
  ultimately show ?thesis using assms(2,4) by (simp add: tq_Size_def tq_Pop_def tq_Empty_def wrap64_defs)
qed

subsection \<open>The theorems on a concrete queue\<close>

definition tq0 :: "nat TimeQueue" where
  "tq0 = \<lparr>tq_duration = 2, tq_interval = 1, tq_total_buckets = 2, tq_bucket_index = 0, tq_queue_index = 0,
     tq_current_ticks = 0, tq_buckets = [[], []], tq_inuse = [], tq_queue = []\<rparr>"

definition tq1 :: "nat TimeQueue" where
  "tq1 = tq0\<lparr>tq_current_ticks := 100, tq_buckets := [[], [7]], tq_inuse := [1],
     tq_queue := [\<lparr>qv_bucket = 1, qv_value_index = 0, qv_expiry_tick = 102, qv_wait_for_tick = 100\<rparr>]\<rparr>"

definition elem0 :: "nat TimeQueueElement" where
  "elem0 = \<lparr>has_value = False, expired_count = 0, elem_value = 0\<rparr>"

lemma tq0_new: "TimeQueue_new 2 1 True = Inr tq0"
  by (simp add: TimeQueue_new_def kMaxBuckets_def tq0_def numeral_2_eq_2)

lemma tq1_reachable: "tq_reachable careful tq1"
proof (rule tq_reachable.push [OF tq_reachable.new [OF tq0_new]])
  show "tq_Push 100 7 2 0 tq0 = Inr tq1"
    by (simp add: tq_Push_def tq_InternalPush_def tq_Advance_def Let_def wrap64_defs insert_inuse_def tq0_def tq1_def)
qed



definition tq_large :: "nat TimeQueue" where
  "tq_large = \<lparr>tq_duration = 20, tq_interval = 5, tq_total_buckets = 4, tq_bucket_index = 0, tq_queue_index = 0,
     tq_current_ticks = 0, tq_buckets = [[], [], [], []], tq_inuse = [], tq_queue = []\<rparr>"

lemma tq_large_new: "TimeQueue_new 20 5 True = Inr tq_large"
  by (simp add: TimeQueue_new_def kMaxBuckets_def tq_large_def) (simp add: numeral_eq_Suc)

text \<open>Three pushes with different times to live and three pops, in turn, while the clock goes on.\<close>

theorem TimeQueue_fifo_witness:
  "\<exists>q'. timed_run push_now (pop_now elem0)
     [Push_op 100 20 7, Push_op 103 12 8, Pop_op 104, Push_op 105 0 9, Pop_op 105, Pop_op 114] tq_large =
       Inr ([Some 7, Some 8, Some 9], q') \<and> pending q' = []"
  using TimeQueue_fifo [OF tq_large_new,
      of "[Push_op 100 20 7, Push_op 103 12 8, Pop_op 104, Push_op 105 0 9, Pop_op 105, Pop_op 114]" elem0]
  by (simp add: tq_large_def at_end_def lifetime_def limit64_def)

theorem TimeQueue_Pop_underflow_witness: "tq_Size (tq_Pop (tq_Pop tq1)) = 2 ^ 64 - 1"
proof -
  have "tq_reachable True (tq_Pop tq1)" by (rule tq_reachable.pop [OF tq1_reachable]) (simp add: tq1_def tq0_def tq_Empty_def)
  from TimeQueue_Pop_underflow [OF this] show ?thesis by (simp add: tq1_def tq0_def tq_Pop_def tq_Empty_def)
qed

end
