(* ===== verification/Priority_Queue.thy ===== *)
theory Priority_Queue
  imports Time_Queue Std_Map "HOL-Library.Product_Lexorder" "HOL-Library.Multiset"
begin

section \<open>The priority queue\<close>

text \<open>
  \<^verbatim>\<open>PriorityQueue\<close> of \<^verbatim>\<open>detail/priority_queue.h\<close>: for each priority and group a time
  queue, held in nested ordered maps, and a list of free time queues that are reused. A time queue
  is owned either by one place in the maps or by one place in the free list, so it is a value here.
  The deferred removal of groups runs after the loop of an operation.
\<close>

type_synonym 'v group_queues = "(nat, 'v TimeQueue) std_map"

record 'v PriorityQueue =
  pq_duration_ms :: nat
  pq_interval_ms :: nat
  pq_queues :: "(nat, 'v group_queues) std_map"
  pq_free :: "'v TimeQueue list"

definition kMinFreeTimeQueues :: nat where "kMinFreeTimeQueues = 2"
definition kMaxFreeTimeQueues :: nat where "kMaxFreeTimeQueues = 10"

text \<open>An operation that may throw returns its result and the queue it leaves, which keeps what was done
  before the exception.\<close>

definition and_then :: "'a result \<times> 's \<Rightarrow> ('a \<Rightarrow> 's \<Rightarrow> 'b result \<times> 's) \<Rightarrow> 'b result \<times> 's" where
  "and_then m f = (case m of (Inl e, s) \<Rightarrow> (Inl e, s) | (Inr x, s) \<Rightarrow> f x s)"

lemma and_then_simps [simp]: "and_then (Inl e, s) f = (Inl e, s)" "and_then (Inr x, s) f = f x s"
  by (simp_all add: and_then_def)

text \<open>Fills the free list up to the minimum; a constructor of a time queue may throw.\<close>

fun add_free :: "nat \<Rightarrow> 'v PriorityQueue \<Rightarrow> unit result \<times> 'v PriorityQueue" where
  "add_free 0 pq = (Inr (), pq)"
| "add_free (Suc n) pq =
     and_then (TimeQueue_new (pq_duration_ms pq) (pq_interval_ms pq) True, pq) (\<lambda>tq pq.
       add_free n (pq\<lparr>pq_free := pq_free pq @ [tq]\<rparr>))"

definition InitFreeTimeQueues :: "'v PriorityQueue \<Rightarrow> unit result \<times> 'v PriorityQueue" where
  "InitFreeTimeQueues pq = add_free (kMinFreeTimeQueues - length (pq_free pq)) pq"

definition PriorityQueue_new :: "nat \<Rightarrow> nat \<Rightarrow> bool \<Rightarrow> 'v PriorityQueue result" where
  "PriorityQueue_new duration interval have_tick_service =
     (if \<not> have_tick_service then Inl (Invalid_Argument ''Tick service cannot be null'')
      else
        let (r, pq) = InitFreeTimeQueues \<lparr>pq_duration_ms = duration, pq_interval_ms = interval, pq_queues = [], pq_free = []\<rparr>
        in bind_result r (\<lambda>_. Inr pq))"

definition groups_of :: "nat \<Rightarrow> 'v PriorityQueue \<Rightarrow> 'v group_queues" where
  "groups_of priority pq = map_at [] (pq_queues pq) priority"

text \<open>The queue of a priority and group, taken from the free list or made when it does not exist yet.\<close>

definition GetQueueByPriorityGroupId :: "nat \<Rightarrow> nat \<Rightarrow> 'v PriorityQueue \<Rightarrow> 'v TimeQueue result \<times> 'v PriorityQueue" where
  "GetQueueByPriorityGroupId priority group_id pq =
     (let groups = groups_of priority pq;
          pq = pq\<lparr>pq_queues := map_put priority groups (pq_queues pq)\<rparr>
      in case map_find groups group_id of
           Some tq \<Rightarrow> (Inr tq, pq)
         | None \<Rightarrow>
             if pq_free pq = [] then
               and_then (TimeQueue_new (pq_duration_ms pq) (pq_interval_ms pq) True, pq) (\<lambda>tq pq.
               and_then (InitFreeTimeQueues
                   (pq\<lparr>pq_queues := map_put priority (map_put group_id tq groups) (pq_queues pq)\<rparr>)) (\<lambda>_ pq.
                 (Inr tq, pq)))
             else
               let tq = last (pq_free pq) in
               (Inr tq, pq\<lparr>pq_queues := map_put priority (map_put group_id tq groups) (pq_queues pq),
                           pq_free := butlast (pq_free pq)\<rparr>))"

definition put_queue :: "nat \<Rightarrow> nat \<Rightarrow> 'v TimeQueue \<Rightarrow> 'v PriorityQueue \<Rightarrow> 'v PriorityQueue" where
  "put_queue priority group_id tq pq =
     pq\<lparr>pq_queues := map_put priority (map_put group_id tq (groups_of priority pq)) (pq_queues pq)\<rparr>"

text \<open>When the time queue throws it is not changed, but the entry for the group stays.\<close>

definition pq_Push :: "nat \<Rightarrow> nat \<Rightarrow> 'v \<Rightarrow> nat \<Rightarrow> nat \<Rightarrow> nat \<Rightarrow> 'v PriorityQueue \<Rightarrow> unit result \<times> 'v PriorityQueue" where
  "pq_Push now group_id value ttl priority delay_ttl pq =
     and_then (GetQueueByPriorityGroupId priority group_id pq) (\<lambda>tq pq.
     and_then (tq_Push now value ttl delay_ttl tq, pq) (\<lambda>tq' pq.
       (Inr (), put_queue priority group_id tq' pq)))"

definition RemoveGroup :: "nat \<Rightarrow> nat \<Rightarrow> 'v PriorityQueue \<Rightarrow> 'v PriorityQueue" where
  "RemoveGroup priority group_id pq =
     (let groups = groups_of priority pq;
          pq = pq\<lparr>pq_queues := map_put priority groups (pq_queues pq)\<rparr>
      in case map_find groups group_id of
           None \<Rightarrow> pq
         | Some tq \<Rightarrow>
             pq\<lparr>pq_queues := map_put priority (map_erase group_id groups) (pq_queues pq),
                pq_free := (if length (pq_free pq) < kMaxFreeTimeQueues then pq_free pq @ [tq_Clear tq] else pq_free pq)\<rparr>)"

definition RemoveGroupTimeQueue :: "(nat, nat list) std_map \<Rightarrow> 'v PriorityQueue \<Rightarrow> 'v PriorityQueue" where
  "RemoveGroupTimeQueue groups pq =
     fold (\<lambda>(priority, group_ids) pq. fold (RemoveGroup priority) group_ids pq) groups pq"

text \<open>The loop that \<^verbatim>\<open>Front\<close> and \<^verbatim>\<open>PopFront\<close> share, over the groups of one priority and
  over the priorities: \<open>f\<close> is the operation on the time queue. It returns the element, the updated
  maps, the groups to remove and whether the loop returned from the operation.\<close>

fun scan_groups ::
  "('v TimeQueue \<Rightarrow> 'v TimeQueueElement \<Rightarrow> 'v TimeQueue \<times> 'v TimeQueueElement) \<Rightarrow> 'v group_queues \<Rightarrow>
     'v TimeQueueElement \<Rightarrow> 'v group_queues \<times> 'v TimeQueueElement \<times> nat list \<times> bool" where
  "scan_groups f [] elem = ([], elem, [], False)"
| "scan_groups f ((g, tq) # groups) elem =
     (let (tq', elem') = f tq elem;
          remove = tq_Empty tq' \<or> \<not> has_value elem' \<or> expired_count elem' \<noteq> 0
      in if has_value elem' then ((g, tq') # groups, elem', if remove then [g] else [], True)
         else
           let (groups', elem'', removed, stop) = scan_groups f groups elem'
           in ((g, tq') # groups', elem'', g # removed, stop))"

fun scan_queues ::
  "('v TimeQueue \<Rightarrow> 'v TimeQueueElement \<Rightarrow> 'v TimeQueue \<times> 'v TimeQueueElement) \<Rightarrow> (nat, 'v group_queues) std_map \<Rightarrow>
     'v TimeQueueElement \<Rightarrow> (nat, 'v group_queues) std_map \<times> 'v TimeQueueElement \<times> (nat, nat list) std_map" where
  "scan_queues f [] elem = ([], elem, [])"
| "scan_queues f ((p, groups) # queues) elem =
     (let (groups', elem', removed, stop) = scan_groups f groups elem;
          here = (if removed = [] then [] else [(p, removed)])
      in if stop then ((p, groups') # queues, elem', here)
         else
           let (queues', elem'', removed') = scan_queues f queues elem'
           in ((p, groups') # queues', elem'', here @ removed'))"

definition pq_scan ::
  "('v TimeQueue \<Rightarrow> 'v TimeQueueElement \<Rightarrow> 'v TimeQueue \<times> 'v TimeQueueElement) \<Rightarrow> 'v PriorityQueue \<Rightarrow>
     'v TimeQueueElement \<Rightarrow> 'v PriorityQueue \<times> 'v TimeQueueElement" where
  "pq_scan f pq elem =
     (let (queues, elem, removed) = scan_queues f (pq_queues pq) (elem\<lparr>expired_count := 0, has_value := False\<rparr>)
      in (RemoveGroupTimeQueue removed (pq\<lparr>pq_queues := queues\<rparr>), elem))"

definition pq_Front :: "nat \<Rightarrow> 'v PriorityQueue \<Rightarrow> 'v TimeQueueElement \<Rightarrow> 'v PriorityQueue \<times> 'v TimeQueueElement" where
  "pq_Front now = pq_scan (tq_Front now)"

definition pq_PopFront :: "nat \<Rightarrow> 'v PriorityQueue \<Rightarrow> 'v TimeQueueElement \<Rightarrow> 'v PriorityQueue \<times> 'v TimeQueueElement" where
  "pq_PopFront now = pq_scan (tq_PopFront now)"

text \<open>\<^verbatim>\<open>Pop\<close> forgets, at each priority, the groups it found empty at the one before.\<close>

fun pop_groups :: "'v group_queues \<Rightarrow> 'v group_queues \<times> nat list \<times> bool" where
  "pop_groups [] = ([], [], False)"
| "pop_groups ((g, tq) # groups) =
     (if tq_Empty tq then
        let (groups', removed, stop) = pop_groups groups in ((g, tq) # groups', g # removed, stop)
      else ((g, tq_Pop tq) # groups, if tq_Empty (tq_Pop tq) then [g] else [], True))"

fun pop_queues :: "(nat, 'v group_queues) std_map \<Rightarrow> (nat, 'v group_queues) std_map \<times> (nat, nat list) std_map" where
  "pop_queues [] = ([], [])"
| "pop_queues ((p, groups) # queues) =
     (let (groups', removed, stop) = pop_groups groups;
          here = (if removed = [] then [] else [(p, removed)])
      in if stop then ((p, groups') # queues, here)
         else if queues = [] then ((p, groups') # queues, here)
         else let (queues', removed') = pop_queues queues in ((p, groups') # queues', removed'))"

definition pq_Pop :: "'v PriorityQueue \<Rightarrow> 'v PriorityQueue" where
  "pq_Pop pq =
     (let (queues, removed) = pop_queues (pq_queues pq) in RemoveGroupTimeQueue removed (pq\<lparr>pq_queues := queues\<rparr>))"

definition pq_Clear :: "'v PriorityQueue \<Rightarrow> unit result \<times> 'v PriorityQueue" where
  "pq_Clear pq = InitFreeTimeQueues (pq\<lparr>pq_queues := []\<rparr>)"

text \<open>Both sums of \<^verbatim>\<open>Size\<close> start from the literal \<^verbatim>\<open>0\<close> and so are kept in an \<^verbatim>\<open>int\<close>: each partial sum
  is cut to 32 bits, and the total is converted to \<^verbatim>\<open>size_t\<close>. (The outer sum adds two values of type
  \<^verbatim>\<open>int\<close>, which is undefined when it overflows; it wraps around here.)\<close>

definition to_int32 :: "int \<Rightarrow> int" where
  "to_int32 x = (x + 2 ^ 31) mod 2 ^ 32 - 2 ^ 31"

definition group_sum :: "'v group_queues \<Rightarrow> int" where
  "group_sum groups = fold (\<lambda>(_, tq) sum. to_int32 (sum + int (tq_Size tq))) groups 0"

definition pq_Size :: "'v PriorityQueue \<Rightarrow> nat" where
  "pq_Size pq = nat (fold (\<lambda>(_, groups) sum. to_int32 (sum + group_sum groups)) (pq_queues pq) 0 mod 2 ^ 64)"

definition pq_Empty :: "'v PriorityQueue \<Rightarrow> bool" where
  "pq_Empty pq \<longleftrightarrow> (\<forall>(_, groups) \<in> set (pq_queues pq). groups = [])"

subsection \<open>What is in the queue\<close>

text \<open>The elements in the order of priority, group and arrival, each with its priority, its group and the
  millisecond at which it expires.\<close>

definition group_items :: "'v group_queues \<Rightarrow> (nat \<times> nat \<times> 'v) list" where
  "group_items gs = concat (map (\<lambda>(g, tq). map (Pair g) (tq_values tq)) gs)"

definition queue_items :: "(nat, 'v group_queues) std_map \<Rightarrow> ((nat \<times> nat) \<times> nat \<times> 'v) list" where
  "queue_items qs = concat (map (\<lambda>(p, gs). map (\<lambda>(g, v). ((p, g), v)) (group_items gs)) qs)"

definition values_at :: "nat \<Rightarrow> nat \<Rightarrow> (nat, 'v group_queues) std_map \<Rightarrow> (nat \<times> 'v) list" where
  "values_at p g qs = (case map_find (map_at [] qs p) g of None \<Rightarrow> [] | Some tq \<Rightarrow> tq_values tq)"

definition queues_wf :: "(nat, 'v group_queues) std_map \<Rightarrow> bool" where
  "queues_wf qs \<longleftrightarrow> map_wf qs \<and> (\<forall>(p, gs) \<in> set qs. map_wf gs)"

lemma items_simps [simp]:
  "group_items [] = []" "group_items ((g, tq) # gs) = map (Pair g) (tq_values tq) @ group_items gs"
  "queue_items [] = []" "queue_items ((p, gs) # qs) = map (\<lambda>(g, v). ((p, g), v)) (group_items gs) @ queue_items qs"
  by (simp_all add: group_items_def queue_items_def)

lemma filter_group_items:
  "distinct (map fst gs) \<Longrightarrow> filter (\<lambda>x. fst x = g) (group_items gs) =
     map (Pair g) (case map_find gs g of None \<Rightarrow> [] | Some tq \<Rightarrow> tq_values tq)"
proof (induction gs)
  case (Cons p gs)
  then show ?case
    by (cases p) (auto simp: filter_map comp_def filter_empty_conv map_of_eq_None_iff split: option.splits
        dest: map_of_SomeD intro: rev_image_eqI)
qed simp

lemma filter_queue_items:
  assumes "queues_wf qs"
  shows "filter (\<lambda>x. fst x = (p, g)) (queue_items qs) = map (Pair (p, g)) (values_at p g qs)"
  using assms
proof (induction qs)
  case (Cons q qs)
  obtain p' gs where q: "q = (p', gs)" by (cases q)
  have wf: "queues_wf qs" "map_wf gs" "map_find qs p' = None"
    using Cons.prems q by (auto simp: queues_wf_def map_wf_def map_of_eq_None_iff)
  have "filter (\<lambda>x. fst x = (p, g)) (map (\<lambda>(h, v). ((p', h), v)) (group_items gs)) =
      (if p = p' then map (\<lambda>(h, v). ((p', h), v)) (filter (\<lambda>x. fst x = g) (group_items gs)) else [])"
    by (induction "group_items gs" rule: rev_induct) (auto simp: filter_map comp_def case_prod_beta intro: filter_cong)
  then show ?case using Cons.IH [OF wf(1)] wf(3) filter_group_items [OF map_wf_distinct [OF wf(2)], of g] q
    by (auto simp: values_at_def map_at_def comp_def split: option.splits)
qed (simp add: values_at_def map_at_def)

lemma sorted_queue_items:
  assumes "queues_wf qs" shows "sorted (map fst (queue_items qs))"
  using assms
proof (induction qs)
  case (Cons q qs)
  obtain p gs where q: "q = (p, gs)" by (cases q)
  have gs: "sorted (map fst (group_items gs))" if "map_wf gs" for gs :: "'a group_queues"
    using that by (induction gs) (auto simp: map_wf_def sorted_append group_items_def comp_def map_replicate_const intro: less_imp_le)
  have "sorted (map fst (map (\<lambda>(g, v). ((p, g), v)) (group_items gs)))"
    using gs [of gs] Cons.prems q by (auto simp: queues_wf_def sorted_map sorted_wrt_map case_prod_beta less_eq_prod_def)
  moreover have "sorted (map fst (queue_items qs))" using Cons q by (simp add: queues_wf_def map_wf_def)
  moreover have "p < fst (fst x)" if "x \<in> set (queue_items qs)" for x
    using that Cons.prems q by (auto simp: queue_items_def queues_wf_def map_wf_def)
  then have "(p, g) \<le> fst x" if "x \<in> set (queue_items qs)" for x g
    using that by (cases "fst x") (fastforce simp: less_eq_prod_def)
  ultimately show ?case unfolding q by (auto simp: sorted_append)
qed simp

text \<open>A list sorted by key is determined by its elements at each key, so the order of the elements is
  what stable sorting makes of it.\<close>

lemma items_determined:
  assumes "\<And>k. filter (\<lambda>x. fst x = k) ys = filter (\<lambda>x. fst x = k) xs" "sorted (map fst ys)"
  shows "ys = sort_key fst xs"
proof (rule properties_for_sort_key [symmetric])
  show "mset ys = mset xs"
  proof (rule multiset_eqI)
    fix x :: "'a \<times> 'b"
    have "count (mset zs) x = count (mset (filter (\<lambda>y. fst y = fst x) zs)) x" for zs by simp
    then show "count (mset ys) x = count (mset xs) x" using assms(1) by metis
  qed
  show "filter (\<lambda>x. fst k = fst x) ys = filter (\<lambda>x. fst k = fst x) xs" for k
    using assms(1) [of "fst k"] by (simp add: eq_commute)
qed (rule assms(2))

subsection \<open>The invariant\<close>

text \<open>The interval of the time queues, which have a limited number of buckets.\<close>

definition bucket_ms :: "nat \<Rightarrow> nat \<Rightarrow> nat" where
  "bucket_ms duration interval = (if duration div interval > kMaxBuckets then duration div kMaxBuckets else interval)"

abbreviation pq_bucket_ms :: "'v PriorityQueue \<Rightarrow> nat" where
  "pq_bucket_ms pq \<equiv> bucket_ms (pq_duration_ms pq) (pq_interval_ms pq)"

definition tq_owned :: "nat \<Rightarrow> 'v PriorityQueue \<Rightarrow> 'v TimeQueue \<Rightarrow> bool" where
  "tq_owned now pq tq \<longleftrightarrow> tq_ready now tq \<and> tq_duration tq = pq_duration_ms pq \<and> tq_interval tq = pq_bucket_ms pq"

definition pq_inv :: "nat \<Rightarrow> 'v PriorityQueue \<Rightarrow> bool" where
  "pq_inv now pq \<longleftrightarrow>
     queues_wf (pq_queues pq) \<and> (\<forall>(p, gs) \<in> set (pq_queues pq). \<forall>(g, tq) \<in> set gs. tq_owned now pq tq) \<and>
     (\<forall>tq \<in> set (pq_free pq). tq_owned now pq tq \<and> tq_queue tq = []) \<and>
     now + pq_duration_ms pq < limit64 \<and>
     (\<exists>tq :: 'v TimeQueue. TimeQueue_new (pq_duration_ms pq) (pq_interval_ms pq) True = Inr tq)"

definition pq_items :: "'v PriorityQueue \<Rightarrow> ((nat \<times> nat) \<times> nat \<times> 'v) list" where
  "pq_items pq = queue_items (pq_queues pq)"

lemma new_owned:
  assumes "TimeQueue_new (pq_duration_ms pq) (pq_interval_ms pq) True = Inr tq" "now + pq_duration_ms pq < limit64"
  shows "tq_owned now pq tq \<and> tq_queue tq = []"
  using TimeQueue_new_ready [OF assms] assms(1)
  by (auto simp: tq_owned_def bucket_ms_def TimeQueue_new_def Let_def split: if_splits)

lemma add_free_inv: "pq_inv now pq \<Longrightarrow> \<exists>pq'. add_free n pq = (Inr (), pq') \<and> pq_inv now pq' \<and> pq_queues pq' = pq_queues pq \<and>
    pq_duration_ms pq' = pq_duration_ms pq \<and> pq_interval_ms pq' = pq_interval_ms pq"
proof (induction n arbitrary: pq)
  case (Suc n)
  obtain tq where tq: "TimeQueue_new (pq_duration_ms pq) (pq_interval_ms pq) True = Inr (tq :: 'a TimeQueue)"
    using Suc.prems by (auto simp: pq_inv_def)
  have "pq_inv now (pq\<lparr>pq_free := pq_free pq @ [tq]\<rparr>)"
    using Suc.prems new_owned [OF tq, of now] by (auto simp: pq_inv_def tq_owned_def)
  from Suc.IH [OF this] tq show ?case by auto
qed simp

text \<open>Replacing the queue at one place.\<close>

lemma values_at_put:
  assumes "map_wf qs" "map_wf (map_at [] qs p)"
  shows "values_at p' g' (map_put p (map_put g tq (map_at [] qs p)) qs) =
    (if p' = p \<and> g' = g then tq_values tq else values_at p' g' qs)"
  using assms by (auto simp: values_at_def map_at_def map_put_find split: option.splits)

lemma map_put_set: "set (map_put k v m) \<subseteq> insert (k, v) (set m)"
  by (induction k v m rule: map_put.induct) auto

lemma map_at_wf: "queues_wf qs \<Longrightarrow> map_wf (map_at [] qs p)"
  by (auto simp: map_at_def queues_wf_def split: option.splits dest!: map_of_SomeD)

lemma queues_wf_put: "queues_wf qs \<Longrightarrow> map_wf gs \<Longrightarrow> queues_wf (map_put p gs qs)"
  using map_put_set [of p gs qs] map_put_wf [of qs p gs] by (auto simp: queues_wf_def)

definition owned_queues :: "nat \<Rightarrow> 'v PriorityQueue \<Rightarrow> (nat, 'v group_queues) std_map \<Rightarrow> bool" where
  "owned_queues now pq qs \<longleftrightarrow> (\<forall>(p, gs) \<in> set qs. \<forall>(g, tq) \<in> set gs. tq_owned now pq tq)"

lemma owned_put:
  assumes "owned_queues now pq qs" "\<forall>(g, tq) \<in> set gs. tq_owned now pq tq"
  shows "owned_queues now pq (map_put p gs qs)"
  using assms map_put_set [of p gs qs] unfolding owned_queues_def by fastforce

lemma owned_at: "owned_queues now pq qs \<Longrightarrow> \<forall>(g, tq) \<in> set (map_at [] qs p). tq_owned now pq tq"
  by (cases "map_find qs p") (fastforce simp: owned_queues_def map_at_def dest: map_of_SomeD)+

lemma pq_inv_iff: "pq_inv now (pq :: 'v PriorityQueue) \<longleftrightarrow> queues_wf (pq_queues pq) \<and> owned_queues now pq (pq_queues pq) \<and>
     (\<forall>tq \<in> set (pq_free pq). tq_owned now pq tq \<and> tq_queue tq = []) \<and> now + pq_duration_ms pq < limit64 \<and>
     (\<exists>tq :: 'v TimeQueue. TimeQueue_new (pq_duration_ms pq) (pq_interval_ms pq) True = Inr tq)"
  by (simp add: pq_inv_def owned_queues_def)

lemma owned_update [simp]:
  "tq_owned now (pq\<lparr>pq_queues := x\<rparr>) = tq_owned now pq" "tq_owned now (pq\<lparr>pq_free := y\<rparr>) = tq_owned now pq"
  "owned_queues now (pq\<lparr>pq_queues := x\<rparr>) = owned_queues now pq" "owned_queues now (pq\<lparr>pq_free := y\<rparr>) = owned_queues now pq"
  by (auto simp: fun_eq_iff tq_owned_def owned_queues_def)

lemma put_queues_inv:
  assumes "pq_inv now pq" "tq_owned now pq tq"
  shows "pq_inv now (put_queue p g tq pq)"
proof -
  let ?gs = "map_at [] (pq_queues pq) p"
  have wf: "queues_wf (pq_queues pq)" and ow: "owned_queues now pq (pq_queues pq)" using assms by (simp_all add: pq_inv_iff)
  have "\<forall>(h, t) \<in> set (map_put g tq ?gs). tq_owned now pq t"
    using owned_at [OF ow, of p] map_put_set [of g tq ?gs] assms(2) by fastforce
  then show ?thesis using assms(1) queues_wf_put [OF wf map_put_wf [OF map_at_wf [OF wf]]] owned_put [OF ow]
    by (simp add: pq_inv_iff put_queue_def groups_of_def)
qed

lemma put_queue_values:
  assumes "queues_wf (pq_queues pq)"
  shows "values_at p' g' (pq_queues (put_queue p g tq pq)) =
    (if p' = p \<and> g' = g then tq_values tq else values_at p' g' (pq_queues pq))"
  using assms map_at_wf [OF assms, of p] by (simp add: put_queue_def groups_of_def values_at_put queues_wf_def)

text \<open>Reading \<^verbatim>\<open>queues_[priority]\<close> creates an entry for the priority, which changes nothing else.\<close>

definition touch :: "nat \<Rightarrow> 'v PriorityQueue \<Rightarrow> 'v PriorityQueue" where
  "touch p pq = pq\<lparr>pq_queues := map_put p (groups_of p pq) (pq_queues pq)\<rparr>"

lemma touch_inv:
  assumes "pq_inv now pq"
  shows "pq_inv now (touch p pq)" "groups_of p (touch p pq) = groups_of p pq"
    "values_at p' g' (pq_queues (touch p pq)) = values_at p' g' (pq_queues pq)"
proof -
  have wf: "queues_wf (pq_queues pq)" and ow: "owned_queues now pq (pq_queues pq)" using assms by (simp_all add: pq_inv_iff)
  show "pq_inv now (touch p pq)"
    using assms queues_wf_put [OF wf map_at_wf [OF wf], of p p] owned_put [OF ow owned_at [OF ow, of p], of p]
    by (simp add: pq_inv_iff touch_def groups_of_def)
  show "groups_of p (touch p pq) = groups_of p pq"
    using wf by (simp add: touch_def groups_of_def map_at_def [of "[]" "map_put p _ _"] map_put_find queues_wf_def)
  show "values_at p' g' (pq_queues (touch p pq)) = values_at p' g' (pq_queues pq)"
    using wf by (auto simp: touch_def groups_of_def values_at_def map_at_def map_put_find queues_wf_def split: option.splits)
qed

lemma touch_fields [simp]:
  "pq_free (touch p pq) = pq_free pq" "pq_duration_ms (touch p pq) = pq_duration_ms pq"
  "pq_interval_ms (touch p pq) = pq_interval_ms pq" "tq_owned now (touch p pq) = tq_owned now pq"
  by (simp_all add: touch_def)

lemma Get_eq:
  assumes "pq_inv now pq"
  shows "GetQueueByPriorityGroupId p g pq =
    (case map_find (groups_of p pq) g of
       Some tq \<Rightarrow> (Inr tq, touch p pq)
     | None \<Rightarrow>
         if pq_free pq = [] then
           and_then (TimeQueue_new (pq_duration_ms pq) (pq_interval_ms pq) True, touch p pq) (\<lambda>tq pq1.
           and_then (InitFreeTimeQueues (put_queue p g tq pq1)) (\<lambda>_ pq'. (Inr tq, pq')))
         else (Inr (last (pq_free pq)), (put_queue p g (last (pq_free pq)) (touch p pq))\<lparr>pq_free := butlast (pq_free pq)\<rparr>))"
  using touch_inv(2) [OF assms, of p]
  by (simp add: GetQueueByPriorityGroupId_def Let_def put_queue_def touch_def and_then_def split: option.splits sum.splits)

lemma owned_at_place:
  assumes "pq_inv now pq" "map_find (groups_of p pq) g = Some tq" shows "tq_owned now pq tq"
  using owned_at [of now pq "pq_queues pq" p] assms by (fastforce simp: pq_inv_iff groups_of_def dest: map_of_SomeD)

lemma GetQueue_inv:
  assumes "pq_inv now pq"
  shows "\<exists>tq pq'. GetQueueByPriorityGroupId p g pq = (Inr tq, pq') \<and> pq_inv now pq' \<and> tq_owned now pq tq \<and>
    tq_values tq = values_at p g (pq_queues pq) \<and> pq_duration_ms pq' = pq_duration_ms pq \<and> pq_interval_ms pq' = pq_interval_ms pq \<and>
    (\<forall>p' g'. values_at p' g' (pq_queues pq') = values_at p' g' (pq_queues pq))"
proof (cases "map_find (groups_of p pq) g")
  case (Some tq)
  have "values_at p' g' (pq_queues (touch p pq)) = values_at p' g' (pq_queues pq)" for p' g'
    by (rule touch_inv(3) [OF assms])
  moreover have "tq_values tq = values_at p g (pq_queues pq)" using Some by (simp add: values_at_def groups_of_def)
  ultimately show ?thesis using Some touch_inv(1) [OF assms, of p] owned_at_place [OF assms Some]
    by (simp add: Get_eq [OF assms])
next
  case None
  then have none: "values_at p g (pq_queues pq) = []" by (simp add: values_at_def groups_of_def)
  have t: "pq_inv now (touch p pq)" by (rule touch_inv(1) [OF assms])
  have wf: "queues_wf (pq_queues (touch p pq))" using t by (simp add: pq_inv_iff)
  have put: "pq_inv now (put_queue p g tq (touch p pq)) \<and> tq_values tq = [] \<and>
      (\<forall>p' g'. values_at p' g' (pq_queues (put_queue p g tq (touch p pq))) = values_at p' g' (pq_queues pq))"
    if "tq_owned now pq tq" "tq_queue tq = []" for tq
    using put_queues_inv [OF t, of tq p g] that none
    by (simp add: put_queue_values [OF wf] touch_inv(3) [OF assms] tq_values_def pending_def)
  show ?thesis
  proof (cases "pq_free pq = []")
    case True
    obtain tq where tq: "TimeQueue_new (pq_duration_ms pq) (pq_interval_ms pq) True = Inr (tq :: 'a TimeQueue)"
      using assms by (auto simp: pq_inv_def)
    have o: "tq_owned now pq tq" "tq_queue tq = []" using new_owned [OF tq, of now] assms by (auto simp: pq_inv_def)
    note p = put [OF o]
    obtain pq' where "InitFreeTimeQueues (put_queue p g tq (touch p pq)) = (Inr (), pq')" "pq_inv now pq'"
      "pq_queues pq' = pq_queues (put_queue p g tq (touch p pq))" "pq_duration_ms pq' = pq_duration_ms pq"
      "pq_interval_ms pq' = pq_interval_ms pq"
      using add_free_inv [of now "put_queue p g tq (touch p pq)"] p by (fastforce simp: InitFreeTimeQueues_def put_queue_def)
    then show ?thesis using p o none None True tq by (simp add: Get_eq [OF assms])
  next
    case False
    let ?tq = "last (pq_free pq)"
    have o: "tq_owned now pq ?tq" "tq_queue ?tq = []" using assms False last_in_set [OF False] by (auto simp: pq_inv_def)
    have "pq_inv now ((put_queue p g ?tq (touch p pq))\<lparr>pq_free := butlast (pq_free pq)\<rparr>)"
      using put [OF o] by (auto simp: pq_inv_iff put_queue_def dest: in_set_butlastD)
    then show ?thesis using put [OF o] o none None False by (simp add: Get_eq [OF assms]) (simp add: put_queue_def)
  qed
qed

lemma pq_Push_values:
  assumes "pq_inv now pq" "ttl \<le> pq_duration_ms pq" "2 * pq_bucket_ms pq \<le> lifetime (pq_duration_ms pq) ttl"
  shows "\<exists>pq'. pq_Push now g v ttl p 0 pq = (Inr (), pq') \<and> pq_inv now pq' \<and> pq_duration_ms pq' = pq_duration_ms pq \<and>
    pq_interval_ms pq' = pq_interval_ms pq \<and>
    (\<forall>p' g'. values_at p' g' (pq_queues pq') = values_at p' g' (pq_queues pq) @
       (if p' = p \<and> g' = g then [(now + lifetime (pq_duration_ms pq) ttl, v)] else []))"
proof -
  obtain tq pq1 where g: "GetQueueByPriorityGroupId p g pq = (Inr tq, pq1)" "pq_inv now pq1" "tq_owned now pq tq"
    "tq_values tq = values_at p g (pq_queues pq)" "pq_duration_ms pq1 = pq_duration_ms pq" "pq_interval_ms pq1 = pq_interval_ms pq"
    "\<forall>p' g'. values_at p' g' (pq_queues pq1) = values_at p' g' (pq_queues pq)"
    using GetQueue_inv [OF assms(1)] by blast
  have tq: "tq_ready now tq" "ttl \<le> tq_duration tq" "2 * tq_interval tq \<le> lifetime (tq_duration tq) ttl"
    using g(3) assms(2,3) by (simp_all add: tq_owned_def)
  obtain tq' where tq': "tq_Push now v ttl 0 tq = Inr tq'" "tq_ready now tq'"
    "tq_values tq' = tq_values tq @ [(now + lifetime (tq_duration tq) ttl, v)]"
    "tq_duration tq' = tq_duration tq" "tq_interval tq' = tq_interval tq" using tq_Push_ready [OF tq] by blast
  have o: "tq_owned now pq1 tq'" using tq'(2,4,5) g(3,5,6) by (simp add: tq_owned_def)
  have d: "tq_duration tq = pq_duration_ms pq" using g(3) by (simp add: tq_owned_def)
  have wf: "queues_wf (pq_queues pq1)" using g(2) by (simp add: pq_inv_iff)
  show ?thesis using g tq' d put_queues_inv [OF g(2) o, of p g] put_queue_values [OF wf]
    by (simp add: pq_Push_def) (simp add: put_queue_def)
qed

text \<open>Removing a group that has no element left.\<close>

lemma map_erase_set: "set (map_erase k m) \<subseteq> set m"
  by (auto simp: map_erase_def)

lemma tq_Clear_owned: "tq_owned now pq tq \<Longrightarrow> tq_owned now pq (tq_Clear tq) \<and> tq_queue (tq_Clear tq) = []"
  using tq_Clear_wf [of tq] tq_Clear_index [of tq]
  by (auto simp: tq_owned_def tq_ready_def pending_def tq_Clear_def)

lemma RemoveGroup_inv:
  assumes "pq_inv now pq" "values_at p g (pq_queues pq) = []"
  shows "pq_inv now (RemoveGroup p g pq) \<and> pq_duration_ms (RemoveGroup p g pq) = pq_duration_ms pq \<and> pq_interval_ms (RemoveGroup p g pq) = pq_interval_ms pq \<and>
    (\<forall>p' g'. values_at p' g' (pq_queues (RemoveGroup p g pq)) = values_at p' g' (pq_queues pq))"
proof (cases "map_find (groups_of p pq) g")
  case None
  then have "RemoveGroup p g pq = touch p pq" by (simp add: RemoveGroup_def Let_def touch_def)
  then show ?thesis using touch_inv(1,3) [OF assms(1)] by simp
next
  case (Some tq)
  let ?gs = "map_at [] (pq_queues pq) p"
  let ?qs = "map_put p (map_erase g ?gs) (pq_queues pq)"
  have wf: "queues_wf (pq_queues pq)" and ow: "owned_queues now pq (pq_queues pq)" using assms by (simp_all add: pq_inv_iff)
  have wf': "queues_wf ?qs" using queues_wf_put [OF wf map_erase_wf [OF map_at_wf [OF wf]]] .
  have ow': "owned_queues now pq ?qs"
    using owned_put [OF ow, of "map_erase g ?gs"] owned_at [OF ow, of p] map_erase_set [of g ?gs] by blast
  have "pq_queues (RemoveGroup p g pq) = ?qs" using Some wf
    by (auto simp: RemoveGroup_def Let_def groups_of_def map_put_put queues_wf_def)
  moreover have "values_at p' g' ?qs = values_at p' g' (pq_queues pq)" for p' g'
    using assms(2) wf by (auto simp: values_at_def map_at_def [of "[]" ?qs] map_put_find map_erase_find queues_wf_def map_at_def
        split: option.splits)
  moreover have "tq_owned now pq (tq_Clear tq) \<and> tq_queue (tq_Clear tq) = []"
    by (rule tq_Clear_owned [OF owned_at_place [OF assms(1) Some]])
  ultimately show ?thesis using assms(1) wf' ow' Some
    by (auto simp: RemoveGroup_def Let_def pq_inv_iff map_put_put)
qed

lemma RemoveGroups_inv:
  assumes "pq_inv now pq" "\<forall>g \<in> set gs. values_at p g (pq_queues pq) = []"
  shows "pq_inv now (fold (RemoveGroup p) gs pq) \<and> pq_duration_ms (fold (RemoveGroup p) gs pq) = pq_duration_ms pq \<and>
    pq_interval_ms (fold (RemoveGroup p) gs pq) = pq_interval_ms pq \<and>
    (\<forall>p' g'. values_at p' g' (pq_queues (fold (RemoveGroup p) gs pq)) = values_at p' g' (pq_queues pq))"
  using assms
proof (induction gs arbitrary: pq)
  case (Cons g gs)
  then have "pq_inv now (RemoveGroup p g pq)" "pq_duration_ms (RemoveGroup p g pq) = pq_duration_ms pq" "pq_interval_ms (RemoveGroup p g pq) = pq_interval_ms pq"
    "\<forall>p' g'. values_at p' g' (pq_queues (RemoveGroup p g pq)) = values_at p' g' (pq_queues pq)"
    using RemoveGroup_inv [of now pq p g] by simp_all
  then show ?case using Cons.IH [of "RemoveGroup p g pq"] Cons.prems(2) by simp
qed simp

lemma RemoveGroupTimeQueue_inv:
  assumes "pq_inv now pq" "\<forall>(p, gs) \<in> set rs. \<forall>g \<in> set gs. values_at p g (pq_queues pq) = []"
  shows "pq_inv now (RemoveGroupTimeQueue rs pq) \<and> pq_duration_ms (RemoveGroupTimeQueue rs pq) = pq_duration_ms pq \<and>
    pq_interval_ms (RemoveGroupTimeQueue rs pq) = pq_interval_ms pq \<and>
    (\<forall>p' g'. values_at p' g' (pq_queues (RemoveGroupTimeQueue rs pq)) = values_at p' g' (pq_queues pq))"
  using assms unfolding RemoveGroupTimeQueue_def
proof (induction rs arbitrary: pq)
  case (Cons r rs)
  obtain p gs where r: "r = (p, gs)" by (cases r)
  let ?pq = "fold (RemoveGroup p) gs pq"
  have "pq_inv now ?pq" "pq_duration_ms ?pq = pq_duration_ms pq" "pq_interval_ms ?pq = pq_interval_ms pq"
    "\<forall>p' g'. values_at p' g' (pq_queues ?pq) = values_at p' g' (pq_queues pq)"
    using RemoveGroups_inv [of now pq gs p] Cons.prems r by simp_all
  then show ?case using Cons.IH [of ?pq] Cons.prems(2) r by simp
qed simp

text \<open>The loops of \<^verbatim>\<open>PopFront\<close> take the first element there is, and what they mark for
  removal is empty.\<close>

definition fresh_elem :: "'v TimeQueueElement \<Rightarrow> 'v TimeQueueElement" where
  "fresh_elem elem = elem\<lparr>expired_count := 0, has_value := False\<rparr>"

definition item_value :: "'k \<times> nat \<times> 'v \<Rightarrow> 'v" where
  "item_value x = snd (snd x)"

lemma item_value_simps [simp]: "item_value (k, x) = snd x" "item_value (case y of (g, z) \<Rightarrow> ((p, g), z)) = item_value y"
  by (simp_all add: item_value_def case_prod_beta)

definition popped :: "'k list \<Rightarrow> ('k \<Rightarrow> 'v) \<Rightarrow> 'v TimeQueueElement \<Rightarrow> 'v TimeQueueElement" where
  "popped items val elem = (case items of
      [] \<Rightarrow> fresh_elem elem
    | x # _ \<Rightarrow> elem\<lparr>has_value := True, expired_count := 0, elem_value := val x\<rparr>)"

lemma popped_simps [simp]:
  "popped [] val elem = fresh_elem elem"
  "popped (x # xs) val elem = elem\<lparr>has_value := True, expired_count := 0, elem_value := val x\<rparr>"
  "\<not> has_value (fresh_elem elem)" "has_value (popped items val elem) \<longleftrightarrow> items \<noteq> []"
  by (simp_all add: popped_def fresh_elem_def split: list.split)

lemma tq_Empty_iff: "tq_Empty tq \<longleftrightarrow> tq_values tq = []"
  by (auto simp: tq_Empty_def tq_values_def pending_def)

lemma scan_groups_PopFront:
  assumes "\<forall>(g, tq) \<in> set gs. tq_owned now pq tq" "distinct (map fst gs)"
  shows "\<exists>gs' removed. scan_groups (tq_PopFront now) gs (fresh_elem elem) =
      (gs', popped (group_items gs) item_value elem, removed, group_items gs \<noteq> []) \<and>
    (\<forall>(g, tq) \<in> set gs'. tq_owned now pq tq) \<and> map fst gs' = map fst gs \<and> group_items gs' = tl (group_items gs) \<and>
    (\<forall>g \<in> set removed. \<exists>tq. map_find gs' g = Some tq \<and> tq_values tq = [])"
  using assms
proof (induction gs)
  case (Cons x gs)
  obtain g tq where x: "x = (g, tq)" by (cases x)
  have own: "tq_ready now tq" "tq_duration tq = pq_duration_ms pq" "tq_interval tq = pq_bucket_ms pq" using Cons.prems x by (auto simp: tq_owned_def)
  have "\<exists>tq'. tq_PopFront now tq (fresh_elem elem) = (tq', popped (tq_values tq) snd elem) \<and>
    tq_ready now tq' \<and> tq_values tq' = tl (tq_values tq) \<and> tq_duration tq' = tq_duration tq \<and>
    tq_interval tq' = tq_interval tq"
    by (rule tq_PopFront_ready [OF own(1), of "fresh_elem elem"]) (auto simp: popped_def fresh_elem_def split: list.split)
  then obtain tq' where tq': "tq_PopFront now tq (fresh_elem elem) = (tq', popped (tq_values tq) snd elem)"
    "tq_ready now tq'" "tq_values tq' = tl (tq_values tq)" "tq_duration tq' = tq_duration tq"
    "tq_interval tq' = tq_interval tq" by blast
  have own': "tq_owned now pq tq'" using tq' own by (simp add: tq_owned_def)
  show ?case
  proof (cases "tq_values tq")
    case Nil
    obtain gs' removed where IH: "scan_groups (tq_PopFront now) gs (fresh_elem elem) =
        (gs', popped (group_items gs) item_value elem, removed, group_items gs \<noteq> [])"
      "\<forall>(g, tq) \<in> set gs'. tq_owned now pq tq" "map fst gs' = map fst gs" "group_items gs' = tl (group_items gs)"
      "\<forall>g \<in> set removed. \<exists>tq. map_find gs' g = Some tq \<and> tq_values tq = []"
      using Cons by auto
    have "g \<notin> fst ` set gs'" using Cons.prems(2) IH(3) x by (metis distinct.simps(2) fst_conv list.simps(9) set_map)
    then have "g \<notin> set removed" using IH(5) by (metis domI dom_map_of_conv_image_fst)
    then have rem: "\<forall>h \<in> set (g # removed). \<exists>t. map_find ((g, tq') # gs') h = Some t \<and> tq_values t = []"
      using IH(5) tq'(3) Nil by auto
    have "scan_groups (tq_PopFront now) (x # gs) (fresh_elem elem) =
        ((g, tq') # gs', popped (group_items (x # gs)) item_value elem, g # removed, group_items (x # gs) \<noteq> [])"
      using IH(1) tq'(1) Nil x by simp
    then show ?thesis using IH(2-4) tq'(3) Nil x own' rem by (intro exI [of _ "(g, tq') # gs'"] exI [of _ "g # removed"]) simp
  next
    case (Cons v vs)
    then have "scan_groups (tq_PopFront now) (x # gs) (fresh_elem elem) =
        ((g, tq') # gs, popped (group_items (x # gs)) item_value elem, if vs = [] then [g] else [], True)"
      using tq' x by (simp add: Let_def tq_Empty_iff)
    then show ?thesis using Cons tq'(3) x own' Cons.prems by (auto simp: comp_def)
  qed
qed simp

lemma values_at_Cons: "values_at p g ((p', gs) # qs) =
    (if p = p' then (case map_find gs g of None \<Rightarrow> [] | Some tq \<Rightarrow> tq_values tq) else values_at p g qs)"
  by (simp add: values_at_def map_at_def)

lemma popped_map: "popped (map f xs) val elem = popped xs (val \<circ> f) elem"
  by (simp add: popped_def split: list.split)

lemma queues_wf_Cons: "queues_wf ((p, gs) # qs) \<longleftrightarrow> map_wf gs \<and> queues_wf qs \<and> (\<forall>p' \<in> fst ` set qs. p < p')"
  by (auto simp: queues_wf_def map_wf_def)

lemma scan_queues_PopFront:
  assumes "owned_queues now pq qs" "queues_wf qs"
  shows "\<exists>qs' removed. scan_queues (tq_PopFront now) qs (fresh_elem elem) =
      (qs', popped (queue_items qs) item_value elem, removed) \<and>
    owned_queues now pq qs' \<and> queues_wf qs' \<and> map fst qs' = map fst qs \<and> queue_items qs' = tl (queue_items qs) \<and>
    fst ` set removed \<subseteq> fst ` set qs \<and> (\<forall>(p, gs) \<in> set removed. \<forall>g \<in> set gs. values_at p g qs' = [])"
  using assms
proof (induction qs)
  case (Cons x qs)
  obtain p gs where x: "x = (p, gs)" by (cases x)
  have wf: "map_wf gs" "queues_wf qs" "\<forall>p' \<in> fst ` set qs. p < p'" using Cons.prems(2) x by (simp_all add: queues_wf_Cons)
  have own: "\<forall>(g, tq) \<in> set gs. tq_owned now pq tq" "owned_queues now pq qs"
    using Cons.prems(1) x by (simp_all add: owned_queues_def)
  obtain gs' r where g: "scan_groups (tq_PopFront now) gs (fresh_elem elem) =
      (gs', popped (group_items gs) item_value elem, r, group_items gs \<noteq> [])"
    "\<forall>(g, tq) \<in> set gs'. tq_owned now pq tq" "map fst gs' = map fst gs" "group_items gs' = tl (group_items gs)"
    "\<forall>g \<in> set r. \<exists>tq. map_find gs' g = Some tq \<and> tq_values tq = []"
    using scan_groups_PopFront [OF own(1) map_wf_distinct [OF wf(1)]] by blast
  have wf': "map_wf gs'" using wf(1) g(3) by (simp add: map_wf_def)
  define here where "here = (if r = [] then [] else [(p, r)])"
  have here: "fst ` set here \<subseteq> {p}" "\<forall>(q, gs) \<in> set here. \<forall>g \<in> set gs. values_at q g ((p, gs') # qs') = []" for qs'
    using g(5) by (auto simp: here_def values_at_Cons)
  show ?case
  proof (cases "group_items gs = []")
    case False
    then have "scan_queues (tq_PopFront now) (x # qs) (fresh_elem elem) =
        ((p, gs') # qs, popped (queue_items (x # qs)) item_value elem, here)"
      using g(1) x by (cases "group_items gs") (simp_all add: here_def case_prod_beta item_value_def)
    moreover have "queue_items ((p, gs') # qs) = tl (queue_items (x # qs))" using x g(4) False by (simp add: map_tl)
    ultimately show ?thesis using here x wf wf' own g(2)
      by (intro exI [of _ "(p, gs') # qs"] exI [of _ here]) (auto simp: owned_queues_def queues_wf_Cons)
  next
    case True
    obtain qs' removed where IH: "scan_queues (tq_PopFront now) qs (fresh_elem elem) =
        (qs', popped (queue_items qs) item_value elem, removed)"
      "owned_queues now pq qs'" "queues_wf qs'" "map fst qs' = map fst qs" "queue_items qs' = tl (queue_items qs)"
      "fst ` set removed \<subseteq> fst ` set qs" "\<forall>(p, gs) \<in> set removed. \<forall>g \<in> set gs. values_at p g qs' = []"
      using Cons.IH [OF own(2) wf(2)] by blast
    have "scan_queues (tq_PopFront now) (x # qs) (fresh_elem elem) =
        ((p, gs') # qs', popped (queue_items (x # qs)) item_value elem, here @ removed)"
      using g(1) IH(1) x True by (simp add: here_def)
    moreover have "queue_items ((p, gs') # qs') = tl (queue_items (x # qs))" using x g(4) True IH(5) by simp
    moreover have "\<forall>p' \<in> fst ` set qs'. p < p'" using wf(3) IH(4) by (metis set_map)
    moreover have "values_at q g ((p, gs') # qs') = values_at q g qs'" if "(q, hs) \<in> set removed" for q hs g
      using that IH(6) wf(3) by (fastforce simp: values_at_Cons)
    then have "\<forall>(q, hs) \<in> set (here @ removed). \<forall>g \<in> set hs. values_at q g ((p, gs') # qs') = []"
      using here(2) [of qs'] IH(7) by auto
    moreover have "fst ` set (here @ removed) \<subseteq> fst ` set (x # qs)" using here(1) IH(6) x by auto
    moreover have "owned_queues now pq ((p, gs') # qs')" using g(2) IH(2) by (simp add: owned_queues_def)
    ultimately show ?thesis using x wf' IH(3,4)
      by (intro exI [of _ "(p, gs') # qs'"] exI [of _ "here @ removed"]) (simp add: queues_wf_Cons)
  qed
qed (simp add: owned_queues_def)

lemma pq_items_eqI:
  assumes "queues_wf (pq_queues pq)" "queues_wf qs" "\<And>p g. values_at p g (pq_queues pq) = values_at p g qs"
  shows "pq_items pq = queue_items qs"
proof -
  have "pq_items pq = sort_key fst (queue_items qs)" unfolding pq_items_def
    by (rule items_determined [OF _ sorted_queue_items [OF assms(1)]])
      (simp add: filter_queue_items [OF assms(1), of "fst k" "snd k" for k, simplified]
        filter_queue_items [OF assms(2), of "fst k" "snd k" for k, simplified] assms(3))
  also have "\<dots> = queue_items qs" by (rule sort_key_id_if_sorted [OF sorted_queue_items [OF assms(2)]])
  finally show ?thesis .
qed

lemma pq_PopFront_inv:
  assumes "pq_inv now pq"
  shows "\<exists>pq'. pq_PopFront now pq elem = (pq', popped (pq_items pq) item_value elem) \<and> pq_inv now pq' \<and>
    pq_items pq' = tl (pq_items pq) \<and> pq_duration_ms pq' = pq_duration_ms pq \<and> pq_interval_ms pq' = pq_interval_ms pq"
proof -
  have wf: "queues_wf (pq_queues pq)" "owned_queues now pq (pq_queues pq)" using assms by (simp_all add: pq_inv_iff)
  obtain qs removed where s: "scan_queues (tq_PopFront now) (pq_queues pq) (fresh_elem elem) =
      (qs, popped (pq_items pq) item_value elem, removed)"
    "owned_queues now pq qs" "queues_wf qs" "queue_items qs = tl (pq_items pq)"
    "\<forall>(p, gs) \<in> set removed. \<forall>g \<in> set gs. values_at p g qs = []"
    using scan_queues_PopFront [OF wf(2,1), of elem] unfolding pq_items_def by blast
  let ?pq = "RemoveGroupTimeQueue removed (pq\<lparr>pq_queues := qs\<rparr>)"
  have "pq_inv now (pq\<lparr>pq_queues := qs\<rparr>)" using assms s(2,3) by (simp add: pq_inv_iff)
  then have inv: "pq_inv now ?pq" "\<forall>p g. values_at p g (pq_queues ?pq) = values_at p g qs"
      "pq_duration_ms ?pq = pq_duration_ms pq" "pq_interval_ms ?pq = pq_interval_ms pq"
    using RemoveGroupTimeQueue_inv [of now "pq\<lparr>pq_queues := qs\<rparr>" removed] s(5) by simp_all
  have "pq_items ?pq = queue_items qs" using inv s(3) by (intro pq_items_eqI) (simp_all add: pq_inv_iff)
  moreover have "pq_PopFront now pq elem = (?pq, popped (pq_items pq) item_value elem)"
    using s(1) by (simp add: pq_PopFront_def pq_scan_def fresh_elem_def)
  ultimately show ?thesis using s(4) inv(1,3,4) by simp
qed

lemma pq_inv_wait:
  assumes "pq_inv now pq" "now \<le> now'" "now' + pq_duration_ms pq < limit64"
    "\<forall>x \<in> set (pq_items pq). now' + 2 * pq_bucket_ms pq \<le> fst (snd x)"
  shows "pq_inv now' pq"
proof -
  have own: "tq_owned now' pq tq" if "tq_owned now pq tq" "\<forall>x \<in> set (tq_values tq). now' + 2 * pq_bucket_ms pq \<le> fst x" for tq
    using that tq_ready_wait [of now tq now'] assms(2,3) by (simp add: tq_owned_def)
  have "tq_owned now' pq tq" if "(p, gs) \<in> set (pq_queues pq)" "(g, tq) \<in> set gs" for p gs g tq
  proof (rule own)
    show "tq_owned now pq tq" using assms(1) that by (fastforce simp: pq_inv_def)
    show "\<forall>x \<in> set (tq_values tq). now' + 2 * pq_bucket_ms pq \<le> fst x"
    proof
      fix x assume "x \<in> set (tq_values tq)"
      then have "(g, x) \<in> set (group_items gs)" using that(2) unfolding group_items_def by fastforce
      then have "((p, g), x) \<in> set (pq_items pq)" using that(1) unfolding pq_items_def queue_items_def by force
      then show "now' + 2 * pq_bucket_ms pq \<le> fst x" using assms(4) by fastforce
    qed
  qed
  moreover have "tq_owned now' pq tq" if "tq \<in> set (pq_free pq)" for tq
    using assms(1) that by (intro own) (auto simp: pq_inv_def tq_values_def pending_def)
  ultimately show ?thesis using assms(1,3) by (auto simp: pq_inv_def)
qed

subsection \<open>The order of delivery\<close>

lemma pq_Push_inv:
  assumes "pq_inv now pq" "ttl \<le> pq_duration_ms pq" "2 * pq_bucket_ms pq \<le> lifetime (pq_duration_ms pq) ttl"
  shows "\<exists>pq'. pq_Push now g v ttl p 0 pq = (Inr (), pq') \<and> pq_inv now pq' \<and> pq_duration_ms pq' = pq_duration_ms pq \<and>
    pq_interval_ms pq' = pq_interval_ms pq \<and>
    pq_items pq' = sort_key fst (pq_items pq @ [((p, g), now + lifetime (pq_duration_ms pq) ttl, v)])"
proof -
  let ?x = "(now + lifetime (pq_duration_ms pq) ttl, v)"
  obtain pq' where p: "pq_Push now g v ttl p 0 pq = (Inr (), pq')" "pq_inv now pq'" "pq_duration_ms pq' = pq_duration_ms pq"
    "pq_interval_ms pq' = pq_interval_ms pq"
    "\<forall>p' g'. values_at p' g' (pq_queues pq') = values_at p' g' (pq_queues pq) @ (if p' = p \<and> g' = g then [?x] else [])"
    using pq_Push_values [OF assms, of g v p] by blast
  have wf: "queues_wf (pq_queues pq)" "queues_wf (pq_queues pq')" using assms(1) p(2) by (simp_all add: pq_inv_iff)
  have "pq_items pq' = sort_key fst (pq_items pq @ [((p, g), ?x)])"
  proof (rule items_determined)
    show "filter (\<lambda>x. fst x = k) (pq_items pq') = filter (\<lambda>x. fst x = k) (pq_items pq @ [((p, g), ?x)])" for k
      using p(5) filter_queue_items [OF wf(1), of "fst k" "snd k"] filter_queue_items [OF wf(2), of "fst k" "snd k"]
      by (auto simp: pq_items_def)
    show "sorted (map fst (pq_items pq'))" by (simp add: pq_items_def sorted_queue_items [OF wf(2)])
  qed
  then show ?thesis using p(1-4) by blast
qed

text \<open>The contents in the shape of the interface, and the place of a new element: behind those of its priority and
  group, which is what stable sorting makes of appending it.\<close>

definition pq_contents :: "'v PriorityQueue \<Rightarrow> (nat \<times> (nat \<times> nat) \<times> 'v) list" where
  "pq_contents pq = map (\<lambda>(k, x, v). (x, k, v)) (pq_items pq)"

definition by_key :: "(nat \<times> 'k::linorder \<times> 'v) list \<Rightarrow> nat \<times> 'k \<times> 'v \<Rightarrow> (nat \<times> 'k \<times> 'v) list" where
  "by_key l x = sort_key (\<lambda>(_, k, _). k) (l @ [x])"

definition pq_push_now :: "nat \<Rightarrow> nat \<Rightarrow> (nat \<times> nat) \<times> 'v \<Rightarrow> 'v PriorityQueue \<Rightarrow> 'v PriorityQueue result" where
  "pq_push_now now ttl x pq =
     (let (r, pq') = pq_Push now (snd (fst x)) (snd x) ttl (fst (fst x)) 0 pq in bind_result r (\<lambda>_. Inr pq'))"

definition pq_pop_now :: "'v TimeQueueElement \<Rightarrow> nat \<Rightarrow> 'v PriorityQueue \<Rightarrow> 'v option \<times> 'v PriorityQueue" where
  "pq_pop_now elem now pq =
     (let (pq', e) = pq_PopFront now pq elem in (if has_value e then Some (elem_value e) else None, pq'))"

lemma sort_key_map: "sort_key f (map g xs) = map g (sort_key (f \<circ> g) xs)"
proof -
  have "insort_key f (g x) (map g ys) = map g (insort_key (f \<circ> g) x ys)" for x ys
    by (induction ys) auto
  then show ?thesis by (induction xs) simp_all
qed

lemma by_key_contents:
  assumes "pq_items pq' = sort_key fst (pq_items pq @ [(k, x, v)])"
  shows "pq_contents pq' = by_key (pq_contents pq) (x, k, v)"
proof -
  let ?f = "\<lambda>(k, x, v). (x, k, v)"
  have "by_key (pq_contents pq) (x, k, v) = sort_key (\<lambda>(_, k, _). k) (map ?f (pq_items pq @ [(k, x, v)]))"
    by (simp add: by_key_def pq_contents_def)
  also have "\<dots> = map ?f (sort_key fst (pq_items pq @ [(k, x, v)]))"
  proof -
    have "(\<lambda>(_, k, _). k) \<circ> ?f = (fst :: (nat \<times> nat) \<times> nat \<times> 'a \<Rightarrow> nat \<times> nat)" by auto
    then show ?thesis by (simp only: sort_key_map)
  qed
  finally show ?thesis by (simp add: pq_contents_def assms)
qed

interpretation pq: timed_queue
  "\<lambda>now pq. pq_inv now pq \<and> pq_duration_ms pq = duration \<and> pq_interval_ms pq = interval"
  pq_contents pq_push_now "pq_pop_now elem" by_key snd duration "2 * bucket_ms duration interval"
proof (unfold_locales, goal_cases)
  case (1 now q now')
  then show ?case using pq_inv_wait [of now q now'] by (auto simp: pq_contents_def case_prod_beta)
next
  case (2 now q ttl v)
  obtain p g u where v: "v = ((p, g), u)" by (metis prod.exhaust)
  then obtain q' where "pq_Push now g u ttl p 0 q = (Inr (), q')" "pq_inv now q'" "pq_duration_ms q' = pq_duration_ms q"
    "pq_interval_ms q' = pq_interval_ms q"
    "pq_items q' = sort_key fst (pq_items q @ [((p, g), now + lifetime (pq_duration_ms q) ttl, u)])"
    using 2 pq_Push_inv [of now q ttl g u p] by auto
  then show ?case using 2 v by_key_contents [of q' q] by (intro exI [of _ q']) (simp add: pq_push_now_def)
next
  case (3 now q)
  then obtain q' where "pq_PopFront now q elem = (q', popped (pq_items q) item_value elem)" "pq_inv now q'"
    "pq_items q' = tl (pq_items q)" "pq_duration_ms q' = pq_duration_ms q" "pq_interval_ms q' = pq_interval_ms q"
    using pq_PopFront_inv [of now q elem] by blast
  then show ?case using 3 by (cases "pq_items q") (auto simp: pq_pop_now_def pq_contents_def)
qed

lemma PriorityQueue_new_inv:
  assumes "PriorityQueue_new duration interval ts = Inr pq" "now + duration < limit64"
  shows "pq_inv now pq \<and> pq_duration_ms pq = duration \<and> pq_interval_ms pq = interval \<and> pq_queues pq = []"
proof -
  let ?pq = "\<lparr>pq_duration_ms = duration, pq_interval_ms = interval, pq_queues = [], pq_free = []\<rparr> :: 'a PriorityQueue"
  obtain tq where "TimeQueue_new duration interval True = Inr (tq :: 'a TimeQueue)"
    using assms(1) by (auto simp: PriorityQueue_new_def InitFreeTimeQueues_def kMinFreeTimeQueues_def numeral_2_eq_2
        bind_result_def and_then_def split: if_splits sum.splits)
  then have "pq_inv now ?pq" using assms(2) by (simp add: pq_inv_def queues_wf_def)
  then show ?thesis using add_free_inv [of now ?pq "kMinFreeTimeQueues"] assms(1)
    by (auto simp: PriorityQueue_new_def InitFreeTimeQueues_def split: if_splits)
qed

lemma add_free_queues [simp]: "pq_queues (snd (add_free n q)) = pq_queues q"
  by (induction n arbitrary: q) (simp_all add: and_then_def split: sum.split)

lemma PriorityQueue_new_empty: "PriorityQueue_new duration interval ts = Inr pq \<Longrightarrow> pq_queues pq = []"
proof -
  assume new: "PriorityQueue_new duration interval ts = Inr pq"
  let ?q = "\<lparr>pq_duration_ms = duration, pq_interval_ms = interval, pq_queues = [], pq_free = []\<rparr> :: 'a PriorityQueue"
  have "pq = snd (InitFreeTimeQueues ?q)" using new
    by (cases "InitFreeTimeQueues ?q") (auto simp: PriorityQueue_new_def bind_result_Inr_iff split: if_splits)
  then show ?thesis by (simp add: InitFreeTimeQueues_def)
qed


text \<open>A push that is refused because its time to live is too long leaves an entry for its group, so the queue no longer
  says that it is empty, although it holds nothing.\<close>

theorem PriorityQueue_refused_push:
  assumes "pq_inv now pq" "pq_queues pq = []" "ttl > pq_duration_ms pq"
  shows "\<exists>pq'. pq_Push now g v ttl p delay pq = (Inl (Invalid_Argument ''TTL is greater than max duration''), pq') \<and>
    pq_items pq' = [] \<and> \<not> pq_Empty pq'"
proof -
  obtain tq pq' where g: "GetQueueByPriorityGroupId p g pq = (Inr tq, pq')" "pq_inv now pq'" "tq_owned now pq tq"
    "\<forall>p' g'. values_at p' g' (pq_queues pq') = values_at p' g' (pq_queues pq)"
    using GetQueue_inv [OF assms(1)] by blast
  have none: "groups_of p pq = []" using assms(2) by (simp add: groups_of_def map_at_def)
  have "\<exists>tq. pq_queues pq' = [(p, [(g, tq)])]"
  proof (cases "pq_free pq = []")
    case True
    then obtain tq1 where "TimeQueue_new (pq_duration_ms pq) (pq_interval_ms pq) True = Inr tq1"
      "pq' = snd (InitFreeTimeQueues (pq\<lparr>pq_queues := [(p, [(g, tq1)])]\<rparr>))"
      using g(1) none assms(2)
      by (auto simp: GetQueueByPriorityGroupId_def Let_def and_then_def split: sum.splits prod.splits)
    then show ?thesis by (simp add: InitFreeTimeQueues_def)
  next
    case False
    then have "pq_queues pq' = [(p, [(g, last (pq_free pq))])]"
      using g(1) none assms(2) by (auto simp: GetQueueByPriorityGroupId_def Let_def)
    then show ?thesis by blast
  qed
  moreover have "pq_items pq' = queue_items (pq_queues pq)"
    using g(2,4) assms(1) by (intro pq_items_eqI) (simp_all add: pq_inv_iff)
  moreover have "tq_duration tq = pq_duration_ms pq" using g(3) by (simp add: tq_owned_def)
  ultimately show ?thesis using g(1) assms(2,3) by (auto simp: pq_Push_def tq_Push_def tq_InternalPush_def pq_Empty_def)
qed

text \<open>A group whose first element is not due yet is not kept for later: when \<^verbatim>\<open>PopFront\<close> finds no
  value in the only group of the queue it clears the group with all its elements, whatever their number.\<close>

theorem PriorityQueue_drops_group:
  assumes "pq_queues pq = [(p, [(g, tq)])]" "\<not> has_value (snd (tq_PopFront now tq (fresh_elem elem)))"
  shows "pq_Empty (fst (pq_PopFront now pq elem)) \<and> pq_Size (fst (pq_PopFront now pq elem)) = 0 \<and>
    \<not> has_value (snd (pq_PopFront now pq elem))"
proof -
  obtain tq' e where e: "tq_PopFront now tq (fresh_elem elem) = (tq', e)" by fastforce
  then have "scan_queues (tq_PopFront now) (pq_queues pq) (fresh_elem elem) = ([(p, [(g, tq')])], e, [(p, [g])])"
    using assms by simp
  then show ?thesis using e assms(2)
    by (simp add: pq_PopFront_def pq_scan_def fresh_elem_def RemoveGroupTimeQueue_def RemoveGroup_def Let_def groups_of_def
        map_at_def map_erase_def pq_Empty_def pq_Size_def group_sum_def to_int32_def)
qed

subsection \<open>The theorems on a concrete queue\<close>

definition pq0 :: "nat PriorityQueue" where
  "pq0 = \<lparr>pq_duration_ms = 2, pq_interval_ms = 1, pq_queues = [], pq_free = [tq0, tq0]\<rparr>"

lemma pq0_new: "PriorityQueue_new 2 1 True = Inr pq0"
proof -
  let ?pq = "\<lparr>pq_duration_ms = 2, pq_interval_ms = 1, pq_queues = [], pq_free = []\<rparr> :: nat PriorityQueue"
  have "add_free (Suc (Suc 0)) ?pq = (Inr (), pq0)" using tq0_new by (simp add: pq0_def)
  moreover have "kMinFreeTimeQueues - length (pq_free ?pq) = Suc (Suc 0)" by (simp add: kMinFreeTimeQueues_def)
  ultimately show ?thesis unfolding PriorityQueue_new_def InitFreeTimeQueues_def by (simp del: add_free.simps)
qed

definition pq_large :: "nat PriorityQueue" where
  "pq_large = \<lparr>pq_duration_ms = 20, pq_interval_ms = 5, pq_queues = [], pq_free = [tq_large, tq_large]\<rparr>"

lemma pq_large_new: "PriorityQueue_new 20 5 True = Inr pq_large"
proof -
  let ?pq = "\<lparr>pq_duration_ms = 20, pq_interval_ms = 5, pq_queues = [], pq_free = []\<rparr> :: nat PriorityQueue"
  have "add_free (Suc (Suc 0)) ?pq = (Inr (), pq_large)" using tq_large_new by (simp add: pq_large_def)
  moreover have "kMinFreeTimeQueues - length (pq_free ?pq) = Suc (Suc 0)" by (simp add: kMinFreeTimeQueues_def)
  ultimately show ?thesis unfolding PriorityQueue_new_def InitFreeTimeQueues_def by (simp del: add_free.simps)
qed


theorem PriorityQueue_refused_push_witness:
  "\<exists>pq'. pq_Push 100 5 (7 :: nat) 3 0 0 pq0 = (Inl (Invalid_Argument ''TTL is greater than max duration''), pq') \<and>
    pq_items pq' = [] \<and> \<not> pq_Empty pq'"
  using PriorityQueue_new_inv [OF pq0_new, of 100]
  by (intro PriorityQueue_refused_push) (simp_all add: limit64_def)

text \<open>A time queue with two elements, the first of them delayed by a tick.\<close>

definition tq_delayed :: "nat TimeQueue" where
  "tq_delayed = tq0\<lparr>tq_current_ticks := 100, tq_buckets := [[], [7, 8]], tq_inuse := [1],
     tq_queue := [\<lparr>qv_bucket = 1, qv_value_index = 0, qv_expiry_tick = 102, qv_wait_for_tick = 101\<rparr>,
                  \<lparr>qv_bucket = 1, qv_value_index = 1, qv_expiry_tick = 102, qv_wait_for_tick = 100\<rparr>]\<rparr>"

lemma tq_delayed_pushed: "bind_result (tq_Push 100 7 2 1 tq0) (tq_Push 100 8 2 0) = Inr tq_delayed"
  by (simp add: tq_Push_def tq_InternalPush_def tq_Advance_def Let_def wrap64_defs insert_inuse_def tq0_def tq_delayed_def)

theorem PriorityQueue_drops_group_witness:
  "bind_result (tq_Push 100 7 2 1 tq0) (tq_Push 100 8 2 0) = Inr tq_delayed \<and> tq_Size tq_delayed = 2 \<and>
   pq_Size (fst (pq_PopFront 100 (pq0\<lparr>pq_queues := [(0, [(5, tq_delayed)])]\<rparr>) elem0)) = 0"
proof -
  have "\<not> has_value (snd (tq_PopFront 100 tq_delayed (fresh_elem elem0)))"
    by (simp add: tq_PopFront_def tq_Front_def tq_Advance_def tq_Pop_def front_loop.simps Let_def wrap64_defs tq_delayed_def
        tq0_def elem0_def)
  then show ?thesis using PriorityQueue_drops_group [of "pq0\<lparr>pq_queues := [(0, [(5, tq_delayed)])]\<rparr>" 0 5 tq_delayed 100 elem0]
      tq_delayed_pushed
    by (simp add: tq_delayed_def tq0_def tq_Size_def wrap64_defs)
qed

end
