(* ===== verification/Pico_State.thy ===== *)
theory Pico_State
  imports Quic_Metrics Priority_Queue Transport_Recv
begin

section \<open>The state of the QUIC transport on picoquic\<close>

text \<open>
  The class \<^verbatim>\<open>PicoQuicTransport\<close> (\<^verbatim>\<open>src/transport_picoquic.h\<close>, \<^verbatim>\<open>src/transport_picoquic.cpp\<close>), the
  implementation of the interface \<^verbatim>\<open>ITransport\<close>: its connections, their data contexts with the queues of
  objects to send, the buffers of the streams being received, and the two queues of functions that its threads
  hand to each other.

  The library picoquic is outside: the calls into it that change something are recorded in the order they are
  made, and what it answers is an argument of each operation (\<open>picoquic\<close>), which may depend on the calls made
  before. A pointer to a data context is the pair of the connection and the data context that it points to; a
  pointer to something that has been erased leads to undefined behaviour when it is used, and so does locking
  the mutex twice. The functions in the queues are their names with the captured values.
\<close>

subsection \<open>Data\<close>

datatype StreamAction = StreamAction_kNoAction | StreamAction_kReplaceStreamUseReset | StreamAction_kReplaceStreamUseFin

record ConnData =
  cd_conn_id :: u64
  cd_data_ctx_id :: u64
  cd_priority :: u8
  cd_stream_action :: StreamAction
  cd_data :: bytes
  cd_tick_microseconds :: u64

text \<open>The settings that the modelled operations read.\<close>

record TransportConfig =
  tls_cert_filename :: string
  tls_key_filename :: string
  time_queue_max_duration :: nat
  time_queue_bucket_interval :: nat
  time_queue_rx_size :: nat
  idle_timeout_ms :: u64
  use_reset_wait_strategy :: bool
  quic_priority_limit :: u8
  callback_queue_size :: nat

record DataContext =
  dc_is_bidir :: bool
  dc_mark_stream_active :: bool
  dc_tx_start_stream :: bool
  dc_uses_reset_wait :: bool
  dc_tx_reset_wait_discard :: bool
  dc_delete_on_empty :: bool
  dc_data_ctx_id :: u64
  dc_conn_id :: u64
  dc_current_stream_id :: "u64 option"
  dc_priority :: u8
  dc_tx_data :: "ConnData PriorityQueue option"
  dc_stream_tx_object :: "bytes option"
  dc_stream_tx_object_offset :: nat
  dc_last_tx_tick :: u64
  dc_metrics :: QuicDataContextMetrics

definition DataContext_new :: DataContext where
  "DataContext_new =
     \<lparr>dc_is_bidir = False, dc_mark_stream_active = False, dc_tx_start_stream = False, dc_uses_reset_wait = False,
      dc_tx_reset_wait_discard = False, dc_delete_on_empty = False, dc_data_ctx_id = 0, dc_conn_id = 0,
      dc_current_stream_id = None, dc_priority = 0, dc_tx_data = None, dc_stream_tx_object = None,
      dc_stream_tx_object_offset = 0, dc_last_tx_tick = 0, dc_metrics = QuicDataContextMetrics_new\<rparr>"

definition ResetTxObject :: "DataContext \<Rightarrow> DataContext" where
  "ResetTxObject d = d\<lparr>dc_stream_tx_object := None, dc_stream_tx_object_offset := 0\<rparr>"

text \<open>The receive context of a stream is shared with the user of the transport; it is an address.\<close>

type_synonym rxptr = nat

record RxStreamBuffer =
  rb_rx_ctx :: rxptr
  rb_closed :: bool
  rb_checked_once :: bool

definition StreamRxContext_new :: StreamRxContext where
  "StreamRxContext_new = \<lparr>rx_caller = None, rx_is_new = True, rx_unknown_expiry_tick_ms = 0,
     rx_queue = sq_Clear (SafeQueue_new 5000)\<rparr>"

text \<open>The connection context, with the peer's address as text and port.\<close>

record PqConnection =
  pc_conn_id :: u64
  pc_last_stream_id :: u64
  pc_mark_dgram_ready :: bool
  pc_next_data_ctx_id :: u64
  pc_dgram_tx_data :: "ConnData PriorityQueue option"
  pc_dgram_rx_data :: "bytes SafeQueue"
  pc_rx_stream_buffer :: "(u64, RxStreamBuffer) std_map"
  pc_active_data_contexts :: "(u64, DataContext) std_map"
  pc_peer_addr_text :: string
  pc_peer_port :: u16
  pc_is_congested :: bool
  pc_not_congested_gauge :: u16
  pc_metrics :: QuicConnectionMetrics

definition PqConnection_new :: PqConnection where
  "PqConnection_new =
     \<lparr>pc_conn_id = 0, pc_last_stream_id = 0, pc_mark_dgram_ready = False, pc_next_data_ctx_id = 1, pc_dgram_tx_data = None,
      pc_dgram_rx_data = SafeQueue_new 5000, pc_rx_stream_buffer = [], pc_active_data_contexts = [], pc_peer_addr_text = [],
      pc_peer_port = 0, pc_is_congested = False, pc_not_congested_gauge = 0, pc_metrics = QuicConnectionMetrics_new\<rparr>"

text \<open>What one thread asks another to run: in the thread of picoquic, and in the thread that calls the user.\<close>

type_synonym dptr = "u64 \<times> u64"

datatype pq_function =
    Fn_MarkStreamActive u64 u64
  | Fn_MarkDgramReady u64
  | Fn_DeleteDataContext u64 u64 bool
  | Fn_SetAppStreamCtx dptr u64
  | Fn_StartClient

datatype notification =
    Cb_ConnectionStatus u64 TransportStatus
  | Cb_NewConnection u64 string u16
  | Cb_NewDataContext u64 u64
  | Cb_RecvDgram u64
  | Cb_RecvStream u64 u64 "dptr option"
  | Cb_StreamClosed u64 u64 rxptr StreamClosedFlag

text \<open>The calls of the user's delegate.\<close>

datatype delegate_call =
    Del_OnConnectionStatus u64 TransportStatus
  | Del_OnNewConnection u64 string u16
  | Del_OnNewDataContext u64 u64
  | Del_OnRecvDgram u64
  | Del_OnRecvStream u64 u64 "u64 option" bool
  | Del_OnStreamClosed u64 u64 rxptr StreamClosedFlag
  | Del_OnConnectionMetricsSampled u64 QuicConnectionMetrics
  | Del_OnDataMetricsStampled u64 u64 QuicDataContextMetrics

subsection \<open>picoquic\<close>

text \<open>The calls into picoquic. \<open>Pq_write\<close> is the copy of octets into a buffer that picoquic provided. The pointer
  that a prepare callback passes to name its packet is a number.\<close>

datatype pq_call =
    Pq_create_cnx u64
  | Pq_set_transport_parameters u64
  | Pq_start_client_cnx u64
  | Pq_set_app_stream_ctx u64 u64 "dptr option"
  | Pq_reset_stream_ctx u64 u64
  | Pq_unlink_app_stream_ctx u64 u64
  | Pq_mark_active_stream u64 u64 bool "dptr option"
  | Pq_set_stream_priority u64 u64 u8
  | Pq_reset_stream u64 u64 u64
  | Pq_add_to_stream u64 u64 bytes bool
  | Pq_mark_datagram_ready u64 bool
  | Pq_set_datagram_priority u64 u8
  | Pq_provide_stream_data_buffer nat nat bool bool
  | Pq_provide_datagram_buffer nat nat bool
  | Pq_write nat bytes
  | Pq_close u64 u64
  | Pq_enable_keep_alive u64 u64
  | Pq_set_feedback_loss_notification u64
  | Pq_set_callback u64 bool
  | Pq_set_priority_limit_for_bypass u64 u8
  | Pq_wake_up_network_thread

record path_quality =
  pq_lost :: u64
  pq_cwin :: u64
  pq_bytes_in_transit :: u64
  pq_spurious_losses :: u64
  pq_timer_losses :: u64
  pq_rtt_sample :: u64
  pq_rtt :: u64
  pq_pacing_rate :: u64
  pq_receive_rate_estimate :: u64

text \<open>What picoquic, and the tick service, answer during an operation. The last three answers are those of
  \<^verbatim>\<open>picoquic_get_server_address\<close>, \<^verbatim>\<open>picoquic_create_cnx\<close> and \<^verbatim>\<open>picoquic_start_client_cnx\<close>.\<close>

record picoquic =
  tick_ms :: nat
  tick_us :: nat
  next_local_stream_id :: "pq_call list \<Rightarrow> u64 \<Rightarrow> bool \<Rightarrow> u64"
  buffer_available :: "pq_call list \<Rightarrow> bool"
  get_cwin :: "u64 \<Rightarrow> u64"
  get_path_quality :: "u64 \<Rightarrow> path_quality"
  nb_retransmission_total :: "u64 \<Rightarrow> u64"
  peer_addr :: "u64 \<Rightarrow> (string \<times> u16) option"
  application_error :: "u64 \<Rightarrow> u64"
  local_error_idle_timeout :: "u64 \<Rightarrow> bool"
  cnx_list :: "u64 list"
  server_resolved :: bool
  create_cnx :: "u64 option"
  start_client_cnx :: bool

subsection \<open>The transport\<close>

text \<open>\<open>pt_start_conn_id\<close> is the variable on the stack of \<^verbatim>\<open>StartClient\<close> that the function it queues captures by
  reference; it is \<open>None\<close> when no call of \<^verbatim>\<open>StartClient\<close> is under way.\<close>

record PicoQuicTransport =
  pt_is_server_mode :: bool
  pt_stop :: bool
  pt_status :: TransportStatus
  pt_tconfig :: TransportConfig
  pt_conn_context :: "(u64, PqConnection) std_map"
  pt_rx_contexts :: "rxptr \<Rightarrow> StreamRxContext"
  pt_next_rx :: rxptr
  pt_cbNotifyQueue :: "notification SafeQueue"
  pt_runner_queue :: "pq_function SafeQueue"
  pt_state_mutex :: bool
  pt_start_conn_id :: "u64 option"
  pt_loop_prev_time :: u64
  pt_loop_metrics_prev_time :: u64
  pt_calls :: "pq_call list"
  pt_delegate :: "delegate_call list"

text \<open>The constructor, and what \<^verbatim>\<open>Start\<close> sets before it starts the threads.\<close>

definition PicoQuicTransport_new :: "bool \<Rightarrow> TransportConfig \<Rightarrow> PicoQuicTransport result" where
  "PicoQuicTransport_new is_server tcfg =
     (if is_server \<and> tls_cert_filename tcfg = [] then Inl (Runtime_Error ''Missing cert filename'')
      else if tls_cert_filename tcfg \<noteq> [] \<and> tls_key_filename tcfg = [] then Inl (Runtime_Error ''Missing cert key filename'')
      else Inr \<lparr>pt_is_server_mode = is_server, pt_stop = False, pt_status = TransportStatus_kConnecting, pt_tconfig = tcfg,
                pt_conn_context = [], pt_rx_contexts = (\<lambda>_. StreamRxContext_new), pt_next_rx = 0,
                pt_cbNotifyQueue = SafeQueue_new 5000, pt_runner_queue = SafeQueue_new 5000, pt_state_mutex = False, pt_start_conn_id = None,
                pt_loop_prev_time = 0, pt_loop_metrics_prev_time = 0, pt_calls = [], pt_delegate = []\<rparr>)"

definition Start_limits :: "PicoQuicTransport \<Rightarrow> PicoQuicTransport" where
  "Start_limits t =
     t\<lparr>pt_runner_queue := sq_SetLimit (callback_queue_size (pt_tconfig t)) (pt_runner_queue t),
       pt_cbNotifyQueue := sq_SetLimit (callback_queue_size (pt_tconfig t)) (pt_cbNotifyQueue t)\<rparr>"

text \<open>Operations take the state and return a result, which may be an exception, with the state they leave.\<close>

type_synonym 'a pq = "PicoQuicTransport \<Rightarrow> 'a result \<times> PicoQuicTransport"

definition ok :: "'a \<Rightarrow> 'a pq" where
  "ok x t = (Inr x, t)"

definition throw :: "exn \<Rightarrow> 'a pq" where
  "throw e t = (Inl e, t)"

definition seq :: "'a pq \<Rightarrow> ('a \<Rightarrow> 'b pq) \<Rightarrow> 'b pq" where
  "seq m f t = (case m t of (Inl e, t') \<Rightarrow> (Inl e, t') | (Inr x, t') \<Rightarrow> f x t')"

definition update :: "(PicoQuicTransport \<Rightarrow> PicoQuicTransport) \<Rightarrow> unit pq" where
  "update f t = (Inr (), f t)"

lemma pq_simps [simp]:
  "ok x t = (Inr x, t)" "throw e t = (Inl e, t)" "update u t = (Inr (), u t)"
  "seq (ok x) f = f x" "seq (throw e) g = throw e" "seq (update u) h t = h () (u t)"
  by (simp_all add: ok_def throw_def update_def seq_def fun_eq_iff)

lemma seq_eq: "m t = (Inr x, t') \<Longrightarrow> seq m f t = f x t'" "m t = (Inl e, t') \<Longrightarrow> seq m f t = (Inl e, t')"
  by (simp_all add: seq_def)

lemma seq_Inr_iff: "seq m f t = (Inr y, t') \<longleftrightarrow> (\<exists>x t1. m t = (Inr x, t1) \<and> f x t1 = (Inr y, t'))"
  by (auto simp: seq_def split: prod.splits sum.splits)

text \<open>\<^verbatim>\<open>std::lock_guard\<close> on the mutex of the transport, which is not recursive.\<close>

definition lock_guard :: "'a pq \<Rightarrow> 'a pq" where
  "lock_guard m t =
     (if pt_state_mutex t then (Inl Undefined_Behaviour, t)
      else let (r, t') = m (t\<lparr>pt_state_mutex := True\<rparr>) in (r, t'\<lparr>pt_state_mutex := False\<rparr>))"

definition call_pq :: "pq_call \<Rightarrow> PicoQuicTransport \<Rightarrow> PicoQuicTransport" where
  "call_pq c t = t\<lparr>pt_calls := pt_calls t @ [c]\<rparr>"

definition delegate :: "delegate_call \<Rightarrow> PicoQuicTransport \<Rightarrow> PicoQuicTransport" where
  "delegate c t = t\<lparr>pt_delegate := pt_delegate t @ [c]\<rparr>"

definition conn_find :: "u64 \<Rightarrow> PicoQuicTransport \<Rightarrow> PqConnection option" where
  "conn_find cid t = map_find (pt_conn_context t) cid"

definition conn_put :: "u64 \<Rightarrow> PqConnection \<Rightarrow> PicoQuicTransport \<Rightarrow> PicoQuicTransport" where
  "conn_put cid c t = t\<lparr>pt_conn_context := map_put cid c (pt_conn_context t)\<rparr>"

definition conn_mod :: "u64 \<Rightarrow> (PqConnection \<Rightarrow> PqConnection) \<Rightarrow> PicoQuicTransport \<Rightarrow> PicoQuicTransport" where
  "conn_mod cid f t = (case conn_find cid t of None \<Rightarrow> t | Some c \<Rightarrow> conn_put cid (f c) t)"

text \<open>The data context that a pointer points to.\<close>

definition dc_find :: "dptr \<Rightarrow> PicoQuicTransport \<Rightarrow> DataContext option" where
  "dc_find p t = (case conn_find (fst p) t of None \<Rightarrow> None | Some c \<Rightarrow> map_find (pc_active_data_contexts c) (snd p))"

definition dc_put :: "dptr \<Rightarrow> DataContext \<Rightarrow> PicoQuicTransport \<Rightarrow> PicoQuicTransport" where
  "dc_put p d = conn_mod (fst p) (\<lambda>c. c\<lparr>pc_active_data_contexts := map_put (snd p) d (pc_active_data_contexts c)\<rparr>)"

text \<open>Reading through a pointer to a data context, and writing through it.\<close>

definition deref :: "dptr \<Rightarrow> DataContext pq" where
  "deref p t = (case dc_find p t of None \<Rightarrow> (Inl Undefined_Behaviour, t) | Some d \<Rightarrow> (Inr d, t))"

definition dc_mod :: "dptr \<Rightarrow> (DataContext \<Rightarrow> DataContext) \<Rightarrow> unit pq" where
  "dc_mod p f t = (case dc_find p t of None \<Rightarrow> (Inl Undefined_Behaviour, t) | Some d \<Rightarrow> (Inr (), dc_put p (f d) t))"

definition dc_met :: "dptr \<Rightarrow> (QuicDataContextMetrics \<Rightarrow> QuicDataContextMetrics) \<Rightarrow> unit pq" where
  "dc_met p f = dc_mod p (\<lambda>d. d\<lparr>dc_metrics := f (dc_metrics d)\<rparr>)"

definition conn_met :: "u64 \<Rightarrow> (QuicConnectionMetrics \<Rightarrow> QuicConnectionMetrics) \<Rightarrow> PicoQuicTransport \<Rightarrow> PicoQuicTransport" where
  "conn_met cid f = conn_mod cid (\<lambda>c. c\<lparr>pc_metrics := f (pc_metrics c)\<rparr>)"

text \<open>The queue of a data context, a pointer that is null until the queue is made.\<close>

definition tx_queue :: "dptr \<Rightarrow> ConnData PriorityQueue pq" where
  "tx_queue p =
     seq (deref p) (\<lambda>d. case dc_tx_data d of None \<Rightarrow> throw Undefined_Behaviour | Some q \<Rightarrow> ok q)"

definition put_tx_queue :: "dptr \<Rightarrow> ConnData PriorityQueue \<Rightarrow> unit pq" where
  "put_tx_queue p q = dc_mod p (\<lambda>d. d\<lparr>dc_tx_data := Some q\<rparr>)"

text \<open>A result of a function outside the state, such as a constructor.\<close>

definition lift_result :: "'a result \<Rightarrow> 'a pq" where
  "lift_result r t = (r, t)"

definition RunPqFunction :: "pq_function \<Rightarrow> PicoQuicTransport \<Rightarrow> PicoQuicTransport" where
  "RunPqFunction f t =
     call_pq Pq_wake_up_network_thread (t\<lparr>pt_runner_queue := snd (sq_Push f (pt_runner_queue t))\<rparr>)"

definition notify :: "notification \<Rightarrow> PicoQuicTransport \<Rightarrow> PicoQuicTransport" where
  "notify n t = t\<lparr>pt_cbNotifyQueue := snd (sq_Push n (pt_cbNotifyQueue t))\<rparr>"

definition SetStatus :: "TransportStatus \<Rightarrow> PicoQuicTransport \<Rightarrow> PicoQuicTransport" where
  "SetStatus s t = t\<lparr>pt_status := s\<rparr>"

text \<open>The pointer that \<^verbatim>\<open>GetConnContext\<close> returns, dereferenced.\<close>

definition GetConnContext :: "u64 \<Rightarrow> PqConnection pq" where
  "GetConnContext cid t = (case conn_find cid t of None \<Rightarrow> (Inl Undefined_Behaviour, t) | Some c \<Rightarrow> (Inr c, t))"

end
