(* ===== verification/Pico_Send.thy ===== *)
theory Pico_Send
  imports Pico_State
begin

section \<open>Sending on picoquic\<close>

text \<open>
  Data contexts and their streams, the queueing of objects, and the callbacks in which picoquic asks for
  octets to send (\<^verbatim>\<open>src/transport_picoquic.cpp\<close>).
\<close>

subsection \<open>Streams\<close>

text \<open>\<^verbatim>\<open>CloseStream\<close>, on the connection context and the data context it is given.\<close>

definition erase_rx_buffer :: "u64 \<Rightarrow> u64 \<Rightarrow> PicoQuicTransport \<Rightarrow> PicoQuicTransport" where
  "erase_rx_buffer cid sid = conn_mod cid (\<lambda>c. c\<lparr>pc_rx_stream_buffer := map_erase sid (pc_rx_stream_buffer c)\<rparr>)"

definition CloseStream :: "u64 \<Rightarrow> dptr \<Rightarrow> bool \<Rightarrow> unit pq" where
  "CloseStream cid p send_reset =
     seq (deref p) (\<lambda>d. case dc_current_stream_id d of
       None \<Rightarrow> ok ()
     | Some sid \<Rightarrow>
         seq (update (call_pq (Pq_reset_stream_ctx cid sid))) (\<lambda>_.
         seq (update (call_pq (if send_reset then Pq_reset_stream cid sid 0 else Pq_add_to_stream cid sid [] True))) (\<lambda>_.
         seq (GetConnContext cid) (\<lambda>c.
         seq (if map_contains (pc_rx_stream_buffer c) sid then lock_guard (update (erase_rx_buffer cid sid)) else ok ()) (\<lambda>_.
         dc_mod p (\<lambda>d. (ResetTxObject d)\<lparr>dc_current_stream_id := None\<rparr>))))))"

definition CreateStream :: "picoquic \<Rightarrow> u64 \<Rightarrow> dptr \<Rightarrow> unit pq" where
  "CreateStream pq cid p =
     seq (deref p) (\<lambda>d. \<lambda>t.
       let sid = next_local_stream_id pq (pt_calls t) cid (\<not> dc_is_bidir d) in
       seq (update (conn_mod cid (\<lambda>c. c\<lparr>pc_last_stream_id := sid\<rparr>))) (\<lambda>_.
       seq (if dc_current_stream_id d \<noteq> None then CloseStream cid p False else ok ()) (\<lambda>_.
       seq (dc_mod p (\<lambda>d. d\<lparr>dc_current_stream_id := Some sid, dc_mark_stream_active := True\<rparr>)) (\<lambda>_.
       seq (update (call_pq (Pq_set_app_stream_ctx cid sid (Some p)))) (\<lambda>_.
       update (RunPqFunction (Fn_MarkStreamActive cid (dc_data_ctx_id d))))))) t)"

definition MarkStreamActive :: "u64 \<Rightarrow> u64 \<Rightarrow> unit pq" where
  "MarkStreamActive cid did = lock_guard (\<lambda>t.
     case dc_find (cid, did) t of
       None \<Rightarrow> ok () t
     | Some d \<Rightarrow>
         seq (dc_mod (cid, did) (\<lambda>d. d\<lparr>dc_mark_stream_active := False\<rparr>)) (\<lambda>_.
         case dc_current_stream_id d of
           None \<Rightarrow> ok ()
         | Some sid \<Rightarrow>
             seq (update (call_pq (Pq_mark_active_stream cid sid True (Some (cid, did))))) (\<lambda>_.
             update (call_pq (Pq_set_stream_priority cid sid (push_bit 1 (dc_priority d)))))) t)"

definition MarkDgramReady :: "u64 \<Rightarrow> unit pq" where
  "MarkDgramReady cid = lock_guard (\<lambda>t.
     case conn_find cid t of
       None \<Rightarrow> ok () t
     | Some c \<Rightarrow>
         seq (update (call_pq (Pq_mark_datagram_ready cid True))) (\<lambda>_.
         update (conn_mod cid (\<lambda>c. c\<lparr>pc_mark_dgram_ready := False\<rparr>))) t)"

subsection \<open>Data contexts\<close>

definition tx_queue_new :: "PicoQuicTransport \<Rightarrow> ConnData PriorityQueue result" where
  "tx_queue_new t =
     PriorityQueue_new (time_queue_max_duration (pt_tconfig t)) (time_queue_bucket_interval (pt_tconfig t)) True"

definition CreateDataContext :: "picoquic \<Rightarrow> u64 \<Rightarrow> bool \<Rightarrow> u8 \<Rightarrow> bool \<Rightarrow> u64 pq" where
  "CreateDataContext pq cid use_reliable_transport priority bidir = lock_guard (\<lambda>t.
     if priority > 127
     then throw (Runtime_Error ''Create stream priority cannot be greater than 127, range is 0 - 127'') t
     else case conn_find cid t of
       None \<Rightarrow> ok 0 t
     | Some c \<Rightarrow>
         let did = pc_next_data_ctx_id c in
         (case map_find (pc_active_data_contexts c) did of
            Some d \<Rightarrow> ok (dc_data_ctx_id d) t
          | None \<Rightarrow>
              let d = DataContext_new\<lparr>dc_conn_id := cid, dc_is_bidir := bidir, dc_data_ctx_id := did, dc_priority := priority,
                        dc_uses_reset_wait := use_reset_wait_strategy (pt_tconfig t)\<rparr>;
                  t = conn_put cid (c\<lparr>pc_next_data_ctx_id := did + 1,
                        pc_active_data_contexts := map_put did d (pc_active_data_contexts c)\<rparr>) t
              in seq (lift_result (tx_queue_new t)) (\<lambda>q.
                 seq (put_tx_queue (cid, did) q) (\<lambda>_.
                 seq (if use_reliable_transport then CreateStream pq cid (cid, did)
                      else update (call_pq (Pq_set_datagram_priority cid priority))) (\<lambda>_.
                 ok did))) t))"

definition DeleteDataContextInternal :: "u64 \<Rightarrow> u64 \<Rightarrow> bool \<Rightarrow> unit pq" where
  "DeleteDataContextInternal cid did delete_on_empty t =
     (case dc_find (cid, did) t of
        None \<Rightarrow> ok () t
      | Some d \<Rightarrow>
          seq (if delete_on_empty then seq (tx_queue (cid, did)) (\<lambda>q. ok (\<not> pq_Empty q)) else ok False) (\<lambda>wait.
          if wait then dc_mod (cid, did) (\<lambda>d. d\<lparr>dc_delete_on_empty := True\<rparr>)
          else
            seq (CloseStream cid (cid, did) False) (\<lambda>_.
            update (conn_mod cid (\<lambda>c. c\<lparr>pc_active_data_contexts := map_erase did (pc_active_data_contexts c)\<rparr>)))) t)"

definition DeleteDataContext :: "u64 \<Rightarrow> u64 \<Rightarrow> bool \<Rightarrow> PicoQuicTransport \<Rightarrow> PicoQuicTransport" where
  "DeleteDataContext cid did delete_on_empty t =
     (if did = 0 then t else RunPqFunction (Fn_DeleteDataContext cid did delete_on_empty) t)"

definition SetDataCtxPriority :: "u64 \<Rightarrow> u64 \<Rightarrow> u8 \<Rightarrow> unit pq" where
  "SetDataCtxPriority cid did priority = lock_guard (\<lambda>t.
     case dc_find (cid, did) t of
       None \<Rightarrow> ok () t
     | Some d \<Rightarrow> dc_mod (cid, did) (\<lambda>d. d\<lparr>dc_priority := priority\<rparr>) t)"

definition SetStreamIdDataCtxId :: "u64 \<Rightarrow> u64 \<Rightarrow> u64 \<Rightarrow> unit pq" where
  "SetStreamIdDataCtxId cid did sid = lock_guard (\<lambda>t.
     case dc_find (cid, did) t of
       None \<Rightarrow> ok () t
     | Some d \<Rightarrow>
         seq (dc_mod (cid, did) (\<lambda>d. d\<lparr>dc_current_stream_id := Some sid\<rparr>)) (\<lambda>_.
         update (RunPqFunction (Fn_SetAppStreamCtx (cid, did) sid))) t)"

subsection \<open>Queueing an object\<close>

definition enqueue_action :: "EnqueueFlags \<Rightarrow> StreamAction" where
  "enqueue_action flags =
     (if new_stream flags then
        if use_reset flags then StreamAction_kReplaceStreamUseReset else StreamAction_kReplaceStreamUseFin
      else StreamAction_kNoAction)"

definition conn_data :: "picoquic \<Rightarrow> enqueue_call \<Rightarrow> StreamAction \<Rightarrow> ConnData" where
  "conn_data pq e act = \<lparr>cd_conn_id = eq_conn_id e, cd_data_ctx_id = eq_data_ctx_id e, cd_priority = eq_priority e,
     cd_stream_action = act, cd_data = eq_bytes e, cd_tick_microseconds = of_nat (tick_us pq)\<rparr>"

definition push_object :: "picoquic \<Rightarrow> enqueue_call \<Rightarrow> StreamAction \<Rightarrow> ConnData PriorityQueue \<Rightarrow> unit result \<times> ConnData PriorityQueue" where
  "push_object pq e act q =
     pq_Push (tick_ms pq) (unat (eq_group_id e)) (conn_data pq e act) (unat (eq_ttl_ms e)) (unat (eq_priority e)) 0 q"

definition enqueue_stream :: "picoquic \<Rightarrow> enqueue_call \<Rightarrow> unit pq" where
  "enqueue_stream pq e =
     (let p = (eq_conn_id e, eq_data_ctx_id e); flags = eq_flags e in
      seq (if new_stream flags then dc_mod p (\<lambda>d. d\<lparr>dc_tx_start_stream := True\<rparr>) else ok ()) (\<lambda>_.
      seq (if clear_tx_queue flags then
             seq (tx_queue p) (\<lambda>q.
             seq (dc_met p (\<lambda>m. m\<lparr>qd_tx_queue_discards := qd_tx_queue_discards m + of_nat (pq_Size q)\<rparr>)) (\<lambda>_.
             let (r, q') = pq_Clear q in seq (put_tx_queue p q') (\<lambda>_. lift_result r)))
           else ok ()) (\<lambda>_.
      seq (tx_queue p) (\<lambda>q.
      let (r, q') = push_object pq e (enqueue_action flags) q in
      seq (put_tx_queue p q') (\<lambda>_.
      seq (lift_result r) (\<lambda>_.
      seq (deref p) (\<lambda>d.
      if dc_mark_stream_active d then ok ()
      else
        seq (dc_mod p (\<lambda>d. d\<lparr>dc_mark_stream_active := True\<rparr>)) (\<lambda>_.
        update (RunPqFunction (Fn_MarkStreamActive (eq_conn_id e) (eq_data_ctx_id e)))))))))))"

definition enqueue_datagram :: "picoquic \<Rightarrow> enqueue_call \<Rightarrow> unit pq" where
  "enqueue_datagram pq e =
     seq (GetConnContext (eq_conn_id e)) (\<lambda>c. case pc_dgram_tx_data c of
       None \<Rightarrow> throw Undefined_Behaviour
     | Some q \<Rightarrow>
         let (r, q') = push_object pq e StreamAction_kNoAction q in
         seq (update (conn_mod (eq_conn_id e) (\<lambda>c. c\<lparr>pc_dgram_tx_data := Some q'\<rparr>))) (\<lambda>_.
         seq (lift_result r) (\<lambda>_.
         if pc_mark_dgram_ready c then ok ()
         else
           seq (update (conn_mod (eq_conn_id e) (\<lambda>c. c\<lparr>pc_mark_dgram_ready := True\<rparr>))) (\<lambda>_.
           update (RunPqFunction (Fn_MarkDgramReady (eq_conn_id e)))))))"

definition Enqueue :: "picoquic \<Rightarrow> enqueue_call \<Rightarrow> TransportError pq" where
  "Enqueue pq e =
     (if eq_bytes e = [] then ok TransportError_kNone
      else lock_guard (\<lambda>t.
        let p = (eq_conn_id e, eq_data_ctx_id e) in
        if conn_find (eq_conn_id e) t = None then ok TransportError_kInvalidConnContextId t
        else if dc_find p t = None then ok TransportError_kInvalidDataContextId t
        else
          seq (dc_mod p (\<lambda>d. d\<lparr>dc_priority := eq_priority e,
            dc_metrics := (dc_metrics d)\<lparr>qd_enqueued_objs := qd_enqueued_objs (dc_metrics d) + 1\<rparr>\<rparr>)) (\<lambda>_.
          seq (if use_reliable (eq_flags e) then enqueue_stream pq e else enqueue_datagram pq e) (\<lambda>_.
          ok TransportError_kNone)) t))"

subsection \<open>Octets for a stream\<close>

definition CheckCallbackDelta :: "picoquic \<Rightarrow> dptr \<Rightarrow> unit pq" where
  "CheckCallbackDelta pq p =
     seq (deref p) (\<lambda>d.
     let now = of_nat (tick_ms pq); delta_ms = now - dc_last_tx_tick d in
     if dc_last_tx_tick d = 0 then dc_mod p (\<lambda>d. d\<lparr>dc_last_tx_tick := now\<rparr>)
     else
       seq (dc_mod p (\<lambda>d. d\<lparr>dc_last_tx_tick := now,
         dc_metrics := (dc_metrics d)\<lparr>qd_tx_callback_ms := AddValue delta_ms (qd_tx_callback_ms (dc_metrics d))\<rparr>\<rparr>)) (\<lambda>_.
       if dc_priority d > 0 \<and> delta_ms > 50 then
         seq (tx_queue p) (\<lambda>q.
         if pq_Size q \<ge> 20
         then dc_met p (\<lambda>m. m\<lparr>qd_tx_delayed_callback := qd_tx_delayed_callback m + 1\<rparr>)
         else ok ())
       else ok ()))"

text \<open>The check of the action an object asks for; \<open>True\<close> when a new stream was made for it.\<close>

definition replace_stream :: "picoquic \<Rightarrow> dptr \<Rightarrow> bool \<Rightarrow> bool pq" where
  "replace_stream pq p send_reset =
     seq (lock_guard (
       seq (deref p) (\<lambda>d.
       seq (GetConnContext (dc_conn_id d)) (\<lambda>_.
       seq (CloseStream (dc_conn_id d) p send_reset) (\<lambda>_.
       seq (CreateStream pq (dc_conn_id d) p) (\<lambda>_.
       dc_mod p (\<lambda>d. d\<lparr>dc_tx_reset_wait_discard := False, dc_mark_stream_active := False\<rparr>))))))) (\<lambda>_.
     ok True)"

definition StreamActionCheck :: "picoquic \<Rightarrow> dptr option \<Rightarrow> StreamAction \<Rightarrow> bool pq" where
  "StreamActionCheck pq data_ctx act =
     (case data_ctx of
        None \<Rightarrow> ok False
      | Some p \<Rightarrow>
          (case act of
             StreamAction_kNoAction \<Rightarrow>
               seq (deref p) (\<lambda>d.
               if dc_current_stream_id d = None
               then seq (GetConnContext (dc_conn_id d)) (\<lambda>_. seq (CreateStream pq (dc_conn_id d) p) (\<lambda>_. ok True))
               else ok False)
           | StreamAction_kReplaceStreamUseReset \<Rightarrow> replace_stream pq p True
           | StreamAction_kReplaceStreamUseFin \<Rightarrow>
               seq (deref p) (\<lambda>d.
               seq (if dc_stream_tx_object d \<noteq> None
                    then dc_met p (\<lambda>m. m\<lparr>qd_tx_buffer_drops := qd_tx_buffer_drops m + 1\<rparr>) else ok ()) (\<lambda>_.
               replace_stream pq p False))))"

definition empty_element :: "ConnData TimeQueueElement" where
  "empty_element = \<lparr>has_value = False, expired_count = 0, elem_value = \<lparr>cd_conn_id = 0, cd_data_ctx_id = 0, cd_priority = 0,
     cd_stream_action = StreamAction_kNoAction, cd_data = [], cd_tick_microseconds = 0\<rparr>\<rparr>"

definition front_object :: "picoquic \<Rightarrow> dptr \<Rightarrow> ConnData TimeQueueElement pq" where
  "front_object pq p =
     seq (tx_queue p) (\<lambda>q. let (q', e) = pq_Front (tick_ms pq) q empty_element in seq (put_tx_queue p q') (\<lambda>_. ok e))"

definition pop_front_object :: "picoquic \<Rightarrow> dptr \<Rightarrow> ConnData TimeQueueElement \<Rightarrow> ConnData TimeQueueElement pq" where
  "pop_front_object pq p obj =
     seq (tx_queue p) (\<lambda>q. let (q', e) = pq_PopFront (tick_ms pq) q obj in seq (put_tx_queue p q') (\<lambda>_. ok e))"

text \<open>While the context discards: what is at the front of the queue is dropped or ends the discarding.
  The result says whether the function goes on, and with which element.\<close>

definition reset_wait :: "picoquic \<Rightarrow> dptr \<Rightarrow> (ConnData TimeQueueElement \<times> bool) pq" where
  "reset_wait pq p =
     seq (front_object pq p) (\<lambda>obj.
     seq (if has_value obj then
            seq (dc_met p (\<lambda>m. m\<lparr>qd_tx_queue_discards := qd_tx_queue_discards m + 1\<rparr>)) (\<lambda>_.
            if cd_stream_action (elem_value obj) \<noteq> StreamAction_kNoAction then
              lock_guard (
                seq (deref p) (\<lambda>d.
                seq (GetConnContext (dc_conn_id d)) (\<lambda>c.
                if \<not> pc_is_congested c then
                  seq (dc_mod p (\<lambda>d. ResetTxObject (d\<lparr>dc_tx_reset_wait_discard := False\<rparr>))) (\<lambda>_. ok True)
                else
                  seq (tx_queue p) (\<lambda>q.
                  seq (put_tx_queue p (pq_Pop q)) (\<lambda>_.
                  seq (if \<not> pq_Empty (pq_Pop q)
                       then update (RunPqFunction (Fn_MarkStreamActive (dc_conn_id d) (dc_data_ctx_id d))) else ok ()) (\<lambda>_.
                  ok False))))))
            else ok True)
          else ok True) (\<lambda>go_on.
     if go_on then seq (dc_mod p (\<lambda>d. d\<lparr>dc_mark_stream_active := False\<rparr>)) (\<lambda>_. ok (obj, True))
     else ok (obj, False)))"

text \<open>The next object is made the current one. The result says whether the function goes on to write it.\<close>

definition next_tx_object :: "picoquic \<Rightarrow> dptr \<Rightarrow> nat \<Rightarrow> ConnData TimeQueueElement \<Rightarrow> bool pq" where
  "next_tx_object pq p bytes_ctx obj0 =
     seq (pop_front_object pq p obj0) (\<lambda>obj.
     let cd = elem_value obj in
     if expired_count obj \<noteq> 0 then
       seq (dc_mod p (\<lambda>d. ResetTxObject (d\<lparr>dc_tx_reset_wait_discard := True,
         dc_metrics := (dc_metrics d)\<lparr>qd_tx_queue_expired := qd_tx_queue_expired (dc_metrics d) + of_nat (expired_count obj)\<rparr>\<rparr>))) (\<lambda>_.
       ok False)
     else if has_value obj then
       if cd_data cd = [] then ok False
       else
         seq (dc_mod p (\<lambda>d. d\<lparr>dc_stream_tx_object_offset := 0,
           dc_metrics := (dc_metrics d)\<lparr>qd_tx_stream_objects := qd_tx_stream_objects (dc_metrics d) + 1,
             qd_tx_object_duration_us := AddValue (of_nat (tick_us pq) - cd_tick_microseconds cd) (qd_tx_object_duration_us (dc_metrics d))\<rparr>\<rparr>)) (\<lambda>_.
         seq (StreamActionCheck pq (Some p) (cd_stream_action cd)) (\<lambda>created.
         if created then seq (dc_mod p (\<lambda>d. d\<lparr>dc_stream_tx_object := Some (cd_data cd)\<rparr>)) (\<lambda>_. ok False)
         else seq (dc_mod p (\<lambda>d. d\<lparr>dc_stream_tx_object := Some (cd_data cd), dc_tx_start_stream := False\<rparr>)) (\<lambda>_. ok True)))
     else
       seq (tx_queue p) (\<lambda>q.
       seq (update (call_pq (Pq_provide_stream_data_buffer bytes_ctx 0 False (\<not> pq_Empty q)))) (\<lambda>_. ok False)))"

text \<open>A piece of the current object is copied into the buffer that picoquic provides; the length is a
  \<^verbatim>\<open>uint32_t\<close>. A copy that would read past the end of the object is undefined.\<close>

definition write_tx_object :: "picoquic \<Rightarrow> dptr \<Rightarrow> nat \<Rightarrow> nat \<Rightarrow> unit pq" where
  "write_tx_object pq p bytes_ctx max_len =
     seq (deref p) (\<lambda>d. case dc_stream_tx_object d of
       None \<Rightarrow> throw Undefined_Behaviour
     | Some data \<Rightarrow>
         let offset = dc_stream_tx_object_offset d;
             data_len = sub64 (length data) offset mod 2 ^ 32;
             more_of_it = data_len > max_len;
             offset' = (if more_of_it then add64 offset max_len else 0);
             data_len = (if more_of_it then max_len mod 2 ^ 32 else data_len)
         in
         seq (dc_mod p (\<lambda>d. d\<lparr>dc_stream_tx_object_offset := offset',
           dc_metrics := (dc_metrics d)\<lparr>qd_tx_stream_bytes := qd_tx_stream_bytes (dc_metrics d) + of_nat data_len\<rparr>\<rparr>)) (\<lambda>_.
         seq (tx_queue p) (\<lambda>q. \<lambda>t.
         let available = buffer_available pq (pt_calls t) in
         seq (update (call_pq (Pq_provide_stream_data_buffer bytes_ctx data_len False (more_of_it \<or> \<not> pq_Empty q)))) (\<lambda>_.
         if \<not> available then ok ()
         else if offset + data_len > length data then throw Undefined_Behaviour
         else
           seq (update (call_pq (Pq_write bytes_ctx (take data_len (drop offset data))))) (\<lambda>_.
           if offset' = 0 then dc_mod p ResetTxObject else ok ())) t)))"

text \<open>\<^verbatim>\<open>SendStreamBytes\<close>. The first guard tests the pointer for null and dereferences it when it is, so with a
  null pointer nothing is defined. The deferred deletion runs when the function returns.\<close>

definition delete_if_drained :: "dptr \<Rightarrow> unit pq" where
  "delete_if_drained p =
     seq (tx_queue p) (\<lambda>q.
     seq (deref p) (\<lambda>d.
     if pq_Empty q \<and> dc_delete_on_empty d
     then DeleteDataContextInternal (dc_conn_id d) (dc_data_ctx_id d) False else ok ()))"

definition SendStreamBytes :: "picoquic \<Rightarrow> dptr option \<Rightarrow> nat option \<Rightarrow> nat \<Rightarrow> unit pq" where
  "SendStreamBytes pq data_ctx bytes_ctx max_len =
     (case bytes_ctx of
        None \<Rightarrow> ok ()
      | Some b \<Rightarrow>
          (case data_ctx of
             None \<Rightarrow> throw Undefined_Behaviour
           | Some p \<Rightarrow>
               seq (CheckCallbackDelta pq p) (\<lambda>_.
               seq (deref p) (\<lambda>d.
               seq (if dc_tx_reset_wait_discard d then reset_wait pq p else ok (empty_element, True)) (\<lambda>(obj, go_on).
               if \<not> go_on then ok ()
               else
                 seq (deref p) (\<lambda>d.
                 seq (if dc_stream_tx_object d = None then next_tx_object pq p b obj else ok True) (\<lambda>write.
                 seq (if write then write_tx_object pq p b max_len else ok ()) (\<lambda>_.
                 delete_if_drained p))))))))"

subsection \<open>Datagrams\<close>

definition SendNextDatagram :: "picoquic \<Rightarrow> u64 \<Rightarrow> nat option \<Rightarrow> nat \<Rightarrow> unit pq" where
  "SendNextDatagram pq cid bytes_ctx max_len =
     (case bytes_ctx of
        None \<Rightarrow> ok ()
      | Some b \<Rightarrow>
          seq (GetConnContext cid) (\<lambda>c. case pc_dgram_tx_data c of
            None \<Rightarrow> throw Undefined_Behaviour
          | Some q \<Rightarrow>
              let (q, obj) = pq_Front (tick_ms pq) q empty_element; cd = elem_value obj; p = (cid, cd_data_ctx_id cd);
                  put_q = (\<lambda>q. update (conn_mod cid (\<lambda>c. c\<lparr>pc_dgram_tx_data := Some q\<rparr>)))
              in
              seq (put_q q) (\<lambda>_.
              if \<not> has_value obj then update (call_pq (Pq_provide_datagram_buffer b 0 False))
              else if \<not> map_contains (pc_active_data_contexts c) (cd_data_ctx_id cd) then
                update (conn_met cid (\<lambda>m. m\<lparr>qc_tx_dgram_drops := qc_tx_dgram_drops m + 1\<rparr>))
              else
                seq (CheckCallbackDelta pq p) (\<lambda>_.
                if cd_data cd = [] then seq (tx_queue p) (\<lambda>q. put_tx_queue p (pq_Pop q))
                else
                  seq (dc_met p (\<lambda>m. m\<lparr>qd_tx_queue_expired := qd_tx_queue_expired m + of_nat (expired_count obj)\<rparr>)) (\<lambda>_.
                  if length (cd_data cd) \<le> max_len then
                    seq (put_q (pq_Pop q)) (\<lambda>_.
                    seq (dc_met p (\<lambda>m. m\<lparr>
                      qd_tx_object_duration_us := AddValue (of_nat (tick_us pq) - cd_tick_microseconds cd) (qd_tx_object_duration_us m),
                      qd_tx_dgrams_bytes := qd_tx_dgrams_bytes m + of_nat (length (cd_data cd)), qd_tx_dgrams := qd_tx_dgrams m + 1\<rparr>)) (\<lambda>_. \<lambda>t.
                    let available = buffer_available pq (pt_calls t) in
                    seq (update (call_pq (Pq_provide_datagram_buffer b (length (cd_data cd)) (\<not> pq_Empty (pq_Pop q))))) (\<lambda>_.
                    if available then update (call_pq (Pq_write b (cd_data cd))) else ok ()) t))
                  else
                    seq (update (RunPqFunction (Fn_MarkDgramReady (pc_conn_id c)))) (\<lambda>_.
                    update (call_pq (Pq_provide_datagram_buffer b 0 True))))))))"

end
