(* ===== verification/Pico_Events.thy ===== *)
theory Pico_Events
  imports Pico_Send
begin

section \<open>Callbacks of picoquic\<close>

text \<open>
  Connections, the events that picoquic reports (\<^verbatim>\<open>PqEventCb\<close>), the functions run for other threads
  (\<^verbatim>\<open>PqRunner\<close>), the thread that calls the user (\<^verbatim>\<open>CbNotifier\<close>), and the periodic checks of the packet loop
  (\<^verbatim>\<open>PqLoopCb\<close>).
\<close>

subsection \<open>Connections\<close>

definition CreateConnContext :: "picoquic \<Rightarrow> u64 \<Rightarrow> unit pq" where
  "CreateConnContext pq cid t =
     (let is_new = (conn_find cid t = None);
          c = (case conn_find cid t of None \<Rightarrow> PqConnection_new | Some c \<Rightarrow> c);
          c = c\<lparr>pc_conn_id := cid, pc_peer_addr_text := []\<rparr>;
          c = (case peer_addr pq cid of None \<Rightarrow> c | Some (txt, port) \<Rightarrow> c\<lparr>pc_peer_addr_text := txt, pc_peer_port := port\<rparr>);
          t = conn_put cid c t
      in if \<not> is_new then ok () t
         else
           seq (update (conn_mod cid (\<lambda>c. c\<lparr>pc_dgram_rx_data := sq_SetLimit (time_queue_rx_size (pt_tconfig t)) (pc_dgram_rx_data c)\<rparr>))) (\<lambda>_.
           seq (lift_result (tx_queue_new t)) (\<lambda>q.
           update (conn_mod cid (\<lambda>c. c\<lparr>pc_dgram_tx_data := Some q\<rparr>)))) t)"

definition pq_OnConnectionStatus :: "u64 \<Rightarrow> TransportStatus \<Rightarrow> unit pq" where
  "pq_OnConnectionStatus cid status =
     seq (if status = TransportStatus_kReady then seq (GetConnContext cid) (\<lambda>_. ok ()) else ok ()) (\<lambda>_.
     update (notify (Cb_ConnectionStatus cid status)))"

definition pq_OnNewConnection :: "u64 \<Rightarrow> unit pq" where
  "pq_OnNewConnection cid t =
     (case conn_find cid t of
        None \<Rightarrow> ok () t
      | Some c \<Rightarrow>
          seq (update (call_pq (Pq_enable_keep_alive cid (idle_timeout_ms (pt_tconfig t) * 500)))) (\<lambda>_.
          seq (update (call_pq (Pq_set_feedback_loss_notification cid))) (\<lambda>_.
          seq (update (call_pq (Pq_set_callback cid True))) (\<lambda>_.
          seq (if quic_priority_limit (pt_tconfig t) > 0
               then update (call_pq (Pq_set_priority_limit_for_bypass cid (quic_priority_limit (pt_tconfig t)))) else ok ()) (\<lambda>_.
          update (notify (Cb_NewConnection cid (pc_peer_addr_text c) (pc_peer_port c))))))) t)"

definition close_stream_calls :: "u64 \<Rightarrow> u64 \<times> RxStreamBuffer \<Rightarrow> PicoQuicTransport \<Rightarrow> PicoQuicTransport" where
  "close_stream_calls cid sb t =
     (let t = call_pq (Pq_unlink_app_stream_ctx cid (fst sb)) (call_pq (Pq_mark_active_stream cid (fst sb) False None) t)
      in if rb_closed (snd sb) then t else call_pq (Pq_reset_stream cid (fst sb) 0) t)"

definition close_status :: "u64 \<Rightarrow> TransportStatus" where
  "close_status reason =
     (if reason = 1 then TransportStatus_kIdleTimeout
      else if reason = 100 then TransportStatus_kRemoteRequestClose
      else TransportStatus_kDisconnected)"

definition Close :: "u64 \<Rightarrow> u64 \<Rightarrow> unit pq" where
  "Close cid app_reason_code = lock_guard (\<lambda>t.
     case conn_find cid t of
       None \<Rightarrow> ok () t
     | Some c \<Rightarrow>
         seq (update (fold (close_stream_calls cid) (pc_rx_stream_buffer c))) (\<lambda>_.
         seq (pq_OnConnectionStatus cid (close_status app_reason_code)) (\<lambda>_.
         seq (if \<not> pt_is_server_mode t then update (SetStatus TransportStatus_kShutdown) else ok ()) (\<lambda>_.
         seq (update (call_pq (Pq_close cid app_reason_code))) (\<lambda>_.
         update (\<lambda>t. t\<lparr>pt_conn_context := map_erase cid (pt_conn_context t)\<rparr>))))) t)"

subsection \<open>Receiving\<close>

definition GetStreamRxContext :: "u64 \<Rightarrow> u64 \<Rightarrow> (TransportError + rxptr) pq" where
  "GetStreamRxContext cid sid = lock_guard (\<lambda>t.
     case conn_find cid t of
       None \<Rightarrow> ok (Inl TransportError_kInvalidConnContextId) t
     | Some c \<Rightarrow>
         (case map_find (pc_rx_stream_buffer c) sid of
            Some rb \<Rightarrow> ok (Inr (rb_rx_ctx rb)) t
          | None \<Rightarrow> ok (Inl TransportError_kInvalidStreamId) t))"

definition Dequeue :: "u64 \<Rightarrow> bytes option pq" where
  "Dequeue cid = lock_guard (\<lambda>t.
     case conn_find cid t of
       None \<Rightarrow> ok None t
     | Some c \<Rightarrow>
         let (data, q) = sq_Pop (pc_dgram_rx_data c) in ok data (conn_put cid (c\<lparr>pc_dgram_rx_data := q\<rparr>) t))"

definition OnRecvDatagram :: "u64 \<Rightarrow> bytes \<Rightarrow> unit pq" where
  "OnRecvDatagram cid data =
     (if data = [] then ok ()
      else
        seq (GetConnContext cid) (\<lambda>c.
        let q = snd (sq_Push data (pc_dgram_rx_data c)); m = pc_metrics c in
        seq (update (conn_put cid (c\<lparr>pc_dgram_rx_data := q,
          pc_metrics := m\<lparr>qc_rx_dgrams := qc_rx_dgrams m + 1, qc_rx_dgrams_bytes := qc_rx_dgrams_bytes m + of_nat (length data)\<rparr>\<rparr>))) (\<lambda>_.
        if sq_Size q < 10 then update (notify (Cb_RecvDgram cid)) else ok ())))"

definition CreateDataContextBiDirRecv :: "u64 \<Rightarrow> u64 \<Rightarrow> dptr option pq" where
  "CreateDataContextBiDirRecv cid sid = lock_guard (\<lambda>t.
     case conn_find cid t of
       None \<Rightarrow> ok None t
     | Some c \<Rightarrow>
         let did = pc_next_data_ctx_id c in
         (case map_find (pc_active_data_contexts c) did of
            Some _ \<Rightarrow> ok None t
          | None \<Rightarrow>
              let d = DataContext_new\<lparr>dc_conn_id := cid, dc_is_bidir := True, dc_data_ctx_id := did, dc_priority := 1\<rparr>;
                  t = conn_put cid (c\<lparr>pc_next_data_ctx_id := did + 1,
                        pc_active_data_contexts := map_put did d (pc_active_data_contexts c)\<rparr>) t
              in seq (lift_result (tx_queue_new t)) (\<lambda>q.
                 seq (put_tx_queue (cid, did) q) (\<lambda>_.
                 seq (dc_mod (cid, did) (\<lambda>d. d\<lparr>dc_current_stream_id := Some sid\<rparr>)) (\<lambda>_.
                 seq (update (notify (Cb_NewDataContext cid did))) (\<lambda>_.
                 ok (Some (cid, did)))))) t))"

text \<open>The buffer of a stream, made when its first octets arrive.\<close>

definition rx_buffer :: "u64 \<Rightarrow> u64 \<Rightarrow> RxStreamBuffer pq" where
  "rx_buffer cid sid =
     seq (GetConnContext cid) (\<lambda>c. case map_find (pc_rx_stream_buffer c) sid of
       Some rb \<Rightarrow> ok rb
     | None \<Rightarrow> (\<lambda>t.
         let rb = \<lparr>rb_rx_ctx = pt_next_rx t, rb_closed = False, rb_checked_once = False\<rparr>;
             rx = StreamRxContext_new\<lparr>rx_queue := sq_SetLimit (time_queue_rx_size (pt_tconfig t)) (rx_queue StreamRxContext_new)\<rparr>
         in ok rb (conn_put cid (c\<lparr>pc_rx_stream_buffer := map_put sid rb (pc_rx_stream_buffer c)\<rparr>)
              (t\<lparr>pt_next_rx := pt_next_rx t + 1, pt_rx_contexts := (pt_rx_contexts t)(pt_next_rx t := rx)\<rparr>))))"

definition set_rx_closed :: "u64 \<Rightarrow> u64 \<Rightarrow> RxStreamBuffer \<Rightarrow> PicoQuicTransport \<Rightarrow> PicoQuicTransport" where
  "set_rx_closed cid sid rb =
     conn_mod cid (\<lambda>c. c\<lparr>pc_rx_stream_buffer := map_put sid (rb\<lparr>rb_closed := True\<rparr>) (pc_rx_stream_buffer c)\<rparr>)"

definition kUnknownExpiry :: u64 where "kUnknownExpiry = 50"

definition OnRecvStreamBytes :: "picoquic \<Rightarrow> u64 \<Rightarrow> dptr option \<Rightarrow> u64 \<Rightarrow> bytes \<Rightarrow> unit pq" where
  "OnRecvStreamBytes pq cid data_ctx sid data =
     (if data = [] then ok ()
      else lock_guard (
        seq (rx_buffer cid sid) (\<lambda>rb. \<lambda>t.
        let rx = pt_rx_contexts t (rb_rx_ctx rb) in
        if rx_unknown_expiry_tick_ms rx \<noteq> 0 \<and> of_nat (tick_ms pq) > rx_unknown_expiry_tick_ms rx then
          seq (update (call_pq (Pq_reset_stream_ctx cid sid))) (\<lambda>_.
          seq (update (call_pq (Pq_reset_stream cid sid kUnknownExpiry))) (\<lambda>_.
          update (set_rx_closed cid sid rb))) t
        else
          let q = snd (sq_Push data (rx_queue rx)) in
          seq (update (\<lambda>t. t\<lparr>pt_rx_contexts := (pt_rx_contexts t)(rb_rx_ctx rb := rx\<lparr>rx_queue := q\<rparr>)\<rparr>)) (\<lambda>_.
          case data_ctx of
            Some p \<Rightarrow>
              seq (dc_met p (\<lambda>m. m\<lparr>qd_rx_stream_cb := qd_rx_stream_cb m + 1,
                qd_rx_stream_bytes := qd_rx_stream_bytes m + of_nat (length data)\<rparr>)) (\<lambda>_.
              if sq_Size q < 10 then update (notify (Cb_RecvStream cid sid (Some p))) else ok ())
          | None \<Rightarrow> update (notify (Cb_RecvStream cid sid None))) t)))"

definition pq_OnStreamClosed :: "u64 \<Rightarrow> u64 \<Rightarrow> rxptr \<Rightarrow> StreamClosedFlag \<Rightarrow> PicoQuicTransport \<Rightarrow> PicoQuicTransport" where
  "pq_OnStreamClosed cid sid rx flag = notify (Cb_StreamClosed cid sid rx flag)"

subsection \<open>Events\<close>

text \<open>The events with the arguments they use: the packet to fill and the room in it, the stream, the octets, whether
  they end the stream. \<open>Ev_other\<close> is any event that only logs.\<close>

datatype pq_event =
    Ev_prepare_datagram "nat option" nat
  | Ev_datagram_acked | Ev_datagram_spurious | Ev_datagram_lost
  | Ev_datagram bytes
  | Ev_prepare_to_send u64 "nat option" nat
  | Ev_stream_data u64 bytes bool
  | Ev_stream_reset u64
  | Ev_close
  | Ev_ready
  | Ev_other

datatype pq_return = Pq_return_0 | Pq_return_terminate | Pq_return_disconnected

definition kPqCcLowCwin :: u64 where "kPqCcLowCwin = 4000"

definition cwin_congested :: "picoquic \<Rightarrow> u64 \<Rightarrow> PicoQuicTransport \<Rightarrow> PicoQuicTransport" where
  "cwin_congested pq cid t =
     (if get_cwin pq cid < kPqCcLowCwin
      then conn_met cid (\<lambda>m. m\<lparr>qc_cwin_congested := qc_cwin_congested m + 1\<rparr>) t else t)"

text \<open>The end of a stream of the peer, by a FIN or a RESET.\<close>

definition rx_stream_end :: "u64 \<Rightarrow> u64 \<Rightarrow> StreamClosedFlag \<Rightarrow> PicoQuicTransport \<Rightarrow> PicoQuicTransport" where
  "rx_stream_end cid sid flag t =
     (let t = call_pq (Pq_reset_stream_ctx cid sid) t in
      case conn_find cid t of
        None \<Rightarrow> t
      | Some c \<Rightarrow>
          (case map_find (pc_rx_stream_buffer c) sid of
             None \<Rightarrow> t
           | Some rb \<Rightarrow> pq_OnStreamClosed cid sid (rb_rx_ctx rb) flag (set_rx_closed cid sid rb t)))"

definition forget_stream :: "dptr option \<Rightarrow> unit pq" where
  "forget_stream data_ctx =
     (case data_ctx of None \<Rightarrow> ok () | Some p \<Rightarrow> dc_mod p (\<lambda>d. d\<lparr>dc_current_stream_id := None\<rparr>))"

text \<open>The data context of a stream that has data: a bidirectional stream without one gets one, unless this side made
  it. The test on the server masks the stream id with zero. \<open>None\<close> ends the handling of the event.\<close>

definition recv_data_ctx :: "u64 \<Rightarrow> u64 \<Rightarrow> dptr option \<Rightarrow> dptr option option pq" where
  "recv_data_ctx cid sid data_ctx t =
     (if data_ctx \<noteq> None \<or> sid AND 2 = 2 then ok (Some data_ctx) t
      else if sid AND 1 = 1 \<and> \<not> pt_is_server_mode t \<or> sid AND 0 = 0 \<and> pt_is_server_mode t then
        seq (CreateDataContextBiDirRecv cid sid) (\<lambda>p.
        seq (update (call_pq (Pq_set_app_stream_ctx cid sid p))) (\<lambda>_. ok (Some p))) t
      else ok None t)"

definition recv_stream_data :: "picoquic \<Rightarrow> u64 \<Rightarrow> u64 \<Rightarrow> bytes \<Rightarrow> bool \<Rightarrow> dptr option \<Rightarrow> unit pq" where
  "recv_stream_data pq cid sid data is_fin v_stream_ctx =
     seq (recv_data_ctx cid sid v_stream_ctx) (\<lambda>r. \<lambda>t. case r of
       None \<Rightarrow> ok () t
     | Some data_ctx \<Rightarrow>
         if conn_find cid t = None then ok () t
         else
           seq (OnRecvStreamBytes pq cid data_ctx sid data) (\<lambda>_.
           if is_fin then seq (update (rx_stream_end cid sid StreamClosed_Fin)) (\<lambda>_. forget_stream data_ctx)
           else ok ()) t)"

definition PqEventCb :: "picoquic \<Rightarrow> u64 \<Rightarrow> pq_event \<Rightarrow> dptr option \<Rightarrow> pq_return pq" where
  "PqEventCb pq cid event v_stream_ctx t =
     (let fin = (\<lambda>m. seq m (\<lambda>_ :: unit. ok Pq_return_0)) in
      case event of
        Ev_prepare_datagram bytes_ctx len \<Rightarrow>
          (if conn_find cid t = None then ok Pq_return_0 t
           else fin (
             seq (update (conn_met cid (\<lambda>m. m\<lparr>qc_tx_dgram_cb := qc_tx_dgram_cb m + 1\<rparr>))) (\<lambda>_.
             seq (SendNextDatagram pq cid bytes_ctx len) (\<lambda>_.
             update (cwin_congested pq cid)))) t)
      | Ev_datagram_acked \<Rightarrow> ok Pq_return_0 (conn_met cid (\<lambda>m. m\<lparr>qc_tx_dgram_ack := qc_tx_dgram_ack m + 1\<rparr>) t)
      | Ev_datagram_spurious \<Rightarrow> ok Pq_return_0 (conn_met cid (\<lambda>m. m\<lparr>qc_tx_dgram_spurious := qc_tx_dgram_spurious m + 1\<rparr>) t)
      | Ev_datagram_lost \<Rightarrow> ok Pq_return_0 (conn_met cid (\<lambda>m. m\<lparr>qc_tx_dgram_lost := qc_tx_dgram_lost m + 1\<rparr>) t)
      | Ev_datagram data \<Rightarrow> (if conn_find cid t = None then ok Pq_return_0 t else fin (OnRecvDatagram cid data) t)
      | Ev_prepare_to_send sid bytes_ctx len \<Rightarrow>
          (if get_cwin pq cid < kPqCcLowCwin \<and> conn_find cid t = None then ok Pq_return_0 t
           else
             let t = cwin_congested pq cid t in
             (case v_stream_ctx of
                None \<Rightarrow> ok Pq_return_0 t
              | Some p \<Rightarrow>
                  fin (seq (dc_met p (\<lambda>m. m\<lparr>qd_tx_stream_cb := qd_tx_stream_cb m + 1\<rparr>)) (\<lambda>_.
                  SendStreamBytes pq (Some p) bytes_ctx len)) t))
      | Ev_stream_data sid data is_fin \<Rightarrow> fin (recv_stream_data pq cid sid data is_fin v_stream_ctx) t
      | Ev_stream_reset sid \<Rightarrow>
          fin (seq (update (rx_stream_end cid sid StreamClosed_Reset)) (\<lambda>_. forget_stream v_stream_ctx)) t
      | Ev_close \<Rightarrow>
          seq (update (call_pq (Pq_set_callback cid False))) (\<lambda>_.
          seq (Close cid (if local_error_idle_timeout pq cid then 1 else application_error pq cid)) (\<lambda>_. \<lambda>t.
          ok (if pt_is_server_mode t then Pq_return_0 else Pq_return_terminate) t)) t
      | Ev_ready \<Rightarrow>
          fin (seq (if pt_is_server_mode t then seq (CreateConnContext pq cid) (\<lambda>_. pq_OnNewConnection cid)
                    else seq (update (SetStatus TransportStatus_kReady)) (\<lambda>_. pq_OnConnectionStatus cid TransportStatus_kReady)) (\<lambda>_.
               update (call_pq (Pq_mark_datagram_ready cid True)))) t
      | Ev_other \<Rightarrow> ok Pq_return_0 t)"

subsection \<open>Functions run for other threads\<close>

text \<open>\<^verbatim>\<open>StartClient\<close>: it queues a function and waits until the function has set the variable, or three seconds have
  passed. The function writes through its references to the variables of the call, which is undefined once the call has
  returned.\<close>

definition notify_caller :: "u64 \<Rightarrow> unit pq" where
  "notify_caller conn t =
     (case pt_start_conn_id t of
        None \<Rightarrow> throw Undefined_Behaviour t
      | Some _ \<Rightarrow> ok () (t\<lparr>pt_start_conn_id := Some conn\<rparr>))"

definition StartClient_function :: "picoquic \<Rightarrow> pq_return pq" where
  "StartClient_function pq t =
     (if \<not> server_resolved pq then seq (notify_caller 1) (\<lambda>_. ok Pq_return_0) t
      else case create_cnx pq of
        None \<Rightarrow> seq (notify_caller 1) (\<lambda>_. ok Pq_return_disconnected) t
      | Some cnx \<Rightarrow>
          seq (update (call_pq (Pq_create_cnx cnx))) (\<lambda>_.
          seq (update (call_pq (Pq_set_transport_parameters cnx))) (\<lambda>_.
          seq (update (call_pq (Pq_set_feedback_loss_notification cnx))) (\<lambda>_.
          seq (update (call_pq (Pq_enable_keep_alive cnx (idle_timeout_ms (pt_tconfig t) * 500)))) (\<lambda>_.
          seq (update (call_pq (Pq_set_callback cnx True))) (\<lambda>_.
          seq (update (call_pq (Pq_start_client_cnx cnx))) (\<lambda>_.
          if \<not> start_client_cnx pq then seq (notify_caller 1) (\<lambda>_. ok Pq_return_disconnected)
          else
            seq (CreateConnContext pq cnx) (\<lambda>_.
            seq (if quic_priority_limit (pt_tconfig t) > 0
                 then update (call_pq (Pq_set_priority_limit_for_bypass cnx (quic_priority_limit (pt_tconfig t)))) else ok ()) (\<lambda>_.
            seq (notify_caller cnx) (\<lambda>_. ok Pq_return_0))))))))) t)"

definition StartClient_begin :: "PicoQuicTransport \<Rightarrow> PicoQuicTransport" where
  "StartClient_begin t = RunPqFunction Fn_StartClient (t\<lparr>pt_start_conn_id := Some 0\<rparr>)"

definition StartClient_end :: "u64 pq" where
  "StartClient_end t =
     (let conn_id = (case pt_start_conn_id t of None \<Rightarrow> 0 | Some i \<Rightarrow> i); t = t\<lparr>pt_start_conn_id := None\<rparr> in
      if conn_id \<le> 1 then ok 0 (SetStatus TransportStatus_kDisconnected t) else ok conn_id t)"

definition run_function :: "picoquic \<Rightarrow> pq_function \<Rightarrow> pq_return pq" where
  "run_function pq f =
     (let ret = (\<lambda>m. seq m (\<lambda>_ :: unit. ok Pq_return_0)) in
      case f of
        Fn_MarkStreamActive cid did \<Rightarrow> ret (MarkStreamActive cid did)
      | Fn_MarkDgramReady cid \<Rightarrow> ret (MarkDgramReady cid)
      | Fn_DeleteDataContext cid did delete_on_empty \<Rightarrow> ret (DeleteDataContextInternal cid did delete_on_empty)
      | Fn_SetAppStreamCtx p sid \<Rightarrow>
          ret (seq (deref p) (\<lambda>_. update (call_pq (Pq_set_app_stream_ctx (fst p) sid (Some p)))))
      | Fn_StartClient \<Rightarrow> StartClient_function pq)"

text \<open>The loop of \<^verbatim>\<open>PqRunner\<close>, with a bound on its iterations. A function that returns something else than zero ends
  the loop; exceptions of a function are caught.\<close>

fun runner_loop :: "picoquic \<Rightarrow> nat \<Rightarrow> pq_return pq" where
  "runner_loop pq 0 t = (Inr Pq_return_0, t)"
| "runner_loop pq (Suc n) t =
     (let (f, q) = sq_Pop (pt_runner_queue t); t = t\<lparr>pt_runner_queue := q\<rparr> in
      case f of
        None \<Rightarrow> (Inr Pq_return_0, t)
      | Some f \<Rightarrow>
          (case run_function pq f t of
             (Inl Undefined_Behaviour, t') \<Rightarrow> (Inl Undefined_Behaviour, t')
           | (Inl _, t') \<Rightarrow> runner_loop pq n t'
           | (Inr ret, t') \<Rightarrow> if ret = Pq_return_0 then runner_loop pq n t' else (Inr ret, t')))"

definition PqRunner :: "picoquic \<Rightarrow> pq_return pq" where
  "PqRunner pq t =
     (if sq_Empty (pt_runner_queue t) then ok Pq_return_0 t else runner_loop pq (sq_Size (pt_runner_queue t) + 1) t)"

text \<open>One turn of the loop of \<^verbatim>\<open>CbNotifier\<close>; the functions read through the pointers they captured. \<open>None\<close> when the
  thread waits.\<close>

definition run_notification :: "notification \<Rightarrow> unit pq" where
  "run_notification n =
     (case n of
        Cb_ConnectionStatus cid status \<Rightarrow> update (delegate (Del_OnConnectionStatus cid status))
      | Cb_NewConnection cid txt port \<Rightarrow> update (delegate (Del_OnNewConnection cid txt port))
      | Cb_NewDataContext cid did \<Rightarrow> update (delegate (Del_OnNewDataContext cid did))
      | Cb_RecvDgram cid \<Rightarrow> seq (GetConnContext cid) (\<lambda>c. update (delegate (Del_OnRecvDgram (pc_conn_id c))))
      | Cb_RecvStream cid sid None \<Rightarrow>
          seq (GetConnContext cid) (\<lambda>c. update (delegate (Del_OnRecvStream (pc_conn_id c) sid None False)))
      | Cb_RecvStream cid sid (Some p) \<Rightarrow>
          seq (GetConnContext cid) (\<lambda>c. seq (deref p) (\<lambda>d.
          update (delegate (Del_OnRecvStream (pc_conn_id c) sid (Some (dc_data_ctx_id d)) (dc_is_bidir d)))))
      | Cb_StreamClosed cid sid rx flag \<Rightarrow> update (delegate (Del_OnStreamClosed cid sid rx flag)))"

definition CbNotifier_turn :: "PicoQuicTransport \<Rightarrow> (unit result \<times> PicoQuicTransport) option" where
  "CbNotifier_turn t =
     (if pt_stop t then None
      else case sq_BlockPop (pt_cbNotifyQueue t) of
        None \<Rightarrow> None
      | Some (None, q) \<Rightarrow> Some (ok () (t\<lparr>pt_cbNotifyQueue := q\<rparr>))
      | Some (Some n, q) \<Rightarrow> Some (run_notification n (t\<lparr>pt_cbNotifyQueue := q\<rparr>)))"

end
