(* ===== verification/Pico_Loop.thy ===== *)
theory Pico_Loop
  imports Pico_Events
begin

section \<open>The packet loop of picoquic\<close>

text \<open>
  What \<^verbatim>\<open>PqLoopCb\<close> does between packets: it runs the functions other threads left, removes the buffers of
  closed streams, samples metrics, looks for congestion, and ends the loop.
\<close>

subsection \<open>Closed streams and metrics\<close>

definition rx_expired :: "(rxptr \<Rightarrow> StreamRxContext) \<Rightarrow> RxStreamBuffer \<Rightarrow> bool" where
  "rx_expired rxs rb \<longleftrightarrow> rb_closed rb \<and> (sq_Empty (rx_queue (rxs (rb_rx_ctx rb))) \<or> rb_checked_once rb)"

definition remove_closed :: "(rxptr \<Rightarrow> StreamRxContext) \<Rightarrow> PqConnection \<Rightarrow> PqConnection" where
  "remove_closed rxs c =
     (let bufs = pc_rx_stream_buffer c;
          closed_streams = map fst (filter (\<lambda>(_, rb). rx_expired rxs rb) bufs);
          checked = map (\<lambda>(sid, rb). (sid, rb\<lparr>rb_checked_once := True\<rparr>)) bufs
      in c\<lparr>pc_rx_stream_buffer := fold map_erase closed_streams checked\<rparr>)"

definition RemoveClosedStreams :: "unit pq" where
  "RemoveClosedStreams = lock_guard (update (\<lambda>t.
     t\<lparr>pt_conn_context := map (\<lambda>(cid, c). (cid, remove_closed (pt_rx_contexts t) c)) (pt_conn_context t)\<rparr>))"

definition reset_metrics :: "PqConnection \<Rightarrow> PqConnection" where
  "reset_metrics c =
     c\<lparr>pc_active_data_contexts :=
         map (\<lambda>(did, d). (did, d\<lparr>dc_metrics := qd_ResetPeriod (dc_metrics d)\<rparr>)) (pc_active_data_contexts c),
       pc_metrics := qc_ResetPeriod (pc_metrics c)\<rparr>"

definition metrics_samples :: "u64 \<times> PqConnection \<Rightarrow> delegate_call list" where
  "metrics_samples cc =
     Del_OnConnectionMetricsSampled (fst cc) (pc_metrics (snd cc)) #
     map (\<lambda>(did, d). Del_OnDataMetricsStampled (fst cc) did (dc_metrics d)) (pc_active_data_contexts (snd cc))"

definition EmitMetrics :: "PicoQuicTransport \<Rightarrow> PicoQuicTransport" where
  "EmitMetrics t =
     t\<lparr>pt_delegate := pt_delegate t @ concat (map metrics_samples (pt_conn_context t)),
       pt_conn_context := map (\<lambda>(cid, c). (cid, reset_metrics c)) (pt_conn_context t)\<rparr>"

subsection \<open>Congestion\<close>

definition kPqRestWaitMinPriority :: u8 where "kPqRestWaitMinPriority = 4"

text \<open>One data context: the number of signs of congestion so far and the data context chosen for a reset and wait, zero for none.\<close>

definition check_data_ctx :: "u64 \<Rightarrow> DataContext \<Rightarrow> nat \<times> u64 \<Rightarrow> (DataContext \<times> nat \<times> u64) result" where
  "check_data_ctx did d acc =
     (let (congested_count, reset_wait_id) = acc; m = dc_metrics d in
      if dc_tx_reset_wait_discard d then Inr (d, acc)
      else case dc_tx_data d of
        None \<Rightarrow> Inl Undefined_Behaviour
      | Some q \<Rightarrow>
          let delayed = (dc_priority d \<ge> 2 \<and> qd_tx_delayed_callback m - qd_prev_tx_delayed_callback m > 1);
              backlog = (pq_Size q \<ge> 50);
              m = m\<lparr>qd_prev_tx_delayed_callback := qd_tx_delayed_callback m,
                    qd_tx_queue_size := AddValue (of_nat (pq_Size q)) (qd_tx_queue_size m)\<rparr>
          in Inr (d\<lparr>dc_metrics := m\<rparr>, congested_count + of_bool delayed + of_bool backlog,
               if dc_priority d \<ge> kPqRestWaitMinPriority \<and> dc_uses_reset_wait d \<and> reset_wait_id = 0 then did else reset_wait_id))"

fun check_data_ctxs :: "(u64, DataContext) std_map \<Rightarrow> nat \<times> u64 \<Rightarrow> ((u64, DataContext) std_map \<times> nat \<times> u64) result" where
  "check_data_ctxs [] acc = Inr ([], acc)"
| "check_data_ctxs ((did, d) # ds) acc =
     bind_result (check_data_ctx did d acc) (\<lambda>(d', acc').
     bind_result (check_data_ctxs ds acc') (\<lambda>(ds', acc'').
     Inr ((did, d') # ds', acc'')))"

definition sample_path :: "path_quality \<Rightarrow> QuicConnectionMetrics \<Rightarrow> QuicConnectionMetrics" where
  "sample_path pqual m =
     m\<lparr>qc_tx_lost_pkts := pq_lost pqual, qc_tx_cwin_bytes := AddValue (pq_cwin pqual) (qc_tx_cwin_bytes m),
       qc_tx_in_transit_bytes := AddValue (pq_bytes_in_transit pqual) (qc_tx_in_transit_bytes m),
       qc_tx_spurious_losses := pq_spurious_losses pqual, qc_tx_timer_losses := pq_timer_losses pqual,
       qc_rtt_us := AddValue (pq_rtt_sample pqual) (qc_rtt_us m), qc_srtt_us := AddValue (pq_rtt pqual) (qc_srtt_us m),
       qc_tx_rate_bps := AddValue (pq_pacing_rate pqual * 8) (qc_tx_rate_bps m),
       qc_rx_rate_bps := AddValue (pq_receive_rate_estimate pqual * 8) (qc_rx_rate_bps m),
       qc_prev_cwin_congested := qc_cwin_congested m\<rparr>"

text \<open>What a connection does about the signs of congestion that were counted.\<close>

definition act_on_congestion :: "bool \<Rightarrow> nat \<Rightarrow> u64 \<Rightarrow> PqConnection \<Rightarrow> PqConnection" where
  "act_on_congestion reset_wait_strategy congested_count reset_wait_id c =
     (if congested_count \<noteq> 0 then
        let c = c\<lparr>pc_is_congested := True, pc_metrics := (pc_metrics c)\<lparr>qc_tx_congested := qc_tx_congested (pc_metrics c) + 1\<rparr>\<rparr>
        in if reset_wait_strategy \<and> reset_wait_id > 0 then
             let d = map_at DataContext_new (pc_active_data_contexts c) reset_wait_id;
                 d = d\<lparr>dc_tx_reset_wait_discard := True, dc_metrics := (dc_metrics d)\<lparr>qd_tx_reset_wait := qd_tx_reset_wait (dc_metrics d) + 1\<rparr>\<rparr>
             in c\<lparr>pc_active_data_contexts := map_put reset_wait_id d (pc_active_data_contexts c)\<rparr>
           else c
      else if pc_is_congested c then
        if pc_not_congested_gauge c > 8 then c\<lparr>pc_is_congested := False, pc_not_congested_gauge := 0\<rparr>
        else c\<lparr>pc_not_congested_gauge := pc_not_congested_gauge c + 1\<rparr>
      else c)"

definition check_conn :: "picoquic \<Rightarrow> TransportConfig \<Rightarrow> u64 \<Rightarrow> PqConnection \<Rightarrow> PqConnection result" where
  "check_conn pq cfg cid c =
     (let cwin_congested_count = ucast (qc_cwin_congested (pc_metrics c) - qc_prev_cwin_congested (pc_metrics c)) :: u16;
          c = c\<lparr>pc_metrics := sample_path (get_path_quality pq cid) (pc_metrics c)\<rparr>
      in bind_result (check_data_ctxs (pc_active_data_contexts c) (0, 0)) (\<lambda>(ds, congested_count, reset_wait_id).
         let c = c\<lparr>pc_active_data_contexts := ds\<rparr>; m = pc_metrics c;
             retransmits = (cwin_congested_count \<noteq> 0 \<and> nb_retransmission_total pq cid - qc_tx_retransmits m > 2);
             c = (if retransmits then c\<lparr>pc_metrics := m\<lparr>qc_tx_retransmits := nb_retransmission_total pq cid\<rparr>\<rparr> else c)
         in Inr (act_on_congestion (use_reset_wait_strategy cfg) (congested_count + of_bool retransmits) reset_wait_id c)))"

fun check_conns :: "picoquic \<Rightarrow> TransportConfig \<Rightarrow> (u64, PqConnection) std_map \<Rightarrow> (u64, PqConnection) std_map result" where
  "check_conns pq cfg [] = Inr []"
| "check_conns pq cfg ((cid, c) # cs) =
     bind_result (check_conn pq cfg cid c) (\<lambda>c'. bind_result (check_conns pq cfg cs) (\<lambda>cs'. Inr ((cid, c') # cs')))"

definition CheckConnsForCongestion :: "picoquic \<Rightarrow> unit pq" where
  "CheckConnsForCongestion pq = lock_guard (\<lambda>t.
     case check_conns pq (pt_tconfig t) (pt_conn_context t) of
       Inl e \<Rightarrow> throw e t
     | Inr cs \<Rightarrow> ok () (t\<lparr>pt_conn_context := cs\<rparr>))"

subsection \<open>The callback\<close>

datatype loop_event =
    Loop_ready
  | Loop_time_check u64 int
  | Loop_wake_up
  | Loop_other

definition kPqLoopMaxDelayUs :: int where "kPqLoopMaxDelayUs = 5000"
definition kMetricsIntervalUs :: u64 where "kMetricsIntervalUs = 5000000"
definition kCongestionCheckInterval :: u64 where "kCongestionCheckInterval = 100000"

fun close_all :: "u64 list \<Rightarrow> unit pq" where
  "close_all [] = ok ()"
| "close_all (cid # cids) = seq (Close cid 100) (\<lambda>_. close_all cids)"

definition loop_metrics :: "u64 \<Rightarrow> unit pq" where
  "loop_metrics now t =
     (if now - pt_loop_metrics_prev_time t \<ge> kMetricsIntervalUs then
        seq RemoveClosedStreams (\<lambda>_.
        seq (if pt_loop_metrics_prev_time t \<noteq> 0 then update EmitMetrics else ok ()) (\<lambda>_.
        update (\<lambda>t. t\<lparr>pt_loop_metrics_prev_time := now\<rparr>))) t
      else ok () t)"

definition loop_congestion :: "picoquic \<Rightarrow> u64 \<Rightarrow> unit pq" where
  "loop_congestion pq now t =
     (if now - pt_loop_prev_time t > kCongestionCheckInterval then
        seq (CheckConnsForCongestion pq) (\<lambda>_. update (\<lambda>t. t\<lparr>pt_loop_prev_time := now\<rparr>)) t
      else ok () t)"

definition loop_shutdown :: "picoquic \<Rightarrow> pq_return pq" where
  "loop_shutdown pq t =
     (if pt_status t = TransportStatus_kShutdown then ok Pq_return_terminate t
      else if pt_status t = TransportStatus_kShuttingDown then
        if cnx_list pq = [] then ok Pq_return_terminate t
        else
          seq (close_all (cnx_list pq)) (\<lambda>_.
          seq (update (SetStatus TransportStatus_kShutdown)) (\<lambda>_. ok Pq_return_0)) t
      else ok Pq_return_0 t)"

text \<open>The result, with the delay until the next check that is asked of picoquic.\<close>

definition PqLoopCb :: "picoquic \<Rightarrow> loop_event \<Rightarrow> (pq_return \<times> int option) pq" where
  "PqLoopCb pq event t =
     (if pt_status t = TransportStatus_kDisconnected then ok (Pq_return_terminate, None) t
      else case event of
        Loop_ready \<Rightarrow>
          ok (Pq_return_0, None) (if pt_is_server_mode t then SetStatus TransportStatus_kReady t else t)
      | Loop_time_check now delta_t \<Rightarrow>
          seq (update (\<lambda>t. if pt_loop_prev_time t = 0 then t\<lparr>pt_loop_prev_time := now\<rparr> else t)) (\<lambda>_.
          seq (loop_metrics now) (\<lambda>_.
          seq (loop_congestion pq now) (\<lambda>_.
          seq (loop_shutdown pq) (\<lambda>r.
          ok (r, Some (min delta_t kPqLoopMaxDelayUs)))))) t
      | Loop_wake_up \<Rightarrow> seq (PqRunner pq) (\<lambda>_. ok (Pq_return_0, None)) t
      | Loop_other \<Rightarrow> ok (Pq_return_0, None) t)"

end
