(* ===== verification/Pico_Frame.thy ===== *)
theory Pico_Frame
  imports Pico_Loop
begin

section \<open>Reading and writing the state of the picoquic transport\<close>

text \<open>
  How the accessors of the state commute: finding what was put, and what a call into picoquic or a change of one
  data context leaves alone. With these equations an operation on a data context that exists is computed by
  rewriting.
\<close>

lemma conn_find_put [simp]: "conn_find cid (conn_put cid' c t) = (if cid = cid' then Some c else conn_find cid t)"
  by (simp add: conn_find_def conn_put_def map_find_put)

lemma conn_find_cong [simp]:
  "conn_find cid (call_pq k t) = conn_find cid t"
  "conn_find cid (t\<lparr>pt_state_mutex := l\<rparr>) = conn_find cid t"
  "conn_find cid (t\<lparr>pt_runner_queue := rq\<rparr>) = conn_find cid t"
  "conn_find cid (t\<lparr>pt_cbNotifyQueue := nq\<rparr>) = conn_find cid t"
  "conn_find cid (t\<lparr>pt_calls := cs\<rparr>) = conn_find cid t"
  "conn_find cid (t\<lparr>pt_rx_contexts := rxs\<rparr>) = conn_find cid t"
  "conn_find cid (t\<lparr>pt_next_rx := nr\<rparr>) = conn_find cid t"
  "conn_find cid (RunPqFunction f t) = conn_find cid t"
  "conn_find cid (notify n t) = conn_find cid t"
  "conn_find cid (SetStatus s t) = conn_find cid t"
  "conn_find cid (delegate dc t) = conn_find cid t"
  by (simp_all add: conn_find_def call_pq_def RunPqFunction_def notify_def SetStatus_def delegate_def)

lemma conn_find_mod: "conn_find cid (conn_mod cid' f t) = (if cid = cid' then map_option f (conn_find cid t) else conn_find cid t)"
  by (auto simp: conn_mod_def split: option.splits)

lemma dc_find_cong [simp]:
  "dc_find p (call_pq k t) = dc_find p t"
  "dc_find p (t\<lparr>pt_state_mutex := l\<rparr>) = dc_find p t"
  "dc_find p (t\<lparr>pt_runner_queue := rq\<rparr>) = dc_find p t"
  "dc_find p (t\<lparr>pt_cbNotifyQueue := nq\<rparr>) = dc_find p t"
  "dc_find p (t\<lparr>pt_calls := cs\<rparr>) = dc_find p t"
  "dc_find p (t\<lparr>pt_rx_contexts := rxs\<rparr>) = dc_find p t"
  "dc_find p (t\<lparr>pt_next_rx := nr\<rparr>) = dc_find p t"
  "dc_find p (RunPqFunction f t) = dc_find p t"
  "dc_find p (notify n t) = dc_find p t"
  "dc_find p (SetStatus s t) = dc_find p t"
  "dc_find p (delegate dc t) = dc_find p t"
  by (simp_all add: dc_find_def)

lemma dc_find_conn: "dc_find p t = Some d \<Longrightarrow> \<exists>c. conn_find (fst p) t = Some c \<and> map_find (pc_active_data_contexts c) (snd p) = Some d"
  by (auto simp: dc_find_def split: option.splits)

lemma dc_find_put: "dc_find p t = Some d \<Longrightarrow> dc_find q (dc_put p d' t) = (if q = p then Some d' else dc_find q t)"
  by (auto simp: dc_find_def dc_put_def conn_find_mod map_find_put prod_eq_iff split: option.splits)

lemma dc_find_conn_mod:
  "(\<And>c. pc_active_data_contexts (f c) = pc_active_data_contexts c) \<Longrightarrow> dc_find p (conn_mod cid f t) = dc_find p t"
  by (auto simp: dc_find_def conn_find_mod split: option.splits)

lemma dc_find_conn_met [simp]: "dc_find p (conn_met cid f t) = dc_find p t"
  by (simp add: conn_met_def dc_find_conn_mod)

lemma conn_put_put [simp]: "conn_put cid c (conn_put cid c' t) = conn_put cid c t"
  by (simp add: conn_put_def)

lemma dc_put_put [simp]: "dc_put p d (dc_put p d' t) = dc_put p d t"
  by (auto simp: dc_put_def conn_mod_def split: option.splits)

lemma conn_put_cong [simp]:
  "pt_calls (conn_put cid c t) = pt_calls t" "pt_state_mutex (conn_put cid c t) = pt_state_mutex t"
  "pt_tconfig (conn_put cid c t) = pt_tconfig t" "pt_runner_queue (conn_put cid c t) = pt_runner_queue t"
  "pt_cbNotifyQueue (conn_put cid c t) = pt_cbNotifyQueue t" "pt_is_server_mode (conn_put cid c t) = pt_is_server_mode t"
  "pt_rx_contexts (conn_put cid c t) = pt_rx_contexts t" "pt_status (conn_put cid c t) = pt_status t"
  by (simp_all add: conn_put_def)

lemma conn_mod_cong [simp]:
  "pt_calls (conn_mod cid f t) = pt_calls t" "pt_state_mutex (conn_mod cid f t) = pt_state_mutex t"
  "pt_tconfig (conn_mod cid f t) = pt_tconfig t" "pt_runner_queue (conn_mod cid f t) = pt_runner_queue t"
  "pt_cbNotifyQueue (conn_mod cid f t) = pt_cbNotifyQueue t" "pt_is_server_mode (conn_mod cid f t) = pt_is_server_mode t"
  "pt_rx_contexts (conn_mod cid f t) = pt_rx_contexts t" "pt_status (conn_mod cid f t) = pt_status t"
  by (simp_all add: conn_mod_def split: option.splits)

lemma dc_put_cong [simp]:
  "pt_calls (dc_put p d t) = pt_calls t" "pt_state_mutex (dc_put p d t) = pt_state_mutex t"
  "pt_tconfig (dc_put p d t) = pt_tconfig t" "pt_runner_queue (dc_put p d t) = pt_runner_queue t"
  "pt_cbNotifyQueue (dc_put p d t) = pt_cbNotifyQueue t" "pt_is_server_mode (dc_put p d t) = pt_is_server_mode t"
  "pt_rx_contexts (dc_put p d t) = pt_rx_contexts t" "pt_status (dc_put p d t) = pt_status t"
  by (simp_all add: dc_put_def)

lemma call_pq_cong [simp]:
  "pt_calls (call_pq k t) = pt_calls t @ [k]" "pt_state_mutex (call_pq k t) = pt_state_mutex t"
  "pt_tconfig (call_pq k t) = pt_tconfig t" "pt_runner_queue (call_pq k t) = pt_runner_queue t"
  "pt_cbNotifyQueue (call_pq k t) = pt_cbNotifyQueue t" "pt_is_server_mode (call_pq k t) = pt_is_server_mode t"
  "pt_rx_contexts (call_pq k t) = pt_rx_contexts t" "pt_status (call_pq k t) = pt_status t"
  "pt_conn_context (call_pq k t) = pt_conn_context t"
  by (simp_all add: call_pq_def)

lemma RunPqFunction_cong [simp]:
  "pt_calls (RunPqFunction f t) = pt_calls t @ [Pq_wake_up_network_thread]"
  "pt_state_mutex (RunPqFunction f t) = pt_state_mutex t" "pt_tconfig (RunPqFunction f t) = pt_tconfig t"
  "pt_runner_queue (RunPqFunction f t) = snd (sq_Push f (pt_runner_queue t))"
  "pt_is_server_mode (RunPqFunction f t) = pt_is_server_mode t" "pt_conn_context (RunPqFunction f t) = pt_conn_context t"
  by (simp_all add: RunPqFunction_def)

lemma notify_cong [simp]:
  "pt_calls (notify n t) = pt_calls t" "pt_state_mutex (notify n t) = pt_state_mutex t"
  "pt_tconfig (notify n t) = pt_tconfig t" "pt_runner_queue (notify n t) = pt_runner_queue t"
  "pt_is_server_mode (notify n t) = pt_is_server_mode t" "pt_conn_context (notify n t) = pt_conn_context t"
  by (simp_all add: notify_def)

text \<open>Changes of the data contexts are done first.\<close>

lemma dc_put_commute [simp]:
  "dc_put p d (call_pq k t) = call_pq k (dc_put p d t)"
  "dc_put p d (t\<lparr>pt_state_mutex := l\<rparr>) = (dc_put p d t)\<lparr>pt_state_mutex := l\<rparr>"
  "dc_put p d (RunPqFunction f t) = RunPqFunction f (dc_put p d t)"
  "(call_pq k t)\<lparr>pt_state_mutex := l\<rparr> = call_pq k (t\<lparr>pt_state_mutex := l\<rparr>)"
  "(RunPqFunction f t)\<lparr>pt_state_mutex := l\<rparr> = RunPqFunction f (t\<lparr>pt_state_mutex := l\<rparr>)"
  by (simp_all add: dc_put_def conn_mod_def conn_put_def conn_find_def call_pq_def RunPqFunction_def split: option.splits)

text \<open>Through a pointer to a data context that exists.\<close>

lemma deref_live: "dc_find p t = Some d \<Longrightarrow> deref p t = (Inr d, t)"
  by (simp add: deref_def)

lemma dc_mod_live: "dc_find p t = Some d \<Longrightarrow> dc_mod p f t = (Inr (), dc_put p (f d) t)"
  by (simp add: dc_mod_def)

lemma tx_queue_live: "dc_find p t = Some d \<Longrightarrow> dc_tx_data d = Some q \<Longrightarrow> tx_queue p t = (Inr q, t)"
  by (simp add: tx_queue_def seq_eq(1) [OF deref_live])

lemma seq_deref: "dc_find p t = Some d \<Longrightarrow> seq (deref p) f t = f d t"
  by (rule seq_eq(1) [OF deref_live])

lemma seq_dc_mod: "dc_find p t = Some d \<Longrightarrow> seq (dc_mod p g) f t = f () (dc_put p (g d) t)"
  by (rule seq_eq(1) [OF dc_mod_live])

lemma seq_tx_queue: "dc_find p t = Some d \<Longrightarrow> dc_tx_data d = Some q \<Longrightarrow> seq (tx_queue p) f t = f q t"
  by (rule seq_eq(1) [OF tx_queue_live])

lemma seq_GetConnContext: "conn_find cid t = Some c \<Longrightarrow> seq (GetConnContext cid) f t = f c t"
  by (rule seq_eq(1)) (simp add: GetConnContext_def)

lemma seq_lift: "r = Inr x \<Longrightarrow> seq (lift_result r) f t = f x t"
  by (rule seq_eq(1)) (simp add: lift_result_def)

lemma seq_assoc: "seq (seq m f) g t = seq m (\<lambda>x. seq (f x) g) t"
  by (simp add: seq_def split: prod.split sum.split)

lemma lock_guard_eq: "\<not> pt_state_mutex t \<Longrightarrow> m (t\<lparr>pt_state_mutex := True\<rparr>) = (r, t') \<Longrightarrow> lock_guard m t = (r, t'\<lparr>pt_state_mutex := False\<rparr>)"
  by (simp add: lock_guard_def)

lemmas live_simps = seq_deref seq_dc_mod seq_tx_queue seq_assoc dc_mod_live dc_find_put dc_met_def put_tx_queue_def

end
