(* ===== verification/Pico_Pointers.thy ===== *)
theory Pico_Pointers
  imports Pico_Frame
begin

section \<open>No dangling stream contexts\<close>

text \<open>
  The transport registers pointers to its data contexts with picoquic, which passes them back in callbacks. Here it
  is shown that, for the connections the transport has, every pointer picoquic holds points to a data context that
  exists, and that the stream it was registered for is the current stream of that context.
\<close>

subsection \<open>What picoquic holds\<close>

text \<open>The context of each stream of each connection, as the calls set it. A connection that was just created has no
  streams; closing one leaves the contexts of its streams as they are.\<close>

fun app_step :: "pq_call \<Rightarrow> (u64 \<times> u64 \<Rightarrow> dptr option) \<Rightarrow> u64 \<times> u64 \<Rightarrow> dptr option" where
  "app_step (Pq_set_app_stream_ctx cid sid p) f = f((cid, sid) := p)"
| "app_step (Pq_mark_active_stream cid sid _ p) f = f((cid, sid) := p)"
| "app_step (Pq_reset_stream_ctx cid sid) f = f((cid, sid) := None)"
| "app_step (Pq_unlink_app_stream_ctx cid sid) f = f((cid, sid) := None)"
| "app_step (Pq_create_cnx cid) f = (\<lambda>x. if fst x = cid then None else f x)"
| "app_step _ f = f"

definition app_ctx :: "pq_call list \<Rightarrow> u64 \<times> u64 \<Rightarrow> dptr option" where
  "app_ctx calls = fold app_step calls (\<lambda>_. None)"

lemma app_ctx_simps [simp]: "app_ctx [] = (\<lambda>_. None)" "app_ctx (xs @ ys) = fold app_step ys (app_ctx xs)"
  by (simp_all add: app_ctx_def)

text \<open>A call that registers nothing.\<close>

definition harmless :: "pq_call \<Rightarrow> bool" where
  "harmless k \<longleftrightarrow> (\<forall>f x p. app_step k f x = Some p \<longrightarrow> f x = Some p)"

lemma harmlessD: "harmless k \<Longrightarrow> app_step k f x = Some p \<Longrightarrow> f x = Some p"
  unfolding harmless_def by blast

lemma harmless_simps [simp]:
  "harmless (Pq_mark_active_stream cid sid b None)" "harmless (Pq_reset_stream_ctx cid sid)" "harmless (Pq_unlink_app_stream_ctx cid sid)"
  "harmless (Pq_close cid r)" "harmless (Pq_set_app_stream_ctx cid sid None)" "harmless (Pq_set_stream_priority cid sid pr)"
  "harmless (Pq_reset_stream cid sid r)" "harmless (Pq_add_to_stream cid sid data b)" "harmless (Pq_mark_datagram_ready cid b)"
  "harmless (Pq_set_datagram_priority cid pr)" "harmless (Pq_provide_stream_data_buffer n m b b')" "harmless (Pq_provide_datagram_buffer n m b)"
  "harmless (Pq_write n data)" "harmless (Pq_enable_keep_alive cid r)" "harmless (Pq_set_feedback_loss_notification cid)"
  "harmless (Pq_set_callback cid b)" "harmless (Pq_set_priority_limit_for_bypass cid pr)" "harmless Pq_wake_up_network_thread"
  "harmless (Pq_create_cnx cid)" "harmless (Pq_set_transport_parameters cid)" "harmless (Pq_start_client_cnx cid)"
  by (auto simp: harmless_def split: if_splits)

subsection \<open>The invariant\<close>

fun by_id :: "pq_function \<Rightarrow> bool" where
  "by_id (Fn_SetAppStreamCtx _ _) = False"
| "by_id _ = True"

text \<open>A pointer that is held for a stream: it points into the connection of the stream and, when the transport has the
  connection, to a data context whose current stream it is.\<close>

definition held_ok :: "PicoQuicTransport \<Rightarrow> u64 \<Rightarrow> u64 \<Rightarrow> dptr \<Rightarrow> bool" where
  "held_ok t cid sid p \<longleftrightarrow>
     fst p = cid \<and> (conn_find cid t = None \<or> (\<exists>d. dc_find p t = Some d \<and> dc_current_stream_id d = Some sid))"

definition ptr_inv :: "PicoQuicTransport \<Rightarrow> bool" where
  "ptr_inv t \<longleftrightarrow>
     (\<forall>cid sid p. app_ctx (pt_calls t) (cid, sid) = Some p \<longrightarrow> held_ok t cid sid p) \<and>
     (\<forall>p d. dc_find p t = Some d \<longrightarrow> dc_conn_id d = fst p \<and> dc_data_ctx_id d = snd p) \<and>
     (\<forall>f \<in> set (sq_queue (pt_runner_queue t)). by_id f)"

lemma ptr_invD:
  assumes "ptr_inv t"
  shows "app_ctx (pt_calls t) (cid, sid) = Some p \<Longrightarrow> held_ok t cid sid p"
    and "dc_find p t = Some d \<Longrightarrow> dc_conn_id d = fst p \<and> dc_data_ctx_id d = snd p"
    and "f \<in> set (sq_queue (pt_runner_queue t)) \<Longrightarrow> by_id f"
  using assms unfolding ptr_inv_def by blast+

lemma ptr_invI:
  assumes "\<And>cid sid p. app_ctx (pt_calls t) (cid, sid) = Some p \<Longrightarrow> held_ok t cid sid p"
    "\<And>p d. dc_find p t = Some d \<Longrightarrow> dc_conn_id d = fst p \<and> dc_data_ctx_id d = snd p"
    "\<And>f. f \<in> set (sq_queue (pt_runner_queue t)) \<Longrightarrow> by_id f"
  shows "ptr_inv t"
  using assms unfolding ptr_inv_def by blast

text \<open>The state matters only through its connections and contexts.\<close>

lemma held_ok_cong:
  assumes "\<And>cid. conn_find cid t = None \<Longrightarrow> conn_find cid t' = None" "dc_find p t' = dc_find p t" "held_ok t cid sid p"
  shows "held_ok t' cid sid p"
  using assms by (auto simp: held_ok_def)

lemma held_ok_simps [simp]:
  "held_ok (call_pq k t) = held_ok t" "held_ok (RunPqFunction f t) = held_ok t"
  "held_ok (t\<lparr>pt_runner_queue := q\<rparr>) = held_ok t"
  by (simp_all add: fun_eq_iff held_ok_def)

text \<open>What the invariant sees of a data context.\<close>

definition same_ids :: "(DataContext \<Rightarrow> DataContext) \<Rightarrow> bool" where
  "same_ids f \<longleftrightarrow> (\<forall>d. dc_conn_id (f d) = dc_conn_id d \<and> dc_data_ctx_id (f d) = dc_data_ctx_id d \<and> dc_current_stream_id (f d) = dc_current_stream_id d)"

lemma ptr_inv_cong:
  assumes "ptr_inv t" "pt_calls t' = pt_calls t" "pt_conn_context t' = pt_conn_context t" "pt_runner_queue t' = pt_runner_queue t"
  shows "ptr_inv t'"
proof -
  have same: "conn_find cid t' = conn_find cid t" "dc_find p t' = dc_find p t" for cid p
    using assms(3) by (simp_all add: dc_find_def conn_find_def)
  then show ?thesis using ptr_invD [OF assms(1)] assms(2,4) by (intro ptr_invI) (simp_all add: held_ok_def)
qed

lemma ptr_inv_call:
  assumes "ptr_inv t" "harmless k" shows "ptr_inv (call_pq k t)"
proof (rule ptr_invI)
  fix cid sid p assume "app_ctx (pt_calls (call_pq k t)) (cid, sid) = Some p"
  then have "app_ctx (pt_calls t) (cid, sid) = Some p" using harmlessD [OF assms(2)] by simp
  then show "held_ok (call_pq k t) cid sid p" using ptr_invD(1) [OF assms(1)] by simp
qed (use ptr_invD(2,3) [OF assms(1)] in simp_all)

definition ids :: "DataContext \<Rightarrow> u64 \<times> u64 \<times> u64 option" where
  "ids d = (dc_conn_id d, dc_data_ctx_id d, dc_current_stream_id d)"

lemma held_ok_ids:
  assumes "held_ok t cid sid p" "\<And>cid. conn_find cid t = None \<Longrightarrow> conn_find cid t' = None"
    "map_option ids (dc_find p t') = map_option ids (dc_find p t)"
  shows "held_ok t' cid sid p"
  using assms by (fastforce simp: held_ok_def ids_def)

lemma ptr_inv_contexts:
  assumes "ptr_inv t" "pt_calls t' = pt_calls t" "pt_runner_queue t' = pt_runner_queue t"
    "\<And>p. map_option ids (dc_find p t') = map_option ids (dc_find p t)"
    "\<And>cid. conn_find cid t = None \<Longrightarrow> conn_find cid t' = None"
  shows "ptr_inv t'"
proof (rule ptr_invI)
  fix cid sid p assume "app_ctx (pt_calls t') (cid, sid) = Some p"
  then have "held_ok t cid sid p" using ptr_invD(1) [OF assms(1)] assms(2) by simp
  then show "held_ok t' cid sid p" using held_ok_ids assms(4,5) by blast
next
  fix p d assume "dc_find p t' = Some d"
  then obtain d0 where "dc_find p t = Some d0" "ids d = ids d0" using assms(4) [of p] by (cases "dc_find p t") auto
  then show "dc_conn_id d = fst p \<and> dc_data_ctx_id d = snd p" using ptr_invD(2) [OF assms(1)] by (simp add: ids_def)
qed (use ptr_invD(3) [OF assms(1)] assms(3) in simp)

lemma conn_find_dc_put_None [simp]: "conn_find cid (dc_put p d t) = None \<longleftrightarrow> conn_find cid t = None"
  by (auto simp: dc_put_def conn_find_mod)

lemma ptr_inv_dc_put:
  assumes "ptr_inv t" "dc_find p t = Some d" "dc_conn_id d' = fst p" "dc_data_ctx_id d' = snd p"
    "dc_current_stream_id d' = dc_current_stream_id d \<or> (\<forall>x. app_ctx (pt_calls t) x \<noteq> Some p)"
  shows "ptr_inv (dc_put p d' t)"
proof (rule ptr_invI)
  fix cid sid r assume "app_ctx (pt_calls (dc_put p d' t)) (cid, sid) = Some r"
  then have r: "app_ctx (pt_calls t) (cid, sid) = Some r" by simp
  then show "held_ok (dc_put p d' t) cid sid r"
    using ptr_invD(1) [OF assms(1) r] assms(2,5) by (auto simp: dc_find_put held_ok_def)
qed (use ptr_invD(2,3) [OF assms(1)] assms(2-4) in \<open>auto simp: dc_find_put split: if_splits\<close>)

lemma ptr_inv_conn_mod:
  "ptr_inv t \<Longrightarrow> (\<And>c. pc_active_data_contexts (f c) = pc_active_data_contexts c) \<Longrightarrow> ptr_inv (conn_mod cid f t)"
  by (rule ptr_inv_contexts) (auto simp: dc_find_conn_mod conn_find_mod)

lemma ptr_inv_conn_put:
  assumes "ptr_inv t" "conn_find cid t = Some c" "pc_active_data_contexts c' = pc_active_data_contexts c"
  shows "ptr_inv (conn_put cid c' t)"
proof (rule ptr_inv_contexts [OF assms(1)])
  show "map_option ids (dc_find p (conn_put cid c' t)) = map_option ids (dc_find p t)" for p
    using assms(2,3) by (simp add: dc_find_def)
qed (use assms(2) in auto)

text \<open>A new connection, for which picoquic holds nothing, and a new data context: nothing points to it yet.\<close>

definition fresh_conn :: "u64 \<Rightarrow> PicoQuicTransport \<Rightarrow> bool" where
  "fresh_conn cid t \<longleftrightarrow> (\<forall>sid. app_ctx (pt_calls t) (cid, sid) = None)"

lemma ptr_inv_new_conn:
  assumes "ptr_inv t" "conn_find cid t = None" "pc_active_data_contexts c = []" "fresh_conn cid t"
  shows "ptr_inv (conn_put cid c t)"
proof -
  have same: "dc_find p (conn_put cid c t) = dc_find p t" for p using assms(2,3) by (simp add: dc_find_def)
  have "held_ok (conn_put cid c t) cid' sid p" if "app_ctx (pt_calls t) (cid', sid) = Some p" for cid' sid p
    using ptr_invD(1) [OF assms(1) that] that assms(4) same by (auto simp: held_ok_def fresh_conn_def)
  then show ?thesis using ptr_invD [OF assms(1)] same by (intro ptr_invI) simp_all
qed

lemma ptr_inv_new_context:
  assumes "ptr_inv t" "conn_find cid t = Some c" "map_find (pc_active_data_contexts c) did = None"
    "dc_conn_id d = cid" "dc_data_ctx_id d = did" "pc_active_data_contexts c' = map_put did d (pc_active_data_contexts c)"
  shows "ptr_inv (conn_put cid c' t)"
proof -
  have f: "dc_find p (conn_put cid c' t) = (if p = (cid, did) then Some d else dc_find p t)" for p
    using assms(2,6) by (cases p) (auto simp: dc_find_def map_find_put)
  have n: "dc_find (cid, did) t = None" using assms(2,3) by (simp add: dc_find_def)
  show ?thesis
  proof (rule ptr_invI)
    fix cid' sid r assume "app_ctx (pt_calls (conn_put cid c' t)) (cid', sid) = Some r"
    then have "held_ok t cid' sid r" using ptr_invD(1) [OF assms(1)] by simp
    then show "held_ok (conn_put cid c' t) cid' sid r" using n assms(2) unfolding held_ok_def f by auto
  next
    fix r d' assume "dc_find r (conn_put cid c' t) = Some d'"
    then show "dc_conn_id d' = fst r \<and> dc_data_ctx_id d' = snd r"
      using ptr_invD(2) [OF assms(1)] assms(4,5) unfolding f by (auto split: if_splits)
  qed (use ptr_invD(3) [OF assms(1)] in simp)
qed

text \<open>Removing a data context to which nothing points, and a connection.\<close>

lemma ptr_inv_erase:
  assumes "ptr_inv t" "\<forall>x. app_ctx (pt_calls t) x \<noteq> Some (cid, did)"
  shows "ptr_inv (conn_mod cid (\<lambda>c. c\<lparr>pc_active_data_contexts := map_erase did (pc_active_data_contexts c)\<rparr>) t)"
proof -
  let ?t = "conn_mod cid (\<lambda>c. c\<lparr>pc_active_data_contexts := map_erase did (pc_active_data_contexts c)\<rparr>) t"
  have f: "dc_find p ?t = (if p = (cid, did) then None else dc_find p t)" for p
    by (cases p) (auto simp: dc_find_def conn_find_mod map_erase_find split: option.splits)
  show ?thesis
  proof (rule ptr_invI)
    fix cid' sid r assume "app_ctx (pt_calls ?t) (cid', sid) = Some r"
    then have "app_ctx (pt_calls t) (cid', sid) = Some r" by simp
    then show "held_ok ?t cid' sid r"
      using ptr_invD(1) [OF assms(1)] assms(2) unfolding held_ok_def f by (fastforce simp: conn_find_mod)
  qed (use ptr_invD(2,3) [OF assms(1)] in \<open>auto simp: f split: if_splits\<close>)
qed

lemma ptr_inv_closed:
  assumes "ptr_inv t"
  shows "ptr_inv (t\<lparr>pt_conn_context := map_erase cid (pt_conn_context t)\<rparr>)"
proof -
  have f: "dc_find p (t\<lparr>pt_conn_context := map_erase cid (pt_conn_context t)\<rparr>) = (if fst p = cid then None else dc_find p t)" for p
    by (simp add: dc_find_def conn_find_def map_erase_find)
  let ?t = "t\<lparr>pt_conn_context := map_erase cid (pt_conn_context t)\<rparr>"
  show ?thesis
  proof (rule ptr_invI)
    fix cid' sid r assume "app_ctx (pt_calls ?t) (cid', sid) = Some r"
    then have "app_ctx (pt_calls t) (cid', sid) = Some r" by simp
    then have "held_ok t cid' sid r" by (rule ptr_invD(1) [OF assms])
    moreover have "conn_find cid' ?t = (if cid' = cid then None else conn_find cid' t)"
      by (simp add: conn_find_def map_erase_find)
    ultimately show "held_ok ?t cid' sid r" unfolding held_ok_def f by auto
  qed (use ptr_invD(2,3) [OF assms(1)] in \<open>auto simp: f split: if_splits\<close>)
qed

lemma ptr_inv_run:
  assumes "ptr_inv t" "by_id f" shows "ptr_inv (RunPqFunction f t)"
proof -
  have "set (sq_queue (snd (sq_Push f q))) \<subseteq> insert f (set (sq_queue q))" for q
    by (auto simp: sq_Push_def dest: list.set_sel(2))
  then have "g \<in> set (sq_queue (pt_runner_queue (RunPqFunction f t))) \<Longrightarrow> by_id g" for g
    using ptr_invD(3) [OF assms(1)] assms(2) by auto
  then show ?thesis using ptr_invD [OF assms(1)] by (intro ptr_invI) simp_all
qed

subsection \<open>Operations that keep the invariant\<close>

text \<open>An operation keeps it when it holds afterwards, unless the operation ended in undefined behaviour.\<close>

definition good :: "'a result \<times> PicoQuicTransport \<Rightarrow> bool" where
  "good rt \<longleftrightarrow> fst rt = Inl Undefined_Behaviour \<or> ptr_inv (snd rt)"

definition keeps :: "'a pq \<Rightarrow> bool" where
  "keeps m \<longleftrightarrow> (\<forall>t. ptr_inv t \<longrightarrow> good (m t))"

lemma keepsI: "(\<And>t. ptr_inv t \<Longrightarrow> good (m t)) \<Longrightarrow> keeps m"
  by (simp add: keeps_def)

lemma keepsD: "keeps m \<Longrightarrow> ptr_inv t \<Longrightarrow> good (m t)"
  by (simp add: keeps_def)

lemma good_simps [simp]: "good (Inl Undefined_Behaviour, t)" "good (Inr x, t) = ptr_inv t"
  by (simp_all add: good_def)

lemma good_seq: "good (m t) \<Longrightarrow> (\<And>x t'. m t = (Inr x, t') \<Longrightarrow> ptr_inv t' \<Longrightarrow> good (f x t')) \<Longrightarrow> good (seq m f t)"
  by (cases "m t") (auto simp: seq_def good_def split: sum.splits)

lemma keeps_seq: "keeps m \<Longrightarrow> (\<And>x. keeps (f x)) \<Longrightarrow> keeps (seq m f)"
  by (rule keepsI, rule good_seq) (simp_all add: keepsD)

lemma keeps_ok: "keeps (ok x)" "keeps (throw Undefined_Behaviour)"
  by (simp_all add: keeps_def)

lemma keeps_throw: "keeps (throw e)" "keeps (lift_result r)"
  by (simp_all add: keeps_def good_def lift_result_def)

lemma keeps_read: "keeps (deref p)" "keeps (GetConnContext cid)" "keeps (tx_queue p)"
proof -
  show d: "keeps (deref p)" by (simp add: keeps_def good_def deref_def split: option.split)
  show "keeps (GetConnContext cid)" by (simp add: keeps_def good_def GetConnContext_def split: option.split)
  show "keeps (tx_queue p)" unfolding tx_queue_def by (rule keeps_seq [OF d]) (simp split: option.split add: keeps_ok)
qed

lemma keeps_if: "(b \<Longrightarrow> keeps m) \<Longrightarrow> (\<not> b \<Longrightarrow> keeps m') \<Longrightarrow> keeps (if b then m else m')"
  by simp

lemma keeps_option: "(x = None \<Longrightarrow> keeps m) \<Longrightarrow> (\<And>y. x = Some y \<Longrightarrow> keeps (f y)) \<Longrightarrow> keeps (case x of None \<Rightarrow> m | Some y \<Rightarrow> f y)"
  by (simp split: option.split)

lemma keeps_prod: "(\<And>a b. x = (a, b) \<Longrightarrow> keeps (f a b)) \<Longrightarrow> keeps (case x of (a, b) \<Rightarrow> f a b)"
  by (simp split: prod.split)

lemma keeps_Let: "keeps (f x) \<Longrightarrow> keeps (let y = x in f y)"
  by simp

lemma keeps_update: "(\<And>t. ptr_inv t \<Longrightarrow> ptr_inv (u t)) \<Longrightarrow> keeps (update u)"
  by (simp add: keeps_def)

lemma keeps_call: "harmless k \<Longrightarrow> keeps (update (call_pq k))"
  by (simp add: keeps_update ptr_inv_call)

lemma keeps_run: "by_id f \<Longrightarrow> keeps (update (RunPqFunction f))"
  by (simp add: keeps_update ptr_inv_run)

lemma keeps_notify: "keeps (update (notify n))"
  by (rule keeps_update, erule ptr_inv_cong) simp_all

lemma keeps_status: "keeps (update (SetStatus s))"
  by (rule keeps_update, erule ptr_inv_cong) (simp_all add: SetStatus_def)

lemma keeps_conn_mod: "(\<And>c. pc_active_data_contexts (f c) = pc_active_data_contexts c) \<Longrightarrow> keeps (update (conn_mod cid f))"
  by (simp add: keeps_update ptr_inv_conn_mod)

lemma keeps_conn_met: "keeps (update (conn_met cid g))"
  unfolding conn_met_def by (rule keeps_conn_mod) simp

lemma keeps_dc_mod: "same_ids f \<Longrightarrow> keeps (dc_mod p f)"
  by (rule keepsI) (auto simp: dc_mod_def same_ids_def split: option.split intro!: ptr_inv_dc_put dest: ptr_invD(2))

lemma keeps_dc_met: "keeps (dc_met p f)"
  unfolding dc_met_def by (rule keeps_dc_mod) (simp add: same_ids_def)

lemma keeps_put_tx_queue: "keeps (put_tx_queue p q)"
  unfolding put_tx_queue_def by (rule keeps_dc_mod) (simp add: same_ids_def)

lemma keeps_lock_guard: "keeps m \<Longrightarrow> keeps (lock_guard m)"
proof (rule keepsI)
  fix t assume m: "keeps m" and t: "ptr_inv t"
  obtain r t' where r: "m (t\<lparr>pt_state_mutex := True\<rparr>) = (r, t')" by fastforce
  have "ptr_inv (t\<lparr>pt_state_mutex := True\<rparr>)" by (rule ptr_inv_cong [OF t]) simp_all
  then have "good (r, t')" using keepsD [OF m] r by metis
  then have "good (r, t'\<lparr>pt_state_mutex := False\<rparr>)" unfolding good_def by (auto intro: ptr_inv_cong)
  then show "good (lock_guard m t)" by (simp add: lock_guard_def r)
qed

text \<open>Through a pointer, the context has the ids of the pointer.\<close>

lemma keeps_seq_deref:
  assumes "\<And>d. dc_conn_id d = fst p \<Longrightarrow> dc_data_ctx_id d = snd p \<Longrightarrow> keeps (f d)"
  shows "keeps (seq (deref p) f)"
proof (rule keepsI)
  fix t assume t: "ptr_inv t"
  show "good (seq (deref p) f t)"
  proof (cases "dc_find p t")
    case None
    then show ?thesis by (simp add: seq_def deref_def)
  next
    case (Some d)
    then show ?thesis using ptr_invD(2) [OF t Some] keepsD [OF assms t] by (simp add: seq_deref)
  qed
qed

lemma keeps_state: "(\<And>t. keeps (f t)) \<Longrightarrow> keeps (\<lambda>t. f t t)"
  by (simp add: keeps_def)

lemma same_idsI: "(\<And>d. dc_conn_id (f d) = dc_conn_id d) \<Longrightarrow> (\<And>d. dc_data_ctx_id (f d) = dc_data_ctx_id d) \<Longrightarrow>
    (\<And>d. dc_current_stream_id (f d) = dc_current_stream_id d) \<Longrightarrow> same_ids f"
  by (simp add: same_ids_def)

text \<open>Operations that look at the state first.\<close>

lemma keeps_state_option:
  "keeps m \<Longrightarrow> (\<And>y. keeps (f y)) \<Longrightarrow> keeps (\<lambda>t. case g t of None \<Rightarrow> m t | Some y \<Rightarrow> f y t)"
  by (simp add: keeps_def split: option.split)

lemma keeps_state_if: "keeps m \<Longrightarrow> keeps m' \<Longrightarrow> keeps (\<lambda>t. if b t then m t else m' t)"
  by (simp add: keeps_def)

lemma keeps_state_Let: "(\<And>y. keeps (f y)) \<Longrightarrow> keeps (\<lambda>t. let y = g t in f y t)"
  by (simp add: keeps_def)

lemmas keeps_basic = keeps_seq_deref keeps_seq keeps_ok keeps_throw keeps_read keeps_if keeps_option keeps_prod keeps_Let
  keeps_call keeps_run keeps_notify keeps_status keeps_conn_met keeps_conn_mod keeps_dc_met keeps_put_tx_queue keeps_lock_guard
  keeps_dc_mod same_idsI

subsection \<open>Streams\<close>

text \<open>After the current stream of a context has lost its registration nothing points to the context.\<close>

lemma unregistered:
  assumes "ptr_inv t" "dc_find p t = Some d" "dc_current_stream_id d = cur" "\<forall>sid. cur = Some sid \<longrightarrow> app_ctx (pt_calls t) (fst p, sid) = None"
  shows "app_ctx (pt_calls t) x \<noteq> Some p"
proof
  assume "app_ctx (pt_calls t) x = Some p"
  moreover obtain cid sid where "x = (cid, sid)" by fastforce
  ultimately show False
    using ptr_invD(1) [OF assms(1), of cid sid p] dc_find_conn [OF assms(2)] assms(2-4) by (auto simp: held_ok_def)
qed

lemma keeps_CloseStream: "keeps (CloseStream (fst p) p send_reset)"
proof (rule keepsI)
  fix t assume t: "ptr_inv t"
  show "good (CloseStream (fst p) p send_reset t)"
  proof (cases "dc_find p t")
    case None
    then show ?thesis by (simp add: CloseStream_def seq_def deref_def)
  next
    case (Some d)
    show ?thesis
    proof (cases "dc_current_stream_id d")
      case None
      then show ?thesis using Some t by (simp add: CloseStream_def seq_deref)
    next
      case cur: (Some sid)
      let ?t = "call_pq (if send_reset then Pq_reset_stream (fst p) sid 0 else Pq_add_to_stream (fst p) sid [] True)
        (call_pq (Pq_reset_stream_ctx (fst p) sid) t)"
      have t1: "ptr_inv ?t" by (intro ptr_inv_call t) simp_all
      have a: "app_ctx (pt_calls ?t) (fst p, sid) = None" by simp
      obtain c where c: "conn_find (fst p) t = Some c" using dc_find_conn [OF Some] by blast
      let ?e = "if map_contains (pc_rx_stream_buffer c) sid then lock_guard (update (erase_rx_buffer (fst p) sid)) else ok ()"
      have k: "keeps ?e" unfolding erase_rx_buffer_def by (intro keeps_basic) simp
      have run: "CloseStream (fst p) p send_reset t =
          seq ?e (\<lambda>_. dc_mod p (\<lambda>d. (ResetTxObject d)\<lparr>dc_current_stream_id := None\<rparr>)) ?t"
        using Some cur c by (simp add: CloseStream_def seq_deref seq_GetConnContext)
      show ?thesis unfolding run
      proof (rule good_seq)
        show "good (?e ?t)" by (rule keepsD [OF k t1])
        fix x t' assume e: "?e ?t = (Inr x, t')" and t': "ptr_inv t'"
        have same: "pt_calls t' = pt_calls ?t" "dc_find p t' = Some d" using e Some
          by (auto simp: lock_guard_def erase_rx_buffer_def dc_find_conn_mod Let_def split: if_splits)
        have "\<forall>x. app_ctx (pt_calls t') x \<noteq> Some p"
          using unregistered [OF t' same(2) cur] a same(1) by auto
        then show "good (dc_mod p (\<lambda>d. (ResetTxObject d)\<lparr>dc_current_stream_id := None\<rparr>) t')"
          using ptr_inv_dc_put [OF t' same(2)] ptr_invD(2) [OF t' same(2)] same(2) by (simp add: dc_mod_live ResetTxObject_def)
      qed
    qed
  qed
qed

text \<open>Registering the current stream of a context.\<close>

definition registers :: "pq_call \<Rightarrow> u64 \<Rightarrow> u64 \<Rightarrow> dptr \<Rightarrow> bool" where
  "registers k cid sid p \<longleftrightarrow> (\<forall>f. app_step k f = f((cid, sid) := Some p))"

lemma registers_simps [simp]:
  "registers (Pq_set_app_stream_ctx cid sid (Some p)) cid sid p" "registers (Pq_mark_active_stream cid sid b (Some p)) cid sid p"
  by (simp_all add: registers_def)

lemma ptr_inv_register:
  assumes "ptr_inv t" "dc_find p t = Some d" "dc_current_stream_id d = Some sid" "registers k (fst p) sid p"
  shows "ptr_inv (call_pq k t)"
proof (rule ptr_invI)
  fix cid sid' r assume "app_ctx (pt_calls (call_pq k t)) (cid, sid') = Some r"
  then have "app_ctx (pt_calls t) (cid, sid') = Some r \<or> (cid, sid') = (fst p, sid) \<and> r = p"
    using assms(4) by (auto simp: registers_def split: if_splits)
  then show "held_ok (call_pq k t) cid sid' r"
    using ptr_invD(1) [OF assms(1), of cid sid' r] assms(2,3) by (auto simp: held_ok_def)
qed (use ptr_invD(2,3) [OF assms(1)] in simp_all)

text \<open>Giving a context without a stream a new one.\<close>

lemma ptr_inv_new_stream:
  assumes "ptr_inv t" "dc_find p t = Some d" "dc_current_stream_id d = None" "dc_conn_id d' = dc_conn_id d"
    "dc_data_ctx_id d' = dc_data_ctx_id d" "dc_current_stream_id d' = Some sid"
  shows "ptr_inv (dc_put p d' t)"
  using ptr_inv_dc_put [OF assms(1,2)] unregistered [OF assms(1-3)] ptr_invD(2) [OF assms(1,2)] assms(4,5) by simp

lemma CloseStream_closes:
  assumes "CloseStream cid p r t = (Inr x, t')" "dc_find p t = Some d"
  shows "\<exists>d'. dc_find p t' = Some d' \<and> dc_current_stream_id d' = None"
proof (cases "dc_current_stream_id d")
  case None
  then show ?thesis using assms by (simp add: CloseStream_def seq_deref)
next
  case (Some sid)
  let ?t = "call_pq (if r then Pq_reset_stream cid sid 0 else Pq_add_to_stream cid sid [] True) (call_pq (Pq_reset_stream_ctx cid sid) t)"
  have "seq (GetConnContext cid) (\<lambda>c.
      seq (if map_contains (pc_rx_stream_buffer c) sid then lock_guard (update (erase_rx_buffer cid sid)) else ok ()) (\<lambda>_.
      dc_mod p (\<lambda>d. (ResetTxObject d)\<lparr>dc_current_stream_id := None\<rparr>))) ?t = (Inr x, t')"
    using assms Some by (simp add: CloseStream_def seq_deref)
  then show ?thesis unfolding seq_Inr_iff by (auto simp: dc_mod_def dc_find_put split: option.splits)
qed

lemma keeps_CreateStream: "keeps (CreateStream pq (fst p) p)"
proof (rule keepsI)
  fix t assume t: "ptr_inv t"
  show "good (CreateStream pq (fst p) p t)"
  proof (cases "dc_find p t")
    case None
    then show ?thesis by (simp add: CreateStream_def seq_def deref_def)
  next
    case (Some d)
    let ?sid = "next_local_stream_id pq (pt_calls t) (fst p) (\<not> dc_is_bidir d)"
    let ?close = "if dc_current_stream_id d \<noteq> None then CloseStream (fst p) p False else ok ()"
    let ?t = "conn_mod (fst p) (\<lambda>c. c\<lparr>pc_last_stream_id := ?sid\<rparr>) t"
    have t1: "ptr_inv ?t" by (rule ptr_inv_conn_mod [OF t]) simp
    have f1: "dc_find p ?t = Some d" using Some by (simp add: dc_find_conn_mod)
    have run: "CreateStream pq (fst p) p t =
        seq ?close (\<lambda>_.
        seq (dc_mod p (\<lambda>d. d\<lparr>dc_current_stream_id := Some ?sid, dc_mark_stream_active := True\<rparr>)) (\<lambda>_.
        seq (update (call_pq (Pq_set_app_stream_ctx (fst p) ?sid (Some p)))) (\<lambda>_.
        update (RunPqFunction (Fn_MarkStreamActive (fst p) (dc_data_ctx_id d)))))) ?t"
      using Some by (simp add: CreateStream_def seq_deref Let_def)
    have k: "keeps ?close" by (intro keeps_if keeps_ok keeps_CloseStream)
    show ?thesis unfolding run
    proof (rule good_seq)
      show "good (?close ?t)" by (rule keepsD [OF k t1])
      fix x t' assume c: "?close ?t = (Inr x, t')" and t': "ptr_inv t'"
      obtain d' where d': "dc_find p t' = Some d'" "dc_current_stream_id d' = None"
        using c f1 CloseStream_closes [of "fst p" p False ?t x t' d] by (cases "dc_current_stream_id d") auto
      let ?d = "d'\<lparr>dc_current_stream_id := Some ?sid, dc_mark_stream_active := True\<rparr>"
      have p2: "ptr_inv (dc_put p ?d t')" by (rule ptr_inv_new_stream [OF t' d']) simp_all
      have "dc_find p (dc_put p ?d t') = Some ?d" using d'(1) by (simp add: dc_find_put)
      from ptr_inv_register [OF p2 this, of ?sid "Pq_set_app_stream_ctx (fst p) ?sid (Some p)"]
      show "good (seq (dc_mod p (\<lambda>d. d\<lparr>dc_current_stream_id := Some ?sid, dc_mark_stream_active := True\<rparr>)) (\<lambda>_.
          seq (update (call_pq (Pq_set_app_stream_ctx (fst p) ?sid (Some p)))) (\<lambda>_.
          update (RunPqFunction (Fn_MarkStreamActive (fst p) (dc_data_ctx_id d))))) t')"
        using d'(1) by (simp add: seq_dc_mod ptr_inv_run)
    qed
  qed
qed

lemma keeps_MarkStreamActive: "keeps (MarkStreamActive cid did)"
  unfolding MarkStreamActive_def
proof (rule keeps_lock_guard, rule keepsI)
  fix t assume t: "ptr_inv t"
  let ?p = "(cid, did)"
  show "good (case dc_find ?p t of None \<Rightarrow> ok () t | Some d \<Rightarrow>
      seq (dc_mod ?p (\<lambda>d. d\<lparr>dc_mark_stream_active := False\<rparr>)) (\<lambda>_. case dc_current_stream_id d of None \<Rightarrow> ok ()
      | Some sid \<Rightarrow> seq (update (call_pq (Pq_mark_active_stream cid sid True (Some ?p)))) (\<lambda>_.
          update (call_pq (Pq_set_stream_priority cid sid (push_bit 1 (dc_priority d)))))) t)"
  proof (cases "dc_find ?p t")
    case (Some d)
    let ?d = "d\<lparr>dc_mark_stream_active := False\<rparr>"
    have t1: "ptr_inv (dc_put ?p ?d t)" by (rule ptr_inv_dc_put [OF t Some]) (use ptr_invD(2) [OF t Some] in simp_all)
    have f1: "dc_find ?p (dc_put ?p ?d t) = Some ?d" using Some by (simp add: dc_find_put)
    show ?thesis using Some t1 ptr_inv_register [OF t1 f1, of _ "Pq_mark_active_stream cid s True (Some ?p)" for s]
      by (auto simp: seq_dc_mod ptr_inv_call split: option.split)
  qed (use t in simp)
qed

lemma keeps_DeleteDataContextInternal: "keeps (DeleteDataContextInternal cid did doe)"
proof (rule keepsI)
  fix t assume t: "ptr_inv t"
  let ?p = "(cid, did)"
  let ?erase = "update (conn_mod cid (\<lambda>c. c\<lparr>pc_active_data_contexts := map_erase did (pc_active_data_contexts c)\<rparr>))"
  show "good (DeleteDataContextInternal cid did doe t)"
  proof (cases "dc_find ?p t")
    case (Some d)
    have del: "good (seq (CloseStream cid ?p False) (\<lambda>_. ?erase) t)"
    proof (rule good_seq)
      show "good (CloseStream cid ?p False t)" using keepsD [OF keeps_CloseStream [of ?p] t] by simp
      fix x t' assume c: "CloseStream cid ?p False t = (Inr x, t')" and t': "ptr_inv t'"
      obtain d' where "dc_find ?p t' = Some d'" "dc_current_stream_id d' = None" using CloseStream_closes [OF c Some] by blast
      from ptr_inv_erase [OF t'] unregistered [OF t' this] show "good (?erase t')" by simp
    qed
    have wait: "keeps (dc_mod ?p (\<lambda>d. d\<lparr>dc_delete_on_empty := True\<rparr>))" by (rule keeps_dc_mod) (simp add: same_ids_def)
    show ?thesis
    proof (cases "dc_tx_data d")
      case None
      then show ?thesis using Some del by (auto simp: DeleteDataContextInternal_def seq_def tx_queue_def deref_def)
    next
      case q: (Some q)
      then show ?thesis using Some del keepsD [OF wait t] by (auto simp: DeleteDataContextInternal_def seq_assoc seq_tx_queue)
    qed
  qed (use t in \<open>simp add: DeleteDataContextInternal_def\<close>)
qed

subsection \<open>The other operations\<close>

lemma keeps_MarkDgramReady: "keeps (MarkDgramReady cid)"
  unfolding MarkDgramReady_def by (rule keeps_lock_guard, rule keeps_state_option) (intro keeps_basic; simp)+

lemma keeps_CheckCallbackDelta: "keeps (CheckCallbackDelta pq p)"
  unfolding CheckCallbackDelta_def Let_def by (intro keeps_basic; simp)

lemma keeps_replace_stream: "keeps (replace_stream pq p r)"
  unfolding replace_stream_def by (intro keeps_basic; simp add: keeps_CloseStream keeps_CreateStream)

lemma keeps_StreamActionCheck: "keeps (StreamActionCheck pq dc act)"
proof (cases dc)
  case None then show ?thesis by (simp add: StreamActionCheck_def keeps_ok)
next
  case (Some p)
  have create: "keeps (seq (deref p) (\<lambda>d. if dc_current_stream_id d = None
      then seq (GetConnContext (dc_conn_id d)) (\<lambda>_. seq (CreateStream pq (dc_conn_id d) p) (\<lambda>_. ok True)) else ok False))"
    by (intro keeps_basic; simp add: keeps_CreateStream)
  have fin: "keeps (seq (deref p) (\<lambda>d. seq (if dc_stream_tx_object d \<noteq> None
      then dc_met p (\<lambda>m. m\<lparr>qd_tx_buffer_drops := qd_tx_buffer_drops m + 1\<rparr>) else ok ()) (\<lambda>_. replace_stream pq p False)))"
    by (intro keeps_basic keeps_replace_stream)
  show ?thesis using create fin by (cases act) (simp_all add: StreamActionCheck_def Some keeps_replace_stream)
qed

lemma keeps_front: "keeps (front_object pq p)" "keeps (pop_front_object pq p obj)"
  unfolding front_object_def pop_front_object_def Let_def by (intro keeps_basic; simp)+

lemma keeps_reset_wait: "keeps (reset_wait pq p)"
  unfolding reset_wait_def by (intro keeps_basic keeps_front; simp add: ResetTxObject_def)

lemma keeps_next_tx_object: "keeps (next_tx_object pq p b obj)"
  unfolding next_tx_object_def Let_def by (intro keeps_basic keeps_front keeps_StreamActionCheck; simp add: ResetTxObject_def)

lemma keeps_write_tx_object: "keeps (write_tx_object pq p b n)"
  unfolding write_tx_object_def by (intro keeps_basic keeps_state_Let; simp add: ResetTxObject_def)

lemma keeps_SendStreamBytes: "keeps (SendStreamBytes pq dc b n)"
  unfolding SendStreamBytes_def delete_if_drained_def
  by (intro keeps_basic keeps_CheckCallbackDelta keeps_reset_wait keeps_next_tx_object keeps_write_tx_object
      keeps_DeleteDataContextInternal)

lemma keeps_SendNextDatagram: "keeps (SendNextDatagram pq cid b n)"
  unfolding SendNextDatagram_def by (intro keeps_basic keeps_CheckCallbackDelta keeps_state_Let; simp)

lemma keeps_Enqueue: "keeps (Enqueue pq e)"
proof -
  have "keeps (enqueue_stream pq e)" unfolding enqueue_stream_def Let_def by (intro keeps_basic; simp)
  moreover have "keeps (enqueue_datagram pq e)" unfolding enqueue_datagram_def by (intro keeps_basic; simp)
  ultimately show ?thesis unfolding Enqueue_def Let_def
    by (intro keeps_if keeps_ok keeps_lock_guard keeps_state_if) (intro keeps_basic; simp)+
qed

end
