(* ===== verification/Pico_Delivery.thy ===== *)
theory Pico_Delivery
  imports Pico_Frame
begin

section \<open>Delivery on a stream\<close>

text \<open>
  What the send path of the picoquic transport delivers: the objects queued on a data context reach the buffers
  that picoquic provides, in the order of priority, group and arrival, each octet once, whatever the sizes of the
  buffers and whatever the order of the calls, the turns of picoquic's thread and the callbacks. The clock goes on
  from one event to the next; the statements hold as long as nothing that waits comes within two intervals of its
  expiry. An abstract sender, a list kept in order, says what has to leave.
\<close>

subsection \<open>One callback\<close>

text \<open>The octets copied into buffers so far, and those of a data context that are still to be sent.\<close>

definition written :: "pq_call list \<Rightarrow> bytes" where
  "written calls = concat (map (\<lambda>c. case c of Pq_write _ data \<Rightarrow> data | _ \<Rightarrow> []) calls)"

text \<open>The rest of the current object, and the objects in the queue, each with its expiry, priority and group.\<close>

definition cur_bytes :: "DataContext \<Rightarrow> bytes" where
  "cur_bytes d = (case dc_stream_tx_object d of None \<Rightarrow> [] | Some data \<Rightarrow> drop (dc_stream_tx_object_offset d) data)"

definition queue_bytes :: "ConnData PriorityQueue \<Rightarrow> (nat \<times> (nat \<times> nat) \<times> bytes) list" where
  "queue_bytes q = map (\<lambda>(k, x, cd). (x, k, cd_data cd)) (pq_items q)"

definition queued :: "DataContext \<Rightarrow> (nat \<times> (nat \<times> nat) \<times> bytes) list" where
  "queued d = (case dc_tx_data d of None \<Rightarrow> [] | Some q \<Rightarrow> queue_bytes q)"

definition plain_object :: "ConnData \<Rightarrow> bool" where
  "plain_object cd \<longleftrightarrow> cd_data cd \<noteq> [] \<and> length (cd_data cd) < 2 ^ 32 \<and> cd_stream_action cd = StreamAction_kNoAction"

definition sending :: "nat \<Rightarrow> nat \<Rightarrow> nat \<Rightarrow> DataContext \<Rightarrow> bool" where
  "sending now duration interval d \<longleftrightarrow>
     (\<exists>q. dc_tx_data d = Some q \<and> pq_inv now q \<and> pq_duration_ms q = duration \<and> pq_interval_ms q = interval \<and>
        (\<forall>x \<in> set (pq_items q). plain_object (item_value x))) \<and>
     (\<forall>data. dc_stream_tx_object d = Some data \<longrightarrow> dc_stream_tx_object_offset d < length data \<and> length data < 2 ^ 32) \<and>
     dc_current_stream_id d \<noteq> None \<and> \<not> dc_tx_reset_wait_discard d \<and> \<not> dc_delete_on_empty d"

lemma cur_bytes_Nil: "sending now du iv d \<Longrightarrow> cur_bytes d = [] \<longleftrightarrow> dc_stream_tx_object d = None"
  by (auto simp: sending_def cur_bytes_def split: option.splits)

lemma sending_wait:
  assumes "sending now du iv d" "now \<le> now'" "now' + du < limit64" "\<forall>x \<in> set (queued d). now' + 2 * bucket_ms du iv \<le> fst x"
  shows "sending now' du iv d"
proof -
  obtain q where q: "dc_tx_data d = Some q" "pq_inv now q" "pq_duration_ms q = du" "pq_interval_ms q = iv"
    using assms(1) by (auto simp: sending_def)
  have "\<forall>x \<in> set (pq_items q). now' + 2 * bucket_ms du iv \<le> fst (snd x)"
    using assms(4) q(1) by (fastforce simp: queued_def queue_bytes_def)
  then have "pq_inv now' q" using pq_inv_wait [OF q(2) assms(2)] assms(3) q(3,4) by simp
  then show ?thesis using assms(1) q(1) by (auto simp: sending_def)
qed

lemma written_simps [simp]:
  "written [] = []" "written (xs @ ys) = written xs @ written ys"
  "written (Pq_write b data # xs) = data @ written xs"
  "written (Pq_provide_stream_data_buffer b n f a # xs) = written xs"
  "written (Pq_wake_up_network_thread # xs) = written xs"
  "written (Pq_set_app_stream_ctx cid sid pp # xs) = written xs"
  by (simp_all add: written_def)

text \<open>The bookkeeping at the start of a callback changes nothing else.\<close>

definition tx_part :: "DataContext \<Rightarrow> ConnData PriorityQueue option \<times> bytes option \<times> nat \<times> u64 option \<times> bool \<times> bool \<times> bool" where
  "tx_part d = (dc_tx_data d, dc_stream_tx_object d, dc_stream_tx_object_offset d, dc_current_stream_id d,
     dc_tx_reset_wait_discard d, dc_delete_on_empty d, dc_mark_stream_active d)"

lemma sending_part: "tx_part d = tx_part d' \<Longrightarrow> sending now du iv d = sending now du iv d' \<and> cur_bytes d = cur_bytes d' \<and> queued d = queued d'"
  by (simp add: tx_part_def sending_def cur_bytes_def queued_def split: option.split)

text \<open>What a callback leaves of the context: the stream and the flag.\<close>

definition mark_part :: "DataContext \<Rightarrow> u64 option \<times> bool" where
  "mark_part d = (dc_current_stream_id d, dc_mark_stream_active d)"

lemma CheckCallbackDelta_part:
  assumes "dc_find p t = Some d" "dc_tx_data d = Some q"
  shows "\<exists>d'. CheckCallbackDelta pq p t = (Inr (), dc_put p d' t) \<and> tx_part d' = tx_part d"
  using assms by (auto simp: CheckCallbackDelta_def live_simps Let_def tx_part_def)

lemma pq_Empty_items: "pq_Empty q \<Longrightarrow> pq_items q = []"
proof -
  have "(\<forall>(_, groups) \<in> set qs. groups = []) \<Longrightarrow> queue_items qs = []" for qs :: "(nat, 'a group_queues) std_map"
    by (induction qs) auto
  then show "pq_Empty q \<Longrightarrow> pq_items q = []" by (simp add: pq_Empty_def pq_items_def)
qed

text \<open>Writing from the current object.\<close>

lemma write_tx_object_step:
  assumes "dc_find p t = Some d" "dc_stream_tx_object d = Some data" "sending now du iv d" "0 < max_len"
    "\<forall>calls. buffer_available pq calls"
  shows "\<exists>d' active. write_tx_object pq p b max_len t =
      (Inr (), call_pq (Pq_write b (take max_len (cur_bytes d)))
        (call_pq (Pq_provide_stream_data_buffer b (min max_len (length (cur_bytes d))) False active) (dc_put p d' t))) \<and>
    sending now du iv d' \<and> cur_bytes d' = drop max_len (cur_bytes d) \<and> queued d' = queued d \<and> mark_part d' = mark_part d \<and>
    (cur_bytes d' \<noteq> [] \<or> queued d' \<noteq> [] \<longrightarrow> active)"
proof -
  let ?off = "dc_stream_tx_object_offset d"
  let ?rest = "length data - ?off"
  obtain q where q: "dc_tx_data d = Some q" using assms(3) by (auto simp: sending_def)
  have off: "?off < length data" "length data < 2 ^ 32" using assms(2,3) by (auto simp: sending_def)
  have len: "sub64 (length data) ?off mod 2 ^ 32 = ?rest" using off by (simp add: sub64_small limit64_def)
  have u: "cur_bytes d = drop ?off data" using assms(2) by (simp add: cur_bytes_def)
  show ?thesis
  proof (cases "?rest > max_len")
    case True
    let ?d = "d\<lparr>dc_stream_tx_object_offset := ?off + max_len,
      dc_metrics := (dc_metrics d)\<lparr>qd_tx_stream_bytes := qd_tx_stream_bytes (dc_metrics d) + of_nat max_len\<rparr>\<rparr>"
    have a: "add64 ?off max_len = ?off + max_len" "max_len mod 2 ^ 32 = max_len"
      using True off by (simp_all add: add64_small limit64_def)
    have "write_tx_object pq p b max_len t = (Inr (), call_pq (Pq_write b (take max_len (cur_bytes d)))
        (call_pq (Pq_provide_stream_data_buffer b max_len False True) (dc_put p ?d t)))"
      using assms(1,2,4,5) q True len a u
      by (simp add: write_tx_object_def live_simps Let_def)
    moreover have "sending now du iv ?d" using assms(2,3) True by (auto simp: sending_def)
    moreover have "cur_bytes ?d = drop max_len (cur_bytes d)" using assms(2) u by (simp add: cur_bytes_def add.commute)
    moreover have "min max_len (length (cur_bytes d)) = max_len" using True u by simp
    ultimately show ?thesis by (intro exI [of _ ?d] exI [of _ True]) (simp add: queued_def mark_part_def)
  next
    case False
    let ?d = "ResetTxObject (d\<lparr>dc_stream_tx_object_offset := 0,
      dc_metrics := (dc_metrics d)\<lparr>qd_tx_stream_bytes := qd_tx_stream_bytes (dc_metrics d) + of_nat ?rest\<rparr>\<rparr>)"
    have all: "take max_len (cur_bytes d) = cur_bytes d" "drop max_len (cur_bytes d) = []" "min max_len (length (cur_bytes d)) = ?rest"
      using False u by simp_all
    have "write_tx_object pq p b max_len t = (Inr (), call_pq (Pq_write b (cur_bytes d))
        (call_pq (Pq_provide_stream_data_buffer b ?rest False (\<not> pq_Empty q)) (dc_put p ?d t)))"
      using assms(1,2,4,5) q False len u off
      by (simp add: write_tx_object_def live_simps Let_def)
    moreover have "sending now du iv ?d" using assms(3) by (auto simp: sending_def ResetTxObject_def)
    moreover have "queued ?d \<noteq> [] \<longrightarrow> \<not> pq_Empty q"
      using q pq_Empty_items [of q] by (auto simp: queued_def queue_bytes_def ResetTxObject_def)
    ultimately show ?thesis unfolding all
      by (intro exI [of _ ?d] exI [of _ "\<not> pq_Empty q"]) (simp add: cur_bytes_def queued_def mark_part_def ResetTxObject_def)
  qed
qed

text \<open>Taking the next object off the queue.\<close>

lemma next_tx_object_step:
  assumes "dc_find p t = Some d" "dc_stream_tx_object d = None" "sending (tick_ms pq) du iv d" "queued d = (x, k, data) # rest"
  shows "\<exists>d'. next_tx_object pq p b obj t = (Inr True, dc_put p d' t) \<and> sending (tick_ms pq) du iv d' \<and>
    dc_stream_tx_object d' = Some data \<and> cur_bytes d' = data \<and> queued d' = rest \<and> mark_part d' = mark_part d"
proof -
  obtain q where q: "dc_tx_data d = Some q" "pq_inv (tick_ms pq) q" "pq_duration_ms q = du" "pq_interval_ms q = iv"
    "\<forall>y \<in> set (pq_items q). plain_object (item_value y)" using assms(3) by (auto simp: sending_def)
  obtain cd xs where x: "pq_items q = (k, x, cd) # xs" "cd_data cd = data" "map (\<lambda>(k, x, cd). (x, k, cd_data cd)) xs = rest"
    using assms(4) q(1) by (auto simp: queued_def queue_bytes_def)
  obtain q' where q': "pq_PopFront (tick_ms pq) q obj = (q', popped (pq_items q) item_value obj)" "pq_inv (tick_ms pq) q'"
    "pq_items q' = xs" "pq_duration_ms q' = du" "pq_interval_ms q' = iv" using pq_PopFront_inv [OF q(2), of obj] x(1) q(3,4) by auto
  let ?m = "dc_metrics d"
  let ?d = "d\<lparr>dc_tx_data := Some q', dc_stream_tx_object_offset := 0,
    dc_metrics := ?m\<lparr>qd_tx_stream_objects := qd_tx_stream_objects ?m + 1,
      qd_tx_object_duration_us := AddValue (of_nat (tick_us pq) - cd_tick_microseconds cd) (qd_tx_object_duration_us ?m)\<rparr>,
    dc_stream_tx_object := Some data, dc_tx_start_stream := False\<rparr>"
  have px: "plain_object cd" using q(5) x(1) by simp
  obtain sid where cur: "dc_current_stream_id d = Some sid" using assms(3) by (auto simp: sending_def)
  have "next_tx_object pq p b obj t = (Inr True, dc_put p ?d t)"
    using assms(1,2) q(1) q'(1) x px cur
    by (simp add: next_tx_object_def pop_front_object_def live_simps Let_def StreamActionCheck_def plain_object_def)
  moreover have "sending (tick_ms pq) du iv ?d" using assms(3) q'(2-5) px q(5) x by (auto simp: sending_def plain_object_def)
  ultimately show ?thesis using q'(3) x(3)
    by (intro exI [of _ ?d]) (simp add: cur_bytes_def queued_def queue_bytes_def mark_part_def)
qed

text \<open>Whether picoquic calls back for a stream: it does after the stream was marked active, until a callback says that
  there is nothing more.\<close>

fun activity :: "u64 \<Rightarrow> u64 \<Rightarrow> pq_call \<Rightarrow> bool option" where
  "activity cid sid (Pq_mark_active_stream cid' sid' active _) = (if cid' = cid \<and> sid' = sid then Some active else None)"
| "activity cid sid (Pq_provide_stream_data_buffer _ _ _ active) = Some active"
| "activity cid sid _ = None"

definition stream_active :: "u64 \<Rightarrow> u64 \<Rightarrow> pq_call list \<Rightarrow> bool" where
  "stream_active cid sid calls = fold (\<lambda>k a. case activity cid sid k of None \<Rightarrow> a | Some b \<Rightarrow> b) calls False"

lemma stream_active_simps [simp]:
  "stream_active cid sid (calls @ [Pq_provide_stream_data_buffer b n f a, Pq_write b' data]) = a"
  "stream_active cid sid (calls @ [Pq_provide_stream_data_buffer b n f a]) = a"
  "stream_active cid sid (calls @ [Pq_mark_active_stream cid sid a p, Pq_set_stream_priority c s pr]) = a"
  "stream_active cid sid (calls @ [Pq_wake_up_network_thread]) = stream_active cid sid calls"
  by (simp_all add: stream_active_def)

lemma delete_if_drained_keeps:
  "dc_find p t = Some d \<Longrightarrow> sending now du iv d \<Longrightarrow> delete_if_drained p t = (Inr (), t)"
  by (auto simp: delete_if_drained_def live_simps sending_def)

text \<open>The object a callback writes from, and what then remains in the queue.\<close>

fun next_object :: "bytes \<Rightarrow> (nat \<times> (nat \<times> nat) \<times> bytes) list \<Rightarrow> bytes \<times> (nat \<times> (nat \<times> nat) \<times> bytes) list" where
  "next_object [] [] = ([], [])"
| "next_object [] ((_, _, data) # queue) = (data, queue)"
| "next_object cur queue = (cur, queue)"

lemma next_object_cur: "cur \<noteq> [] \<Longrightarrow> next_object cur queue = (cur, queue)"
  by (cases cur) simp_all

lemma SendStreamBytes_step:
  assumes "dc_find p t = Some d" "sending (tick_ms pq) du iv d" "0 < max_len" "\<forall>calls. buffer_available pq calls"
    "next_object (cur_bytes d) (queued d) = (cur, queue)"
  shows "\<exists>d' t'. SendStreamBytes pq (Some p) (Some b) max_len t = (Inr (), t') \<and> dc_find p t' = Some d' \<and>
    sending (tick_ms pq) du iv d' \<and> written (pt_calls t') = written (pt_calls t) @ take max_len cur \<and>
    cur_bytes d' = drop max_len cur \<and> queued d' = queue \<and> mark_part d' = mark_part d \<and>
    pt_runner_queue t' = pt_runner_queue t \<and> pt_state_mutex t' = pt_state_mutex t \<and>
    (cur_bytes d' \<noteq> [] \<or> queued d' \<noteq> [] \<longrightarrow> stream_active cid sid (pt_calls t'))"
proof -
  obtain q where q: "dc_tx_data d = Some q" "pq_inv (tick_ms pq) q" "pq_duration_ms q = du" "pq_interval_ms q = iv"
    using assms(2) by (auto simp: sending_def)
  obtain d1 where d1: "CheckCallbackDelta pq p t = (Inr (), dc_put p d1 t)" "tx_part d1 = tx_part d"
    using CheckCallbackDelta_part [OF assms(1) q(1)] by blast
  let ?t1 = "dc_put p d1 t"
  have l1: "dc_find p ?t1 = Some d1" using assms(1) by (simp add: dc_find_put)
  have s1: "sending (tick_ms pq) du iv d1" "cur_bytes d1 = cur_bytes d" "queued d1 = queued d" "mark_part d1 = mark_part d"
    using sending_part [OF d1(2)] assms(2) d1(2) by (simp_all add: mark_part_def tx_part_def)
  have nd: "\<not> dc_tx_reset_wait_discard d1" using s1 by (simp add: sending_def)
  have start: "SendStreamBytes pq (Some p) (Some b) max_len t =
      seq (if dc_stream_tx_object d1 = None then next_tx_object pq p b empty_element else ok True) (\<lambda>write.
      seq (if write then write_tx_object pq p b max_len else ok ()) (\<lambda>_. delete_if_drained p)) ?t1"
    using l1 nd by (simp add: SendStreamBytes_def seq_eq(1) d1(1) seq_deref)
  have finish: "\<exists>d' t'. seq (if True then write_tx_object pq p b max_len else ok ()) (\<lambda>_. delete_if_drained p) t2 = (Inr (), t') \<and>
      dc_find p t' = Some d' \<and> sending (tick_ms pq) du iv d' \<and> written (pt_calls t') = written (pt_calls t) @ take max_len cur \<and>
      cur_bytes d' = drop max_len cur \<and> queued d' = queue \<and> mark_part d' = mark_part d \<and>
      pt_runner_queue t' = pt_runner_queue t \<and> pt_state_mutex t' = pt_state_mutex t \<and>
      (cur_bytes d' \<noteq> [] \<or> queued d' \<noteq> [] \<longrightarrow> stream_active cid sid (pt_calls t'))"
    if t2: "dc_find p t2 = Some d2" "dc_stream_tx_object d2 = Some data" "sending (tick_ms pq) du iv d2" "cur_bytes d2 = cur"
      "queued d2 = queue" "mark_part d2 = mark_part d" "pt_calls t2 = pt_calls t" "pt_runner_queue t2 = pt_runner_queue t"
      "pt_state_mutex t2 = pt_state_mutex t" for t2 d2 data
  proof -
    obtain d' active where w: "write_tx_object pq p b max_len t2 =
        (Inr (), call_pq (Pq_write b (take max_len cur))
          (call_pq (Pq_provide_stream_data_buffer b (min max_len (length cur)) False active) (dc_put p d' t2)))"
      "sending (tick_ms pq) du iv d'" "cur_bytes d' = drop max_len cur" "queued d' = queue" "mark_part d' = mark_part d"
      "cur_bytes d' \<noteq> [] \<or> queued d' \<noteq> [] \<longrightarrow> active"
      using write_tx_object_step [OF t2(1-3) assms(3,4), of b] unfolding t2(4-6) by blast
    let ?t3 = "call_pq (Pq_write b (take max_len cur))
      (call_pq (Pq_provide_stream_data_buffer b (min max_len (length cur)) False active) (dc_put p d' t2))"
    have l: "dc_find p ?t3 = Some d'" using t2(1) by (simp add: dc_find_put)
    show ?thesis
      by (rule exI [of _ d'], rule exI [of _ ?t3])
        (use w l t2(7-9) delete_if_drained_keeps [OF l w(2)] in \<open>simp add: seq_eq(1) w(1)\<close>)
  qed
  show ?thesis
  proof (cases "dc_stream_tx_object d1")
    case (Some data)
    then have "cur_bytes d \<noteq> []" using cur_bytes_Nil [OF s1(1)] s1(2) by simp
    then have "cur_bytes d1 = cur" "queued d1 = queue" using assms(5) s1(2,3) by (simp_all add: next_object_cur)
    from finish [OF l1 Some s1(1) this s1(4)] show ?thesis using Some by (simp add: start)
  next
    case None
    then have nil: "cur_bytes d = []" using cur_bytes_Nil [OF s1(1)] s1(2) by simp
    show ?thesis
    proof (cases "queued d")
      case (Cons y rest)
      then obtain x k data where y: "queued d = (x, k, data) # rest" by (cases y) auto
      then have cq: "cur = data" "queue = rest" using assms(5) nil by simp_all
      obtain d2 where n: "next_tx_object pq p b empty_element ?t1 = (Inr True, dc_put p d2 ?t1)"
        "sending (tick_ms pq) du iv d2" "dc_stream_tx_object d2 = Some data" "cur_bytes d2 = data" "queued d2 = rest" "mark_part d2 = mark_part d1"
        using next_tx_object_step [OF l1 None s1(1) y [folded s1(3)]] by blast
      have "dc_find p (dc_put p d2 ?t1) = Some d2" using assms(1) by (simp add: dc_find_put)
      from finish [OF this n(3,2)] n(4-6) cq s1(4) show ?thesis using None by (simp add: start seq_eq(1) n(1))
    next
      case Nil
      have q1: "dc_tx_data d1 = Some q" using d1(2) q(1) by (simp add: tx_part_def)
      have items: "pq_items q = []" using Nil q(1) by (simp add: queued_def queue_bytes_def)
      obtain q' where q': "pq_PopFront (tick_ms pq) q empty_element = (q', fresh_elem empty_element)" "pq_inv (tick_ms pq) q'" "pq_items q' = []"
        "pq_duration_ms q' = du" "pq_interval_ms q' = iv"
        using pq_PopFront_inv [OF q(2), of empty_element] items q(3,4) by auto
      let ?d = "d1\<lparr>dc_tx_data := Some q'\<rparr>"
      let ?t = "call_pq (Pq_provide_stream_data_buffer b 0 False (\<not> pq_Empty q')) (dc_put p ?d t)"
      have s: "sending (tick_ms pq) du iv ?d" using s1(1) q' by (auto simp: sending_def)
      have l: "dc_find p ?t = Some ?d" using assms(1) by (simp add: dc_find_put)
      have u: "cur = []" "queue = []" "cur_bytes ?d = []" "queued ?d = []" "mark_part ?d = mark_part d"
        using assms(5) nil Nil None q'(3) s1(4) by (simp_all add: cur_bytes_def queued_def queue_bytes_def mark_part_def)
      have "next_tx_object pq p b empty_element ?t1 = (Inr False, ?t)"
        using assms(1) q1 q'(1) by (simp add: next_tx_object_def pop_front_object_def live_simps fresh_elem_def)
      then have "SendStreamBytes pq (Some p) (Some b) max_len t = (Inr (), ?t)"
        using None delete_if_drained_keeps [OF l s] by (simp add: start seq_def)
      then show ?thesis using l s u by (intro exI [of _ ?d] exI [of _ ?t]) simp
    qed
  qed
qed

subsection \<open>The calls, the thread of picoquic and the callbacks\<close>

definition object_key :: "enqueue_call \<Rightarrow> nat \<times> nat" where
  "object_key e = (unat (eq_priority e), unat (eq_group_id e))"

text \<open>An object for the current stream of a data context.\<close>

definition stream_object :: "dptr \<Rightarrow> nat \<Rightarrow> enqueue_call \<Rightarrow> bool" where
  "stream_object p max_ttl e \<longleftrightarrow>
     (eq_conn_id e, eq_data_ctx_id e) = p \<and> eq_bytes e \<noteq> [] \<and> length (eq_bytes e) < 2 ^ 32 \<and> unat (eq_ttl_ms e) \<le> max_ttl \<and>
     use_reliable (eq_flags e) \<and> \<not> new_stream (eq_flags e) \<and> \<not> clear_tx_queue (eq_flags e)"

lemma unlock [simp]: "\<not> pt_state_mutex t \<Longrightarrow> t\<lparr>pt_state_mutex := False\<rparr> = t"
  by (cases t) simp

lemma queue_bytes_insert:
  assumes "pq_items q' = sort_key fst (pq_items q @ [(k, x, cd)])"
  shows "queue_bytes q' = by_key (queue_bytes q) (x, k, cd_data cd)"
proof -
  let ?f = "\<lambda>(k, x, cd). (x, k, cd_data cd)"
  have "by_key (queue_bytes q) (x, k, cd_data cd) = sort_key (\<lambda>(_, k, _). k) (map ?f (pq_items q @ [(k, x, cd)]))"
    by (simp add: by_key_def queue_bytes_def)
  also have "\<dots> = map ?f (sort_key fst (pq_items q @ [(k, x, cd)]))"
  proof -
    have "(\<lambda>(_, k, _). k) \<circ> ?f = (fst :: (nat \<times> nat) \<times> nat \<times> ConnData \<Rightarrow> nat \<times> nat)" by auto
    then show ?thesis by (simp only: sort_key_map)
  qed
  finally show ?thesis by (simp add: queue_bytes_def assms)
qed

lemma Enqueue_step:
  assumes "dc_find p t = Some d" "sending (tick_ms pq) du iv d" "\<not> pt_state_mutex t" "stream_object p du e"
    "2 * bucket_ms du iv \<le> lifetime du (unat (eq_ttl_ms e))"
  shows "\<exists>d'. Enqueue pq e t = (Inr TransportError_kNone,
        if dc_mark_stream_active d then dc_put p d' t else RunPqFunction (Fn_MarkStreamActive (fst p) (snd p)) (dc_put p d' t)) \<and>
    sending (tick_ms pq) du iv d' \<and> cur_bytes d' = cur_bytes d \<and>
    queued d' = by_key (queued d) (tick_ms pq + lifetime du (unat (eq_ttl_ms e)), object_key e, eq_bytes e) \<and>
    dc_current_stream_id d' = dc_current_stream_id d \<and> dc_mark_stream_active d'"
proof -
  let ?x = "tick_ms pq + lifetime du (unat (eq_ttl_ms e))" and ?cd = "conn_data pq e StreamAction_kNoAction"
  have e: "(eq_conn_id e, eq_data_ctx_id e) = p" "eq_bytes e \<noteq> []" "length (eq_bytes e) < 2 ^ 32" "unat (eq_ttl_ms e) \<le> du"
    "use_reliable (eq_flags e)" "\<not> new_stream (eq_flags e)" "\<not> clear_tx_queue (eq_flags e)" using assms(4) by (simp_all add: stream_object_def)
  obtain q where q: "dc_tx_data d = Some q" "pq_inv (tick_ms pq) q" "pq_duration_ms q = du" "pq_interval_ms q = iv"
    "\<forall>y \<in> set (pq_items q). plain_object (item_value y)" using assms(2) by (auto simp: sending_def)
  obtain q' where q': "push_object pq e StreamAction_kNoAction q = (Inr (), q')" "pq_inv (tick_ms pq) q'" "pq_duration_ms q' = du"
    "pq_interval_ms q' = iv" "pq_items q' = sort_key fst (pq_items q @ [(object_key e, ?x, ?cd)])"
    using pq_Push_inv [OF q(2), of "unat (eq_ttl_ms e)" "unat (eq_group_id e)" ?cd "unat (eq_priority e)"] e(4) assms(5) q(3,4)
    by (auto simp: push_object_def object_key_def)
  let ?m = "dc_metrics d"
  let ?d = "d\<lparr>dc_priority := eq_priority e, dc_metrics := ?m\<lparr>qd_enqueued_objs := qd_enqueued_objs ?m + 1\<rparr>, dc_tx_data := Some q',
    dc_mark_stream_active := True\<rparr>"
  obtain c where c: "conn_find (eq_conn_id e) t = Some c" using dc_find_conn [OF assms(1)] e(1) by auto
  have ids: "eq_conn_id e = fst p" "eq_data_ctx_id e = snd p" using e(1) by auto
  have "Enqueue pq e t = (Inr TransportError_kNone,
      if dc_mark_stream_active d then dc_put p ?d t else RunPqFunction (Fn_MarkStreamActive (fst p) (snd p)) (dc_put p ?d t))"
    using assms(1,3) e(2,5-7) c q(1) q'(1)
    by (cases "dc_mark_stream_active d"; cases d)
      (simp_all add: Enqueue_def lock_guard_def enqueue_stream_def live_simps Let_def enqueue_action_def seq_lift ids)
  moreover have "plain_object ?cd" using e(2,3) by (simp add: plain_object_def conn_data_def)
  then have "sending (tick_ms pq) du iv ?d" using assms(2) q(5) q'(2-5) by (auto simp: sending_def)
  moreover have "queued ?d = by_key (queued d) (?x, object_key e, eq_bytes e)"
    using q(1) q'(5) by (simp add: queued_def queue_bytes_insert conn_data_def)
  ultimately show ?thesis by (intro exI [of _ ?d]) (simp add: cur_bytes_def split: option.split)
qed

lemma CreateDataContext_stream:
  assumes "conn_find cid t = Some c" "map_find (pc_active_data_contexts c) (pc_next_data_ctx_id c) = None" "priority \<le> 127"
    "\<not> pt_state_mutex t" "tx_queue_new t = Inr q"
  shows "\<exists>t1 d sid. CreateDataContext pq cid True priority bidir t = (Inr (pc_next_data_ctx_id c), t1) \<and>
    dc_find (cid, pc_next_data_ctx_id c) t1 = Some d \<and> tx_part d = (Some q, None, 0, Some sid, False, False, True) \<and> \<not> pt_state_mutex t1 \<and> sid = next_local_stream_id pq (pt_calls t) cid (\<not> bidir) \<and>
    pt_calls t1 = pt_calls t @ [Pq_set_app_stream_ctx cid sid (Some (cid, pc_next_data_ctx_id c)), Pq_wake_up_network_thread] \<and>
    pt_runner_queue t1 = snd (sq_Push (Fn_MarkStreamActive cid (pc_next_data_ctx_id c)) (pt_runner_queue t)) \<and>
    map_option pc_rx_stream_buffer (conn_find cid t1) = Some (pc_rx_stream_buffer c)"
proof -
  let ?did = "pc_next_data_ctx_id c"
  let ?p = "(cid, ?did)"
  let ?t = "t\<lparr>pt_state_mutex := True\<rparr>"
  let ?d0 = "DataContext_new\<lparr>dc_conn_id := cid, dc_is_bidir := bidir, dc_data_ctx_id := ?did, dc_priority := priority,
    dc_uses_reset_wait := use_reset_wait_strategy (pt_tconfig t)\<rparr>"
  let ?t0 = "conn_put cid (c\<lparr>pc_next_data_ctx_id := ?did + 1,
    pc_active_data_contexts := map_put ?did ?d0 (pc_active_data_contexts c)\<rparr>) ?t"
  let ?sid = "next_local_stream_id pq (pt_calls t) cid (\<not> bidir)"
  let ?t1 = "dc_put ?p (?d0\<lparr>dc_tx_data := Some q\<rparr>) ?t0"
  let ?d2 = "?d0\<lparr>dc_tx_data := Some q, dc_current_stream_id := Some ?sid, dc_mark_stream_active := True\<rparr>"
  have l0: "dc_find ?p ?t0 = Some ?d0" by (simp add: dc_find_def map_find_put)
  have q0: "tx_queue_new ?t0 = Inr q" using assms(5) by (simp add: tx_queue_new_def)
  have run: "CreateStream pq cid ?p ?t1 = (Inr (), RunPqFunction (Fn_MarkStreamActive cid ?did)
      (call_pq (Pq_set_app_stream_ctx cid ?sid (Some ?p)) (dc_put ?p ?d2 (conn_mod cid (\<lambda>c. c\<lparr>pc_last_stream_id := ?sid\<rparr>) ?t1))))"
    using l0 by (simp add: CreateStream_def live_simps Let_def DataContext_new_def dc_find_conn_mod)
  let ?t2 = "RunPqFunction (Fn_MarkStreamActive cid ?did)
      (call_pq (Pq_set_app_stream_ctx cid ?sid (Some ?p)) (dc_put ?p ?d2 (conn_mod cid (\<lambda>c. c\<lparr>pc_last_stream_id := ?sid\<rparr>) ?t1)))"
  have f: "dc_find ?p (conn_mod cid (\<lambda>c. c\<lparr>pc_last_stream_id := ?sid\<rparr>) ?t1) = Some (?d0\<lparr>dc_tx_data := Some q\<rparr>)"
    using l0 by (simp add: dc_find_conn_mod dc_find_put)
  have "CreateDataContext pq cid True priority bidir t = (Inr ?did, ?t2\<lparr>pt_state_mutex := False\<rparr>)"
    using assms(1-4) l0 q0 run
    by (simp add: CreateDataContext_def lock_guard_def Let_def seq_lift put_tx_queue_def seq_dc_mod seq_eq(1) not_less)
  moreover have "dc_find ?p ?t2 = Some ?d2" using f by (simp add: dc_find_put)
  moreover have "map_option pc_rx_stream_buffer (conn_find cid ?t2) = Some (pc_rx_stream_buffer c)"
    by (simp add: dc_put_def conn_find_mod)
  ultimately show ?thesis
    by (intro exI [of _ "?t2\<lparr>pt_state_mutex := False\<rparr>"] exI [of _ ?d2] exI [of _ ?sid]) (simp add: tx_part_def DataContext_new_def)
qed

text \<open>A turn of picoquic's thread, with nothing to run and with the mark to make.\<close>

lemma PqRunner_idle: "sq_queue (pt_runner_queue t) = [] \<Longrightarrow> sq_empty (pt_runner_queue t) \<Longrightarrow> PqRunner pq t = (Inr Pq_return_0, t)"
  by (simp add: PqRunner_def sq_Empty_def)

lemma PqRunner_mark_active:
  assumes "dc_find (cid, did) t = Some d" "dc_current_stream_id d = Some sid" "\<not> pt_state_mutex t"
    "sq_queue (pt_runner_queue t) = [Fn_MarkStreamActive cid did]" "\<not> sq_empty (pt_runner_queue t)"
  shows "\<exists>t'. PqRunner pq t = (Inr Pq_return_0, t') \<and> dc_find (cid, did) t' = Some (d\<lparr>dc_mark_stream_active := False\<rparr>) \<and>
    pt_calls t' = pt_calls t @ [Pq_mark_active_stream cid sid True (Some (cid, did)), Pq_set_stream_priority cid sid (push_bit 1 (dc_priority d))] \<and>
    \<not> pt_state_mutex t' \<and> sq_queue (pt_runner_queue t') = [] \<and> sq_empty (pt_runner_queue t')"
proof -
  let ?p = "(cid, did)"
  let ?rq = "(pt_runner_queue t)\<lparr>sq_queue := [], sq_empty := True\<rparr>"
  let ?t = "t\<lparr>pt_runner_queue := ?rq\<rparr>"
  let ?t' = "call_pq (Pq_set_stream_priority cid sid (push_bit 1 (dc_priority d)))
    (call_pq (Pq_mark_active_stream cid sid True (Some ?p)) (dc_put ?p (d\<lparr>dc_mark_stream_active := False\<rparr>) ?t))"
  have m: "run_function pq (Fn_MarkStreamActive cid did) ?t = (Inr Pq_return_0, ?t')"
    using assms(1-3) by (simp add: run_function_def Let_def MarkStreamActive_def lock_guard_def live_simps seq_eq(1))
  have "PqRunner pq t = (Inr Pq_return_0, ?t'\<lparr>pt_runner_queue := ?rq\<rparr>)"
    using m assms(4,5) by (simp add: PqRunner_def sq_Empty_def sq_Size_def sq_Pop_def sq_PopInternal_def)
  then show ?thesis using assms(1,3)
    by (intro exI [of _ "?t'\<lparr>pt_runner_queue := ?rq\<rparr>"]) (simp add: dc_find_put)
qed

text \<open>What can happen to a data context with a stream: an object is queued, the thread of picoquic runs what other
  threads left for it, and picoquic asks for octets, each with what picoquic and the clock answer at that time.\<close>

datatype tx_event = Tx_enqueue picoquic enqueue_call | Tx_runner picoquic | Tx_prepare picoquic nat

fun tx_env :: "tx_event \<Rightarrow> picoquic" where
  "tx_env (Tx_enqueue pq e) = pq"
| "tx_env (Tx_runner pq) = pq"
| "tx_env (Tx_prepare pq room) = pq"

definition tx_event_run :: "dptr \<Rightarrow> tx_event \<Rightarrow> unit pq" where
  "tx_event_run p ev =
     (case ev of
        Tx_enqueue pq e \<Rightarrow> seq (Enqueue pq e) (\<lambda>_. ok ())
      | Tx_runner pq \<Rightarrow> seq (PqRunner pq) (\<lambda>_. ok ())
      | Tx_prepare pq room \<Rightarrow> SendStreamBytes pq (Some p) (Some 0) room)"

fun tx_run :: "dptr \<Rightarrow> tx_event list \<Rightarrow> unit pq" where
  "tx_run p [] = ok ()"
| "tx_run p (ev # evs) = seq (tx_event_run p ev) (\<lambda>_. tx_run p evs)"

text \<open>The abstract sender: the octets that left, the rest of the current object, and a list of objects kept in the
  order of priority and group.\<close>

record sender =
  snd_out :: bytes
  snd_cur :: bytes
  snd_queue :: "(nat \<times> (nat \<times> nat) \<times> bytes) list"

definition sender_new :: sender where
  "sender_new = \<lparr>snd_out = [], snd_cur = [], snd_queue = []\<rparr>"

fun sender_step :: "nat \<Rightarrow> tx_event \<Rightarrow> sender \<Rightarrow> sender" where
  "sender_step duration (Tx_enqueue pq e) s =
     s\<lparr>snd_queue := by_key (snd_queue s) (tick_ms pq + lifetime duration (unat (eq_ttl_ms e)), object_key e, eq_bytes e)\<rparr>"
| "sender_step duration (Tx_runner pq) s = s"
| "sender_step duration (Tx_prepare pq room) s =
     (let (cur, queue) = next_object (snd_cur s) (snd_queue s)
      in \<lparr>snd_out = snd_out s @ take room cur, snd_cur = drop room cur, snd_queue = queue\<rparr>)"

definition sender_left :: "sender \<Rightarrow> bytes" where
  "sender_left s = snd_cur s @ concat (map (snd \<circ> snd) (snd_queue s))"

text \<open>A schedule of events that the statements are about: the clock does not run backwards, nothing that waits is within
  \<open>margin\<close> milliseconds of its expiry, the objects are for the current stream, picoquic offers room for an octet at
  least and provides the buffer it is asked for.\<close>

fun event_ok :: "dptr \<Rightarrow> nat \<Rightarrow> nat \<Rightarrow> tx_event \<Rightarrow> bool" where
  "event_ok p duration margin (Tx_enqueue pq e) \<longleftrightarrow> stream_object p duration e \<and> margin \<le> lifetime duration (unat (eq_ttl_ms e))"
| "event_ok p duration margin (Tx_runner pq) \<longleftrightarrow> True"
| "event_ok p duration margin (Tx_prepare pq room) \<longleftrightarrow> 0 < room \<and> (\<forall>calls. buffer_available pq calls)"

fun events_ok :: "dptr \<Rightarrow> nat \<Rightarrow> nat \<Rightarrow> nat \<Rightarrow> tx_event list \<Rightarrow> sender \<Rightarrow> bool" where
  "events_ok p duration margin now [] s \<longleftrightarrow> True"
| "events_ok p duration margin now (ev # evs) s \<longleftrightarrow>
     now \<le> tick_ms (tx_env ev) \<and> tick_ms (tx_env ev) + duration < limit64 \<and> event_ok p duration margin ev \<and>
     (\<forall>x \<in> set (snd_queue s). tick_ms (tx_env ev) + margin \<le> fst x) \<and>
     events_ok p duration margin (tick_ms (tx_env ev)) evs (sender_step duration ev s)"

lemma events_ok_append: "events_ok p du m now (evs @ evs') s \<Longrightarrow> events_ok p du m now evs s"
  by (induction evs arbitrary: now s) simp_all

text \<open>The transport and the abstract sender. The mark is queued exactly when the flag of the context says so; as long as
  octets are left, the mark is queued or picoquic calls back.\<close>

definition tx_rel :: "dptr \<Rightarrow> nat \<Rightarrow> nat \<Rightarrow> bytes \<Rightarrow> nat \<Rightarrow> sender \<Rightarrow> PicoQuicTransport \<Rightarrow> bool" where
  "tx_rel p du iv w now s t \<longleftrightarrow>
     (\<exists>d sid. dc_find p t = Some d \<and> sending now du iv d \<and> cur_bytes d = snd_cur s \<and> queued d = snd_queue s \<and>
        dc_current_stream_id d = Some sid \<and> written (pt_calls t) = w @ snd_out s \<and> \<not> pt_state_mutex t \<and>
        sq_queue (pt_runner_queue t) = (if dc_mark_stream_active d then [Fn_MarkStreamActive (fst p) (snd p)] else []) \<and>
        (sq_empty (pt_runner_queue t) \<longleftrightarrow> \<not> dc_mark_stream_active d) \<and>
        (sender_left s \<noteq> [] \<longrightarrow> dc_mark_stream_active d \<or> stream_active (fst p) sid (pt_calls t)))"

lemma tx_rel_wait:
  assumes "tx_rel p du iv w now s t" "now \<le> now'" "now' + du < limit64" "\<forall>x \<in> set (snd_queue s). now' + 2 * bucket_ms du iv \<le> fst x"
  shows "tx_rel p du iv w now' s t"
  using assms sending_wait [of now du iv _ now'] unfolding tx_rel_def by metis

lemma sending_left: "sending now du iv d \<Longrightarrow> sender_left s \<noteq> [] \<Longrightarrow> cur_bytes d = snd_cur s \<Longrightarrow> queued d = snd_queue s \<Longrightarrow>
    cur_bytes d \<noteq> [] \<or> queued d \<noteq> []"
  by (auto simp: sender_left_def)

lemma tx_event_step:
  assumes "tx_rel p du iv w (tick_ms (tx_env ev)) s t" "event_ok p du (2 * bucket_ms du iv) ev"
  shows "\<exists>t'. tx_event_run p ev t = (Inr (), t') \<and> tx_rel p du iv w (tick_ms (tx_env ev)) (sender_step du ev s) t'"
proof -
  obtain d sid where r: "dc_find p t = Some d" "sending (tick_ms (tx_env ev)) du iv d" "cur_bytes d = snd_cur s" "queued d = snd_queue s"
    "dc_current_stream_id d = Some sid" "written (pt_calls t) = w @ snd_out s" "\<not> pt_state_mutex t"
    "sq_queue (pt_runner_queue t) = (if dc_mark_stream_active d then [Fn_MarkStreamActive (fst p) (snd p)] else [])"
    "sq_empty (pt_runner_queue t) \<longleftrightarrow> \<not> dc_mark_stream_active d"
    "sender_left s \<noteq> [] \<longrightarrow> dc_mark_stream_active d \<or> stream_active (fst p) sid (pt_calls t)"
    using assms(1) unfolding tx_rel_def by blast
  show ?thesis
  proof (cases ev)
    case (Tx_enqueue pq e)
    obtain d' where e: "Enqueue pq e t = (Inr TransportError_kNone,
        if dc_mark_stream_active d then dc_put p d' t else RunPqFunction (Fn_MarkStreamActive (fst p) (snd p)) (dc_put p d' t))"
      "sending (tick_ms pq) du iv d'" "cur_bytes d' = cur_bytes d"
      "queued d' = by_key (queued d) (tick_ms pq + lifetime du (unat (eq_ttl_ms e)), object_key e, eq_bytes e)"
      "dc_current_stream_id d' = dc_current_stream_id d" "dc_mark_stream_active d'"
      using Enqueue_step [OF r(1) _ r(7), of pq du iv e] r(2) assms(2) Tx_enqueue by auto
    let ?t = "if dc_mark_stream_active d then dc_put p d' t else RunPqFunction (Fn_MarkStreamActive (fst p) (snd p)) (dc_put p d' t)"
    have "dc_find p ?t = Some d'" using r(1) by (simp add: dc_find_put)
    then have "tx_rel p du iv w (tick_ms pq) (sender_step du ev s) ?t"
      using r(3-9) e(2-6) Tx_enqueue by (auto simp: tx_rel_def sq_Push_def)
    then show ?thesis using e(1) Tx_enqueue by (auto simp: tx_event_run_def seq_eq(1))
  next
    case (Tx_runner pq)
    show ?thesis
    proof (cases "dc_mark_stream_active d")
      case True
      obtain t' where t': "PqRunner pq t = (Inr Pq_return_0, t')" "dc_find p t' = Some (d\<lparr>dc_mark_stream_active := False\<rparr>)"
        "pt_calls t' = pt_calls t @ [Pq_mark_active_stream (fst p) sid True (Some p), Pq_set_stream_priority (fst p) sid (push_bit 1 (dc_priority d))]"
        "\<not> pt_state_mutex t'" "sq_queue (pt_runner_queue t') = []" "sq_empty (pt_runner_queue t')"
        using PqRunner_mark_active [of "fst p" "snd p" t d sid pq] r(1,5,7-9) True by auto
      have "sending (tick_ms pq) du iv (d\<lparr>dc_mark_stream_active := False\<rparr>)" using r(2) Tx_runner by (simp add: sending_def)
      moreover have "cur_bytes (d\<lparr>dc_mark_stream_active := False\<rparr>) = cur_bytes d" "queued (d\<lparr>dc_mark_stream_active := False\<rparr>) = queued d"
        by (simp_all add: cur_bytes_def queued_def split: option.split)
      ultimately have "tx_rel p du iv w (tick_ms pq) s t'"
        using t' r(3-6) by (simp add: tx_rel_def) (simp add: written_def)
      then show ?thesis using t'(1) Tx_runner by (simp add: tx_event_run_def seq_eq(1))
    next
      case False
      then have "PqRunner pq t = (Inr Pq_return_0, t)" using r(8,9) by (simp add: PqRunner_idle)
      then show ?thesis using assms(1) Tx_runner by (simp add: tx_event_run_def seq_eq(1))
    qed
  next
    case (Tx_prepare pq room)
    obtain cur queue where n: "next_object (snd_cur s) (snd_queue s) = (cur, queue)" by fastforce
    have ev: "sending (tick_ms pq) du iv d" "0 < room" "\<forall>calls. buffer_available pq calls"
      "next_object (cur_bytes d) (queued d) = (cur, queue)" using r(2-4) assms(2) n Tx_prepare by simp_all
    obtain d' t' where p: "SendStreamBytes pq (Some p) (Some 0) room t = (Inr (), t')" "dc_find p t' = Some d'"
      "sending (tick_ms pq) du iv d'" "written (pt_calls t') = written (pt_calls t) @ take room cur" "cur_bytes d' = drop room cur"
      "queued d' = queue" "mark_part d' = mark_part d" "pt_runner_queue t' = pt_runner_queue t" "pt_state_mutex t' = pt_state_mutex t"
      "cur_bytes d' \<noteq> [] \<or> queued d' \<noteq> [] \<longrightarrow> stream_active (fst p) sid (pt_calls t')"
      using SendStreamBytes_step [OF r(1) ev, of 0 "fst p" sid] by blast
    let ?s = "sender_step du ev s"
    have s: "?s = \<lparr>snd_out = snd_out s @ take room cur, snd_cur = drop room cur, snd_queue = queue\<rparr>" using n Tx_prepare by simp
    have "sender_left ?s \<noteq> [] \<Longrightarrow> stream_active (fst p) sid (pt_calls t')" using p(3,5,6,10) s sending_left [OF p(3), of ?s] by simp
    then have "tx_rel p du iv w (tick_ms pq) ?s t'"
      using p(2-9) r(5-9) s by (simp add: tx_rel_def mark_part_def)
    then show ?thesis using p(1) Tx_prepare by (simp add: tx_event_run_def)
  qed
qed

lemma tx_run_refines:
  "tx_rel p du iv w now s t \<Longrightarrow> events_ok p du (2 * bucket_ms du iv) now evs s \<Longrightarrow>
     \<exists>t' now'. tx_run p evs t = (Inr (), t') \<and> tx_rel p du iv w now' (fold (sender_step du) evs s) t'"
proof (induction evs arbitrary: now s t)
  case (Cons ev evs)
  have "tx_rel p du iv w (tick_ms (tx_env ev)) s t" by (rule tx_rel_wait [OF Cons.prems(1)]) (use Cons.prems(2) in simp_all)
  then obtain t1 where t1: "tx_event_run p ev t = (Inr (), t1)" "tx_rel p du iv w (tick_ms (tx_env ev)) (sender_step du ev s) t1"
    using tx_event_step [of p du iv w ev s t] Cons.prems(2) by auto
  then show ?case using Cons.IH [OF t1(2)] Cons.prems(2) by (simp add: seq_eq(1))
qed auto

text \<open>Enough offers empty the abstract sender.\<close>

definition offers :: "(picoquic \<times> nat) list \<Rightarrow> tx_event list" where
  "offers rooms = map (\<lambda>(pq, room). Tx_prepare pq room) rooms"

lemma prepare_left:
  assumes "0 < room" "\<forall>x \<in> set (snd_queue s). snd (snd x) \<noteq> []"
  shows "\<exists>n. snd_out (sender_step du (Tx_prepare pq room) s) = snd_out s @ take n (sender_left s) \<and>
    sender_left (sender_step du (Tx_prepare pq room) s) = drop n (sender_left s) \<and> (sender_left s \<noteq> [] \<longrightarrow> 0 < n) \<and>
    (\<forall>x \<in> set (snd_queue (sender_step du (Tx_prepare pq room) s)). snd (snd x) \<noteq> [])"
proof -
  obtain cur queue where n: "next_object (snd_cur s) (snd_queue s) = (cur, queue)" by fastforce
  have left: "sender_left s = cur @ concat (map (snd \<circ> snd) queue)" "sender_left s \<noteq> [] \<longrightarrow> cur \<noteq> []" "set queue \<subseteq> set (snd_queue s)"
    using n assms(2) by (cases "(snd_cur s, snd_queue s)" rule: next_object.cases; auto simp: sender_left_def)+
  have "take (min room (length cur)) cur = take room cur" "drop (min room (length cur)) cur = drop room cur"
    by (simp_all add: min_def)
  then show ?thesis using n left assms by (intro exI [of _ "min room (length cur)"]) (auto simp: sender_left_def)
qed

lemma offers_drain:
  assumes "\<forall>x \<in> set (snd_queue s). snd (snd x) \<noteq> []" "\<forall>r \<in> set rooms. 0 < snd r" "length (sender_left s) \<le> length rooms"
  shows "snd_out (fold (sender_step du) (offers rooms) s) = snd_out s @ sender_left s \<and> sender_left (fold (sender_step du) (offers rooms) s) = []"
  using assms
proof (induction rooms arbitrary: s)
  case (Cons r rooms)
  let ?s = "sender_step du (Tx_prepare (fst r) (snd r)) s"
  obtain n where n: "snd_out ?s = snd_out s @ take n (sender_left s)" "sender_left ?s = drop n (sender_left s)" "sender_left s \<noteq> [] \<longrightarrow> 0 < n"
    "\<forall>x \<in> set (snd_queue ?s). snd (snd x) \<noteq> []" using prepare_left [of "snd r" s du "fst r"] Cons.prems(1,2) by auto
  have "length (sender_left ?s) \<le> length rooms" using n(2,3) Cons.prems(3) by (cases "sender_left s = []") auto
  from Cons.IH [OF n(4) _ this] n(1,2) Cons.prems(2) show ?case by (simp add: offers_def case_prod_beta)
qed (simp add: offers_def)

lemma events_queue:
  "events_ok p du m now evs s \<Longrightarrow> \<forall>x \<in> set (snd_queue s). snd (snd x) \<noteq> [] \<Longrightarrow>
     \<forall>x \<in> set (snd_queue (fold (sender_step du) evs s)). snd (snd x) \<noteq> []"
proof (induction evs arbitrary: now s)
  case (Cons ev evs)
  have "\<forall>x \<in> set (snd_queue (sender_step du ev s)). snd (snd x) \<noteq> []"
  proof (cases ev)
    case (Tx_prepare pq room)
    then show ?thesis using Cons.prems prepare_left [of room s du pq] by auto
  qed (use Cons.prems in \<open>auto simp: by_key_def stream_object_def\<close>)
  then show ?case using Cons.IH Cons.prems(1) by auto
qed simp

lemma offers_rooms: "events_ok p du m now (evs @ offers rooms) s \<Longrightarrow> \<forall>r \<in> set rooms. 0 < snd r"
proof -
  have "events_ok p du m now (offers rooms) s \<Longrightarrow> \<forall>r \<in> set rooms. 0 < snd r" for now s
    by (induction rooms arbitrary: now s) (auto simp: offers_def)
  moreover have "events_ok p du m now (evs @ evs') s \<Longrightarrow> \<exists>now' s'. events_ok p du m now' evs' s'" for evs'
    by (induction evs arbitrary: now s) auto
  ultimately show "events_ok p du m now (evs @ offers rooms) s \<Longrightarrow> \<forall>r \<in> set rooms. 0 < snd r" by blast
qed

lemma created_rel:
  assumes "conn_find cid t = Some c" "map_find (pc_active_data_contexts c) (pc_next_data_ctx_id c) = None" "priority \<le> 127"
    "\<not> pt_state_mutex t" "sq_queue (pt_runner_queue t) = []" "tx_queue_new t = Inr q"
    "time_queue_max_duration (pt_tconfig t) < limit64"
  shows "\<exists>t1. CreateDataContext pq cid True priority bidir t = (Inr (pc_next_data_ctx_id c), t1) \<and>
    tx_rel (cid, pc_next_data_ctx_id c) (time_queue_max_duration (pt_tconfig t)) (time_queue_bucket_interval (pt_tconfig t))
      (written (pt_calls t)) 0 sender_new t1"
proof -
  let ?did = "pc_next_data_ctx_id c" and ?du = "time_queue_max_duration (pt_tconfig t)" and ?iv = "time_queue_bucket_interval (pt_tconfig t)"
  have q: "pq_inv 0 q" "pq_duration_ms q = ?du" "pq_interval_ms q = ?iv" "pq_queues q = []"
    using PriorityQueue_new_inv [OF assms(6) [unfolded tx_queue_new_def], of 0] assms(7) by simp_all
  obtain t1 d sid where c: "CreateDataContext pq cid True priority bidir t = (Inr ?did, t1)" "dc_find (cid, ?did) t1 = Some d"
    "tx_part d = (Some q, None, 0, Some sid, False, False, True)"
    "pt_calls t1 = pt_calls t @ [Pq_set_app_stream_ctx cid sid (Some (cid, ?did)), Pq_wake_up_network_thread]"
    "\<not> pt_state_mutex t1" "pt_runner_queue t1 = snd (sq_Push (Fn_MarkStreamActive cid ?did) (pt_runner_queue t))"
    using CreateDataContext_stream [OF assms(1-4,6), of pq bidir] by blast
  have items: "pq_items q = []" using q(4) by (simp add: pq_items_def)
  have "sending 0 ?du ?iv d" using c(3) q items by (simp add: sending_def tx_part_def)
  then show ?thesis using c items assms(5)
    by (auto simp: tx_rel_def tx_part_def cur_bytes_def queued_def queue_bytes_def sender_new_def sender_left_def sq_Push_def)
qed

lemma new_stream_refines:
  assumes "conn_find cid t = Some c" "map_find (pc_active_data_contexts c) (pc_next_data_ctx_id c) = None" "priority \<le> 127"
    "\<not> pt_state_mutex t" "sq_queue (pt_runner_queue t) = []" "tx_queue_new t = Inr q" "time_queue_max_duration (pt_tconfig t) < limit64"
    "events_ok (cid, pc_next_data_ctx_id c) (time_queue_max_duration (pt_tconfig t))
       (2 * bucket_ms (time_queue_max_duration (pt_tconfig t)) (time_queue_bucket_interval (pt_tconfig t))) 0 evs sender_new"
  shows "\<exists>t1 t2 now. CreateDataContext pq cid True priority bidir t = (Inr (pc_next_data_ctx_id c), t1) \<and>
    tx_run (cid, pc_next_data_ctx_id c) evs t1 = (Inr (), t2) \<and>
    tx_rel (cid, pc_next_data_ctx_id c) (time_queue_max_duration (pt_tconfig t)) (time_queue_bucket_interval (pt_tconfig t))
      (written (pt_calls t)) now (fold (sender_step (time_queue_max_duration (pt_tconfig t))) evs sender_new) t2"
  using created_rel [OF assms(1-7), of pq bidir] tx_run_refines assms(8) by blast


text \<open>When all objects have the same priority and group, as control messages do, they leave in the order they were queued.\<close>

definition sent_bytes :: "tx_event list \<Rightarrow> bytes" where
  "sent_bytes evs = concat (map (\<lambda>ev. case ev of Tx_enqueue _ e \<Rightarrow> eq_bytes e | _ \<Rightarrow> []) evs)"

lemma same_key_sorted: "\<forall>x \<in> set l. fst (snd x) = k \<Longrightarrow> by_key l (x, k, v) = l @ [(x, k, v)]"
proof -
  assume "\<forall>x \<in> set l. fst (snd x) = k"
  then have "sorted (map (\<lambda>(_, k, _). k) (l @ [(x, k, v)]))" by (induction l) (auto simp: case_prod_beta)
  then show ?thesis unfolding by_key_def by (rule sort_key_id_if_sorted)
qed

lemma same_key_sends:
  assumes "\<forall>ev \<in> set evs. \<forall>pq e. ev = Tx_enqueue pq e \<longrightarrow> object_key e = k" "\<forall>x \<in> set (snd_queue s). fst (snd x) = k"
  shows "snd_out (fold (sender_step du) evs s) @ sender_left (fold (sender_step du) evs s) = snd_out s @ sender_left s @ sent_bytes evs"
  using assms
proof (induction evs arbitrary: s)
  case (Cons ev evs)
  let ?s = "sender_step du ev s"
  have "snd_out ?s @ sender_left ?s = snd_out s @ sender_left s @ sent_bytes [ev] \<and> (\<forall>x \<in> set (snd_queue ?s). fst (snd x) = k)"
  proof (cases ev)
    case (Tx_enqueue pq e)
    then show ?thesis using Cons.prems same_key_sorted [OF Cons.prems(2)] by (auto simp: sender_left_def sent_bytes_def)
  next
    case (Tx_prepare pq room)
    obtain cur queue where n: "next_object (snd_cur s) (snd_queue s) = (cur, queue)" by fastforce
    have "sender_left s = cur @ concat (map (snd \<circ> snd) queue)" "set queue \<subseteq> set (snd_queue s)"
      using n by (cases "(snd_cur s, snd_queue s)" rule: next_object.cases; auto simp: sender_left_def)+
    then show ?thesis using n Tx_prepare Cons.prems(2) by (auto simp: sender_left_def sent_bytes_def)
  qed (use Cons.prems in \<open>simp add: sent_bytes_def\<close>)
  then show ?case using Cons.IH [of ?s] Cons.prems(1) by (simp add: sent_bytes_def)
qed (simp add: sent_bytes_def)


subsection \<open>The theorem on a concrete transport\<close>

definition pico_config :: TransportConfig where
  "pico_config = \<lparr>tls_cert_filename = [], tls_key_filename = [], time_queue_max_duration = 20, time_queue_bucket_interval = 5,
     time_queue_rx_size = 10, idle_timeout_ms = 30000, use_reset_wait_strategy = False, quic_priority_limit = 0, callback_queue_size = 20\<rparr>"

definition pico0 :: PicoQuicTransport where
  "pico0 = \<lparr>pt_is_server_mode = False, pt_stop = False, pt_status = TransportStatus_kReady, pt_tconfig = pico_config,
     pt_conn_context = [(7, PqConnection_new\<lparr>pc_conn_id := 7\<rparr>)], pt_rx_contexts = (\<lambda>_. StreamRxContext_new), pt_next_rx = 0,
     pt_cbNotifyQueue = SafeQueue_new 20, pt_runner_queue = SafeQueue_new 20, pt_state_mutex = False, pt_start_conn_id = None, pt_loop_prev_time = 0,
     pt_loop_metrics_prev_time = 0, pt_calls = [], pt_delegate = []\<rparr>"

definition pq_env0 :: picoquic where
  "pq_env0 = \<lparr>tick_ms = 100, tick_us = 100000, next_local_stream_id = (\<lambda>_ _ _. 2), buffer_available = (\<lambda>_. True),
     get_cwin = (\<lambda>_. 100000), get_path_quality = (\<lambda>_. \<lparr>pq_lost = 0, pq_cwin = 100000, pq_bytes_in_transit = 0, pq_spurious_losses = 0,
       pq_timer_losses = 0, pq_rtt_sample = 10, pq_rtt = 10, pq_pacing_rate = 0, pq_receive_rate_estimate = 0\<rparr>),
     nb_retransmission_total = (\<lambda>_. 0), peer_addr = (\<lambda>_. None), application_error = (\<lambda>_. 0),
     local_error_idle_timeout = (\<lambda>_. False), cnx_list = [],
     server_resolved = True, create_cnx = Some 7, start_client_cnx = True\<rparr>"

definition pq_at :: "nat \<Rightarrow> picoquic" where
  "pq_at now = pq_env0\<lparr>tick_ms := now\<rparr>"

definition pico_object :: "u64 \<Rightarrow> bytes \<Rightarrow> enqueue_call" where
  "pico_object group_id data = \<lparr>eq_conn_id = 7, eq_data_ctx_id = 1, eq_group_id = group_id, eq_bytes = data, eq_priority = 3,
     eq_ttl_ms = 18, eq_delay_ms = 0,
     eq_flags = \<lparr>use_reliable = True, new_stream = False, clear_tx_queue = False, use_reset = False\<rparr>\<rparr>"

lemma pico0_simps [simp]:
  "pt_calls pico0 = []" "pt_state_mutex pico0 = False" "sq_queue (pt_runner_queue pico0) = []"
  "conn_find 7 pico0 = Some (PqConnection_new\<lparr>pc_conn_id := 7\<rparr>)" "pt_is_server_mode pico0 = False"
  "time_queue_max_duration (pt_tconfig pico0) = 20" "time_queue_bucket_interval (pt_tconfig pico0) = 5"
  "buffer_available pq_env0 = (\<lambda>_. True)" "tick_ms pq_env0 = 100" "buffer_available (pq_at now) = (\<lambda>_. True)" "tick_ms (pq_at now) = now"
  by (simp_all add: pico0_def conn_find_def SafeQueue_new_def pico_config_def pq_env0_def pq_at_def)

lemma pico0_queue: "\<exists>q. tx_queue_new pico0 = Inr q"
proof -
  have "\<exists>tq :: ConnData TimeQueue. TimeQueue_new 20 5 True = Inr tq"
    by (simp add: TimeQueue_new_def kMaxBuckets_def)
  then show ?thesis
    by (auto simp: tx_queue_new_def pico0_def pico_config_def PriorityQueue_new_def InitFreeTimeQueues_def kMinFreeTimeQueues_def numeral_2_eq_2)
qed

text \<open>An object of group 4 that is queued while one of group 5 waits leaves first, in pieces, and an object that is queued
  after it was begun does not interrupt it.\<close>

definition tx_events :: "tx_event list" where
  "tx_events = [Tx_enqueue (pq_at 100) (pico_object 5 [30]), Tx_runner (pq_at 101), Tx_enqueue (pq_at 102) (pico_object 4 [10, 20]),
     Tx_prepare (pq_at 103) 1, Tx_enqueue (pq_at 104) (pico_object 3 [5])]"

definition tx_rooms :: "(picoquic \<times> nat) list" where
  "tx_rooms = [(pq_at 105, 9), (pq_at 106, 1), (pq_at 107, 2)]"

lemma pico_events:
  "events_ok (7, 1) 20 10 0 (tx_events @ offers tx_rooms) sender_new"
  "snd_out (fold (sender_step 20) tx_events sender_new) = [10]" "sender_left (fold (sender_step 20) tx_events sender_new) = [20, 5, 30]"
  by (simp_all add: tx_events_def tx_rooms_def offers_def sender_new_def sender_left_def by_key_def lifetime_def object_key_def
      pico_object_def stream_object_def limit64_def)


text \<open>A control stream, on a transport with the default duration and interval of the queues: a message that is sent while another
  is on its way, and two that wait for more than a second.\<close>

definition pico_control :: PicoQuicTransport where
  "pico_control = pico0\<lparr>pt_tconfig := pico_config\<lparr>time_queue_max_duration := 2000, time_queue_bucket_interval := 1\<rparr>\<rparr>"

lemma pico_control_queue: "\<exists>q. tx_queue_new pico_control = Inr q"
proof -
  have "\<exists>tq :: ConnData TimeQueue. TimeQueue_new 2000 1 True = Inr tq" by (simp add: TimeQueue_new_def kMaxBuckets_def)
  then show ?thesis
    by (auto simp: tx_queue_new_def pico_control_def pico0_def pico_config_def PriorityQueue_new_def InitFreeTimeQueues_def
        kMinFreeTimeQueues_def numeral_2_eq_2)
qed

definition cc0 :: ConnectionContext where
  "cc0 = ConnectionContext_new\<lparr>connection_handle := 7\<rparr>"

definition ctrl_events :: "tx_event list" where
  "ctrl_events = [Tx_enqueue (pq_at 100) (ctrl_call cc0 1 [1, 2]), Tx_runner (pq_at 101), Tx_prepare (pq_at 102) 1,
     Tx_enqueue (pq_at 103) (ctrl_call cc0 1 [3]), Tx_prepare (pq_at 104) 9, Tx_enqueue (pq_at 105) (ctrl_call cc0 1 [4])]"

definition ctrl_rooms :: "(picoquic \<times> nat) list" where
  "ctrl_rooms = [(pq_at 2000, 1), (pq_at 2001, 1), (pq_at 2050, 8), (pq_at 3000, 8)]"

lemma ctrl_events_ok:
  "events_ok (7, 1) 2000 4 0 (ctrl_events @ offers ctrl_rooms) sender_new" "sent_bytes ctrl_events = [1, 2, 3, 4]"
  by (simp_all add: ctrl_events_def ctrl_rooms_def offers_def sender_new_def by_key_def lifetime_def object_key_def ctrl_call_def
      stream_object_def limit64_def sent_bytes_def cc0_def)


end
