(* ===== verification/Pico_Safety.thy ===== *)
theory Pico_Safety
  imports Pico_Pointers Pico_Delivery
begin

section \<open>Reachable states of the picoquic transport\<close>

text \<open>
  The remaining operations keep the invariant on stream contexts, the steps of the transport and of picoquic, and
  what follows for the pointers that picoquic passes back.
\<close>

subsection \<open>Connections and data contexts\<close>

lemma keeps_CreateDataContext: "keeps (CreateDataContext pq cid reliable priority bidir)"
  unfolding CreateDataContext_def
proof (rule keeps_lock_guard, rule keeps_state_if, goal_cases)
  case 1 show ?case by (rule keeps_throw)
next
  case 2
  show ?case
  proof (rule keepsI)
    fix t assume t: "ptr_inv t"
    let ?rest = "\<lambda>t0 did. seq (lift_result (tx_queue_new t0)) (\<lambda>q. seq (put_tx_queue (cid, did) q) (\<lambda>_.
      seq (if reliable then CreateStream pq cid (cid, did) else update (call_pq (Pq_set_datagram_priority cid priority))) (\<lambda>_. ok did)))"
    have k: "keeps (?rest t0 did)" for t0 did
      using keeps_CreateStream [of pq "(cid, did)"] by (intro keeps_basic) simp_all
    show "good (case conn_find cid t of None \<Rightarrow> ok 0 t | Some c \<Rightarrow> let did = pc_next_data_ctx_id c in
      (case map_find (pc_active_data_contexts c) did of Some d \<Rightarrow> ok (dc_data_ctx_id d) t
       | None \<Rightarrow>
           let d = DataContext_new\<lparr>dc_conn_id := cid, dc_is_bidir := bidir, dc_data_ctx_id := did, dc_priority := priority,
                     dc_uses_reset_wait := use_reset_wait_strategy (pt_tconfig t)\<rparr>;
               t = conn_put cid (c\<lparr>pc_next_data_ctx_id := did + 1,
                     pc_active_data_contexts := map_put did d (pc_active_data_contexts c)\<rparr>) t
           in ?rest t did t))"
    proof (cases "conn_find cid t")
      case c: (Some c)
      let ?did = "pc_next_data_ctx_id c"
      let ?d = "DataContext_new\<lparr>dc_conn_id := cid, dc_is_bidir := bidir, dc_data_ctx_id := ?did, dc_priority := priority,
        dc_uses_reset_wait := use_reset_wait_strategy (pt_tconfig t)\<rparr>"
      let ?t = "conn_put cid (c\<lparr>pc_next_data_ctx_id := ?did + 1, pc_active_data_contexts := map_put ?did ?d (pc_active_data_contexts c)\<rparr>) t"
      show ?thesis
      proof (cases "map_find (pc_active_data_contexts c) ?did")
        case None
        have "ptr_inv ?t" by (rule ptr_inv_new_context [OF t c None]) simp_all
        from keepsD [OF k this, of ?t ?did] show ?thesis using c None by (simp add: Let_def)
      qed (use c t in simp)
    qed (use t in simp)
  qed
qed

lemma keeps_CreateDataContextBiDirRecv: "keeps (CreateDataContextBiDirRecv cid sid)"
  unfolding CreateDataContextBiDirRecv_def
proof (rule keeps_lock_guard, rule keepsI)
  fix t assume t: "ptr_inv t"
  show "good (case conn_find cid t of None \<Rightarrow> ok None t | Some c \<Rightarrow> let did = pc_next_data_ctx_id c in
      (case map_find (pc_active_data_contexts c) did of Some _ \<Rightarrow> ok None t
       | None \<Rightarrow>
           let d = DataContext_new\<lparr>dc_conn_id := cid, dc_is_bidir := True, dc_data_ctx_id := did, dc_priority := 1\<rparr>;
               t = conn_put cid (c\<lparr>pc_next_data_ctx_id := did + 1,
                     pc_active_data_contexts := map_put did d (pc_active_data_contexts c)\<rparr>) t
           in seq (lift_result (tx_queue_new t)) (\<lambda>q. seq (put_tx_queue (cid, did) q) (\<lambda>_.
              seq (dc_mod (cid, did) (\<lambda>d. d\<lparr>dc_current_stream_id := Some sid\<rparr>)) (\<lambda>_.
              seq (update (notify (Cb_NewDataContext cid did))) (\<lambda>_. ok (Some (cid, did)))))) t))"
  proof (cases "conn_find cid t")
    case c: (Some c)
    let ?did = "pc_next_data_ctx_id c"
    let ?d = "DataContext_new\<lparr>dc_conn_id := cid, dc_is_bidir := True, dc_data_ctx_id := ?did, dc_priority := 1\<rparr>"
    let ?t = "conn_put cid (c\<lparr>pc_next_data_ctx_id := ?did + 1, pc_active_data_contexts := map_put ?did ?d (pc_active_data_contexts c)\<rparr>) t"
    show ?thesis
    proof (cases "map_find (pc_active_data_contexts c) ?did")
      case None
      have t1: "ptr_inv ?t" by (rule ptr_inv_new_context [OF t c None]) simp_all
      have f1: "dc_find (cid, ?did) ?t = Some ?d" by (simp add: dc_find_def map_find_put)
      have "ptr_inv (notify n (dc_put (cid, ?did) (?d\<lparr>dc_tx_data := Some q, dc_current_stream_id := Some sid\<rparr>) ?t))" for q n
        by (rule ptr_inv_cong [OF ptr_inv_new_stream [OF t1 f1]]) (simp_all add: DataContext_new_def)
      then show ?thesis using c None f1 t1
        by (cases "tx_queue_new ?t") (simp_all add: seq_lift live_simps Let_def, simp add: seq_def lift_result_def good_def)
    qed (use c t in simp)
  qed (use t in simp)
qed

lemma CreateConnContext_good:
  assumes t: "ptr_inv t" and fresh: "conn_find cid t = None \<Longrightarrow> fresh_conn cid t"
  shows "good (CreateConnContext pq cid t)"
proof -
  define c0 where "c0 = (case conn_find cid t of None \<Rightarrow> PqConnection_new | Some c \<Rightarrow> c)\<lparr>pc_conn_id := cid, pc_peer_addr_text := []\<rparr>"
  define c where "c = (case peer_addr pq cid of None \<Rightarrow> c0 | Some (txt, port) \<Rightarrow> c0\<lparr>pc_peer_addr_text := txt, pc_peer_port := port\<rparr>)"
  have k: "keeps (seq (update (conn_mod cid (\<lambda>c. c\<lparr>pc_dgram_rx_data := sq_SetLimit l (pc_dgram_rx_data c)\<rparr>))) (\<lambda>_.
      seq (lift_result r) (\<lambda>q. update (conn_mod cid (\<lambda>c. c\<lparr>pc_dgram_tx_data := Some q\<rparr>)))))" for l r
    by (intro keeps_basic) simp_all
  have dcs: "pc_active_data_contexts c = pc_active_data_contexts (case conn_find cid t of None \<Rightarrow> PqConnection_new | Some c \<Rightarrow> c)"
    by (simp add: c_def c0_def split: option.split)
  have t1: "ptr_inv (conn_put cid c t)"
  proof (cases "conn_find cid t")
    case None
    then show ?thesis using ptr_inv_new_conn [OF t None] dcs fresh [OF None] by (simp add: PqConnection_new_def)
  next
    case (Some c')
    then show ?thesis using ptr_inv_conn_put [OF t Some] dcs by simp
  qed
  show "good (CreateConnContext pq cid t)"
    using t1 keepsD [OF k t1] unfolding CreateConnContext_def Let_def c0_def [symmetric] c_def [symmetric] by simp
qed

lemma keeps_OnConnectionStatus: "keeps (pq_OnConnectionStatus cid s)"
  unfolding pq_OnConnectionStatus_def by (intro keeps_basic)

lemma ptr_inv_notify: "ptr_inv t \<Longrightarrow> ptr_inv (notify n t)"
  by (erule ptr_inv_cong) simp_all

lemma keeps_OnNewConnection: "keeps (pq_OnNewConnection cid)"
  by (rule keepsI) (simp add: pq_OnNewConnection_def ptr_inv_call ptr_inv_notify split: option.split)

lemma close_stream_calls_inv: "ptr_inv t \<Longrightarrow> ptr_inv (fold (close_stream_calls cid) bufs t)"
proof (induction bufs arbitrary: t)
  case (Cons b bufs)
  have "ptr_inv (close_stream_calls cid b t)" using Cons.prems by (simp add: close_stream_calls_def Let_def ptr_inv_call)
  then show ?case using Cons.IH by simp
qed simp

lemma keeps_Close: "keeps (Close cid r)"
  unfolding Close_def
proof (rule keeps_lock_guard, rule keepsI)
  fix t assume t: "ptr_inv t"
  have erase: "keeps (seq (update (call_pq (Pq_close cid r))) (\<lambda>_. update (\<lambda>t. t\<lparr>pt_conn_context := map_erase cid (pt_conn_context t)\<rparr>)))"
    by (rule keepsI) (simp add: ptr_inv_closed [OF ptr_inv_call, simplified] ptr_inv_call)
  have "keeps (seq (update (fold (close_stream_calls cid) bufs)) (\<lambda>_.
      seq (pq_OnConnectionStatus cid s) (\<lambda>_. seq (if b then update (SetStatus TransportStatus_kShutdown) else ok ()) (\<lambda>_.
      seq (update (call_pq (Pq_close cid r))) (\<lambda>_. update (\<lambda>t. t\<lparr>pt_conn_context := map_erase cid (pt_conn_context t)\<rparr>))))))" for bufs s b
    by (intro keeps_seq erase keeps_OnConnectionStatus keeps_if keeps_status keeps_ok keeps_update close_stream_calls_inv)
  note k = keepsD [OF this t]
  show "good (case conn_find cid t of None \<Rightarrow> ok () t | Some c \<Rightarrow> seq (update (fold (close_stream_calls cid) (pc_rx_stream_buffer c))) (\<lambda>_.
      seq (pq_OnConnectionStatus cid (close_status r)) (\<lambda>_. seq (if \<not> pt_is_server_mode t then update (SetStatus TransportStatus_kShutdown) else ok ()) (\<lambda>_.
      seq (update (call_pq (Pq_close cid r))) (\<lambda>_. update (\<lambda>t. t\<lparr>pt_conn_context := map_erase cid (pt_conn_context t)\<rparr>))))) t)"
  proof (cases "conn_find cid t")
    case (Some c)
    then show ?thesis using k [of "pc_rx_stream_buffer c" "close_status r" "\<not> pt_is_server_mode t"] by (simp only: option.case)
  qed (use t in simp)
qed

subsection \<open>Receiving\<close>

lemma keeps_GetStreamRxContext: "keeps (GetStreamRxContext cid sid)"
  unfolding GetStreamRxContext_def by (rule keeps_lock_guard) (simp add: keeps_def split: option.split)

lemma keeps_Dequeue: "keeps (Dequeue cid)"
  unfolding Dequeue_def
  by (rule keeps_lock_guard) (auto simp: keeps_def split: option.split prod.split intro: ptr_inv_conn_put)

lemma keeps_SetDataCtxPriority: "keeps (SetDataCtxPriority cid did pr)"
  unfolding SetDataCtxPriority_def by (rule keeps_lock_guard, rule keeps_state_option) (intro keeps_basic; simp)+

lemma keeps_OnRecvDatagram: "keeps (OnRecvDatagram cid data)"
  by (rule keepsI)
    (auto simp: OnRecvDatagram_def seq_def GetConnContext_def Let_def ptr_inv_notify split: option.split intro!: ptr_inv_notify ptr_inv_conn_put)

lemma keeps_rx_buffer: "keeps (rx_buffer cid sid)"
proof (rule keepsI)
  fix t assume t: "ptr_inv t"
  show "good (rx_buffer cid sid t)"
  proof (cases "conn_find cid t")
    case None
    then show ?thesis by (simp add: rx_buffer_def seq_def GetConnContext_def)
  next
    case (Some c)
    have "ptr_inv (conn_put cid (c\<lparr>pc_rx_stream_buffer := b\<rparr>) (t\<lparr>pt_next_rx := n, pt_rx_contexts := r\<rparr>))" for b n r
      by (rule ptr_inv_conn_put [OF ptr_inv_cong [OF t]]) (use Some in simp_all)
    then show ?thesis using Some t by (simp add: rx_buffer_def seq_GetConnContext Let_def split: option.split)
  qed
qed

lemma set_rx_closed_inv: "ptr_inv t \<Longrightarrow> ptr_inv (set_rx_closed cid sid rb t)"
  unfolding set_rx_closed_def by (rule ptr_inv_conn_mod) simp_all

lemma ptr_inv_rx_contexts: "ptr_inv t \<Longrightarrow> ptr_inv (t\<lparr>pt_rx_contexts := r\<rparr>)"
  by (erule ptr_inv_cong) simp_all

lemma keeps_OnRecvStreamBytes: "keeps (OnRecvStreamBytes pq cid dc sid data)"
proof -
  have dcs: "keeps (case dc of Some p \<Rightarrow> seq (dc_met p g) (\<lambda>_. if b then update (notify (Cb_RecvStream cid sid (Some p))) else ok ())
      | None \<Rightarrow> update (notify (Cb_RecvStream cid sid None)))" for g b
    by (cases dc) (simp_all add: keeps_notify keeps_seq keeps_dc_met keeps_ok)
  show ?thesis unfolding OnRecvStreamBytes_def
  proof (intro keeps_if keeps_ok keeps_lock_guard keeps_seq keeps_rx_buffer, rule keepsI)
    fix rb t assume t: "ptr_inv t"
    show "good (let rx = pt_rx_contexts t (rb_rx_ctx rb) in
      if rx_unknown_expiry_tick_ms rx \<noteq> 0 \<and> of_nat (tick_ms pq) > rx_unknown_expiry_tick_ms rx then
        seq (update (call_pq (Pq_reset_stream_ctx cid sid))) (\<lambda>_.
        seq (update (call_pq (Pq_reset_stream cid sid kUnknownExpiry))) (\<lambda>_. update (set_rx_closed cid sid rb))) t
      else
        let q = snd (sq_Push data (rx_queue rx)) in
        seq (update (\<lambda>t. t\<lparr>pt_rx_contexts := (pt_rx_contexts t)(rb_rx_ctx rb := rx\<lparr>rx_queue := q\<rparr>)\<rparr>)) (\<lambda>_.
        case dc of
          Some p \<Rightarrow>
            seq (dc_met p (\<lambda>m. m\<lparr>qd_rx_stream_cb := qd_rx_stream_cb m + 1, qd_rx_stream_bytes := qd_rx_stream_bytes m + of_nat (length data)\<rparr>)) (\<lambda>_.
            if sq_Size q < 10 then update (notify (Cb_RecvStream cid sid (Some p))) else ok ())
        | None \<Rightarrow> update (notify (Cb_RecvStream cid sid None))) t)"
      using keepsD [OF dcs ptr_inv_rx_contexts [OF t]] t by (simp add: Let_def set_rx_closed_inv ptr_inv_call)
  qed
qed

text \<open>Receiving octets registers nothing and leaves the current streams alone.\<close>

definition quiet :: "'a pq \<Rightarrow> bool" where
  "quiet m \<longleftrightarrow> (\<forall>t x t'. m t = (Inr x, t') \<longrightarrow>
     (\<forall>y. app_ctx (pt_calls t') y = app_ctx (pt_calls t) y \<or> app_ctx (pt_calls t') y = None) \<and>
     (\<forall>p. map_option ids (dc_find p t') = map_option ids (dc_find p t)))"

lemma quietD:
  assumes "quiet m" "m t = (Inr x, t')"
  shows "app_ctx (pt_calls t') y = app_ctx (pt_calls t) y \<or> app_ctx (pt_calls t') y = None"
    "map_option ids (dc_find p t') = map_option ids (dc_find p t)"
proof -
  have "(\<forall>y. app_ctx (pt_calls t') y = app_ctx (pt_calls t) y \<or> app_ctx (pt_calls t') y = None) \<and>
      (\<forall>p. map_option ids (dc_find p t') = map_option ids (dc_find p t))" by (rule assms(1) [unfolded quiet_def, rule_format, OF assms(2)])
  note both = this
  show "app_ctx (pt_calls t') y = app_ctx (pt_calls t) y \<or> app_ctx (pt_calls t') y = None" by (rule conjunct1 [OF both, THEN spec])
  show "map_option ids (dc_find p t') = map_option ids (dc_find p t)" by (rule conjunct2 [OF both, THEN spec])
qed

lemma quiet_seq:
  assumes "quiet m" "\<And>x. quiet (f x)" shows "quiet (seq m f)"
  unfolding quiet_def
proof (intro allI impI)
  fix t y t' assume "seq m f t = (Inr y, t')"
  then obtain x t1 where 1: "m t = (Inr x, t1)" "f x t1 = (Inr y, t')" unfolding seq_Inr_iff by blast
  show "(\<forall>y. app_ctx (pt_calls t') y = app_ctx (pt_calls t) y \<or> app_ctx (pt_calls t') y = None) \<and>
      (\<forall>p. map_option ids (dc_find p t') = map_option ids (dc_find p t))"
    using quietD [OF assms(1) 1(1)] quietD [OF assms(2) 1(2)] by metis
qed

lemma quiet_ok: "quiet (ok x)" "quiet (throw e)"
  by (simp_all add: quiet_def)

lemma quiet_dc_met: "quiet (dc_met p f)"
  by (auto simp: quiet_def dc_met_def dc_mod_def dc_find_put ids_def split: option.splits)

lemma quiet_update:
  assumes "\<And>t. pt_calls (u t) = pt_calls t" "\<And>t p. dc_find p (u t) = dc_find p t"
  shows "quiet (update u)"
  using assms by (simp add: quiet_def)

lemma quiet_rx_buffer: "quiet (rx_buffer cid sid)"
proof -
  have "dc_find p (conn_put cid (c\<lparr>pc_rx_stream_buffer := b\<rparr>) t) = dc_find p t" if "conn_find cid t = Some c" for p c b t
    using that by (simp add: dc_find_def)
  then show ?thesis by (auto simp: quiet_def rx_buffer_def seq_def GetConnContext_def Let_def split: option.splits)
qed

lemma quiet_lock_guard: "quiet m \<Longrightarrow> quiet (lock_guard m)"
proof -
  assume m: "quiet m"
  show ?thesis unfolding quiet_def
  proof (intro allI impI)
    fix t x t' assume l: "lock_guard m t = (Inr x, t')"
    then obtain t1 where t1: "m (t\<lparr>pt_state_mutex := True\<rparr>) = (Inr x, t1)" "t' = t1\<lparr>pt_state_mutex := False\<rparr>"
      by (auto simp: lock_guard_def split: if_splits prod.splits)
    show "(\<forall>y. app_ctx (pt_calls t') y = app_ctx (pt_calls t) y \<or> app_ctx (pt_calls t') y = None) \<and>
        (\<forall>p. map_option ids (dc_find p t') = map_option ids (dc_find p t))"
      using quietD [OF m t1(1)] t1(2) by simp
  qed
qed

lemma quiet_OnRecvStreamBytes: "quiet (OnRecvStreamBytes pq cid dc sid data)"
proof -
  let ?body = "\<lambda>rb t. let rx = pt_rx_contexts t (rb_rx_ctx rb) in
      if rx_unknown_expiry_tick_ms rx \<noteq> 0 \<and> of_nat (tick_ms pq) > rx_unknown_expiry_tick_ms rx then
        seq (update (call_pq (Pq_reset_stream_ctx cid sid))) (\<lambda>_.
        seq (update (call_pq (Pq_reset_stream cid sid kUnknownExpiry))) (\<lambda>_. update (set_rx_closed cid sid rb))) t
      else
        let q = snd (sq_Push data (rx_queue rx)) in
        seq (update (\<lambda>t. t\<lparr>pt_rx_contexts := (pt_rx_contexts t)(rb_rx_ctx rb := rx\<lparr>rx_queue := q\<rparr>)\<rparr>)) (\<lambda>_.
        case dc of
          Some p \<Rightarrow>
            seq (dc_met p (\<lambda>m. m\<lparr>qd_rx_stream_cb := qd_rx_stream_cb m + 1, qd_rx_stream_bytes := qd_rx_stream_bytes m + of_nat (length data)\<rparr>)) (\<lambda>_.
            if sq_Size q < 10 then update (notify (Cb_RecvStream cid sid (Some p))) else ok ())
        | None \<Rightarrow> update (notify (Cb_RecvStream cid sid None))) t"
  have dcs: "quiet (case dc of Some p \<Rightarrow> seq (dc_met p g) (\<lambda>_. if b then update (notify (Cb_RecvStream cid sid (Some p))) else ok ())
      | None \<Rightarrow> update (notify (Cb_RecvStream cid sid None)))" for g b
    by (cases dc) (simp_all add: quiet_seq quiet_dc_met quiet_ok quiet_update)
  have "quiet (?body rb)" for rb
  proof -
    have expired: "quiet (seq (update (call_pq (Pq_reset_stream_ctx cid sid))) (\<lambda>_.
        seq (update (call_pq (Pq_reset_stream cid sid kUnknownExpiry))) (\<lambda>_. update (set_rx_closed cid sid rb))))"
      by (simp add: quiet_def set_rx_closed_def dc_find_conn_mod)
    have push: "quiet (seq (update (\<lambda>t. t\<lparr>pt_rx_contexts := (pt_rx_contexts t)(a := v)\<rparr>)) (\<lambda>_.
        case dc of Some p \<Rightarrow> seq (dc_met p g) (\<lambda>_. if b then update (notify (Cb_RecvStream cid sid (Some p))) else ok ())
        | None \<Rightarrow> update (notify (Cb_RecvStream cid sid None))))" for g b a v
      by (rule quiet_seq [OF quiet_update dcs]) simp_all
    show ?thesis unfolding quiet_def Let_def
      using quietD [OF expired] quietD [OF push] by simp
  qed
  then show ?thesis unfolding OnRecvStreamBytes_def
    using quiet_lock_guard [OF quiet_seq [OF quiet_rx_buffer, where f = ?body]] by (simp add: quiet_ok)
qed

subsection \<open>Events\<close>

lemma forget_stream_inv:
  assumes "ptr_inv t" "dc_find p t = Some d" "dc_current_stream_id d = Some sid" "app_ctx (pt_calls t) (fst p, sid) = None"
  shows "ptr_inv (dc_put p (d\<lparr>dc_current_stream_id := None\<rparr>) t)"
proof -
  have "\<forall>x. app_ctx (pt_calls t) x \<noteq> Some p" using unregistered [OF assms(1-3)] assms(4) by simp
  then show ?thesis using ptr_inv_dc_put [OF assms(1,2)] ptr_invD(2) [OF assms(1,2)] by simp
qed

lemma rx_stream_end_parts:
  "ptr_inv t \<Longrightarrow> ptr_inv (rx_stream_end cid sid flag t)"
  "dc_find p (rx_stream_end cid sid flag t) = dc_find p t"
  "app_ctx (pt_calls (rx_stream_end cid sid flag t)) = (app_ctx (pt_calls t))((cid, sid) := None)"
  by (auto simp: rx_stream_end_def pq_OnStreamClosed_def set_rx_closed_def dc_find_conn_mod Let_def
      intro!: ptr_inv_notify ptr_inv_conn_mod ptr_inv_call split: option.split)

text \<open>The end of a stream, with the context that picoquic had for it.\<close>

lemma stream_end_inv:
  assumes "ptr_inv t" "\<And>p. v = Some p \<Longrightarrow> held_ok t cid sid p"
  shows "good (seq (update (rx_stream_end cid sid flag)) (\<lambda>_. forget_stream v) t)"
proof (cases v)
  case None
  then show ?thesis using assms(1) by (simp add: forget_stream_def rx_stream_end_parts)
next
  case (Some p)
  then have p: "held_ok t cid sid p" by (rule assms(2))
  show ?thesis
  proof (cases "conn_find cid t")
    case None
    then have "dc_find p t = None" using p by (simp add: held_ok_def dc_find_def)
    then have "dc_find p (rx_stream_end cid sid flag t) = None" by (simp add: rx_stream_end_parts(2))
    then show ?thesis using Some by (simp add: forget_stream_def dc_mod_def)
  next
    case (Some c)
    then obtain d where d: "fst p = cid" "dc_find p t = Some d" "dc_current_stream_id d = Some sid" using p by (auto simp: held_ok_def)
    have "ptr_inv (dc_put p (d\<lparr>dc_current_stream_id := None\<rparr>) (rx_stream_end cid sid flag t))"
      by (rule forget_stream_inv [OF rx_stream_end_parts(1) [OF assms(1)], where sid = sid]) (use d in \<open>simp_all add: rx_stream_end_parts\<close>)
    then show ?thesis using \<open>v = Some p\<close> d(2) by (simp add: forget_stream_def dc_mod_live rx_stream_end_parts(2))
  qed
qed

lemma CreateDataContextBiDirRecv_new:
  assumes "CreateDataContextBiDirRecv cid sid t = (Inr (Some p), t1)"
  shows "fst p = cid \<and> (\<exists>d. dc_find p t1 = Some d \<and> dc_current_stream_id d = Some sid)"
proof (cases "conn_find cid t")
  case None
  then show ?thesis using assms by (simp add: CreateDataContextBiDirRecv_def lock_guard_def split: if_splits)
next
  case c: (Some c)
  let ?did = "pc_next_data_ctx_id c"
  let ?d = "DataContext_new\<lparr>dc_conn_id := cid, dc_is_bidir := True, dc_data_ctx_id := ?did, dc_priority := 1\<rparr>"
  let ?t = "conn_put cid (c\<lparr>pc_next_data_ctx_id := ?did + 1, pc_active_data_contexts := map_put ?did ?d (pc_active_data_contexts c)\<rparr>)
    (t\<lparr>pt_state_mutex := True\<rparr>)"
  have f: "dc_find (cid, ?did) ?t = Some ?d" by (simp add: dc_find_def map_find_put)
  have none: "map_find (pc_active_data_contexts c) ?did = None" "\<not> pt_state_mutex t"
    using assms c by (auto simp: CreateDataContextBiDirRecv_def lock_guard_def Let_def split: if_splits option.splits)
  show ?thesis
  proof (cases "tx_queue_new ?t")
    case (Inl e)
    then show ?thesis using assms c none by (simp add: CreateDataContextBiDirRecv_def lock_guard_def Let_def seq_def lift_result_def)
  next
    case (Inr q)
    then show ?thesis using assms c none f
      by (auto simp: CreateDataContextBiDirRecv_def lock_guard_def Let_def seq_lift live_simps)
  qed
qed

text \<open>A context for the stream: the registered one, or a new one that is registered.\<close>

lemma recv_data_ctx_inv:
  assumes "ptr_inv t" "v = app_ctx (pt_calls t) (cid, sid)"
  shows "good (recv_data_ctx cid sid v t)"
    "recv_data_ctx cid sid v t = (Inr (Some w), t') \<Longrightarrow> w = Some p \<Longrightarrow> held_ok t' cid sid p"
proof -
  let ?new = "seq (CreateDataContextBiDirRecv cid sid) (\<lambda>p. seq (update (call_pq (Pq_set_app_stream_ctx cid sid p))) (\<lambda>_. ok (Some p)))"
  have new: "fst p = cid \<and> (\<exists>d. dc_find p t1 = Some d \<and> dc_current_stream_id d = Some sid)"
    if "CreateDataContextBiDirRecv cid sid t = (Inr (Some p), t1)" for p t1
    using CreateDataContextBiDirRecv_new [OF that] by auto
  have good_new: "good (?new t)"
  proof (rule good_seq)
    show "good (CreateDataContextBiDirRecv cid sid t)" by (rule keepsD [OF keeps_CreateDataContextBiDirRecv assms(1)])
    fix w t1 assume c: "CreateDataContextBiDirRecv cid sid t = (Inr w, t1)" and t1: "ptr_inv t1"
    show "good (seq (update (call_pq (Pq_set_app_stream_ctx cid sid w))) (\<lambda>_. ok (Some w)) t1)"
    proof (cases w)
      case None then show ?thesis using t1 by (simp add: ptr_inv_call)
    next
      case (Some p)
      then obtain d where "fst p = cid" "dc_find p t1 = Some d" "dc_current_stream_id d = Some sid" using new c by blast
      then show ?thesis using ptr_inv_register [OF t1, of p d sid "Pq_set_app_stream_ctx cid sid (Some p)"] Some by simp
    qed
  qed
  then show "good (recv_data_ctx cid sid v t)" using assms(1) by (simp add: recv_data_ctx_def)
  show "held_ok t' cid sid p"
    if "recv_data_ctx cid sid v t = (Inr (Some w), t')" "w = Some p" for w t' p
  proof (cases "v \<noteq> None \<or> sid AND 2 = 2")
    case True
    then have "w = v" "t' = t" using that by (auto simp: recv_data_ctx_def)
    then show ?thesis using ptr_invD(1) [OF assms(1), of cid sid p] assms(2) that(2) by simp
  next
    case False
    then have "?new t = (Inr (Some w), t')" using that(1) by (auto simp: recv_data_ctx_def split: if_splits)
    then obtain t1 where "CreateDataContextBiDirRecv cid sid t = (Inr w, t1)" "t' = call_pq (Pq_set_app_stream_ctx cid sid w) t1"
      by (auto simp: seq_Inr_iff)
    then show ?thesis using new that(2) by (auto simp: held_ok_def)
  qed
qed

lemma recv_stream_data_inv:
  assumes "ptr_inv t" "v = app_ctx (pt_calls t) (cid, sid)"
  shows "good (recv_stream_data pq cid sid data is_fin v t)"
  unfolding recv_stream_data_def
proof (rule good_seq)
  show "good (recv_data_ctx cid sid v t)" by (rule recv_data_ctx_inv [OF assms])
  fix r t1 assume r: "recv_data_ctx cid sid v t = (Inr r, t1)" and t1: "ptr_inv t1"
  have fin: "good (seq (OnRecvStreamBytes pq cid w sid data) (\<lambda>_.
      if is_fin then seq (update (rx_stream_end cid sid StreamClosed_Fin)) (\<lambda>_. forget_stream w) else ok ()) t1)"
    if w: "r = Some w" and conn: "conn_find cid t1 \<noteq> None" for w
  proof (rule good_seq)
    show "good (OnRecvStreamBytes pq cid w sid data t1)" by (rule keepsD [OF keeps_OnRecvStreamBytes t1])
    fix x t2 assume o: "OnRecvStreamBytes pq cid w sid data t1 = (Inr x, t2)" and t2: "ptr_inv t2"
    have "held_ok t2 cid sid p" if wp: "w = Some p" for p
    proof -
      obtain d where d: "fst p = cid" "dc_find p t1 = Some d" "dc_current_stream_id d = Some sid"
        using recv_data_ctx_inv(2) [OF assms r [unfolded w] wp] conn by (auto simp: held_ok_def)
      then obtain d' where "dc_find p t2 = Some d'" "ids d' = ids d" using quietD(2) [OF quiet_OnRecvStreamBytes o, of p] by auto
      then show ?thesis using d by (simp add: ids_def held_ok_def)
    qed
    from stream_end_inv [OF t2 this] show "good ((if is_fin then seq (update (rx_stream_end cid sid StreamClosed_Fin)) (\<lambda>_. forget_stream w) else ok ()) t2)"
      using t2 by simp
  qed
  show "good (case r of None \<Rightarrow> ok () t1 | Some data_ctx \<Rightarrow> if conn_find cid t1 = None then ok () t1
      else seq (OnRecvStreamBytes pq cid data_ctx sid data) (\<lambda>_.
        if is_fin then seq (update (rx_stream_end cid sid StreamClosed_Fin)) (\<lambda>_. forget_stream data_ctx) else ok ()) t1)"
    using fin t1 by (auto split: option.split)
qed

text \<open>The stream an event is about, for which picoquic passes the context it holds.\<close>

fun event_stream :: "pq_event \<Rightarrow> u64 option" where
  "event_stream (Ev_prepare_to_send sid _ _) = Some sid"
| "event_stream (Ev_stream_data sid _ _) = Some sid"
| "event_stream (Ev_stream_reset sid) = Some sid"
| "event_stream _ = None"

definition callback_ctx :: "PicoQuicTransport \<Rightarrow> u64 \<Rightarrow> pq_event \<Rightarrow> dptr option" where
  "callback_ctx t cid ev = (case event_stream ev of None \<Rightarrow> None | Some sid \<Rightarrow> app_ctx (pt_calls t) (cid, sid))"

lemma ptr_inv_conn_met: "ptr_inv t \<Longrightarrow> ptr_inv (conn_met cid f t)"
  unfolding conn_met_def by (rule ptr_inv_conn_mod) simp_all

lemma ptr_inv_cwin: "ptr_inv t \<Longrightarrow> ptr_inv (cwin_congested pq cid t)"
  by (simp add: cwin_congested_def ptr_inv_conn_met)

lemma good_fin: "good (m t) \<Longrightarrow> good (seq m (\<lambda>_ :: unit. ok Pq_return_0) t)"
  by (erule good_seq) simp

lemma keeps_fin: "keeps m \<Longrightarrow> keeps (seq m (\<lambda>_ :: unit. ok Pq_return_0))"
  by (rule keeps_seq) (simp_all add: keeps_ok)

lemma PqEventCb_good:
  assumes t: "ptr_inv t" and fresh: "ev = Ev_ready \<Longrightarrow> conn_find cid t = None \<Longrightarrow> fresh_conn cid t"
  shows "good (PqEventCb pq cid ev (callback_ctx t cid ev) t)"
proof (cases ev)
  case (Ev_prepare_datagram b n)
  have "keeps (seq (update (conn_met cid (\<lambda>m. m\<lparr>qc_tx_dgram_cb := qc_tx_dgram_cb m + 1\<rparr>))) (\<lambda>_.
      seq (SendNextDatagram pq cid b n) (\<lambda>_. update (cwin_congested pq cid))))"
    by (intro keeps_basic keeps_SendNextDatagram keeps_update ptr_inv_cwin)
  from keepsD [OF keeps_fin [OF this] t] show ?thesis using Ev_prepare_datagram t by (simp add: PqEventCb_def)
next
  case (Ev_datagram data)
  then show ?thesis using t keepsD [OF keeps_fin [OF keeps_OnRecvDatagram] t] by (simp add: PqEventCb_def)
next
  case (Ev_prepare_to_send sid b n)
  have "keeps (seq (dc_met p (\<lambda>m. m\<lparr>qd_tx_stream_cb := qd_tx_stream_cb m + 1\<rparr>)) (\<lambda>_. SendStreamBytes pq (Some p) b n))" for p
    by (intro keeps_seq keeps_dc_met keeps_SendStreamBytes)
  from keepsD [OF keeps_fin [OF this] ptr_inv_cwin [OF t]] show ?thesis
    using Ev_prepare_to_send t by (simp add: PqEventCb_def Let_def ptr_inv_cwin split: option.split)
next
  case (Ev_stream_data sid data is_fin)
  have "good (seq (recv_stream_data pq cid sid data is_fin (app_ctx (pt_calls t) (cid, sid))) (\<lambda>_. ok Pq_return_0) t)"
    by (rule good_fin, rule recv_stream_data_inv [OF t refl])
  then show ?thesis using Ev_stream_data by (simp add: PqEventCb_def callback_ctx_def)
next
  case (Ev_stream_reset sid)
  have "good (seq (seq (update (rx_stream_end cid sid StreamClosed_Reset)) (\<lambda>_. forget_stream (app_ctx (pt_calls t) (cid, sid))))
      (\<lambda>_. ok Pq_return_0) t)"
    by (rule good_fin, rule stream_end_inv [OF t], rule ptr_invD(1) [OF t])
  then show ?thesis using Ev_stream_reset by (simp add: PqEventCb_def callback_ctx_def)
next
  case Ev_close
  have "keeps (seq (Close cid r) (\<lambda>_. \<lambda>t. ok (if pt_is_server_mode t then Pq_return_0 else Pq_return_terminate) t))" for r
    by (rule keeps_seq [OF keeps_Close]) (simp add: keeps_def)
  from keepsD [OF this ptr_inv_call [OF t]] show ?thesis using Ev_close by (simp add: PqEventCb_def)
next
  case Ev_ready
  have ready: "keeps (update (call_pq (Pq_mark_datagram_ready cid True)))" by (intro keeps_call) simp
  have "good (seq (CreateConnContext pq cid) (\<lambda>_. pq_OnNewConnection cid) t)"
    by (rule good_seq, rule CreateConnContext_good [OF t fresh [OF Ev_ready]]) (auto intro: keepsD [OF keeps_OnNewConnection])
  moreover have "good (seq (update (SetStatus TransportStatus_kReady)) (\<lambda>_. pq_OnConnectionStatus cid TransportStatus_kReady) t)"
    by (rule keepsD [OF _ t]) (intro keeps_seq keeps_status keeps_OnConnectionStatus)
  ultimately have "good ((if pt_is_server_mode t then seq (CreateConnContext pq cid) (\<lambda>_. pq_OnNewConnection cid)
      else seq (update (SetStatus TransportStatus_kReady)) (\<lambda>_. pq_OnConnectionStatus cid TransportStatus_kReady)) t)" by simp
  then have "good (seq (if pt_is_server_mode t then seq (CreateConnContext pq cid) (\<lambda>_. pq_OnNewConnection cid)
      else seq (update (SetStatus TransportStatus_kReady)) (\<lambda>_. pq_OnConnectionStatus cid TransportStatus_kReady)) (\<lambda>_.
      update (call_pq (Pq_mark_datagram_ready cid True))) t)" by (rule good_seq) (rule keepsD [OF ready])
  then have "good (seq (seq (if pt_is_server_mode t then seq (CreateConnContext pq cid) (\<lambda>_. pq_OnNewConnection cid)
      else seq (update (SetStatus TransportStatus_kReady)) (\<lambda>_. pq_OnConnectionStatus cid TransportStatus_kReady)) (\<lambda>_.
      update (call_pq (Pq_mark_datagram_ready cid True)))) (\<lambda>_. ok Pq_return_0) t)" by (rule good_fin)
  then show ?thesis using Ev_ready by (simp only: PqEventCb_def pq_event.case Let_def)
qed (use t in \<open>simp_all add: PqEventCb_def ptr_inv_conn_met\<close>)

subsection \<open>The threads\<close>

lemma keeps_notify_caller: "keeps (notify_caller i)"
  by (rule keepsI) (auto simp: notify_caller_def split: option.split elim: ptr_inv_cong)

text \<open>The connection that \<^verbatim>\<open>StartClient\<close> makes is new to picoquic, so no context is held for its streams.\<close>

lemma keeps_StartClient_function: "keeps (StartClient_function pq)"
proof (rule keepsI)
  fix t assume t: "ptr_inv t"
  have fail: "keeps (seq (notify_caller 1) (\<lambda>_. ok r))" for r :: pq_return by (intro keeps_seq keeps_notify_caller keeps_ok)
  show "good (StartClient_function pq t)"
  proof (cases "server_resolved pq \<and> create_cnx pq \<noteq> None")
    case False
    then show ?thesis using keepsD [OF fail t] by (auto simp: StartClient_function_def)
  next
    case True
    then obtain cnx where cnx: "server_resolved pq" "create_cnx pq = Some cnx" by blast
    let ?t = "call_pq (Pq_start_client_cnx cnx) (call_pq (Pq_set_callback cnx True)
      (call_pq (Pq_enable_keep_alive cnx (idle_timeout_ms (pt_tconfig t) * 500)) (call_pq (Pq_set_feedback_loss_notification cnx)
      (call_pq (Pq_set_transport_parameters cnx) (call_pq (Pq_create_cnx cnx) t)))))"
    have t1: "ptr_inv ?t" by (intro ptr_inv_call t) simp_all
    have fresh: "fresh_conn cnx ?t" by (simp add: fresh_conn_def)
    have rest: "keeps (seq (if quic_priority_limit (pt_tconfig t) > 0
        then update (call_pq (Pq_set_priority_limit_for_bypass cnx (quic_priority_limit (pt_tconfig t)))) else ok ()) (\<lambda>_.
        seq (notify_caller cnx) (\<lambda>_. ok Pq_return_0)))"
      by (intro keeps_seq keeps_if keeps_call keeps_notify_caller keeps_ok) simp
    show ?thesis
    proof (cases "start_client_cnx pq")
      case False
      then show ?thesis using keepsD [OF fail t1] cnx by (simp add: StartClient_function_def)
    next
      case True
      have "good (seq (CreateConnContext pq cnx) (\<lambda>_. seq (if quic_priority_limit (pt_tconfig t) > 0
          then update (call_pq (Pq_set_priority_limit_for_bypass cnx (quic_priority_limit (pt_tconfig t)))) else ok ()) (\<lambda>_.
          seq (notify_caller cnx) (\<lambda>_. ok Pq_return_0))) ?t)"
        by (rule good_seq, rule CreateConnContext_good [OF t1 fresh]) (rule keepsD [OF rest])
      then show ?thesis using True cnx by (simp add: StartClient_function_def)
    qed
  qed
qed

lemma keeps_run_function: "by_id f \<Longrightarrow> keeps (run_function pq f)"
  by (cases f) (simp_all add: run_function_def keeps_fin keeps_MarkStreamActive keeps_MarkDgramReady keeps_DeleteDataContextInternal
      keeps_StartClient_function)

lemma ptr_inv_popped:
  assumes "ptr_inv t" "set (sq_queue q) \<subseteq> set (sq_queue (pt_runner_queue t))"
  shows "ptr_inv (t\<lparr>pt_runner_queue := q\<rparr>)"
  using ptr_invD [OF assms(1)] assms(2) by (intro ptr_invI) auto

lemma runner_loop_good: "ptr_inv t \<Longrightarrow> good (runner_loop pq n t)"
proof (induction n arbitrary: t)
  case (Suc n)
  let ?t = "t\<lparr>pt_runner_queue := snd (sq_Pop (pt_runner_queue t))\<rparr>"
  have t1: "ptr_inv ?t" by (rule ptr_inv_popped [OF Suc.prems]) (auto simp: sq_Pop_def sq_PopInternal_def split: list.splits)
  show ?case
  proof (cases "fst (sq_Pop (pt_runner_queue t))")
    case None
    then show ?thesis using t1 by (simp add: case_prod_beta)
  next
    case (Some f)
    then have "f \<in> set (sq_queue (pt_runner_queue t))" by (auto simp: sq_Pop_def sq_PopInternal_def split: list.splits)
    then have g: "good (run_function pq f ?t)" using keepsD [OF keeps_run_function t1] ptr_invD(3) [OF Suc.prems] by blast
    obtain r t2 where r: "run_function pq f ?t = (r, t2)" by fastforce
    have p2: "ptr_inv t2" if "r \<noteq> Inl Undefined_Behaviour" using that g r by (simp add: good_def)
    have "r \<noteq> Inl Undefined_Behaviour \<Longrightarrow> good (runner_loop pq n t2)" using g r Suc.IH [of t2] by (simp add: good_def)
    then show ?thesis using Some r p2 by (auto simp: case_prod_beta Let_def split: sum.split exn.split)
  qed
qed simp

lemma keeps_PqRunner: "keeps (PqRunner pq)"
  by (rule keepsI) (simp add: PqRunner_def runner_loop_good del: runner_loop.simps)

text \<open>The checks of the packet loop change no data context's ids and make no call that registers.\<close>

definition conn_ids :: "PqConnection \<Rightarrow> u64 \<Rightarrow> (u64 \<times> u64 \<times> u64 option) option" where
  "conn_ids c did = map_option ids (map_find (pc_active_data_contexts c) did)"

lemma ptr_inv_conns:
  assumes "ptr_inv t" "pt_calls t' = pt_calls t" "pt_runner_queue t' = pt_runner_queue t"
    "\<And>cid. map_option conn_ids (conn_find cid t') = map_option conn_ids (conn_find cid t)"
  shows "ptr_inv t'"
proof (rule ptr_inv_contexts [OF assms(1-3)])
  fix p
  have view: "map_option ids (dc_find p t) = (case map_option conn_ids (conn_find (fst p) t) of None \<Rightarrow> None | Some f \<Rightarrow> f (snd p))" for t
    by (simp add: dc_find_def conn_ids_def split: option.split)
  show "map_option ids (dc_find p t') = map_option ids (dc_find p t)" unfolding view assms(4) ..
next
  fix cid assume "conn_find cid t = None"
  then show "conn_find cid t' = None" using assms(4) [of cid] by simp
qed

lemma conn_find_map:
  "pt_conn_context t' = map (\<lambda>(cid, c). (cid, g c)) (pt_conn_context t) \<Longrightarrow> conn_find cid t' = map_option g (conn_find cid t)"
  by (simp add: conn_find_def map_of_map)

lemma keeps_RemoveClosedStreams: "keeps RemoveClosedStreams"
  unfolding RemoveClosedStreams_def
proof (rule keeps_lock_guard, rule keeps_update)
  fix t assume t: "ptr_inv t"
  have "conn_ids (remove_closed rxs c) = conn_ids c" for rxs c
    by (simp add: fun_eq_iff conn_ids_def remove_closed_def Let_def)
  then show "ptr_inv (t\<lparr>pt_conn_context := map (\<lambda>(cid, c). (cid, remove_closed (pt_rx_contexts t) c)) (pt_conn_context t)\<rparr>)"
    by (intro ptr_inv_conns [OF t]) (simp_all add: conn_find_map [of _ "remove_closed (pt_rx_contexts t)" t] option.map_comp comp_def)
qed

lemma EmitMetrics_inv: "ptr_inv t \<Longrightarrow> ptr_inv (EmitMetrics t)"
proof -
  assume t: "ptr_inv t"
  have "ids (d\<lparr>dc_metrics := m\<rparr>) = ids d" for d m by (simp add: ids_def)
  then have "conn_ids (reset_metrics c) = conn_ids c" for c
    by (simp add: fun_eq_iff conn_ids_def reset_metrics_def map_of_map option.map_comp comp_def)
  then show "ptr_inv (EmitMetrics t)"
    by (intro ptr_inv_conns [OF t]) (simp_all add: conn_find_map [of _ reset_metrics t] EmitMetrics_def option.map_comp comp_def)
qed

lemma check_data_ctxs_ids:
  "check_data_ctxs ds acc = Inr (ds', acc') \<Longrightarrow> map_option ids (map_find ds' did) = map_option ids (map_find ds did) \<and>
     (snd acc' = snd acc \<or> map_find ds' (snd acc') \<noteq> None)"
proof (induction ds acc arbitrary: ds' rule: check_data_ctxs.induct)
  case (2 k d ds acc)
  obtain d1 acc1 where d1: "check_data_ctx k d acc = Inr (d1, acc1)" using "2.prems" by (auto simp: bind_result_Inr_iff)
  obtain ds1 where ds1: "check_data_ctxs ds acc1 = Inr (ds1, acc')" "ds' = (k, d1) # ds1" using "2.prems" d1 by (auto simp: bind_result_Inr_iff)
  have "ids d1 = ids d" "snd acc1 = snd acc \<or> snd acc1 = k"
    using d1 by (auto simp: check_data_ctx_def Let_def ids_def split: if_splits option.splits prod.splits)
  then show ?case using "2.IH" [OF ds1(1)] ds1(2) by auto
qed simp

lemma check_conn_ids: "check_conn pq cfg cid c = Inr c' \<Longrightarrow> conn_ids c' = conn_ids c"
proof -
  assume a: "check_conn pq cfg cid c = Inr c'"
  have act: "conn_ids (act_on_congestion s n w x) = conn_ids x" if "w = 0 \<or> map_find (pc_active_data_contexts x) w \<noteq> None" for s n w x
    using that by (auto simp: fun_eq_iff conn_ids_def act_on_congestion_def Let_def map_find_put map_at_def ids_def split: option.splits)
  obtain ds n w where ds: "check_data_ctxs (pc_active_data_contexts c) (0, 0) = Inr (ds, n, w)"
    using a by (auto simp: check_conn_def Let_def bind_result_Inr_iff)
  have w: "w = 0 \<or> map_find ds w \<noteq> None" and same: "map_option ids (map_find ds did) = conn_ids c did" for did
    using check_data_ctxs_ids [OF ds, of did] by (auto simp: conn_ids_def)
  let ?m = "sample_path (get_path_quality pq cid) (pc_metrics c)"
  let ?r = "(ucast (qc_cwin_congested (pc_metrics c) - qc_prev_cwin_congested (pc_metrics c)) :: u16) \<noteq> 0 \<and>
    nb_retransmission_total pq cid - qc_tx_retransmits ?m > 2"
  let ?c = "c\<lparr>pc_metrics := ?m, pc_active_data_contexts := ds\<rparr>"
  let ?x = "if ?r then ?c\<lparr>pc_metrics := ?m\<lparr>qc_tx_retransmits := nb_retransmission_total pq cid\<rparr>\<rparr> else ?c"
  have "c' = act_on_congestion (use_reset_wait_strategy cfg) (n + of_bool ?r) w ?x" "pc_active_data_contexts ?x = ds"
    using a ds by (auto simp: check_conn_def Let_def)
  then show ?thesis using act [of w ?x] w same by (simp add: fun_eq_iff conn_ids_def)
qed

lemma check_conns_ids:
  "check_conns pq cfg cs = Inr cs' \<Longrightarrow> map_option conn_ids (map_find cs' cid) = map_option conn_ids (map_find cs cid)"
proof (induction pq cfg cs arbitrary: cs' rule: check_conns.induct)
  case (2 pq cfg k c cs)
  then obtain c' cs1 where c: "check_conn pq cfg k c = Inr c'" "check_conns pq cfg cs = Inr cs1" "cs' = (k, c') # cs1"
    by (auto simp: bind_result_Inr_iff)
  then show ?case using check_conn_ids [OF c(1)] "2.IH" [OF c(2)] by simp
qed simp

lemma keeps_CheckConnsForCongestion: "keeps (CheckConnsForCongestion pq)"
  unfolding CheckConnsForCongestion_def
proof (rule keeps_lock_guard, rule keepsI)
  fix t assume t: "ptr_inv t"
  have "ptr_inv (t\<lparr>pt_conn_context := cs\<rparr>)" if "check_conns pq (pt_tconfig t) (pt_conn_context t) = Inr cs" for cs
    by (rule ptr_inv_conns [OF t]) (use check_conns_ids [OF that] in \<open>simp_all add: conn_find_def\<close>)
  then show "good (case check_conns pq (pt_tconfig t) (pt_conn_context t) of Inl e \<Rightarrow> throw e t | Inr cs \<Rightarrow> ok () (t\<lparr>pt_conn_context := cs\<rparr>))"
    using t by (simp add: good_def split: sum.split)
qed

lemma keeps_close_all: "keeps (close_all cids)"
proof (induction cids)
  case Nil show ?case by (simp add: keeps_def)
next
  case (Cons cid cids)
  then have "keeps (seq (Close cid 100) (\<lambda>_. close_all cids))" by (intro keeps_seq keeps_Close)
  moreover have "close_all (cid # cids) = seq (Close cid 100) (\<lambda>_. close_all cids)" by (simp add: fun_eq_iff)
  ultimately show ?case by simp
qed

lemma keeps_PqLoopCb: "keeps (PqLoopCb pq ev)"
proof (rule keepsI)
  fix t assume t: "ptr_inv t"
  have metrics: "keeps (loop_metrics now)" for now
  proof (rule keepsI)
    fix t assume t: "ptr_inv t"
    have "keeps (seq RemoveClosedStreams (\<lambda>_. seq (if b then update EmitMetrics else ok ()) (\<lambda>_. update (\<lambda>t. t\<lparr>pt_loop_metrics_prev_time := now\<rparr>))))" for b
      by (intro keeps_seq keeps_RemoveClosedStreams keeps_if keeps_ok keeps_update EmitMetrics_inv) (assumption | erule ptr_inv_cong; simp)+
    from keepsD [OF this t] show "good (loop_metrics now t)" using t by (simp add: loop_metrics_def)
  qed
  have congestion: "keeps (loop_congestion pq now)" for now
  proof (rule keepsI)
    fix t assume t: "ptr_inv t"
    have "keeps (seq (CheckConnsForCongestion pq) (\<lambda>_. update (\<lambda>t. t\<lparr>pt_loop_prev_time := now\<rparr>)))"
      by (intro keeps_seq keeps_CheckConnsForCongestion keeps_update) (erule ptr_inv_cong; simp)
    from keepsD [OF this t] show "good (loop_congestion pq now t)" using t by (simp add: loop_congestion_def)
  qed
  have shutdown: "keeps (loop_shutdown pq)"
  proof (rule keepsI)
    fix t assume t: "ptr_inv t"
    have "keeps (seq (close_all (cnx_list pq)) (\<lambda>_. seq (update (SetStatus TransportStatus_kShutdown)) (\<lambda>_. ok Pq_return_0)))"
      by (intro keeps_seq keeps_close_all keeps_status keeps_ok)
    from keepsD [OF this t] show "good (loop_shutdown pq t)" using t by (simp add: loop_shutdown_def)
  qed
  have "keeps (update (\<lambda>t. if pt_loop_prev_time t = 0 then t\<lparr>pt_loop_prev_time := now\<rparr> else t))" for now
    by (rule keeps_update) (simp, intro impI, erule ptr_inv_cong; simp)
  then have check: "keeps (seq (update (\<lambda>t. if pt_loop_prev_time t = 0 then t\<lparr>pt_loop_prev_time := now\<rparr> else t)) (\<lambda>_.
      seq (loop_metrics now) (\<lambda>_. seq (loop_congestion pq now) (\<lambda>_. seq (loop_shutdown pq) (\<lambda>r.
      ok (r, Some (min delta_t kPqLoopMaxDelayUs)))))))" for now delta_t
    by (intro keeps_seq metrics congestion shutdown keeps_ok)
  have wake: "keeps (seq (PqRunner pq) (\<lambda>_. ok (Pq_return_0, None :: int option)))" by (intro keeps_seq keeps_PqRunner keeps_ok)
  have ready: "ptr_inv (SetStatus TransportStatus_kReady t)" using keepsD [OF keeps_status t] by simp
  show "good (PqLoopCb pq ev t)"
    using t ready keepsD [OF check t] keepsD [OF wake t] by (simp add: PqLoopCb_def split: loop_event.split)
qed

lemma keeps_run_notification: "keeps (run_notification n)"
proof -
  have d: "keeps (update (delegate x))" for x by (rule keeps_update) (erule ptr_inv_cong; simp add: delegate_def)
  show ?thesis
    by (cases n; simp add: run_notification_def d split: option.split; intro allI impI conjI keeps_seq keeps_read d)
qed

subsection \<open>Steps\<close>

text \<open>The calls of the user and of picoquic's thread, one at a time, and the callbacks, with the context that picoquic
  holds for the stream. What picoquic answers may differ from step to step. The server learns of a connection when
  it is ready; a connection the transport does not have yet is then new to picoquic, which holds no context for it.
  An operation that runs into undefined behaviour makes no step. \<^verbatim>\<open>SetStreamIdDataCtxId\<close>, which nothing in the
  repository calls and which breaks the invariant, is not among the steps.\<close>

inductive pico_step :: "PicoQuicTransport \<Rightarrow> PicoQuicTransport \<Rightarrow> bool" where
  start_client: "pico_step t (StartClient_begin t)"
| start_client_done: "StartClient_end t = (r, t') \<Longrightarrow> pico_step t t'"
| create: "CreateDataContext pq cid reliable priority bidir t = (r, t') \<Longrightarrow> r \<noteq> Inl Undefined_Behaviour \<Longrightarrow> pico_step t t'"
| delete: "pico_step t (DeleteDataContext cid did on_empty t)"
| enqueue: "Enqueue pq e t = (r, t') \<Longrightarrow> r \<noteq> Inl Undefined_Behaviour \<Longrightarrow> pico_step t t'"
| priority: "SetDataCtxPriority cid did priority t = (r, t') \<Longrightarrow> r \<noteq> Inl Undefined_Behaviour \<Longrightarrow> pico_step t t'"
| dequeue: "Dequeue cid t = (r, t') \<Longrightarrow> r \<noteq> Inl Undefined_Behaviour \<Longrightarrow> pico_step t t'"
| rx_context: "GetStreamRxContext cid sid t = (r, t') \<Longrightarrow> r \<noteq> Inl Undefined_Behaviour \<Longrightarrow> pico_step t t'"
| read_rx: "pico_step t (t\<lparr>pt_rx_contexts := rxs\<rparr>)"
| close: "Close cid reason t = (r, t') \<Longrightarrow> r \<noteq> Inl Undefined_Behaviour \<Longrightarrow> pico_step t t'"
| event: "PqEventCb pq cid ev (callback_ctx t cid ev) t = (r, t') \<Longrightarrow> r \<noteq> Inl Undefined_Behaviour \<Longrightarrow>
    (ev = Ev_ready \<Longrightarrow> conn_find cid t = None \<Longrightarrow> fresh_conn cid t) \<Longrightarrow> pico_step t t'"
| packet_loop: "PqLoopCb pq lev t = (r, t') \<Longrightarrow> r \<noteq> Inl Undefined_Behaviour \<Longrightarrow> pico_step t t'"
| notifier: "CbNotifier_turn t = Some (r, t') \<Longrightarrow> r \<noteq> Inl Undefined_Behaviour \<Longrightarrow> pico_step t t'"

inductive pico_reachable :: "PicoQuicTransport \<Rightarrow> bool" where
  init: "PicoQuicTransport_new is_server cfg = Inr t \<Longrightarrow> pico_reachable (Start_limits t)"
| step: "pico_reachable t \<Longrightarrow> pico_step t t' \<Longrightarrow> pico_reachable t'"

lemma step_inv: "keeps m \<Longrightarrow> ptr_inv t \<Longrightarrow> m t = (r, t') \<Longrightarrow> r \<noteq> Inl Undefined_Behaviour \<Longrightarrow> ptr_inv t'"
  by (drule (1) keepsD) (simp add: good_def)

lemma pico_step_inv:
  assumes "pico_step t t'" "ptr_inv t" shows "ptr_inv t'"
  using assms
proof (cases rule: pico_step.cases)
  case start_client
  have "ptr_inv (t\<lparr>pt_start_conn_id := Some 0\<rparr>)" by (rule ptr_inv_cong [OF assms(2)]) simp_all
  then show ?thesis using start_client by (simp add: StartClient_begin_def ptr_inv_run)
next
  case (start_client_done r)
  have "ptr_inv (t\<lparr>pt_start_conn_id := None\<rparr>)" "ptr_inv (SetStatus s (t\<lparr>pt_start_conn_id := None\<rparr>))" for s
    by (rule ptr_inv_cong [OF assms(2)]; simp add: SetStatus_def)+
  then show ?thesis using start_client_done by (auto simp: StartClient_end_def Let_def split: if_splits)
next
  case (delete cid did on_empty)
  then show ?thesis using assms(2) by (simp add: DeleteDataContext_def ptr_inv_run)
next
  case (read_rx rxs)
  then show ?thesis using ptr_inv_rx_contexts [OF assms(2)] by simp
next
  case (event pq cid ev r)
  then show ?thesis using PqEventCb_good [OF assms(2), of ev cid pq] by (simp add: good_def)
next
  case (notifier r)
  have "ptr_inv (t\<lparr>pt_cbNotifyQueue := q\<rparr>)" for q by (rule ptr_inv_cong [OF assms(2)]) simp_all
  note q = this step_inv [OF keeps_run_notification this]
  from notifier show ?thesis by (auto simp: CbNotifier_turn_def intro: q split: if_splits option.splits)
qed (use assms(2) step_inv in \<open>blast intro: keeps_CreateDataContext keeps_Enqueue keeps_SetDataCtxPriority
    keeps_Dequeue keeps_GetStreamRxContext keeps_Close keeps_PqLoopCb\<close>)+

lemma reachable_inv: "pico_reachable t \<Longrightarrow> ptr_inv t"
proof (induction rule: pico_reachable.induct)
  case (init is_server cfg t)
  then have "pt_calls t = []" "pt_conn_context t = []" "sq_queue (pt_runner_queue t) = []"
    by (auto simp: PicoQuicTransport_new_def SafeQueue_new_def split: if_splits)
  then show ?case by (intro ptr_invI) (simp_all add: Start_limits_def sq_SetLimit_def dc_find_def conn_find_def)
qed (rule pico_step_inv)


text \<open>What \<^verbatim>\<open>Close\<close> does to the contexts that picoquic holds.\<close>

lemma close_stream_calls_app:
  "app_ctx (pt_calls (fold (close_stream_calls cid) bufs t)) (cid, sid) =
     (if sid \<in> fst ` set bufs then None else app_ctx (pt_calls t) (cid, sid))"
proof (induction bufs arbitrary: t)
  case (Cons b bufs)
  have "app_ctx (pt_calls (close_stream_calls cid b t)) (cid, sid) = (if sid = fst b then None else app_ctx (pt_calls t) (cid, sid))"
    by (simp add: close_stream_calls_def Let_def)
  then show ?case using Cons.IH [of "close_stream_calls cid b t"] by (cases "sid = fst b") simp_all
qed simp

text \<open>C18. \<^verbatim>\<open>Close\<close> removes the connection and unlinks the context of exactly those streams on which octets were received. For
  every other stream, so for the streams of data contexts that only send, picoquic keeps the pointer, which then
  points into the connection that was erased; the data context is gone.\<close>

theorem Close_leaves_contexts:
  assumes "conn_find cid t = Some c" "\<not> pt_state_mutex t"
  shows "\<exists>t'. Close cid reason t = (Inr (), t') \<and> conn_find cid t' = None \<and> (\<forall>did. dc_find (cid, did) t' = None) \<and>
    (\<forall>sid. app_ctx (pt_calls t') (cid, sid) =
       (if map_contains (pc_rx_stream_buffer c) sid then None else app_ctx (pt_calls t) (cid, sid)))"
proof -
  let ?n = "Cb_ConnectionStatus cid (close_status reason)"
  let ?u = "fold (close_stream_calls cid) (pc_rx_stream_buffer c) (t\<lparr>pt_state_mutex := True\<rparr>)"
  define t1 where "t1 = (if \<not> pt_is_server_mode t then SetStatus TransportStatus_kShutdown (notify ?n ?u) else notify ?n ?u)"
  define t' where "t' = (call_pq (Pq_close cid reason) t1)\<lparr>pt_conn_context := map_erase cid (pt_conn_context t1), pt_state_mutex := False\<rparr>"
  have status: "pq_OnConnectionStatus cid (close_status reason) u = (Inr (), notify ?n u)" for u
    by (simp add: pq_OnConnectionStatus_def close_status_def seq_eq(1))
  have close: "Close cid reason t = (Inr (), t')"
    using assms
    by (cases "pt_is_server_mode t") (simp_all add: Close_def lock_guard_def status seq_eq(1) t1_def t'_def call_pq_def SetStatus_def)
  have gone: "conn_find cid t' = None" by (simp add: t'_def conn_find_def map_erase_find)
  have calls: "pt_calls t' = pt_calls ?u @ [Pq_close cid reason]" by (simp add: t'_def t1_def SetStatus_def)
  have "app_ctx (pt_calls t') (cid, sid) = (if map_contains (pc_rx_stream_buffer c) sid then None else app_ctx (pt_calls t) (cid, sid))" for sid
    using close_stream_calls_app [of cid "pc_rx_stream_buffer c" "t\<lparr>pt_state_mutex := True\<rparr>" sid]
    by (simp add: calls map_contains_iff)
  then show ?thesis using close gone by (simp add: dc_find_def)
qed

text \<open>A client with one connection and one data context with a stream.\<close>

definition pico_init :: PicoQuicTransport where
  "pico_init = Start_limits (projr (PicoQuicTransport_new False pico_config))"

lemma pico_init_connected:
  "\<exists>t c. PqLoopCb pq_env0 Loop_wake_up (StartClient_begin pico_init) = (Inr (Pq_return_0, None), t) \<and> pico_reachable t \<and>
    conn_find 7 t = Some c \<and> pc_next_data_ctx_id c = 1 \<and> pc_active_data_contexts c = [] \<and> pc_rx_stream_buffer c = [] \<and>
    \<not> pt_state_mutex t \<and> pt_tconfig t = pico_config \<and> app_ctx (pt_calls t) = (\<lambda>_. None)"
proof -
  have new: "PicoQuicTransport_new False pico_config = Inr (projr (PicoQuicTransport_new False pico_config))"
    by (simp add: PicoQuicTransport_new_def pico_config_def)
  let ?i = "StartClient_begin pico_init"
  have i: "pt_calls ?i = [Pq_wake_up_network_thread]" "\<not> pt_state_mutex ?i" "conn_find 7 ?i = None" "pt_tconfig ?i = pico_config"
    "sq_queue (pt_runner_queue ?i) = [Fn_StartClient]" "\<not> sq_empty (pt_runner_queue ?i)" "pt_start_conn_id ?i = Some 0"
    "pt_status ?i = TransportStatus_kConnecting"
    by (simp_all add: StartClient_begin_def pico_init_def PicoQuicTransport_new_def pico_config_def Start_limits_def conn_find_def
        RunPqFunction_def call_pq_def sq_Push_def sq_SetLimit_def SafeQueue_new_def)
  have reach: "pico_reachable ?i"
    by (rule pico_reachable.step [OF _ pico_step.start_client]) (unfold pico_init_def, rule pico_reachable.init [OF new])
  obtain q where "tx_queue_new pico0 = Inr q" using pico0_queue by blast
  then have q: "tx_queue_new t = Inr q" if "pt_tconfig t = pico_config" for t using that by (simp add: tx_queue_new_def pico0_def)
  let ?c = "PqConnection_new\<lparr>pc_conn_id := 7, pc_peer_addr_text := []\<rparr>"
  let ?q0 = "(pt_runner_queue ?i)\<lparr>sq_queue := [], sq_empty := True\<rparr>"
  let ?t0 = "call_pq (Pq_start_client_cnx 7) (call_pq (Pq_set_callback 7 True)
      (call_pq (Pq_enable_keep_alive 7 (idle_timeout_ms (pt_tconfig ?i) * 500)) (call_pq (Pq_set_feedback_loss_notification 7)
      (call_pq (Pq_set_transport_parameters 7) (call_pq (Pq_create_cnx 7) (?i\<lparr>pt_runner_queue := ?q0\<rparr>))))))"
  let ?t1 = "conn_mod 7 (\<lambda>c. c\<lparr>pc_dgram_tx_data := Some q\<rparr>) (conn_mod 7 (\<lambda>c. c\<lparr>pc_dgram_rx_data := sq_SetLimit 10 (pc_dgram_rx_data c)\<rparr>)
        (conn_put 7 ?c ?t0))"
  have create: "CreateConnContext pq_env0 7 ?t0 = (Inr (), ?t1)"
    using i q by (simp add: CreateConnContext_def Let_def seq_lift pq_env0_def) (simp add: pico_config_def)
  have start1: "pt_start_conn_id ?t1 = Some 0"
    using i(7) by (simp add: conn_mod_def conn_put_def call_pq_def split: option.split)
  have start: "StartClient_function pq_env0 (?i\<lparr>pt_runner_queue := ?q0\<rparr>) = (Inr Pq_return_0, ?t1\<lparr>pt_start_conn_id := Some 7\<rparr>)"
    using i(4) create start1
    by (simp add: StartClient_function_def pq_env0_def pico_config_def seq_eq(1) notify_caller_def)
  have "PqRunner pq_env0 ?i = (Inr Pq_return_0, ?t1\<lparr>pt_start_conn_id := Some 7, pt_runner_queue := ?q0\<rparr>)"
    using i(5,6) start by (simp add: PqRunner_def sq_Empty_def sq_Size_def sq_Pop_def sq_PopInternal_def run_function_def)
  then have loop: "PqLoopCb pq_env0 Loop_wake_up ?i = (Inr (Pq_return_0, None), ?t1\<lparr>pt_start_conn_id := Some 7, pt_runner_queue := ?q0\<rparr>)"
    using i(8) by (simp add: PqLoopCb_def seq_eq(1))
  have "pico_reachable (?t1\<lparr>pt_start_conn_id := Some 7, pt_runner_queue := ?q0\<rparr>)"
    by (rule pico_reachable.step [OF reach pico_step.packet_loop [OF loop]]) simp
  moreover have "app_ctx (pt_calls ?t1) = (\<lambda>_. None)" using i(1) by (simp add: app_ctx_def fun_eq_iff)
  moreover have "conn_find 7 (?t1\<lparr>pt_start_conn_id := Some 7, pt_runner_queue := ?q0\<rparr>) =
      Some (?c\<lparr>pc_dgram_rx_data := sq_SetLimit 10 (pc_dgram_rx_data ?c), pc_dgram_tx_data := Some q\<rparr>)"
  proof -
    have "conn_find 7 (u\<lparr>pt_start_conn_id := x\<rparr>) = conn_find 7 u" for u x by (simp add: conn_find_def)
    then show ?thesis by (simp add: conn_find_mod)
  qed
  ultimately show ?thesis using loop i(2,4) by (simp add: PqConnection_new_def)
qed

lemma pico_sending:
  "\<exists>t c. pico_reachable t \<and> conn_find 7 t = Some c \<and> pc_rx_stream_buffer c = [] \<and> \<not> pt_state_mutex t \<and>
     app_ctx (pt_calls t) (7, 2) = Some (7, 1)"
proof -
  obtain t c where t: "pico_reachable t" "conn_find 7 t = Some c" "pc_next_data_ctx_id c = 1" "pc_active_data_contexts c = []"
    "pc_rx_stream_buffer c = []" "\<not> pt_state_mutex t" "pt_tconfig t = pico_config" using pico_init_connected by blast
  obtain q where "tx_queue_new pico0 = Inr q" using pico0_queue by blast
  then have q: "tx_queue_new t = Inr q" using t(7) by (simp add: tx_queue_new_def pico0_def)
  obtain t1 d sid where c: "CreateDataContext pq_env0 7 True 3 False t = (Inr 1, t1)" "dc_find (7, 1) t1 = Some d"
    "pt_calls t1 = pt_calls t @ [Pq_set_app_stream_ctx 7 sid (Some (7, 1)), Pq_wake_up_network_thread]" "sid = 2" "\<not> pt_state_mutex t1"
    "map_option pc_rx_stream_buffer (conn_find 7 t1) = Some (pc_rx_stream_buffer c)"
    using CreateDataContext_stream [OF t(2) _ _ t(6) q, of 3 pq_env0 False] t(3,4) by (auto simp: pq_env0_def)
  have r: "pico_reachable t1" by (rule pico_reachable.step [OF t(1) pico_step.create [OF c(1)]]) simp
  obtain c' where "conn_find 7 t1 = Some c'" using dc_find_conn [OF c(2)] by auto
  then show ?thesis using r c(3-6) t(5) by (intro exI [of _ t1] exI [of _ c']) simp
qed


text \<open>A client that closes a connection with a stream it sends on: picoquic keeps the pointer.\<close>

theorem Close_leaves_contexts_witness:
  "\<exists>t t'. pico_reachable t \<and> Close 7 0 t = (Inr (), t') \<and> dc_find (7, 1) t' = None \<and> app_ctx (pt_calls t') (7, 2) = Some (7, 1)"
proof -
  obtain t c where t: "pico_reachable t" "conn_find 7 t = Some c" "pc_rx_stream_buffer c = []" "\<not> pt_state_mutex t"
    "app_ctx (pt_calls t) (7, 2) = Some (7, 1)" using pico_sending by blast
  from Close_leaves_contexts [OF t(2,4), of 0] t(1,3,5) show ?thesis by (auto simp: map_contains_def)
qed

end
