(* ===== verification/Pico_Runner.thy ===== *)
theory Pico_Runner
  imports Pico_Safety
begin

section \<open>The functions run in the thread of picoquic\<close>

text \<open>
  The queue of functions that other threads leave for the thread of picoquic: running it ends, every function has its
  effect, and the queue is empty afterwards, unless a client start fails, which leaves the functions behind it queued.
\<close>

text \<open>A state in which the functions can run: the mutex is free and every data context has its queue.\<close>

definition runnable :: "PicoQuicTransport \<Rightarrow> bool" where
  "runnable t \<longleftrightarrow> \<not> pt_state_mutex t \<and> (\<forall>p d. dc_find p t = Some d \<longrightarrow> dc_tx_data d \<noteq> None)"

lemma runnableD: "runnable t \<Longrightarrow> dc_find p t = Some d \<Longrightarrow> \<exists>q. dc_tx_data d = Some q"
  unfolding runnable_def by blast

lemma runnable_call [simp]: "runnable (call_pq k t) = runnable t"
  by (simp add: runnable_def)

lemma runnable_put: "runnable t \<Longrightarrow> dc_find p t = Some d \<Longrightarrow> dc_tx_data d' \<noteq> None \<Longrightarrow> runnable (dc_put p d' t)"
  unfolding runnable_def by (simp add: dc_find_put)

lemma runnable_conn_mod:
  "runnable t \<Longrightarrow> (\<And>c. pc_active_data_contexts (f c) = pc_active_data_contexts c) \<Longrightarrow> runnable (conn_mod cid f t)"
  by (simp add: runnable_def dc_find_conn_mod)

lemma dc_find_erase_rx_buffer [simp]: "dc_find p (erase_rx_buffer cid sid t) = dc_find p t"
  by (simp add: erase_rx_buffer_def dc_find_conn_mod)

text \<open>What a turn did: the calls it made into picoquic, and what became of the contexts.\<close>

definition ran :: "pq_function list \<Rightarrow> PicoQuicTransport \<Rightarrow> PicoQuicTransport \<Rightarrow> bool" where
  "ran fs t t' \<longleftrightarrow>
     (\<exists>ks. pt_calls t' = pt_calls t @ ks \<and>
        (\<forall>cid. Fn_MarkDgramReady cid \<in> set fs \<longrightarrow> conn_find cid t \<noteq> None \<longrightarrow> Pq_mark_datagram_ready cid True \<in> set ks) \<and>
        (\<forall>p d sid. Fn_MarkStreamActive (fst p) (snd p) \<in> set fs \<longrightarrow> dc_find p t = Some d \<longrightarrow> dc_current_stream_id d = Some sid \<longrightarrow>
           (\<forall>b. Fn_DeleteDataContext (fst p) (snd p) b \<notin> set fs) \<longrightarrow> Pq_mark_active_stream (fst p) sid True (Some p) \<in> set ks)) \<and>
     (\<forall>p. Fn_DeleteDataContext (fst p) (snd p) False \<in> set fs \<longrightarrow> dc_find p t' = None) \<and>
     (\<forall>cid. conn_find cid t' = None \<longleftrightarrow> conn_find cid t = None) \<and>
     (\<forall>p. dc_find p t = None \<longrightarrow> dc_find p t' = None) \<and>
     (\<forall>p d. dc_find p t = Some d \<longrightarrow> (\<forall>b. Fn_DeleteDataContext (fst p) (snd p) b \<notin> set fs) \<longrightarrow>
        (\<exists>d'. dc_find p t' = Some d' \<and> dc_current_stream_id d' = dc_current_stream_id d))"

lemma ranI:
  assumes "pt_calls t' = pt_calls t @ ks"
    "\<And>cid. Fn_MarkDgramReady cid \<in> set fs \<Longrightarrow> conn_find cid t \<noteq> None \<Longrightarrow> Pq_mark_datagram_ready cid True \<in> set ks"
    "\<And>p d sid. Fn_MarkStreamActive (fst p) (snd p) \<in> set fs \<Longrightarrow> dc_find p t = Some d \<Longrightarrow> dc_current_stream_id d = Some sid \<Longrightarrow>
       (\<And>b. Fn_DeleteDataContext (fst p) (snd p) b \<notin> set fs) \<Longrightarrow> Pq_mark_active_stream (fst p) sid True (Some p) \<in> set ks"
    "\<And>p. Fn_DeleteDataContext (fst p) (snd p) False \<in> set fs \<Longrightarrow> dc_find p t' = None"
    "\<And>cid. conn_find cid t' = None \<longleftrightarrow> conn_find cid t = None"
    "\<And>p. dc_find p t = None \<Longrightarrow> dc_find p t' = None"
    "\<And>p d. dc_find p t = Some d \<Longrightarrow> (\<And>b. Fn_DeleteDataContext (fst p) (snd p) b \<notin> set fs) \<Longrightarrow>
       \<exists>d'. dc_find p t' = Some d' \<and> dc_current_stream_id d' = dc_current_stream_id d"
  shows "ran fs t t'"
proof -
  have "\<exists>ks. pt_calls t' = pt_calls t @ ks \<and>
      (\<forall>cid. Fn_MarkDgramReady cid \<in> set fs \<longrightarrow> conn_find cid t \<noteq> None \<longrightarrow> Pq_mark_datagram_ready cid True \<in> set ks) \<and>
      (\<forall>p d sid. Fn_MarkStreamActive (fst p) (snd p) \<in> set fs \<longrightarrow> dc_find p t = Some d \<longrightarrow> dc_current_stream_id d = Some sid \<longrightarrow>
         (\<forall>b. Fn_DeleteDataContext (fst p) (snd p) b \<notin> set fs) \<longrightarrow> Pq_mark_active_stream (fst p) sid True (Some p) \<in> set ks)"
    using assms(1-3) by (intro exI [of _ ks]) blast
  then show ?thesis unfolding ran_def using assms(4-7) by blast
qed

lemma ran_trans:
  assumes "ran [f] t t1" "ran fs t1 t2" shows "ran (f # fs) t t2"
proof -
  obtain ks where k: "pt_calls t1 = pt_calls t @ ks"
    "\<And>cid. Fn_MarkDgramReady cid \<in> set [f] \<Longrightarrow> conn_find cid t \<noteq> None \<Longrightarrow> Pq_mark_datagram_ready cid True \<in> set ks"
    "\<And>p d sid. Fn_MarkStreamActive (fst p) (snd p) \<in> set [f] \<Longrightarrow> dc_find p t = Some d \<Longrightarrow> dc_current_stream_id d = Some sid \<Longrightarrow>
       (\<And>b. Fn_DeleteDataContext (fst p) (snd p) b \<notin> set [f]) \<Longrightarrow> Pq_mark_active_stream (fst p) sid True (Some p) \<in> set ks"
    using assms(1) unfolding ran_def by blast
  have ks: "pt_calls t1 = pt_calls t @ ks"
    "\<And>cid. f = Fn_MarkDgramReady cid \<Longrightarrow> conn_find cid t \<noteq> None \<Longrightarrow> Pq_mark_datagram_ready cid True \<in> set ks"
    "\<And>p d sid. f = Fn_MarkStreamActive (fst p) (snd p) \<Longrightarrow> dc_find p t = Some d \<Longrightarrow> dc_current_stream_id d = Some sid \<Longrightarrow>
       Pq_mark_active_stream (fst p) sid True (Some p) \<in> set ks"
    using k(1) k(2) k(3) by simp_all
  obtain ks' where ks': "pt_calls t2 = pt_calls t1 @ ks'"
    "\<And>cid. Fn_MarkDgramReady cid \<in> set fs \<Longrightarrow> conn_find cid t1 \<noteq> None \<Longrightarrow> Pq_mark_datagram_ready cid True \<in> set ks'"
    "\<And>p d sid. Fn_MarkStreamActive (fst p) (snd p) \<in> set fs \<Longrightarrow> dc_find p t1 = Some d \<Longrightarrow> dc_current_stream_id d = Some sid \<Longrightarrow>
       (\<And>b. Fn_DeleteDataContext (fst p) (snd p) b \<notin> set fs) \<Longrightarrow> Pq_mark_active_stream (fst p) sid True (Some p) \<in> set ks'"
    using assms(2) unfolding ran_def by blast
  have r0: "\<And>p. Fn_DeleteDataContext (fst p) (snd p) False \<in> set [f] \<Longrightarrow> dc_find p t1 = None" "\<And>cid. conn_find cid t1 = None \<longleftrightarrow> conn_find cid t = None"
    "\<And>p. dc_find p t = None \<Longrightarrow> dc_find p t1 = None"
    "\<And>p d. dc_find p t = Some d \<Longrightarrow> (\<And>b. Fn_DeleteDataContext (fst p) (snd p) b \<notin> set [f]) \<Longrightarrow>
       \<exists>d'. dc_find p t1 = Some d' \<and> dc_current_stream_id d' = dc_current_stream_id d"
    using assms(1) unfolding ran_def by blast+
  have r1: "\<And>p. f = Fn_DeleteDataContext (fst p) (snd p) False \<Longrightarrow> dc_find p t1 = None" "\<And>cid. conn_find cid t1 = None \<longleftrightarrow> conn_find cid t = None"
    "\<And>p. dc_find p t = None \<Longrightarrow> dc_find p t1 = None"
    "\<And>p d. dc_find p t = Some d \<Longrightarrow> (\<And>b. Fn_DeleteDataContext (fst p) (snd p) b \<noteq> f) \<Longrightarrow>
       \<exists>d'. dc_find p t1 = Some d' \<and> dc_current_stream_id d' = dc_current_stream_id d"
    using r0 by simp_all
  have r2: "\<And>p. Fn_DeleteDataContext (fst p) (snd p) False \<in> set fs \<Longrightarrow> dc_find p t2 = None" "\<And>cid. conn_find cid t2 = None \<longleftrightarrow> conn_find cid t1 = None"
    "\<And>p. dc_find p t1 = None \<Longrightarrow> dc_find p t2 = None"
    "\<And>p d. dc_find p t1 = Some d \<Longrightarrow> (\<And>b. Fn_DeleteDataContext (fst p) (snd p) b \<notin> set fs) \<Longrightarrow>
       \<exists>d'. dc_find p t2 = Some d' \<and> dc_current_stream_id d' = dc_current_stream_id d"
    using assms(2) unfolding ran_def by blast+
  show ?thesis
  proof (rule ranI [where ks = "ks @ ks'"])
    show "pt_calls t2 = pt_calls t @ ks @ ks'" using ks(1) ks'(1) by simp
    show "Pq_mark_datagram_ready cid True \<in> set (ks @ ks')"
      if "Fn_MarkDgramReady cid \<in> set (f # fs)" "conn_find cid t \<noteq> None" for cid
      using that ks(2) ks'(2) r1(2) by auto
    show "Pq_mark_active_stream (fst p) sid True (Some p) \<in> set (ks @ ks')"
      if a: "Fn_MarkStreamActive (fst p) (snd p) \<in> set (f # fs)" "dc_find p t = Some d" "dc_current_stream_id d = Some sid"
        "\<And>b. Fn_DeleteDataContext (fst p) (snd p) b \<notin> set (f # fs)" for p d sid
    proof (cases "f = Fn_MarkStreamActive (fst p) (snd p)")
      case True then show ?thesis using ks(3) a(2,3) by simp
    next
      case False
      obtain d' where "dc_find p t1 = Some d'" "dc_current_stream_id d' = Some sid" using r1(4) [OF a(2)] a(3,4) by fastforce
      then show ?thesis using ks'(3) False a(1,4) by auto
    qed
    show "dc_find p t2 = None" if "Fn_DeleteDataContext (fst p) (snd p) False \<in> set (f # fs)" for p
    proof (cases "f = Fn_DeleteDataContext (fst p) (snd p) False")
      case True then show ?thesis using r1(1) r2(3) by blast
    next
      case False
      then have "Fn_DeleteDataContext (fst p) (snd p) False \<in> set fs" using that by simp
      then show ?thesis by (rule r2(1))
    qed
    show "conn_find cid t2 = None \<longleftrightarrow> conn_find cid t = None" for cid using r1(2) r2(2) by simp
    show "dc_find p t2 = None" if "dc_find p t = None" for p using that r1(3) r2(3) by blast
    show "\<exists>d'. dc_find p t2 = Some d' \<and> dc_current_stream_id d' = dc_current_stream_id d"
      if "dc_find p t = Some d" "\<And>b. Fn_DeleteDataContext (fst p) (snd p) b \<notin> set (f # fs)" for p d
      using r1(4) [OF that(1)] r2(4) that(2) by fastforce
  qed
qed

lemma ran_queue [simp]: "ran fs (t\<lparr>pt_runner_queue := q\<rparr>) t' = ran fs t t'"
  by (simp add: ran_def)

lemma CloseStream_runs:
  assumes "runnable t" "dc_find p t = Some d"
  shows "\<exists>t' d' ks. CloseStream (fst p) p r t = (Inr (), t') \<and> runnable t' \<and> pt_runner_queue t' = pt_runner_queue t \<and>
    pt_calls t' = pt_calls t @ ks \<and> (\<forall>cid. conn_find cid t' = None \<longleftrightarrow> conn_find cid t = None) \<and>
    (\<forall>p'. dc_find p' t' = (if p' = p then Some d' else dc_find p' t)) \<and>
    (\<forall>cid sid f. dc_current_stream_id d \<noteq> Some sid \<longrightarrow> fold app_step ks f (cid, sid) = f (cid, sid))"
proof (cases "dc_current_stream_id d")
  case None
  then show ?thesis using assms by (intro exI [of _ t] exI [of _ d] exI [of _ "[]"]) (simp add: CloseStream_def seq_deref)
next
  case (Some sid)
  let ?k = "if r then Pq_reset_stream (fst p) sid 0 else Pq_add_to_stream (fst p) sid [] True"
  let ?t = "call_pq ?k (call_pq (Pq_reset_stream_ctx (fst p) sid) t)"
  let ?d = "(ResetTxObject d)\<lparr>dc_current_stream_id := None\<rparr>"
  obtain c where c: "conn_find (fst p) t = Some c" using dc_find_conn [OF assms(2)] by blast
  obtain q where q: "dc_tx_data d = Some q" using runnableD [OF assms] by blast
  define t1 where "t1 = (if map_contains (pc_rx_stream_buffer c) sid then erase_rx_buffer (fst p) sid ?t else ?t)"
  have t1: "runnable t1" "dc_find p t1 = Some d" "pt_runner_queue t1 = pt_runner_queue t"
    "pt_calls t1 = pt_calls t @ [Pq_reset_stream_ctx (fst p) sid, ?k]" "conn_find cid t1 = None \<longleftrightarrow> conn_find cid t = None"
    "dc_find p' t1 = dc_find p' t" for cid p'
    using assms by (auto simp: t1_def erase_rx_buffer_def runnable_conn_mod dc_find_conn_mod conn_find_mod)
  have free: "\<not> pt_state_mutex t" using assms(1) by (simp add: runnable_def)
  have erase: "lock_guard (update (erase_rx_buffer cid sid)) u = (Inr (), erase_rx_buffer cid sid u)" if "\<not> pt_state_mutex u" for u cid
    using that by (cases u) (simp add: lock_guard_def erase_rx_buffer_def conn_mod_def conn_find_def conn_put_def split: option.split)
  have "CloseStream (fst p) p r t = (Inr (), dc_put p ?d t1)"
    using assms(2) Some c free t1(2)
    by (simp add: CloseStream_def seq_deref seq_GetConnContext t1_def seq_eq(1) erase dc_mod_live)
  moreover have "runnable (dc_put p ?d t1)" by (rule runnable_put [OF t1(1,2)]) (simp add: q ResetTxObject_def)
  ultimately show ?thesis using t1 assms(2) Some
    by (intro exI [of _ "dc_put p ?d t1"] exI [of _ ?d] exI [of _ "[Pq_reset_stream_ctx (fst p) sid, ?k]"]) (simp add: dc_find_put)
qed

lemma conn_find_dc_put_iff: "conn_find cid (dc_put p d t) = None \<longleftrightarrow> conn_find cid t = None"
  by simp

lemma run_function_runs:
  assumes "runnable t" "by_id f" "f \<noteq> Fn_StartClient"
  shows "\<exists>t'. run_function pq f t = (Inr Pq_return_0, t') \<and> runnable t' \<and> pt_runner_queue t' = pt_runner_queue t \<and> ran [f] t t'"
proof (cases f)
  case (Fn_MarkStreamActive cid did)
  let ?p = "(cid, did)"
  have free: "\<not> pt_state_mutex t" using assms(1) by (simp add: runnable_def)
  show ?thesis
  proof (cases "dc_find ?p t")
    case None
    then have "run_function pq f t = (Inr Pq_return_0, t)"
      using free Fn_MarkStreamActive by (simp add: run_function_def MarkStreamActive_def lock_guard_def seq_def)
    then show ?thesis using assms(1) Fn_MarkStreamActive None
      by (auto intro!: ranI [where ks = "[]"])
  next
    case (Some d)
    let ?t = "dc_put ?p (d\<lparr>dc_mark_stream_active := False\<rparr>) t"
    let ?ks = "case dc_current_stream_id d of None \<Rightarrow> [] | Some sid \<Rightarrow>
      [Pq_mark_active_stream cid sid True (Some ?p), Pq_set_stream_priority cid sid (push_bit 1 (dc_priority d))]"
    let ?t' = "fold call_pq ?ks ?t"
    have r: "runnable ?t" using runnable_put [OF assms(1) Some] runnableD [OF assms(1) Some] by auto
    have run: "run_function pq f t = (Inr Pq_return_0, ?t')" using Some free Fn_MarkStreamActive
      by (auto simp: run_function_def MarkStreamActive_def lock_guard_def live_simps seq_def split: option.split)
    have same: "runnable ?t'" "pt_runner_queue ?t' = pt_runner_queue t" "pt_calls ?t' = pt_calls t @ ?ks"
      "conn_find c ?t' = None \<longleftrightarrow> conn_find c t = None"
      "dc_find p ?t' = (if p = ?p then Some (d\<lparr>dc_mark_stream_active := False\<rparr>) else dc_find p t)" for c p
      using r Some by (auto simp: dc_find_put split: option.split)
    have "ran [f] t ?t'"
      by (rule ranI [OF same(3)]) (use Fn_MarkStreamActive Some same(4,5) in \<open>auto simp: prod_eq_iff split: if_splits\<close>)
    then show ?thesis using run same(1,2) by blast
  qed
next
  case (Fn_MarkDgramReady cid)
  have free: "\<not> pt_state_mutex t" using assms(1) by (simp add: runnable_def)
  let ?t = "(conn_mod cid (\<lambda>c. c\<lparr>pc_mark_dgram_ready := False\<rparr>)
    (call_pq (Pq_mark_datagram_ready cid True) (t\<lparr>pt_state_mutex := True\<rparr>)))\<lparr>pt_state_mutex := False\<rparr>"
  show ?thesis
  proof (cases "conn_find cid t")
    case None
    then have "run_function pq f t = (Inr Pq_return_0, t)" using Fn_MarkDgramReady free
      by (simp add: run_function_def MarkDgramReady_def lock_guard_def seq_def)
    moreover have "ran [f] t t" by (rule ranI [where ks = "[]"]) (use Fn_MarkDgramReady None in auto)
    ultimately show ?thesis using assms(1) by blast
  next
    case (Some c)
    then have run: "run_function pq f t = (Inr Pq_return_0, ?t)" using Fn_MarkDgramReady free
      by (simp add: run_function_def MarkDgramReady_def lock_guard_def seq_def)
    have "runnable ?t" using assms(1) by (simp add: runnable_def dc_find_conn_mod)
    moreover have "ran [f] t ?t"
      by (rule ranI [where ks = "[Pq_mark_datagram_ready cid True]"])
        (use Fn_MarkDgramReady in \<open>auto simp: conn_find_mod dc_find_conn_mod\<close>)
    ultimately show ?thesis using run by simp
  qed
next
  case (Fn_DeleteDataContext cid did on_empty)
  let ?p = "(cid, did)"
  show ?thesis
  proof (cases "dc_find ?p t")
    case None
    then have "run_function pq f t = (Inr Pq_return_0, t)"
      using Fn_DeleteDataContext by (simp add: run_function_def DeleteDataContextInternal_def seq_def)
    moreover have "ran [f] t t" by (rule ranI [where ks = "[]"]) (use Fn_DeleteDataContext None in auto)
    ultimately show ?thesis using assms(1) by blast
  next
    case (Some d)
    obtain q where q: "dc_tx_data d = Some q" using runnableD [OF assms(1) Some] by blast
    obtain t1 d1 ks where t1: "CloseStream cid ?p False t = (Inr (), t1)" "runnable t1" "pt_runner_queue t1 = pt_runner_queue t"
      "pt_calls t1 = pt_calls t @ ks" "\<And>cid. conn_find cid t1 = None \<longleftrightarrow> conn_find cid t = None"
      "\<And>p'. dc_find p' t1 = (if p' = ?p then Some d1 else dc_find p' t)"
      using CloseStream_runs [OF assms(1) Some, of False] by auto
    let ?e = "conn_mod cid (\<lambda>c. c\<lparr>pc_active_data_contexts := map_erase did (pc_active_data_contexts c)\<rparr>) t1"
    let ?w = "dc_put ?p (d\<lparr>dc_delete_on_empty := True\<rparr>) t"
    have find: "dc_find p ?e = (if p = ?p then None else dc_find p t)" for p
      using t1(6) [of p] by (cases p) (auto simp: dc_find_def conn_find_mod map_erase_find split: option.splits if_splits)
    have "\<not> pt_state_mutex ?e" using t1(2) by (simp add: runnable_def)
    then have e: "runnable ?e" using assms(1) unfolding runnable_def by (auto simp: find split: if_splits)
    have w: "runnable ?w" by (rule runnable_put [OF assms(1) Some]) (simp add: q)
    have "DeleteDataContextInternal cid did on_empty t = (Inr (), if on_empty \<and> \<not> pq_Empty q then ?w else ?e)"
      using Some q by (simp add: DeleteDataContextInternal_def seq_assoc seq_tx_queue dc_mod_live seq_eq(1) t1(1))
    then have run: "run_function pq f t = (Inr Pq_return_0, if on_empty \<and> \<not> pq_Empty q then ?w else ?e)"
      using Fn_DeleteDataContext by (simp add: run_function_def seq_eq(1))
    have "conn_find c ?e = None \<longleftrightarrow> conn_find c t = None" for c using t1(5) [of c] by (auto simp: conn_find_mod)
    then have re: "ran [f] t ?e"
      by (intro ranI [where ks = ks]) (use Fn_DeleteDataContext t1(4) in \<open>auto simp: find prod_eq_iff split: if_splits\<close>)
    have rw: "ran [f] t ?w" if "on_empty"
      by (rule ranI [where ks = "[]"])
        (use Fn_DeleteDataContext Some that in \<open>auto simp: dc_find_put prod_eq_iff split: if_splits\<close>)
    show ?thesis
    proof (cases "on_empty \<and> \<not> pq_Empty q")
      case True then show ?thesis using run w rw by simp
    next
      case False
      then have "run_function pq f t = (Inr Pq_return_0, ?e)" using run by (simp only: if_False)
      then show ?thesis using e re t1(3) by simp
    qed
  qed
qed (use assms(2,3) in simp_all)

lemma sq_Pop_eq: "sq_Pop q = (case sq_queue q of [] \<Rightarrow> (None, q\<lparr>sq_empty := True\<rparr>)
    | x # xs \<Rightarrow> (Some x, q\<lparr>sq_queue := xs, sq_empty := sq_empty q \<or> xs = []\<rparr>))"
  by (simp add: sq_Pop_def sq_PopInternal_def)

lemma runner_loop_runs:
  assumes "runnable t" "\<forall>f \<in> set (sq_queue (pt_runner_queue t)). by_id f \<and> f \<noteq> Fn_StartClient" "length (sq_queue (pt_runner_queue t)) < n"
  shows "\<exists>t'. runner_loop pq n t = (Inr Pq_return_0, t') \<and> runnable t' \<and> sq_queue (pt_runner_queue t') = [] \<and>
    ran (sq_queue (pt_runner_queue t)) t t'"
  using assms
proof (induction n arbitrary: t)
  case (Suc n)
  show ?case
  proof (cases "sq_queue (pt_runner_queue t)")
    case Nil
    let ?t = "t\<lparr>pt_runner_queue := (pt_runner_queue t)\<lparr>sq_empty := True\<rparr>\<rparr>"
    have "ran [] t ?t" by (rule ranI [where ks = "[]"]) simp_all
    then show ?thesis using Nil Suc.prems(1) by (simp add: sq_Pop_eq runnable_def)
  next
    case (Cons f fs)
    let ?q = "(pt_runner_queue t)\<lparr>sq_queue := fs, sq_empty := sq_empty (pt_runner_queue t) \<or> fs = []\<rparr>"
    let ?t = "t\<lparr>pt_runner_queue := ?q\<rparr>"
    have "runnable ?t" using Suc.prems(1) by (simp add: runnable_def)
    then obtain t1 where t1: "run_function pq f ?t = (Inr Pq_return_0, t1)" "runnable t1" "pt_runner_queue t1 = ?q" "ran [f] t t1"
      using run_function_runs [of ?t f pq] Suc.prems(2) Cons by auto
    obtain t' where t': "runner_loop pq n t1 = (Inr Pq_return_0, t')" "runnable t'" "sq_queue (pt_runner_queue t') = []" "ran fs t1 t'"
      using Suc.IH [OF t1(2)] t1(3) Suc.prems(2,3) Cons by auto
    have "ran (f # fs) t t'" by (rule ran_trans [OF t1(4) t'(4)])
    then show ?thesis using Cons t1(1) t'(1-3) by (simp add: sq_Pop_eq)
  qed
qed simp

lemma PqRunner_runs:
  assumes "runnable t" "\<forall>f \<in> set (sq_queue (pt_runner_queue t)). by_id f \<and> f \<noteq> Fn_StartClient"
    "sq_Empty (pt_runner_queue t) \<longleftrightarrow> sq_queue (pt_runner_queue t) = []"
  shows "\<exists>t'. PqRunner pq t = (Inr Pq_return_0, t') \<and> sq_queue (pt_runner_queue t') = [] \<and> ran (sq_queue (pt_runner_queue t)) t t'"
proof (cases "sq_Empty (pt_runner_queue t)")
  case True
  have "ran [] t t" by (rule ranI [where ks = "[]"]) simp_all
  then show ?thesis using True assms(3) by (simp add: PqRunner_def)
next
  case False
  then show ?thesis using runner_loop_runs [OF assms(1,2), of "sq_Size (pt_runner_queue t) + 1" pq]
    by (auto simp: PqRunner_def sq_Size_def simp del: runner_loop.simps)
qed


text \<open>Three functions, for a connection with two data contexts.\<close>

definition pico_two :: PicoQuicTransport where
  "pico_two = pico0\<lparr>pt_conn_context := [(7, PqConnection_new\<lparr>pc_conn_id := 7, pc_active_data_contexts :=
     [(1, DataContext_new\<lparr>dc_conn_id := 7, dc_data_ctx_id := 1, dc_current_stream_id := Some 2,
            dc_tx_data := Some \<lparr>pq_duration_ms = 20, pq_interval_ms = 5, pq_queues = [], pq_free = []\<rparr>\<rparr>),
      (2, DataContext_new\<lparr>dc_conn_id := 7, dc_data_ctx_id := 2, dc_current_stream_id := Some 6,
            dc_tx_data := Some \<lparr>pq_duration_ms = 20, pq_interval_ms = 5, pq_queues = [], pq_free = []\<rparr>\<rparr>)]\<rparr>)]\<rparr>"


text \<open>A client start for which picoquic makes no connection ends the turn with an error, and what was queued behind it
  stays queued until the thread is woken again.\<close>

theorem failed_start_ends_turn:
  assumes "sq_queue (pt_runner_queue t) = Fn_StartClient # fs" "\<not> sq_Empty (pt_runner_queue t)" "pt_start_conn_id t = Some i"
    "server_resolved pq" "create_cnx pq = None"
  shows "\<exists>t'. PqRunner pq t = (Inr Pq_return_disconnected, t') \<and> sq_queue (pt_runner_queue t') = fs \<and> pt_calls t' = pt_calls t \<and>
    fst (StartClient_end t') = Inr 0"
  using assms
  by (simp add: PqRunner_def sq_Size_def sq_Pop_eq run_function_def StartClient_function_def seq_def notify_caller_def
      StartClient_end_def)

text \<open>When the wait of \<^verbatim>\<open>StartClient\<close> ends before its function has run, the function writes to the stack of a call that has
  returned.\<close>

theorem late_start_is_undefined:
  assumes "sq_queue (pt_runner_queue t) = []" "\<not> server_resolved pq"
  shows "\<exists>t'. StartClient_end (StartClient_begin t) = (Inr 0, t') \<and> fst (PqRunner pq t') = Inl Undefined_Behaviour"
proof -
  let ?t = "StartClient_begin t"
  let ?t' = "SetStatus TransportStatus_kDisconnected (?t\<lparr>pt_start_conn_id := None\<rparr>)"
  have "StartClient_end ?t = (Inr 0, ?t')"
    by (simp add: StartClient_end_def StartClient_begin_def RunPqFunction_def call_pq_def)
  moreover have "sq_queue (pt_runner_queue ?t') = [Fn_StartClient]" "\<not> sq_Empty (pt_runner_queue ?t')" "pt_start_conn_id ?t' = None"
    using assms(1) by (simp_all add: StartClient_begin_def RunPqFunction_def sq_Push_def sq_Empty_def SetStatus_def)
  then have "fst (PqRunner pq ?t') = Inl Undefined_Behaviour" using assms(2)
    by (simp add: PqRunner_def sq_Size_def sq_Pop_eq run_function_def StartClient_function_def seq_def notify_caller_def)
  ultimately show ?thesis by blast
qed

end
