(* ===== verification/Pico_Hazards.thy ===== *)
theory Pico_Hazards
  imports Pico_Runner
begin

section \<open>Where the picoquic transport does not do what it says\<close>

text \<open>
  Behaviours of the transport on picoquic that its comments and its documentation do not describe, each on the
  operation that shows it.
\<close>

subsection \<open>Datagrams\<close>

text \<open>A datagram whose data context is gone is counted as dropped and stays at the head of the queue: the callback hands
  nothing to picoquic and takes nothing off.\<close>

theorem datagram_without_context_blocks:
  assumes "conn_find cid t = Some c" "pc_dgram_tx_data c = Some q" "pq_Front (tick_ms pq) q empty_element = (q', obj)" "has_value obj"
    "map_find (pc_active_data_contexts c) (cd_data_ctx_id (elem_value obj)) = None"
  shows "\<exists>t' c'. SendNextDatagram pq cid (Some b) max_len t = (Inr (), t') \<and> pt_calls t' = pt_calls t \<and> conn_find cid t' = Some c' \<and>
    pc_dgram_tx_data c' = Some q' \<and> qc_tx_dgram_drops (pc_metrics c') = qc_tx_dgram_drops (pc_metrics c) + 1"
  using assms by (simp add: SendNextDatagram_def seq_GetConnContext Let_def map_contains_def conn_met_def conn_find_mod)

subsection \<open>Streams\<close>

text \<open>A callback that offers no room loses the object that was to be sent next: no octet is written, and the object is
  given up.\<close>

theorem offer_of_zero_drops_object:
  assumes "dc_find p t = Some d" "dc_stream_tx_object d = Some data" "dc_stream_tx_object_offset d = 0" "data \<noteq> []"
    "length data < 2 ^ 32" "dc_tx_data d = Some q" "\<forall>calls. buffer_available pq calls"
  shows "\<exists>t' d'. write_tx_object pq p b 0 t = (Inr (), t') \<and> written (pt_calls t') = written (pt_calls t) \<and>
    dc_find p t' = Some d' \<and> dc_stream_tx_object d' = None"
proof -
  have "sub64 (length data) 0 mod 2 ^ 32 = length data" "add64 0 0 = 0" using assms(5) by (simp_all add: sub64_small limit64_def)
  then show ?thesis using assms
    by (simp add: write_tx_object_def live_simps Let_def) (simp add: dc_find_put ResetTxObject_def written_def)
qed

text \<open>While a context discards until the next stream, an object for the current stream is counted as discarded and kept in
  the queue; then the same callback takes it off and sends it.\<close>

theorem discarded_object_is_kept:
  assumes "dc_find p t = Some d" "dc_tx_data d = Some q" "pq_Front (tick_ms pq) q empty_element = (q', obj)" "has_value obj"
    "cd_stream_action (elem_value obj) = StreamAction_kNoAction"
  shows "\<exists>d'. reset_wait pq p t = (Inr (obj, True), dc_put p d' t) \<and> dc_tx_data d' = Some q' \<and>
    qd_tx_queue_discards (dc_metrics d') = qd_tx_queue_discards (dc_metrics d) + 1 \<and>
    dc_stream_tx_object d' = dc_stream_tx_object d \<and> dc_tx_reset_wait_discard d' = dc_tx_reset_wait_discard d"
  using assms by (auto simp: reset_wait_def front_object_def live_simps)

text \<open>When the peer ends the stream of a context, the context has no stream any more, and marking it active, which is how
  queued objects are announced to picoquic, does nothing: the context sends nothing again.\<close>

lemma forget_stream_result: "forget_stream (Some p) t = (Inr x, t') \<Longrightarrow> \<exists>d. dc_find p t' = Some d \<and> dc_current_stream_id d = None"
  by (auto simp: forget_stream_def dc_mod_def dc_find_put split: option.splits)

theorem stream_end_stalls_context:
  assumes "PqEventCb pq cid (Ev_stream_data sid data True) (Some p) t = (Inr r, t')" "conn_find cid t \<noteq> None"
  shows "\<exists>d. dc_find p t' = Some d \<and> dc_current_stream_id d = None \<and>
    (\<not> pt_state_mutex t' \<longrightarrow> (\<exists>t''. MarkStreamActive (fst p) (snd p) t' = (Inr (), t'') \<and> pt_calls t'' = pt_calls t'))"
proof -
  obtain x where "recv_stream_data pq cid sid data True (Some p) t = (Inr x, t')"
    using assms(1) by (auto simp: PqEventCb_def seq_Inr_iff)
  then obtain t1 where "forget_stream (Some p) t1 = (Inr x, t')"
    using assms(2) by (auto simp: recv_stream_data_def recv_data_ctx_def seq_Inr_iff)
  then obtain d where d: "dc_find p t' = Some d" "dc_current_stream_id d = None" using forget_stream_result by blast
  have "\<exists>t''. MarkStreamActive (fst p) (snd p) t' = (Inr (), t'') \<and> pt_calls t'' = pt_calls t'" if "\<not> pt_state_mutex t'"
    using that d by (simp add: MarkStreamActive_def lock_guard_def seq_dc_mod)
  then show ?thesis using d by blast
qed

text \<open>The server makes a new data context for data on a bidirectional stream that it opened itself and that has no context
  any more, since its test of the stream id always succeeds; the client ignores such data.\<close>

theorem server_accepts_own_stream:
  assumes "sid AND 3 = 1" "conn_find cid t = Some c" "map_find (pc_active_data_contexts c) (pc_next_data_ctx_id c) = None"
    "\<not> pt_state_mutex t" "tx_queue_new t = Inr q" "pt_is_server_mode t"
  shows "\<exists>t'. recv_data_ctx cid sid None t = (Inr (Some (Some (cid, pc_next_data_ctx_id c))), t')"
proof -
  have bits: "sid AND 2 \<noteq> 2"
  proof
    assume "sid AND 2 = 2"
    then have "(sid AND 3) AND 2 = 2" by (simp add: and.assoc)
    then show False using assms(1) by simp
  qed
  let ?did = "pc_next_data_ctx_id c"
  let ?d = "DataContext_new\<lparr>dc_conn_id := cid, dc_is_bidir := True, dc_data_ctx_id := ?did, dc_priority := 1\<rparr>"
  let ?t = "conn_put cid (c\<lparr>pc_next_data_ctx_id := ?did + 1, pc_active_data_contexts := map_put ?did ?d (pc_active_data_contexts c)\<rparr>)
    (t\<lparr>pt_state_mutex := True\<rparr>)"
  have f: "dc_find (cid, ?did) ?t = Some ?d" by (simp add: dc_find_def map_find_put)
  have q: "tx_queue_new ?t = Inr q" using assms(5) by (simp add: tx_queue_new_def)
  have "\<exists>t'. CreateDataContextBiDirRecv cid sid t = (Inr (Some (cid, ?did)), t')"
    using assms(2-4) f q by (simp add: CreateDataContextBiDirRecv_def lock_guard_def Let_def seq_lift live_simps)
  then obtain t1 where "CreateDataContextBiDirRecv cid sid t = (Inr (Some (cid, ?did)), t1)" by blast
  then show ?thesis using bits assms(6) by (simp add: recv_data_ctx_def seq_eq(1))
qed

text \<open>\<^verbatim>\<open>SetStreamIdDataCtxId\<close> gives a data context another stream and leaves picoquic with the pointer it holds for the
  stream before. When the context is deleted, only the new stream is unlinked: picoquic keeps a pointer to a context that is
  gone.\<close>

theorem set_stream_id_leaves_pointer:
  assumes "\<not> pt_state_mutex t" "\<forall>p d. dc_find p t = Some d \<longrightarrow> dc_tx_data d \<noteq> None" "dc_find (cid, did) t = Some d"
    "app_ctx (pt_calls t) (cid, old) = Some (cid, did)" "sid \<noteq> old"
  shows "\<exists>t' t''. SetStreamIdDataCtxId cid did sid t = (Inr (), t') \<and> DeleteDataContextInternal cid did False t' = (Inr (), t'') \<and>
    dc_find (cid, did) t'' = None \<and> app_ctx (pt_calls t'') (cid, old) = Some (cid, did)"
proof -
  let ?p = "(cid, did)"
  let ?d = "d\<lparr>dc_current_stream_id := Some sid\<rparr>"
  let ?t = "RunPqFunction (Fn_SetAppStreamCtx ?p sid) (dc_put ?p ?d t)"
  obtain q where q: "dc_tx_data d = Some q" using assms(2,3) by blast
  have set: "SetStreamIdDataCtxId cid did sid t = (Inr (), ?t)"
    using assms(1,3) by (simp add: SetStreamIdDataCtxId_def lock_guard_def live_simps RunPqFunction_def call_pq_def)
  have "runnable (dc_put ?p ?d t)" using runnable_put [of t ?p d ?d] assms(1-3) q by (simp add: runnable_def)
  then have r: "runnable ?t" "dc_find ?p ?t = Some ?d" using assms(3) by (simp_all add: runnable_def dc_find_put)
  obtain t1 d1 ks where t1: "CloseStream cid ?p False ?t = (Inr (), t1)" "pt_calls t1 = pt_calls ?t @ ks"
    "dc_find ?p t1 = Some d1" "fold app_step ks f (cid, old) = f (cid, old)" for f
    using CloseStream_runs [OF r, of False] assms(5) by auto
  let ?e = "conn_mod cid (\<lambda>c. c\<lparr>pc_active_data_contexts := map_erase did (pc_active_data_contexts c)\<rparr>) t1"
  have "DeleteDataContextInternal cid did False ?t = (Inr (), ?e)"
    using r(2) q by (simp add: DeleteDataContextInternal_def seq_assoc seq_tx_queue seq_eq(1) t1(1))
  moreover have "dc_find ?p ?e = None" by (auto simp: dc_find_def conn_find_mod map_erase_find split: option.splits)
  ultimately show ?thesis using set t1(2,4) assms(4) by (simp add: RunPqFunction_def call_pq_def)
qed

text \<open>Replacing the stream of a context for which octets were received locks the mutex twice.\<close>

theorem replace_stream_locks_twice:
  assumes "dc_find p t = Some d" "dc_conn_id d = fst p" "dc_current_stream_id d = Some sid" "conn_find (fst p) t = Some c"
    "map_contains (pc_rx_stream_buffer c) sid"
  shows "fst (replace_stream pq p send_reset t) = Inl Undefined_Behaviour"
proof -
  have "fst (CloseStream (fst p) p send_reset (t\<lparr>pt_state_mutex := True\<rparr>)) = Inl Undefined_Behaviour"
    using assms by (simp add: CloseStream_def seq_deref seq_GetConnContext) (simp add: seq_def lock_guard_def)
  then obtain u where u: "CloseStream (fst p) p send_reset (t\<lparr>pt_state_mutex := True\<rparr>) = (Inl Undefined_Behaviour, u)"
    by (metis prod.collapse)
  show ?thesis
  proof (cases "pt_state_mutex t")
    case True
    then show ?thesis by (simp add: replace_stream_def seq_def lock_guard_def)
  next
    case False
    then have "lock_guard (seq (deref p) (\<lambda>d. seq (GetConnContext (dc_conn_id d)) (\<lambda>_. seq (CloseStream (dc_conn_id d) p send_reset) (\<lambda>_.
        seq (CreateStream pq (dc_conn_id d) p) (\<lambda>_. dc_mod p (\<lambda>d. d\<lparr>dc_tx_reset_wait_discard := False, dc_mark_stream_active := False\<rparr>)))))) t =
        (Inl Undefined_Behaviour, u\<lparr>pt_state_mutex := False\<rparr>)"
      using assms(1,2,4) u by (simp add: lock_guard_def seq_deref seq_GetConnContext seq_eq(2))
    then show ?thesis by (simp add: replace_stream_def seq_eq(2))
  qed
qed

subsection \<open>Notifications\<close>

text \<open>C26. A notification about received data holds a pointer to the connection context. When the connection is closed
  before the thread that calls the user gets to it, the thread reads through the pointer to the erased context.\<close>

theorem notification_after_close:
  assumes "conn_find cid t = Some c" "\<not> pt_state_mutex t" "\<not> pt_stop t" "\<not> sq_stop_waiting (pt_cbNotifyQueue t)"
    "sq_queue (pt_cbNotifyQueue t) = [Cb_RecvStream cid sid v]" "1 < sq_limit (pt_cbNotifyQueue t)"
  shows "\<exists>t' r. Close cid reason t = (Inr (), t') \<and> CbNotifier_turn t' = Some r \<and> fst r = Inl Undefined_Behaviour"
proof -
  have fold: "pt_cbNotifyQueue (fold (close_stream_calls cid) bufs u) = pt_cbNotifyQueue u \<and> pt_stop (fold (close_stream_calls cid) bufs u) = pt_stop u"
    for bufs u by (induction bufs arbitrary: u) (simp_all add: close_stream_calls_def Let_def call_pq_def)
  let ?n = "Cb_ConnectionStatus cid (close_status reason)"
  let ?u = "fold (close_stream_calls cid) (pc_rx_stream_buffer c) (t\<lparr>pt_state_mutex := True\<rparr>)"
  define t1 where "t1 = (if \<not> pt_is_server_mode t then SetStatus TransportStatus_kShutdown (notify ?n ?u) else notify ?n ?u)"
  define t' where "t' = (call_pq (Pq_close cid reason) t1)\<lparr>pt_conn_context := map_erase cid (pt_conn_context t1), pt_state_mutex := False\<rparr>"
  have status: "pq_OnConnectionStatus cid (close_status reason) u = (Inr (), notify ?n u)" for u
    by (simp add: pq_OnConnectionStatus_def close_status_def seq_eq(1))
  have close: "Close cid reason t = (Inr (), t')"
    using assms(1,2)
    by (cases "pt_is_server_mode t") (simp_all add: Close_def lock_guard_def status seq_eq(1) t1_def t'_def call_pq_def SetStatus_def)
  have q: "pt_cbNotifyQueue t' = (pt_cbNotifyQueue t)\<lparr>sq_queue := [Cb_RecvStream cid sid v, ?n]\<rparr>" "pt_stop t' = pt_stop t"
    using assms(5,6) fold [of "pc_rx_stream_buffer c" "t\<lparr>pt_state_mutex := True\<rparr>"]
    by (simp_all add: t'_def t1_def call_pq_def SetStatus_def notify_def sq_Push_def)
  have gone: "conn_find cid (t'\<lparr>pt_cbNotifyQueue := nq\<rparr>) = None" for nq
    by (simp add: t'_def conn_find_def map_erase_find)
  have "fst (run_notification (Cb_RecvStream cid sid v) (t'\<lparr>pt_cbNotifyQueue := nq\<rparr>)) = Inl Undefined_Behaviour" for nq
    using gone by (cases v) (simp_all add: run_notification_def seq_def GetConnContext_def)
  then show ?thesis using close q assms(3,4) by (simp add: CbNotifier_turn_def sq_BlockPop_def sq_PopInternal_def) (metis prod.collapse)
qed

theorem notification_after_close_witness:
  "\<exists>t' r. Close 7 0 (notify (Cb_RecvStream 7 2 None) pico0) = (Inr (), t') \<and> CbNotifier_turn t' = Some r \<and> fst r = Inl Undefined_Behaviour"
  by (rule notification_after_close [where c = "PqConnection_new\<lparr>pc_conn_id := 7\<rparr>" and sid = 2 and v = None])
    (simp_all add: notify_def pico0_def conn_find_def SafeQueue_new_def sq_Push_def)

text \<open>When the queue of functions is full, the function that is dropped can be the one that marks a stream active, while the
  flag of its context says that it is queued: no later object queues another.\<close>

theorem lost_mark_is_not_repeated:
  assumes "sq_queue (pt_runner_queue t) = Fn_MarkStreamActive cid did # fs" "sq_limit (pt_runner_queue t) \<le> length (sq_queue (pt_runner_queue t))"
    "Fn_MarkStreamActive cid did \<notin> set fs" "f \<noteq> Fn_MarkStreamActive cid did"
  shows "Fn_MarkStreamActive cid did \<notin> set (sq_queue (pt_runner_queue (RunPqFunction f t)))"
  using assms by (simp add: sq_Push_def)

subsection \<open>Congestion\<close>

text \<open>The number of checks without congestion is not reset by a check that finds congestion, although it is documented to
  count consecutive ones.\<close>

theorem congestion_keeps_gauge:
  "pc_not_congested_gauge (act_on_congestion s (Suc n) w c) = pc_not_congested_gauge c \<and>
   (pc_is_congested c \<and> pc_not_congested_gauge c > 8 \<longrightarrow>
      \<not> pc_is_congested (act_on_congestion s 0 w (act_on_congestion s (Suc n) w c)))"
  by (simp add: act_on_congestion_def Let_def)

end
