(* ===== verification/Metrics_Flow.thy ===== *)
theory Metrics_Flow
  imports Pico_Safety Transport_Reachable
begin

section \<open>Metrics from the QUIC transport to the application\<close>

text \<open>
  The samples that \<^verbatim>\<open>EmitMetrics\<close> of the transport on picoquic hands to its delegate, which is \<^verbatim>\<open>Transport\<close>, whose
  callbacks store them with the connection and with the published track of a data context and report them.
\<close>

text \<open>The calls of the delegate that carry samples, as \<^verbatim>\<open>Transport\<close> implements them.\<close>

fun deliver_sample :: "u64 \<Rightarrow> delegate_call \<Rightarrow> 't Transport \<Rightarrow> 't Transport" where
  "deliver_sample sample_time (Del_OnConnectionMetricsSampled cid m) = OnConnectionMetricsSampled sample_time cid m"
| "deliver_sample sample_time (Del_OnDataMetricsStampled cid did m) = OnDataMetricsStampled sample_time cid did m"
| "deliver_sample _ _ = (\<lambda>tr. tr)"

text \<open>What a sample does to the metrics of the connections: only the sample of a connection changes them.\<close>

fun sampled :: "u64 \<Rightarrow> delegate_call \<Rightarrow> (u64 \<Rightarrow> QuicConnectionMetrics) \<Rightarrow> u64 \<Rightarrow> QuicConnectionMetrics" where
  "sampled sample_time (Del_OnConnectionMetricsSampled cid m) f = f(cid := m)"
| "sampled _ _ f = f"

definition quic_of :: "'t Transport \<Rightarrow> u64 \<Rightarrow> QuicConnectionMetrics" where
  "quic_of tr cid = cm_quic (conn_metrics (conn_at cid tr))"

lemma sub_samples_connections: "connections (fold (\<lambda>(_, h). sub_sample h) hs tr) = connections tr"
  by (induction hs arbitrary: tr) (simp_all add: case_prod_unfold sub_sample_def Let_def emit_def)

lemma sub_samples_events: "e \<in> set (events tr) \<Longrightarrow> e \<in> set (events (fold (\<lambda>(_, h). sub_sample h) hs tr))"
  by (induction hs arbitrary: tr) (simp_all add: case_prod_unfold sub_sample_def Let_def emit_def)

lemma data_sample_frame:
  "conn_at cid' (OnDataMetricsStampled time cid did m tr) = conn_at cid' tr"
  "e \<in> set (events tr) \<Longrightarrow> e \<in> set (events (OnDataMetricsStampled time cid did m tr))"
proof -
  note d = OnDataMetricsStampled_def Let_def mod_conn_def put_conn_def put_pub_def emit_def
  show "conn_at cid' (OnDataMetricsStampled time cid did m tr) = conn_at cid' tr"
    by (simp add: d sub_samples_connections conn_at_def map_at_def map_find_put split: option.split)
  show "e \<in> set (events tr) \<Longrightarrow> e \<in> set (events (OnDataMetricsStampled time cid did m tr))"
    unfolding d by (rule sub_samples_events) (simp split: option.split)
qed

lemma conn_sample_frame:
  "conn_at cid' (OnConnectionMetricsSampled time cid m tr) =
     (if cid' = cid then (conn_at cid tr)\<lparr>conn_metrics := (conn_metrics (conn_at cid tr))\<lparr>cm_last_sample_time := time, cm_quic := m\<rparr>\<rparr>
      else conn_at cid' tr)"
  "e \<in> set (events tr) \<Longrightarrow> e \<in> set (events (OnConnectionMetricsSampled time cid m tr))"
  by (auto simp: OnConnectionMetricsSampled_def Let_def mod_conn_def put_conn_def emit_def conn_at_def map_at_def map_find_put)

text \<open>A sequence of samples leaves everything of a connection alone but its metrics, and forgets no report.\<close>

lemma deliver_step:
  "quic_of (deliver_sample time k tr) = sampled time k (quic_of tr)"
  "pub_tracks_by_data_ctx_id (conn_at cid (deliver_sample time k tr)) = pub_tracks_by_data_ctx_id (conn_at cid tr)"
  "e \<in> set (events tr) \<Longrightarrow> e \<in> set (events (deliver_sample time k tr))"
  by (cases k; simp add: quic_of_def fun_eq_iff conn_sample_frame data_sample_frame)+

lemma deliver_metrics: "quic_of (fold (deliver_sample time) calls tr) = fold (sampled time) calls (quic_of tr)"
  by (induction calls arbitrary: tr) (simp_all add: deliver_step(1))

lemma deliver_tracks:
  "pub_tracks_by_data_ctx_id (conn_at cid (fold (deliver_sample time) calls tr)) = pub_tracks_by_data_ctx_id (conn_at cid tr)"
  by (induction calls arbitrary: tr) (simp_all add: deliver_step(2))

lemma deliver_events: "e \<in> set (events tr) \<Longrightarrow> e \<in> set (events (fold (deliver_sample time) calls tr))"
  by (induction calls arbitrary: tr) (simp_all add: deliver_step(3))

lemma data_sample_reports:
  assumes "map_find (pub_tracks_by_data_ctx_id (conn_at cid tr)) did = Some h"
  shows "\<exists>pm. Ev_PublishMetricsSampled h (publish_sample time m pm) \<in> set (events (OnDataMetricsStampled time cid did m tr))"
proof -
  let ?tr = "mod_conn cid (\<lambda>c. c) tr" let ?p = "pubs tr h"
  let ?pm = "publish_sample time m (publish_track_metrics (pb_handler ?p))"
  let ?e = "emit (Ev_PublishMetricsSampled h ?pm) (put_pub h (?p\<lparr>pb_handler := (pb_handler ?p)\<lparr>publish_track_metrics := ?pm\<rparr>\<rparr>) ?tr)"
  have same: "conn_at cid ?tr = conn_at cid tr" "pubs ?tr = pubs tr" by (simp_all add: mod_conn_def put_conn_def conn_at_def map_at_def map_find_put)
  have eq: "OnDataMetricsStampled time cid did m tr = fold (\<lambda>(_, h). sub_sample h) (sub_tracks_by_request_id (conn_at cid tr)) ?e"
    using assms same by (simp add: OnDataMetricsStampled_def Let_def)
  have "Ev_PublishMetricsSampled h ?pm \<in> set (events ?e)" by (simp add: emit_def)
  then show ?thesis unfolding eq using sub_samples_events by blast
qed

lemma sampled_connections:
  assumes "distinct (map fst conns)"
  shows "fold (sampled time) (concat (map metrics_samples conns)) f =
    (\<lambda>cid. case map_of conns cid of None \<Rightarrow> f cid | Some c \<Rightarrow> pc_metrics c)"
  using assms
proof (induction conns arbitrary: f)
  case (Cons cc conns)
  have "fold (sampled time) (map (\<lambda>(did, d). Del_OnDataMetricsStampled (fst cc) did (dc_metrics d)) ds) g = g" for ds g
    by (induction ds) (simp_all add: case_prod_unfold)
  then have "fold (sampled time) (metrics_samples cc) f = f(fst cc := pc_metrics (snd cc))"
    by (simp add: metrics_samples_def)
  moreover have "map_of conns (fst cc) = None" using Cons.prems by (simp add: map_of_eq_None_iff)
  ultimately show ?case using Cons by (auto simp: fun_eq_iff split: option.split)
qed simp



end
