(* ===== verification/Spec2Isabelle.thy ===== *)
theory Spec2Isabelle
  imports Transport_Reachable Stream_Routing Published_Tracks Relay_Namespaces Tick_Service Cache Data_Storage
    Pico_Runner Pico_Hazards Metrics_Flow
begin

text \<open>
  This library models libquicr, a C++ implementation of Media over QUIC Transport (MOQT): clients and
  relays publish tracks of objects and subscribe to them over QUIC connections.

  \<^bold>\<open>The parts and how they interact.\<close> An application owns publish and subscribe handlers, one for each
  track. \<^verbatim>\<open>Transport\<close> (\<^verbatim>\<open>transport.cpp\<close>), extended by \<^verbatim>\<open>Client\<close> and \<^verbatim>\<open>Server\<close>, keeps for every
  connection tables of requests and tracks, sends the control messages of MOQT on one bidirectional stream,
  takes the received control messages apart, and routes the received data streams and datagrams to handlers by
  track alias or request id. A publish handler writes objects behind stream headers with the messages of
  \<^verbatim>\<open>messages.cpp\<close>; a subscribe handler parses them incrementally from a \<^verbatim>\<open>StreamBuffer\<close>. Names are hashed
  into track aliases with the CityHash of \<^verbatim>\<open>hash.h\<close>. Below the library lies the interface \<^verbatim>\<open>ITransport\<close>,
  implemented by \<^verbatim>\<open>PicoQuicTransport\<close> (\<^verbatim>\<open>transport_picoquic.cpp\<close>) on the picoquic library: it queues the objects of a
  data context in a \<^verbatim>\<open>PriorityQueue\<close> of \<^verbatim>\<open>TimeQueue\<close>s, writes them to streams when picoquic asks for data, and hands
  work from thread to thread in two \<^verbatim>\<open>SafeQueue\<close>s; relays keep objects in a \<^verbatim>\<open>Cache\<close>.

  \<^bold>\<open>Conventions.\<close> Unsigned integers are words of their width; the containers, which compute on sizes and
  ticks, use natural numbers with the wrap-around at 64 bits written out (\<open>Wrap64\<close>). A function that throws
  returns a sum type whose left side is the exception or undefined behaviour; an operation that mutates before
  it throws returns the mutated state too. Objects shared by pointers live in a store (\<open>subs\<close>, \<open>pubs\<close>). Methods
  that hold a mutex for their duration are atomic steps. Logging has no effect on the state and is left out.

  \<^bold>\<open>Theories.\<close>
  \<^item> \<open>Quicr_Prelude\<close>: words, octets, exceptions, shared lemmas. \<open>Std_Map\<close>: \<^verbatim>\<open>std::map\<close> with the
    locale of a finite map. \<open>Wrap64\<close>: 64-bit counters and the locale of a FIFO queue.
  \<^item> \<open>Uint_Var\<close> (\<^verbatim>\<open>uintvar.h\<close>, \<^verbatim>\<open>utilities.h\<close>), \<open>Stream_Buffer\<close> (\<^verbatim>\<open>stream_buffer.h\<close>), \<open>City_Hash\<close>
    (\<^verbatim>\<open>hash.h\<close>), \<open>Track_Name\<close> (\<^verbatim>\<open>track_name.h\<close>): round trips, resumable reads, hashing within bounds, prefixes.
  \<^item> \<open>Wire_Enums\<close>, \<open>Ctrl_Message_Types\<close> (\<^verbatim>\<open>ctrl_message_types.h/.cpp\<close>): the enumerations, and the fields of
    control messages with their round trips and errors.
  \<^item> \<open>Incremental\<close> (the shape of the parsers, a locale), \<open>Data_Headers\<close>, \<open>Extensions\<close>,
    \<open>Data_Messages\<close> (\<^verbatim>\<open>messages.h/.cpp\<close>): every header and object is parsed back from its octets however these are
    cut into pieces.
  \<^item> \<open>Safe_Queue\<close>, \<open>Tick_Service\<close>, \<open>Time_Queue\<close>, \<open>Priority_Queue\<close>, \<open>Cache\<close>, \<open>Data_Storage\<close> (the
    headers of the same names): invariants, order, expiry, and where the code departs from them.
  \<^item> \<open>Publish_Handler\<close>, \<open>Subscribe_Handler\<close> (\<^verbatim>\<open>publish_track_handler\<close>, \<^verbatim>\<open>publish_fetch_handler\<close>,
    \<^verbatim>\<open>subscribe_track_handler\<close>, \<^verbatim>\<open>fetch_track_handler\<close>, \<^verbatim>\<open>joining_fetch_handler\<close>), and both end to end in
    \<open>Publish_Subscribe\<close>.
  \<^item> \<open>Transport_State\<close> (the records of \<^verbatim>\<open>transport.h\<close>, the \<^verbatim>\<open>Send...\<close> functions), \<open>Transport_Frame\<close> (what
    each write leaves alone), \<open>Transport_Start\<close> (the connect URI, \<^verbatim>\<open>Start\<close>), \<open>Transport_Tracks\<close>
    (operations of the application, connection events), \<open>Transport_Recv\<close> (control stream, data streams,
    datagrams), \<open>Client_Control\<close> (\<^verbatim>\<open>client.cpp\<close>), \<open>Server_Control\<close> (\<^verbatim>\<open>server.cpp\<close>).
  \<^item> On these, the properties that span them: \<open>Connection_Invariant\<close> shows for every operation and every message
    what it keeps of a connection; \<open>Transport_Reachable\<close> makes client and server step relations of all operations
    and callbacks and proves that the tables stay ordered and that the request ids of the two ends never collide;
    \<open>Transport_Core\<close> shows that every message handler commutes with forgetting the control buffer, and
    \<open>Control_Stream\<close> that the read loop therefore refines handling the messages one by one, however their octets are
    cut into pieces (the locale \<open>ctrl_handler\<close>, with client and server as interpretations);
    \<open>Subscriptions\<close> follows a subscription from its request to the data routed to it and to the end of the
    connection; \<open>Published_Tracks\<close> a published or announced track; \<open>Relay_Namespaces\<close> the namespaces of a
    relay; \<open>Stream_Routing\<close> the limits and faults of the receive callbacks. \<open>Recording_Quic\<close> is an
    environment in which the examples run.

  \<^item> The QUIC transport. \<open>Quic_Metrics\<close> (\<^verbatim>\<open>quic_transport_metrics.h\<close>) has the counters. \<open>Pico_State\<close> has the records
    of \<^verbatim>\<open>transport_picoquic.h\<close>, the functions left for another thread as data (\<open>pq_function\<close>, \<open>notification\<close>) and the
    calls made to picoquic and to the delegate as recorded lists; picoquic itself is the argument \<open>picoquic\<close> of the
    operations, which says what its queries answer. A pointer to a data context is the pair of its keys, and reading through it after the context was
    erased is undefined behaviour; so is locking \<^verbatim>\<open>state_mutex_\<close> twice. \<open>Pico_Send\<close> has data contexts, streams, \<^verbatim>\<open>Enqueue\<close>, \<^verbatim>\<open>SendStreamBytes\<close> and
    \<^verbatim>\<open>SendNextDatagram\<close>; \<open>Pico_Events\<close> connections, receiving, \<^verbatim>\<open>PqEventCb\<close>, \<^verbatim>\<open>PqRunner\<close> and \<^verbatim>\<open>CbNotifier\<close>;
    \<open>Pico_Loop\<close> the packet loop with metrics and the congestion check.
  \<^item> On these, \<open>Pico_Frame\<close> has what each write leaves alone; \<open>Pico_Delivery\<close> follows objects from \<^verbatim>\<open>Enqueue\<close> to the octets handed to picoquic,
    and the control messages of \<^verbatim>\<open>SendCtrlMsg\<close> as a case of it, with a clock that stands still; \<open>Pico_Pointers\<close> and \<open>Pico_Safety\<close> make the calls
    of the user, the callbacks and the turns of the threads a step relation and prove that a stream context held by
    picoquic always points to a live data context (\<open>app_ctx\<close> reads off the recorded calls which context picoquic holds; it makes no callback for a connection that was closed);
    \<open>Pico_Runner\<close> shows that \<^verbatim>\<open>PqRunner\<close> ends; \<open>Pico_Hazards\<close> shows where the transport departs from its documentation;
    \<open>Metrics_Flow\<close> follows the metrics from the callbacks of picoquic through \<^verbatim>\<open>EmitMetrics\<close> and the callbacks of \<^verbatim>\<open>Transport\<close> to the application.

  \<^bold>\<open>Bounds.\<close> The loops of the containers are recursive on what they consume; the loop of \<open>OnRecvStream\<close> ends
  because a step either takes a piece from the queue or raises the counter towards its limit. Copying from a sliced
  buffer takes as fuel the number of octets in it, which is enough since every step of the iterator passes one.
  \<^verbatim>\<open>PqRunner\<close> takes the size of its queue plus one, which is enough since no function it runs queues another.

  \<^bold>\<open>Not modelled.\<close> Of \<^verbatim>\<open>transport_picoquic\<close> starting and stopping threads and the picoquic context (\<^verbatim>\<open>Start\<close> but for the
  limits it sets, \<^verbatim>\<open>StartClient\<close>, \<^verbatim>\<open>Server\<close>, \<^verbatim>\<open>ClientLoop\<close>, \<^verbatim>\<open>Shutdown\<close>), the address query \<^verbatim>\<open>GetPeerAddrInfo\<close> and the empty
  \<^verbatim>\<open>SetRemoteDataCtxId\<close>; the wire format of whole control messages, which the build generates: a parameter of the
  model (\<open>env\<close>), of which the properties only use that the reader of a message does not look behind it; the C bridge, the example programs and the option parser bundled
  with them; benchmarks, fuzzer and tests.
\<close>

end
